(* ===== verification/Prelude.thy ===== *)
theory Prelude
  imports Main "HOL-Library.Word" "HOL-Library.Monad_Syntax"
begin

unbundle bit_operations_syntax

text \<open>
  Shared vocabulary of the development: the machine integers of the code, the status
  codes of the Xilinx drivers (\<open>xstatus.h\<close>), the faults that stand for undefined
  behaviour of C, byte order conversions on a little-endian AArch64, and the generic
  lemmas on lists, words and buffers that the component theories use.

  Conventions used everywhere:
  \<^item> C \<open>int\<close> return codes are \<open>int\<close>; \<open>u8\<close>, \<open>u16\<close>, \<open>u32\<close>, \<open>u64\<close> are words;
    loop counters that the code bounds are \<open>nat\<close>.
  \<^item> A C function that changes a device or memory takes the state last and returns the
    pair of its result and the new state.
  \<^item> A loop whose end depends on the hardware is a \<open>partial_function (option)\<close>: \<open>None\<close>
    means that the loop does not end.
  \<^item> An access outside an array, the use of an uninitialised variable or of a null
    pointer is a value \<open>Inl fault\<close>.
\<close>

section \<open>Machine integers and status codes\<close>

type_synonym u8 = "8 word"
type_synonym u16 = "16 word"
type_synonym u32 = "32 word"
type_synonym u64 = "64 word"

definition XST_SUCCESS :: int where
  "XST_SUCCESS = 0"

definition XST_FAILURE :: int where
  "XST_FAILURE = 1"

lemma xst_neq [simp]: "XST_FAILURE \<noteq> XST_SUCCESS" "XST_SUCCESS \<noteq> XST_FAILURE"
  by (simp_all add: XST_SUCCESS_def XST_FAILURE_def)

text \<open>What C leaves undefined and the code can reach.\<close>

datatype fault = OutOfBounds | Uninitialised | NullPointer

text \<open>Facts that evaluate a closed model term: definitions of constants and tables.\<close>

named_theorems model_eval

declare XST_SUCCESS_def [model_eval] XST_FAILURE_def [model_eval]

lemma unat_u32_less: "unat (a :: u32) < 2 ^ 32"
  using unsigned_less [of a] by simp

lemma unat_u32_plus:
  "unat a + unat b \<le> 0xFFFFFFFF \<Longrightarrow> unat (a + b :: u32) = unat a + unat b"
  using unat_add_lem [of a b] by simp

lemma unat_u32_mult:
  "unat a * unat b \<le> 0xFFFFFFFF \<Longrightarrow> unat (a * b :: u32) = unat a * unat b"
  using unat_mult_lem [of a b] by simp

lemma and_exp_iff_bit: "(a :: 'a :: len word) AND 2 ^ k \<noteq> 0 \<longleftrightarrow> bit a k"
proof -
  have "a AND 2 ^ k = (if bit a k then 2 ^ k else 0)"
    by (rule bit_word_eqI) (auto simp: bit_simps)
  then show ?thesis by (auto simp: exp_eq_zero_iff dest: bit_imp_le_length)
qed

lemma unat_byte: "unat (ucast (drop_bit k (a :: u32)) :: u8) = unat a div 2 ^ k mod 256"
proof -
  have "unat (ucast (drop_bit k a) :: u8) = take_bit 8 (unat (drop_bit k a))"
    by transfer (simp add: nat_take_bit_eq flip: take_bit_nat_def)
  also have "\<dots> = take_bit 8 (drop_bit k (unat a))" by (simp only: unat_drop_bit_eq)
  also have "\<dots> = unat a div 2 ^ k mod 2 ^ 8" by (simp only: take_bit_eq_mod drop_bit_eq_div)
  finally show ?thesis by simp
qed

text \<open>Numbers in base 256.\<close>

lemma base256_3:
  "n div 65536 mod 256 * 65536 + n div 256 mod 256 * 256 + n mod 256 = (n :: nat) mod 2 ^ 24"
proof -
  have "n mod (256 * 65536) = 256 * (n div 256 mod 65536) + n mod 256" by (rule mod_mult2_eq)
  moreover have "n div 256 mod (256 * 256) = 256 * (n div 256 div 256 mod 256) + n div 256 mod 256"
    by (rule mod_mult2_eq)
  moreover have "n div 65536 = n div 256 div 256" using div_mult2_eq [of n 256 256] by simp
  ultimately show ?thesis by simp
qed

lemma base256_4:
  assumes "n < 2 ^ 32"
  shows "n div 16777216 mod 256 * 16777216 + n div 65536 mod 256 * 65536 +
         n div 256 mod 256 * 256 + n mod 256 = (n :: nat)"
proof -
  have "n div 16777216 < 256" using assms by (simp add: less_mult_imp_div_less)
  then have "n div 16777216 mod 256 * 16777216 + n mod 2 ^ 24 = n" by simp
  then show ?thesis using base256_3 [of n] by linarith
qed

section \<open>Byte order\<close>

definition le32 :: "u32 \<Rightarrow> u8 list" where
  "le32 w = [ucast w, ucast (drop_bit 8 w), ucast (drop_bit 16 w), ucast (drop_bit 24 w)]"

fun of_le32 :: "u8 list \<Rightarrow> u32" where
  "of_le32 [a, b, c, d] =
     ucast a OR push_bit 8 (ucast b) OR push_bit 16 (ucast c) OR push_bit 24 (ucast d)"
| "of_le32 _ = 0"

definition le16 :: "u16 \<Rightarrow> u8 list" where
  "le16 w = [ucast w, ucast (drop_bit 8 w)]"

fun of_le16 :: "u8 list \<Rightarrow> u16" where
  "of_le16 [a, b] = ucast a OR push_bit 8 (ucast b)"
| "of_le16 _ = 0"

lemma u8_bit_beyond [simp]: "8 \<le> n \<Longrightarrow> \<not> bit (w :: u8) n"
  by (auto dest: bit_imp_le_length)

lemma length_le32 [simp]: "length (le32 w) = 4"
  by (simp add: le32_def)

lemma length_le16 [simp]: "length (le16 w) = 2"
  by (simp add: le16_def)

lemma of_le32_le32 [simp]: "of_le32 (le32 w) = w"
proof (rule bit_word_eqI)
  fix n assume "n < LENGTH(32)"
  then have "n < 8 \<or> 8 \<le> n \<and> n < 16 \<or> 16 \<le> n \<and> n < 24 \<or> 24 \<le> n \<and> n < 32" by auto
  then show "bit (of_le32 (le32 w)) n = bit w n"
    by (elim disjE) (auto simp: le32_def bit_simps)
qed

lemma le32_of_le32 [simp]: "le32 (of_le32 [a, b, c, d]) = [a, b, c, d]"
  unfolding le32_def of_le32.simps
  by (auto intro!: bit_word_eqI simp: bit_simps)

lemma of_le16_le16 [simp]: "of_le16 (le16 w) = w"
  unfolding le16_def of_le16.simps
  by (rule bit_word_eqI) (auto simp: bit_simps)

lemma le16_of_le16 [simp]: "le16 (of_le16 [a, b]) = [a, b]"
  unfolding le16_def of_le16.simps
  by (auto intro!: bit_word_eqI simp: bit_simps)

text \<open>A buffer of words seen as bytes, and back: what a cast of the pointer does.\<close>

definition bytes_of_words :: "u32 list \<Rightarrow> u8 list" where
  "bytes_of_words ws = concat (map le32 ws)"

fun words_of_bytes :: "u8 list \<Rightarrow> u32 list" where
  "words_of_bytes (a # b # c # d # bs) = of_le32 [a, b, c, d] # words_of_bytes bs"
| "words_of_bytes _ = []"

lemma bytes_of_words_simps [simp]:
  "bytes_of_words [] = []"
  "bytes_of_words (w # ws) = le32 w @ bytes_of_words ws"
  "bytes_of_words (ws @ vs) = bytes_of_words ws @ bytes_of_words vs"
  by (simp_all add: bytes_of_words_def)

lemma length_bytes_of_words [simp]: "length (bytes_of_words ws) = 4 * length ws"
  by (induction ws) simp_all

lemma words_of_bytes_le32 [simp]: "words_of_bytes (le32 w @ bs) = w # words_of_bytes bs"
proof -
  have "of_le32 (le32 w) = w" by (rule of_le32_le32)
  then show ?thesis by (simp add: le32_def)
qed

lemma words_of_bytes_of_words [simp]: "words_of_bytes (bytes_of_words ws) = ws"
  by (induction ws) (simp_all del: of_le32.simps)

lemma bytes_of_words_of_bytes: "length bs mod 4 = 0 \<Longrightarrow> bytes_of_words (words_of_bytes bs) = bs"
proof (induction bs rule: words_of_bytes.induct)
  case (1 a b c d bs)
  then have "length bs mod 4 = 0" by simp
  with 1 show ?case by (simp del: of_le32.simps)
qed simp_all

lemma length_words_of_bytes: "length (words_of_bytes bs) = length bs div 4"
  by (induction bs rule: words_of_bytes.induct) simp_all

lemma bytes_of_words_take: "bytes_of_words (take k ws) = take (4 * k) (bytes_of_words ws)"
proof (induction ws arbitrary: k)
  case (Cons w ws)
  then show ?case by (cases k) simp_all
qed simp

section \<open>Results\<close>

text \<open>A result that passes a fault on and continues otherwise.\<close>

lemma case_Inr_conv:
  "case_sum (\<lambda>e. Some (Inl e)) k r = Some (Inr z) \<longleftrightarrow> (\<exists>x. r = Inr x \<and> k x = Some (Inr z))"
  by (cases r) auto

text \<open>A call whose result is a value, a fault or no return.\<close>

definition if_runs :: "(fault + 'a) option \<Rightarrow> ('a \<Rightarrow> (fault + 'b) option) \<Rightarrow> (fault + 'b) option" where
  "if_runs r k = (case r of None \<Rightarrow> None | Some (Inl e) \<Rightarrow> Some (Inl e) | Some (Inr x) \<Rightarrow> k x)"

lemma if_runs_simps [simp]:
  "if_runs None k = None" "if_runs (Some (Inl e)) k = Some (Inl e)" "if_runs (Some (Inr x)) k = k x"
  by (simp_all add: if_runs_def)

lemma if_runs_assoc: "if_runs (if_runs r k) l = if_runs r (\<lambda>x. if_runs (k x) l)"
  by (simp add: if_runs_def split: option.splits sum.splits)

lemma if_runs_ok: "if_runs r k = Some (Inr y) \<longleftrightarrow> (\<exists>x. r = Some (Inr x) \<and> k x = Some (Inr y))"
  by (simp add: if_runs_def split: option.splits sum.splits)

text \<open>A call whose result is a value or a fault.\<close>

definition if_inr :: "fault + 'a \<Rightarrow> ('a \<Rightarrow> fault + 'b) \<Rightarrow> fault + 'b" where
  "if_inr r k = (case r of Inl e \<Rightarrow> Inl e | Inr x \<Rightarrow> k x)"

lemma if_inr_simps [simp]: "if_inr (Inl e) k = Inl e" "if_inr (Inr x) k = k x"
  by (simp_all add: if_inr_def)

section \<open>Buffers\<close>

text \<open>
  \<open>memcpy_at i src dst\<close> is \<open>memcpy(&dst[i], src, length src)\<close> on a buffer that has the
  room; where the code does not check it, the model checks it and faults.
\<close>

definition memcpy_at :: "nat \<Rightarrow> 'a list \<Rightarrow> 'a list \<Rightarrow> 'a list" where
  "memcpy_at i src dst = take i dst @ src @ drop (i + length src) dst"

lemma length_memcpy_at [simp]:
  "i + length src \<le> length dst \<Longrightarrow> length (memcpy_at i src dst) = length dst"
  by (simp add: memcpy_at_def)

lemma take_memcpy_at_0 [simp]: "take (length src) (memcpy_at 0 src dst) = src"
  by (simp add: memcpy_at_def)

lemma drop_memcpy_at_0 [simp]: "drop (length src) (memcpy_at 0 src dst) = drop (length src) dst"
  by (simp add: memcpy_at_def)

text \<open>The copy with the check of the room.\<close>

definition put_at :: "nat \<Rightarrow> u8 list \<Rightarrow> u8 list \<Rightarrow> fault + u8 list" where
  "put_at i src dst = (if i + length src \<le> length dst then Inr (memcpy_at i src dst) else Inl OutOfBounds)"

text \<open>\<open>ceil_div n k\<close>: the number of \<open>k\<close>-byte units that hold \<open>n\<close> bytes.\<close>

definition ceil_div :: "nat \<Rightarrow> nat \<Rightarrow> nat" where
  "ceil_div n k = (if n mod k = 0 then n div k else n div k + 1)"

lemma ceil_div_bounds: "0 < k \<Longrightarrow> n \<le> ceil_div n k * k \<and> ceil_div n k * k < n + k"
proof -
  assume k: "0 < k"
  define q r where "q = n div k" and "r = n mod k"
  have "n = q * k + r" and "r < k" using k by (simp_all add: q_def r_def)
  then show ?thesis
    by (cases "r = 0") (simp_all add: ceil_div_def flip: q_def r_def)
qed

section \<open>Ring buffers\<close>

text \<open>The \<open>c\<close> elements of a ring of \<open>n\<close> slots from slot \<open>r\<close> on.\<close>

definition ring_slice :: "'a list \<Rightarrow> nat \<Rightarrow> nat \<Rightarrow> nat \<Rightarrow> 'a list" where
  "ring_slice xs n r c = map (\<lambda>i. xs ! ((r + i) mod n)) [0..<c]"

lemma length_ring_slice [simp]: "length (ring_slice xs n r c) = c"
  by (simp add: ring_slice_def)

lemma mod_add_less_neq:
  assumes "i < c" and "c < (n :: nat)"
  shows "(r + i) mod n \<noteq> (r + c) mod n"
proof
  assume eq: "(r + i) mod n = (r + c) mod n"
  have "n dvd (r + c) - (r + i)"
    by (rule iffD1 [OF mod_eq_dvd_iff_nat]) (use assms eq in simp_all)
  then have "n dvd c - i" using assms by simp
  then show False using assms by (auto dest: dvd_imp_le)
qed

lemma ring_slice_push:
  assumes "c < n" and "length xs = n"
  shows "ring_slice (xs[(r + c) mod n := x]) n r (Suc c) = ring_slice xs n r c @ [x]"
proof -
  have "(r + c) mod n < n" using assms by simp
  moreover have "xs[(r + c) mod n := x] ! ((r + i) mod n) = xs ! ((r + i) mod n)" if "i < c" for i
    using mod_add_less_neq [OF that assms(1)] by (metis nth_list_update_neq)
  ultimately show ?thesis using assms by (simp add: ring_slice_def)
qed

lemma ring_slice_pop:
  "ring_slice xs n r (Suc c) = xs ! (r mod n) # ring_slice xs n ((r + 1) mod n) c"
proof -
  have "map (\<lambda>i. xs ! ((r + i) mod n)) [0..<Suc c] =
        xs ! (r mod n) # map (\<lambda>i. xs ! ((r + Suc i) mod n)) [0..<c]"
    by (simp add: upt_conv_Cons map_Suc_upt [symmetric] del: upt_Suc)
  then show ?thesis by (simp add: ring_slice_def mod_simps)
qed

section \<open>The memory-mapped register bus\<close>

text \<open>
  \<open>Xil_In32\<close> and \<open>Xil_Out32\<close> reach hardware that is not part of the repository. A
  \<open>bus\<close> holds the two operations over a hardware state of any type; everything proved
  without a law on the bus holds for every hardware.
\<close>

record 'h bus =
  in32 :: "u64 \<Rightarrow> 'h \<Rightarrow> u32 \<times> 'h"
  out32 :: "u64 \<Rightarrow> u32 \<Rightarrow> 'h \<Rightarrow> 'h"

text \<open>
  Two small pieces of hardware for concrete runs: one that answers successive reads with
  the values of a script, and one that answers every read alike and logs the writes.
\<close>

definition script_bus :: "u32 list bus" where
  "script_bus = \<lparr>in32 = (\<lambda>a h. case h of [] \<Rightarrow> (0, []) | v # vs \<Rightarrow> (v, vs)), out32 = (\<lambda>a v h. h)\<rparr>"

definition log_bus :: "u32 \<Rightarrow> (u64 \<times> u32) list bus" where
  "log_bus c = \<lparr>in32 = (\<lambda>a h. (c, h)), out32 = (\<lambda>a v h. h @ [(a, v)])\<rparr>"

lemma script_bus_simps [simp]:
  "in32 script_bus a (v # vs) = (v, vs)" "in32 script_bus a [] = (0, [])"
  "out32 script_bus a v h = h"
  by (simp_all add: script_bus_def)

lemma log_bus_simps [simp]:
  "in32 (log_bus c) a l = (c, l)" "out32 (log_bus c) a v l = l @ [(a, v)]"
  by (simp_all add: log_bus_def)

section \<open>The platform\<close>

text \<open>The program is built for AArch64; this is that branch of \<open>XGetPlatform_Info\<close>.\<close>

definition XPLAT_ZYNQ_ULTRA_MP :: u32 where "XPLAT_ZYNQ_ULTRA_MP = 0x1"

definition XGetPlatform_Info :: u32 where
  "XGetPlatform_Info = XPLAT_ZYNQ_ULTRA_MP"

lemma unat_word32: "n < 2 ^ 32 \<Longrightarrow> unat (of_nat n :: u32) = n"
  by (simp add: unat_of_nat)

end
