(* ===== verification/LlFifo.thy ===== *)
theory LlFifo
  imports Prelude
begin

text \<open>
  The AXI streaming FIFO driver (\<open>llfifo_v5_2/src/xllfifo.c\<close>, \<open>xllfifo.h\<close>,
  \<open>xllfifo_hw.h\<close>, \<open>xllfifo_sinit.c\<close>) as far as the factory test calls it: register
  reads and writes, instance initialisation, word transfer. The FIFO core behind the
  registers is hardware and stays the \<open>bus\<close> parameter. The streamer callbacks that
  \<open>XLlFifo_CfgInitialize\<close> also stores are never used by the factory test and are left
  out of the record.
\<close>

section \<open>Registers\<close>

definition XLLF_ISR_OFFSET :: u32 where "XLLF_ISR_OFFSET = 0x00"
definition XLLF_TDFR_OFFSET :: u32 where "XLLF_TDFR_OFFSET = 0x08"
definition XLLF_TDFV_OFFSET :: u32 where "XLLF_TDFV_OFFSET = 0x0C"
definition XLLF_TDFD_OFFSET :: u32 where "XLLF_TDFD_OFFSET = 0x10"
definition XLLF_AXI4_TDFD_OFFSET :: u32 where "XLLF_AXI4_TDFD_OFFSET = 0x00"
definition XLLF_TLF_OFFSET :: u32 where "XLLF_TLF_OFFSET = 0x14"
definition XLLF_RDFR_OFFSET :: u32 where "XLLF_RDFR_OFFSET = 0x18"
definition XLLF_RDFO_OFFSET :: u32 where "XLLF_RDFO_OFFSET = 0x1C"
definition XLLF_RDFD_OFFSET :: u32 where "XLLF_RDFD_OFFSET = 0x20"
definition XLLF_AXI4_RDFD_OFFSET :: u32 where "XLLF_AXI4_RDFD_OFFSET = 0x1000"
definition XLLF_RLF_OFFSET :: u32 where "XLLF_RLF_OFFSET = 0x24"
definition XLLF_LLR_OFFSET :: u32 where "XLLF_LLR_OFFSET = 0x28"
definition XLLF_INT_TC_MASK :: u32 where "XLLF_INT_TC_MASK = 0x08000000"
definition XLLF_INT_ALL_MASK :: u32 where "XLLF_INT_ALL_MASK = 0xfff80000"
definition XLLF_RDFR_RESET_MASK :: u32 where "XLLF_RDFR_RESET_MASK = 0xa5"
definition XLLF_TDFR_RESET_MASK :: u32 where "XLLF_TDFR_RESET_MASK = 0xa5"
definition XIL_COMPONENT_IS_READY :: u32 where "XIL_COMPONENT_IS_READY = 0x11111111"

lemmas xllf_offsets [model_eval] =
  XLLF_ISR_OFFSET_def XLLF_TDFR_OFFSET_def XLLF_TDFV_OFFSET_def XLLF_TDFD_OFFSET_def
  XLLF_AXI4_TDFD_OFFSET_def XLLF_TLF_OFFSET_def XLLF_RDFR_OFFSET_def XLLF_RDFO_OFFSET_def
  XLLF_RDFD_OFFSET_def XLLF_AXI4_RDFD_OFFSET_def XLLF_RLF_OFFSET_def XLLF_LLR_OFFSET_def
  XLLF_INT_TC_MASK_def XLLF_INT_ALL_MASK_def XLLF_RDFR_RESET_MASK_def
  XLLF_TDFR_RESET_MASK_def XIL_COMPONENT_IS_READY_def

record XLlFifo_Config =
  cfg_DeviceId :: u32
  cfg_BaseAddress :: u64
  cfg_Axi4BaseAddress :: u32
  cfg_Datainterface :: u32

record XLlFifo =
  BaseAddress :: u64
  IsReady :: u32
  Axi4BaseAddress :: u32
  Datainterface :: u32

text \<open>\<open>xllfifo_g.c\<close> with the values of \<open>xparameters.h\<close>.\<close>

definition XLlFifo_ConfigTable :: "XLlFifo_Config list" where
  "XLlFifo_ConfigTable =
     [\<lparr>cfg_DeviceId = 0, cfg_BaseAddress = 0xA0000000, cfg_Axi4BaseAddress = 0,
       cfg_Datainterface = 0\<rparr>]"

definition XLlFifo_ReadReg :: "'h bus \<Rightarrow> u64 \<Rightarrow> u32 \<Rightarrow> 'h \<Rightarrow> u32 \<times> 'h" where
  "XLlFifo_ReadReg B base off h = in32 B (base + ucast off) h"

definition XLlFifo_WriteReg :: "'h bus \<Rightarrow> u64 \<Rightarrow> u32 \<Rightarrow> u32 \<Rightarrow> 'h \<Rightarrow> 'h" where
  "XLlFifo_WriteReg B base off v h = out32 B (base + ucast off) v h"

text \<open>The loop of \<open>XLlFfio_LookupConfig\<close>: the first entry with the device id.\<close>

definition XLlFfio_LookupConfig :: "u32 \<Rightarrow> XLlFifo_Config option" where
  "XLlFfio_LookupConfig DeviceId = find (\<lambda>c. cfg_DeviceId c = DeviceId) XLlFifo_ConfigTable"

section \<open>Operations\<close>

definition XLlFifo_iRxOccupancy :: "'h bus \<Rightarrow> XLlFifo \<Rightarrow> 'h \<Rightarrow> u32 \<times> 'h" where
  "XLlFifo_iRxOccupancy B f = XLlFifo_ReadReg B (BaseAddress f) XLLF_RDFO_OFFSET"

definition XLlFifo_iRxGetLen :: "'h bus \<Rightarrow> XLlFifo \<Rightarrow> 'h \<Rightarrow> u32 \<times> 'h" where
  "XLlFifo_iRxGetLen B f = XLlFifo_ReadReg B (BaseAddress f) XLLF_RLF_OFFSET"

definition XLlFifo_iTxVacancy :: "'h bus \<Rightarrow> XLlFifo \<Rightarrow> 'h \<Rightarrow> u32 \<times> 'h" where
  "XLlFifo_iTxVacancy B f = XLlFifo_ReadReg B (BaseAddress f) XLLF_TDFV_OFFSET"

definition XLlFifo_iTxSetLen :: "'h bus \<Rightarrow> XLlFifo \<Rightarrow> u32 \<Rightarrow> 'h \<Rightarrow> 'h" where
  "XLlFifo_iTxSetLen B f bytes = XLlFifo_WriteReg B (BaseAddress f) XLLF_TLF_OFFSET bytes"

definition XLlFifo_RxGetWord :: "'h bus \<Rightarrow> XLlFifo \<Rightarrow> 'h \<Rightarrow> u32 \<times> 'h" where
  "XLlFifo_RxGetWord B f =
     (if Datainterface f \<noteq> 0
      then in32 B (ucast (Axi4BaseAddress f + XLLF_AXI4_RDFD_OFFSET))
      else in32 B (ucast (Axi4BaseAddress f + XLLF_RDFD_OFFSET)))"

definition XLlFifo_TxPutWord :: "'h bus \<Rightarrow> XLlFifo \<Rightarrow> u32 \<Rightarrow> 'h \<Rightarrow> 'h" where
  "XLlFifo_TxPutWord B f w =
     (if Datainterface f \<noteq> 0
      then out32 B (ucast (Axi4BaseAddress f + XLLF_AXI4_TDFD_OFFSET)) w
      else out32 B (ucast (Axi4BaseAddress f + XLLF_TDFD_OFFSET)) w)"

definition XLlFifo_Status :: "'h bus \<Rightarrow> XLlFifo \<Rightarrow> 'h \<Rightarrow> u32 \<times> 'h" where
  "XLlFifo_Status B f = XLlFifo_ReadReg B (BaseAddress f) XLLF_ISR_OFFSET"

definition XLlFifo_IntClear :: "'h bus \<Rightarrow> XLlFifo \<Rightarrow> u32 \<Rightarrow> 'h \<Rightarrow> 'h" where
  "XLlFifo_IntClear B f Mask =
     XLlFifo_WriteReg B (BaseAddress f) XLLF_ISR_OFFSET (Mask AND XLLF_INT_ALL_MASK)"

definition XLlFifo_IsTxDone :: "'h bus \<Rightarrow> XLlFifo \<Rightarrow> 'h \<Rightarrow> bool \<times> 'h" where
  "XLlFifo_IsTxDone B f h =
     (let (isr, h) = XLlFifo_ReadReg B (BaseAddress f) XLLF_ISR_OFFSET h
      in (isr AND XLLF_INT_TC_MASK \<noteq> 0, h))"

definition XLlFifo_TxReset :: "'h bus \<Rightarrow> XLlFifo \<Rightarrow> 'h \<Rightarrow> 'h" where
  "XLlFifo_TxReset B f = XLlFifo_WriteReg B (BaseAddress f) XLLF_TDFR_OFFSET XLLF_TDFR_RESET_MASK"

definition XLlFifo_RxReset :: "'h bus \<Rightarrow> XLlFifo \<Rightarrow> 'h \<Rightarrow> 'h" where
  "XLlFifo_RxReset B f = XLlFifo_WriteReg B (BaseAddress f) XLLF_RDFR_OFFSET XLLF_RDFR_RESET_MASK"

definition XLlFifo_CfgInitialize ::
    "'h bus \<Rightarrow> XLlFifo_Config \<Rightarrow> u64 \<Rightarrow> 'h \<Rightarrow> int \<times> XLlFifo \<times> 'h" where
  "XLlFifo_CfgInitialize B cfg ea h =
     (let f = \<lparr>BaseAddress = ea, IsReady = XIL_COMPONENT_IS_READY,
               Axi4BaseAddress = (if cfg_Datainterface cfg = 0 then ucast ea
                                  else cfg_Axi4BaseAddress cfg),
               Datainterface = cfg_Datainterface cfg\<rparr>;
          h = XLlFifo_TxReset B f h;
          h = XLlFifo_RxReset B f h;
          h = XLlFifo_WriteReg B (BaseAddress f) XLLF_LLR_OFFSET XLLF_RDFR_RESET_MASK h
      in (XST_SUCCESS, f, h))"

text \<open>Reading \<open>n\<close> words in a row: the \<open>for\<close> loop around \<open>XLlFifo_RxGetWord\<close>.\<close>

fun rx_words :: "'h bus \<Rightarrow> XLlFifo \<Rightarrow> nat \<Rightarrow> 'h \<Rightarrow> u32 list \<times> 'h" where
  "rx_words B f 0 h = ([], h)"
| "rx_words B f (Suc n) h =
     (let (w, h) = XLlFifo_RxGetWord B f h; (ws, h) = rx_words B f n h in (w # ws, h))"

lemma length_rx_words: "rx_words B f n h = (ws, h') \<Longrightarrow> length ws = n"
  by (induction n arbitrary: h ws h') (auto split: prod.splits)

text \<open>Writing words in a row, each only when the FIFO reports room for it.\<close>

fun tx_words :: "'h bus \<Rightarrow> XLlFifo \<Rightarrow> u32 list \<Rightarrow> 'h \<Rightarrow> 'h" where
  "tx_words B f [] h = h"
| "tx_words B f (w # ws) h =
     (let (v, h) = XLlFifo_iTxVacancy B f h;
          h = (if v \<noteq> 0 then XLlFifo_TxPutWord B f w h else h)
      in tx_words B f ws h)"

end
