(* ===== verification/Protocol.thy ===== *)
theory Protocol
  imports Prelude
begin

text \<open>
  The wire protocol between the factory host (\<open>factory_test/ftest.c\<close>) and the board
  (\<open>boe_factory_test/src/axu_connector.[ch]\<close>): the command and reply codes, the package
  header both sides declare as a packed C struct, its byte layout, and the functions
  that build requests and replies.
\<close>

section \<open>Packages\<close>

definition MAGIC :: u16 where "MAGIC = 0xcc11"
definition PACKAGE_MAX_SIZE :: nat where "PACKAGE_MAX_SIZE = 256"

definition REQ_SD_TEST :: u16 where "REQ_SD_TEST = 0x1"
definition REQ_FLASH_TEST :: u16 where "REQ_FLASH_TEST = 0x2"
definition REQ_DRAM_TEST :: u16 where "REQ_DRAM_TEST = 0x3"
definition REQ_NET_TEST :: u16 where "REQ_NET_TEST = 0x4"
definition REQ_CONNECT :: u16 where "REQ_CONNECT = 0x5"
definition REQ_ECC_TEST :: u16 where "REQ_ECC_TEST = 0x6"
definition REQ_RESULT :: u16 where "REQ_RESULT = 0x7"
definition REQ_FINISH :: u16 where "REQ_FINISH = 0x8"

definition RET_FAILED :: u16 where "RET_FAILED = 0x1"
definition RET_SUCCES :: u16 where "RET_SUCCES = 0x2"

lemmas protocol_codes [model_eval] =
  MAGIC_def PACKAGE_MAX_SIZE_def REQ_SD_TEST_def REQ_FLASH_TEST_def REQ_DRAM_TEST_def
  REQ_NET_TEST_def REQ_CONNECT_def REQ_ECC_TEST_def REQ_RESULT_def REQ_FINISH_def
  RET_FAILED_def RET_SUCCES_def

text \<open>\<open>struct A_PACKAGE\<close>; \<open>data\<close> is the flexible array member.\<close>

record A_Package =
  magic :: u16
  cmd :: u16
  pid :: u32
  data :: "u8 list"

text \<open>\<open>sizeof(A_Package)\<close>: the flexible array member does not count.\<close>

definition sizeof_A_Package :: nat where
  "sizeof_A_Package = 8"

text \<open>The struct as bytes, and the cast of a byte buffer to the struct.\<close>

definition pack_bytes :: "A_Package \<Rightarrow> u8 list" where
  "pack_bytes p = le16 (magic p) @ le16 (cmd p) @ le32 (pid p) @ data p"

fun unpack_bytes :: "u8 list \<Rightarrow> A_Package option" where
  "unpack_bytes (m0 # m1 # c0 # c1 # p0 # p1 # p2 # p3 # d) =
     Some \<lparr>magic = of_le16 [m0, m1], cmd = of_le16 [c0, c1],
           pid = of_le32 [p0, p1, p2, p3], data = d\<rparr>"
| "unpack_bytes _ = None"

lemma length_pack_bytes [simp]: "length (pack_bytes p) = sizeof_A_Package + length (data p)"
  by (simp add: pack_bytes_def sizeof_A_Package_def)

lemma unpack_pack: "unpack_bytes (pack_bytes p @ rest) = Some (p\<lparr>data := data p @ rest\<rparr>)"
proof -
  have "of_le16 (le16 (magic p)) = magic p" "of_le16 (le16 (cmd p)) = cmd p"
       "of_le32 (le32 (pid p)) = pid p" by simp_all
  then show ?thesis
    by (simp add: pack_bytes_def le16_def le32_def)
qed

lemma pack_unpack: "unpack_bytes bs = Some p \<Longrightarrow> pack_bytes p = bs"
  by (induction bs rule: unpack_bytes.induct)
     (auto simp: pack_bytes_def simp del: of_le16.simps of_le32.simps)

lemma unpack_None: "unpack_bytes bs = None \<longleftrightarrow> length bs < sizeof_A_Package"
  by (induction bs rule: unpack_bytes.induct) (auto simp: sizeof_A_Package_def)

section \<open>The board's reply\<close>

text \<open>
  \<open>make_package(ask, res, cmd)\<close> fills the header of the reply buffer, leaves its data
  alone and returns the header's size.
\<close>

definition make_package :: "A_Package \<Rightarrow> A_Package \<Rightarrow> u16 \<Rightarrow> nat \<times> A_Package" where
  "make_package ask res c = (sizeof_A_Package, res\<lparr>magic := magic ask, cmd := c, pid := pid ask\<rparr>)"

section \<open>The host's requests\<close>

text \<open>
  The host's globals the builders use: \<open>gpid\<close>, the sequence number \<open>get_pid()\<close> hands
  out and increments (32 bits, so it wraps), and \<open>result\<close>.
\<close>

record host_globals =
  gpid :: u32
  result :: u8

definition get_pid :: "host_globals \<Rightarrow> u32 \<times> host_globals" where
  "get_pid g = (gpid g, g\<lparr>gpid := gpid g + 1\<rparr>)"

text \<open>
  Each builder works on the zeroed transmit buffer \<open>p\<close>, sets the header and returns the
  number of bytes to send.
\<close>

type_synonym mk_pkg = "A_Package \<Rightarrow> host_globals \<Rightarrow> nat \<times> A_Package \<times> host_globals"

definition make_package_sd_test :: mk_pkg where
  "make_package_sd_test p g =
     (let (i, g) = get_pid g
      in (sizeof_A_Package, p\<lparr>pid := i, magic := MAGIC, cmd := REQ_SD_TEST\<rparr>, g))"

definition make_package_flash_test :: mk_pkg where
  "make_package_flash_test p g =
     (let (i, g) = get_pid g
      in (sizeof_A_Package, p\<lparr>pid := i, magic := MAGIC, cmd := REQ_FLASH_TEST\<rparr>, g))"

definition make_package_net_test :: mk_pkg where
  "make_package_net_test p g =
     (let (i, g) = get_pid g
      in (sizeof_A_Package, p\<lparr>pid := i, magic := MAGIC, cmd := REQ_NET_TEST\<rparr>, g))"

definition make_package_memtest :: mk_pkg where
  "make_package_memtest p g =
     (let (i, g) = get_pid g
      in (sizeof_A_Package, p\<lparr>pid := i, magic := MAGIC, cmd := REQ_DRAM_TEST\<rparr>, g))"

definition make_package_ecc_test :: mk_pkg where
  "make_package_ecc_test p g =
     (let (i, g) = get_pid g
      in (sizeof_A_Package, p\<lparr>pid := i, magic := MAGIC, cmd := REQ_ECC_TEST\<rparr>, g))"

definition make_package_conn :: mk_pkg where
  "make_package_conn p g =
     (let (i, g) = get_pid g
      in (sizeof_A_Package, p\<lparr>pid := i, magic := MAGIC, cmd := REQ_CONNECT\<rparr>, g))"

definition make_package_result :: mk_pkg where
  "make_package_result p g =
     (let (i, g) = get_pid g
      in (sizeof_A_Package + 1,
          p\<lparr>pid := i, magic := MAGIC, cmd := REQ_RESULT, data := (data p)[0 := result g]\<rparr>, g))"

definition make_package_finish :: mk_pkg where
  "make_package_finish p g =
     (let (i, g) = get_pid g
      in (sizeof_A_Package, p\<lparr>pid := i, magic := MAGIC, cmd := REQ_FINISH\<rparr>, g))"

lemmas make_package_defs =
  make_package_sd_test_def make_package_flash_test_def make_package_net_test_def
  make_package_memtest_def make_package_ecc_test_def make_package_conn_def
  make_package_result_def make_package_finish_def get_pid_def

end
