(* ===== verification/MsgPool.thy ===== *)
theory MsgPool
  imports LlFifo Protocol "HOL-Library.Signed_Division"
begin

text \<open>
  The board's message layer, \<open>boe_factory_test/src/community.c\<close>: sending and receiving
  packages over the AXI FIFO, and the ring of six 256-byte slots between the FIFO and
  the main loop. A handle is the pool record itself (the code has one pool);
  \<open>msg_pool_fetch\<close> hands out a pointer into the ring, which is the index of the slot, so
  that a later write to the slot is visible in the model.
\<close>

section \<open>State\<close>

definition FIFO_DEV_ID :: u16 where "FIFO_DEV_ID = 0"
definition WORD_SIZE :: nat where "WORD_SIZE = 4"
definition MSG_POOL_SPACE :: int where "MSG_POOL_SPACE = 6"
definition HANDLE_MAGIC :: u16 where "HANDLE_MAGIC = 0x1231"

lemmas pool_consts [model_eval] =
  FIFO_DEV_ID_def WORD_SIZE_def MSG_POOL_SPACE_def HANDLE_MAGIC_def

text \<open>\<open>F_Package\<close>: a block of \<open>PACKAGE_MAX_SIZE\<close> bytes.\<close>

type_synonym F_Package = "u8 list"

record MsgPool =
  w_pos :: int
  r_pos :: int
  pool_magic :: u16
  bSendComplete :: u16
  fifoIns :: XLlFifo
  pool :: "F_Package list"

section \<open>The FIFO\<close>

definition FifoInit :: "'h bus \<Rightarrow> XLlFifo \<Rightarrow> u16 \<Rightarrow> 'h \<Rightarrow> int \<times> XLlFifo \<times> 'h" where
  "FifoInit B inst DeviceId h =
     (case XLlFfio_LookupConfig (ucast DeviceId) of
        None \<Rightarrow> (XST_FAILURE, inst, h)
      | Some Config \<Rightarrow>
          let (Status, inst, h) = XLlFifo_CfgInitialize B Config (cfg_BaseAddress Config) h
          in if Status \<noteq> XST_SUCCESS then (Status, inst, h)
             else
               let (_, h) = XLlFifo_Status B inst h;
                   h = XLlFifo_IntClear B inst 0xffffffff h;
                   (isr, h) = XLlFifo_Status B inst h
               in if isr \<noteq> 0
                  then let (_, h) = XLlFifo_Status B inst h in (XST_FAILURE, inst, h)
                  else (XST_SUCCESS, inst, h))"

text \<open>
  Waiting for the transmission: \<open>timeout\<close> counts microseconds down by 1000 per poll. The
  call \<open>usleep(1000)\<close> has no effect on the modelled state.
\<close>

function tx_wait :: "'h bus \<Rightarrow> XLlFifo \<Rightarrow> int \<Rightarrow> 'h \<Rightarrow> int \<times> 'h" where
  "tx_wait B f timeout h =
     (let (done, h) = XLlFifo_IsTxDone B f h
      in if done then (XST_SUCCESS, h)
         else if timeout - 1000 < 0 then (1, h)
         else tx_wait B f (timeout - 1000) h)"
  by pat_completeness auto
termination
  by (relation "measure (\<lambda>(B, f, timeout, h). nat timeout)") auto

declare tx_wait.simps [simp del]

text \<open>
  \<open>FifoSend\<close> copies the bytes to the static buffer \<open>wBuf\<close> of 100 words and writes the
  words to the FIFO. The length is the code's \<open>int\<close>, which its callers keep
  non-negative. Reading past the end of the source buffer is a fault.
\<close>

definition FifoSend :: "'h bus \<Rightarrow> XLlFifo \<Rightarrow> u8 list \<Rightarrow> nat \<Rightarrow> 'h \<Rightarrow> fault + (int \<times> 'h)" where
  "FifoSend B f SourceAddr sendlen h =
     (let wlen = ceil_div sendlen WORD_SIZE
      in if wlen > 100 then Inr (-1, h)
         else if sendlen > length SourceAddr then Inl OutOfBounds
         else
           let wBuf = memcpy_at 0 (take sendlen SourceAddr) (replicate 400 0);
               h = tx_words B f (take wlen (words_of_bytes wBuf)) h;
               h = XLlFifo_iTxSetLen B f (of_nat (wlen * WORD_SIZE)) h
           in Inr (tx_wait B f 2000000 h))"

definition FifoRelease :: "XLlFifo \<Rightarrow> int" where
  "FifoRelease f = XST_FAILURE"

section \<open>The ring\<close>

definition msg_pool_full :: "MsgPool \<Rightarrow> int" where
  "msg_pool_full mp =
     (if 1 = (r_pos mp + MSG_POOL_SPACE - w_pos mp) smod MSG_POOL_SPACE then 1 else 0)"

definition msg_pool_empty :: "MsgPool \<Rightarrow> int" where
  "msg_pool_empty mp = (if r_pos mp = w_pos mp then 1 else 0)"

definition msg_pool_push :: "MsgPool \<Rightarrow> F_Package \<Rightarrow> int \<times> MsgPool" where
  "msg_pool_push mp pack =
     (if msg_pool_full mp = 0
      then (0, mp\<lparr>pool := (pool mp)[nat (w_pos mp) := pack],
                  w_pos := (w_pos mp + 1) smod MSG_POOL_SPACE\<rparr>)
      else (1, mp))"

text \<open>The branch of \<open>msg_pool_fetch\<close> that takes the oldest message out of the ring.\<close>

definition msg_pool_take :: "MsgPool \<Rightarrow> nat \<times> MsgPool" where
  "msg_pool_take mp = (nat (r_pos mp), mp\<lparr>r_pos := (r_pos mp + 1) smod MSG_POOL_SPACE\<rparr>)"

text \<open>
  \<open>FifoReceive\<close> drains the FIFO into the ring. The words of one packet are stored from
  the start of the static 256-byte buffer \<open>fp\<close> without a check of the length the FIFO
  reports; storing more than 64 words runs past the buffer.
\<close>

definition package_of_words :: "u32 list \<Rightarrow> F_Package" where
  "package_of_words ws = memcpy_at 0 (bytes_of_words ws) (replicate PACKAGE_MAX_SIZE 0)"

partial_function (option) FifoReceive ::
    "'h bus \<Rightarrow> XLlFifo \<Rightarrow> MsgPool \<Rightarrow> 'h \<Rightarrow> (fault + (int \<times> MsgPool \<times> 'h)) option" where
  "FifoReceive B f mp h =
     (let (occ, h) = XLlFifo_iRxOccupancy B f h
      in if occ = 0 then Some (Inr (XST_SUCCESS, mp, h))
         else
           let (rlen, h) = XLlFifo_iRxGetLen B f h;
               wlen = ceil_div (unat rlen) WORD_SIZE;
               (ws, h) = rx_words B f wlen h
           in if wlen * WORD_SIZE > PACKAGE_MAX_SIZE then Some (Inl OutOfBounds)
              else FifoReceive B f
                     (if wlen > 0 then snd (msg_pool_push mp (package_of_words ws)) else mp) h)"

section \<open>The operations the main loop calls\<close>

text \<open>
  \<open>malloc\<close> returns a block with arbitrary contents or a null pointer, which the code does
  not check.
\<close>

definition msg_pool_init :: "'h bus \<Rightarrow> MsgPool option \<Rightarrow> 'h \<Rightarrow> fault + (int \<times> MsgPool option \<times> 'h)" where
  "msg_pool_init B malloc h =
     (case malloc of
        None \<Rightarrow> Inl NullPointer
      | Some mp \<Rightarrow>
          let mp = mp\<lparr>w_pos := 0, r_pos := 0, pool_magic := HANDLE_MAGIC,
                      pool := replicate (nat MSG_POOL_SPACE) (replicate PACKAGE_MAX_SIZE 0)\<rparr>;
              (status, inst, h) = FifoInit B (fifoIns mp) FIFO_DEV_ID h
          in if status \<noteq> XST_SUCCESS then Inr (XST_FAILURE, None, h)
             else Inr (XST_SUCCESS, Some (mp\<lparr>fifoIns := inst\<rparr>), h))"

text \<open>
  \<open>msg_pool_release\<close> takes a pointer to a handle: \<open>None\<close> is a null pointer, \<open>Some hdl\<close>
  points to the handle \<open>hdl\<close>, null or not. Its guard is \<open>!phandle && !( *phandle)\<close>, so
  the second operand is read when the pointer is null.
\<close>

definition deref :: "'a option \<Rightarrow> fault + 'a" where
  "deref p = (case p of None \<Rightarrow> Inl NullPointer | Some x \<Rightarrow> Inr x)"

definition msg_pool_release :: "MsgPool option option \<Rightarrow> fault + (int \<times> MsgPool option option)" where
  "msg_pool_release phandle =
     (if phandle \<noteq> None then Inr (-2, phandle)
      else case deref phandle of
        Inl e \<Rightarrow> Inl e
      | Inr hdl \<Rightarrow>
          if hdl \<noteq> None then Inr (-2, phandle)
          else case deref hdl of
            Inl e \<Rightarrow> Inl e
          | Inr mp \<Rightarrow>
              if pool_magic mp \<noteq> HANDLE_MAGIC then Inr (-1, phandle)
              else let _ = FifoRelease (fifoIns mp) in Inr (0, Some None))"

text \<open>
  The polling loop of \<open>msg_pool_fetch\<close>; \<open>waitus\<close> and \<open>timeout_us\<close> are unsigned 32-bit
  microseconds. The result is the return code and the slot \<open>*pack\<close> points to.
\<close>

partial_function (option) fetch_loop ::
    "'h bus \<Rightarrow> u32 \<Rightarrow> u32 \<Rightarrow> MsgPool \<Rightarrow> 'h \<Rightarrow> (fault + (int \<times> nat option \<times> MsgPool \<times> 'h)) option" where
  "fetch_loop B waitus timeout_us mp h =
     Option.bind (FifoReceive B (fifoIns mp) mp h) (\<lambda>r.
       case r of
         Inl e \<Rightarrow> Some (Inl e)
       | Inr (_, mp, h) \<Rightarrow>
           if msg_pool_empty mp = 0
           then let (slot, mp) = msg_pool_take mp in Some (Inr (0, Some slot, mp, h))
           else if waitus \<ge> timeout_us then Some (Inr (1, None, mp, h))
           else fetch_loop B (waitus + 1000) timeout_us mp h)"

definition msg_pool_fetch ::
    "'h bus \<Rightarrow> MsgPool \<Rightarrow> u32 \<Rightarrow> 'h \<Rightarrow> (fault + (int \<times> nat option \<times> MsgPool \<times> 'h)) option" where
  "msg_pool_fetch B mp timeout_ms h =
     (if pool_magic mp \<noteq> HANDLE_MAGIC then Some (Inr (-1, None, mp, h))
      else fetch_loop B 0 (timeout_ms * 1000) mp h)"

definition msg_pool_txsend :: "'h bus \<Rightarrow> MsgPool \<Rightarrow> u8 list \<Rightarrow> nat \<Rightarrow> 'h \<Rightarrow> fault + (int \<times> 'h)" where
  "msg_pool_txsend B mp pack bytelen h =
     (if pool_magic mp \<noteq> HANDLE_MAGIC then Inr (-1, h)
      else case FifoSend B (fifoIns mp) pack bytelen h of
             Inl e \<Rightarrow> Inl e
           | Inr (status, h) \<Rightarrow> if status \<noteq> XST_SUCCESS then Inr (1, h) else Inr (XST_SUCCESS, h))"

section \<open>The ring is a bounded queue\<close>

text \<open>
  The contract of a bounded queue that drops what arrives while it is full, and what a
  client may conclude from it.
\<close>

locale bounded_queue =
  fixes inv :: "'q \<Rightarrow> bool"
    and items :: "'q \<Rightarrow> 'a list"
    and cap :: nat
    and ok :: "'a \<Rightarrow> bool"
    and push :: "'q \<Rightarrow> 'a \<Rightarrow> 'q"
    and front :: "'q \<Rightarrow> 'a"
    and pop :: "'q \<Rightarrow> 'q"
  assumes items_le: "inv q \<Longrightarrow> length (items q) \<le> cap"
    and items_push: "inv q \<Longrightarrow> ok x \<Longrightarrow>
          items (push q x) = (if length (items q) < cap then items q @ [x] else items q)"
    and inv_push: "inv q \<Longrightarrow> ok x \<Longrightarrow> inv (push q x)"
    and items_pop: "inv q \<Longrightarrow> items q \<noteq> [] \<Longrightarrow> items q = front q # items (pop q)"
    and inv_pop: "inv q \<Longrightarrow> items q \<noteq> [] \<Longrightarrow> inv (pop q)"
begin

lemma inv_offer: "inv q \<Longrightarrow> list_all ok xs \<Longrightarrow> inv (foldl push q xs)"
  by (induction xs arbitrary: q) (auto simp: inv_push)

text \<open>A burst of arrivals: the queue keeps a prefix of it, as long as there is room.\<close>

lemma items_offer:
  "inv q \<Longrightarrow> list_all ok xs \<Longrightarrow>
   items (foldl push q xs) = items q @ take (cap - length (items q)) xs"
proof (induction xs arbitrary: q)
  case Nil
  then show ?case by simp
next
  case (Cons x xs)
  then have IH: "items (foldl push (push q x) xs) =
      items (push q x) @ take (cap - length (items (push q x))) xs"
    by (simp add: inv_push)
  show ?case
  proof (cases "length (items q) < cap")
    case True
    then obtain k where k: "cap - length (items q) = Suc k" by (metis Suc_diff_Suc)
    then have "cap - Suc (length (items q)) = k" by simp
    with k True Cons.prems IH show ?thesis by (simp add: items_push)
  next
    case False
    with Cons.prems IH show ?thesis by (simp add: items_push)
  qed
qed

end

definition pool_count :: "MsgPool \<Rightarrow> nat" where
  "pool_count mp = nat ((w_pos mp - r_pos mp) mod 6)"

definition pool_items :: "MsgPool \<Rightarrow> F_Package list" where
  "pool_items mp = ring_slice (pool mp) 6 (nat (r_pos mp)) (pool_count mp)"

definition pool_wf :: "MsgPool \<Rightarrow> bool" where
  "pool_wf mp \<longleftrightarrow> 0 \<le> w_pos mp \<and> w_pos mp < 6 \<and> 0 \<le> r_pos mp \<and> r_pos mp < 6 \<and>
     length (pool mp) = 6 \<and> list_all (\<lambda>p. length p = PACKAGE_MAX_SIZE) (pool mp)"

definition package_ok :: "F_Package \<Rightarrow> bool" where
  "package_ok p \<longleftrightarrow> length p = PACKAGE_MAX_SIZE"

text \<open>The contents of the slot a fetch returns.\<close>

definition slot_package :: "MsgPool \<Rightarrow> F_Package" where
  "slot_package mp = pool mp ! fst (msg_pool_take mp)"

lemma smod_nonneg: "0 \<le> a \<Longrightarrow> 0 < b \<Longrightarrow> (a :: int) smod b = a mod b"
  by (cases "a = 0") (simp_all add: smod_int_alt_def)

lemma pool_positions:
  assumes "pool_wf mp"
  obtains r c where "r_pos mp = int r" "r < 6" "pool_count mp = c" "c < 6"
    "w_pos mp = int ((r + c) mod 6)"
proof
  show "r_pos mp = int (nat (r_pos mp))" "nat (r_pos mp) < 6" "pool_count mp < 6"
    using assms by (auto simp: pool_wf_def pool_count_def nat_less_iff)
  have "int ((nat (r_pos mp) + pool_count mp) mod 6) = (r_pos mp + (w_pos mp - r_pos mp) mod 6) mod 6"
    using assms by (simp add: pool_wf_def pool_count_def zmod_int)
  also have "\<dots> = w_pos mp" using assms by (simp add: mod_simps pool_wf_def)
  finally show "w_pos mp = int ((nat (r_pos mp) + pool_count mp) mod 6)" ..
qed (rule refl)

lemma full_iff:
  assumes "pool_wf mp"
  shows "msg_pool_full mp = (if pool_count mp = 5 then 1 else 0)"
proof -
  have wf: "0 \<le> w_pos mp" "w_pos mp < 6" "0 \<le> r_pos mp" "r_pos mp < 6"
    using assms by (auto simp: pool_wf_def)
  then have "msg_pool_full mp = (if 1 = (r_pos mp - w_pos mp) mod 6 then 1 else 0)"
    by (simp add: msg_pool_full_def smod_nonneg MSG_POOL_SPACE_def)
       (metis add.commute add_diff_eq mod_add_self1)
  moreover have "1 = (r_pos mp - w_pos mp) mod 6 \<longleftrightarrow> (w_pos mp - r_pos mp) mod 6 = 5"
    using wf by presburger
  ultimately show ?thesis by (simp add: pool_count_def nat_eq_iff)
qed

lemma empty_iff: "pool_wf mp \<Longrightarrow> msg_pool_empty mp = (if pool_items mp = [] then 1 else 0)"
proof -
  assume wf: "pool_wf mp"
  have "r_pos mp = w_pos mp \<longleftrightarrow> pool_count mp = 0"
  proof -
    have b: "0 \<le> w_pos mp" "w_pos mp < 6" "0 \<le> r_pos mp" "r_pos mp < 6"
      using wf by (auto simp: pool_wf_def)
    have "(w_pos mp - r_pos mp) mod 6 = 0 \<longleftrightarrow> w_pos mp = r_pos mp" using b by presburger
    moreover have "0 \<le> (w_pos mp - r_pos mp) mod 6" by simp
    ultimately show ?thesis by (auto simp: pool_count_def)
  qed
  moreover have "pool_items mp = [] \<longleftrightarrow> pool_count mp = 0"
    by (metis length_0_conv length_ring_slice pool_items_def)
  ultimately show ?thesis by (simp add: msg_pool_empty_def)
qed

lemma push_items:
  assumes wf: "pool_wf mp" and ok: "package_ok x"
  shows "pool_items (snd (msg_pool_push mp x)) =
           (if length (pool_items mp) < 5 then pool_items mp @ [x] else pool_items mp)"
    and "pool_wf (snd (msg_pool_push mp x))"
    and "r_pos (snd (msg_pool_push mp x)) = r_pos mp"
proof -
  from wf obtain r c where rc: "r_pos mp = int r" "r < 6" "pool_count mp = c" "c < 6"
    and w: "w_pos mp = int ((r + c) mod 6)" by (rule pool_positions)
  let ?mp = "snd (msg_pool_push mp x)"
  have "pool_items ?mp = (if c < 5 then pool_items mp @ [x] else pool_items mp)
        \<and> pool_wf ?mp \<and> r_pos ?mp = r_pos mp"
  proof (cases "c = 5")
    case True
    with wf rc show ?thesis by (simp add: msg_pool_push_def full_iff)
  next
    case False
    have slot: "nat (w_pos mp) = (r + c) mod 6" by (simp only: w nat_int)
    have "(w_pos mp + 1) smod MSG_POOL_SPACE = int ((r + Suc c) mod 6)"
      by (simp add: w MSG_POOL_SPACE_def smod_nonneg zmod_int mod_simps) (simp add: ac_simps)
    with slot wf rc False have push: "?mp = mp\<lparr>pool := (pool mp)[(r + c) mod 6 := x],
                                 w_pos := int ((r + Suc c) mod 6)\<rparr>"
      by (simp add: msg_pool_push_def full_iff)
    have "(int ((r + Suc c) mod 6) - int r) mod 6 = int (Suc c)"
      using False rc by (simp add: zmod_int mod_simps)
    then have cnt: "pool_count ?mp = Suc c"
      by (simp add: push pool_count_def rc)
    have "pool_items ?mp = pool_items mp @ [x]"
      using wf rc False cnt by (simp add: push pool_items_def ring_slice_push pool_wf_def)
    moreover have "list_all (\<lambda>p. length p = PACKAGE_MAX_SIZE) ((pool mp)[(r + c) mod 6 := x])"
      using wf ok set_update_subset_insert [of "pool mp" "(r + c) mod 6" x]
      by (auto simp: pool_wf_def package_ok_def list_all_iff)
    ultimately show ?thesis using wf False rc by (auto simp: pool_wf_def push)
  qed
  moreover have "length (pool_items mp) = c" by (simp add: pool_items_def rc)
  ultimately show "pool_items ?mp = (if length (pool_items mp) < 5 then pool_items mp @ [x] else pool_items mp)"
    and "pool_wf ?mp" and "r_pos ?mp = r_pos mp" by auto
qed

lemma take_items:
  assumes wf: "pool_wf mp" and ne: "pool_items mp \<noteq> []"
  shows "pool_items mp = slot_package mp # pool_items (snd (msg_pool_take mp))"
    and "pool_wf (snd (msg_pool_take mp))"
proof -
  from wf obtain r c where rc: "r_pos mp = int r" "r < 6" "pool_count mp = c" "c < 6"
    and w: "w_pos mp = int ((r + c) mod 6)" by (rule pool_positions)
  have "c \<noteq> 0" using ne by (auto simp: pool_items_def rc ring_slice_def)
  then obtain d where d: "c = Suc d" by (cases c) auto
  let ?mp = "snd (msg_pool_take mp)"
  have "(r_pos mp + 1) smod MSG_POOL_SPACE = int ((r + 1) mod 6)"
    by (simp add: rc MSG_POOL_SPACE_def smod_nonneg zmod_int ac_simps)
  then have tk: "?mp = mp\<lparr>r_pos := int ((r + 1) mod 6)\<rparr>"
    by (simp add: msg_pool_take_def)
  have "(int ((r + c) mod 6) - int ((r + 1) mod 6)) mod 6 = int d"
    using rc d by (simp add: zmod_int mod_simps)
  then have "pool_count ?mp = d" by (simp add: tk pool_count_def w)
  then show "pool_items mp = slot_package mp # pool_items ?mp"
    using rc by (simp add: pool_items_def tk d ring_slice_pop)
                (simp add: slot_package_def msg_pool_take_def rc)
  show "pool_wf ?mp" using wf by (auto simp: pool_wf_def tk)
qed

interpretation ring: bounded_queue pool_wf pool_items 5 package_ok
  "\<lambda>mp x. snd (msg_pool_push mp x)" slot_package "\<lambda>mp. snd (msg_pool_take mp)"
proof unfold_locales
  fix mp assume "pool_wf mp"
  then obtain r c where "pool_count mp = c" "c < 6" by (rule pool_positions)
  then show "length (pool_items mp) \<le> 5" by (simp add: pool_items_def)
qed (auto simp: push_items dest: take_items)

section \<open>Draining the FIFO\<close>

text \<open>
  \<open>serves B f h ps h'\<close>: read by \<open>FifoReceive\<close> from state \<open>h\<close>, the hardware delivers
  exactly the packets \<open>ps\<close> (reported length in bytes and words read) and then reports an
  empty FIFO, in state \<open>h'\<close>.
\<close>

inductive serves :: "'h bus \<Rightarrow> XLlFifo \<Rightarrow> 'h \<Rightarrow> (u32 \<times> u32 list) list \<Rightarrow> 'h \<Rightarrow> bool"
  for B f where
  empty: "XLlFifo_iRxOccupancy B f h = (0, h') \<Longrightarrow> serves B f h [] h'"
| packet: "XLlFifo_iRxOccupancy B f h = (occ, h1) \<Longrightarrow> occ \<noteq> 0 \<Longrightarrow>
     XLlFifo_iRxGetLen B f h1 = (rlen, h2) \<Longrightarrow>
     rx_words B f (ceil_div (unat rlen) WORD_SIZE) h2 = (ws, h3) \<Longrightarrow>
     serves B f h3 ps h' \<Longrightarrow> serves B f h ((rlen, ws) # ps) h'"

text \<open>The packages the received packets become; an empty packet becomes none.\<close>

definition packages_of :: "(u32 \<times> u32 list) list \<Rightarrow> F_Package list" where
  "packages_of ps = map (\<lambda>(_, ws). package_of_words ws) (filter (\<lambda>(rlen, _). rlen \<noteq> 0) ps)"

text \<open>Every packet fits a slot of the ring.\<close>

definition packages_fit :: "(u32 \<times> u32 list) list \<Rightarrow> bool" where
  "packages_fit ps \<longleftrightarrow> list_all (\<lambda>(rlen, _). unat rlen \<le> PACKAGE_MAX_SIZE) ps"

lemma packages_fit_simps [simp]:
  "packages_fit []"
  "packages_fit ((rlen, ws) # ps) \<longleftrightarrow> unat rlen \<le> PACKAGE_MAX_SIZE \<and> packages_fit ps"
  by (simp_all add: packages_fit_def)

lemma ceil_div_word: "0 < ceil_div (unat (rlen :: u32)) WORD_SIZE \<longleftrightarrow> rlen \<noteq> 0"
  using ceil_div_bounds [of WORD_SIZE "unat rlen"]
  by (auto simp: WORD_SIZE_def ceil_div_def unat_eq_0 intro: ccontr)

lemma ceil_div_fits: "ceil_div n WORD_SIZE * WORD_SIZE \<le> PACKAGE_MAX_SIZE \<longleftrightarrow> n \<le> PACKAGE_MAX_SIZE"
proof -
  have "n \<le> ceil_div n 4 * 4 \<and> ceil_div n 4 * 4 < n + 4" by (rule ceil_div_bounds) simp
  then show ?thesis by (auto simp: WORD_SIZE_def PACKAGE_MAX_SIZE_def)
qed

lemma ceil_div_overflows:
  "PACKAGE_MAX_SIZE < ceil_div n WORD_SIZE * WORD_SIZE \<longleftrightarrow> PACKAGE_MAX_SIZE < n"
  using ceil_div_fits [of n] by linarith

lemma FifoReceive_serves:
  assumes "serves B f h ps h'" and "packages_fit ps"
  shows "FifoReceive B f mp h =
    Some (Inr (XST_SUCCESS, foldl (\<lambda>mp x. snd (msg_pool_push mp x)) mp (packages_of ps), h'))"
  using assms
proof (induction arbitrary: mp rule: serves.induct)
  case (empty h h')
  then show ?case by (simp add: FifoReceive.simps packages_of_def)
next
  case (packet h occ h1 rlen h2 ws h3 ps h')
  then show ?case
    by (simp add: FifoReceive.simps [of B f mp h] ceil_div_word ceil_div_overflows packages_of_def)
qed

lemma FifoReceive_overflow:
  assumes "serves B f h ps h'" and "\<not> packages_fit ps"
  shows "FifoReceive B f mp h = Some (Inl OutOfBounds)"
  using assms
proof (induction arbitrary: mp rule: serves.induct)
  case (packet h occ h1 rlen h2 ws h3 ps h')
  then show ?case
    by (auto simp: FifoReceive.simps [of B f mp h] ceil_div_overflows)
qed simp

text \<open>
  Conversely a call that returns has drained some such list of packets. \<open>drained\<close> is the
  statement about one result, for the induction over the loop.
\<close>

definition drained ::
    "'h bus \<Rightarrow> XLlFifo \<Rightarrow> MsgPool \<Rightarrow> 'h \<Rightarrow> fault + (int \<times> MsgPool \<times> 'h) \<Rightarrow> bool" where
  "drained B f mp h r \<longleftrightarrow> (\<forall>s mp' h'. r = Inr (s, mp', h') \<longrightarrow>
     (\<exists>ps. serves B f h ps h' \<and> packages_fit ps \<and>
        mp' = foldl (\<lambda>mp x. snd (msg_pool_push mp x)) mp (packages_of ps)))"

lemma drained_packet:
  assumes "XLlFifo_iRxOccupancy B f h = (occ, h1)" "occ \<noteq> 0" "XLlFifo_iRxGetLen B f h1 = (rlen, h2)"
    and "rx_words B f (ceil_div (unat rlen) WORD_SIZE) h2 = (ws, h3)"
    and "unat rlen \<le> PACKAGE_MAX_SIZE"
    and "drained B f (if rlen \<noteq> 0 then snd (msg_pool_push mp (package_of_words ws)) else mp) h3 r"
  shows "drained B f mp h r"
  unfolding drained_def
proof (intro allI impI)
  fix s mp' h' assume "r = Inr (s, mp', h')"
  with assms(6) obtain ps where ps: "serves B f h3 ps h'"
    "packages_fit ps"
    "mp' = foldl (\<lambda>mp x. snd (msg_pool_push mp x))
       (if rlen \<noteq> 0 then snd (msg_pool_push mp (package_of_words ws)) else mp) (packages_of ps)"
    unfolding drained_def by blast
  have "serves B f h ((rlen, ws) # ps) h'"
    by (rule serves.packet [OF assms(1-4) ps(1)])
  moreover have "mp' = foldl (\<lambda>mp x. snd (msg_pool_push mp x)) mp (packages_of ((rlen, ws) # ps))"
    using ps(3) by (simp add: packages_of_def)
  ultimately show "\<exists>ps. serves B f h ps h' \<and>
      packages_fit ps \<and>
      mp' = foldl (\<lambda>mp x. snd (msg_pool_push mp x)) mp (packages_of ps)"
    using ps(2) assms(5) by (intro exI [of _ "(rlen, ws) # ps"]) simp
qed

lemma FifoReceive_drained:
  assumes "FifoReceive B f mp h = Some r"
  shows "drained B f mp h r"
proof (rule FifoReceive.raw_induct [where P = drained, OF _ assms])
  fix rec :: "'a bus \<Rightarrow> XLlFifo \<Rightarrow> MsgPool \<Rightarrow> 'a \<Rightarrow> (fault + (int \<times> MsgPool \<times> 'a)) option"
  fix B f mp h r
  assume IH: "\<And>B f mp h r. rec B f mp h = Some r \<Longrightarrow> drained B f mp h r"
    and eq: "(let (occ, h) = XLlFifo_iRxOccupancy B f h
      in if occ = 0 then Some (Inr (XST_SUCCESS, mp, h))
         else let (rlen, h) = XLlFifo_iRxGetLen B f h;
                  wlen = ceil_div (unat rlen) WORD_SIZE;
                  (ws, h) = rx_words B f wlen h
              in if PACKAGE_MAX_SIZE < wlen * WORD_SIZE then Some (Inl OutOfBounds)
                 else rec B f (if 0 < wlen then snd (msg_pool_push mp (package_of_words ws)) else mp) h)
      = Some r"
  obtain occ h1 where occ: "XLlFifo_iRxOccupancy B f h = (occ, h1)" by force
  obtain rlen h2 where rlen: "XLlFifo_iRxGetLen B f h1 = (rlen, h2)" by force
  obtain ws h3 where ws: "rx_words B f (ceil_div (unat rlen) WORD_SIZE) h2 = (ws, h3)" by force
  consider "occ = 0" | "occ \<noteq> 0" "unat rlen \<le> PACKAGE_MAX_SIZE"
    | "occ \<noteq> 0" "\<not> unat rlen \<le> PACKAGE_MAX_SIZE" by blast
  then show "drained B f mp h r"
  proof cases
    case 1
    with eq occ have "r = Inr (XST_SUCCESS, mp, h1)" by simp
    moreover have "serves B f h [] h1" using occ 1 by (auto intro: serves.empty)
    ultimately show ?thesis
      unfolding drained_def by (auto intro!: exI [of _ "[]"] simp: packages_of_def)
  next
    case 2
    with eq occ rlen ws have
      "rec B f (if rlen \<noteq> 0 then snd (msg_pool_push mp (package_of_words ws)) else mp) h3 = Some r"
      by (simp add: Let_def ceil_div_overflows ceil_div_word not_less)
    from drained_packet [OF occ 2(1) rlen ws 2(2) IH [OF this]] show ?thesis .
  next
    case 3
    with eq occ rlen ws have "r = Inl OutOfBounds"
      by (simp add: Let_def ceil_div_overflows not_le)
    then show ?thesis by (simp add: drained_def)
  qed
qed

section \<open>Sending\<close>

text \<open>The polls of \<open>tx_wait\<close>: at most \<open>n\<close> reads of the status register until one says done.\<close>

fun poll_done :: "'h bus \<Rightarrow> XLlFifo \<Rightarrow> nat \<Rightarrow> 'h \<Rightarrow> bool \<times> 'h" where
  "poll_done B f 0 h = (False, h)"
| "poll_done B f (Suc n) h =
     (let (done, h) = XLlFifo_IsTxDone B f h in if done then (True, h) else poll_done B f n h)"

lemma tx_wait_polls:
  "tx_wait B f (int n * 1000) h =
     (let (done, h) = poll_done B f (Suc n) h in (if done then XST_SUCCESS else 1, h))"
proof (induction n arbitrary: h)
  case 0
  then show ?case by (subst tx_wait.simps) (simp add: Let_def split: prod.splits)
next
  case (Suc n)
  obtain d h1 where d: "XLlFifo_IsTxDone B f h = (d, h1)" by force
  have t: "int (Suc n) * 1000 - 1000 = int n * 1000" by simp
  show ?case
    by (subst tx_wait.simps) (simp only: d t, simp add: d Suc.IH del: poll_done.simps(2) add: poll_done.simps(2) [of B f "Suc n"])
qed

text \<open>The words of a message: its bytes, padded with zeros to whole words.\<close>

definition padded :: "u8 list \<Rightarrow> u8 list" where
  "padded bs = bs @ replicate (ceil_div (length bs) WORD_SIZE * WORD_SIZE - length bs) 0"

lemma length_padded: "length (padded bs) mod 4 = 0"
  using ceil_div_bounds [of WORD_SIZE "length bs"] by (simp add: padded_def WORD_SIZE_def)

lemma tx_words_vacancy:
  assumes "\<And>h. \<exists>v. v \<noteq> 0 \<and> XLlFifo_iTxVacancy B f h = (v, h)"
  shows "tx_words B f ws h = fold (XLlFifo_TxPutWord B f) ws h"
proof (induction ws arbitrary: h)
  case (Cons w ws)
  obtain v where "v \<noteq> 0" "XLlFifo_iTxVacancy B f h = (v, h)" using assms by blast
  then show ?case by (simp add: Cons.IH)
qed simp

lemma padded_words:
  assumes "length bs \<le> 400"
  shows "take (ceil_div (length bs) WORD_SIZE) (words_of_bytes (memcpy_at 0 bs (replicate 400 0)))
         = words_of_bytes (padded bs)"
proof -
  let ?k = "ceil_div (length bs) WORD_SIZE"
  have k: "length bs \<le> ?k * 4" "?k * 4 < length bs + 4"
    using ceil_div_bounds [of WORD_SIZE "length bs"] by (auto simp: WORD_SIZE_def)
  then have k100: "?k * 4 \<le> 400" using assms by presburger
  let ?m = "memcpy_at 0 bs (replicate 400 (0 :: u8))"
  have m: "?m = bs @ replicate (400 - length bs) 0" using assms by (simp add: memcpy_at_def)
  have p: "padded bs = take (4 * ?k) ?m"
    using k k100 min_absorb2 [of "?k * 4 - length bs" "400 - length bs"]
    by (simp add: padded_def m WORD_SIZE_def ac_simps)
  have "bytes_of_words (take ?k (words_of_bytes ?m)) = take (4 * ?k) ?m"
    using assms by (simp add: bytes_of_words_take bytes_of_words_of_bytes)
  then have "words_of_bytes (padded bs) = words_of_bytes (bytes_of_words (take ?k (words_of_bytes ?m)))"
    by (simp add: p)
  then show ?thesis by simp
qed

lemma FifoSend_words:
  assumes n: "n \<le> 400" "n \<le> length src"
  shows "FifoSend B f src n h =
    Inr (tx_wait B f 2000000
      (XLlFifo_iTxSetLen B f (of_nat (length (padded (take n src))))
        (tx_words B f (words_of_bytes (padded (take n src))) h)))"
proof -
  have "ceil_div n WORD_SIZE \<le> 100"
    using ceil_div_bounds [of WORD_SIZE n] n(1) by (simp add: WORD_SIZE_def)
  moreover have "length (padded (take n src)) = ceil_div n WORD_SIZE * WORD_SIZE"
    using ceil_div_bounds [of WORD_SIZE n] n(2) by (simp add: WORD_SIZE_def padded_def min_absorb2)
  ultimately show ?thesis
    using n padded_words [of "take n src"] by (simp add: FifoSend_def min_absorb2 Let_def)
qed

text \<open>The free slot of the ring is the one fetched last, so no arrival overwrites it.\<close>

lemma push_keeps_free_slot:
  assumes wf: "pool_wf mp"
  shows "pool (snd (msg_pool_push mp x)) ! nat ((r_pos mp + 5) mod 6) = pool mp ! nat ((r_pos mp + 5) mod 6)"
proof -
  from wf obtain r c where rc: "r_pos mp = int r" "r < 6" "pool_count mp = c" "c < 6"
    and w: "w_pos mp = int ((r + c) mod 6)" by (rule pool_positions)
  have free: "nat ((r_pos mp + 5) mod 6) = (r + 5) mod 6" by (simp add: rc nat_mod_distrib nat_add_distrib)
  show ?thesis
  proof (cases "c = 5")
    case True
    with wf rc show ?thesis by (simp add: msg_pool_push_def full_iff)
  next
    case False
    then have "(r + c) mod 6 \<noteq> (r + 5) mod 6" using rc by (intro mod_add_less_neq) auto
    moreover have "nat (w_pos mp) = (r + c) mod 6" by (simp only: w nat_int)
    ultimately show ?thesis using wf rc False by (simp add: msg_pool_push_def full_iff flip: free)
  qed
qed

lemma offer_keeps_free_slot:
  assumes "pool_wf mp" and "list_all package_ok xs"
  shows "pool (foldl (\<lambda>mp x. snd (msg_pool_push mp x)) mp xs) ! nat ((r_pos mp + 5) mod 6)
         = pool mp ! nat ((r_pos mp + 5) mod 6)"
  using assms
proof (induction xs arbitrary: mp)
  case (Cons x xs)
  then show ?case
    using Cons.IH [of "snd (msg_pool_push mp x)"] push_keeps_free_slot [of mp x]
    by (simp add: push_items)
qed simp

lemma package_of_words_ok:
  "4 * length ws \<le> PACKAGE_MAX_SIZE \<Longrightarrow> package_ok (package_of_words ws)"
  by (simp add: package_ok_def package_of_words_def)

lemma serves_packages_ok:
  assumes "serves B f h ps h'" and "packages_fit ps"
  shows "list_all package_ok (packages_of ps)"
  using assms
proof (induction rule: serves.induct)
  case (empty h h')
  then show ?case by (simp add: packages_of_def)
next
  case (packet h occ h1 rlen h2 ws h3 ps h')
  have "length ws = ceil_div (unat rlen) WORD_SIZE" by (rule length_rx_words [OF packet.hyps(4)])
  moreover have "ceil_div (unat rlen) WORD_SIZE * WORD_SIZE \<le> PACKAGE_MAX_SIZE"
    using packet.prems by (simp add: ceil_div_fits)
  ultimately have "package_ok (package_of_words ws)"
    by (intro package_of_words_ok) (simp add: WORD_SIZE_def ac_simps)
  with packet show ?case by (simp add: packages_of_def)
qed

lemma fetch_round:
  assumes "pool_wf mp" "serves B (fifoIns mp) h ps h'"
    "packages_fit ps"
    and q: "q = pool_items mp @ take (5 - length (pool_items mp)) (packages_of ps)"
  defines "mp1 \<equiv> foldl (\<lambda>mp x. snd (msg_pool_push mp x)) mp (packages_of ps)"
  shows "pool_wf mp1" and "pool_items mp1 = q"
    and "fetch_loop B waitus timeout_us mp h =
      (if q \<noteq> [] then Some (Inr (0, Some (nat (r_pos mp1)), snd (msg_pool_take mp1), h'))
       else if timeout_us \<le> waitus then Some (Inr (1, None, mp1, h'))
       else fetch_loop B (waitus + 1000) timeout_us mp1 h')"
proof -
  have ok: "list_all package_ok (packages_of ps)" by (rule serves_packages_ok [OF assms(2,3)])
  then show wf: "pool_wf mp1" unfolding mp1_def by (rule ring.inv_offer [OF assms(1)])
  show items: "pool_items mp1 = q" unfolding mp1_def q by (rule ring.items_offer [OF assms(1) ok])
  show "fetch_loop B waitus timeout_us mp h =
      (if q \<noteq> [] then Some (Inr (0, Some (nat (r_pos mp1)), snd (msg_pool_take mp1), h'))
       else if timeout_us \<le> waitus then Some (Inr (1, None, mp1, h'))
       else fetch_loop B (waitus + 1000) timeout_us mp1 h')"
    unfolding fetch_loop.simps [of B waitus timeout_us mp h]
      FifoReceive_serves [OF assms(2,3)] mp1_def [symmetric]
    using empty_iff [OF wf] items by (simp add: msg_pool_take_def)
qed

lemma unat_ms_us: "n \<le> 4294967 \<Longrightarrow> unat (of_nat n * 1000 :: u32) = n * 1000"
  by (simp add: unat_word_ariths unat_of_nat)

lemma fetch_loop_polls:
  assumes "pool_wf mp" "pool_items mp = []" "t \<le> 4294967" "k \<le> t"
    and "\<forall>i<k. serves B (fifoIns mp) (hs i) (pss i) (hs (Suc i)) \<and> packages_of (pss i) = [] \<and>
           packages_fit (pss i)"
  shows "fetch_loop B 0 (of_nat t * 1000) mp (hs 0) =
         fetch_loop B (of_nat k * 1000) (of_nat t * 1000) mp (hs k)"
  using assms(4,5)
proof (induction k)
  case (Suc k)
  then have s: "serves B (fifoIns mp) (hs k) (pss k) (hs (Suc k))" "packages_of (pss k) = []"
    "packages_fit (pss k)" by auto
  have "\<not> of_nat t * 1000 \<le> (of_nat k * 1000 :: u32)"
    using assms(3) Suc.prems(1) by (simp add: word_le_nat_alt unat_ms_us)
  then have "fetch_loop B (of_nat k * 1000) (of_nat t * 1000) mp (hs k) =
             fetch_loop B (of_nat (Suc k) * 1000) (of_nat t * 1000) mp (hs (Suc k))"
    using fetch_round(3) [OF assms(1) s(1,3) refl, of "of_nat k * 1000" "of_nat t * 1000"]
    by (simp add: s(2) assms(2) algebra_simps)
  then show ?case using Suc by simp
qed simp

section \<open>Properties\<close>

text \<open>A concrete pool and lists of packets for the witnesses.\<close>

definition empty_pool :: MsgPool where
  "empty_pool = \<lparr>w_pos = 5, r_pos = 5, pool_magic = HANDLE_MAGIC, bSendComplete = 0,
     fifoIns = \<lparr>BaseAddress = 0xA0000000, IsReady = XIL_COMPONENT_IS_READY,
                Axi4BaseAddress = 0xA0000000, Datainterface = 0\<rparr>,
     pool = replicate 6 (replicate 256 0)\<rparr>"

lemma empty_pool_facts:
  "pool_wf empty_pool" "pool_items empty_pool = []" "pool_magic empty_pool = HANDLE_MAGIC"
  by (simp_all add: empty_pool_def pool_wf_def pool_items_def pool_count_def ring_slice_def
      PACKAGE_MAX_SIZE_def list_all_iff)

lemma script_regs:
  "XLlFifo_iRxOccupancy script_bus f (v # vs) = (v, vs)"
  "XLlFifo_iRxGetLen script_bus f (v # vs) = (v, vs)"
  "XLlFifo_RxGetWord script_bus f (v # vs) = (v, vs)"
  by (simp_all add: XLlFifo_iRxOccupancy_def XLlFifo_iRxGetLen_def XLlFifo_ReadReg_def
      XLlFifo_RxGetWord_def)

lemma script_rx_words: "rx_words script_bus f (length ws) (ws @ vs) = (ws, vs)"
  by (induction ws) (simp_all add: script_regs)

lemma serves_packet:
  assumes "ceil_div (unat rlen) WORD_SIZE = length ws"
  shows "serves script_bus f (1 # rlen # ws @ [0]) [(rlen, ws)] []"
proof -
  have "serves script_bus f [0] [] []" by (rule serves.empty) (rule script_regs)
  moreover have "rx_words script_bus f (ceil_div (unat rlen) WORD_SIZE) (ws @ [0]) = (ws, [0])"
    by (simp add: assms script_rx_words)
  ultimately show ?thesis
    by (intro serves.packet [OF script_regs(1) _ script_regs(2)]) simp_all
qed

lemma serves_one: "serves script_bus f [1, 8, w0, w1, 0] [(8, [w0, w1])] []"
  using serves_packet [of 8 "[w0, w1]" f] by (simp add: ceil_div_def WORD_SIZE_def)

lemma serves_none: "serves script_bus f [] [] []" "serves (log_bus 0) f l [] l"
  by (auto intro!: serves.empty simp: XLlFifo_iRxOccupancy_def XLlFifo_ReadReg_def)

lemma pool_ops_keep:
  "fifoIns (snd (msg_pool_push mp x)) = fifoIns mp" "pool_magic (snd (msg_pool_push mp x)) = pool_magic mp"
  "fifoIns (snd (msg_pool_take mp)) = fifoIns mp" "pool_magic (snd (msg_pool_take mp)) = pool_magic mp"
  by (simp_all add: msg_pool_push_def msg_pool_take_def)

lemma offer_keeps_handle:
  "fifoIns (foldl (\<lambda>mp x. snd (msg_pool_push mp x)) mp xs) = fifoIns mp"
  "pool_magic (foldl (\<lambda>mp x. snd (msg_pool_push mp x)) mp xs) = pool_magic mp"
  by (induction xs arbitrary: mp) (simp_all add: pool_ops_keep)

lemma fetch_queue:
  assumes "pool_wf mp" and "pool_magic mp = HANDLE_MAGIC"
    and "serves B (fifoIns mp) h ps h'"
    and "packages_fit ps"
    and "pool_items mp @ take (5 - length (pool_items mp)) (packages_of ps) = x # xs"
  shows "\<exists>slot mp'. msg_pool_fetch B mp timeout_ms h = Some (Inr (0, Some slot, mp', h')) \<and>
    pool mp' ! slot = x \<and> pool_items mp' = xs \<and> pool_wf mp' \<and>
    fifoIns mp' = fifoIns mp \<and> pool_magic mp' = pool_magic mp"
proof -
  define mp1 where "mp1 = foldl (\<lambda>mp x. snd (msg_pool_push mp x)) mp (packages_of ps)"
  note r = fetch_round [OF assms(1,3,4) assms(5) [symmetric], folded mp1_def]
  have ne: "pool_items mp1 \<noteq> []" using r(2) by simp
  have "slot_package mp1 # pool_items (snd (msg_pool_take mp1)) = x # xs"
    using take_items(1) [OF r(1) ne] r(2) by simp
  moreover have "pool (snd (msg_pool_take mp1)) ! nat (r_pos mp1) = slot_package mp1"
    by (simp add: slot_package_def msg_pool_take_def)
  ultimately show ?thesis
    using r(3) take_items(2) [OF r(1) ne] assms(2)
    by (simp add: msg_pool_fetch_def pool_ops_keep mp1_def offer_keeps_handle)
qed

text \<open>
  C7: Fetching a message is an operation on a bounded queue. For every hardware that
  delivers the packets \<open>ps\<close> to one drain of the FIFO, \<open>msg_pool_fetch\<close> appends the received
  packages to the waiting ones as far as the five free slots go, returns 0 with a pointer
  to the oldest, and leaves the others waiting in their order, whatever the timeout.
\<close>

theorem msg_pool_fetch_queue:
  assumes "pool_wf mp" and "pool_magic mp = HANDLE_MAGIC"
    and "serves B (fifoIns mp) h ps h'"
    and "packages_fit ps"
    and "pool_items mp @ take (5 - length (pool_items mp)) (packages_of ps) = x # xs"
  shows "\<exists>slot mp'. msg_pool_fetch B mp timeout_ms h = Some (Inr (0, Some slot, mp', h')) \<and>
    pool mp' ! slot = x \<and> pool_items mp' = xs \<and> pool_wf mp'"
  using fetch_queue [OF assms] by blast

theorem msg_pool_fetch_queue_witness:
  "\<exists>slot mp'. msg_pool_fetch script_bus empty_pool 0 [1, 8, 0x6cc11, 7, 0] =
      Some (Inr (0, Some slot, mp', [])) \<and>
    pool mp' ! slot = package_of_words [0x6cc11, 7] \<and> pool_items mp' = [] \<and> pool_wf mp'"
  by (rule msg_pool_fetch_queue [OF empty_pool_facts(1,3) serves_one])
     (simp_all add: empty_pool_facts packages_of_def PACKAGE_MAX_SIZE_def)

text \<open>
  With an empty ring and nothing received, \<open>msg_pool_fetch\<close> with a timeout of \<open>t\<close>
  milliseconds drains the FIFO exactly \<open>t + 1\<close> times, then returns 1 and leaves the ring as
  it was. The bound on \<open>t\<close> is where \<open>timeout_ms * 1000\<close> would wrap around.
\<close>

lemma msg_pool_fetch_timeout:
  assumes "pool_wf mp" and "pool_items mp = []" and "pool_magic mp = HANDLE_MAGIC"
    and "t \<le> 4294967"
    and "\<forall>i\<le>t. serves B (fifoIns mp) (hs i) (pss i) (hs (Suc i)) \<and> packages_of (pss i) = [] \<and>
           packages_fit (pss i)"
  shows "msg_pool_fetch B mp (of_nat t) (hs 0) = Some (Inr (1, None, mp, hs (Suc t)))"
proof -
  have s: "serves B (fifoIns mp) (hs t) (pss t) (hs (Suc t))" "packages_of (pss t) = []"
    "packages_fit (pss t)" using assms(5) by auto
  have "fetch_loop B (of_nat t * 1000) (of_nat t * 1000) mp (hs t) =
        Some (Inr (1, None, mp, hs (Suc t)))"
    using fetch_round(3) [OF assms(1) s(1,3) refl, of "of_nat t * 1000" "of_nat t * 1000"]
    by (simp add: s(2) assms(2))
  moreover have "fetch_loop B 0 (of_nat t * 1000) mp (hs 0) =
      fetch_loop B (of_nat t * 1000) (of_nat t * 1000) mp (hs t)"
    by (rule fetch_loop_polls [where k = t and pss = pss, OF assms(1,2,4)]) (use assms(5) in auto)
  ultimately show ?thesis using assms(3) by (simp add: msg_pool_fetch_def)
qed

text \<open>
  The pointer that \<open>msg_pool_fetch\<close> returns goes into the ring itself. The package
  behind it stays intact however many packets the next drain of the FIFO receives: the
  ring fills five of its six slots, and the free one is the slot returned last.
\<close>

lemma fetched_slot_kept:
  assumes "pool_wf mp" and "pool_items mp \<noteq> []" and "msg_pool_take mp = (slot, mp1)"
    and "FifoReceive B f mp1 h = Some (Inr (status, mp2, h2))"
  shows "pool mp2 ! slot = pool mp ! slot"
proof -
  from assms(1) obtain r c where rc: "r_pos mp = int r" "r < 6" by (rule pool_positions)
  have mp1: "mp1 = mp\<lparr>r_pos := int ((r + 1) mod 6)\<rparr>" and slot: "slot = r"
    using assms(3) by (auto simp: msg_pool_take_def rc MSG_POOL_SPACE_def smod_nonneg zmod_int ac_simps)
  have "(r + 6) mod 6 = r" using rc by simp
  then have free: "nat ((r_pos mp1 + 5) mod 6) = r"
    by (simp add: mp1 zmod_int mod_simps add.assoc flip: rc(2)) 
  have wf: "pool_wf mp1" using take_items(2) [OF assms(1,2)] assms(3) by simp
  obtain ps where ps: "serves B f h ps h2" "packages_fit ps"
    "mp2 = foldl (\<lambda>mp x. snd (msg_pool_push mp x)) mp1 (packages_of ps)"
    using FifoReceive_drained [OF assms(4)] unfolding drained_def by blast
  have "pool mp2 ! r = pool mp1 ! r"
    using offer_keeps_free_slot [OF wf serves_packages_ok [OF ps(1,2)]] by (simp add: ps(3) free)
  then show ?thesis by (simp add: slot mp1)
qed

lemma take_full_pool:
  "msg_pool_take (empty_pool\<lparr>w_pos := 0\<rparr>) = (5, empty_pool\<lparr>w_pos := 0, r_pos := 0\<rparr>)"
  by (simp add: msg_pool_take_def empty_pool_def MSG_POOL_SPACE_def smod_nonneg)

text \<open>
  C40: \<open>FifoReceive\<close> stores a packet in a static buffer of 256 bytes without looking at the
  length the FIFO reports: draining the FIFO overruns the buffer exactly when one of the
  packets is longer than that.
\<close>

theorem FifoReceive_overflow_iff:
  assumes "serves B f h ps h'"
  shows "FifoReceive B f mp h = Some (Inl OutOfBounds) \<longleftrightarrow>
         \<not> packages_fit ps"
  using FifoReceive_overflow [OF assms, of mp] FifoReceive_serves [OF assms, of mp]
  by auto

theorem FifoReceive_overflow_iff_witness:
  "FifoReceive script_bus (fifoIns empty_pool) empty_pool (1 # 257 # replicate 65 0 @ [0]) = Some (Inl OutOfBounds) \<longleftrightarrow>
   \<not> packages_fit [(257, replicate 65 0)]"
proof (rule FifoReceive_overflow_iff)
  have "ceil_div (unat (257 :: u32)) WORD_SIZE = length (replicate 65 (0 :: u32))"
    by (simp add: ceil_div_def WORD_SIZE_def)
  then show "serves script_bus (fifoIns empty_pool) (1 # 257 # replicate 65 0 @ [0]) [(257, replicate 65 0)] []"
    by (rule serves_packet)
qed

text \<open>
  On a FIFO with room, \<open>FifoSend\<close> writes the bytes of the message in order, padded with
  zeros to whole words, then their number, and polls the status at most 2001 times: it
  returns success when a poll reports completion and 1 when none does.
\<close>

lemma FifoSend_payload:
  assumes "n \<le> 400" and "n \<le> length src"
    and "\<And>h. \<exists>v. v \<noteq> 0 \<and> XLlFifo_iTxVacancy B f h = (v, h)"
  shows "\<exists>ws. bytes_of_words ws = padded (take n src) \<and>
    FifoSend B f src n h =
      (let (done, h') = poll_done B f 2001
             (XLlFifo_iTxSetLen B f (of_nat (4 * length ws)) (fold (XLlFifo_TxPutWord B f) ws h))
       in Inr (if done then XST_SUCCESS else 1, h'))"
proof (intro exI conjI)
  let ?ws = "words_of_bytes (padded (take n src))"
  show ws: "bytes_of_words ?ws = padded (take n src)"
    by (rule bytes_of_words_of_bytes) (rule length_padded)
  then have "4 * length ?ws = length (padded (take n src))"
    by (metis length_bytes_of_words)
  then show "FifoSend B f src n h =
      (let (done, h') = poll_done B f 2001
             (XLlFifo_iTxSetLen B f (of_nat (4 * length ?ws)) (fold (XLlFifo_TxPutWord B f) ?ws h))
       in Inr (if done then XST_SUCCESS else 1, h'))"
    using tx_wait_polls [of B f 2000]
    by (simp add: FifoSend_words [OF assms(1,2)] tx_words_vacancy [OF assms(3)] Let_def
        split: prod.splits)
qed

text \<open>
  \<open>msg_pool_release\<close> never releases a pool: for every pointer to a handle it returns -2
  and leaves the handle, for a null pointer it reads through it.
\<close>

lemma msg_pool_release_never:
  "msg_pool_release p =
     (case p of None \<Rightarrow> Inl NullPointer | Some hdl \<Rightarrow> Inr (-2, Some hdl))"
  by (auto simp: msg_pool_release_def deref_def split: option.splits)

end
