(* ===== verification/FlashTable.thy ===== *)
theory FlashTable
  imports Prelude
begin

text \<open>
  The parts of \<open>boe_factory_test/src/flashtest.c\<close> that need no device: the flash
  configuration table, the choice of its entry from the flash ID, the split of an address
  into command bytes, and the number of sectors an erase covers.
\<close>

section \<open>Commands and identifiers\<close>

definition WRITE_CMD :: u8 where "WRITE_CMD = 0x02"
definition READ_CMD :: u8 where "READ_CMD = 0x03"
definition WRITE_DISABLE_CMD :: u8 where "WRITE_DISABLE_CMD = 0x04"
definition READ_STATUS_CMD :: u8 where "READ_STATUS_CMD = 0x05"
definition WRITE_ENABLE_CMD :: u8 where "WRITE_ENABLE_CMD = 0x06"
definition FAST_READ_CMD :: u8 where "FAST_READ_CMD = 0x0B"
definition DUAL_READ_CMD :: u8 where "DUAL_READ_CMD = 0x3B"
definition QUAD_READ_CMD :: u8 where "QUAD_READ_CMD = 0x6B"
definition BULK_ERASE_CMD :: u8 where "BULK_ERASE_CMD = 0xC7"
definition SEC_ERASE_CMD :: u8 where "SEC_ERASE_CMD = 0xD8"
definition READ_ID :: u8 where "READ_ID = 0x9F"
definition ENTER_4B_ADDR_MODE :: u8 where "ENTER_4B_ADDR_MODE = 0xB7"
definition EXIT_4B_ADDR_MODE :: u8 where "EXIT_4B_ADDR_MODE = 0xE9"
definition EXIT_4B_ADDR_MODE_ISSI :: u8 where "EXIT_4B_ADDR_MODE_ISSI = 0x29"
definition FAST_READ_CMD_4B :: u8 where "FAST_READ_CMD_4B = 0x0C"
definition DUAL_READ_CMD_4B :: u8 where "DUAL_READ_CMD_4B = 0x3C"
definition QUAD_READ_CMD_4B :: u8 where "QUAD_READ_CMD_4B = 0x6C"
definition BANK_REG_WR :: u8 where "BANK_REG_WR = 0x17"
definition DIE_ERASE_CMD :: u8 where "DIE_ERASE_CMD = 0xC4"
definition READ_FLAG_STATUS_CMD :: u8 where "READ_FLAG_STATUS_CMD = 0x70"
definition DUMMY_CLOCKS :: u32 where "DUMMY_CLOCKS = 8"
definition SIXTEENMB :: u32 where "SIXTEENMB = 0x1000000"
definition PAGE_COUNT :: nat where "PAGE_COUNT = 32"
definition MAX_PAGE_SIZE :: nat where "MAX_PAGE_SIZE = 1024"
definition TEST_ADDRESS :: u32 where "TEST_ADDRESS = 0x2000000"
definition UNIQUE_VALUE :: u8 where "UNIQUE_VALUE = 0x06"
definition DATA_OFFSET :: nat where "DATA_OFFSET = 5"
definition DUMMY_SIZE :: nat where "DUMMY_SIZE = 1"

lemmas flash_cmds [model_eval] =
  WRITE_CMD_def READ_CMD_def WRITE_DISABLE_CMD_def READ_STATUS_CMD_def WRITE_ENABLE_CMD_def
  FAST_READ_CMD_def DUAL_READ_CMD_def QUAD_READ_CMD_def BULK_ERASE_CMD_def SEC_ERASE_CMD_def
  READ_ID_def ENTER_4B_ADDR_MODE_def EXIT_4B_ADDR_MODE_def EXIT_4B_ADDR_MODE_ISSI_def
  FAST_READ_CMD_4B_def DUAL_READ_CMD_4B_def QUAD_READ_CMD_4B_def BANK_REG_WR_def
  DIE_ERASE_CMD_def READ_FLAG_STATUS_CMD_def DUMMY_CLOCKS_def SIXTEENMB_def PAGE_COUNT_def
  MAX_PAGE_SIZE_def TEST_ADDRESS_def UNIQUE_VALUE_def DATA_OFFSET_def DUMMY_SIZE_def

definition MICRON_ID_BYTE0 :: u8 where "MICRON_ID_BYTE0 = 0x20"
definition MICRON_ID_BYTE2_128 :: u8 where "MICRON_ID_BYTE2_128 = 0x18"
definition MICRON_ID_BYTE2_256 :: u8 where "MICRON_ID_BYTE2_256 = 0x19"
definition MICRON_ID_BYTE2_512 :: u8 where "MICRON_ID_BYTE2_512 = 0x20"
definition MICRON_ID_BYTE2_1G :: u8 where "MICRON_ID_BYTE2_1G = 0x21"
definition SPANSION_ID_BYTE0 :: u8 where "SPANSION_ID_BYTE0 = 0x01"
definition SPANSION_ID_BYTE2_128 :: u8 where "SPANSION_ID_BYTE2_128 = 0x18"
definition SPANSION_ID_BYTE2_256 :: u8 where "SPANSION_ID_BYTE2_256 = 0x19"
definition SPANSION_ID_BYTE2_512 :: u8 where "SPANSION_ID_BYTE2_512 = 0x20"
definition WINBOND_ID_BYTE0 :: u8 where "WINBOND_ID_BYTE0 = 0xEF"
definition WINBOND_ID_BYTE2_128 :: u8 where "WINBOND_ID_BYTE2_128 = 0x18"
definition MACRONIX_ID_BYTE0 :: u8 where "MACRONIX_ID_BYTE0 = 0xC2"
definition MACRONIX_ID_BYTE2_1G :: u8 where "MACRONIX_ID_BYTE2_1G = 0x1B"
definition ISSI_ID_BYTE0 :: u8 where "ISSI_ID_BYTE0 = 0x9D"
definition ISSI_ID_BYTE2_256 :: u8 where "ISSI_ID_BYTE2_256 = 0x19"

lemmas flash_ids [model_eval] =
  MICRON_ID_BYTE0_def MICRON_ID_BYTE2_128_def MICRON_ID_BYTE2_256_def MICRON_ID_BYTE2_512_def
  MICRON_ID_BYTE2_1G_def SPANSION_ID_BYTE0_def SPANSION_ID_BYTE2_128_def
  SPANSION_ID_BYTE2_256_def SPANSION_ID_BYTE2_512_def WINBOND_ID_BYTE0_def
  WINBOND_ID_BYTE2_128_def MACRONIX_ID_BYTE0_def MACRONIX_ID_BYTE2_1G_def ISSI_ID_BYTE0_def
  ISSI_ID_BYTE2_256_def

text \<open>How the flash devices are wired (\<open>xqspipsu.h\<close>).\<close>

definition MODE_SINGLE :: u8 where "MODE_SINGLE = 0"
definition MODE_STACKED :: u8 where "MODE_STACKED = 1"
definition MODE_PARALLEL :: u8 where "MODE_PARALLEL = 2"

lemmas flash_modes [model_eval] = MODE_SINGLE_def MODE_STACKED_def MODE_PARALLEL_def

section \<open>The configuration table\<close>

record FlashInfo =
  SectSize :: u32
  NumSect :: u32
  PageSize :: u32
  NumPage :: u32
  FlashDeviceSize :: u32
  ManufacturerID :: u8
  DeviceIDMemSize :: u8
  SectMask :: u32
  NumDie :: u8

definition flash_info ::
    "u32 \<Rightarrow> u32 \<Rightarrow> u32 \<Rightarrow> u32 \<Rightarrow> u32 \<Rightarrow> u8 \<Rightarrow> u8 \<Rightarrow> u32 \<Rightarrow> u8 \<Rightarrow> FlashInfo" where
  "flash_info ss ns ps np ds mid msz sm nd =
     \<lparr>SectSize = ss, NumSect = ns, PageSize = ps, NumPage = np, FlashDeviceSize = ds,
      ManufacturerID = mid, DeviceIDMemSize = msz, SectMask = sm, NumDie = nd\<rparr>"

definition Flash_Config_Table :: "FlashInfo list" where
  "Flash_Config_Table =
    [flash_info 0x10000 0x100 256 0x10000 0x1000000 SPANSION_ID_BYTE0 SPANSION_ID_BYTE2_128 0xFFFF0000 1,
     flash_info 0x10000 0x200 256 0x20000 0x1000000 SPANSION_ID_BYTE0 SPANSION_ID_BYTE2_128 0xFFFF0000 1,
     flash_info 0x20000 0x100 512 0x10000 0x1000000 SPANSION_ID_BYTE0 SPANSION_ID_BYTE2_128 0xFFFE0000 1,
     flash_info 0x10000 0x200 256 0x20000 0x2000000 SPANSION_ID_BYTE0 SPANSION_ID_BYTE2_256 0xFFFF0000 1,
     flash_info 0x10000 0x400 256 0x40000 0x2000000 SPANSION_ID_BYTE0 SPANSION_ID_BYTE2_256 0xFFFF0000 1,
     flash_info 0x20000 0x200 512 0x20000 0x2000000 SPANSION_ID_BYTE0 SPANSION_ID_BYTE2_256 0xFFFE0000 1,
     flash_info 0x40000 0x100 512 0x20000 0x4000000 SPANSION_ID_BYTE0 SPANSION_ID_BYTE2_512 0xFFFC0000 1,
     flash_info 0x40000 0x200 512 0x40000 0x4000000 SPANSION_ID_BYTE0 SPANSION_ID_BYTE2_512 0xFFFC0000 1,
     flash_info 0x80000 0x100 1024 0x20000 0x4000000 SPANSION_ID_BYTE0 SPANSION_ID_BYTE2_512 0xFFF80000 1,
     flash_info 0x10000 0x100 256 0x10000 0x1000000 MICRON_ID_BYTE0 MICRON_ID_BYTE2_128 0xFFFF0000 1,
     flash_info 0x10000 0x200 256 0x20000 0x1000000 MICRON_ID_BYTE0 MICRON_ID_BYTE2_128 0xFFFF0000 1,
     flash_info 0x20000 0x100 512 0x10000 0x1000000 MICRON_ID_BYTE0 MICRON_ID_BYTE2_128 0xFFFE0000 1,
     flash_info 0x10000 0x200 256 0x20000 0x2000000 MICRON_ID_BYTE0 MICRON_ID_BYTE2_256 0xFFFF0000 1,
     flash_info 0x10000 0x400 256 0x40000 0x2000000 MICRON_ID_BYTE0 MICRON_ID_BYTE2_256 0xFFFF0000 1,
     flash_info 0x20000 0x200 512 0x20000 0x2000000 MICRON_ID_BYTE0 MICRON_ID_BYTE2_256 0xFFFE0000 1,
     flash_info 0x10000 0x400 256 0x40000 0x4000000 MICRON_ID_BYTE0 MICRON_ID_BYTE2_512 0xFFFF0000 2,
     flash_info 0x10000 0x800 256 0x80000 0x4000000 MICRON_ID_BYTE0 MICRON_ID_BYTE2_512 0xFFFF0000 2,
     flash_info 0x20000 0x400 512 0x40000 0x4000000 MICRON_ID_BYTE0 MICRON_ID_BYTE2_512 0xFFFE0000 2,
     flash_info 0x10000 0x800 256 0x80000 0x8000000 MICRON_ID_BYTE0 MICRON_ID_BYTE2_1G 0xFFFF0000 4,
     flash_info 0x10000 0x1000 256 0x100000 0x8000000 MICRON_ID_BYTE0 MICRON_ID_BYTE2_1G 0xFFFF0000 4,
     flash_info 0x20000 0x800 512 0x80000 0x8000000 MICRON_ID_BYTE0 MICRON_ID_BYTE2_1G 0xFFFE0000 4,
     flash_info 0x10000 0x100 256 0x10000 0x1000000 WINBOND_ID_BYTE0 WINBOND_ID_BYTE2_128 0xFFFF0000 1,
     flash_info 0x10000 0x200 256 0x20000 0x1000000 WINBOND_ID_BYTE0 WINBOND_ID_BYTE2_128 0xFFFF0000 1,
     flash_info 0x20000 0x100 512 0x10000 0x1000000 WINBOND_ID_BYTE0 WINBOND_ID_BYTE2_128 0xFFFE0000 1,
     flash_info 0x10000 0x800 256 0x80000 0x8000000 MACRONIX_ID_BYTE0 MACRONIX_ID_BYTE2_1G 0xFFFF0000 4,
     flash_info 0x10000 0x1000 256 0x100000 0x8000000 MACRONIX_ID_BYTE0 MACRONIX_ID_BYTE2_1G 0xFFFF0000 4,
     flash_info 0x20000 0x800 512 0x80000 0x8000000 MACRONIX_ID_BYTE0 MACRONIX_ID_BYTE2_1G 0xFFFE0000 4,
     flash_info 0x10000 0x200 256 0x20000 0x2000000 ISSI_ID_BYTE0 ISSI_ID_BYTE2_256 0xFFFF0000 1]"

definition fct_entry :: "u32 \<Rightarrow> fault + FlashInfo" where
  "fct_entry i = (if unat i < length Flash_Config_Table
                  then Inr (Flash_Config_Table ! unat i) else Inl OutOfBounds)"

section \<open>The entry for a flash ID\<close>

definition SPANSION_INDEX_START :: u32 where "SPANSION_INDEX_START = 0"
definition MICRON_INDEX_START :: u32 where "MICRON_INDEX_START = 9"
definition WINBOND_INDEX_START :: u32 where "WINBOND_INDEX_START = 21"
definition MACRONIX_INDEX_START :: u32 where "MACRONIX_INDEX_START = 24"
definition ISSI_INDEX_START :: u32 where "ISSI_INDEX_START = 27"

lemmas flash_index_starts [model_eval] =
  SPANSION_INDEX_START_def MICRON_INDEX_START_def WINBOND_INDEX_START_def
  MACRONIX_INDEX_START_def ISSI_INDEX_START_def

text \<open>
  The first half of \<open>FlashReadID\<close>: the make, or the make of the last call when the
  manufacturer is unknown, and \<open>StartIndex\<close>, which is then uninitialised.
\<close>

definition flash_make :: "u8 \<Rightarrow> u32 \<Rightarrow> u32 \<times> u32 option" where
  "flash_make id0 old =
     (if id0 = MICRON_ID_BYTE0 then (ucast MICRON_ID_BYTE0, Some MICRON_INDEX_START)
      else if id0 = SPANSION_ID_BYTE0 then (ucast SPANSION_ID_BYTE0, Some SPANSION_INDEX_START)
      else if id0 = WINBOND_ID_BYTE0 then (ucast WINBOND_ID_BYTE0, Some WINBOND_INDEX_START)
      else if id0 = MACRONIX_ID_BYTE0 then (ucast MACRONIX_ID_BYTE0, Some MACRONIX_INDEX_START)
      else if id0 = ISSI_ID_BYTE0 then (ucast ISSI_ID_BYTE0, Some ISSI_INDEX_START)
      else (old, None))"

text \<open>One \<open>switch\<close> on the connection mode; the offsets are for single, stacked, parallel.\<close>

definition mode_index :: "u8 \<Rightarrow> u32 \<Rightarrow> u32 \<Rightarrow> u32" where
  "mode_index mode single start =
     (if mode = MODE_SINGLE then single + start
      else if mode = MODE_PARALLEL then single + 2 + start
      else if mode = MODE_STACKED then single + 1 + start
      else 0)"

definition mode_index_start :: "u8 \<Rightarrow> u32 \<Rightarrow> u32 option \<Rightarrow> fault + u32" where
  "mode_index_start mode single start =
     (if mode \<in> {MODE_SINGLE, MODE_PARALLEL, MODE_STACKED}
      then (case start of None \<Rightarrow> Inl Uninitialised | Some s \<Rightarrow> Inr (mode_index mode single s))
      else Inr 0)"

text \<open>The second half: the conditions in their order; they exclude one another.\<close>

definition flash_index :: "u8 \<Rightarrow> u32 \<Rightarrow> u32 option \<Rightarrow> u8 \<Rightarrow> u32 \<Rightarrow> fault + u32" where
  "flash_index mode mk start id2 old =
     (let micron = (mk = ucast MICRON_ID_BYTE0); spansion = (mk = ucast SPANSION_ID_BYTE0);
          winbond = (mk = ucast WINBOND_ID_BYTE0); macronix = (mk = ucast MACRONIX_ID_BYTE0);
          issi = (mk = ucast ISSI_ID_BYTE0)
      in if (micron \<or> spansion \<or> winbond) \<and> id2 = MICRON_ID_BYTE2_128
         then mode_index_start mode 0 start
         else if (micron \<or> spansion) \<and> id2 = MICRON_ID_BYTE2_256
         then mode_index_start mode 3 start
         else if issi \<and> id2 = MICRON_ID_BYTE2_256
         then Inr (mode_index mode 0 ISSI_INDEX_START)
         else if (micron \<or> spansion) \<and> id2 = MICRON_ID_BYTE2_512
         then mode_index_start mode 6 start
         else if micron \<and> id2 = MICRON_ID_BYTE2_1G
         then Inr (mode_index mode 9 MICRON_INDEX_START)
         else if macronix \<and> id2 = MACRONIX_ID_BYTE2_1G
         then Inr (mode_index mode 0 MACRONIX_INDEX_START)
         else Inr old)"

section \<open>Addresses\<close>

definition addr_bytes :: "FlashInfo \<Rightarrow> u32 \<Rightarrow> u8 list" where
  "addr_bytes fi a =
     (if FlashDeviceSize fi > SIXTEENMB
      then [ucast (drop_bit 24 (a AND 0xFF000000)), ucast (drop_bit 16 (a AND 0xFF0000)),
            ucast (drop_bit 8 (a AND 0xFF00)), ucast (a AND 0xFF)]
      else [ucast (drop_bit 16 (a AND 0xFF0000)), ucast (drop_bit 8 (a AND 0xFF00)),
            ucast (a AND 0xFF)])"

text \<open>The number of sectors \<open>FlashErase\<close> erases, in 32-bit arithmetic.\<close>

definition erase_NumSect :: "FlashInfo \<Rightarrow> u32 \<Rightarrow> u32 \<Rightarrow> u32" where
  "erase_NumSect fi Address ByteCount =
     (let n = ByteCount div SectSize fi + 1
      in if (Address + ByteCount) AND SectMask fi = (Address + n * SectSize fi) AND SectMask fi
         then n + 1 else n)"

section \<open>Facts about the table\<close>

lemma table_all:
  "list_all P Flash_Config_Table \<Longrightarrow> fi \<in> set Flash_Config_Table \<Longrightarrow> P fi"
  by (simp add: list_all_iff)

lemma table_sectors:
  assumes "fi \<in> set Flash_Config_Table"
  obtains k where "16 \<le> k" "k \<le> 19" "SectSize fi = 2 ^ k" "SectMask fi = NOT (mask k)"
proof -
  define P where "P fi = (\<exists>k \<in> {16, 17, 18, 19::nat}. SectSize fi = 2 ^ k \<and> SectMask fi = NOT (mask k))" for fi :: FlashInfo
  have "list_all P Flash_Config_Table"
    by (simp add: Flash_Config_Table_def flash_info_def P_def mask_eq_exp_minus_1)
  from table_all [OF this assms] obtain k where "k \<in> {16, 17, 18, 19}" "SectSize fi = 2 ^ k"
    "SectMask fi = NOT (mask k)" unfolding P_def by blast
  then show ?thesis by (intro that [of k]) auto
qed

lemma fct_entry_Inr: "fct_entry i = Inr fi \<Longrightarrow> fi \<in> set Flash_Config_Table"
  by (auto simp: fct_entry_def split: if_splits)

lemma and_sector_mask_eq:
  "(x :: u32) AND NOT (mask k) = y AND NOT (mask k) \<longleftrightarrow> unat x div 2 ^ k = unat y div 2 ^ k"
proof -
  have "x AND NOT (mask k) = y AND NOT (mask k) \<longleftrightarrow> drop_bit k x = drop_bit k y"
  proof
    assume eq: "x AND NOT (mask k) = y AND NOT (mask k)"
    have "drop_bit k (x AND NOT (mask k)) = drop_bit k x" for x :: u32
      by (rule bit_word_eqI) (auto simp: bit_simps dest: bit_imp_le_length)
    with eq show "drop_bit k x = drop_bit k y" by metis
  next
    assume eq: "drop_bit k x = drop_bit k y"
    have "push_bit k (drop_bit k x) = x AND NOT (mask k)" for x :: u32
      by (rule bit_word_eqI) (auto simp: bit_simps)
    with eq show "x AND NOT (mask k) = y AND NOT (mask k)" by metis
  qed
  also have "\<dots> \<longleftrightarrow> unat x div 2 ^ k = unat y div 2 ^ k"
    by (simp add: word_unat_eq_iff unat_drop_bit_eq) (simp add: drop_bit_eq_div)
  finally show ?thesis .
qed

lemma div_split_carry:
  fixes a b s :: nat
  assumes "0 < s"
  shows "(a + b) div s = a div s + b div s \<or> (a + b) div s = a div s + b div s + 1"
    and "(a + (b div s + 1) * s) div s = a div s + b div s + 1"
proof -
  have "(a + b) div s = a div s + b div s + (a mod s + b mod s) div s" by (rule div_add1_eq)
  moreover have "a mod s + b mod s < 2 * s"
    using mod_less_divisor [OF assms, of a] mod_less_divisor [OF assms, of b] by linarith
  then have "(a mod s + b mod s) div s < 2" by (simp add: less_mult_imp_div_less)
  ultimately show "(a + b) div s = a div s + b div s \<or> (a + b) div s = a div s + b div s + 1"
    by auto
  show "(a + (b div s + 1) * s) div s = a div s + b div s + 1"
    using assms div_mult_self1 [of s a "b div s + 1"] by simp
qed

text \<open>
  \<open>FlashErase\<close> works out, in 32-bit arithmetic and with masks, the number of sectors to
  erase for \<open>n\<close> bytes from \<open>a\<close>. For every entry of the table and every range below the end
  of the address space it is the number of sectors from the one of \<open>a\<close> to the one of
  \<open>a + n\<close> inclusive: no sector of the range is left out, and one more is erased when the
  range ends on a sector boundary.
\<close>

lemma erase_NumSect_covers:
  assumes "fi \<in> set Flash_Config_Table"
    and "unat a + unat n + 2 * unat (SectSize fi) \<le> 0xFFFFFFFF"
  shows "unat (erase_NumSect fi a n) =
    (unat a + unat n) div unat (SectSize fi) - unat a div unat (SectSize fi) + 1"
proof -
  obtain k where k: "16 \<le> k" "k \<le> 19" "SectSize fi = 2 ^ k" "SectMask fi = NOT (mask k)"
    using table_sectors [OF assms(1)] .
  define s :: nat where "s = 2 ^ k"
  have "k = 16 \<or> k = 17 \<or> k = 18 \<or> k = 19" using k by auto
  then have S: "unat (SectSize fi) = s" by (auto simp: k s_def)
  have s: "0 < s" by (simp add: s_def)
  have q: "unat (n div SectSize fi) = unat n div s" by (simp add: unat_div S)
  have le: "unat n div s * s \<le> unat n" by (rule div_times_less_eq_dividend)
  have le': "unat n div s \<le> unat n" by (rule div_le_dividend)
  have b: "unat a + unat n + 2 * s \<le> 0xFFFFFFFF" using assms(2) by (simp only: S)
  have d: "unat n div s \<le> 0xFFFFFFFD" using b le' s by linarith
  have n1: "unat (n div SectSize fi + 1) = unat n div s + 1"
    using d unat_u32_plus [of "n div SectSize fi" 1] by (simp add: q)
  have an: "unat (a + n) = unat a + unat n" using b by (intro unat_u32_plus) linarith
  have m: "(unat n div s + 1) * s = unat n div s * s + s" by simp
  have "unat ((n div SectSize fi + 1) * SectSize fi) = (unat n div s + 1) * s"
    using b le m unat_u32_mult [of "n div SectSize fi + 1" "SectSize fi"] by (simp only: n1 S)
  then have "unat (a + (n div SectSize fi + 1) * SectSize fi) = unat a + (unat n div s + 1) * s"
    using b le m unat_u32_plus [of a "(n div SectSize fi + 1) * SectSize fi"] by (simp only:)
  then have cond: "(a + n) AND SectMask fi = (a + (n div SectSize fi + 1) * SectSize fi) AND SectMask fi
      \<longleftrightarrow> (unat a + unat n) div s = unat a div s + unat n div s + 1"
    by (simp only: k(4) and_sector_mask_eq an flip: s_def) (simp only: div_split_carry(2) [OF s])
  have n2: "unat (2 + n div SectSize fi) = unat n div s + 2"
    using d unat_u32_plus [of 2 "n div SectSize fi"] by (simp add: q)
  show ?thesis
    using div_split_carry(1) [OF s, of "unat a" "unat n"]
    by (auto simp: erase_NumSect_def Let_def cond n1 n2 S simp del: One_nat_def)
qed

text \<open>The IDs the table lists.\<close>

definition supported_id :: "u8 \<Rightarrow> u8 \<Rightarrow> bool" where
  "supported_id id0 id2 \<longleftrightarrow>
     list_ex (\<lambda>fi. ManufacturerID fi = id0 \<and> DeviceIDMemSize fi = id2) Flash_Config_Table"

text \<open>
  An entry that fits the ID and the wiring: one device or two, sectors and pages doubled
  when the two are read in parallel, and sizes that agree with each other.
\<close>

definition entry_fits :: "u8 \<Rightarrow> u8 \<Rightarrow> u8 \<Rightarrow> FlashInfo \<Rightarrow> bool" where
  "entry_fits mode id0 id2 fi \<longleftrightarrow>
     ManufacturerID fi = id0 \<and> DeviceIDMemSize fi = id2 \<and>
     SectMask fi = - SectSize fi \<and>
     (let total = FlashDeviceSize fi * (if mode = MODE_SINGLE then 1 else 2)
      in NumSect fi * SectSize fi = total \<and> NumPage fi * PageSize fi = total)"

text \<open>
  For every flash ID in the table and every wiring the entry that \<open>FlashReadID\<close> selects
  has that manufacturer and memory size, and its sector and page geometry adds up to the
  size of the one or two devices; except for ISSI parts, which the table lists only singly.
\<close>

lemma flash_index_fits:
  assumes "supported_id id0 id2" and "mode \<in> {MODE_SINGLE, MODE_STACKED, MODE_PARALLEL}"
    and "id0 = ISSI_ID_BYTE0 \<longrightarrow> mode = MODE_SINGLE"
  shows "\<exists>i fi. flash_index mode (fst (flash_make id0 m)) (snd (flash_make id0 m)) id2 old = Inr i \<and>
    fct_entry i = Inr fi \<and> entry_fits mode id0 id2 fi"
proof -
  have "(id0, id2) \<in> {(0x01, 0x18), (0x01, 0x19), (0x01, 0x20), (0x20, 0x18), (0x20, 0x19),
      (0x20, 0x20), (0x20, 0x21), (0xEF, 0x18), (0xC2, 0x1B), (0x9D, 0x19)}"
    using assms(1) by (auto simp: supported_id_def Flash_Config_Table_def flash_info_def flash_ids)
  then show ?thesis
    using assms(2,3)
    apply (simp add: flash_ids flash_modes)
    apply (elim disjE)
    apply (simp_all add: flash_make_def flash_index_def mode_index_start_def mode_index_def
        flash_ids flash_modes flash_index_starts fct_entry_def Flash_Config_Table_def
        flash_info_def entry_fits_def)
    done
qed

text \<open>The number an address field spells, most significant byte first.\<close>

definition be_value :: "u8 list \<Rightarrow> nat" where
  "be_value bs = foldl (\<lambda>acc b. acc * 256 + unat b) 0 bs"

lemma byte_fields:
  "ucast (drop_bit 24 (a AND 0xFF000000)) = (ucast (drop_bit 24 a) :: u8)"
  "ucast (drop_bit 16 (a AND 0xFF0000)) = (ucast (drop_bit 16 a) :: u8)"
  "ucast (drop_bit 8 (a AND 0xFF00)) = (ucast (drop_bit 8 a) :: u8)"
  "ucast (a AND 0xFF) = (ucast (a :: u32) :: u8)"
proof -
  have masks: "(0xFF000000 :: u32) = push_bit 24 (mask 8)" "(0xFF0000 :: u32) = push_bit 16 (mask 8)"
    "(0xFF00 :: u32) = push_bit 8 (mask 8)" "(0xFF :: u32) = mask 8"
    by (simp_all add: mask_eq_exp_minus_1 push_bit_eq_mult)
  show "ucast (drop_bit 24 (a AND 0xFF000000)) = (ucast (drop_bit 24 a) :: u8)"
    "ucast (drop_bit 16 (a AND 0xFF0000)) = (ucast (drop_bit 16 a) :: u8)"
    "ucast (drop_bit 8 (a AND 0xFF00)) = (ucast (drop_bit 8 a) :: u8)"
    "ucast (a AND 0xFF) = (ucast a :: u8)"
    unfolding masks by (auto intro!: bit_word_eqI simp: bit_simps)
qed

text \<open>
  The address bytes of a command spell the address, most significant byte first, on a
  device above 16 MB; on a smaller one only its low 24 bits, so that the test address at
  32 MB becomes address 0.
\<close>

lemma addr_bytes_value:
  "be_value (addr_bytes fi a) =
    (if FlashDeviceSize fi > SIXTEENMB then unat a else unat a mod 2 ^ 24)"
proof -
  have b0: "unat (ucast a :: u8) = unat a mod 256" using unat_byte [of 0 a] by simp
  from base256_4 [OF unat_u32_less [of a]] base256_3 [of "unat a"] show ?thesis
    unfolding addr_bytes_def byte_fields by (simp add: be_value_def unat_byte b0 algebra_simps)
qed

end
