(* ===== verification/FlashTest.thy ===== *)
theory FlashTest
  imports FlashTable
begin

text \<open>
  The QSPI flash test \<open>boe_factory_test/src/flashtest.c\<close>: identify the flash, erase,
  program 32 pages, read back and compare. The QSPI driver \<open>XQspiPsu\<close> and the flash behind
  it are the record \<open>'d qspi\<close> over a device state of any type. The functions' globals are
  \<open>flash_globals\<close>; \<open>mode\<close> is \<open>QspiPsuPtr->Config.ConnectionMode\<close>, which only the driver's
  initialisation sets.
\<close>

section \<open>The driver interface\<close>

text \<open>
  A message: \<open>TxBfr\<close> holds the bytes \<open>TxBfrPtr\<close> points to, \<open>RxBfr\<close> says whether
  \<open>RxBfrPtr\<close> is not null.
\<close>

record XQspiPsu_Msg =
  TxBfr :: "u8 list option"
  RxBfr :: bool
  ByteCount :: u32
  BusWidth :: u32
  Flags :: u32

record XQspiPsu_Config =
  QBaseAddress :: u32
  ConnectionMode :: u8

text \<open>
  \<open>PolledTransfer msgs d = (status, rx, d')\<close>: \<open>rx i k\<close> is the byte the transfer stores at
  offset \<open>k\<close> of the receive buffer of message \<open>i\<close>, for \<open>k\<close> below its byte count.
\<close>

record 'd qspi =
  QLookupConfig :: "u16 \<Rightarrow> XQspiPsu_Config option"
  QCfgInitialize :: "XQspiPsu_Config \<Rightarrow> u32 \<Rightarrow> 'd \<Rightarrow> int \<times> 'd"
  QSetOptions :: "u32 \<Rightarrow> 'd \<Rightarrow> int \<times> 'd"
  QSetClkPrescaler :: "u8 \<Rightarrow> 'd \<Rightarrow> int \<times> 'd"
  SelectFlash :: "u8 \<Rightarrow> u8 \<Rightarrow> 'd \<Rightarrow> 'd"
  PolledTransfer :: "XQspiPsu_Msg list \<Rightarrow> 'd \<Rightarrow> int \<times> (nat \<Rightarrow> nat \<Rightarrow> u8) \<times> 'd"

definition SELECT_MODE_SPI :: u32 where "SELECT_MODE_SPI = 1"
definition SELECT_MODE_DUALSPI :: u32 where "SELECT_MODE_DUALSPI = 2"
definition SELECT_MODE_QUADSPI :: u32 where "SELECT_MODE_QUADSPI = 4"
definition MSG_FLAG_STRIPE :: u32 where "MSG_FLAG_STRIPE = 1"
definition MSG_FLAG_RX :: u32 where "MSG_FLAG_RX = 2"
definition MSG_FLAG_TX :: u32 where "MSG_FLAG_TX = 4"
definition CS_LOWER :: u8 where "CS_LOWER = 1"
definition CS_UPPER :: u8 where "CS_UPPER = 2"
definition CS_BOTH :: u8 where "CS_BOTH = 3"
definition BUS_LOWER :: u8 where "BUS_LOWER = 1"
definition BUS_BOTH :: u8 where "BUS_BOTH = 3"
definition MANUAL_START_OPTION :: u32 where "MANUAL_START_OPTION = 8"
definition CLK_PRESCALE_8 :: u8 where "CLK_PRESCALE_8 = 2"

lemmas qspi_consts [model_eval] =
  SELECT_MODE_SPI_def SELECT_MODE_DUALSPI_def SELECT_MODE_QUADSPI_def MSG_FLAG_STRIPE_def
  MSG_FLAG_RX_def MSG_FLAG_TX_def CS_LOWER_def CS_UPPER_def CS_BOTH_def BUS_LOWER_def
  BUS_BOTH_def MANUAL_START_OPTION_def CLK_PRESCALE_8_def

section \<open>The globals\<close>

record flash_globals =
  FlashMake :: u32
  FCTIndex :: u32
  ReadCmd :: u8
  WriteCmd :: u8
  StatusCmd :: u8
  SectorEraseCmd :: u8
  FSRFlag :: u8
  FlashMsg :: "XQspiPsu_Msg list"
  IdBfr :: "u8 list"
  ReadBuffer :: "u8 list"
  WriteBuffer :: "u8 list"
  CmdBfr :: "u8 list"
  MaxData :: u32
  Test :: int

text \<open>
  The result of a function: \<open>None\<close> when it does not return, \<open>Inl\<close> a fault, \<open>Inr\<close> its
  return code with the globals and the device.
\<close>

type_synonym 'd flash_result = "(fault + (int \<times> flash_globals \<times> 'd)) option"

text \<open>\<open>if_ok r k\<close>: go on with \<open>k\<close> when the call succeeded, else return \<open>XST_FAILURE\<close>.\<close>

definition if_ok :: "'d flash_result \<Rightarrow> (flash_globals \<Rightarrow> 'd \<Rightarrow> 'd flash_result) \<Rightarrow> 'd flash_result" where
  "if_ok r k = (case r of
      None \<Rightarrow> None
    | Some (Inl e) \<Rightarrow> Some (Inl e)
    | Some (Inr (Status, g, d)) \<Rightarrow>
        if Status \<noteq> XST_SUCCESS then Some (Inr (XST_FAILURE, g, d)) else k g d)"

text \<open>Setting \<open>FlashMsg[i]\<close>; the command messages all have the same shape.\<close>

definition set_msg :: "nat \<Rightarrow> XQspiPsu_Msg \<Rightarrow> flash_globals \<Rightarrow> flash_globals" where
  "set_msg i m g = g\<lparr>FlashMsg := (FlashMsg g)[i := m]\<rparr>"

definition tx_msg :: "u8 list \<Rightarrow> u32 \<Rightarrow> XQspiPsu_Msg" where
  "tx_msg buf n = \<lparr>TxBfr = Some buf, RxBfr = False, ByteCount = n, BusWidth = SELECT_MODE_SPI,
                   Flags = MSG_FLAG_TX\<rparr>"

definition rx_msg :: "u32 \<Rightarrow> u32 \<Rightarrow> XQspiPsu_Msg" where
  "rx_msg n fl = \<lparr>TxBfr = None, RxBfr = True, ByteCount = n, BusWidth = SELECT_MODE_SPI, Flags = fl\<rparr>"

definition stripe :: "u8 \<Rightarrow> u32 \<Rightarrow> u32" where
  "stripe mode fl = (if mode = MODE_PARALLEL then fl OR MSG_FLAG_STRIPE else fl)"

text \<open>A transfer of the first message only, with its status check.\<close>

definition transfer1 :: "'d qspi \<Rightarrow> u8 list \<Rightarrow> u32 \<Rightarrow> flash_globals \<Rightarrow> 'd \<Rightarrow> 'd flash_result" where
  "transfer1 D buf n g d =
     (let g = set_msg 0 (tx_msg buf n) g;
          (Status, rx, d) = PolledTransfer D (take 1 (FlashMsg g)) d
      in Some (Inr (if Status \<noteq> XST_SUCCESS then XST_FAILURE else XST_SUCCESS, g, d)))"

definition write_enable :: "'d qspi \<Rightarrow> flash_globals \<Rightarrow> 'd \<Rightarrow> 'd flash_result" where
  "write_enable D = transfer1 D [WRITE_ENABLE_CMD] 1"

section \<open>Waiting for the flash\<close>

text \<open>
  The loop all erase and program operations end with. In parallel wiring the two status
  bytes of the two devices are combined.
\<close>

definition flash_ready :: "u8 \<Rightarrow> u8 \<Rightarrow> u8 \<Rightarrow> u8 \<Rightarrow> bool" where
  "flash_ready mode fsr s0 s1 =
     (let s1 = (if mode = MODE_PARALLEL then (if fsr \<noteq> 0 then s1 AND s0 else s1 OR s0) else s1)
      in if fsr \<noteq> 0 then s1 AND 0x80 \<noteq> 0 else s1 AND 0x01 = 0)"

partial_function (option) wait_ready ::
    "'d qspi \<Rightarrow> u8 \<Rightarrow> flash_globals \<Rightarrow> 'd \<Rightarrow> (fault + (int \<times> flash_globals \<times> 'd)) option" where
  "wait_ready D mode g d =
     (let g = set_msg 1 (rx_msg 2 (stripe mode MSG_FLAG_RX)) (set_msg 0 (tx_msg [StatusCmd g] 1) g);
          (Status, rx, d) = PolledTransfer D (take 2 (FlashMsg g)) d
      in if Status \<noteq> XST_SUCCESS then Some (Inr (XST_FAILURE, g, d))
         else if flash_ready mode (FSRFlag g) (rx 1 0) (rx 1 1) then Some (Inr (XST_SUCCESS, g, d))
         else wait_ready D mode g d)"

section \<open>Addresses\<close>

text \<open>\<open>GetRealAddr\<close>; \<open>None\<close> is the unassigned \<open>RealAddr\<close> of the default case.\<close>

definition GetRealAddr :: "'d qspi \<Rightarrow> u8 \<Rightarrow> FlashInfo \<Rightarrow> u32 \<Rightarrow> 'd \<Rightarrow> u32 option \<times> 'd" where
  "GetRealAddr D mode fi Address d =
     (if mode = MODE_SINGLE then (Some Address, SelectFlash D CS_LOWER BUS_LOWER d)
      else if mode = MODE_STACKED then
        (if Address AND FlashDeviceSize fi \<noteq> 0
         then (Some (Address AND NOT (FlashDeviceSize fi)), SelectFlash D CS_UPPER BUS_LOWER d)
         else (Some Address, SelectFlash D CS_LOWER BUS_LOWER d))
      else if mode = MODE_PARALLEL then (Some (Address div 2), SelectFlash D CS_BOTH BUS_BOTH d)
      else (None, d))"

text \<open>The accesses \<open>Flash_Config_Table[FCTIndex]\<close> of a function.\<close>

definition with_entry :: "flash_globals \<Rightarrow> (FlashInfo \<Rightarrow> 'd flash_result) \<Rightarrow> 'd flash_result" where
  "with_entry g k = (case fct_entry (FCTIndex g) of Inl e \<Rightarrow> Some (Inl e) | Inr fi \<Rightarrow> k fi)"

definition with_addr :: "u32 option \<Rightarrow> (u32 \<Rightarrow> 'd flash_result) \<Rightarrow> 'd flash_result" where
  "with_addr a k = (case a of None \<Rightarrow> Some (Inl Uninitialised) | Some a \<Rightarrow> k a)"

text \<open>Command and address at the start of a command buffer, with the number of bytes.\<close>

definition cmd_addr :: "u8 \<Rightarrow> FlashInfo \<Rightarrow> u32 \<Rightarrow> u8 list \<Rightarrow> u8 list" where
  "cmd_addr cmd fi a buf = memcpy_at 0 (cmd # addr_bytes fi a) buf"

definition cmd_addr_count :: "FlashInfo \<Rightarrow> u32" where
  "cmd_addr_count fi = (if FlashDeviceSize fi > SIXTEENMB then 5 else 4)"

section \<open>Identification\<close>

definition FlashReadID :: "'d qspi \<Rightarrow> u8 \<Rightarrow> flash_globals \<Rightarrow> 'd \<Rightarrow> 'd flash_result" where
  "FlashReadID D mode g d =
     (let g = set_msg 1 (rx_msg 3 MSG_FLAG_RX) (set_msg 0 (tx_msg [READ_ID] 1) g);
          (Status, rx, d) = PolledTransfer D (take 2 (FlashMsg g)) d
      in if Status \<noteq> XST_SUCCESS then Some (Inr (XST_FAILURE, g, d))
         else
           let g = g\<lparr>IdBfr := map (rx 1) [0..<3]\<rparr>;
               (mk, StartIndex) = flash_make (rx 1 0) (FlashMake g);
               g = g\<lparr>FlashMake := mk\<rparr>
           in case flash_index mode mk StartIndex (rx 1 2) (FCTIndex g) of
                Inl e \<Rightarrow> Some (Inl e)
              | Inr i \<Rightarrow> Some (Inr (XST_SUCCESS, g\<lparr>FCTIndex := i\<rparr>, d)))"

section \<open>Program, erase and read\<close>

definition FlashWrite ::
    "'d qspi \<Rightarrow> u8 \<Rightarrow> u32 \<Rightarrow> u32 \<Rightarrow> u8 \<Rightarrow> u8 list \<Rightarrow> flash_globals \<Rightarrow> 'd \<Rightarrow> 'd flash_result" where
  "FlashWrite D mode Address n Command WriteBfr g d =
     with_entry g (\<lambda>fi.
       let (RealAddr, d) = GetRealAddr D mode fi Address d
       in if_ok (write_enable D g d) (\<lambda>g d. with_addr RealAddr (\<lambda>a.
            let g = set_msg 0 (tx_msg (cmd_addr Command fi a (replicate 5 0)) (cmd_addr_count fi)) g;
                g = set_msg 1 \<lparr>TxBfr = Some WriteBfr, RxBfr = False, ByteCount = n,
                      BusWidth = SELECT_MODE_SPI, Flags = stripe mode MSG_FLAG_TX\<rparr> g;
                (Status, rx, d) = PolledTransfer D (take 2 (FlashMsg g)) d
            in if Status \<noteq> XST_SUCCESS then Some (Inr (XST_FAILURE, g, d))
               else wait_ready D mode g d)))"

definition BulkErase :: "'d qspi \<Rightarrow> u8 \<Rightarrow> flash_globals \<Rightarrow> 'd \<Rightarrow> 'd flash_result" where
  "BulkErase D mode g d =
     if_ok (write_enable D g d) (\<lambda>g d.
       let g = g\<lparr>CmdBfr := (CmdBfr g)[0 := BULK_ERASE_CMD]\<rparr>
       in if_ok (transfer1 D (CmdBfr g) 1 g d) (wait_ready D mode))"

text \<open>The loop of \<open>DieErase\<close> over the remaining \<open>n\<close> dies.\<close>

fun die_erase_loop :: "'d qspi \<Rightarrow> u8 \<Rightarrow> nat \<Rightarrow> flash_globals \<Rightarrow> 'd \<Rightarrow> 'd flash_result" where
  "die_erase_loop D mode 0 g d = Some (Inr (XST_SUCCESS, g, d))"
| "die_erase_loop D mode (Suc n) g d =
     if_ok (write_enable D g d) (\<lambda>g d.
       let g = g\<lparr>CmdBfr := memcpy_at 0 [DIE_ERASE_CMD, 0, 0, 0] (CmdBfr g)\<rparr>
       in if_ok (transfer1 D (CmdBfr g) 4 g d) (\<lambda>g d.
            if_ok (wait_ready D mode g d) (die_erase_loop D mode n)))"

definition DieErase :: "'d qspi \<Rightarrow> u8 \<Rightarrow> flash_globals \<Rightarrow> 'd \<Rightarrow> 'd flash_result" where
  "DieErase D mode g d = with_entry g (\<lambda>fi. die_erase_loop D mode (unat (NumDie fi)) g d)"

text \<open>
  The loop over the sectors that remain. \<open>FlashErase\<close> is only ever given \<open>CmdBfr\<close> as its
  command buffer.
\<close>

fun erase_loop :: "'d qspi \<Rightarrow> u8 \<Rightarrow> FlashInfo \<Rightarrow> nat \<Rightarrow> u32 \<Rightarrow> flash_globals \<Rightarrow> 'd \<Rightarrow> 'd flash_result" where
  "erase_loop D mode fi 0 Address g d = Some (Inr (XST_SUCCESS, g, d))"
| "erase_loop D mode fi (Suc n) Address g d =
     (let (RealAddr, d) = GetRealAddr D mode fi Address d
      in if_ok (write_enable D g d) (\<lambda>g d. with_addr RealAddr (\<lambda>a.
           let g = g\<lparr>CmdBfr := cmd_addr (SectorEraseCmd g) fi a (CmdBfr g)\<rparr>
           in if_ok (transfer1 D (CmdBfr g) (cmd_addr_count fi) g d) (\<lambda>g d.
                if_ok (wait_ready D mode g d)
                  (erase_loop D mode fi n (Address + SectSize fi))))))"

text \<open>A call whose status the code ignores.\<close>

definition ignoring_status ::
    "'d flash_result \<Rightarrow> (flash_globals \<Rightarrow> 'd \<Rightarrow> 'd flash_result) \<Rightarrow> 'd flash_result" where
  "ignoring_status r k = (case r of
      None \<Rightarrow> None
    | Some (Inl e) \<Rightarrow> Some (Inl e)
    | Some (Inr (_, g, d)) \<Rightarrow> k g d)"

definition whole_erase :: "'d qspi \<Rightarrow> u8 \<Rightarrow> FlashInfo \<Rightarrow> flash_globals \<Rightarrow> 'd \<Rightarrow> 'd flash_result" where
  "whole_erase D mode fi g d =
     ignoring_status (if NumDie fi = 1 then BulkErase D mode g d else Some (Inr (0, g, d)))
       (\<lambda>g d. if NumDie fi > 1 then DieErase D mode g d else Some (Inr (0, g, d)))"

definition FlashErase :: "'d qspi \<Rightarrow> u8 \<Rightarrow> u32 \<Rightarrow> u32 \<Rightarrow> flash_globals \<Rightarrow> 'd \<Rightarrow> 'd flash_result" where
  "FlashErase D mode Address n g d =
     with_entry g (\<lambda>fi.
       if n = NumSect fi * SectSize fi then
         let d = (if mode = MODE_STACKED then SelectFlash D CS_LOWER BUS_LOWER d else d)
         in ignoring_status (whole_erase D mode fi g d) (\<lambda>g d.
              if mode = MODE_STACKED
              then ignoring_status (whole_erase D mode fi g (SelectFlash D CS_UPPER BUS_LOWER d))
                     (\<lambda>g d. Some (Inr (0, g, d)))
              else Some (Inr (0, g, d)))
       else erase_loop D mode fi (unat (erase_NumSect fi Address n)) Address g d)"

text \<open>
  \<open>FlashRead\<close> into \<open>ReadBuffer\<close>, its only target. The bus width of the data message stays
  what it was for the plain read command.
\<close>

definition read_width :: "u8 \<Rightarrow> u32 option" where
  "read_width Command =
     (if Command \<in> {FAST_READ_CMD, FAST_READ_CMD_4B} then Some SELECT_MODE_SPI
      else if Command \<in> {DUAL_READ_CMD, DUAL_READ_CMD_4B} then Some SELECT_MODE_DUALSPI
      else if Command \<in> {QUAD_READ_CMD, QUAD_READ_CMD_4B} then Some SELECT_MODE_QUADSPI
      else None)"

definition FlashRead ::
    "'d qspi \<Rightarrow> u8 \<Rightarrow> u32 \<Rightarrow> u32 \<Rightarrow> u8 \<Rightarrow> flash_globals \<Rightarrow> 'd \<Rightarrow> 'd flash_result" where
  "FlashRead D mode Address n Command g d =
     with_entry g (\<lambda>fi.
       let (RealAddr, d) = GetRealAddr D mode fi Address d
       in with_addr RealAddr (\<lambda>a.
            let g = g\<lparr>CmdBfr := cmd_addr Command fi a (CmdBfr g)\<rparr>;
                g = set_msg 0 (tx_msg (CmdBfr g) (cmd_addr_count fi)) g;
                (cnt, g) = (case read_width Command of
                    None \<Rightarrow> (1, g)
                  | Some w \<Rightarrow> (2, set_msg 1 \<lparr>TxBfr = None, RxBfr = False, ByteCount = DUMMY_CLOCKS,
                                            BusWidth = w, Flags = 0\<rparr> g));
                w = (case read_width Command of None \<Rightarrow> BusWidth (FlashMsg g ! cnt) | Some w \<Rightarrow> w);
                g = set_msg cnt \<lparr>TxBfr = None, RxBfr = True, ByteCount = n, BusWidth = w,
                                 Flags = stripe mode MSG_FLAG_RX\<rparr> g;
                (Status, rx, d) = PolledTransfer D (take (cnt + 1) (FlashMsg g)) d
            in if Status \<noteq> XST_SUCCESS then Some (Inr (XST_FAILURE, g, d))
               else if unat n > length (ReadBuffer g) then Some (Inl OutOfBounds)
               else Some (Inr (XST_SUCCESS,
                      g\<lparr>ReadBuffer := memcpy_at 0 (map (rx cnt) [0..<unat n]) (ReadBuffer g)\<rparr>, d))))"

section \<open>Registers and the address mode\<close>

text \<open>
  \<open>FlashRegisterWrite\<close> does not treat the parallel wiring, so its wait is that of a single
  device; the result includes the caller's buffer, whose first byte it sets.
\<close>

definition FlashRegisterWrite ::
    "'d qspi \<Rightarrow> u32 \<Rightarrow> u8 \<Rightarrow> u8 list \<Rightarrow> u8 \<Rightarrow> flash_globals \<Rightarrow> 'd \<Rightarrow> 'd flash_result \<times> u8 list" where
  "FlashRegisterWrite D n Command WriteBfr WrEn g d =
     (let buf = WriteBfr[0 := Command]
      in (if_ok (if WrEn \<noteq> 0 then write_enable D g d else Some (Inr (XST_SUCCESS, g, d)))
            (\<lambda>g d. if_ok (transfer1 D buf (n + 1) g d) (wait_ready D MODE_SINGLE)),
          buf))"

definition FlashRegisterRead ::
    "'d qspi \<Rightarrow> u8 \<Rightarrow> flash_globals \<Rightarrow> 'd \<Rightarrow> int \<times> u8 list \<times> flash_globals \<times> 'd" where
  "FlashRegisterRead D Command g d =
     (let g = set_msg 1 (rx_msg 4 MSG_FLAG_RX) (set_msg 0 (tx_msg [Command] 1) g);
          (Status, rx, d) = PolledTransfer D (take 2 (FlashMsg g)) d
      in if Status \<noteq> XST_SUCCESS then (XST_FAILURE, [], g, d)
         else (XST_SUCCESS, map (rx 1) [0..<4], g, d))"

definition needs_write_enable :: "u32 \<Rightarrow> bool" where
  "needs_write_enable mk \<longleftrightarrow> mk = ucast ISSI_ID_BYTE0 \<or> mk = ucast MICRON_ID_BYTE0"

definition FlashEnterExit4BAddMode :: "'d qspi \<Rightarrow> u8 \<Rightarrow> bool \<Rightarrow> flash_globals \<Rightarrow> 'd \<Rightarrow> 'd flash_result" where
  "FlashEnterExit4BAddMode D mode Enable g d =
     (let Cmd = (if Enable then ENTER_4B_ADDR_MODE
                 else if FlashMake g = ucast ISSI_ID_BYTE0 then EXIT_4B_ADDR_MODE_ISSI
                 else EXIT_4B_ADDR_MODE)
      in if FlashMake g = ucast SPANSION_ID_BYTE0
         then transfer1 D [BANK_REG_WR, if Enable then 0x80 else 0] 2 g d
         else
           if_ok (if needs_write_enable (FlashMake g) then write_enable D g d
                  else Some (Inr (XST_SUCCESS, g, d)))
             (\<lambda>g d. with_entry g (\<lambda>fi.
               let (_, d) = GetRealAddr D mode fi TEST_ADDRESS d
               in if_ok (transfer1 D [Cmd] 1 g d) (\<lambda>g d.
                    if_ok (wait_ready D mode g d) (\<lambda>g d.
                      if needs_write_enable (FlashMake g)
                      then transfer1 D [WRITE_DISABLE_CMD] 1 g d
                      else Some (Inr (XST_SUCCESS, g, d)))))))"

section \<open>The test\<close>

text \<open>The byte the test expects at offset \<open>i\<close>: \<open>UniqueValue\<close> is a byte that wraps around.\<close>

definition test_byte :: "flash_globals \<Rightarrow> nat \<Rightarrow> u8" where
  "test_byte g i = UNIQUE_VALUE + of_nat i + of_int (Test g)"

text \<open>The loop over the pages from \<open>Page\<close> on, \<open>n\<close> of them.\<close>

fun page_loop :: "'d qspi \<Rightarrow> u8 \<Rightarrow> FlashInfo \<Rightarrow> nat \<Rightarrow> nat \<Rightarrow> flash_globals \<Rightarrow> 'd \<Rightarrow> 'd flash_result" where
  "page_loop D mode fi Page 0 g d = Some (Inr (XST_SUCCESS, g, d))"
| "page_loop D mode fi Page (Suc n) g d =
     if_ok (FlashWrite D mode (of_nat Page * PageSize fi + TEST_ADDRESS) (PageSize fi)
              (WriteCmd g) (WriteBuffer g) g d)
       (page_loop D mode fi (Suc Page) n)"

definition configure_test :: "FlashInfo \<Rightarrow> flash_globals \<Rightarrow> flash_globals" where
  "configure_test fi g =
     (let fsr = NumDie fi > 1 \<and> FlashMake g = ucast MICRON_ID_BYTE0
      in g\<lparr>MaxData := of_nat PAGE_COUNT * PageSize fi,
           ReadCmd := QUAD_READ_CMD, WriteCmd := WRITE_CMD, SectorEraseCmd := SEC_ERASE_CMD,
           StatusCmd := (if fsr then READ_FLAG_STATUS_CMD else READ_STATUS_CMD),
           FSRFlag := (if fsr then 1 else 0)\<rparr>)"

text \<open>Filling \<open>WriteBuffer\<close> with one page of the pattern and clearing \<open>ReadBuffer\<close>.\<close>

definition prepare_buffers :: "FlashInfo \<Rightarrow> flash_globals \<Rightarrow> flash_globals" where
  "prepare_buffers fi g =
     g\<lparr>WriteBuffer := memcpy_at 0 (map (test_byte g) [0..<unat (PageSize fi)]) (WriteBuffer g),
       ReadBuffer := replicate (PAGE_COUNT * MAX_PAGE_SIZE + (DATA_OFFSET + DUMMY_SIZE) * 8) 0\<rparr>"

definition verify_pattern :: "flash_globals \<Rightarrow> bool" where
  "verify_pattern g \<longleftrightarrow> list_all (\<lambda>i. ReadBuffer g ! i = test_byte g i) [0..<unat (MaxData g)]"

text \<open>Erase, program all pages, read back and compare.\<close>

definition test_cycle :: "'d qspi \<Rightarrow> u8 \<Rightarrow> FlashInfo \<Rightarrow> flash_globals \<Rightarrow> 'd \<Rightarrow> 'd flash_result" where
  "test_cycle D mode fi g d =
     if_ok (FlashErase D mode TEST_ADDRESS (MaxData g) g d) (\<lambda>g d.
     if_ok (page_loop D mode fi 0 PAGE_COUNT g d) (\<lambda>g d.
     if_ok (FlashRead D mode TEST_ADDRESS (MaxData g) (ReadCmd g) g d) (\<lambda>g d.
       Some (Inr (if verify_pattern g then XST_SUCCESS else XST_FAILURE, g, d)))))"

text \<open>Devices above 16 MB are switched to four address bytes for the test.\<close>

definition switch_4b :: "'d qspi \<Rightarrow> u8 \<Rightarrow> bool \<Rightarrow> FlashInfo \<Rightarrow> flash_globals \<Rightarrow> 'd \<Rightarrow> 'd flash_result" where
  "switch_4b D mode Enable fi g d =
     (if FlashDeviceSize fi > SIXTEENMB then FlashEnterExit4BAddMode D mode Enable g d
      else Some (Inr (XST_SUCCESS, g, d)))"

definition QspiPsuPolledFlashExample ::
    "'d qspi \<Rightarrow> u16 \<Rightarrow> flash_globals \<Rightarrow> 'd \<Rightarrow> 'd flash_result" where
  "QspiPsuPolledFlashExample D DeviceId g d =
     (case QLookupConfig D DeviceId of
        None \<Rightarrow> Some (Inr (XST_FAILURE, g, d))
      | Some cfg \<Rightarrow>
          let (Status, d) = QCfgInitialize D cfg (QBaseAddress cfg) d
          in if Status \<noteq> XST_SUCCESS then Some (Inr (XST_FAILURE, g, d))
             else
               let mode = ConnectionMode cfg;
                   (_, d) = QSetOptions D MANUAL_START_OPTION d;
                   (_, d) = QSetClkPrescaler D CLK_PRESCALE_8 d;
                   d = SelectFlash D CS_LOWER BUS_LOWER d
               in if_ok (FlashReadID D mode g d) (\<lambda>g d. with_entry g (\<lambda>fi.
                    if_ok (switch_4b D mode True fi (configure_test fi g) d) (\<lambda>g d.
                    if_ok (test_cycle D mode fi (prepare_buffers fi g) d) (\<lambda>g d.
                    if_ok (switch_4b D mode False fi g d) (\<lambda>g d.
                      Some (Inr (XST_SUCCESS, g, d))))))))"

definition QSPIPSU_DEVICE_ID :: u16 where "QSPIPSU_DEVICE_ID = 0"

definition flashtest :: "'d qspi \<Rightarrow> flash_globals \<Rightarrow> 'd \<Rightarrow> 'd flash_result" where
  "flashtest D g d =
     if_ok (QspiPsuPolledFlashExample D QSPIPSU_DEVICE_ID g d)
       (\<lambda>g d. Some (Inr (XST_SUCCESS, g, d)))"

section \<open>What the operations leave alone\<close>

definition same_setup :: "flash_globals \<Rightarrow> flash_globals \<Rightarrow> bool" where
  "same_setup g g' \<longleftrightarrow>
     FlashMake g' = FlashMake g \<and> FCTIndex g' = FCTIndex g \<and> ReadCmd g' = ReadCmd g \<and>
     WriteCmd g' = WriteCmd g \<and> StatusCmd g' = StatusCmd g \<and>
     SectorEraseCmd g' = SectorEraseCmd g \<and> FSRFlag g' = FSRFlag g \<and>
     WriteBuffer g' = WriteBuffer g \<and> MaxData g' = MaxData g \<and> Test g' = Test g \<and>
     length (FlashMsg g') = length (FlashMsg g) \<and> length (CmdBfr g') = length (CmdBfr g) \<and>
     length (ReadBuffer g') = length (ReadBuffer g)"

definition keeps :: "flash_globals \<Rightarrow> 'd flash_result \<Rightarrow> bool" where
  "keeps g r \<longleftrightarrow> (\<forall>s g' d'. r = Some (Inr (s, g', d')) \<longrightarrow> same_setup g g')"

lemma same_setup_refl [simp]: "same_setup g g"
  by (simp add: same_setup_def)

lemma same_setup_trans: "same_setup g h \<Longrightarrow> same_setup h k \<Longrightarrow> same_setup g k"
  by (simp add: same_setup_def)

lemma same_setup_set_msg [simp]: "same_setup g (set_msg i m h) \<longleftrightarrow> same_setup g h"
  by (simp add: same_setup_def set_msg_def)

lemma set_msg_sel [simp]:
  "FlashMake (set_msg i m g) = FlashMake g" "FCTIndex (set_msg i m g) = FCTIndex g"
  "ReadCmd (set_msg i m g) = ReadCmd g" "WriteCmd (set_msg i m g) = WriteCmd g"
  "StatusCmd (set_msg i m g) = StatusCmd g" "SectorEraseCmd (set_msg i m g) = SectorEraseCmd g"
  "FSRFlag (set_msg i m g) = FSRFlag g" "WriteBuffer (set_msg i m g) = WriteBuffer g"
  "ReadBuffer (set_msg i m g) = ReadBuffer g" "CmdBfr (set_msg i m g) = CmdBfr g"
  "MaxData (set_msg i m g) = MaxData g" "Test (set_msg i m g) = Test g"
  "FlashMsg (set_msg i m g) = (FlashMsg g)[i := m]"
  by (simp_all add: set_msg_def)

lemma keeps_simps [simp]:
  "keeps g None" "keeps g (Some (Inl e))"
  "keeps g (Some (Inr (s, h, d))) \<longleftrightarrow> same_setup g h"
  by (auto simp: keeps_def)

lemma keeps_if [intro]: "(b \<Longrightarrow> keeps g x) \<Longrightarrow> (\<not> b \<Longrightarrow> keeps g y) \<Longrightarrow> keeps g (if b then x else y)"
  by simp

lemma keeps_weaken: "keeps h r \<Longrightarrow> same_setup g h \<Longrightarrow> keeps g r"
  by (auto simp: keeps_def intro: same_setup_trans)

lemma keeps_if_ok [intro]:
  "keeps g r \<Longrightarrow> (\<And>h d. same_setup g h \<Longrightarrow> keeps g (k h d)) \<Longrightarrow> keeps g (if_ok r k)"
  by (auto simp: if_ok_def split: option.splits sum.splits prod.splits)

lemma keeps_ignoring_status [intro]:
  "keeps g r \<Longrightarrow> (\<And>h d. same_setup g h \<Longrightarrow> keeps g (k h d)) \<Longrightarrow> keeps g (ignoring_status r k)"
  by (auto simp: ignoring_status_def split: option.splits sum.splits prod.splits)

lemma keeps_with_entry [intro]:
  "(\<And>fi. keeps g (k fi)) \<Longrightarrow> keeps g (with_entry h k)"
  by (auto simp: with_entry_def split: sum.splits)

lemma keeps_with_addr [intro]: "(\<And>a. keeps g (k a)) \<Longrightarrow> keeps g (with_addr a k)"
  by (auto simp: with_addr_def split: option.splits)

lemma keeps_transfer1 [intro]: "same_setup g h \<Longrightarrow> keeps g (transfer1 D buf n h d)"
  by (simp add: transfer1_def Let_def split: prod.splits)

lemma keeps_write_enable [intro]: "same_setup g h \<Longrightarrow> keeps g (write_enable D h d)"
  by (simp add: write_enable_def keeps_transfer1)

lemma wait_ready_keeps:
  assumes "wait_ready D mode g d = Some r"
  shows "keeps g (Some r)"
proof (rule wait_ready.raw_induct [where P = "\<lambda>D mode g d r. keeps g (Some r)", OF _ assms])
  fix rec :: "'b qspi \<Rightarrow> u8 \<Rightarrow> flash_globals \<Rightarrow> 'b \<Rightarrow> (fault + (int \<times> flash_globals \<times> 'b)) option"
  fix D mode g d r
  assume IH: "\<And>D mode g d r. rec D mode g d = Some r \<Longrightarrow> keeps g (Some r)"
    and eq: "(let g = set_msg 1 (rx_msg 2 (stripe mode MSG_FLAG_RX)) (set_msg 0 (tx_msg [StatusCmd g] 1) g);
          (Status, rx, d) = PolledTransfer D (take 2 (FlashMsg g)) d
      in if Status \<noteq> XST_SUCCESS then Some (Inr (XST_FAILURE, g, d))
         else if flash_ready mode (FSRFlag g) (rx 1 0) (rx 1 1) then Some (Inr (XST_SUCCESS, g, d))
         else rec D mode g d) = Some r"
  let ?g = "set_msg 1 (rx_msg 2 (stripe mode MSG_FLAG_RX)) (set_msg 0 (tx_msg [StatusCmd g] 1) g)"
  obtain st rx d1 where t: "PolledTransfer D (take 2 (FlashMsg ?g)) d = (st, rx, d1)"
    by (metis prod.exhaust)
  then have "(if st \<noteq> XST_SUCCESS then Some (Inr (XST_FAILURE, ?g, d1))
         else if flash_ready mode (FSRFlag ?g) (rx 1 0) (rx 1 1) then Some (Inr (XST_SUCCESS, ?g, d1))
         else rec D mode ?g d1) = Some r" using eq unfolding Let_def t by simp
  moreover have "keeps g (Some r)" if "rec D mode ?g d1 = Some r"
    using IH [OF that] by (rule keeps_weaken) simp
  ultimately show "keeps g (Some r)" by (auto split: if_splits)
qed

lemma keeps_wait_ready [intro]: "same_setup g h \<Longrightarrow> keeps g (wait_ready D mode h d)"
  using wait_ready_keeps [of D mode h d]
  by (cases "wait_ready D mode h d") (auto intro: keeps_weaken)

lemma same_setup_CmdBfr [simp]:
  "length buf = length (CmdBfr h) \<Longrightarrow> same_setup g (h\<lparr>CmdBfr := buf\<rparr>) \<longleftrightarrow> same_setup g h"
  by (simp add: same_setup_def)

lemma length_cmd_addr [simp]: "5 \<le> length buf \<Longrightarrow> length (cmd_addr cmd fi a buf) = length buf"
  by (simp add: cmd_addr_def addr_bytes_def)

lemma same_setup_die_cmd [simp]:
  "5 \<le> length (CmdBfr h) \<Longrightarrow>
   same_setup g (h\<lparr>CmdBfr := memcpy_at 0 [a, b, c, e] (CmdBfr h)\<rparr>) \<longleftrightarrow> same_setup g h"
  by (subst same_setup_CmdBfr) simp_all

lemma keeps_BulkErase: "same_setup g h \<Longrightarrow> keeps g (BulkErase D mode h d)"
  unfolding BulkErase_def Let_def by (intro keeps_if_ok keeps_write_enable keeps_transfer1) auto

lemma keeps_die_erase_loop:
  "same_setup g h \<Longrightarrow> 5 \<le> length (CmdBfr h) \<Longrightarrow> keeps g (die_erase_loop D mode n h d)"
proof (induction n arbitrary: h d)
  case (Suc n)
  have "5 \<le> length (CmdBfr k)" if "same_setup g k" for k
    using that Suc.prems by (simp add: same_setup_def)
  with Suc show ?case
    by (auto simp: Let_def intro!: keeps_if_ok keeps_write_enable keeps_transfer1 keeps_wait_ready)
qed simp

lemma keeps_erase_loop:
  "same_setup g h \<Longrightarrow> 5 \<le> length (CmdBfr h) \<Longrightarrow> keeps g (erase_loop D mode fi n a h d)"
proof (induction n arbitrary: a h d)
  case (Suc n)
  have "5 \<le> length (CmdBfr k)" if "same_setup g k" for k
    using that Suc.prems by (simp add: same_setup_def)
  with Suc show ?case
    by (auto simp: Let_def split: prod.splits
        intro!: keeps_if_ok keeps_with_addr keeps_write_enable keeps_transfer1 keeps_wait_ready)
qed simp

lemma keeps_whole_erase:
  assumes "same_setup g h" and "5 \<le> length (CmdBfr h)"
  shows "keeps g (whole_erase D mode fi h d)"
proof -
  have "5 \<le> length (CmdBfr k)" if "same_setup g k" for k
    using that assms by (simp add: same_setup_def)
  then show ?thesis using assms(1) unfolding whole_erase_def DieErase_def
    by (auto intro!: keeps_ignoring_status keeps_with_entry keeps_die_erase_loop keeps_BulkErase)
qed

lemma keeps_FlashErase:
  assumes "same_setup g h" and "5 \<le> length (CmdBfr h)"
  shows "keeps g (FlashErase D mode a n h d)"
proof -
  have "5 \<le> length (CmdBfr k)" if "same_setup g k" for k
    using that assms by (simp add: same_setup_def)
  then show ?thesis using assms unfolding FlashErase_def Let_def
    by (auto intro!: keeps_ignoring_status keeps_with_entry keeps_whole_erase keeps_erase_loop)
qed

lemma keeps_FlashWrite: "same_setup g h \<Longrightarrow> keeps g (FlashWrite D mode a n c buf h d)"
  unfolding FlashWrite_def Let_def
  by (auto split: prod.splits
      intro!: keeps_with_entry keeps_if_ok keeps_with_addr keeps_write_enable keeps_wait_ready)

lemma keeps_page_loop: "same_setup g h \<Longrightarrow> keeps g (page_loop D mode fi p n h d)"
  by (induction n arbitrary: p h d) (auto intro!: keeps_if_ok keeps_FlashWrite)

lemma keeps_FlashEnterExit4B: "same_setup g h \<Longrightarrow> keeps g (FlashEnterExit4BAddMode D mode en h d)"
  unfolding FlashEnterExit4BAddMode_def Let_def
  by (auto split: prod.splits
      intro!: keeps_with_entry keeps_if_ok keeps_transfer1 keeps_write_enable keeps_wait_ready)

lemma keeps_switch_4b: "same_setup g h \<Longrightarrow> keeps g (switch_4b D mode en fi h d)"
  unfolding switch_4b_def by (auto intro!: keeps_FlashEnterExit4B)

lemma if_ok_success:
  "if_ok r k = Some (Inr (XST_SUCCESS, g', d')) \<longleftrightarrow>
   (\<exists>h e. r = Some (Inr (XST_SUCCESS, h, e)) \<and> k h e = Some (Inr (XST_SUCCESS, g', d')))"
  by (auto simp: if_ok_def split: option.splits sum.splits prod.splits)

lemma with_entry_success:
  "with_entry g k = Some (Inr x) \<longleftrightarrow> (\<exists>fi. fct_entry (FCTIndex g) = Inr fi \<and> k fi = Some (Inr x))"
  by (auto simp: with_entry_def split: sum.splits)

lemma with_addr_success:
  "with_addr a k = Some (Inr x) \<longleftrightarrow> (\<exists>b. a = Some b \<and> k b = Some (Inr x))"
  by (auto simp: with_addr_def split: option.splits)

lemma keepsD: "keeps g r \<Longrightarrow> r = Some (Inr (s, h, d)) \<Longrightarrow> same_setup g h"
  by simp

text \<open>The bytes of a message that go to the flash.\<close>

definition sent_bytes :: "XQspiPsu_Msg \<Rightarrow> u8 list" where
  "sent_bytes m = (case TxBfr m of None \<Rightarrow> [] | Some buf \<Rightarrow> take (unat (ByteCount m)) buf)"

lemma sent_tx_msg: "sent_bytes (tx_msg buf n) = take (unat n) buf"
  by (simp add: sent_bytes_def tx_msg_def)

lemma unat_cmd_addr_count: "unat (cmd_addr_count fi) = length (cmd # addr_bytes fi a)"
  by (simp add: cmd_addr_count_def addr_bytes_def)

lemma sent_cmd_addr [simp]:
  "sent_bytes (tx_msg (cmd_addr cmd fi a buf) (cmd_addr_count fi)) = cmd # addr_bytes fi a"
proof -
  have "take (unat (cmd_addr_count fi)) (cmd_addr cmd fi a buf) = cmd # addr_bytes fi a"
    unfolding unat_cmd_addr_count [of fi cmd a] cmd_addr_def by (rule take_memcpy_at_0)
  then show ?thesis by (simp add: sent_tx_msg)
qed

text \<open>A quad read that succeeds: what was sent, and where the bytes come from.\<close>

lemma FlashRead_success:
  assumes "FlashRead D mode adr n QUAD_READ_CMD g d = Some (Inr (XST_SUCCESS, g', d'))"
    and "length (FlashMsg g) = 5" and "5 \<le> length (CmdBfr g)"
  obtains fi a d0 msgs rx where "fct_entry (FCTIndex g) = Inr fi"
    "GetRealAddr D mode fi adr d = (Some a, d0)"
    "PolledTransfer D msgs d0 = (XST_SUCCESS, rx, d')"
    "map sent_bytes msgs = [QUAD_READ_CMD # addr_bytes fi a, [], []]"
    "ByteCount (msgs ! 2) = n" "unat n \<le> length (ReadBuffer g)"
    "ReadBuffer g' = memcpy_at 0 (map (rx 2) [0..<unat n]) (ReadBuffer g)" "same_setup g g'"
proof -
  have w: "read_width QUAD_READ_CMD = Some SELECT_MODE_QUADSPI"
    by (simp add: read_width_def flash_cmds)
  obtain m0 m1 m2 m3 m4 where ms: "FlashMsg g = [m0, m1, m2, m3, m4]"
    using assms(2) by (auto simp: eval_nat_numeral length_Suc_conv)
  obtain fi where fi: "fct_entry (FCTIndex g) = Inr fi"
    using assms(1) by (auto simp: FlashRead_def with_entry_def split: sum.splits)
  obtain ra d0 where ra: "GetRealAddr D mode fi adr d = (ra, d0)" by force
  obtain a where a: "ra = Some a"
    using assms(1) by (auto simp: FlashRead_def with_entry_def fi ra with_addr_def split: option.splits)
  define msgs where "msgs = [tx_msg (cmd_addr QUAD_READ_CMD fi a (CmdBfr g)) (cmd_addr_count fi),
    \<lparr>TxBfr = None, RxBfr = False, ByteCount = DUMMY_CLOCKS, BusWidth = SELECT_MODE_QUADSPI, Flags = 0\<rparr>,
    \<lparr>TxBfr = None, RxBfr = True, ByteCount = n, BusWidth = SELECT_MODE_QUADSPI,
     Flags = stripe mode MSG_FLAG_RX\<rparr>]"
  obtain st rx d1 where t: "PolledTransfer D msgs d0 = (st, rx, d1)" by (metis prod.exhaust)
  have eq: "(if st \<noteq> XST_SUCCESS then Some (Inr (XST_FAILURE, g', d1)) else
     if unat n > length (ReadBuffer g) then Some (Inl OutOfBounds)
     else Some (Inr (XST_SUCCESS, g', d1))) = Some (Inr (XST_SUCCESS, g', d'))"
    "ReadBuffer g' = memcpy_at 0 (map (rx 2) [0..<unat n]) (ReadBuffer g)"
    "same_setup g g'"
    using assms(1,3) t
    by (auto simp: FlashRead_def with_entry_def fi ra a with_addr_def w ms msgs_def
        same_setup_def numeral_2_eq_2 Let_def split: if_splits)
  show thesis
  proof (rule that)
    show "PolledTransfer D msgs d0 = (XST_SUCCESS, rx, d')" using t eq(1) by (simp split: if_splits)
    show "map sent_bytes msgs = [QUAD_READ_CMD # addr_bytes fi a, [], []]"
      by (simp add: msgs_def) (simp add: sent_bytes_def)
    show "unat n \<le> length (ReadBuffer g)" using eq(1) by (simp split: if_splits)
  qed (use fi ra a eq in \<open>simp_all add: msgs_def\<close>)
qed

lemma verify_memcpy:
  assumes "ReadBuffer g = memcpy_at 0 (map f [0..<unat (MaxData g)]) buf"
    and "verify_pattern g" and "k < unat (MaxData g)"
  shows "f k = test_byte g k"
  using assms by (simp add: verify_pattern_def list_all_iff memcpy_at_def nth_append)

lemma test_cycle_success:
  assumes "test_cycle D mode fi g d = Some (Inr (XST_SUCCESS, g', d'))"
    and "length (FlashMsg g) = 5" "5 \<le> length (CmdBfr g)"
    and "fct_entry (FCTIndex g) = Inr fi" and "ReadCmd g = QUAD_READ_CMD"
  obtains a d0 d1 msgs rx where "GetRealAddr D mode fi TEST_ADDRESS d0 = (Some a, d1)"
    "PolledTransfer D msgs d1 = (XST_SUCCESS, rx, d')"
    "map sent_bytes msgs = [QUAD_READ_CMD # addr_bytes fi a, [], []]"
    "ByteCount (msgs ! 2) = MaxData g"
    "\<forall>k < unat (MaxData g). rx 2 k = test_byte g k" "same_setup g g'"
proof -
  from assms(1) obtain g4 e4 g5 e5 where
    er: "FlashErase D mode TEST_ADDRESS (MaxData g) g d = Some (Inr (XST_SUCCESS, g4, e4))" and
    pg: "page_loop D mode fi 0 PAGE_COUNT g4 e4 = Some (Inr (XST_SUCCESS, g5, e5))" and
    rd: "FlashRead D mode TEST_ADDRESS (MaxData g5) (ReadCmd g5) g5 e5 = Some (Inr (XST_SUCCESS, g', d'))" and
    ver: "verify_pattern g'"
    by (auto simp: test_cycle_def if_ok_success split: if_splits)
  have s4: "same_setup g g4" by (rule keepsD [OF keeps_FlashErase er]) (use assms in simp_all)
  have s5: "same_setup g4 g5" by (rule keepsD [OF keeps_page_loop [OF same_setup_refl] pg])
  have b5: "length (FlashMsg g5) = 5" "5 \<le> length (CmdBfr g5)" "MaxData g5 = MaxData g"
    "ReadCmd g5 = QUAD_READ_CMD" "fct_entry (FCTIndex g5) = Inr fi" "same_setup g g5"
    using s4 s5 assms by (simp_all add: same_setup_def)
  obtain a d1 msgs rx where r: "GetRealAddr D mode fi TEST_ADDRESS e5 = (Some a, d1)"
    "PolledTransfer D msgs d1 = (XST_SUCCESS, rx, d')"
    "map sent_bytes msgs = [QUAD_READ_CMD # addr_bytes fi a, [], []]"
    "ByteCount (msgs ! 2) = MaxData g"
    "ReadBuffer g' = memcpy_at 0 (map (rx 2) [0..<unat (MaxData g)]) (ReadBuffer g5)"
    "same_setup g5 g'"
    using rd b5 by (auto elim!: FlashRead_success)
  have s': "same_setup g g'" using b5(6) r(6) by (rule same_setup_trans)
  then have "rx 2 k = test_byte g k" if "k < unat (MaxData g)" for k
    using verify_memcpy [of g' "rx 2" "ReadBuffer g5" k] r(5) ver that
    by (simp add: same_setup_def test_byte_def)
  with r s' show thesis by (intro that) auto
qed

text \<open>
  C4: The board reports a working flash only if it read its pattern back. Whatever the
  driver and the device do, when \<open>flashtest\<close> returns success, a transfer that sent the quad
  read command with the translated test address delivered, at every offset of the 32
  pages, the byte the test programs there.
\<close>

theorem flashtest_sound:
  assumes "flashtest D g d = Some (Inr (XST_SUCCESS, g', d'))"
    and "length (FlashMsg g) = 5" and "5 \<le> length (CmdBfr g)"
  shows "\<exists>cfg fi a d0 d1 msgs rx d2.
    QLookupConfig D QSPIPSU_DEVICE_ID = Some cfg \<and> fct_entry (FCTIndex g') = Inr fi \<and>
    GetRealAddr D (ConnectionMode cfg) fi TEST_ADDRESS d0 = (Some a, d1) \<and>
    PolledTransfer D msgs d1 = (XST_SUCCESS, rx, d2) \<and>
    map sent_bytes msgs = [QUAD_READ_CMD # addr_bytes fi a, [], []] \<and>
    ByteCount (msgs ! 2) = 32 * PageSize fi \<and>
    (\<forall>k < unat (32 * PageSize fi). rx 2 k = of_nat k + 6 + of_int (Test g))"
proof -
  from assms(1) obtain cfg e0 g1 e1 fi g2 e2 g3 e3 where
    cfg: "QLookupConfig D QSPIPSU_DEVICE_ID = Some cfg" and
    rid: "FlashReadID D (ConnectionMode cfg) g e0 = Some (Inr (XST_SUCCESS, g1, e1))" and
    fi: "fct_entry (FCTIndex g1) = Inr fi" and
    sw: "switch_4b D (ConnectionMode cfg) True fi (configure_test fi g1) e1 =
         Some (Inr (XST_SUCCESS, g2, e2))" and
    cyc: "test_cycle D (ConnectionMode cfg) fi (prepare_buffers fi g2) e2 =
          Some (Inr (XST_SUCCESS, g3, e3))" and
    sw': "switch_4b D (ConnectionMode cfg) False fi g3 e3 = Some (Inr (XST_SUCCESS, g', d'))"
    by (auto simp: flashtest_def QspiPsuPolledFlashExample_def if_ok_success with_entry_success
        Let_def split: option.splits prod.splits if_splits)
  have g1: "Test g1 = Test g" "length (FlashMsg g1) = 5" "5 \<le> length (CmdBfr g1)"
    using rid assms(2,3)
    by (auto simp: FlashReadID_def Let_def split: prod.splits sum.splits if_splits)
  have b: "length (FlashMsg (prepare_buffers fi g2)) = 5"
    "5 \<le> length (CmdBfr (prepare_buffers fi g2))" "Test (prepare_buffers fi g2) = Test g"
    "fct_entry (FCTIndex (prepare_buffers fi g2)) = Inr fi"
    "ReadCmd (prepare_buffers fi g2) = QUAD_READ_CMD"
    "MaxData (prepare_buffers fi g2) = 32 * PageSize fi"
    using keepsD [OF keeps_switch_4b [OF same_setup_refl] sw] g1 fi
    by (simp_all add: same_setup_def configure_test_def prepare_buffers_def Let_def PAGE_COUNT_def)
  obtain a d0 d1 msgs rx where r: "GetRealAddr D (ConnectionMode cfg) fi TEST_ADDRESS d0 = (Some a, d1)"
    "PolledTransfer D msgs d1 = (XST_SUCCESS, rx, e3)"
    "map sent_bytes msgs = [QUAD_READ_CMD # addr_bytes fi a, [], []]"
    "ByteCount (msgs ! 2) = MaxData (prepare_buffers fi g2)"
    "\<forall>k < unat (MaxData (prepare_buffers fi g2)). rx 2 k = test_byte (prepare_buffers fi g2) k"
    "same_setup (prepare_buffers fi g2) g3"
    by (rule test_cycle_success [OF cyc b(1,2,4,5)])
  have "\<forall>k < unat (32 * PageSize fi). rx 2 k = of_nat k + 6 + of_int (Test g)"
    using r(5) by (simp add: b(3,6) test_byte_def UNIQUE_VALUE_def)
  moreover have "fct_entry (FCTIndex g') = Inr fi"
    using keepsD [OF keeps_switch_4b [OF same_setup_refl] sw'] b(4) r(6)
    by (simp add: same_setup_def)
  ultimately show ?thesis using cfg r(1-3) r(4) [unfolded b(6)]
    by - (intro exI conjI, assumption+)
qed

section \<open>What is sent to the flash\<close>

datatype qspi_event = Select u8 u8 | Sent "u8 list list"

text \<open>
  \<open>logs D ev\<close>: \<open>ev\<close> reads from the device state what the code asked the driver to do, in
  order. \<open>prompt D mode sc fsr\<close>: transfers succeed and the flash says it is ready when it is
  asked with the status command \<open>sc\<close>.
\<close>

definition logs :: "'d qspi \<Rightarrow> ('d \<Rightarrow> qspi_event list) \<Rightarrow> bool" where
  "logs D ev \<longleftrightarrow>
     (\<forall>cfg b d. ev (snd (QCfgInitialize D cfg b d)) = ev d) \<and>
     (\<forall>opt d. ev (snd (QSetOptions D opt d)) = ev d) \<and>
     (\<forall>pre d. ev (snd (QSetClkPrescaler D pre d)) = ev d) \<and>
     (\<forall>cs b d. ev (SelectFlash D cs b d) = ev d @ [Select cs b]) \<and>
     (\<forall>msgs d. ev (snd (snd (PolledTransfer D msgs d))) = ev d @ [Sent (map sent_bytes msgs)])"

definition prompt :: "'d qspi \<Rightarrow> u8 \<Rightarrow> u8 \<Rightarrow> u8 \<Rightarrow> bool" where
  "prompt D mode sc fsr \<longleftrightarrow> (\<forall>msgs d. case PolledTransfer D msgs d of
     (st, rx, _) \<Rightarrow> st = XST_SUCCESS \<and>
       (map sent_bytes msgs = [[sc], []] \<longrightarrow> flash_ready mode fsr (rx 1 0) (rx 1 1)))"

definition buffers_ok :: "flash_globals \<Rightarrow> bool" where
  "buffers_ok g \<longleftrightarrow> length (FlashMsg g) = 5 \<and> 5 \<le> length (CmdBfr g)"

text \<open>The call returns success with the setup kept, having caused the events \<open>E\<close>.\<close>

definition does :: "('d \<Rightarrow> qspi_event list) \<Rightarrow> flash_globals \<Rightarrow> 'd \<Rightarrow> 'd flash_result \<Rightarrow>
    qspi_event list \<Rightarrow> bool" where
  "does ev g d r E \<longleftrightarrow>
     (\<exists>g' d'. r = Some (Inr (XST_SUCCESS, g', d')) \<and> same_setup g g' \<and> ev d' = ev d @ E)"

lemma buffers_ok_same: "same_setup g h \<Longrightarrow> buffers_ok g \<Longrightarrow> buffers_ok h"
  by (simp add: buffers_ok_def same_setup_def)

lemma doesI [intro]:
  "same_setup g g' \<Longrightarrow> ev d' = ev d @ E \<Longrightarrow> does ev g d (Some (Inr (XST_SUCCESS, g', d'))) E"
  by (simp add: does_def)

lemma does_if_ok:
  assumes "does ev g d r E" and "\<And>h e. same_setup g h \<Longrightarrow> does ev h e (k h e) F"
  shows "does ev g d (if_ok r k) (E @ F)"
proof -
  obtain h e where r: "r = Some (Inr (XST_SUCCESS, h, e))" "same_setup g h" "ev e = ev d @ E"
    using assms(1) unfolding does_def by blast
  obtain g' d' where "k h e = Some (Inr (XST_SUCCESS, g', d'))" "same_setup h g'" "ev d' = ev e @ F"
    using assms(2) [OF r(2), of e] unfolding does_def by blast
  with r show ?thesis by (auto simp: if_ok_def does_def intro: same_setup_trans)
qed

lemma does_start: "does ev h d r E \<Longrightarrow> same_setup g h \<Longrightarrow> does ev g d r E"
  unfolding does_def by (blast intro: same_setup_trans)

lemma promptD:
  assumes "prompt D mode sc fsr" and "PolledTransfer D msgs d = (st, rx, d')"
  shows "st = XST_SUCCESS"
    and "map sent_bytes msgs = [[sc], []] \<Longrightarrow> flash_ready mode fsr (rx 1 0) (rx 1 1)"
proof -
  have "case PolledTransfer D msgs d of (st, rx, _) \<Rightarrow> st = XST_SUCCESS \<and>
      (map sent_bytes msgs = [[sc], []] \<longrightarrow> flash_ready mode fsr (rx 1 0) (rx 1 1))"
    using assms(1) unfolding prompt_def by (elim allE)
  then show "st = XST_SUCCESS"
    and "map sent_bytes msgs = [[sc], []] \<Longrightarrow> flash_ready mode fsr (rx 1 0) (rx 1 1)"
    unfolding assms(2) by simp_all
qed

lemma logsD:
  assumes "logs D ev" and "PolledTransfer D msgs d = (st, rx, d')"
  shows "ev d' = ev d @ [Sent (map sent_bytes msgs)]"
proof -
  have "ev (snd (snd (PolledTransfer D msgs d))) = ev d @ [Sent (map sent_bytes msgs)]"
    using assms(1) unfolding logs_def by blast
  then show ?thesis unfolding assms(2) by simp
qed

lemma does_transfer1:
  assumes "logs D ev" "prompt D mode sc fsr" "buffers_ok g"
  shows "does ev g d (transfer1 D buf n g d) [Sent [take (unat n) buf]]"
proof -
  let ?g = "set_msg 0 (tx_msg buf n) g"
  obtain st rx d1 where t: "PolledTransfer D (take 1 (FlashMsg ?g)) d = (st, rx, d1)"
    by (metis prod.exhaust)
  have st: "st = XST_SUCCESS" by (rule promptD(1) [OF assms(2) t])
  have "take 1 (FlashMsg ?g) = [tx_msg buf n]"
    using assms(3) by (cases "FlashMsg g") (auto simp: buffers_ok_def)
  then have "ev d1 = ev d @ [Sent [take (unat n) buf]]"
    using logsD [OF assms(1) t] by (simp add: sent_tx_msg)
  then show ?thesis unfolding transfer1_def Let_def t by (simp add: st doesI)
qed

lemma does_write_enable:
  "logs D ev \<Longrightarrow> prompt D mode sc fsr \<Longrightarrow> buffers_ok g \<Longrightarrow>
   does ev g d (write_enable D g d) [Sent [[WRITE_ENABLE_CMD]]]"
  using does_transfer1 [of D ev mode sc fsr g d "[WRITE_ENABLE_CMD]" 1] by (simp add: write_enable_def)

lemma does_wait_ready:
  assumes "logs D ev" "prompt D mode (StatusCmd g) (FSRFlag g)" "buffers_ok g"
  shows "does ev g d (wait_ready D mode g d) [Sent [[StatusCmd g], []]]"
proof -
  let ?g = "set_msg 1 (rx_msg 2 (stripe mode MSG_FLAG_RX)) (set_msg 0 (tx_msg [StatusCmd g] 1) g)"
  obtain st rx d1 where t: "PolledTransfer D (take 2 (FlashMsg ?g)) d = (st, rx, d1)"
    by (metis prod.exhaust)
  obtain m0 m1 m2 m3 m4 where ms: "FlashMsg g = [m0, m1, m2, m3, m4]"
    using assms(3) by (auto simp: buffers_ok_def eval_nat_numeral length_Suc_conv)
  have "map sent_bytes (take 2 (FlashMsg ?g)) = [[StatusCmd g], []]"
    by (simp add: ms sent_tx_msg) (simp add: sent_bytes_def rx_msg_def)
  note sent = this
  have st: "st = XST_SUCCESS" "flash_ready mode (FSRFlag g) (rx 1 0) (rx 1 1)"
    using promptD [OF assms(2) t] sent by blast+
  have "ev d1 = ev d @ [Sent [[StatusCmd g], []]]"
    using logsD [OF assms(1) t] sent by simp
  moreover have "wait_ready D mode g d = Some (Inr (XST_SUCCESS, ?g, d1))"
    unfolding wait_ready.simps [of D mode g d] Let_def t prod.case using st by simp
  ultimately show ?thesis by (simp add: doesI)
qed

text \<open>Where an address lies: the device selection and the address within the device.\<close>

definition real_addr :: "u8 \<Rightarrow> FlashInfo \<Rightarrow> u32 \<Rightarrow> u32" where
  "real_addr mode fi a =
     (if mode = MODE_SINGLE then a
      else if mode = MODE_STACKED then a AND NOT (FlashDeviceSize fi)
      else a div 2)"

definition selection :: "u8 \<Rightarrow> FlashInfo \<Rightarrow> u32 \<Rightarrow> qspi_event" where
  "selection mode fi a =
     (if mode = MODE_SINGLE then Select CS_LOWER BUS_LOWER
      else if mode = MODE_STACKED
      then Select (if a AND FlashDeviceSize fi \<noteq> 0 then CS_UPPER else CS_LOWER) BUS_LOWER
      else Select CS_BOTH BUS_BOTH)"

definition valid_mode :: "u8 \<Rightarrow> bool" where
  "valid_mode mode \<longleftrightarrow> mode \<in> {MODE_SINGLE, MODE_STACKED, MODE_PARALLEL}"

lemma and_not_id: "(a :: u32) AND m = 0 \<Longrightarrow> a AND NOT m = a"
proof -
  assume "a AND m = 0"
  moreover have "a = (a AND m) OR (a AND NOT m)"
    by (rule bit_word_eqI) (auto simp: bit_simps)
  ultimately show "a AND NOT m = a" by simp
qed

lemma logs_SelectFlash: "logs D ev \<Longrightarrow> ev (SelectFlash D cs b d) = ev d @ [Select cs b]"
  by (simp add: logs_def)

lemma GetRealAddr_logs:
  assumes "logs D ev" "valid_mode mode"
  shows "\<exists>d'. GetRealAddr D mode fi a d = (Some (real_addr mode fi a), d') \<and>
    ev d' = ev d @ [selection mode fi a]"
  using assms(2)
  by (auto simp: GetRealAddr_def real_addr_def selection_def valid_mode_def and_not_id
      logs_SelectFlash [OF assms(1)] flash_modes)

definition sector_events :: "u8 \<Rightarrow> FlashInfo \<Rightarrow> u8 \<Rightarrow> u8 \<Rightarrow> u32 \<Rightarrow> qspi_event list" where
  "sector_events mode fi ec sc a =
     [selection mode fi a, Sent [[WRITE_ENABLE_CMD]], Sent [ec # addr_bytes fi (real_addr mode fi a)],
      Sent [[sc], []]]"

definition page_events :: "u8 \<Rightarrow> FlashInfo \<Rightarrow> u8 \<Rightarrow> u8 \<Rightarrow> u8 list \<Rightarrow> u32 \<Rightarrow> qspi_event list" where
  "page_events mode fi wc sc bs a =
     [selection mode fi a, Sent [[WRITE_ENABLE_CMD]], Sent [wc # addr_bytes fi (real_addr mode fi a), bs],
      Sent [[sc], []]]"

lemma does_transfer_cmd:
  assumes "logs D ev" "prompt D mode sc fsr" "buffers_ok g"
    and "length buf = length (CmdBfr g)" "take (unat n) buf = bs"
  shows "does ev g d (transfer1 D buf n (g\<lparr>CmdBfr := buf\<rparr>) d) [Sent [bs]]"
proof (rule does_start)
  have "buffers_ok (g\<lparr>CmdBfr := buf\<rparr>)" using assms(3,4) by (simp add: buffers_ok_def)
  then show "does ev (g\<lparr>CmdBfr := buf\<rparr>) d (transfer1 D buf n (g\<lparr>CmdBfr := buf\<rparr>) d) [Sent [bs]]"
    using does_transfer1 [OF assms(1,2)] assms(5) by blast
qed (simp add: assms(4))

text \<open>
  The common shape of the erase commands: enable writing, send the command buffer, wait,
  go on.
\<close>

definition erase_command ::
    "'d qspi \<Rightarrow> u8 \<Rightarrow> (flash_globals \<Rightarrow> u8 list) \<Rightarrow> u32 \<Rightarrow> (flash_globals \<Rightarrow> 'd \<Rightarrow> 'd flash_result) \<Rightarrow>
     flash_globals \<Rightarrow> 'd \<Rightarrow> 'd flash_result" where
  "erase_command D mode buf n k g d =
     if_ok (write_enable D g d) (\<lambda>g d.
       if_ok (transfer1 D (buf g) n (g\<lparr>CmdBfr := buf g\<rparr>) d) (\<lambda>g d.
         if_ok (wait_ready D mode g d) k))"

lemma erase_command_does:
  assumes "logs D ev" "prompt D mode (StatusCmd g) (FSRFlag g)" "buffers_ok g"
    and "\<And>h. buffers_ok h \<Longrightarrow> same_setup g h \<Longrightarrow>
           length (buf h) = length (CmdBfr h) \<and> take (unat n) (buf h) = bs"
    and "\<And>h e. same_setup g h \<Longrightarrow> does ev h e (k h e) E"
  shows "does ev g d (erase_command D mode buf n k g d)
    (Sent [[WRITE_ENABLE_CMD]] # Sent [bs] # Sent [[StatusCmd g], []] # E)"
proof -
  have wait: "does ev h e (if_ok (wait_ready D mode h e) k) ([Sent [[StatusCmd g], []]] @ E)"
    if s: "same_setup g h" for h e
  proof (rule does_if_ok)
    show "does ev h e (wait_ready D mode h e) [Sent [[StatusCmd g], []]]"
      using does_wait_ready [OF assms(1), of mode h e] assms(2) buffers_ok_same [OF s assms(3)] s
      by (simp add: same_setup_def)
  qed (use assms(5) s same_setup_trans in blast)
  have cmd: "does ev h e (if_ok (transfer1 D (buf h) n (h\<lparr>CmdBfr := buf h\<rparr>) e)
      (\<lambda>g d. if_ok (wait_ready D mode g d) k)) ([Sent [bs]] @ [Sent [[StatusCmd g], []]] @ E)"
    if s: "same_setup g h" for h e
    using assms(4) [OF buffers_ok_same [OF s assms(3)] s] buffers_ok_same [OF s assms(3)]
    by (intro does_if_ok does_transfer_cmd [OF assms(1,2)] wait)
       (auto intro: same_setup_trans [OF s])
  show ?thesis
    using does_if_ok [OF does_write_enable [OF assms(1-3)] cmd] by (simp add: erase_command_def)
qed

lemma does_select:
  "ev d' = ev d @ E \<Longrightarrow> does ev g d' r F \<Longrightarrow> does ev g d r (E @ F)"
  by (auto simp: does_def)

lemma erase_loop_does:
  assumes "logs D ev" "valid_mode mode"
  shows "prompt D mode (StatusCmd g) (FSRFlag g) \<Longrightarrow> buffers_ok g \<Longrightarrow>
    does ev g d (erase_loop D mode fi n a g d)
      (concat (map (\<lambda>i. sector_events mode fi (SectorEraseCmd g) (StatusCmd g) (a + of_nat i * SectSize fi)) [0..<n]))"
proof (induction n arbitrary: a g d)
  case 0
  then show ?case by (simp add: doesI)
next
  case (Suc n)
  let ?ec = "SectorEraseCmd g" and ?sc = "StatusCmd g" and ?ra = "real_addr mode fi a"
  let ?evs = "\<lambda>n a. concat (map (\<lambda>i. sector_events mode fi ?ec ?sc (a + of_nat i * SectSize fi)) [0..<n])"
  obtain d0 where d0: "GetRealAddr D mode fi a d = (Some ?ra, d0)"
    "ev d0 = ev d @ [selection mode fi a]" using GetRealAddr_logs [OF assms] by blast
  have evs: "?evs (Suc n) a = [selection mode fi a] @ Sent [[WRITE_ENABLE_CMD]] #
      Sent [?ec # addr_bytes fi ?ra] # Sent [[?sc], []] # ?evs n (a + SectSize fi)"
    by (simp add: upt_conv_Cons map_Suc_upt [symmetric] sector_events_def algebra_simps o_def
        del: upt_Suc)
  have "does ev g d0 (erase_command D mode (\<lambda>g. cmd_addr (SectorEraseCmd g) fi ?ra (CmdBfr g))
      (cmd_addr_count fi) (erase_loop D mode fi n (a + SectSize fi)) g d0)
    (Sent [[WRITE_ENABLE_CMD]] # Sent [?ec # addr_bytes fi ?ra] # Sent [[?sc], []] # ?evs n (a + SectSize fi))"
  proof (rule erase_command_does [OF assms(1) Suc.prems])
    fix h assume "buffers_ok h" "same_setup g h"
    then show "length (cmd_addr (SectorEraseCmd h) fi ?ra (CmdBfr h)) = length (CmdBfr h) \<and>
      take (unat (cmd_addr_count fi)) (cmd_addr (SectorEraseCmd h) fi ?ra (CmdBfr h)) = ?ec # addr_bytes fi ?ra"
      using sent_cmd_addr [of ?ec fi ?ra "CmdBfr h"] by (simp add: buffers_ok_def same_setup_def sent_tx_msg)
  next
    fix h e assume "same_setup g h"
    then show "does ev h e (erase_loop D mode fi n (a + SectSize fi) h e) (?evs n (a + SectSize fi))"
      using Suc.IH [of h e "a + SectSize fi"] Suc.prems buffers_ok_same [of g h]
      by (simp add: same_setup_def)
  qed
  then have "does ev g d0 (erase_loop D mode fi (Suc n) a g d) (Sent [[WRITE_ENABLE_CMD]] #
      Sent [?ec # addr_bytes fi ?ra] # Sent [[?sc], []] # ?evs n (a + SectSize fi))"
    by (simp add: d0 erase_command_def with_addr_def)
  then show ?case unfolding evs by (rule does_select [where d' = d0, rotated]) (rule d0(2))
qed

text \<open>
  What \<open>FlashErase\<close> does to a flash that accepts every transfer: for each sector of
  the range, in order, it selects the device of the sector, enables writing, sends the
  sector erase command with the sector's translated address and asks for the status.
\<close>

lemma FlashErase_events:
  assumes "logs D ev" and "prompt D mode (StatusCmd g) (FSRFlag g)" and "valid_mode mode" and "buffers_ok g"
    and "fct_entry (FCTIndex g) = Inr fi" and "n \<noteq> NumSect fi * SectSize fi"
  shows "\<exists>g' d'. FlashErase D mode a n g d = Some (Inr (XST_SUCCESS, g', d')) \<and>
    ev d' = ev d @ concat (map (\<lambda>i. sector_events mode fi (SectorEraseCmd g) (StatusCmd g)
                                     (a + of_nat i * SectSize fi))
                           [0..<unat (erase_NumSect fi a n)])"
  using erase_loop_does [OF assms(1,3,2,4), of d fi "unat (erase_NumSect fi a n)" a] assms(5,6)
  by (auto simp: FlashErase_def with_entry_def does_def)

lemma FlashWrite_does:
  assumes "logs D ev" "valid_mode mode" "prompt D mode (StatusCmd g) (FSRFlag g)" "buffers_ok g"
    and "fct_entry (FCTIndex g) = Inr fi"
  shows "does ev g d (FlashWrite D mode a n c buf g d)
    (page_events mode fi c (StatusCmd g) (take (unat n) buf) a)"
proof -
  let ?ra = "real_addr mode fi a"
  obtain d0 where d0: "GetRealAddr D mode fi a d = (Some ?ra, d0)"
    "ev d0 = ev d @ [selection mode fi a]" using GetRealAddr_logs [OF assms(1,2)] by blast
  define m0 where "m0 = tx_msg (cmd_addr c fi ?ra (replicate 5 0)) (cmd_addr_count fi)"
  define m1 where "m1 = \<lparr>TxBfr = Some buf, RxBfr = False, ByteCount = n,
    BusWidth = SELECT_MODE_SPI, Flags = stripe mode MSG_FLAG_TX\<rparr>"
  let ?k = "\<lambda>g d. (let g = set_msg 1 m1 (set_msg 0 m0 g);
        (Status, rx, d) = PolledTransfer D (take 2 (FlashMsg g)) d
      in if Status \<noteq> XST_SUCCESS then Some (Inr (XST_FAILURE, g, d)) else wait_ready D mode g d)"
  have k: "does ev h e (?k h e) ([Sent [c # addr_bytes fi ?ra, take (unat n) buf]] @ [Sent [[StatusCmd g], []]])"
    if s: "same_setup g h" for h e
  proof -
    let ?h = "set_msg 1 m1 (set_msg 0 m0 h)"
    obtain st rx e1 where t: "PolledTransfer D (take 2 (FlashMsg ?h)) e = (st, rx, e1)"
      by (metis prod.exhaust)
    obtain n0 n1 n2 n3 n4 where ms: "FlashMsg h = [n0, n1, n2, n3, n4]"
      using buffers_ok_same [OF s assms(4)] by (auto simp: buffers_ok_def eval_nat_numeral length_Suc_conv)
    have "map sent_bytes (take 2 (FlashMsg ?h)) = [c # addr_bytes fi ?ra, take (unat n) buf]"
      by (simp add: ms m0_def) (simp add: sent_bytes_def m1_def)
    then have e1: "ev e1 = ev e @ [Sent [c # addr_bytes fi ?ra, take (unat n) buf]]"
      using logsD [OF assms(1) t] by simp
    have "does ev ?h e1 (wait_ready D mode ?h e1) [Sent [[StatusCmd g], []]]"
      using does_wait_ready [OF assms(1), of mode ?h e1] assms(3) buffers_ok_same [OF s assms(4)] s
      by (simp add: same_setup_def buffers_ok_def)
    then have "does ev h e1 (wait_ready D mode ?h e1) [Sent [[StatusCmd g], []]]"
      by (rule does_start) simp
    moreover have "?k h e = wait_ready D mode ?h e1"
      unfolding Let_def t prod.case using promptD(1) [OF assms(3) t] by simp
    ultimately show ?thesis by (simp only:) (rule does_select [where d' = e1], rule e1)
  qed
  have "does ev g d0 (if_ok (write_enable D g d0) ?k) ([Sent [[WRITE_ENABLE_CMD]]] @
      [Sent [c # addr_bytes fi ?ra, take (unat n) buf]] @ [Sent [[StatusCmd g], []]])"
    by (rule does_if_ok [OF does_write_enable [OF assms(1,3,4)] k])
  then have "does ev g d0 (FlashWrite D mode a n c buf g d) ([Sent [[WRITE_ENABLE_CMD]]] @
      [Sent [c # addr_bytes fi ?ra, take (unat n) buf]] @ [Sent [[StatusCmd g], []]])"
    by (simp add: FlashWrite_def with_entry_def assms(5) d0 with_addr_def m0_def m1_def)
  then have "does ev g d (FlashWrite D mode a n c buf g d) ([selection mode fi a] @ [Sent [[WRITE_ENABLE_CMD]]] @
      [Sent [c # addr_bytes fi ?ra, take (unat n) buf]] @ [Sent [[StatusCmd g], []]])"
    by (rule does_select [where d' = d0, rotated]) (rule d0(2))
  then show ?thesis by (simp add: page_events_def)
qed

lemma page_loop_does:
  assumes "logs D ev" "valid_mode mode" "fct_entry i = Inr fi"
  shows "prompt D mode (StatusCmd g) (FSRFlag g) \<Longrightarrow> buffers_ok g \<Longrightarrow> FCTIndex g = i \<Longrightarrow>
    does ev g d (page_loop D mode fi p n g d)
      (concat (map (\<lambda>k. page_events mode fi (WriteCmd g) (StatusCmd g)
                          (take (unat (PageSize fi)) (WriteBuffer g))
                          (of_nat k * PageSize fi + TEST_ADDRESS)) [p..<p + n]))"
proof (induction n arbitrary: p g d)
  case 0
  then show ?case by (simp add: doesI)
next
  case (Suc n)
  have "does ev h e (page_loop D mode fi (Suc p) n h e)
      (concat (map (\<lambda>k. page_events mode fi (WriteCmd g) (StatusCmd g)
        (take (unat (PageSize fi)) (WriteBuffer g)) (of_nat k * PageSize fi + TEST_ADDRESS))
        [Suc p..<Suc p + n]))" if "same_setup g h" for h e
    using Suc.IH [of h e "Suc p"] Suc.prems buffers_ok_same [OF that] that
    by (simp add: same_setup_def)
  note rest = this
  have "[p..<p + Suc n] = p # [Suc p..<Suc p + n]" by (simp add: upt_conv_Cons del: upt_Suc)
  then show ?case
    using does_if_ok [OF FlashWrite_does [OF assms(1,2) Suc.prems(1,2), of fi] rest]
      Suc.prems(3) assms(3) by (simp del: upt_Suc)
qed

text \<open>
  The programming loop selects, enables writing, sends the program command with the
  page's translated address and one page of the write buffer, and asks for the status, for
  the 32 consecutive pages from the test address on.
\<close>

lemma page_loop_events:
  assumes "logs D ev" and "prompt D mode (StatusCmd g) (FSRFlag g)" and "valid_mode mode" and "buffers_ok g"
    and "fct_entry (FCTIndex g) = Inr fi"
  shows "\<exists>g' d'. page_loop D mode fi 0 PAGE_COUNT g d = Some (Inr (XST_SUCCESS, g', d')) \<and>
    ev d' = ev d @ concat (map (\<lambda>k. page_events mode fi (WriteCmd g) (StatusCmd g)
                                     (take (unat (PageSize fi)) (WriteBuffer g))
                                     (of_nat k * PageSize fi + TEST_ADDRESS)) [0..<32])"
  using page_loop_does [OF assms(1,3,5) assms(2,4) refl, of d 0 PAGE_COUNT]
  by (auto simp: does_def PAGE_COUNT_def)

text \<open>
  \<open>DieErase\<close> is to erase all dies of a device, but sends the die erase command with
  address 0 for every die, so that it erases the first die as many times as there are dies.
\<close>

lemma DieErase_events:
  assumes "logs D ev" and "prompt D mode (StatusCmd g) (FSRFlag g)" and "buffers_ok g"
    and "fct_entry (FCTIndex g) = Inr fi"
  shows "\<exists>g' d'. DieErase D mode g d = Some (Inr (XST_SUCCESS, g', d')) \<and>
    ev d' = ev d @ concat (replicate (unat (NumDie fi))
      [Sent [[WRITE_ENABLE_CMD]], Sent [[DIE_ERASE_CMD, 0, 0, 0]], Sent [[StatusCmd g], []]])"
proof -
  have "does ev g d (die_erase_loop D mode n g d) (concat (replicate n
      [Sent [[WRITE_ENABLE_CMD]], Sent [[DIE_ERASE_CMD, 0, 0, 0]], Sent [[StatusCmd g], []]]))"
    if "prompt D mode (StatusCmd g) (FSRFlag g)" "buffers_ok g" for n g d
    using that
  proof (induction n arbitrary: g d)
    case 0
    then show ?case by (simp add: doesI)
  next
    case (Suc n)
    have "does ev g d (erase_command D mode (\<lambda>g. memcpy_at 0 [DIE_ERASE_CMD, 0, 0, 0] (CmdBfr g)) 4
        (die_erase_loop D mode n) g d)
      (Sent [[WRITE_ENABLE_CMD]] # Sent [[DIE_ERASE_CMD, 0, 0, 0]] # Sent [[StatusCmd g], []] #
        concat (replicate n
      [Sent [[WRITE_ENABLE_CMD]], Sent [[DIE_ERASE_CMD, 0, 0, 0]], Sent [[StatusCmd g], []]]))"
    proof (rule erase_command_does [OF assms(1) Suc.prems])
      fix h assume "buffers_ok h" "same_setup g h"
      then show "length (memcpy_at 0 [DIE_ERASE_CMD, 0, 0, 0] (CmdBfr h)) = length (CmdBfr h) \<and>
          take (unat (4 :: u32)) (memcpy_at 0 [DIE_ERASE_CMD, 0, 0, 0] (CmdBfr h)) = [DIE_ERASE_CMD, 0, 0, 0]"
        by (simp add: buffers_ok_def) (simp add: memcpy_at_def)
    next
      fix h e assume "same_setup g h"
      then show "does ev h e (die_erase_loop D mode n h e) (concat (replicate n
          [Sent [[WRITE_ENABLE_CMD]], Sent [[DIE_ERASE_CMD, 0, 0, 0]], Sent [[StatusCmd g], []]]))"
        using Suc.IH [of h e] Suc.prems buffers_ok_same [of g h] by (simp add: same_setup_def)
    qed
    then show ?case by (simp add: erase_command_def)
  qed
  from this [OF assms(2,3), of d "unat (NumDie fi)"] show ?thesis
    by (auto simp: DieErase_def with_entry_def assms(4) does_def)
qed

lemma failing_whole_erase:
  assumes "\<And>msgs d. fst (PolledTransfer D msgs d) \<noteq> XST_SUCCESS"
    and "fct_entry (FCTIndex g) = Inr fi"
  shows "\<exists>s g' d'. whole_erase D mode fi g d = Some (Inr (s, g', d')) \<and> FCTIndex g' = FCTIndex g"
proof -
  have t: "\<exists>h e. transfer1 D buf n k e0 = Some (Inr (XST_FAILURE, h, e)) \<and> FCTIndex h = FCTIndex k"
    for buf n k e0
    using assms(1) by (auto simp: transfer1_def Let_def split: prod.splits) (metis fst_conv)
  have b: "\<exists>h e. BulkErase D mode k e0 = Some (Inr (XST_FAILURE, h, e)) \<and> FCTIndex h = FCTIndex k"
    for k e0 using t [of "[WRITE_ENABLE_CMD]" 1 k e0]
    by (auto simp: BulkErase_def write_enable_def if_ok_def)
  have l: "\<exists>s h e. die_erase_loop D mode n k e0 = Some (Inr (s, h, e)) \<and> FCTIndex h = FCTIndex k"
    for n k e0 using t [of "[WRITE_ENABLE_CMD]" 1 k e0]
    by (cases n) (auto simp: write_enable_def if_ok_def)
  show ?thesis
  proof (cases "NumDie fi = 1")
    case True
    then show ?thesis using b [of g d] by (auto simp: whole_erase_def ignoring_status_def)
  next
    case False
    then show ?thesis using l [of "unat (NumDie fi)" g d] assms(2)
      by (auto simp: whole_erase_def ignoring_status_def DieErase_def with_entry_def)
  qed
qed

text \<open>
  Erasing a whole flash reports success even if every single transfer to it fails:
  \<open>FlashErase\<close> ignores the results of \<open>BulkErase\<close> and \<open>DieErase\<close>.
\<close>

lemma FlashErase_whole_ignores_failure:
  assumes "\<And>msgs d. fst (PolledTransfer D msgs d) \<noteq> XST_SUCCESS"
    and "fct_entry (FCTIndex g) = Inr fi"
  shows "\<exists>g' d'. FlashErase D mode a (NumSect fi * SectSize fi) g d = Some (Inr (XST_SUCCESS, g', d'))"
proof -
  let ?d = "if mode = MODE_STACKED then SelectFlash D CS_LOWER BUS_LOWER d else d"
  obtain s g1 d1 where 1: "whole_erase D mode fi g ?d = Some (Inr (s, g1, d1))" "FCTIndex g1 = FCTIndex g"
    using failing_whole_erase [OF assms] by blast
  obtain s2 g2 d2 where 2: "whole_erase D mode fi g1 (SelectFlash D CS_UPPER BUS_LOWER d1) =
      Some (Inr (s2, g2, d2))"
    using failing_whole_erase [OF assms(1), of g1 fi] assms(2) 1(2) by metis
  show ?thesis
    using 1 2 assms(2)
    by (cases "mode = MODE_STACKED")
       (simp_all add: FlashErase_def with_entry_def ignoring_status_def XST_SUCCESS_def)
qed

text \<open>At most \<open>n\<close> polls; \<open>None\<close> when none of them decides.\<close>

fun poll_ready :: "'d qspi \<Rightarrow> u8 \<Rightarrow> nat \<Rightarrow> flash_globals \<Rightarrow> 'd \<Rightarrow> 'd flash_result" where
  "poll_ready D mode 0 g d = None"
| "poll_ready D mode (Suc n) g d =
     (let g = set_msg 1 (rx_msg 2 (stripe mode MSG_FLAG_RX)) (set_msg 0 (tx_msg [StatusCmd g] 1) g);
          (Status, rx, d) = PolledTransfer D (take 2 (FlashMsg g)) d
      in if Status \<noteq> XST_SUCCESS then Some (Inr (XST_FAILURE, g, d))
         else if flash_ready mode (FSRFlag g) (rx 1 0) (rx 1 1) then Some (Inr (XST_SUCCESS, g, d))
         else poll_ready D mode n g d)"

definition polling :: "u8 \<Rightarrow> flash_globals \<Rightarrow> flash_globals" where
  "polling mode g =
     set_msg 1 (rx_msg 2 (stripe mode MSG_FLAG_RX)) (set_msg 0 (tx_msg [StatusCmd g] 1) g)"

lemma FSRFlag_polling [simp]: "FSRFlag (polling mode g) = FSRFlag g"
  by (simp add: polling_def)

lemma poll_steps:
  assumes "PolledTransfer D (take 2 (FlashMsg (polling mode g))) d = (st, rx, d1)"
  shows "wait_ready D mode g d =
      (if st \<noteq> XST_SUCCESS then Some (Inr (XST_FAILURE, polling mode g, d1))
       else if flash_ready mode (FSRFlag g) (rx 1 0) (rx 1 1) then Some (Inr (XST_SUCCESS, polling mode g, d1))
       else wait_ready D mode (polling mode g) d1)"
    and "poll_ready D mode (Suc n) g d =
      (if st \<noteq> XST_SUCCESS then Some (Inr (XST_FAILURE, polling mode g, d1))
       else if flash_ready mode (FSRFlag g) (rx 1 0) (rx 1 1) then Some (Inr (XST_SUCCESS, polling mode g, d1))
       else poll_ready D mode n (polling mode g) d1)"
  unfolding wait_ready.simps [of D mode g d] poll_ready.simps Let_def polling_def [symmetric] assms
    prod.case by simp_all

lemma poll_ready_wait: "poll_ready D mode n g d = Some r \<Longrightarrow> wait_ready D mode g d = Some r"
proof (induction n arbitrary: g d)
  case (Suc n)
  obtain st rx d1 where t: "PolledTransfer D (take 2 (FlashMsg (polling mode g))) d = (st, rx, d1)"
    by (metis prod.exhaust)
  show ?case using Suc.prems Suc.IH by (auto simp: poll_steps [OF t] simp del: poll_ready.simps(2) split: if_splits)
qed simp

lemma wait_ready_poll:
  assumes "wait_ready D mode g d = Some r"
  shows "\<exists>n. poll_ready D mode n g d = Some r"
proof (rule wait_ready.raw_induct [where P = "\<lambda>D mode g d r. \<exists>n. poll_ready D mode n g d = Some r", OF _ assms])
  fix rec :: "'b qspi \<Rightarrow> u8 \<Rightarrow> flash_globals \<Rightarrow> 'b \<Rightarrow> (fault + (int \<times> flash_globals \<times> 'b)) option"
  fix D mode g d r
  assume IH: "\<And>D mode g d r. rec D mode g d = Some r \<Longrightarrow> \<exists>n. poll_ready D mode n g d = Some r"
    and eq: "(let g = set_msg 1 (rx_msg 2 (stripe mode MSG_FLAG_RX)) (set_msg 0 (tx_msg [StatusCmd g] 1) g);
          (Status, rx, d) = PolledTransfer D (take 2 (FlashMsg g)) d
      in if Status \<noteq> XST_SUCCESS then Some (Inr (XST_FAILURE, g, d))
         else if flash_ready mode (FSRFlag g) (rx 1 0) (rx 1 1) then Some (Inr (XST_SUCCESS, g, d))
         else rec D mode g d) = Some r"
  obtain st rx d1 where t: "PolledTransfer D (take 2 (FlashMsg (polling mode g))) d = (st, rx, d1)"
    by (metis prod.exhaust)
  have "(if st \<noteq> XST_SUCCESS then Some (Inr (XST_FAILURE, polling mode g, d1))
         else if flash_ready mode (FSRFlag g) (rx 1 0) (rx 1 1) then Some (Inr (XST_SUCCESS, polling mode g, d1))
         else rec D mode (polling mode g) d1) = Some r"
    using eq unfolding Let_def polling_def [symmetric] t prod.case FSRFlag_polling .
  then show "\<exists>n. poll_ready D mode n g d = Some r"
    using IH [of D mode "polling mode g" d1 r] poll_steps(2) [OF t]
    by (auto simp del: poll_ready.simps(2) split: if_splits) metis+
qed

text \<open>
  The status loop of the erase and program operations returns a result exactly when
  polling a number of times gives that result: success at the first poll that reports
  ready, failure at the first failing transfer. It has no bound of its own.
\<close>

lemma wait_ready_iff:
  "wait_ready D mode g d = Some r \<longleftrightarrow> (\<exists>n. poll_ready D mode n g d = Some r)"
  by (rule iffI, erule wait_ready_poll, erule exE, erule poll_ready_wait)

section \<open>Two devices\<close>

lemma table_device_sizes:
  assumes "fi \<in> set Flash_Config_Table"
  obtains k where "24 \<le> k" "k \<le> 27" "FlashDeviceSize fi = 2 ^ k"
proof -
  define P where "P fi = (\<exists>k \<in> {24, 25, 26, 27::nat}. FlashDeviceSize fi = 2 ^ k)" for fi :: FlashInfo
  have "list_all P Flash_Config_Table" by (simp add: Flash_Config_Table_def flash_info_def P_def)
  from table_all [OF this assms] obtain k where "k \<in> {24, 25, 26, 27}" "FlashDeviceSize fi = 2 ^ k"
    unfolding P_def by blast
  then show ?thesis by (intro that [of k]) auto
qed

lemma bit_top_iff:
  assumes "unat (a :: u32) < 2 * 2 ^ k"
  shows "bit a k \<longleftrightarrow> 2 ^ k \<le> unat a"
proof -
  have "unat a div 2 ^ k < 2" using assms by (simp add: less_mult_imp_div_less)
  moreover have "bit a k \<longleftrightarrow> bit (unat a) k" by (auto simp: bit_unsigned_iff)
  then have "bit a k \<longleftrightarrow> odd (unat a div 2 ^ k)" by (simp only: bit_iff_odd)
  moreover have "2 ^ k \<le> unat a \<longleftrightarrow> unat a div 2 ^ k \<noteq> 0" by (simp add: div_eq_0_iff not_less)
  ultimately show ?thesis by (cases "unat a div 2 ^ k = 0") (auto simp: less_2_cases_iff)
qed

text \<open>
  With two stacked devices an address below twice the size of one is in the lower
  device if it is below that size and else in the upper one, and what is sent is the
  address within the device, for every entry of the table.
\<close>

lemma stacked_address:
  assumes "fi \<in> set Flash_Config_Table" and "unat a < 2 * unat (FlashDeviceSize fi)"
  shows "\<exists>r. GetRealAddr D MODE_STACKED fi a d =
      (Some r, SelectFlash D (if unat a < unat (FlashDeviceSize fi) then CS_LOWER else CS_UPPER)
                 BUS_LOWER d) \<and>
    unat r = unat a mod unat (FlashDeviceSize fi)"
proof -
  obtain k where k: "24 \<le> k" "k \<le> 27" "FlashDeviceSize fi = 2 ^ k"
    using table_device_sizes [OF assms(1)] .
  have "k = 24 \<or> k = 25 \<or> k = 26 \<or> k = 27" using k by auto
  then have S: "unat (FlashDeviceSize fi) = 2 ^ k" by (auto simp: k)
  have a: "unat a < 2 * 2 ^ k" using assms(2) by (simp only: S)
  have b: "bit a k \<longleftrightarrow> 2 ^ k \<le> unat a" by (rule bit_top_iff [OF a])
  have "unat (take_bit (Suc k) a) = unat a"
    unfolding unsigned_take_bit_eq using a by (simp add: take_bit_nat_eq_self)
  then have "take_bit (Suc k) a = a" by (simp only: word_unat_eq_iff)
  then have "bit a n \<Longrightarrow> n < Suc k" for n by (metis bit_take_bit_iff)
  then have "a AND NOT (2 ^ k) = take_bit k a"
    by (intro bit_word_eqI) (auto simp: bit_simps less_Suc_eq)
  then have "unat (a AND NOT (2 ^ k)) = unat a mod 2 ^ k"
    by (simp only: unsigned_take_bit_eq) (simp add: take_bit_eq_mod)
  then show ?thesis unfolding S using b
    by (auto simp: GetRealAddr_def flash_modes k and_exp_iff_bit not_less)
qed

section \<open>The whole test on a working flash\<close>

text \<open>What switching the address mode sends.\<close>

definition switch_events :: "u8 \<Rightarrow> bool \<Rightarrow> FlashInfo \<Rightarrow> u32 \<Rightarrow> u8 \<Rightarrow> qspi_event list" where
  "switch_events mode Enable fi mk sc =
     (if \<not> FlashDeviceSize fi > SIXTEENMB then []
      else if mk = ucast SPANSION_ID_BYTE0 then [Sent [[BANK_REG_WR, if Enable then 0x80 else 0]]]
      else (if needs_write_enable mk then [Sent [[WRITE_ENABLE_CMD]]] else []) @
        [selection mode fi TEST_ADDRESS,
         Sent [[if Enable then ENTER_4B_ADDR_MODE
                else if mk = ucast ISSI_ID_BYTE0 then EXIT_4B_ADDR_MODE_ISSI else EXIT_4B_ADDR_MODE]],
         Sent [[sc], []]] @
        (if needs_write_enable mk then [Sent [[WRITE_DISABLE_CMD]]] else []))"

lemma does_if:
  "(b \<Longrightarrow> does ev g d r E) \<Longrightarrow> (\<not> b \<Longrightarrow> does ev g d r' E') \<Longrightarrow>
   does ev g d (if b then r else r') (if b then E else E')"
  by simp

lemma does_skip: "does ev g d (Some (Inr (XST_SUCCESS, g, d))) []"
  by (simp add: doesI)

lemma switch_4b_does:
  assumes "logs D ev" "valid_mode mode" "prompt D mode (StatusCmd g) (FSRFlag g)" "buffers_ok g"
    and "fct_entry (FCTIndex g) = Inr fi"
  shows "does ev g d (switch_4b D mode en fi g d) (switch_events mode en fi (FlashMake g) (StatusCmd g))"
proof -
  let ?cmd = "if en then ENTER_4B_ADDR_MODE else if FlashMake g = ucast ISSI_ID_BYTE0
      then EXIT_4B_ADDR_MODE_ISSI else EXIT_4B_ADDR_MODE"
  let ?last = "\<lambda>g d. if needs_write_enable (FlashMake g) then transfer1 D [WRITE_DISABLE_CMD] 1 g d
      else Some (Inr (XST_SUCCESS, g, d))"
  let ?wd = "if needs_write_enable (FlashMake g) then [Sent [[WRITE_DISABLE_CMD]]] else []"
  have last: "does ev h e (?last h e) ?wd" if s: "same_setup g h" for h e
    using does_transfer1 [OF assms(1,3) buffers_ok_same [OF s assms(4)], of e "[WRITE_DISABLE_CMD]" 1]
      does_skip [of ev h e] s by (simp add: same_setup_def)
  have wait: "does ev h e (if_ok (wait_ready D mode h e) ?last) ([Sent [[StatusCmd g], []]] @ ?wd)"
    if s: "same_setup g h" for h e
  proof (rule does_if_ok)
    show "does ev h e (wait_ready D mode h e) [Sent [[StatusCmd g], []]]"
      using does_wait_ready [OF assms(1), of mode h e] assms(3) buffers_ok_same [OF s assms(4)] s
      by (simp add: same_setup_def)
  qed (use last s same_setup_trans in blast)
  have cmd: "does ev h e (with_entry h (\<lambda>fi. let (_, d) = GetRealAddr D mode fi TEST_ADDRESS e
      in if_ok (transfer1 D [?cmd] 1 h d) (\<lambda>g d. if_ok (wait_ready D mode g d) ?last)))
      ([selection mode fi TEST_ADDRESS] @ [Sent [[?cmd]]] @ [Sent [[StatusCmd g], []]] @ ?wd)"
    if s: "same_setup g h" for h e
  proof -
    obtain d0 where d0: "GetRealAddr D mode fi TEST_ADDRESS e = (Some (real_addr mode fi TEST_ADDRESS), d0)"
      "ev d0 = ev e @ [selection mode fi TEST_ADDRESS]" using GetRealAddr_logs [OF assms(1,2)] by blast
    have "does ev h d0 (transfer1 D [?cmd] 1 h d0) [Sent [[?cmd]]]"
      using does_transfer1 [OF assms(1,3) buffers_ok_same [OF s assms(4)], of d0 "[?cmd]" 1] by simp
    from does_if_ok [OF this wait [OF same_setup_trans [OF s]]]
    have "does ev h d0 (with_entry h (\<lambda>fi. let (_, d) = GetRealAddr D mode fi TEST_ADDRESS e
      in if_ok (transfer1 D [?cmd] 1 h d) (\<lambda>g d. if_ok (wait_ready D mode g d) ?last)))
      ([Sent [[?cmd]]] @ [Sent [[StatusCmd g], []]] @ ?wd)"
      using s assms(5) by (simp add: with_entry_def d0(1) same_setup_def)
    then show ?thesis by (rule does_select [where d' = d0, rotated]) (rule d0(2))
  qed
  let ?en = "if needs_write_enable (FlashMake g) then write_enable D g d else Some (Inr (XST_SUCCESS, g, d))"
  have "does ev g d ?en (if needs_write_enable (FlashMake g) then [Sent [[WRITE_ENABLE_CMD]]] else [])"
    using does_write_enable [OF assms(1,3,4), of d] does_skip [of ev g d] by simp
  note enter = does_if_ok [OF this cmd]
  have "does ev g d (transfer1 D [BANK_REG_WR, if en then 0x80 else 0] 2 g d)
      [Sent [[BANK_REG_WR, if en then 0x80 else 0]]]"
    using does_transfer1 [OF assms(1,3,4), of d "[BANK_REG_WR, if en then 0x80 else 0]" 2] by simp
  then show ?thesis using enter does_skip [of ev g d]
    by (simp add: switch_4b_def FlashEnterExit4BAddMode_def switch_events_def Let_def)
qed

text \<open>\<open>delivers D cmd bs\<close>: a transfer that sends \<open>cmd\<close> stores \<open>bs\<close> through its third message.\<close>

definition delivers :: "'d qspi \<Rightarrow> u8 list list \<Rightarrow> u8 list \<Rightarrow> bool" where
  "delivers D cmd bs \<longleftrightarrow> (\<forall>msgs d. map sent_bytes msgs = cmd \<longrightarrow>
     (case PolledTransfer D msgs d of (_, rx, _) \<Rightarrow> map (rx 2) [0..<length bs] = bs))"

lemma deliversD:
  assumes "delivers D cmd bs" "PolledTransfer D msgs d = (st, rx, d')" "map sent_bytes msgs = cmd"
  shows "map (rx 2) [0..<length bs] = bs"
proof -
  have "case PolledTransfer D msgs d of (_, rx, _) \<Rightarrow> map (rx 2) [0..<length bs] = bs"
    by (rule assms(1) [unfolded delivers_def, rule_format, OF assms(3)])
  then show ?thesis unfolding assms(2) by simp
qed

text \<open>The bytes of the quad read of the translated address \<open>a\<close>.\<close>

definition read_cmd :: "u8 \<Rightarrow> FlashInfo \<Rightarrow> u32 \<Rightarrow> u8 list list" where
  "read_cmd mode fi a = [QUAD_READ_CMD # addr_bytes fi (real_addr mode fi a), [], []]"

lemma FlashRead_does:
  assumes "logs D ev" "valid_mode mode" "prompt D mode sc fsr" "buffers_ok g"
    and "fct_entry (FCTIndex g) = Inr fi" "unat n \<le> length (ReadBuffer g)"
    and "delivers D (read_cmd mode fi a) bs" "length bs = unat n"
  shows "\<exists>g' d'. FlashRead D mode a n QUAD_READ_CMD g d = Some (Inr (XST_SUCCESS, g', d')) \<and>
    same_setup g g' \<and> ReadBuffer g' = memcpy_at 0 bs (ReadBuffer g) \<and>
    ev d' = ev d @ [selection mode fi a, Sent (read_cmd mode fi a)]"
proof -
  let ?ra = "real_addr mode fi a"
  obtain d0 where d0: "GetRealAddr D mode fi a d = (Some ?ra, d0)"
    "ev d0 = ev d @ [selection mode fi a]" using GetRealAddr_logs [OF assms(1,2)] by blast
  obtain m0 m1 m2 m3 m4 where ms: "FlashMsg g = [m0, m1, m2, m3, m4]"
    using assms(4) by (auto simp: buffers_ok_def eval_nat_numeral length_Suc_conv)
  have w: "read_width QUAD_READ_CMD = Some SELECT_MODE_QUADSPI"
    by (simp add: read_width_def flash_cmds)
  define msgs where "msgs = [tx_msg (cmd_addr QUAD_READ_CMD fi ?ra (CmdBfr g)) (cmd_addr_count fi),
    \<lparr>TxBfr = None, RxBfr = False, ByteCount = DUMMY_CLOCKS, BusWidth = SELECT_MODE_QUADSPI, Flags = 0\<rparr>,
    \<lparr>TxBfr = None, RxBfr = True, ByteCount = n, BusWidth = SELECT_MODE_QUADSPI,
     Flags = stripe mode MSG_FLAG_RX\<rparr>]"
  obtain st rx d1 where t: "PolledTransfer D msgs d0 = (st, rx, d1)" by (metis prod.exhaust)
  have sent: "map sent_bytes msgs = read_cmd mode fi a"
    by (simp add: msgs_def read_cmd_def) (simp add: sent_bytes_def)
  have "\<exists>g'. FlashRead D mode a n QUAD_READ_CMD g d = Some (Inr (XST_SUCCESS, g', d1)) \<and>
      same_setup g g' \<and> ReadBuffer g' = memcpy_at 0 (map (rx 2) [0..<unat n]) (ReadBuffer g)"
    using t promptD(1) [OF assms(3) t] assms(4,6)
    by (auto simp: FlashRead_def with_entry_def assms(5) d0(1) with_addr_def w ms msgs_def
        same_setup_def buffers_ok_def numeral_2_eq_2 Let_def)
  moreover have "ev d1 = ev d @ [selection mode fi a, Sent (read_cmd mode fi a)]"
    using logsD [OF assms(1) t] d0(2) sent by simp
  ultimately show ?thesis using deliversD [OF assms(7) t sent] assms(8) by auto
qed

text \<open>The commands of a test run that passes, for the table entry \<open>fi\<close> and status command \<open>sc\<close>.\<close>

definition cycle_events :: "u8 \<Rightarrow> FlashInfo \<Rightarrow> u8 \<Rightarrow> u8 list \<Rightarrow> qspi_event list" where
  "cycle_events mode fi sc page =
     concat (map (\<lambda>i. sector_events mode fi SEC_ERASE_CMD sc (TEST_ADDRESS + of_nat i * SectSize fi))
       [0..<unat (erase_NumSect fi TEST_ADDRESS (32 * PageSize fi))]) @
     concat (map (\<lambda>k. page_events mode fi WRITE_CMD sc page (of_nat k * PageSize fi + TEST_ADDRESS)) [0..<32]) @
     [selection mode fi TEST_ADDRESS, Sent (read_cmd mode fi TEST_ADDRESS)]"

lemma table_pages:
  assumes "fi \<in> set Flash_Config_Table"
  shows "32 * PageSize fi \<noteq> NumSect fi * SectSize fi" and "unat (32 * PageSize fi) \<le> 32768"
    and "unat (PageSize fi) \<le> 1024" and "unat (PageSize fi) \<le> unat (32 * PageSize fi)"
proof -
  define P where "P fi = (32 * PageSize fi \<noteq> NumSect fi * SectSize fi \<and> unat (32 * PageSize fi) \<le> 32768 \<and>
    unat (PageSize fi) \<le> 1024 \<and> unat (PageSize fi) \<le> unat (32 * PageSize fi))" for fi :: FlashInfo
  have "list_all P Flash_Config_Table" by (simp add: Flash_Config_Table_def flash_info_def P_def)
  from table_all [OF this assms] show "32 * PageSize fi \<noteq> NumSect fi * SectSize fi"
    and "unat (32 * PageSize fi) \<le> 32768"
    and "unat (PageSize fi) \<le> 1024" and "unat (PageSize fi) \<le> unat (32 * PageSize fi)"
    by (simp_all add: P_def)
qed

lemma test_cycle_does:
  assumes "logs D ev" "valid_mode mode" "prompt D mode (StatusCmd g) (FSRFlag g)" "buffers_ok g"
    and "fct_entry (FCTIndex g) = Inr fi" "MaxData g = 32 * PageSize fi"
    and "ReadCmd g = QUAD_READ_CMD" "WriteCmd g = WRITE_CMD" "SectorEraseCmd g = SEC_ERASE_CMD"
    and "length (ReadBuffer g) = 32816"
    and "delivers D (read_cmd mode fi TEST_ADDRESS) (map (test_byte g) [0..<unat (32 * PageSize fi)])"
  shows "does ev g d (test_cycle D mode fi g d)
    (cycle_events mode fi (StatusCmd g) (take (unat (PageSize fi)) (WriteBuffer g)))"
proof -
  note tab = table_pages [OF fct_entry_Inr [OF assms(5)]]
  let ?n = "32 * PageSize fi"
  have er: "does ev g d (FlashErase D mode TEST_ADDRESS ?n g d)
      (concat (map (\<lambda>i. sector_events mode fi SEC_ERASE_CMD (StatusCmd g) (TEST_ADDRESS + of_nat i * SectSize fi))
       [0..<unat (erase_NumSect fi TEST_ADDRESS ?n)]))" for d
    using erase_loop_does [OF assms(1-4), of d fi "unat (erase_NumSect fi TEST_ADDRESS ?n)" TEST_ADDRESS] tab(1)
    by (simp add: FlashErase_def with_entry_def assms(5,9))
  have pg: "does ev h e (page_loop D mode fi 0 PAGE_COUNT h e)
      (concat (map (\<lambda>k. page_events mode fi WRITE_CMD (StatusCmd g) (take (unat (PageSize fi)) (WriteBuffer g))
         (of_nat k * PageSize fi + TEST_ADDRESS)) [0..<32]))" if s: "same_setup g h" for h e
    using page_loop_does [OF assms(1,2,5), of h e 0 PAGE_COUNT] assms(3,8) buffers_ok_same [OF s assms(4)] s
    by (simp add: same_setup_def PAGE_COUNT_def del: upt_Suc)
  have rd: "does ev h e (if_ok (FlashRead D mode TEST_ADDRESS (MaxData h) (ReadCmd h) h e) (\<lambda>g d.
       Some (Inr (if verify_pattern g then XST_SUCCESS else XST_FAILURE, g, d))))
      [selection mode fi TEST_ADDRESS, Sent (read_cmd mode fi TEST_ADDRESS)]"
    if s: "same_setup g h" for h e
  proof -
    have h: "MaxData h = ?n" "ReadCmd h = QUAD_READ_CMD" "fct_entry (FCTIndex h) = Inr fi"
      "length (ReadBuffer h) = 32816" using s assms by (simp_all add: same_setup_def)
    have "unat ?n \<le> length (ReadBuffer h)" using tab(2) h(4) by simp
    from FlashRead_does [OF assms(1-3) buffers_ok_same [OF s assms(4)] h(3) this assms(11), of e]
    obtain g' d' where r: "FlashRead D mode TEST_ADDRESS ?n QUAD_READ_CMD h e = Some (Inr (XST_SUCCESS, g', d'))"
      "same_setup h g'" "ReadBuffer g' = memcpy_at 0 (map (test_byte g) [0..<unat ?n]) (ReadBuffer h)"
      "ev d' = ev e @ [selection mode fi TEST_ADDRESS, Sent (read_cmd mode fi TEST_ADDRESS)]" by auto
    have "test_byte g' = test_byte g" "MaxData g' = ?n"
      using r(2) s h(1) by (auto simp: same_setup_def test_byte_def)
    then have "verify_pattern g'"
      using r(3) by (simp add: verify_pattern_def list_all_iff memcpy_at_def nth_append)
    then show ?thesis using r by (simp add: h if_ok_def doesI)
  qed
  show ?thesis unfolding test_cycle_def cycle_events_def assms(6)
    by (intro does_if_ok er pg rd) (auto intro: same_setup_trans)
qed

text \<open>The status command and flag of a table entry.\<close>

definition entry_status :: "FlashInfo \<Rightarrow> u32 \<Rightarrow> u8 \<times> u8" where
  "entry_status fi mk =
     (if NumDie fi > 1 \<and> mk = ucast MICRON_ID_BYTE0 then (READ_FLAG_STATUS_CMD, 1)
      else (READ_STATUS_CMD, 0))"

text \<open>The flash answers the ID command with the manufacturer \<open>id0\<close> and the size byte \<open>id2\<close>.\<close>

definition identifies :: "'d qspi \<Rightarrow> u8 \<Rightarrow> u8 \<Rightarrow> bool" where
  "identifies D id0 id2 \<longleftrightarrow> (\<forall>msgs d. map sent_bytes msgs = [[READ_ID], []] \<longrightarrow>
     (case PolledTransfer D msgs d of (_, rx, _) \<Rightarrow> rx 1 0 = id0 \<and> rx 1 2 = id2))"

lemma identifiesD:
  assumes "identifies D id0 id2" "PolledTransfer D msgs d = (st, rx, d')"
    "map sent_bytes msgs = [[READ_ID], []]"
  shows "rx 1 0 = id0 \<and> rx 1 2 = id2"
proof -
  have "case PolledTransfer D msgs d of (_, rx, _) \<Rightarrow> rx 1 0 = id0 \<and> rx 1 2 = id2"
    by (rule assms(1) [unfolded identifies_def, rule_format, OF assms(3)])
  then show ?thesis unfolding assms(2) by simp
qed

lemma FlashReadID_known:
  assumes "logs D ev" "prompt D m sc fsr" "identifies D id0 id2"
    and "buffers_ok g"
    and "flash_index mode (fst (flash_make id0 (FlashMake g))) (snd (flash_make id0 (FlashMake g)))
           id2 (FCTIndex g) = Inr i"
  shows "\<exists>g' d'. FlashReadID D mode g d = Some (Inr (XST_SUCCESS, g', d')) \<and>
    FCTIndex g' = i \<and> FlashMake g' = fst (flash_make id0 (FlashMake g)) \<and> Test g' = Test g \<and>
    length (WriteBuffer g') = length (WriteBuffer g) \<and> buffers_ok g' \<and>
    ev d' = ev d @ [Sent [[READ_ID], []]]"
proof -
  let ?g = "set_msg 1 (rx_msg 3 MSG_FLAG_RX) (set_msg 0 (tx_msg [READ_ID] 1) g)"
  obtain st rx d1 where t: "PolledTransfer D (take 2 (FlashMsg ?g)) d = (st, rx, d1)"
    by (metis prod.exhaust)
  obtain m0 m1 m2 m3 m4 where ms: "FlashMsg g = [m0, m1, m2, m3, m4]"
    using assms(4) by (auto simp: buffers_ok_def eval_nat_numeral length_Suc_conv)
  have sent: "map sent_bytes (take 2 (FlashMsg ?g)) = [[READ_ID], []]"
    by (simp add: ms sent_tx_msg) (simp add: sent_bytes_def rx_msg_def)
  show ?thesis
    unfolding FlashReadID_def Let_def t prod.case
    using promptD(1) [OF assms(2) t] identifiesD [OF assms(3) t sent] logsD [OF assms(1) t] sent assms(4,5)
    by (auto simp: buffers_ok_def split: prod.splits)
qed

lemma flashtest_run:
  assumes "logs D ev" and "buffers_ok g" and "length (WriteBuffer g) = 32773"
    and "QLookupConfig D QSPIPSU_DEVICE_ID = Some cfg" and "valid_mode (ConnectionMode cfg)"
    and "\<And>b d. fst (QCfgInitialize D cfg b d) = XST_SUCCESS"
    and "identifies D id0 id2"
    and "flash_make id0 (FlashMake g) = (mk, start)"
    and "flash_index (ConnectionMode cfg) mk start id2 (FCTIndex g) = Inr i"
    and "fct_entry i = Inr fi" and "entry_status fi mk = (sc, fsr)"
    and "prompt D (ConnectionMode cfg) sc fsr"
    and "delivers D (read_cmd (ConnectionMode cfg) fi TEST_ADDRESS)
           (map (test_byte g) [0..<unat (32 * PageSize fi)])"
  shows "\<exists>g' d'. flashtest D g d = Some (Inr (XST_SUCCESS, g', d')) \<and>
    ev d' = ev d @ [Select CS_LOWER BUS_LOWER, Sent [[READ_ID], []]] @
      switch_events (ConnectionMode cfg) True fi mk sc @
      cycle_events (ConnectionMode cfg) fi sc (map (test_byte g) [0..<unat (PageSize fi)]) @
      switch_events (ConnectionMode cfg) False fi mk sc"
proof -
  let ?m = "ConnectionMode cfg"
  obtain d1 where c: "QCfgInitialize D cfg (QBaseAddress cfg) d = (XST_SUCCESS, d1)" "ev d1 = ev d"
    using assms(1,6) by (metis logs_def prod.collapse)
  obtain s2 d2 where o: "QSetOptions D MANUAL_START_OPTION d1 = (s2, d2)" "ev d2 = ev d1"
    using assms(1) by (metis logs_def prod.collapse)
  obtain s3 d3 where k: "QSetClkPrescaler D CLK_PRESCALE_8 d2 = (s3, d3)" "ev d3 = ev d2"
    using assms(1) by (metis logs_def prod.collapse)
  define d4 where "d4 = SelectFlash D CS_LOWER BUS_LOWER d3"
  have d4: "ev d4 = ev d @ [Select CS_LOWER BUS_LOWER]"
    using logs_SelectFlash [OF assms(1)] c o k by (simp add: d4_def)
  obtain g1 d5 where r: "FlashReadID D ?m g d4 = Some (Inr (XST_SUCCESS, g1, d5))" "FCTIndex g1 = i"
    "FlashMake g1 = mk" "Test g1 = Test g" "length (WriteBuffer g1) = 32773" "buffers_ok g1"
    "ev d5 = ev d4 @ [Sent [[READ_ID], []]]"
    using FlashReadID_known [OF assms(1,12,7,2), of ?m i d4] assms(3,8,9)
    by auto
  let ?g2 = "configure_test fi g1"
  have sc: "StatusCmd ?g2 = sc" "FSRFlag ?g2 = fsr"
    using assms(11) r(3) by (auto simp: configure_test_def entry_status_def Let_def split: if_splits)
  have g2: "buffers_ok ?g2" "FCTIndex ?g2 = i" "FlashMake ?g2 = mk" "Test ?g2 = Test g"
    "length (WriteBuffer ?g2) = 32773" "MaxData ?g2 = 32 * PageSize fi" "ReadCmd ?g2 = QUAD_READ_CMD"
    "WriteCmd ?g2 = WRITE_CMD" "SectorEraseCmd ?g2 = SEC_ERASE_CMD"
    using r by (simp_all add: configure_test_def buffers_ok_def Let_def PAGE_COUNT_def)
  obtain g3 d6 where on: "switch_4b D ?m True fi ?g2 d5 = Some (Inr (XST_SUCCESS, g3, d6))"
    "same_setup ?g2 g3" "ev d6 = ev d5 @ switch_events ?m True fi mk sc"
    using switch_4b_does [OF assms(1,5) _ g2(1), of fi d5 True] assms(10,12) by (auto simp: does_def sc g2)
  let ?p = "prepare_buffers fi g3"
  have p: "take (unat (PageSize fi)) (WriteBuffer ?p) = map (test_byte g) [0..<unat (PageSize fi)]"
    "test_byte ?p = test_byte g" "StatusCmd ?p = sc" "FSRFlag ?p = fsr" "buffers_ok ?p"
    "MaxData ?p = 32 * PageSize fi" "ReadCmd ?p = QUAD_READ_CMD" "WriteCmd ?p = WRITE_CMD"
    "SectorEraseCmd ?p = SEC_ERASE_CMD" "FCTIndex ?p = i" "FlashMake ?p = mk"
    "length (ReadBuffer ?p) = 32816"
    using on(2) g2 sc
    by (auto simp: prepare_buffers_def memcpy_at_def test_byte_def same_setup_def buffers_ok_def
        PAGE_COUNT_def MAX_PAGE_SIZE_def DATA_OFFSET_def DUMMY_SIZE_def)
  have "does ev ?p d6 (test_cycle D ?m fi ?p d6)
      (cycle_events ?m fi sc (map (test_byte g) [0..<unat (PageSize fi)]))"
    using test_cycle_does [OF assms(1,5), of ?p fi d6] assms(10,12,13) by (simp add: p)
  then obtain g4 d7 where cyc: "test_cycle D ?m fi ?p d6 = Some (Inr (XST_SUCCESS, g4, d7))"
    "same_setup ?p g4"
    "ev d7 = ev d6 @ cycle_events ?m fi sc (map (test_byte g) [0..<unat (PageSize fi)])"
    unfolding does_def by blast
  have g4: "StatusCmd g4 = sc" "FSRFlag g4 = fsr" "FCTIndex g4 = i" "FlashMake g4 = mk" "buffers_ok g4"
    using cyc(2) p buffers_ok_same [OF cyc(2)] by (simp_all add: same_setup_def)
  obtain g5 d8 where off: "switch_4b D ?m False fi g4 d7 = Some (Inr (XST_SUCCESS, g5, d8))"
    "ev d8 = ev d7 @ switch_events ?m False fi mk sc"
    using switch_4b_does [OF assms(1,5) _ g4(5), of fi d7 False] assms(10,12) by (auto simp: does_def g4)
  have "flashtest D g d = Some (Inr (XST_SUCCESS, g5, d8))"
    by (simp add: flashtest_def QspiPsuPolledFlashExample_def assms(4,10) c o k r on cyc off if_ok_def
        with_entry_def Let_def flip: d4_def)
  then show ?thesis using d4 r(7) on(3) cyc(3) off(2) by simp
qed


section \<open>A flash for concrete runs\<close>

text \<open>
  It logs what it is asked to do and always delivers the same bytes, \<open>rx i k\<close> at offset \<open>k\<close>
  of message \<open>i\<close>; the globals are those of the program's start.
\<close>

definition trace_flash :: "u8 \<Rightarrow> (nat \<Rightarrow> nat \<Rightarrow> u8) \<Rightarrow> qspi_event list qspi" where
  "trace_flash mode rx =
     \<lparr>QLookupConfig = (\<lambda>_. Some \<lparr>QBaseAddress = 0xFF0F0000, ConnectionMode = mode\<rparr>),
      QCfgInitialize = (\<lambda>_ _ d. (XST_SUCCESS, d)),
      QSetOptions = (\<lambda>_ d. (XST_SUCCESS, d)), QSetClkPrescaler = (\<lambda>_ d. (XST_SUCCESS, d)),
      SelectFlash = (\<lambda>cs b d. d @ [Select cs b]),
      PolledTransfer = (\<lambda>msgs d. (XST_SUCCESS, rx, d @ [Sent (map sent_bytes msgs)]))\<rparr>"

definition flash_init :: flash_globals where
  "flash_init = \<lparr>FlashMake = 0, FCTIndex = 0, ReadCmd = 0, WriteCmd = 0, StatusCmd = 0,
     SectorEraseCmd = 0, FSRFlag = 0,
     FlashMsg = replicate 5 \<lparr>TxBfr = None, RxBfr = False, ByteCount = 0, BusWidth = 0, Flags = 0\<rparr>,
     IdBfr = replicate 3 0, ReadBuffer = replicate 32816 0, WriteBuffer = replicate 32773 0,
     CmdBfr = replicate 8 0, MaxData = 8192, Test = 1\<rparr>"

lemma trace_flash_logs: "logs (trace_flash mode rx) (\<lambda>d. d)"
  by (simp add: logs_def trace_flash_def)

lemma trace_flash_prompt:
  "flash_ready mode fsr (rx 1 0) (rx 1 1) \<Longrightarrow> prompt (trace_flash m rx) mode sc fsr"
  by (simp add: prompt_def trace_flash_def)

lemma flash_init_facts: "buffers_ok flash_init" "FSRFlag flash_init = 0" "FCTIndex flash_init = 0"
  "FlashMake flash_init = 0"
  by (simp_all add: buffers_ok_def flash_init_def)

lemma entry0: "fct_entry 0 = Inr (Flash_Config_Table ! 0)"
  by (simp add: fct_entry_def Flash_Config_Table_def)

lemma idle_prompt: "prompt (trace_flash m (\<lambda>_ _. 0)) mode sc 0"
  by (rule trace_flash_prompt) (simp add: flash_ready_def)

text \<open>Two Micron 256-Mbit devices in parallel that hold the pattern.\<close>

definition healthy_flash :: "qspi_event list qspi" where
  "healthy_flash = trace_flash MODE_PARALLEL
     (\<lambda>i k. if i = 2 then of_nat k + 7 else if k = 0 then 0x20 else if k = 2 then 0x19 else 0)"

definition healthy_config :: XQspiPsu_Config where
  "healthy_config = \<lparr>QBaseAddress = 0xFF0F0000, ConnectionMode = MODE_PARALLEL\<rparr>"

lemma healthy_flash_facts:
  "logs healthy_flash (\<lambda>d. d)" "buffers_ok flash_init" "length (WriteBuffer flash_init) = 32773"
  "QLookupConfig healthy_flash QSPIPSU_DEVICE_ID = Some healthy_config"
  "valid_mode (ConnectionMode healthy_config)"
  "\<And>b d. fst (QCfgInitialize healthy_flash healthy_config b d) = XST_SUCCESS"
  "identifies healthy_flash 0x20 0x19"
  "flash_make 0x20 (FlashMake flash_init) = (0x20, Some MICRON_INDEX_START)"
  "flash_index (ConnectionMode healthy_config) 0x20 (Some MICRON_INDEX_START) 0x19 (FCTIndex flash_init) = Inr 14"
  "fct_entry 14 = Inr (Flash_Config_Table ! 14)"
  "entry_status (Flash_Config_Table ! 14) 0x20 = (READ_STATUS_CMD, 0)"
  "prompt healthy_flash (ConnectionMode healthy_config) READ_STATUS_CMD 0"
  "delivers healthy_flash (read_cmd (ConnectionMode healthy_config) (Flash_Config_Table ! 14) TEST_ADDRESS)
    (map (test_byte flash_init) [0..<unat (32 * PageSize (Flash_Config_Table ! 14))])"
proof -
  have "test_byte flash_init k = of_nat k + 7" for k
    by (simp add: test_byte_def flash_init_def UNIQUE_VALUE_def)
  then show "delivers healthy_flash (read_cmd (ConnectionMode healthy_config) (Flash_Config_Table ! 14) TEST_ADDRESS)
      (map (test_byte flash_init) [0..<unat (32 * PageSize (Flash_Config_Table ! 14))])"
    by (simp add: delivers_def healthy_flash_def trace_flash_def)
  show "prompt healthy_flash (ConnectionMode healthy_config) READ_STATUS_CMD 0" unfolding healthy_flash_def
    by (rule trace_flash_prompt) (simp add: flash_ready_def flash_modes healthy_config_def)
  show "logs healthy_flash (\<lambda>d. d)" unfolding healthy_flash_def by (rule trace_flash_logs)
  show "buffers_ok flash_init" by (rule flash_init_facts)
qed (simp_all add: flash_init_facts healthy_flash_def trace_flash_def healthy_config_def
      flash_make_def flash_ids identifies_def
      flash_index_def mode_index_start_def mode_index_def flash_modes flash_index_starts valid_mode_def
      fct_entry_def entry_status_def Flash_Config_Table_def flash_info_def, simp_all add: flash_init_def)


theorem flashtest_sound_witness:
  "\<exists>g' d'. flashtest healthy_flash flash_init [] = Some (Inr (XST_SUCCESS, g', d')) \<and>
   (\<exists>cfg fi a d0 d1 msgs rx d2.
    QLookupConfig healthy_flash QSPIPSU_DEVICE_ID = Some cfg \<and> fct_entry (FCTIndex g') = Inr fi \<and>
    GetRealAddr healthy_flash (ConnectionMode cfg) fi TEST_ADDRESS d0 = (Some a, d1) \<and>
    PolledTransfer healthy_flash msgs d1 = (XST_SUCCESS, rx, d2) \<and>
    map sent_bytes msgs = [QUAD_READ_CMD # addr_bytes fi a, [], []] \<and>
    ByteCount (msgs ! 2) = 32 * PageSize fi \<and>
    (\<forall>k < unat (32 * PageSize fi). rx 2 k = of_nat k + 6 + of_int (Test flash_init)))"
proof -
  obtain g' d' where r: "flashtest healthy_flash flash_init [] = Some (Inr (XST_SUCCESS, g', d'))"
    using flashtest_run [OF healthy_flash_facts] by blast
  have "length (FlashMsg flash_init) = 5" "5 \<le> length (CmdBfr flash_init)"
    using flash_init_facts(1) by (simp_all add: buffers_ok_def)
  note ex = flashtest_sound [OF r this]
  show ?thesis by (rule exI [of _ g'], rule exI [of _ d'], rule conjI [OF r ex])
qed

section \<open>Identification and its gaps\<close>

text \<open>
  A board with two ISSI devices selects an entry beyond the end of the table, so that
  the test reads outside the table whatever the flash answers afterwards.
\<close>

lemma flashtest_issi_dual:
  assumes "QLookupConfig D QSPIPSU_DEVICE_ID = Some cfg"
    and "ConnectionMode cfg \<in> {MODE_STACKED, MODE_PARALLEL}"
    and "\<And>b d. fst (QCfgInitialize D cfg b d) = XST_SUCCESS"
    and "\<And>msgs d. \<exists>rx d'. PolledTransfer D msgs d = (XST_SUCCESS, rx, d') \<and>
           rx 1 0 = ISSI_ID_BYTE0 \<and> rx 1 2 = ISSI_ID_BYTE2_256"
  shows "flashtest D g d = Some (Inl OutOfBounds)"
proof -
  let ?m = "ConnectionMode cfg"
  have id: "\<exists>g' d'. FlashReadID D ?m g d = Some (Inr (XST_SUCCESS, g', d')) \<and>
      fct_entry (FCTIndex g') = Inl OutOfBounds" for d
  proof -
    let ?g = "set_msg 1 (rx_msg 3 MSG_FLAG_RX) (set_msg 0 (tx_msg [READ_ID] 1) g)"
    obtain rx d' where t: "PolledTransfer D (take 2 (FlashMsg ?g)) d = (XST_SUCCESS, rx, d')"
      "rx 1 0 = ISSI_ID_BYTE0" "rx 1 2 = ISSI_ID_BYTE2_256" using assms(4) by blast
    show ?thesis unfolding FlashReadID_def Let_def t(1) using t(2,3) assms(2)
      by (auto simp: flash_make_def flash_ids flash_index_def mode_index_def flash_modes
          flash_index_starts fct_entry_def Flash_Config_Table_def)
  qed
  obtain d1 where c: "QCfgInitialize D cfg (QBaseAddress cfg) d = (XST_SUCCESS, d1)"
    using assms(3) [of "QBaseAddress cfg" d] by (metis prod.collapse)
  obtain s2 d2 where o: "QSetOptions D MANUAL_START_OPTION d1 = (s2, d2)" by force
  obtain s3 d3 where k: "QSetClkPrescaler D CLK_PRESCALE_8 d2 = (s3, d3)" by force
  obtain g' d' where r: "FlashReadID D ?m g (SelectFlash D CS_LOWER BUS_LOWER d3) =
      Some (Inr (XST_SUCCESS, g', d'))" "fct_entry (FCTIndex g') = Inl OutOfBounds"
    using id by blast
  show ?thesis
    by (simp add: flashtest_def QspiPsuPolledFlashExample_def assms(1) c o k r if_ok_def
        with_entry_def Let_def)
qed

text \<open>
  A flash with an unknown manufacturer byte is accepted. On the first run the test
  goes on with the table entry of index \<open>FCTIndex\<close> as it is, initially the 128-Mbit
  Spansion part, instead of failing.
\<close>

lemma FlashReadID_unknown:
  assumes "FlashMake g = 0"
    and "\<And>msgs d. \<exists>rx d'. PolledTransfer D msgs d = (XST_SUCCESS, rx, d') \<and> rx 1 0 = id0"
    and "id0 \<notin> {MICRON_ID_BYTE0, SPANSION_ID_BYTE0, WINBOND_ID_BYTE0, MACRONIX_ID_BYTE0, ISSI_ID_BYTE0}"
  shows "\<exists>g' d'. FlashReadID D mode g d = Some (Inr (XST_SUCCESS, g', d')) \<and>
    FCTIndex g' = FCTIndex g \<and> FlashMake g' = 0"
proof -
  let ?g = "set_msg 1 (rx_msg 3 MSG_FLAG_RX) (set_msg 0 (tx_msg [READ_ID] 1) g)"
  obtain rx d' where t: "PolledTransfer D (take 2 (FlashMsg ?g)) d = (XST_SUCCESS, rx, d')"
    "rx 1 0 = id0" using assms(2) by blast
  show ?thesis unfolding FlashReadID_def Let_def t(1) using t(2) assms(1,3)
    by (auto simp: flash_make_def flash_index_def flash_ids)
qed

end
