(* ===== verification/MemTest.thy ===== *)
theory MemTest
  imports Prelude
begin

text \<open>
  The memory test: \<open>boe_factory_test/src/memorytest.c\<close>, \<open>memory_config_g.c\<close> and the
  routines of \<open>standalone_v6_5/src/xil_testmem.c\<close> it calls. The memory is a record of load
  and store operations over a state of any type, so that it may have any defect.
\<close>

section \<open>Memory\<close>

record 'm memory =
  load32 :: "u64 \<Rightarrow> 'm \<Rightarrow> u32 \<times> 'm"
  store32 :: "u64 \<Rightarrow> u32 \<Rightarrow> 'm \<Rightarrow> 'm"
  load16 :: "u64 \<Rightarrow> 'm \<Rightarrow> u16 \<times> 'm"
  store16 :: "u64 \<Rightarrow> u16 \<Rightarrow> 'm \<Rightarrow> 'm"
  load8 :: "u64 \<Rightarrow> 'm \<Rightarrow> u8 \<times> 'm"
  store8 :: "u64 \<Rightarrow> u8 \<Rightarrow> 'm \<Rightarrow> 'm"

definition XIL_TESTMEM_ALLMEMTESTS :: u8 where "XIL_TESTMEM_ALLMEMTESTS = 0"
definition XIL_TESTMEM_INCREMENT :: u8 where "XIL_TESTMEM_INCREMENT = 1"
definition XIL_TESTMEM_WALKONES :: u8 where "XIL_TESTMEM_WALKONES = 2"
definition XIL_TESTMEM_WALKZEROS :: u8 where "XIL_TESTMEM_WALKZEROS = 3"
definition XIL_TESTMEM_INVERSEADDR :: u8 where "XIL_TESTMEM_INVERSEADDR = 4"
definition XIL_TESTMEM_FIXEDPATTERN :: u8 where "XIL_TESTMEM_FIXEDPATTERN = 5"
definition XIL_TESTMEM_MAXTEST :: u8 where "XIL_TESTMEM_MAXTEST = XIL_TESTMEM_FIXEDPATTERN"

lemmas testmem_consts [model_eval] =
  XIL_TESTMEM_ALLMEMTESTS_def XIL_TESTMEM_INCREMENT_def XIL_TESTMEM_WALKONES_def
  XIL_TESTMEM_WALKZEROS_def XIL_TESTMEM_INVERSEADDR_def XIL_TESTMEM_FIXEDPATTERN_def
  XIL_TESTMEM_MAXTEST_def

section \<open>Rotation\<close>

definition RotateLeft :: "u32 \<Rightarrow> u8 \<Rightarrow> u32" where
  "RotateLeft Input Width =
     (let MsbMask = push_bit (unat (Width - 1)) 1;
          WidthMask = push_bit 1 MsbMask - 1;
          LocalInput = Input AND WidthMask;
          Msb = LocalInput AND MsbMask;
          ReturnVal = push_bit 1 LocalInput;
          ReturnVal = (if Msb \<noteq> 0 then ReturnVal OR 1 else ReturnVal)
      in ReturnVal AND WidthMask)"

section \<open>The loops\<close>

text \<open>
  The writing and the comparing loop over \<open>n\<close> cells of \<open>sz\<close> bytes; \<open>step\<close> is what the loop
  body does to \<open>Val\<close>. The comparison ends at the first mismatch.
\<close>

fun fill_loop :: "(u64 \<Rightarrow> 'w \<Rightarrow> 'm \<Rightarrow> 'm) \<Rightarrow> u64 \<Rightarrow> ('w \<Rightarrow> 'w) \<Rightarrow> nat \<Rightarrow> u64 \<Rightarrow> 'w \<Rightarrow> 'm \<Rightarrow> 'm" where
  "fill_loop st sz step 0 a v m = m"
| "fill_loop st sz step (Suc n) a v m = fill_loop st sz step n (a + sz) (step v) (st a v m)"

fun check_loop ::
    "(u64 \<Rightarrow> 'm \<Rightarrow> 'w \<times> 'm) \<Rightarrow> u64 \<Rightarrow> ('w \<Rightarrow> 'w) \<Rightarrow> nat \<Rightarrow> u64 \<Rightarrow> 'w \<Rightarrow> 'm \<Rightarrow> int \<times> 'm" where
  "check_loop ld sz step 0 a v m = (0, m)"
| "check_loop ld sz step (Suc n) a v m =
     (let (w, m) = ld a m in if w \<noteq> v then (-1, m) else check_loop ld sz step n (a + sz) (step v) m)"

definition fill_check ::
    "(u64 \<Rightarrow> 'm \<Rightarrow> 'w \<times> 'm) \<Rightarrow> (u64 \<Rightarrow> 'w \<Rightarrow> 'm \<Rightarrow> 'm) \<Rightarrow> u64 \<Rightarrow> ('w \<Rightarrow> 'w) \<Rightarrow> nat \<Rightarrow> u64 \<Rightarrow> 'w \<Rightarrow>
     'm \<Rightarrow> int \<times> 'm" where
  "fill_check ld st sz step n a v m = check_loop ld sz step n a v (fill_loop st sz step n a v m)"

text \<open>The same with a value that depends on the address of the cell.\<close>

fun fill_addr :: "(u64 \<Rightarrow> 'w \<Rightarrow> 'm \<Rightarrow> 'm) \<Rightarrow> u64 \<Rightarrow> (u64 \<Rightarrow> 'w) \<Rightarrow> nat \<Rightarrow> u64 \<Rightarrow> 'm \<Rightarrow> 'm" where
  "fill_addr st sz val 0 a m = m"
| "fill_addr st sz val (Suc n) a m = fill_addr st sz val n (a + sz) (st a (val a) m)"

fun check_addr :: "(u64 \<Rightarrow> 'm \<Rightarrow> 'w \<times> 'm) \<Rightarrow> u64 \<Rightarrow> (u64 \<Rightarrow> 'w) \<Rightarrow> nat \<Rightarrow> u64 \<Rightarrow> 'm \<Rightarrow> int \<times> 'm" where
  "check_addr ld sz val 0 a m = (0, m)"
| "check_addr ld sz val (Suc n) a m =
     (let (w, m) = ld a m in if w \<noteq> val a then (-1, m) else check_addr ld sz val n (a + sz) m)"

text \<open>Tests in a row; the first failure ends them (\<open>goto End_Label\<close>).\<close>

fun run_tests :: "('m \<Rightarrow> int \<times> 'm) list \<Rightarrow> 'm \<Rightarrow> int \<times> 'm" where
  "run_tests [] m = (0, m)"
| "run_tests (t # ts) m = (let (s, m) = t m in if s \<noteq> 0 then (s, m) else run_tests ts m)"

definition selected :: "u8 \<Rightarrow> u8 \<Rightarrow> ('m \<Rightarrow> int \<times> 'm) \<Rightarrow> 'm \<Rightarrow> int \<times> 'm" where
  "selected Subtest t test m =
     (if Subtest = XIL_TESTMEM_ALLMEMTESTS \<or> Subtest = t then test m else (0, m))"

section \<open>The three widths\<close>

text \<open>
  The tests of each width. \<open>None\<close> is a failed assertion of the arguments, on which
  \<open>Xil_Assert\<close> waits forever.
\<close>

definition Xil_TestMem32 :: "'m memory \<Rightarrow> u64 \<Rightarrow> u32 \<Rightarrow> u32 \<Rightarrow> u8 \<Rightarrow> 'm \<Rightarrow> (int \<times> 'm) option" where
  "Xil_TestMem32 M Addr Words Pattern Subtest m =
     (if Words = 0 \<or> Subtest > XIL_TESTMEM_MAXTEST \<or> Addr = 0 then None
      else
        let fc = fill_check (load32 M) (store32 M) 4; n = unat Words
        in Some (run_tests
          [selected Subtest XIL_TESTMEM_INCREMENT (fc (\<lambda>v. v + 1) n Addr 1),
           selected Subtest XIL_TESTMEM_WALKONES
             (run_tests (map (\<lambda>j. fc (\<lambda>v. RotateLeft v 32) 32 Addr (push_bit j 1)) [0..<32])),
           selected Subtest XIL_TESTMEM_WALKZEROS
             (run_tests (map (\<lambda>j. fc (\<lambda>v. NOT (RotateLeft (NOT v) 32)) 32 Addr (NOT (push_bit j 1)))
                [0..<32])),
           selected Subtest XIL_TESTMEM_INVERSEADDR
             (\<lambda>m. check_addr (load32 M) 4 (\<lambda>a. ucast (NOT a)) n Addr
                    (fill_addr (store32 M) 4 (\<lambda>a. ucast (NOT a)) n Addr m)),
           selected Subtest XIL_TESTMEM_FIXEDPATTERN
             (fc (\<lambda>v. v) n Addr (if Pattern = 0 then 0xDEADBEEF else Pattern))] m))"

definition rotl16 :: "u16 \<Rightarrow> u16" where
  "rotl16 v = ucast (RotateLeft (ucast v) 16)"

definition rotl16_zero :: "u16 \<Rightarrow> u16" where
  "rotl16_zero v = NOT (ucast (RotateLeft (NOT (ucast v)) 16))"

definition Xil_TestMem16 :: "'m memory \<Rightarrow> u64 \<Rightarrow> u32 \<Rightarrow> u16 \<Rightarrow> u8 \<Rightarrow> 'm \<Rightarrow> (int \<times> 'm) option" where
  "Xil_TestMem16 M Addr Words Pattern Subtest m =
     (if Words = 0 \<or> Subtest > XIL_TESTMEM_MAXTEST \<or> Addr = 0 then None
      else
        let fc = fill_check (load16 M) (store16 M) 2; n = unat Words
        in Some (run_tests
          [selected Subtest XIL_TESTMEM_INCREMENT (fc (\<lambda>v. v + 1) n Addr 1),
           selected Subtest XIL_TESTMEM_WALKONES
             (run_tests (map (\<lambda>j. fc rotl16 16 Addr (ucast (push_bit j (1 :: u32)))) [0..<16])),
           selected Subtest XIL_TESTMEM_WALKZEROS
             (run_tests (map (\<lambda>j. fc rotl16_zero 16 Addr (ucast (NOT (push_bit j (1 :: u32))))) [0..<16])),
           selected Subtest XIL_TESTMEM_INVERSEADDR
             (\<lambda>m. check_addr (load16 M) 2 (\<lambda>a. ucast (NOT a)) n Addr
                    (fill_addr (store16 M) 2 (\<lambda>a. ucast (NOT a)) n Addr m)),
           selected Subtest XIL_TESTMEM_FIXEDPATTERN
             (fc (\<lambda>v. v) n Addr (if Pattern = 0 then 0xDEAD else Pattern))] m))"

definition rotl8 :: "u8 \<Rightarrow> u8" where
  "rotl8 v = ucast (RotateLeft (ucast v) 8)"

definition rotl8_zero :: "u8 \<Rightarrow> u8" where
  "rotl8_zero v = NOT (ucast (RotateLeft (NOT (ucast v)) 8))"

definition Xil_TestMem8 :: "'m memory \<Rightarrow> u64 \<Rightarrow> u32 \<Rightarrow> u8 \<Rightarrow> u8 \<Rightarrow> 'm \<Rightarrow> (int \<times> 'm) option" where
  "Xil_TestMem8 M Addr Words Pattern Subtest m =
     (if Words = 0 \<or> Subtest > XIL_TESTMEM_MAXTEST \<or> Addr = 0 then None
      else
        let fc = fill_check (load8 M) (store8 M) 1; n = unat Words
        in Some (run_tests
          [selected Subtest XIL_TESTMEM_INCREMENT (fc (\<lambda>v. v + 1) n Addr 1),
           selected Subtest XIL_TESTMEM_WALKONES
             (run_tests (map (\<lambda>j. fc rotl8 8 Addr (ucast (push_bit j (1 :: u32)))) [0..<8])),
           selected Subtest XIL_TESTMEM_WALKZEROS
             (run_tests (map (\<lambda>j. fc rotl8_zero 8 Addr (ucast (NOT (push_bit j (1 :: u32))))) [0..<8])),
           selected Subtest XIL_TESTMEM_INVERSEADDR
             (\<lambda>m. check_addr (load8 M) 1 (\<lambda>a. ucast (NOT a)) n Addr
                    (fill_addr (store8 M) 1 (\<lambda>a. ucast (NOT a)) n Addr m)),
           selected Subtest XIL_TESTMEM_FIXEDPATTERN
             (fc (\<lambda>v. v) n Addr (if Pattern = 0 then 0xA5 else Pattern))] m))"

section \<open>The board's memory test\<close>

record memory_range =
  range_name :: string
  range_ip :: string
  range_base :: u64
  range_size :: u64

definition memory_ranges :: "memory_range list" where
  "memory_ranges =
    [\<lparr>range_name = ''ddr4_ddr4_0_C0_DDR4_ADDRESS_BLOCK'', range_ip = ''ddr4_ddr4_0'',
      range_base = 0x400000000, range_size = 2147483648\<rparr>,
     \<lparr>range_name = ''ddr4_ddr4_1_C0_DDR4_ADDRESS_BLOCK'', range_ip = ''ddr4_ddr4_1'',
      range_base = 0x480000000, range_size = 2147483648\<rparr>,
     \<lparr>range_name = ''psu_ddr_0_MEM_0'', range_ip = ''psu_ddr_0'',
      range_base = 0x40000000, range_size = 1073741824\<rparr>]"

definition TEST_WORDS :: u32 where "TEST_WORDS = 32 * 1024 * 1024"

definition test_memory_range :: "'m memory \<Rightarrow> memory_range \<Rightarrow> 'm \<Rightarrow> (int \<times> 'm) option" where
  "test_memory_range M r m =
     (case Xil_TestMem32 M (range_base r) (ucast (range_size r div 4)) 0xAAAA5555
             XIL_TESTMEM_WALKONES m of
        None \<Rightarrow> None
      | Some (status, m) \<Rightarrow>
          if status \<noteq> XST_SUCCESS then Some (status, m)
          else Xil_TestMem16 M (range_base r) (TEST_WORDS div 2) 0xAA55 XIL_TESTMEM_INCREMENT m)"

text \<open>The loop of \<open>memtest\<close> over the ranges, with the status of the last one tested.\<close>

fun memtest_loop :: "'m memory \<Rightarrow> memory_range list \<Rightarrow> int \<Rightarrow> 'm \<Rightarrow> (int \<times> 'm) option" where
  "memtest_loop M [] status m = Some (status, m)"
| "memtest_loop M (r # rs) _ m =
     (case test_memory_range M r m of
        None \<Rightarrow> None
      | Some (status, m) \<Rightarrow>
          if status \<noteq> XST_SUCCESS then Some (status, m) else memtest_loop M rs status m)"

definition memtest :: "'m memory \<Rightarrow> 'm \<Rightarrow> (int \<times> 'm) option" where
  "memtest M m = memtest_loop M memory_ranges 0 m"

section \<open>Rotation is rotation\<close>

lemma RotateLeft_bits:
  assumes "unat width = k" "0 < k" "k \<le> 32"
  shows "bit (RotateLeft w width) n \<longleftrightarrow> n < k \<and> (if n = 0 then bit w (k - 1) else bit w (n - 1))"
proof -
  have w1: "unat (width - 1) = k - 1"
    using assms by (subst unat_sub) (simp_all add: word_le_nat_alt)
  have m: "push_bit 1 (push_bit (k - 1) 1) - 1 = (mask k :: u32)"
    using assms(2) by (cases k) (simp_all add: mask_eq_exp_minus_1 push_bit_push_bit)
  define li where "li = w AND mask k"
  have li: "bit li i \<longleftrightarrow> bit w i \<and> i < k" for i
    by (auto simp: li_def bit_and_iff bit_mask_iff dest: bit_imp_le_length)
  define sh where "sh = push_bit 1 li"
  have sh: "bit sh i \<longleftrightarrow> 0 < i \<and> i < 32 \<and> bit li (i - 1)" for i
    by (auto simp only: sh_def bit_push_bit_iff possible_bit_word) simp_all
  have msb: "li AND push_bit (k - 1) 1 \<noteq> 0 \<longleftrightarrow> bit li (k - 1)"
    by (simp add: and_exp_iff_bit)
  have "RotateLeft w width = (if bit li (k - 1) then sh OR 1 else sh) AND mask k"
    unfolding RotateLeft_def Let_def w1 m li_def [symmetric] msb sh_def [symmetric] ..
  then show ?thesis
    using assms(2,3) by (auto simp: bit_and_iff bit_or_iff bit_mask_iff bit_1_iff sh li)
qed

lemma bit_word_rotl_1:
  "bit (word_rotl (Suc 0) (w :: 'a::len word)) n \<longleftrightarrow>
   n < LENGTH('a) \<and> (if n = 0 then bit w (LENGTH('a) - 1) else bit w (n - 1))"
proof (cases "n < LENGTH('a)")
  case True
  define l where "l = LENGTH('a)"
  have l: "0 < l" "n < l" using True by (simp_all add: l_def)
  have "(n + (l - Suc 0 mod l)) mod l = (if n = 0 then l - 1 else n - 1)"
  proof (cases "n = 0")
    case True
    then show ?thesis using l by (cases "l = 1") simp_all
  next
    case False
    then have eq: "(n + (l - Suc 0 mod l)) = n - 1 + l" using l by (cases "l = 1") simp_all
    have "(n - 1 + l) mod l = n - 1" using l by (simp only: mod_add_self2) simp
    then show ?thesis using False by (simp only: eq if_False)
  qed
  then show ?thesis using True by (simp add: bit_word_rotl_iff flip: l_def)
qed (auto dest: bit_imp_le_length)

text \<open>
  The library's \<open>RotateLeft\<close>, written with masks for the three widths, is the rotation
  of a word by one bit.
\<close>

lemma RotateLeft_is_rotation:
  "RotateLeft w 32 = word_rotl 1 w \<and>
   rotl16 x = word_rotl 1 x \<and> rotl16_zero x = word_rotl 1 x \<and>
   rotl8 y = word_rotl 1 y \<and> rotl8_zero y = word_rotl 1 y"
proof (intro conjI)
  have b: "unat (32 :: u8) = 32" "unat (16 :: u8) = 16" "unat (8 :: u8) = 8" by simp_all
  note r = RotateLeft_bits [OF b(1)] RotateLeft_bits [OF b(2)] RotateLeft_bits [OF b(3)]
  show "RotateLeft w 32 = word_rotl 1 w"
    by (rule bit_word_eqI) (simp add: r bit_word_rotl_1)
  show "rotl16 x = word_rotl 1 x" "rotl16_zero x = word_rotl 1 x"
    by (rule bit_word_eqI, auto simp: r bit_word_rotl_1 rotl16_def rotl16_zero_def bit_not_iff bit_ucast_iff)+
  show "rotl8 y = word_rotl 1 y" "rotl8_zero y = word_rotl 1 y"
    by (rule bit_word_eqI, auto simp: r bit_word_rotl_1 rotl8_def rotl8_zero_def bit_not_iff bit_ucast_iff)+
qed

section \<open>A passed test\<close>

lemma check_loop_passed:
  "check_loop ld sz step n a v m = (0, m') \<Longrightarrow> i < n \<Longrightarrow>
   \<exists>m1. fst (ld (a + of_nat i * sz) m1) = (step ^^ i) v"
proof (induction n arbitrary: a v m i)
  case (Suc n)
  obtain w m1 where l: "ld a m = (w, m1)" by force
  have w: "w = v" "check_loop ld sz step n (a + sz) (step v) m1 = (0, m')"
    using Suc.prems(1) by (auto simp: l split: if_splits)
  show ?case
  proof (cases i)
    case 0
    then show ?thesis using l w(1) by (auto intro!: exI [of _ m])
  next
    case (Suc j)
    then show ?thesis using Suc.IH [OF w(2), of j] Suc.prems(2)
      by (simp add: funpow_swap1 algebra_simps)
  qed
qed simp

lemma run_tests_passed:
  "run_tests ts m = (0, m') \<Longrightarrow> t \<in> set ts \<Longrightarrow> \<exists>m1 m2. t m1 = (0, m2)"
  by (induction ts arbitrary: m) (auto split: prod.splits if_splits)

lemma selected_passed:
  "selected t t test m = (0, m') \<Longrightarrow> test m = (0, m')"
  by (simp add: selected_def)

lemma rotate_exp:
  assumes "p < 32"
  shows "RotateLeft (2 ^ p) 32 = (2 ^ (Suc p mod 32) :: u32)"
proof (rule bit_word_eqI)
  fix n assume "n < LENGTH(32)"
  moreover have "bit (RotateLeft (2 ^ p) 32) n \<longleftrightarrow>
      n < 32 \<and> (if n = 0 then bit (2 ^ p :: u32) 31 else bit (2 ^ p :: u32) (n - 1))"
    using RotateLeft_bits [of 32 32 "2 ^ p" n] by simp
  moreover have "Suc p mod 32 = (if p = 31 then 0 else Suc p)" using assms by auto
  ultimately show "bit (RotateLeft (2 ^ p) 32) n = bit (2 ^ (Suc p mod 32) :: u32) n"
    using assms by (auto simp: bit_exp_iff)
qed

lemma rotate_power:
  assumes "j < 32"
  shows "((\<lambda>v. RotateLeft v 32) ^^ i) (push_bit j 1) = push_bit ((i + j) mod 32) (1 :: u32)"
proof (induction i)
  case (Suc i)
  have "(i + j) mod 32 < 32" by simp
  from rotate_exp [OF this] Suc show ?case by (simp add: mod_simps)
qed (use assms in simp)

lemma increment_power: "((\<lambda>v. v + 1) ^^ i) (v :: 'a::len word) = v + of_nat i"
  by (induction i) (simp_all add: algebra_simps)

text \<open>What a passed test of one region says of its memory.\<close>

definition region_reads :: "'m memory \<Rightarrow> memory_range \<Rightarrow> bool" where
  "region_reads M r \<longleftrightarrow>
     (\<forall>i < 32. \<forall>j < 32. \<exists>m. fst (load32 M (range_base r + of_nat i * 4) m) = push_bit ((i + j) mod 32) 1) \<and>
     (\<forall>i < 0x1000000. \<exists>m. fst (load16 M (range_base r + of_nat i * 2) m) = of_nat (i + 1))"

lemma guarded_tests_passed:
  "(if c then None else Some (run_tests ts m)) = Some (0, m') \<Longrightarrow> t \<in> set ts \<Longrightarrow> \<exists>m1 m2. t m1 = (0, m2)"
  by (auto split: if_splits dest: run_tests_passed)

lemma TestMem32_walkones_passed:
  assumes "Xil_TestMem32 M a ws p XIL_TESTMEM_WALKONES m = Some (0, m')" and "j < 32"
  shows "\<exists>m1 m2. fill_check (load32 M) (store32 M) 4 (\<lambda>v. RotateLeft v 32) 32 a (push_bit j 1) m1 = (0, m2)"
proof -
  let ?f = "\<lambda>j. fill_check (load32 M) (store32 M) 4 (\<lambda>v. RotateLeft v 32) 32 a (push_bit j 1)"
  have "\<exists>m1 m2. selected XIL_TESTMEM_WALKONES XIL_TESTMEM_WALKONES (run_tests (map ?f [0..<32])) m1 = (0, m2)"
    by (rule guarded_tests_passed [OF assms(1) [unfolded Xil_TestMem32_def Let_def]])
       (simp only: list.set, blast)
  then obtain m1 m2 where "run_tests (map ?f [0..<32]) m1 = (0, m2)" by (elim exE) (drule selected_passed, blast)
  moreover have "?f j \<in> set (map ?f [0..<32])"
    unfolding set_map set_upt by (rule image_eqI [where x = j], rule refl) (use assms(2) in simp)
  ultimately show ?thesis by (rule run_tests_passed)
qed

lemma TestMem16_increment_passed:
  assumes "Xil_TestMem16 M a ws p XIL_TESTMEM_INCREMENT m = Some (0, m')"
  shows "\<exists>m1 m2. fill_check (load16 M) (store16 M) 2 (\<lambda>v. v + 1) (unat ws) a 1 m1 = (0, m2)"
proof -
  have "\<exists>m1 m2. selected XIL_TESTMEM_INCREMENT XIL_TESTMEM_INCREMENT
      (fill_check (load16 M) (store16 M) 2 (\<lambda>v. v + 1) (unat ws) a 1) m1 = (0, m2)"
    by (rule guarded_tests_passed [OF assms [unfolded Xil_TestMem16_def Let_def]])
       (simp only: list.set, blast)
  then show ?thesis by (elim exE) (intro exI, erule selected_passed)
qed

lemma unat_TEST_WORDS: "unat (TEST_WORDS div 2) = 0x1000000"
  by (simp add: TEST_WORDS_def unat_div)

lemma test_memory_range_reads:
  assumes "test_memory_range M r m = Some (XST_SUCCESS, m')"
  shows "region_reads M r"
proof -
  obtain m1 where t32: "Xil_TestMem32 M (range_base r) (ucast (range_size r div 4)) 0xAAAA5555
      XIL_TESTMEM_WALKONES m = Some (0, m1)"
    and t16: "Xil_TestMem16 M (range_base r) (TEST_WORDS div 2) 0xAA55 XIL_TESTMEM_INCREMENT m1 = Some (0, m')"
    using assms by (auto simp: test_memory_range_def XST_SUCCESS_def split: option.splits if_splits)
  show ?thesis unfolding region_reads_def
  proof (intro conjI allI impI)
    fix i j :: nat assume ij: "i < 32" "j < 32"
    obtain m3 m4 where "fill_check (load32 M) (store32 M) 4 (\<lambda>v. RotateLeft v 32) 32 (range_base r)
        (push_bit j 1) m3 = (0, m4)"
      using TestMem32_walkones_passed [OF t32 ij(2)] by blast
    from check_loop_passed [OF this [unfolded fill_check_def] ij(1)]
    show "\<exists>m. fst (load32 M (range_base r + of_nat i * 4) m) = push_bit ((i + j) mod 32) 1"
      by (simp only: rotate_power [OF ij(2)])
  next
    fix i :: nat assume i: "i < 0x1000000"
    obtain m3 m4 where "fill_check (load16 M) (store16 M) 2 (\<lambda>v. v + 1) 0x1000000 (range_base r) 1 m3 = (0, m4)"
      using TestMem16_increment_passed [OF t16] unfolding unat_TEST_WORDS by blast
    from check_loop_passed [OF this [unfolded fill_check_def] i]
    show "\<exists>m. fst (load16 M (range_base r + of_nat i * 2) m) = of_nat (i + 1)"
      by (simp add: increment_power add.commute)
  qed
qed

lemma memtest_loop_passed:
  "memtest_loop M rs s m = Some (XST_SUCCESS, m') \<Longrightarrow> r \<in> set rs \<Longrightarrow> region_reads M r"
  by (induction rs arbitrary: s m)
     (auto split: option.splits prod.splits if_splits dest: test_memory_range_reads)

text \<open>
  C5: If the memory test of the board reports success then, in every range of the
  configuration table, each of the first 32 words was read with every one of the 32
  walking-one patterns, and each of the first 2^24 halfwords (32 MB) with its number.
\<close>

theorem memtest_sound:
  assumes "memtest M m = Some (XST_SUCCESS, m')" and "r \<in> set memory_ranges"
  shows "(\<forall>i < 32. \<forall>j < 32. \<exists>m. fst (load32 M (range_base r + of_nat i * 4) m) = push_bit ((i + j) mod 32) 1) \<and>
         (\<forall>i < 0x1000000. \<exists>m. fst (load16 M (range_base r + of_nat i * 2) m) = of_nat (i + 1))"
  using memtest_loop_passed [OF assms [unfolded memtest_def]] unfolding region_reads_def .

text \<open>A data bit that always reads the same.\<close>

definition stuck :: "'m memory \<Rightarrow> u64 \<Rightarrow> nat \<Rightarrow> bool \<Rightarrow> bool" where
  "stuck M a k b \<longleftrightarrow> (\<forall>m. bit (fst (load32 M a m)) k = b)"

lemma stuck_region:
  assumes "i < 32" "k < 32" "stuck M (range_base r + of_nat i * 4) k b"
  shows "\<not> region_reads M r"
proof
  assume r: "region_reads M r"
  have reads: "\<exists>m. fst (load32 M (range_base r + of_nat i * 4) m) = push_bit ((i + j) mod 32) 1"
    if "j < 32" for j
    using r assms(1) that unfolding region_reads_def by blast
  define j where "j = (if b then (k + 33 - i) mod 32 else (k + 32 - i) mod 32)"
  have "j < 32" by (simp add: j_def)
  from reads [OF this] obtain m where
    m: "fst (load32 M (range_base r + of_nat i * 4) m) = push_bit ((i + j) mod 32) 1" ..
  have "(i + j) mod 32 = (if b then (k + 33) mod 32 else (k + 32) mod 32)"
    using assms(1) by (simp add: j_def mod_simps)
  moreover have "(k + 33) mod 32 = Suc k mod 32" using mod_add_self2 [of "Suc k" 32] by (simp add: add.commute)
  moreover have "Suc k mod 32 \<noteq> k" using assms(2) by (cases "k = 31") simp_all
  ultimately have "(i + j) mod 32 = k \<longleftrightarrow> \<not> b" using assms(2) by simp
  moreover have "bit (push_bit ((i + j) mod 32) 1 :: u32) k \<longleftrightarrow> (i + j) mod 32 = k"
    using assms(2) by (auto simp: bit_exp_iff)
  ultimately show False using assms(3) m unfolding stuck_def by metis
qed

text \<open>
  C6: A data bit that is stuck at 0 or at 1 in one of the first 32 words of one of the three
  memories makes the memory test fail.
\<close>

theorem memtest_detects_stuck_bit:
  assumes "r \<in> set memory_ranges" "i < 32" "k < 32" "stuck M (range_base r + of_nat i * 4) k b"
  shows "memtest M m \<noteq> Some (XST_SUCCESS, m')"
proof
  assume "memtest M m = Some (XST_SUCCESS, m')"
  then have "region_reads M r" unfolding memtest_def by (rule memtest_loop_passed) (rule assms(1))
  then show False using stuck_region [OF assms(2-4)] by contradiction
qed

section \<open>The test of a working memory\<close>

text \<open>What a working memory promises for the cells \<open>A\<close>.\<close>

locale ram =
  fixes ld :: "u64 \<Rightarrow> 'm \<Rightarrow> 'w \<times> 'm" and st :: "u64 \<Rightarrow> 'w \<Rightarrow> 'm \<Rightarrow> 'm" and A :: "u64 set"
  assumes load_pure: "a \<in> A \<Longrightarrow> snd (ld a m) = m"
    and load_store: "a \<in> A \<Longrightarrow> b \<in> A \<Longrightarrow> fst (ld a (st b v m)) = (if a = b then v else fst (ld a m))"
begin

lemma load_eq: "a \<in> A \<Longrightarrow> ld a m = (fst (ld a m), m)"
  using load_pure [of a m] by (cases "ld a m") simp

lemma fill_loop_other:
  "x \<in> A \<Longrightarrow> (\<And>i. i < n \<Longrightarrow> a + of_nat i * sz \<in> A \<and> a + of_nat i * sz \<noteq> x) \<Longrightarrow>
   fst (ld x (fill_loop st sz step n a v m)) = fst (ld x m)"
proof (induction n arbitrary: a v m)
  case (Suc n)
  have "a + sz + of_nat i * sz \<in> A \<and> a + sz + of_nat i * sz \<noteq> x" if "i < n" for i
    using Suc.prems(2) [of "Suc i"] that by (simp add: algebra_simps)
  from Suc.IH [OF Suc.prems(1) this] have
    "fst (ld x (fill_loop st sz step (Suc n) a v m)) = fst (ld x (st a v m))" by simp
  moreover have "a \<in> A" "a \<noteq> x" using Suc.prems(2) [of 0] by simp_all
  ultimately show ?case using Suc.prems(1) by (simp add: load_store)
qed simp

lemma check_loop_passes:
  "(\<And>i. i < n \<Longrightarrow> a + of_nat i * sz \<in> A \<and> fst (ld (a + of_nat i * sz) m) = (step ^^ i) v) \<Longrightarrow>
   check_loop ld sz step n a v m = (0, m)"
proof (induction n arbitrary: a v)
  case (Suc n)
  have "a + sz + of_nat i * sz \<in> A \<and> fst (ld (a + sz + of_nat i * sz) m) = (step ^^ i) (step v)"
    if "i < n" for i
    using Suc.prems [of "Suc i"] that by (simp add: algebra_simps funpow_swap1)
  note IH = Suc.IH [OF this]
  have "a \<in> A" "fst (ld a m) = v" using Suc.prems [of 0] by simp_all
  then have "ld a m = (v, m)" using load_eq [of a m] by simp
  then show ?case by (simp add: IH)
qed simp

lemma fill_loop_reads:
  assumes "i < n" "\<And>i. i < n \<Longrightarrow> a + of_nat i * sz \<in> A"
    and "\<And>i j. i < j \<Longrightarrow> j < n \<Longrightarrow> a + of_nat i * sz \<noteq> a + of_nat j * sz"
  shows "fst (ld (a + of_nat i * sz) (fill_loop st sz step n a v m)) = (step ^^ i) v"
  using assms
proof (induction n arbitrary: a v m i)
  case (Suc n)
  have cells: "a + sz + of_nat k * sz \<in> A" if "k < n" for k
    using Suc.prems(2) [of "Suc k"] that by (simp add: algebra_simps)
  show ?case
  proof (cases i)
    case 0
    have "a + sz + of_nat k * sz \<noteq> a" if "k < n" for k
      using Suc.prems(3) [of 0 "Suc k"] that by (simp add: algebra_simps)
    then show ?thesis using 0 cells Suc.prems(2) [of 0] by (simp add: fill_loop_other load_store)
  next
    case (Suc k)
    have "a + sz + of_nat i' * sz \<noteq> a + sz + of_nat j' * sz" if "i' < j'" "j' < n" for i' j'
      using Suc.prems(3) [of "Suc i'" "Suc j'"] that by (simp add: algebra_simps)
    from Suc.IH [of k "a + sz", OF _ cells this] Suc Suc.prems(1) show ?thesis
      by (simp add: algebra_simps funpow_swap1)
  qed
qed simp

lemma fill_addr_other:
  "x \<in> A \<Longrightarrow> (\<And>i. i < n \<Longrightarrow> a + of_nat i * sz \<in> A \<and> a + of_nat i * sz \<noteq> x) \<Longrightarrow>
   fst (ld x (fill_addr st sz val n a m)) = fst (ld x m)"
proof (induction n arbitrary: a m)
  case (Suc n)
  have "a + sz + of_nat i * sz \<in> A \<and> a + sz + of_nat i * sz \<noteq> x" if "i < n" for i
    using Suc.prems(2) [of "Suc i"] that by (simp add: algebra_simps)
  from Suc.IH [OF Suc.prems(1) this] have
    "fst (ld x (fill_addr st sz val (Suc n) a m)) = fst (ld x (st a (val a) m))" by simp
  moreover have "a \<in> A" "a \<noteq> x" using Suc.prems(2) [of 0] by simp_all
  ultimately show ?case using Suc.prems(1) by (simp add: load_store)
qed simp

lemma check_addr_passes:
  "(\<And>i. i < n \<Longrightarrow> a + of_nat i * sz \<in> A \<and> fst (ld (a + of_nat i * sz) m) = val (a + of_nat i * sz)) \<Longrightarrow>
   check_addr ld sz val n a m = (0, m)"
proof (induction n arbitrary: a)
  case (Suc n)
  have "a + sz + of_nat i * sz \<in> A \<and> fst (ld (a + sz + of_nat i * sz) m) = val (a + sz + of_nat i * sz)"
    if "i < n" for i
    using Suc.prems [of "Suc i"] that by (simp add: algebra_simps)
  note IH = Suc.IH [OF this]
  have "a \<in> A" "fst (ld a m) = val a" using Suc.prems [of 0] by simp_all
  then have "ld a m = (val a, m)" using load_eq [of a m] by simp
  then show ?case by (simp add: IH)
qed simp

lemma fill_addr_reads:
  assumes "i < n" "\<And>i. i < n \<Longrightarrow> a + of_nat i * sz \<in> A"
    and "\<And>i j. i < j \<Longrightarrow> j < n \<Longrightarrow> a + of_nat i * sz \<noteq> a + of_nat j * sz"
  shows "fst (ld (a + of_nat i * sz) (fill_addr st sz val n a m)) = val (a + of_nat i * sz)"
  using assms
proof (induction n arbitrary: a m i)
  case (Suc n)
  have cells: "a + sz + of_nat k * sz \<in> A" if "k < n" for k
    using Suc.prems(2) [of "Suc k"] that by (simp add: algebra_simps)
  show ?case
  proof (cases i)
    case 0
    have "a + sz + of_nat k * sz \<noteq> a" if "k < n" for k
      using Suc.prems(3) [of 0 "Suc k"] that by (simp add: algebra_simps)
    then show ?thesis using 0 cells Suc.prems(2) [of 0] by (simp add: fill_addr_other load_store)
  next
    case (Suc k)
    have "a + sz + of_nat i' * sz \<noteq> a + sz + of_nat j' * sz" if "i' < j'" "j' < n" for i' j'
      using Suc.prems(3) [of "Suc i'" "Suc j'"] that by (simp add: algebra_simps)
    from Suc.IH [of k "a + sz", OF _ cells this] Suc Suc.prems(1) show ?thesis
      by (simp add: algebra_simps)
  qed
qed simp

lemma fill_check_passes:
  assumes "\<And>i. i < n \<Longrightarrow> a + of_nat i * sz \<in> A"
    and "\<And>i j. i < j \<Longrightarrow> j < n \<Longrightarrow> a + of_nat i * sz \<noteq> a + of_nat j * sz"
  shows "\<exists>m'. fill_check ld st sz step n a v m = (0, m')"
proof -
  let ?m = "fill_loop st sz step n a v m"
  have "a + of_nat i * sz \<in> A \<and> fst (ld (a + of_nat i * sz) ?m) = (step ^^ i) v" if "i < n" for i
    using assms(1) [OF that] fill_loop_reads [OF that assms] by simp
  then have "check_loop ld sz step n a v ?m = (0, ?m)" by (rule check_loop_passes)
  then show ?thesis unfolding fill_check_def by (rule exI)
qed

lemma inverse_address_passes:
  assumes "\<And>i. i < n \<Longrightarrow> a + of_nat i * sz \<in> A"
    and "\<And>i j. i < j \<Longrightarrow> j < n \<Longrightarrow> a + of_nat i * sz \<noteq> a + of_nat j * sz"
  shows "\<exists>m'. check_addr ld sz val n a (fill_addr st sz val n a m) = (0, m')"
proof -
  let ?m = "fill_addr st sz val n a m"
  have "a + of_nat i * sz \<in> A \<and> fst (ld (a + of_nat i * sz) ?m) = val (a + of_nat i * sz)" if "i < n" for i
    using assms(1) [OF that] fill_addr_reads [OF that assms] by simp
  then have "check_addr ld sz val n a ?m = (0, ?m)" by (rule check_addr_passes)
  then show ?thesis by (rule exI)
qed

end

lemma run_tests_Nil_pass: "\<exists>m'. run_tests [] m = (0, m')"
  by simp

lemma run_tests_Cons_pass:
  assumes "\<And>m. \<exists>m'. t m = (0, m')" "\<And>m. \<exists>m'. run_tests ts m = (0, m')"
  shows "\<exists>m'. run_tests (t # ts) m = (0, m')"
proof -
  obtain m1 where "t m = (0, m1)" using assms(1) by blast
  then show ?thesis using assms(2) [of m1] by simp
qed

lemma run_tests_pass: "(\<And>t m. t \<in> set ts \<Longrightarrow> \<exists>m'. t m = (0, m')) \<Longrightarrow> \<exists>m'. run_tests ts m = (0, m')"
proof (induction ts arbitrary: m)
  case (Cons t ts)
  show ?case by (rule run_tests_Cons_pass) (use Cons in \<open>simp_all del: run_tests.simps\<close>)
qed simp

lemma selected_pass:
  "(S = XIL_TESTMEM_ALLMEMTESTS \<or> S = t \<Longrightarrow> \<exists>m'. test m = (0, m')) \<Longrightarrow> \<exists>m'. selected S t test m = (0, m')"
  by (auto simp: selected_def)

text \<open>The number of cells that a subtest uses: the walking tests use as many as a cell has bits.\<close>

definition footprint :: "u8 \<Rightarrow> nat \<Rightarrow> nat \<Rightarrow> nat" where
  "footprint S bits n =
     (if S = XIL_TESTMEM_ALLMEMTESTS then max bits n
      else if S = XIL_TESTMEM_WALKONES \<or> S = XIL_TESTMEM_WALKZEROS then bits else n)"

definition window :: "u64 \<Rightarrow> u64 \<Rightarrow> nat \<Rightarrow> u64 set" where
  "window a sz n = (\<lambda>i. a + of_nat i * sz) ` {..<n}"

text \<open>No two of the first \<open>n\<close> cells of \<open>sz\<close> bytes have the same address.\<close>

lemma cells_distinct:
  assumes "i < j" "j < n" "n * unat sz \<le> 2 ^ 64" "sz \<noteq> (0 :: u64)"
  shows "a + of_nat i * sz \<noteq> a + of_nat j * sz"
proof -
  have pos: "0 < unat sz" using assms(4) by (simp add: unat_gt_0)
  have u: "unat (of_nat k * sz) = k * unat sz" if "k < n" for k
  proof -
    have "k * unat sz < n * unat sz" using that pos by simp
    then have lt: "k * unat sz < 2 ^ 64" using assms(3) by (rule less_le_trans)
    have "of_nat k * sz = of_nat (k * unat sz)" by simp
    moreover have "unat (of_nat (k * unat sz) :: u64) = k * unat sz mod 2 ^ 64"
      by (simp only: unat_of_nat) simp
    ultimately show ?thesis using lt by (simp only: mod_less)
  qed
  have "i * unat sz \<noteq> j * unat sz" using assms(1) pos by simp
  then show ?thesis using u [of i] u [of j] assms(1,2) by auto
qed

text \<open>The suite of one width, on a working memory.\<close>

lemma suite_passes:
  assumes "ram ld st A" and w: "window a sz (footprint S bits n) \<subseteq> A"
    and fit: "footprint S bits n * unat sz \<le> 2 ^ 64" "sz \<noteq> 0"
  shows "\<exists>m'. run_tests
    [selected S XIL_TESTMEM_INCREMENT (fill_check ld st sz f1 n a v1),
     selected S XIL_TESTMEM_WALKONES (run_tests (map (\<lambda>j. fill_check ld st sz f2 bits a (v2 j)) js)),
     selected S XIL_TESTMEM_WALKZEROS (run_tests (map (\<lambda>j. fill_check ld st sz f3 bits a (v3 j)) js)),
     selected S XIL_TESTMEM_INVERSEADDR (\<lambda>m. check_addr ld sz g n a (fill_addr st sz g n a m)),
     selected S XIL_TESTMEM_FIXEDPATTERN (fill_check ld st sz f4 n a v4)] m = (0, m')"
proof -
  have cell: "a + of_nat i * sz \<in> A" if "i < k" "k \<le> footprint S bits n" for i k
    using w that unfolding window_def by fastforce
  have dist: "a + of_nat i * sz \<noteq> a + of_nat j * sz" if "i < j" "j < k" "k \<le> footprint S bits n" for i j k
    using cells_distinct [OF that(1) _ fit, of a] that by simp
  have small: "\<exists>m'. fill_check ld st sz f k a v m = (0, m')" if "k \<le> footprint S bits n" for f k v m
    using ram.fill_check_passes [OF assms(1), of k a sz] cell dist that by blast
  have walk: "\<exists>m'. run_tests (map (\<lambda>j. fill_check ld st sz f bits a (v j)) js) m = (0, m')"
    if "bits \<le> footprint S bits n" for f v m
    by (rule run_tests_pass) (use small [OF that] in auto)
  have addr: "\<exists>m'. check_addr ld sz g n a (fill_addr st sz g n a m) = (0, m')" if "n \<le> footprint S bits n" for m
    using ram.inverse_address_passes [OF assms(1), of n a sz] cell dist that by blast
  show ?thesis
    by (intro run_tests_Cons_pass run_tests_Nil_pass selected_pass small walk addr)
       (auto simp: footprint_def testmem_consts)
qed

lemma footprint_fits:
  "footprint S bits (unat (ws :: u32)) * b \<le> 2 ^ 64" if "bits \<le> 32" "b \<le> 4"
proof -
  have "footprint S bits (unat ws) \<le> 2 ^ 32"
    using unat_u32_less [of ws] that(1) by (auto simp: footprint_def)
  then have "footprint S bits (unat ws) * b \<le> 2 ^ 32 * 4" using that(2) by (rule mult_le_mono)
  also have "\<dots> \<le> (2 :: nat) ^ 64" by simp
  finally show ?thesis .
qed

lemma TestMem_passes:
  assumes "ws \<noteq> 0" "S \<le> XIL_TESTMEM_MAXTEST" "a \<noteq> 0"
  shows TestMem32_passes: "ram (load32 M) (store32 M) A \<Longrightarrow> window a 4 (footprint S 32 (unat ws)) \<subseteq> A \<Longrightarrow>
           \<exists>m'. Xil_TestMem32 M a ws p32 S m = Some (0, m')"
    and TestMem16_passes: "ram (load16 M) (store16 M) A \<Longrightarrow> window a 2 (footprint S 16 (unat ws)) \<subseteq> A \<Longrightarrow>
           \<exists>m'. Xil_TestMem16 M a ws p16 S m = Some (0, m')"
    and TestMem8_passes: "ram (load8 M) (store8 M) A \<Longrightarrow> window a 1 (footprint S 8 (unat ws)) \<subseteq> A \<Longrightarrow>
           \<exists>m'. Xil_TestMem8 M a ws p8 S m = Some (0, m')"
  using assms
  by (simp_all only: Xil_TestMem32_def Xil_TestMem16_def Xil_TestMem8_def Let_def not_less [symmetric]
        simp_thms if_False option.inject)
     ((rule suite_passes, assumption, assumption, rule footprint_fits; simp)+)

section \<open>Memory of bytes\<close>

text \<open>
  A memory whose cells are bytes, little-endian, of which the addresses in \<open>D\<close> are dead:
  a store does not reach them.
\<close>

definition peek :: "nat \<Rightarrow> u64 \<Rightarrow> (u64 \<Rightarrow> u8) \<Rightarrow> u8 list" where
  "peek n a m = map (\<lambda>i. m (a + of_nat i)) [0..<n]"

definition poke :: "u64 set \<Rightarrow> u64 \<Rightarrow> u8 list \<Rightarrow> (u64 \<Rightarrow> u8) \<Rightarrow> u64 \<Rightarrow> u8" where
  "poke D a bs m x = (let i = unat (x - a) in if i < length bs \<and> x \<notin> D then bs ! i else m x)"

definition byte_memory :: "u64 set \<Rightarrow> (u64 \<Rightarrow> u8) memory" where
  "byte_memory D =
    \<lparr>load32 = (\<lambda>a m. (of_le32 (peek 4 a m), m)), store32 = (\<lambda>a v. poke D a (le32 v)),
     load16 = (\<lambda>a m. (of_le16 (peek 2 a m), m)), store16 = (\<lambda>a v. poke D a (le16 v)),
     load8 = (\<lambda>a m. (m a, m)), store8 = (\<lambda>a v. poke D a [v])\<rparr>"

definition aligned :: "nat \<Rightarrow> u64 set \<Rightarrow> u64 set" where
  "aligned k D = {a. take_bit k a = 0 \<and> (\<forall>b. drop_bit k b = drop_bit k a \<longrightarrow> b \<notin> D)}"

lemma drop_bit_cell:
  assumes "take_bit k a = (0 :: u64)" "i < 2 ^ k" "k < 64"
  shows "drop_bit k (a + of_nat i) = drop_bit k a"
proof -
  have b: "bit (of_nat i :: u64) n \<longleftrightarrow> bit i n \<and> n < 64" for n
    by (simp add: bit_of_nat_iff possible_bit_word conj_commute)
  have ik: "\<not> bit i n" if "k \<le> n" for n
    using assms(2) that by (metis bit_take_bit_iff linorder_not_less take_bit_nat_eq_self)
  have ak: "\<not> bit a n" if "n < k" for n
    using assms(1) that by (metis bit_0_eq bit_take_bit_iff bot_apply bot_bool_def)
  have "a + of_nat i = a OR of_nat i"
    by (rule disjunctive_add_eq_or) (rule bit_word_eqI, use ik ak in \<open>auto simp: bit_and_iff b\<close>, meson not_le)
  then show ?thesis by (intro bit_word_eqI) (use ik in \<open>auto simp: bit_drop_bit_eq bit_or_iff b\<close>)
qed

lemma aligned_cell:
  assumes "a \<in> aligned k D" "b \<in> aligned k D" "k < 64" "i < 2 ^ k" "j < 2 ^ k"
  shows "a + of_nat i = b + of_nat j \<longleftrightarrow> a = b \<and> i = j" and "a + of_nat i \<notin> D"
proof -
  have d: "drop_bit k (a + of_nat i) = drop_bit k a" "drop_bit k (b + of_nat j) = drop_bit k b"
    using assms by (simp_all only: aligned_def mem_Collect_eq drop_bit_cell)
  show "a + of_nat i \<notin> D" using d(1) assms(1) by (auto simp only: aligned_def)
  have "a = b" if "drop_bit k a = drop_bit k b"
    using that assms(1,2) bits_ident [of k a] bits_ident [of k b] by (simp only: aligned_def mem_Collect_eq)
  moreover have "i = j" if "(of_nat i :: u64) = of_nat j"
  proof -
    have "(2 :: nat) ^ k < 2 ^ 64" using assms(3) by (intro power_strict_increasing) simp_all
    then have "i < 2 ^ 64" "j < 2 ^ 64" using assms(4,5) by simp_all
    then show ?thesis using that by (simp add: word_of_nat_eq_iff take_bit_nat_eq_self)
  qed
  ultimately show "a + of_nat i = b + of_nat j \<longleftrightarrow> a = b \<and> i = j" using d by fastforce
qed

lemma unat_diff_of_nat: "n < 2 ^ 64 \<Longrightarrow> unat (a + of_nat n - a :: u64) = n"
  by (simp add: unsigned_of_nat take_bit_nat_eq_self)

lemma peek_poke:
  assumes "a \<in> aligned k D" "b \<in> aligned k D" "k < 64" "length bs = 2 ^ k"
  shows "peek (2 ^ k) a (poke D b bs m) = (if a = b then bs else peek (2 ^ k) a m)"
proof (rule nth_equalityI)
  fix i assume "i < length (peek (2 ^ k) a (poke D b bs m))"
  then have i: "i < 2 ^ k" by (simp add: peek_def)
  moreover have "(2 :: nat) ^ k < 2 ^ 64" using assms(3) by (intro power_strict_increasing) simp_all
  ultimately have i64: "i < 2 ^ 64" by simp
  have live: "a + of_nat i \<notin> D" by (rule aligned_cell(2) [OF assms(1,1,3) i i])
  have "unat (a + of_nat i - b) < 2 ^ k \<longleftrightarrow> a = b"
  proof
    assume j: "unat (a + of_nat i - b) < 2 ^ k"
    have "a + of_nat i = b + of_nat (unat (a + of_nat i - b))" by simp
    then show "a = b" using aligned_cell(1) [OF assms(1-3) i j] by blast
  next
    assume "a = b"
    then show "unat (a + of_nat i - b) < 2 ^ k" using unat_diff_of_nat [OF i64] i by simp
  qed
  then have "poke D b bs m (a + of_nat i) = (if a = b then bs ! i else m (a + of_nat i))"
    unfolding poke_def Let_def assms(4) using unat_diff_of_nat [OF i64, of a] live by auto
  then show "peek (2 ^ k) a (poke D b bs m) ! i = (if a = b then bs else peek (2 ^ k) a m) ! i"
    using i by (simp add: peek_def)
qed (simp add: peek_def assms(4))

interpretation ddr32: ram "load32 (byte_memory D)" "store32 (byte_memory D)" "aligned 2 D" for D
  by unfold_locales (simp_all add: byte_memory_def peek_poke [where k = 2, simplified])

interpretation ddr16: ram "load16 (byte_memory D)" "store16 (byte_memory D)" "aligned 1 D" for D
  by unfold_locales (simp_all add: byte_memory_def peek_poke [where k = 1, simplified])

interpretation ddr8: ram "load8 (byte_memory D)" "store8 (byte_memory D)" "- D" for D
  by unfold_locales (auto simp: byte_memory_def poke_def Let_def unsigned_eq_0_iff)

lemma ram_subset: "ram ld st A \<Longrightarrow> B \<subseteq> A \<Longrightarrow> ram ld st B"
  unfolding ram_def by blast

text \<open>The first 32 MB of every range, and everything else.\<close>

definition beyond_window :: "u64 set" where
  "beyond_window = {a. \<forall>r \<in> set memory_ranges. drop_bit 25 a \<noteq> drop_bit 25 (range_base r)}"

lemma range_aligned: "r \<in> set memory_ranges \<Longrightarrow> take_bit 25 (range_base r) = 0 \<and> range_base r \<noteq> 0"
  by (auto simp: memory_ranges_def)

lemma window_live:
  assumes "r \<in> set memory_ranges" "n * 2 ^ k \<le> 2 ^ 25" "k \<le> 25"
  shows "window (range_base r) (2 ^ k) n \<subseteq> aligned k beyond_window"
proof
  fix a assume "a \<in> window (range_base r) (2 ^ k) n"
  then obtain i where i: "i < n" "a = range_base r + of_nat (i * 2 ^ k)" by (auto simp: window_def)
  then have "i * 2 ^ k < n * 2 ^ k" by simp
  then have "i * 2 ^ k < 2 ^ 25" using assms(2) by (rule less_le_trans)
  then have d: "drop_bit 25 a = drop_bit 25 (range_base r)"
    unfolding i(2) using range_aligned [OF assms(1)] by (intro drop_bit_cell) simp_all
  have "b \<notin> beyond_window" if "drop_bit k b = drop_bit k a" for b
  proof -
    have "drop_bit (25 - k) (drop_bit k b) = drop_bit (25 - k) (drop_bit k a)" using that by (rule arg_cong)
    then have "drop_bit 25 b = drop_bit 25 (range_base r)" using assms(3) d by (simp only: drop_bit_drop_bit) simp
    then show ?thesis using assms(1) by (auto simp only: beyond_window_def)
  qed
  moreover have "take_bit k a = 0"
  proof -
    have "take_bit k (range_base r) = take_bit k (take_bit 25 (range_base r))" using assms(3) by (simp add: min_def)
    also have "\<dots> = 0" using range_aligned [OF assms(1)] by simp
    finally have "2 ^ k dvd range_base r" by (simp only: take_bit_eq_0_iff)
    then have "2 ^ k dvd a" unfolding i(2) by (intro dvd_add) simp_all
    then show ?thesis by (simp only: take_bit_eq_0_iff)
  qed
  ultimately show "a \<in> aligned k beyond_window" by (auto simp only: aligned_def)
qed

section \<open>The board's test on working memory\<close>

text \<open>
  On working memory every test of every width passes, and it is enough that the cells
  \<open>Words\<close> asks for work, except that the walking tests use as many cells as a cell has bits
  whatever \<open>Words\<close> says.
\<close>

lemma Xil_TestMem_passes:
  assumes "ws \<noteq> 0" "S \<le> XIL_TESTMEM_MAXTEST" "a \<noteq> 0"
    and "ram (load32 M) (store32 M) (window a 4 (footprint S 32 (unat ws)))"
    and "ram (load16 M) (store16 M) (window a 2 (footprint S 16 (unat ws)))"
    and "ram (load8 M) (store8 M) (window a 1 (footprint S 8 (unat ws)))"
  shows "(\<exists>m'. Xil_TestMem32 M a ws p32 S m = Some (0, m')) \<and>
         (\<exists>m'. Xil_TestMem16 M a ws p16 S m = Some (0, m')) \<and>
         (\<exists>m'. Xil_TestMem8 M a ws p8 S m = Some (0, m'))"
  by (intro conjI TestMem_passes [OF assms(1-3)]) (rule assms(4-6) order_refl)+

lemma test_memory_range_passes:
  assumes "range_base r \<noteq> 0" "ucast (range_size r div 4) \<noteq> (0 :: u32)"
    and "ram (load32 M) (store32 M) (window (range_base r) 4 32)"
    and "ram (load16 M) (store16 M) (window (range_base r) 2 0x1000000)"
  shows "\<exists>m'. test_memory_range M r m = Some (XST_SUCCESS, m')"
proof -
  have "footprint XIL_TESTMEM_WALKONES 32 n = 32" for n by (simp add: footprint_def testmem_consts)
  then obtain m1 where t32: "Xil_TestMem32 M (range_base r) (ucast (range_size r div 4)) 0xAAAA5555
      XIL_TESTMEM_WALKONES m = Some (0, m1)"
    using TestMem32_passes [OF assms(2) _ assms(1,3), of XIL_TESTMEM_WALKONES] by (force simp: testmem_consts)
  have "footprint XIL_TESTMEM_INCREMENT 16 (unat (TEST_WORDS div 2)) = 0x1000000"
    unfolding unat_TEST_WORDS by (simp add: footprint_def testmem_consts)
  moreover have "TEST_WORDS div 2 \<noteq> 0" by (simp add: TEST_WORDS_def)
  ultimately obtain m2 where "Xil_TestMem16 M (range_base r) (TEST_WORDS div 2) 0xAA55
      XIL_TESTMEM_INCREMENT m1 = Some (0, m2)"
    using TestMem16_passes [OF _ _ assms(1,4), of "TEST_WORDS div 2" XIL_TESTMEM_INCREMENT]
    by (force simp: testmem_consts)
  then show ?thesis using t32 by (simp add: test_memory_range_def XST_SUCCESS_def)
qed

lemma memtest_loop_passes:
  assumes "\<And>r. r \<in> set memory_ranges \<Longrightarrow> ram (load32 M) (store32 M) (window (range_base r) 4 32)"
    and "\<And>r. r \<in> set memory_ranges \<Longrightarrow> ram (load16 M) (store16 M) (window (range_base r) 2 0x1000000)"
  shows "set rs \<subseteq> set memory_ranges \<Longrightarrow> \<exists>m'. memtest_loop M rs XST_SUCCESS m = Some (XST_SUCCESS, m')"
proof (induction rs arbitrary: m)
  case (Cons r rs)
  then have r: "r \<in> set memory_ranges" by simp
  then have "ucast (range_size r div 4) \<noteq> (0 :: u32)" by (auto simp: memory_ranges_def)
  then obtain m1 where "test_memory_range M r m = Some (XST_SUCCESS, m1)"
    using test_memory_range_passes [OF _ _ assms(1) [OF r] assms(2) [OF r]] range_aligned [OF r] by blast
  then show ?case using Cons by simp
qed simp

lemma live_windows:
  assumes "r \<in> set memory_ranges"
  shows "ram (load32 (byte_memory beyond_window)) (store32 (byte_memory beyond_window)) (window (range_base r) 4 32)"
    and "ram (load16 (byte_memory beyond_window)) (store16 (byte_memory beyond_window))
           (window (range_base r) 2 0x1000000)"
  using window_live [OF assms, of 32 2] ram_subset [OF ddr32.ram_axioms]
    window_live [OF assms, of "0x1000000" 1] ram_subset [OF ddr16.ram_axioms] by simp_all

text \<open>
  The memory test of the board reports success if in each range the first 32 words and
  the first 32 MB as halfwords work. Nothing is asked of the other cells: the test never
  looks at the remaining 2016 MB of the two large memories and 992 MB of the small one.
\<close>

lemma memtest_passes:
  assumes "\<And>r. r \<in> set memory_ranges \<Longrightarrow> ram (load32 M) (store32 M) (window (range_base r) 4 32)"
    and "\<And>r. r \<in> set memory_ranges \<Longrightarrow> ram (load16 M) (store16 M) (window (range_base r) 2 0x1000000)"
  shows "\<exists>m'. memtest M m = Some (XST_SUCCESS, m')"
  using memtest_loop_passes [OF assms order_refl] unfolding memtest_def XST_SUCCESS_def by blast

text \<open>Everything behind the first 32 MB of each memory is dead, and the test passes.\<close>

theorem memtest_sound_witness:
  "\<exists>m. fst (load16 (byte_memory beyond_window) (0x480000000 + 10) m) = 6"
proof -
  obtain m' where "memtest (byte_memory beyond_window) (\<lambda>_. 0) = Some (XST_SUCCESS, m')"
    using memtest_loop_passes [OF live_windows order_refl] unfolding memtest_def XST_SUCCESS_def by blast
  from memtest_sound [OF this, of "memory_ranges ! 1", THEN conjunct2, rule_format, of 5]
  show ?thesis by (simp add: memory_ranges_def)
qed

theorem memtest_detects_stuck_bit_witness:
  "memtest (byte_memory {}\<lparr>load32 := \<lambda>a m. (0xFFFF7FFF AND fst (load32 (byte_memory {}) a m), m)\<rparr>) (\<lambda>_. 0)
     \<noteq> Some (XST_SUCCESS, \<lambda>_. 0)"
  by (rule memtest_detects_stuck_bit [where r = "memory_ranges ! 2" and i = 7 and k = 15 and b = False])
     (simp_all add: memory_ranges_def stuck_def bit_and_iff)

end
