(* ===== verification/Led.thy ===== *)
theory Led
  imports Prelude
begin

text \<open>
  The LEDs of the board: the AXI GPIO driver (\<open>gpio_v4_3/src/xgpio.c\<close>, \<open>xgpio_extra.c\<close>,
  \<open>xgpio_sinit.c\<close>, \<open>xgpio_g.c\<close>) and \<open>boe_factory_test/src/led.c\<close>. The registers stay the
  \<open>bus\<close> parameter. \<open>None\<close> is a failed assertion of the driver: \<open>Xil_Assert\<close> waits
  forever.
\<close>

section \<open>The GPIO driver\<close>

definition XGPIO_DATA_OFFSET :: u32 where "XGPIO_DATA_OFFSET = 0x0"
definition XGPIO_TRI_OFFSET :: u32 where "XGPIO_TRI_OFFSET = 0x4"
definition XGPIO_CHAN_OFFSET :: u32 where "XGPIO_CHAN_OFFSET = 8"
definition GPIO_IS_READY :: u32 where "GPIO_IS_READY = 0x11111111"
definition XST_DEVICE_NOT_FOUND :: int where "XST_DEVICE_NOT_FOUND = 2"

record XGpio_Config =
  gcfg_DeviceId :: u16
  gcfg_BaseAddress :: u64
  gcfg_InterruptPresent :: int
  gcfg_IsDual :: int

record XGpio =
  gpio_BaseAddress :: u64
  gpio_IsReady :: u32
  gpio_InterruptPresent :: int
  gpio_IsDual :: int

definition XGpio_ConfigTable :: "XGpio_Config list" where
  "XGpio_ConfigTable =
     [\<lparr>gcfg_DeviceId = 0, gcfg_BaseAddress = 0xA0001000, gcfg_InterruptPresent = 0, gcfg_IsDual = 0\<rparr>,
      \<lparr>gcfg_DeviceId = 1, gcfg_BaseAddress = 0xA0002000, gcfg_InterruptPresent = 0, gcfg_IsDual = 0\<rparr>]"

definition XGpio_LookupConfig :: "u16 \<Rightarrow> XGpio_Config option" where
  "XGpio_LookupConfig DeviceId = find (\<lambda>c. gcfg_DeviceId c = DeviceId) XGpio_ConfigTable"

definition XGpio_CfgInitialize :: "XGpio \<Rightarrow> XGpio_Config \<Rightarrow> u64 \<Rightarrow> int \<times> XGpio" where
  "XGpio_CfgInitialize g Config EffectiveAddr =
     (XST_SUCCESS, g\<lparr>gpio_BaseAddress := EffectiveAddr,
        gpio_InterruptPresent := gcfg_InterruptPresent Config,
        gpio_IsDual := gcfg_IsDual Config, gpio_IsReady := GPIO_IS_READY\<rparr>)"

definition XGpio_Initialize :: "XGpio \<Rightarrow> u16 \<Rightarrow> int \<times> XGpio" where
  "XGpio_Initialize g DeviceId =
     (case XGpio_LookupConfig DeviceId of
        None \<Rightarrow> (XST_DEVICE_NOT_FOUND, g\<lparr>gpio_IsReady := 0\<rparr>)
      | Some Config \<Rightarrow> XGpio_CfgInitialize g Config (gcfg_BaseAddress Config))"

text \<open>The assertions at the start of every channel operation, and its register address.\<close>

definition channel_ok :: "XGpio \<Rightarrow> u32 \<Rightarrow> bool" where
  "channel_ok g Channel \<longleftrightarrow>
     gpio_IsReady g = GPIO_IS_READY \<and> (Channel = 1 \<or> Channel = 2 \<and> gpio_IsDual g = 1)"

definition channel_reg :: "XGpio \<Rightarrow> u32 \<Rightarrow> u32 \<Rightarrow> u64" where
  "channel_reg g Channel Offset = gpio_BaseAddress g + ucast ((Channel - 1) * XGPIO_CHAN_OFFSET + Offset)"

definition XGpio_SetDataDirection :: "'h bus \<Rightarrow> XGpio \<Rightarrow> u32 \<Rightarrow> u32 \<Rightarrow> 'h \<Rightarrow> 'h option" where
  "XGpio_SetDataDirection B g Channel DirectionMask h =
     (if channel_ok g Channel
      then Some (out32 B (channel_reg g Channel XGPIO_TRI_OFFSET) DirectionMask h) else None)"

definition XGpio_GetDataDirection :: "'h bus \<Rightarrow> XGpio \<Rightarrow> u32 \<Rightarrow> 'h \<Rightarrow> (u32 \<times> 'h) option" where
  "XGpio_GetDataDirection B g Channel h =
     (if channel_ok g Channel
      then Some (in32 B (channel_reg g Channel XGPIO_TRI_OFFSET) h) else None)"

definition XGpio_DiscreteRead :: "'h bus \<Rightarrow> XGpio \<Rightarrow> u32 \<Rightarrow> 'h \<Rightarrow> (u32 \<times> 'h) option" where
  "XGpio_DiscreteRead B g Channel h =
     (if channel_ok g Channel
      then Some (in32 B (channel_reg g Channel XGPIO_DATA_OFFSET) h) else None)"

definition XGpio_DiscreteWrite :: "'h bus \<Rightarrow> XGpio \<Rightarrow> u32 \<Rightarrow> u32 \<Rightarrow> 'h \<Rightarrow> 'h option" where
  "XGpio_DiscreteWrite B g Channel Data h =
     (if channel_ok g Channel
      then Some (out32 B (channel_reg g Channel XGPIO_DATA_OFFSET) Data h) else None)"

definition XGpio_DiscreteSet :: "'h bus \<Rightarrow> XGpio \<Rightarrow> u32 \<Rightarrow> u32 \<Rightarrow> 'h \<Rightarrow> 'h option" where
  "XGpio_DiscreteSet B g Channel Mask h =
     (if channel_ok g Channel
      then let (Current, h) = in32 B (channel_reg g Channel XGPIO_DATA_OFFSET) h
           in Some (out32 B (channel_reg g Channel XGPIO_DATA_OFFSET) (Current OR Mask) h)
      else None)"

definition XGpio_DiscreteClear :: "'h bus \<Rightarrow> XGpio \<Rightarrow> u32 \<Rightarrow> u32 \<Rightarrow> 'h \<Rightarrow> 'h option" where
  "XGpio_DiscreteClear B g Channel Mask h =
     (if channel_ok g Channel
      then let (Current, h) = in32 B (channel_reg g Channel XGPIO_DATA_OFFSET) h
           in Some (out32 B (channel_reg g Channel XGPIO_DATA_OFFSET) (Current AND NOT Mask) h)
      else None)"

section \<open>The LEDs\<close>

definition LED_ALL :: u8 where "LED_ALL = 0x0F"
definition LED_1 :: u8 where "LED_1 = 0x01"
definition LED_2 :: u8 where "LED_2 = 0x02"
definition LED_3 :: u8 where "LED_3 = 0x04"
definition LED_4 :: u8 where "LED_4 = 0x08"
definition LED_CHANNEL :: u32 where "LED_CHANNEL = 1"
definition GPIO_EXAMPLE_DEVICE_ID :: u16 where "GPIO_EXAMPLE_DEVICE_ID = 0"

lemmas led_consts [model_eval] =
  XGPIO_DATA_OFFSET_def XGPIO_TRI_OFFSET_def XGPIO_CHAN_OFFSET_def GPIO_IS_READY_def
  XST_DEVICE_NOT_FOUND_def LED_ALL_def LED_1_def LED_2_def LED_3_def LED_4_def LED_CHANNEL_def
  GPIO_EXAMPLE_DEVICE_ID_def

definition ledInit :: "'h bus \<Rightarrow> XGpio \<Rightarrow> 'h \<Rightarrow> (int \<times> XGpio \<times> 'h) option" where
  "ledInit B g h =
     (let (Status, g) = XGpio_Initialize g GPIO_EXAMPLE_DEVICE_ID
      in if Status \<noteq> XST_SUCCESS then Some (XST_FAILURE, g, h)
         else Option.bind (XGpio_SetDataDirection B g LED_CHANNEL (NOT (ucast LED_ALL)) h)
                (\<lambda>h. Some (XST_SUCCESS, g, h)))"

definition ledHigh :: "'h bus \<Rightarrow> XGpio \<Rightarrow> u8 \<Rightarrow> 'h \<Rightarrow> (int \<times> 'h) option" where
  "ledHigh B g led h =
     Option.bind (XGpio_DiscreteWrite B g LED_CHANNEL (ucast (led AND 0x0f)) h) (\<lambda>h. Some (XST_SUCCESS, h))"

definition ledLow :: "'h bus \<Rightarrow> XGpio \<Rightarrow> u8 \<Rightarrow> 'h \<Rightarrow> (int \<times> 'h) option" where
  "ledLow B g led h =
     Option.bind (XGpio_DiscreteClear B g LED_CHANNEL (ucast (led AND 0x0f)) h) (\<lambda>h. Some (XST_SUCCESS, h))"

section \<open>The verdict\<close>

text \<open>
  The endless loops of \<open>main.c\<close>: \<open>n\<close> rounds of each. \<open>wait\<close> is \<open>usleep\<close>, in microseconds.
\<close>

definition blink_round ::
    "(nat \<Rightarrow> 'h \<Rightarrow> 'h) \<Rightarrow> nat \<Rightarrow> nat \<Rightarrow> 'h bus \<Rightarrow> XGpio \<Rightarrow> 'h \<Rightarrow> 'h option" where
  "blink_round wait on off B g h =
     Option.bind (ledHigh B g LED_ALL h) (\<lambda>(_, h).
     Option.bind (ledLow B g LED_ALL (wait on h)) (\<lambda>(_, h). Some (wait off h)))"

fun blink ::
    "(nat \<Rightarrow> 'h \<Rightarrow> 'h) \<Rightarrow> nat \<Rightarrow> nat \<Rightarrow> 'h bus \<Rightarrow> XGpio \<Rightarrow> nat \<Rightarrow> 'h \<Rightarrow> 'h option" where
  "blink wait on off B g 0 h = Some h"
| "blink wait on off B g (Suc n) h =
     Option.bind (blink_round wait on off B g h) (blink wait on off B g n)"

definition ledSuccess :: "(nat \<Rightarrow> 'h \<Rightarrow> 'h) \<Rightarrow> 'h bus \<Rightarrow> XGpio \<Rightarrow> nat \<Rightarrow> 'h \<Rightarrow> 'h option" where
  "ledSuccess wait = blink wait 1000000 500000"

definition ledFailed :: "(nat \<Rightarrow> 'h \<Rightarrow> 'h) \<Rightarrow> 'h bus \<Rightarrow> XGpio \<Rightarrow> nat \<Rightarrow> 'h \<Rightarrow> 'h option" where
  "ledFailed wait = blink wait 200000 100000"

section \<open>Lemmas\<close>

text \<open>The instance that \<open>ledInit\<close> leaves.\<close>

definition led_ready :: "XGpio \<Rightarrow> bool" where
  "led_ready g \<longleftrightarrow> gpio_IsReady g = GPIO_IS_READY \<and> gpio_BaseAddress g = 0xA0001000"

definition LED_DATA :: u64 where "LED_DATA = 0xA0001000"

lemma channel_led: "led_ready g \<Longrightarrow> channel_ok g LED_CHANNEL \<and> channel_reg g LED_CHANNEL XGPIO_DATA_OFFSET = LED_DATA"
  by (simp add: led_ready_def channel_ok_def channel_reg_def led_consts LED_DATA_def)

lemma ledInit_ready:
  "\<exists>g'. ledInit B g h = Some (XST_SUCCESS, g', out32 B 0xA0001004 (NOT 0x0F) h) \<and> led_ready g'"
  by (simp add: ledInit_def XGpio_Initialize_def XGpio_LookupConfig_def XGpio_ConfigTable_def
      XGpio_CfgInitialize_def XGpio_SetDataDirection_def channel_ok_def channel_reg_def led_ready_def
      led_consts)

lemma ledHigh_write:
  "led_ready g \<Longrightarrow> ledHigh B g led h = Some (XST_SUCCESS, out32 B LED_DATA (ucast (led AND 0x0f)) h)"
  by (simp add: ledHigh_def XGpio_DiscreteWrite_def channel_led)

lemma ledLow_write:
  "led_ready g \<Longrightarrow> ledLow B g led h =
     (let (c, h) = in32 B LED_DATA h
      in Some (XST_SUCCESS, out32 B LED_DATA (c AND NOT (ucast (led AND 0x0f))) h))"
  by (simp add: ledLow_def XGpio_DiscreteClear_def channel_led split: prod.splits)

text \<open>
  An output port that reads back what was written to it: \<open>leds h\<close> is its value, and
  waiting does not change it.
\<close>

definition reads_back :: "'h bus \<Rightarrow> (nat \<Rightarrow> 'h \<Rightarrow> 'h) \<Rightarrow> ('h \<Rightarrow> u32) \<Rightarrow> bool" where
  "reads_back B wait leds \<longleftrightarrow>
     (\<forall>v h. leds (out32 B LED_DATA v h) = v) \<and>
     (\<forall>h. fst (in32 B LED_DATA h) = leds h \<and> leds (snd (in32 B LED_DATA h)) = leds h) \<and>
     (\<forall>n h. leds (wait n h) = leds h)"

lemma ledHigh_leds:
  assumes "led_ready g" "reads_back B wait leds"
  shows "\<exists>h'. ledHigh B g led h = Some (XST_SUCCESS, h') \<and> leds h' = ucast (led AND 0x0f)"
  using assms by (simp add: ledHigh_write reads_back_def)

lemma ledLow_leds:
  assumes "led_ready g" "reads_back B wait leds"
  shows "\<exists>h'. ledLow B g led h = Some (XST_SUCCESS, h') \<and> leds h' = leds h AND NOT (ucast (led AND 0x0f))"
proof -
  obtain c h1 where c: "in32 B LED_DATA h = (c, h1)" by force
  then have "c = leds h" using assms(2) unfolding reads_back_def by (metis fst_conv)
  then show ?thesis using assms by (simp add: ledLow_write c reads_back_def)
qed

text \<open>
  After \<open>ledInit\<close> every LED call succeeds on a port that reads back what was written:
  \<open>ledHigh\<close> lights exactly the LEDs it names and puts the others out, \<open>ledLow\<close> puts out
  the LEDs it names, and after each round of a verdict loop all four are out.
\<close>

lemma led_calls:
  assumes "reads_back B wait leds"
  shows "\<exists>g' h'. ledInit B g h = Some (XST_SUCCESS, g', h') \<and>
    (\<forall>led h. \<exists>h'. ledHigh B g' led h = Some (XST_SUCCESS, h') \<and> leds h' = ucast (led AND 0x0f)) \<and>
    (\<forall>led h. \<exists>h'. ledLow B g' led h = Some (XST_SUCCESS, h') \<and>
       leds h' = leds h AND NOT (ucast (led AND 0x0f))) \<and>
    (\<forall>n h. \<exists>h'. ledSuccess wait B g' (Suc n) h = Some h' \<and> leds h' = 0) \<and>
    (\<forall>n h. \<exists>h'. ledFailed wait B g' (Suc n) h = Some h' \<and> leds h' = 0)"
proof -
  obtain g' where g: "ledInit B g h = Some (XST_SUCCESS, g', out32 B 0xA0001004 (NOT 0x0F) h)" "led_ready g'"
    using ledInit_ready [of B g h] by blast
  have round: "\<exists>h'. blink_round wait on off B g' h = Some h' \<and> leds h' = 0" for on off h
  proof -
    obtain h1 where h1: "ledHigh B g' LED_ALL h = Some (XST_SUCCESS, h1)" "leds h1 = 0x0f"
      using ledHigh_leds [OF g(2) assms, of LED_ALL h] by (auto simp: LED_ALL_def)
    have w: "leds (wait n h) = leds h" for n h using assms by (simp add: reads_back_def)
    obtain h2 where "ledLow B g' LED_ALL (wait on h1) = Some (XST_SUCCESS, h2)" "leds h2 = 0"
      using ledLow_leds [OF g(2) assms, of LED_ALL "wait on h1"] h1(2) by (auto simp: LED_ALL_def w)
    then show ?thesis using h1 w by (simp add: blink_round_def)
  qed
  have blink: "\<exists>h'. blink wait on off B g' (Suc n) h = Some h' \<and> leds h' = 0" for on off n h
  proof (induction n arbitrary: h)
    case 0
    then show ?case using round [of on off h] by auto
  next
    case (Suc n)
    obtain h1 where "blink_round wait on off B g' h = Some h1" using round by blast
    then show ?case using Suc.IH [of h1] by simp
  qed
  show ?thesis
    using g ledHigh_leds [OF g(2) assms] ledLow_leds [OF g(2) assms] blink
    unfolding ledSuccess_def ledFailed_def by blast
qed

text \<open>A port that is just a register.\<close>

definition latch_bus :: "u32 bus" where
  "latch_bus = \<lparr>in32 = (\<lambda>a h. (h, h)), out32 = (\<lambda>a v h. if a = LED_DATA then v else h)\<rparr>"

end
