(* ===== verification/SdTest.thy ===== *)
theory SdTest
  imports Prelude
begin

text \<open>
  The SD card test, \<open>boe_factory_test/src/sdtest.c\<close>, over the FatFs interface it calls. The
  file system is a record of operations on a state of any type; a call returns its
  \<open>FRESULT\<close> (0 is \<open>FR_OK\<close>).
\<close>

section \<open>The program\<close>

text \<open>\<open>f_write data\<close> returns the number of bytes written, \<open>f_read n\<close> the bytes read.\<close>

record 'f fatfs =
  f_mount :: "'f \<Rightarrow> int \<times> 'f"
  f_open :: "string \<Rightarrow> u8 \<Rightarrow> 'f \<Rightarrow> int \<times> 'f"
  f_lseek :: "nat \<Rightarrow> 'f \<Rightarrow> int \<times> 'f"
  f_write :: "u8 list \<Rightarrow> 'f \<Rightarrow> int \<times> nat \<times> 'f"
  f_read :: "nat \<Rightarrow> 'f \<Rightarrow> int \<times> u8 list \<times> 'f"
  f_close :: "'f \<Rightarrow> int \<times> 'f"

text \<open>The static buffers.\<close>

record sd_globals =
  SourceAddress :: "u8 list"
  DestinationAddress :: "u8 list"

definition FR_OK :: int where "FR_OK = 0"
definition FA_READ :: u8 where "FA_READ = 0x01"
definition FA_WRITE :: u8 where "FA_WRITE = 0x02"
definition FA_CREATE_ALWAYS :: u8 where "FA_CREATE_ALWAYS = 0x08"
definition FileName :: string where "FileName = ''Test.bin''"
definition TEST :: nat where "TEST = 7"

definition sd_buffer_size :: nat where "sd_buffer_size = 10 * 1024 * 1024"

definition sd_FileSize :: nat where
  "sd_FileSize = (if XGetPlatform_Info = XPLAT_ZYNQ_ULTRA_MP then 8 * 1024 else 8 * 1024 * 1024)"

definition ffs_init :: "'f fatfs \<Rightarrow> 'f \<Rightarrow> int \<times> 'f" where
  "ffs_init F f =
     (let (Res, f) = f_mount F f in if Res \<noteq> FR_OK then (XST_FAILURE, f) else (XST_SUCCESS, f))"

text \<open>A FatFs call whose result the test checks.\<close>

definition fs_ok ::
    "int \<times> 'f \<Rightarrow> sd_globals \<Rightarrow> ('f \<Rightarrow> int \<times> sd_globals \<times> 'f) \<Rightarrow> int \<times> sd_globals \<times> 'f" where
  "fs_ok r g k = (let (Res, f) = r in if Res \<noteq> 0 then (XST_FAILURE, g, f) else k f)"

text \<open>The buffer the test writes, and the comparison of the two buffers.\<close>

definition fill_source :: "u8 list \<Rightarrow> u8 list" where
  "fill_source src = memcpy_at 0 (map (\<lambda>i. of_nat (TEST + i)) [0..<sd_FileSize]) src"

definition sd_compare :: "sd_globals \<Rightarrow> bool" where
  "sd_compare g \<longleftrightarrow>
     list_all (\<lambda>i. SourceAddress g ! i = DestinationAddress g ! i) [0..<sd_FileSize]"

definition ffs_sd_test :: "'f fatfs \<Rightarrow> sd_globals \<Rightarrow> 'f \<Rightarrow> int \<times> sd_globals \<times> 'f" where
  "ffs_sd_test F g f =
     (let g = g\<lparr>SourceAddress := fill_source (SourceAddress g)\<rparr>;
          (_, f) = ffs_init F f
      in fs_ok (f_open F FileName (FA_CREATE_ALWAYS OR FA_WRITE OR FA_READ) f) g (\<lambda>f.
         fs_ok (f_lseek F 0 f) g (\<lambda>f.
           let (Res, NumBytesWritten, f) = f_write F (take sd_FileSize (SourceAddress g)) f
           in fs_ok (Res, f) g (\<lambda>f.
              fs_ok (f_lseek F 0 f) g (\<lambda>f.
                let (Res, bytes, f) = f_read F sd_FileSize f;
                    g = g\<lparr>DestinationAddress := memcpy_at 0 bytes (DestinationAddress g)\<rparr>
                in fs_ok (Res, f) g (\<lambda>f.
                   if \<not> sd_compare g then (XST_FAILURE, g, f)
                   else fs_ok (f_close F f) g (\<lambda>f. (XST_SUCCESS, g, f))))))))"

section \<open>Lemmas\<close>

lemma sd_FileSize_eq: "sd_FileSize = 8192"
  by (simp add: sd_FileSize_def XGetPlatform_Info_def)

definition sd_wf :: "sd_globals \<Rightarrow> bool" where
  "sd_wf g \<longleftrightarrow> length (SourceAddress g) = sd_buffer_size \<and> length (DestinationAddress g) = sd_buffer_size"

definition sd_pattern :: "u8 list" where
  "sd_pattern = map (\<lambda>i. of_nat (TEST + i)) [0..<sd_FileSize]"

lemma length_sd_pattern: "length sd_pattern = sd_FileSize"
  by (simp add: sd_pattern_def)

lemma take_fill_source: "take sd_FileSize (fill_source src) = sd_pattern"
  using take_memcpy_at_0 [of sd_pattern src] unfolding fill_source_def length_sd_pattern
  by (simp add: sd_pattern_def)

lemma length_fill_source: "sd_FileSize \<le> length src \<Longrightarrow> length (fill_source src) = length src"
  unfolding fill_source_def by (rule length_memcpy_at) simp

lemma sd_compare_take:
  assumes "sd_FileSize \<le> length (SourceAddress g)" "sd_FileSize \<le> length (DestinationAddress g)"
  shows "sd_compare g \<longleftrightarrow> take sd_FileSize (SourceAddress g) = take sd_FileSize (DestinationAddress g)"
  using assms unfolding sd_compare_def list_all_iff by (auto simp: list_eq_iff_nth_eq)

lemma fs_ok_success:
  "fs_ok r g k = (XST_SUCCESS, g', f') \<longleftrightarrow> fst r = 0 \<and> k (snd r) = (XST_SUCCESS, g', f')"
  by (simp add: fs_ok_def split: prod.splits)

text \<open>
  What a successful run did: the file was opened, the pattern handed to \<open>f_write\<close>, and what
  \<open>f_read\<close> returned, over the old contents of the buffer, is the pattern.
\<close>

lemma sd_test_run:
  assumes "sd_wf g" and "ffs_sd_test F g f = (XST_SUCCESS, g', f')"
  shows "\<exists>f1 n f2 f3 bytes f4. f_write F sd_pattern f1 = (0, n, f2) \<and>
    f_lseek F 0 f2 = (0, f3) \<and> f_read F sd_FileSize f3 = (0, bytes, f4) \<and> f_close F f4 = (0, f') \<and>
    take sd_FileSize (memcpy_at 0 bytes (DestinationAddress g)) = sd_pattern"
proof -
  let ?g = "g\<lparr>SourceAddress := fill_source (SourceAddress g)\<rparr>"
  obtain s0 f0 where i: "ffs_init F f = (s0, f0)" by force
  obtain r1 fa where o: "f_open F FileName (FA_CREATE_ALWAYS OR FA_WRITE OR FA_READ) f0 = (r1, fa)" by force
  obtain r2 fb where l: "f_lseek F 0 fa = (r2, fb)" by force
  obtain r3 n fc where w: "f_write F sd_pattern fb = (r3, n, fc)" by (metis prod_cases3)
  obtain r4 fd where l2: "f_lseek F 0 fc = (r4, fd)" by force
  obtain r5 bytes fe where r: "f_read F sd_FileSize fd = (r5, bytes, fe)" by (metis prod_cases3)
  let ?g2 = "?g\<lparr>DestinationAddress := memcpy_at 0 bytes (DestinationAddress g)\<rparr>"
  have all: "r1 = 0 \<and> r2 = 0 \<and> r3 = 0 \<and> r4 = 0 \<and> r5 = 0 \<and> sd_compare ?g2 \<and>
      f_close F fe = (0, f')"
    using assms(2) by (cases "f_close F fe") (simp add: ffs_sd_test_def i o l w l2 r take_fill_source fs_ok_success Let_def
        split: if_splits prod.splits)
  have src: "sd_FileSize \<le> length (SourceAddress g)" "sd_FileSize \<le> length (DestinationAddress g)"
    using assms(1) by (simp_all add: sd_wf_def sd_FileSize_eq sd_buffer_size_def)
  have "sd_FileSize \<le> length (memcpy_at 0 bytes (DestinationAddress g))"
    using src(2) by (simp add: memcpy_at_def)
  then have "take sd_FileSize (memcpy_at 0 bytes (DestinationAddress g)) = sd_pattern"
    using all sd_compare_take [of ?g2] src(1) by (simp add: length_fill_source take_fill_source)
  with all w l2 r show ?thesis by blast
qed

text \<open>
  The SD test reports success only if the file system accepted the whole sequence of
  calls and, after the read, the first 8 KB of the destination buffer are the pattern
  7, 8, 9, \<dots> modulo 256.
\<close>

lemma sd_test_sound:
  assumes "sd_wf g" and "ffs_sd_test F g f = (XST_SUCCESS, g', f')"
  shows "\<exists>f1 n f2 f3 bytes f4. f_write F sd_pattern f1 = (0, n, f2) \<and>
    f_lseek F 0 f2 = (0, f3) \<and> f_read F sd_FileSize f3 = (0, bytes, f4) \<and> f_close F f4 = (0, f') \<and>
    (\<forall>i < 8192. memcpy_at 0 bytes (DestinationAddress g) ! i = of_nat (7 + i))"
proof -
  obtain f1 n f2 f3 bytes f4 where run: "f_write F sd_pattern f1 = (0, n, f2)"
    "f_lseek F 0 f2 = (0, f3)" "f_read F sd_FileSize f3 = (0, bytes, f4)" "f_close F f4 = (0, f')"
    and t: "take sd_FileSize (memcpy_at 0 bytes (DestinationAddress g)) = sd_pattern"
    using sd_test_run [OF assms] by blast
  have "memcpy_at 0 bytes (DestinationAddress g) ! i = of_nat (7 + i)" if "i < 8192" for i
  proof -
    have "memcpy_at 0 bytes (DestinationAddress g) ! i = sd_pattern ! i"
      unfolding t [symmetric] using that by (simp add: sd_FileSize_eq)
    then show ?thesis using that by (simp add: sd_pattern_def sd_FileSize_eq TEST_def)
  qed
  with run show ?thesis by blast
qed

text \<open>A file system that accepts every call; a read of \<open>n\<close> bytes returns \<open>content n\<close>.\<close>

definition accepts_all :: "'f fatfs \<Rightarrow> (nat \<Rightarrow> u8 list) \<Rightarrow> bool" where
  "accepts_all F content \<longleftrightarrow>
     (\<forall>f. fst (f_open F FileName (FA_CREATE_ALWAYS OR FA_WRITE OR FA_READ) f) = FR_OK) \<and>
     (\<forall>f. fst (f_lseek F 0 f) = FR_OK) \<and> (\<forall>f. fst (f_close F f) = FR_OK) \<and>
     (\<forall>bs f. fst (f_write F bs f) = FR_OK) \<and>
     (\<forall>n f. fst (f_read F n f) = FR_OK \<and> fst (snd (f_read F n f)) = content n)"

lemma sd_test_accepting:
  assumes "accepts_all F content" "sd_wf g"
    and "take sd_FileSize (memcpy_at 0 (content sd_FileSize) (DestinationAddress g)) = sd_pattern"
  shows "fst (ffs_sd_test F g f) = XST_SUCCESS"
proof -
  let ?g = "g\<lparr>SourceAddress := fill_source (SourceAddress g)\<rparr>"
  let ?g2 = "?g\<lparr>DestinationAddress := memcpy_at 0 (content sd_FileSize) (DestinationAddress g)\<rparr>"
  have src: "sd_FileSize \<le> length (SourceAddress g)" "sd_FileSize \<le> length (DestinationAddress g)"
    using assms(2) by (simp_all add: sd_wf_def sd_FileSize_eq sd_buffer_size_def)
  then have "sd_FileSize \<le> length (memcpy_at 0 (content sd_FileSize) (DestinationAddress g))"
    by (simp add: memcpy_at_def)
  then have cmp: "sd_compare ?g2"
    using sd_compare_take [of ?g2] src(1) assms(3) by (simp add: length_fill_source take_fill_source)
  have ok: "fst (f_open F FileName (FA_CREATE_ALWAYS OR FA_WRITE OR FA_READ) f) = 0"
    "fst (f_lseek F 0 f) = 0" "fst (f_close F f) = 0" "fst (f_write F bs f) = 0"
    "fst (f_read F n f) = 0" "fst (snd (f_read F n f)) = content n" for f bs n
    using assms(1) by (simp_all add: accepts_all_def FR_OK_def)
  show ?thesis
    using cmp by (simp add: ffs_sd_test_def fs_ok_def Let_def split_beta ok)
qed

text \<open>
  The number of bytes written and read is never looked at. Once the buffer holds the
  pattern, say from an earlier run, the SD test succeeds on every file system that
  accepts all calls and transfers nothing.
\<close>

lemma sd_test_ignores_counts:
  assumes "accepts_all F (\<lambda>_. [])" "sd_wf g" "take 8192 (DestinationAddress g) = sd_pattern"
  shows "fst (ffs_sd_test F g f) = XST_SUCCESS"
  using assms(3) by (intro sd_test_accepting [OF assms(1,2)]) (simp add: memcpy_at_def sd_FileSize_eq)

text \<open>
  On a file system that accepts all calls and reads back the pattern, the SD test
  succeeds whatever the buffers held before.
\<close>

lemma sd_test_passes:
  assumes "accepts_all F (\<lambda>n. take n sd_pattern)" "sd_wf g"
  shows "fst (ffs_sd_test F g f) = XST_SUCCESS"
  using take_memcpy_at_0 [of sd_pattern "DestinationAddress g"]
  by (intro sd_test_accepting [OF assms]) (simp add: length_sd_pattern)

text \<open>A file system of one file, for concrete runs, that reads at most \<open>k\<close> bytes.\<close>

definition one_file :: "nat \<Rightarrow> u8 list fatfs" where
  "one_file k = \<lparr>f_mount = (\<lambda>f. (0, f)), f_open = (\<lambda>_ _ f. (0, [])), f_lseek = (\<lambda>_ f. (0, f)),
     f_write = (\<lambda>bs f. (0, length bs, bs)), f_read = (\<lambda>n f. (0, take (min k n) sd_pattern, f)),
     f_close = (\<lambda>f. (0, f))\<rparr>"

definition sd_zero :: sd_globals where
  "sd_zero = \<lparr>SourceAddress = replicate sd_buffer_size 0, DestinationAddress = replicate sd_buffer_size 0\<rparr>"

definition sd_stale :: sd_globals where
  "sd_stale = sd_zero\<lparr>DestinationAddress := sd_pattern @ replicate (sd_buffer_size - sd_FileSize) 0\<rparr>"

lemma sd_wf_examples: "sd_wf sd_zero" "sd_wf sd_stale"
  by (simp_all add: sd_wf_def sd_zero_def sd_stale_def length_sd_pattern sd_FileSize_eq sd_buffer_size_def)

end
