(* ===== verification/EthTest.thy ===== *)
theory EthTest
  imports MsgPool
begin

text \<open>
  The network test, \<open>boe_factory_test/src/pl_eth_test.c\<close>: a loop through the AXI FIFO. The
  buffers and the driver instance are its globals. \<open>Inl OutOfBounds\<close> is an access outside
  a buffer, \<open>None\<close> an endless wait.
\<close>

section \<open>The program\<close>

definition MAX_DATA_BUFFER_SIZE :: nat where "MAX_DATA_BUFFER_SIZE = 16 * 4"

record eth_globals =
  FifoInstance :: XLlFifo
  SourceBuffer :: "u8 list"
  DestinationBuffer :: "u8 list"

text \<open>\<open>TxSend\<close> waits for the end of the transmission without a limit.\<close>

partial_function (option) tx_done_wait :: "'h bus \<Rightarrow> XLlFifo \<Rightarrow> 'h \<Rightarrow> 'h option" where
  "tx_done_wait B f h =
     (let (done, h) = XLlFifo_IsTxDone B f h in if done then Some h else tx_done_wait B f h)"

definition TxSend :: "'h bus \<Rightarrow> XLlFifo \<Rightarrow> u8 list \<Rightarrow> nat \<Rightarrow> 'h \<Rightarrow> (fault + (int \<times> 'h)) option" where
  "TxSend B f SourceAddr sendlen h =
     (let wlen = ceil_div sendlen WORD_SIZE
      in if sendlen > length SourceAddr \<or> sendlen > 4 * 512 then Some (Inl OutOfBounds)
         else
           let wBuf = memcpy_at 0 (take sendlen SourceAddr) (replicate (4 * 512) 0);
               h = tx_words B f (take wlen (words_of_bytes wBuf)) h;
               h = XLlFifo_iTxSetLen B f (of_nat (wlen * WORD_SIZE)) h
           in Option.bind (tx_done_wait B f h) (\<lambda>h. Some (Inr (XST_SUCCESS, h))))"

text \<open>\<open>RxReceive\<close> stores the received words in the destination; it returns \<open>*getlen\<close> too.\<close>

definition RxReceive ::
    "'h bus \<Rightarrow> XLlFifo \<Rightarrow> u8 list \<Rightarrow> int \<Rightarrow> 'h \<Rightarrow> fault + (int \<times> u8 list \<times> int \<times> 'h)" where
  "RxReceive B f DestinationAddr getlen h =
     (let (occ, h) = XLlFifo_iRxOccupancy B f h
      in if occ > 0 then
           let (ReceiveLength, h) = XLlFifo_iRxGetLen B f h;
               getlen = sint (ReceiveLength :: 32 word);
               n = ceil_div (unat ReceiveLength) WORD_SIZE;
               (ws, h) = rx_words B f n h
           in if n * WORD_SIZE > length DestinationAddr then Inl OutOfBounds
              else Inr (XST_SUCCESS, memcpy_at 0 (bytes_of_words ws) DestinationAddr, getlen, h)
         else Inr (XST_SUCCESS, DestinationAddr, getlen, h))"

text \<open>The start of \<open>fifotest\<close>: the driver instance and the check of the reset value.\<close>

definition fifotest_setup :: "'h bus \<Rightarrow> XLlFifo \<Rightarrow> u16 \<Rightarrow> 'h \<Rightarrow> int \<times> XLlFifo \<times> 'h" where
  "fifotest_setup B f DeviceId h =
     (case XLlFfio_LookupConfig (ucast DeviceId) of
        None \<Rightarrow> (XST_FAILURE, f, h)
      | Some Config \<Rightarrow>
          let (Status, f, h) = XLlFifo_CfgInitialize B Config (cfg_BaseAddress Config) h
          in if Status \<noteq> XST_SUCCESS then (Status, f, h)
             else
               let (_, h) = XLlFifo_Status B f h;
                   h = XLlFifo_IntClear B f 0xffffffff h;
                   (isr, h) = XLlFifo_Status B f h
               in if isr \<noteq> 0 then let (_, h) = XLlFifo_Status B f h in (XST_FAILURE, f, h)
                  else (XST_SUCCESS, f, h))"

definition eth_pattern :: "u8 list" where
  "eth_pattern = map (\<lambda>i. of_nat (i + 0x7)) [0..<MAX_DATA_BUFFER_SIZE]"

text \<open>
  \<open>fifotest\<close> as it is written: it fills \<open>SourceBuffer\<close>, sends \<open>DestinationBuffer\<close>, and
  compares what it receives with \<open>SourceBuffer\<close>.
\<close>

definition fifotest ::
    "'h bus \<Rightarrow> eth_globals \<Rightarrow> u16 \<Rightarrow> 'h \<Rightarrow> (fault + (int \<times> eth_globals \<times> 'h)) option" where
  "fifotest B g DeviceId h =
     (let (Status, f, h) = fifotest_setup B (FifoInstance g) DeviceId h;
          g = g\<lparr>FifoInstance := f\<rparr>
      in if Status \<noteq> XST_SUCCESS then Some (Inr (Status, g, h))
         else
           let g = g\<lparr>SourceBuffer := eth_pattern\<rparr>;
               sendlen = MAX_DATA_BUFFER_SIZE
           in Option.bind (TxSend B f (DestinationBuffer g) sendlen h) (\<lambda>r.
                case r of
                  Inl e \<Rightarrow> Some (Inl e)
                | Inr (Status, h) \<Rightarrow>
                    if Status \<noteq> XST_SUCCESS then Some (Inr (Status, g, h))
                    else (case RxReceive B f (DestinationBuffer g) 0 h of
                        Inl e \<Rightarrow> Some (Inl e)
                      | Inr (Status, dest, getlen, h) \<Rightarrow>
                          let g = g\<lparr>DestinationBuffer := dest\<rparr>
                          in if Status \<noteq> XST_SUCCESS then Some (Inr (Status, g, h))
                             else if getlen \<noteq> int sendlen \<or>
                                     take (nat getlen) (DestinationBuffer g) \<noteq> take (nat getlen) (SourceBuffer g)
                             then Some (Inr (XST_FAILURE, g, h))
                             else Some (Inr (XST_SUCCESS, g, h)))))"

definition pl_net_test :: "'h bus \<Rightarrow> eth_globals \<Rightarrow> 'h \<Rightarrow> (fault + (int \<times> eth_globals \<times> 'h)) option" where
  "pl_net_test B g h =
     Option.bind (fifotest B g FIFO_DEV_ID h) (\<lambda>r.
       case r of
         Inl e \<Rightarrow> Some (Inl e)
       | Inr (Status, g, h) \<Rightarrow>
           Some (Inr (if Status \<noteq> XST_SUCCESS then XST_FAILURE else XST_SUCCESS, g, h)))"

section \<open>The endless wait\<close>

lemma tx_done_wait_poll: "poll_done B f n h = (True, h') \<Longrightarrow> tx_done_wait B f h = Some h'"
proof (induction n arbitrary: h)
  case (Suc n)
  obtain d h1 where d: "XLlFifo_IsTxDone B f h = (d, h1)" by force
  show ?case
    by (subst tx_done_wait.simps) (use Suc d in \<open>simp split: if_splits\<close>)
qed simp

lemma poll_tx_done_wait:
  assumes "tx_done_wait B f h = Some h'"
  shows "\<exists>n. poll_done B f n h = (True, h')"
proof (rule tx_done_wait.raw_induct [where P = "\<lambda>B f h h'. \<exists>n. poll_done B f n h = (True, h')", OF _ assms])
  fix rec :: "'b bus \<Rightarrow> XLlFifo \<Rightarrow> 'b \<Rightarrow> 'b option" and B f h h'
  assume IH: "\<And>B f h h'. rec B f h = Some h' \<Longrightarrow> \<exists>n. poll_done B f n h = (True, h')"
    and eq: "(let (done, h) = XLlFifo_IsTxDone B f h in if done then Some h else rec B f h) = Some h'"
  obtain d h1 where d: "XLlFifo_IsTxDone B f h = (d, h1)" by force
  show "\<exists>n. poll_done B f n h = (True, h')"
  proof (cases d)
    case True
    then have "poll_done B f 1 h = (True, h')" using eq d by simp
    then show ?thesis ..
  next
    case False
    then obtain n where "poll_done B f n h1 = (True, h')" using eq d IH [of B f h1 h'] by auto
    then have "poll_done B f (Suc n) h = (True, h')" using d False by simp
    then show ?thesis ..
  qed
qed

text \<open>
  The wait of \<open>TxSend\<close> has no limit: it returns exactly when the FIFO reports the end of
  the transmission at some poll, and hangs the board otherwise.
\<close>

lemma tx_done_wait_iff:
  "tx_done_wait B f h = Some h' \<longleftrightarrow> (\<exists>n. poll_done B f n h = (True, h'))"
  by (metis tx_done_wait_poll poll_tx_done_wait)

section \<open>What a passed test means\<close>

lemma eth_pattern_length: "length eth_pattern = 64"
  by (simp add: eth_pattern_def MAX_DATA_BUFFER_SIZE_def)

text \<open>
  The network test reports success only if the FIFO reported a packet of 64 bytes and
  the sixteen words read from it are the pattern 7, 8, \<dots>, 70.
\<close>

lemma pl_net_test_sound:
  assumes "pl_net_test B g h = Some (Inr (XST_SUCCESS, g', h'))" "length (DestinationBuffer g) = 64"
  shows "\<exists>f occ h1 h2 h3. XLlFifo_iRxOccupancy B f h1 = (occ, h2) \<and> occ > 0 \<and>
    XLlFifo_iRxGetLen B f h2 = (64, h3) \<and>
    (\<exists>ws. rx_words B f 16 h3 = (ws, h') \<and> bytes_of_words ws = eth_pattern)"
proof -
  have ft: "fifotest B g FIFO_DEV_ID h = Some (Inr (XST_SUCCESS, g', h'))"
    using assms(1) unfolding pl_net_test_def
    by (cases "fifotest B g FIFO_DEV_ID h"; cases "the (fifotest B g FIFO_DEV_ID h)") (auto split: if_splits)
  obtain st f h0 where su: "fifotest_setup B (FifoInstance g) FIFO_DEV_ID h = (st, f, h0)" by (metis prod_cases3)
  then have st: "st = XST_SUCCESS" using ft unfolding fifotest_def su Let_def by (auto split: if_splits)
  obtain r where tx: "TxSend B f (DestinationBuffer g) 64 h0 = Some r"
    using ft unfolding fifotest_def su st by (auto simp: Let_def bind_eq_Some_conv MAX_DATA_BUFFER_SIZE_def)
  then obtain s1 h1 where r: "r = Inr (s1, h1)"
    using ft unfolding fifotest_def su st
    by (cases r) (auto simp: Let_def MAX_DATA_BUFFER_SIZE_def)
  have s1: "s1 = XST_SUCCESS"
    using ft tx unfolding fifotest_def su st r by (auto simp: Let_def MAX_DATA_BUFFER_SIZE_def split: if_splits)
  obtain s2 dest len h2' where rx: "RxReceive B f (DestinationBuffer g) 0 h1 = Inr (s2, dest, len, h2')"
    using ft tx unfolding fifotest_def su st r s1
    by (cases "RxReceive B f (DestinationBuffer g) 0 h1") (auto simp: Let_def MAX_DATA_BUFFER_SIZE_def)
  have fin: "s2 = XST_SUCCESS" "dest = DestinationBuffer g'" "len = 64" "h2' = h'"
    "take 64 (DestinationBuffer g') = take 64 eth_pattern"
    using ft tx rx unfolding fifotest_def su st r s1
    by (auto simp: Let_def MAX_DATA_BUFFER_SIZE_def split: if_splits)
  note rx = rx [unfolded fin(1-4)] and eq = fin(5)
  obtain occ h2 where occ: "XLlFifo_iRxOccupancy B f h1 = (occ, h2)" by force
  obtain rl h3 where rl: "XLlFifo_iRxGetLen B f h2 = (rl, h3)" by force
  obtain ws h4 where ws: "rx_words B f (ceil_div (unat rl) WORD_SIZE) h3 = (ws, h4)" by force
  have pos: "occ > 0" using rx occ by (auto simp: RxReceive_def split: if_splits)
  then have r: "sint rl = 64" "h4 = h'" "DestinationBuffer g' = memcpy_at 0 (bytes_of_words ws) (DestinationBuffer g)"
    using rx by (auto simp: RxReceive_def occ rl ws split: if_splits)
  have "rl = of_int (sint rl)" by simp
  then have rl64: "rl = 64" unfolding r(1) by simp
  have ws16: "rx_words B f 16 h3 = (ws, h')"
    using ws r(2) by (simp add: rl64 ceil_div_def WORD_SIZE_def)
  then have "length (bytes_of_words ws) = 64" using length_rx_words [OF ws16] by simp
  then have "take 64 (DestinationBuffer g') = bytes_of_words ws"
    using take_memcpy_at_0 [of "bytes_of_words ws" "DestinationBuffer g"] by (simp add: r(3))
  then have "bytes_of_words ws = eth_pattern" using eq eth_pattern_length by simp
  then show ?thesis using occ pos rl rl64 ws16 by blast
qed

section \<open>A FIFO that loops back\<close>

text \<open>
  A FIFO whose transmitted packet arrives at its own receiver, with room for every word:
  the registers of \<open>LlFifo\<close> at the address of the configuration table.
\<close>

record loop_fifo =
  lf_tx :: "u32 list"
  lf_rx :: "u32 list"
  lf_len :: u32
  lf_done :: bool

definition loop_bus :: "loop_fifo bus" where
  "loop_bus =
    \<lparr>in32 = (\<lambda>a s.
       if a = 0xA0000000 then (if lf_done s then XLLF_INT_TC_MASK else 0, s)
       else if a = 0xA000000C then (512, s)
       else if a = 0xA000001C then (of_nat (length (lf_rx s)), s)
       else if a = 0xA0000024 then (lf_len s, s)
       else if a = 0xA0000020 then (hd (lf_rx s), s\<lparr>lf_rx := tl (lf_rx s)\<rparr>)
       else (0, s)),
     out32 = (\<lambda>a v s.
       if a = 0xA0000000 then (if v AND XLLF_INT_TC_MASK \<noteq> 0 then s\<lparr>lf_done := False\<rparr> else s)
       else if a = 0xA0000008 then s\<lparr>lf_tx := []\<rparr>
       else if a = 0xA0000018 then s\<lparr>lf_rx := []\<rparr>
       else if a = 0xA0000010 then s\<lparr>lf_tx := lf_tx s @ [v]\<rparr>
       else if a = 0xA0000014
       then s\<lparr>lf_tx := [], lf_rx := lf_rx s @ lf_tx s, lf_len := v, lf_done := True\<rparr>
       else s)\<rparr>"

definition fifo0 :: XLlFifo where
  "fifo0 = \<lparr>BaseAddress = 0xA0000000, IsReady = XIL_COMPONENT_IS_READY,
            Axi4BaseAddress = 0xA0000000, Datainterface = 0\<rparr>"

lemmas fifo_regs =
  XLlFifo_ReadReg_def XLlFifo_WriteReg_def XLlFifo_Status_def XLlFifo_IntClear_def
  XLlFifo_TxReset_def XLlFifo_RxReset_def XLlFifo_iRxOccupancy_def XLlFifo_iRxGetLen_def
  XLlFifo_iTxVacancy_def XLlFifo_iTxSetLen_def XLlFifo_IsTxDone_def XLlFifo_RxGetWord_def
  XLlFifo_TxPutWord_def xllf_offsets

lemma loop_setup:
  "fifotest_setup loop_bus f FIFO_DEV_ID s =
     (XST_SUCCESS, fifo0, s\<lparr>lf_tx := [], lf_rx := [], lf_done := False\<rparr>)"
  by (simp add: fifotest_setup_def XLlFfio_LookupConfig_def XLlFifo_ConfigTable_def FIFO_DEV_ID_def
      XLlFifo_CfgInitialize_def fifo_regs loop_bus_def fifo0_def XST_SUCCESS_def)

lemma loop_regs:
  "XLlFifo_iTxVacancy loop_bus fifo0 s = (512, s)"
  "XLlFifo_TxPutWord loop_bus fifo0 w s = s\<lparr>lf_tx := lf_tx s @ [w]\<rparr>"
  "XLlFifo_iTxSetLen loop_bus fifo0 n s =
     s\<lparr>lf_tx := [], lf_rx := lf_rx s @ lf_tx s, lf_len := n, lf_done := True\<rparr>"
  "XLlFifo_IsTxDone loop_bus fifo0 s = (lf_done s, s)"
  "XLlFifo_iRxOccupancy loop_bus fifo0 s = (of_nat (length (lf_rx s)), s)"
  "XLlFifo_iRxGetLen loop_bus fifo0 s = (lf_len s, s)"
  "XLlFifo_RxGetWord loop_bus fifo0 s = (hd (lf_rx s), s\<lparr>lf_rx := tl (lf_rx s)\<rparr>)"
  by (simp_all add: fifo_regs loop_bus_def fifo0_def)

lemma loop_tx_words: "tx_words loop_bus fifo0 ws s = s\<lparr>lf_tx := lf_tx s @ ws\<rparr>"
  by (induction ws arbitrary: s) (simp_all add: loop_regs)

lemma loop_rx_words:
  "n \<le> length (lf_rx s) \<Longrightarrow>
   rx_words loop_bus fifo0 n s = (take n (lf_rx s), s\<lparr>lf_rx := drop n (lf_rx s)\<rparr>)"
proof (induction n arbitrary: s)
  case (Suc n)
  then obtain w ws where "lf_rx s = w # ws" by (cases "lf_rx s") auto
  then show ?case using Suc by (simp add: loop_regs)
qed simp

lemma sent_words:
  assumes "length bs = 64"
  shows "take 16 (words_of_bytes (memcpy_at 0 bs (replicate 2048 0))) = words_of_bytes bs"
proof -
  have m: "memcpy_at 0 bs (replicate 2048 0) = bs @ replicate 1984 0" using assms by (simp add: memcpy_at_def)
  have "bytes_of_words (take 16 (words_of_bytes (bs @ replicate 1984 0))) = take 64 (bs @ replicate 1984 0)"
    by (subst bytes_of_words_take) (subst bytes_of_words_of_bytes, simp_all add: assms)
  also have "\<dots> = bytes_of_words (words_of_bytes bs)" using assms by (simp add: bytes_of_words_of_bytes)
  finally show ?thesis unfolding m by (metis words_of_bytes_of_words)
qed

lemma loopback_run:
  assumes "length (DestinationBuffer g) = 64"
  shows "\<exists>g' s'. pl_net_test loop_bus g s =
    Some (Inr (if DestinationBuffer g = eth_pattern then XST_SUCCESS else XST_FAILURE, g', s'))"
proof -
  let ?ws = "words_of_bytes (DestinationBuffer g)"
  let ?s = "s\<lparr>lf_tx := [], lf_rx := ?ws, lf_len := 64, lf_done := True\<rparr>"
  have len: "length ?ws = 16" using assms by (simp add: length_words_of_bytes)
  have c: "ceil_div 64 4 = 16" by (simp add: ceil_div_def)
  have wait: "tx_done_wait loop_bus fifo0 ?s = Some ?s"
    by (subst tx_done_wait.simps) (simp add: loop_regs)
  have tx: "TxSend loop_bus fifo0 (DestinationBuffer g) 64 (s\<lparr>lf_tx := [], lf_rx := [], lf_done := False\<rparr>)
      = Some (Inr (XST_SUCCESS, ?s))"
    using assms wait by (simp add: TxSend_def c sent_words loop_tx_words loop_regs Let_def WORD_SIZE_def)
  have bytes: "bytes_of_words ?ws = DestinationBuffer g" using assms by (simp add: bytes_of_words_of_bytes)
  have rx: "RxReceive loop_bus fifo0 (DestinationBuffer g) 0 ?s =
      Inr (XST_SUCCESS, DestinationBuffer g, 64, ?s\<lparr>lf_rx := []\<rparr>)"
    using assms len
    by (simp add: RxReceive_def loop_regs loop_rx_words c WORD_SIZE_def bytes memcpy_at_def)
  show ?thesis
    using assms eth_pattern_length
    by (simp add: pl_net_test_def fifotest_def loop_setup MAX_DATA_BUFFER_SIZE_def tx rx)
qed

text \<open>
  The network test sends \<open>DestinationBuffer\<close> where it means \<open>SourceBuffer\<close>: on a FIFO
  that loops every packet back it ends, and it reports success exactly when the
  destination buffer held the pattern before the test. From the initial buffers of zeros
  it reports a failure of a perfect FIFO.
\<close>

lemma pl_net_test_loopback:
  assumes "length (DestinationBuffer g) = 64"
  shows "\<exists>g' s'. pl_net_test loop_bus g s =
    Some (Inr (if DestinationBuffer g = eth_pattern then XST_SUCCESS else XST_FAILURE, g', s'))"
  using assms by (rule loopback_run)

text \<open>
  The network test works on the FIFO that carries the messages of the host: its first
  accesses reset the transmit and receive side of the FIFO of the message pool and clear
  its interrupts, and with them what the host has sent since.
\<close>

lemma pl_net_test_resets_link:
  assumes "msg_pool_init B malloc h = Inr (XST_SUCCESS, Some mp, h')" and "c \<noteq> 0"
  shows "\<exists>g'. pl_net_test (log_bus c) g [] = Some (Inr (XST_FAILURE, g',
    [(BaseAddress (fifoIns mp) + ucast XLLF_TDFR_OFFSET, XLLF_TDFR_RESET_MASK),
     (BaseAddress (fifoIns mp) + ucast XLLF_RDFR_OFFSET, XLLF_RDFR_RESET_MASK),
     (BaseAddress (fifoIns mp) + ucast XLLF_LLR_OFFSET, XLLF_RDFR_RESET_MASK),
     (BaseAddress (fifoIns mp) + ucast XLLF_ISR_OFFSET, XLLF_INT_ALL_MASK)]))"
proof -
  have base: "BaseAddress (fifoIns mp) = 0xA0000000"
    using assms(1)
    by (auto simp: msg_pool_init_def FifoInit_def XLlFfio_LookupConfig_def XLlFifo_ConfigTable_def
        FIFO_DEV_ID_def XLlFifo_CfgInitialize_def Let_def XST_SUCCESS_def XST_FAILURE_def
        split: option.splits prod.splits if_splits)
  show ?thesis
    using assms(2)
    by (simp add: base pl_net_test_def fifotest_def fifotest_setup_def XLlFfio_LookupConfig_def
        XLlFifo_ConfigTable_def FIFO_DEV_ID_def XLlFifo_CfgInitialize_def fifo_regs
        XST_SUCCESS_def XST_FAILURE_def)
qed

text \<open>Concrete runs.\<close>

definition loop0 :: loop_fifo where
  "loop0 = \<lparr>lf_tx = [], lf_rx = [], lf_len = 0, lf_done = False\<rparr>"

definition eth_zero :: eth_globals where
  "eth_zero = \<lparr>FifoInstance = fifo0, SourceBuffer = replicate 64 0, DestinationBuffer = replicate 64 0\<rparr>"

end
