(* ===== verification/GpioPs.thy ===== *)
theory GpioPs
  imports Prelude
begin

text \<open>
  The driver of the processor's GPIO controller (\<open>gpiops_v3_3\<close>: \<open>xgpiops.c\<close>,
  \<open>xgpiops_intr.c\<close>, \<open>xgpiops_selftest.c\<close>, \<open>xgpiops_sinit.c\<close>, \<open>xgpiops_g.c\<close>), through which
  the I2C lines of the ATECC508A are driven. The controller is the \<open>bus\<close> parameter.
  \<open>None\<close> is a failed assertion, which loops for ever. The interrupt handler and its
  callback, which nothing registers, are left out of the record.
\<close>

section \<open>Registers and instance\<close>

definition XGPIOPS_DATA_LSW_OFFSET :: u32 where "XGPIOPS_DATA_LSW_OFFSET = 0x00"
definition XGPIOPS_DATA_MSW_OFFSET :: u32 where "XGPIOPS_DATA_MSW_OFFSET = 0x04"
definition XGPIOPS_DATA_OFFSET :: u32 where "XGPIOPS_DATA_OFFSET = 0x40"
definition XGPIOPS_DATA_RO_OFFSET :: u32 where "XGPIOPS_DATA_RO_OFFSET = 0x60"
definition XGPIOPS_DIRM_OFFSET :: u32 where "XGPIOPS_DIRM_OFFSET = 0x204"
definition XGPIOPS_OUTEN_OFFSET :: u32 where "XGPIOPS_OUTEN_OFFSET = 0x208"
definition XGPIOPS_INTMASK_OFFSET :: u32 where "XGPIOPS_INTMASK_OFFSET = 0x20C"
definition XGPIOPS_INTEN_OFFSET :: u32 where "XGPIOPS_INTEN_OFFSET = 0x210"
definition XGPIOPS_INTDIS_OFFSET :: u32 where "XGPIOPS_INTDIS_OFFSET = 0x214"
definition XGPIOPS_INTSTS_OFFSET :: u32 where "XGPIOPS_INTSTS_OFFSET = 0x218"
definition XGPIOPS_INTTYPE_OFFSET :: u32 where "XGPIOPS_INTTYPE_OFFSET = 0x21C"
definition XGPIOPS_INTPOL_OFFSET :: u32 where "XGPIOPS_INTPOL_OFFSET = 0x220"
definition XGPIOPS_INTANY_OFFSET :: u32 where "XGPIOPS_INTANY_OFFSET = 0x224"
definition XGPIOPS_DATA_MASK_OFFSET :: u32 where "XGPIOPS_DATA_MASK_OFFSET = 0x08"
definition XGPIOPS_DATA_BANK_OFFSET :: u32 where "XGPIOPS_DATA_BANK_OFFSET = 0x04"
definition XGPIOPS_REG_MASK_OFFSET :: u32 where "XGPIOPS_REG_MASK_OFFSET = 0x40"
definition XGPIOPS_BANK0 :: u8 where "XGPIOPS_BANK0 = 0"
definition PS_COMPONENT_IS_READY :: u32 where "PS_COMPONENT_IS_READY = 0x11111111"

lemmas gpiops_consts [model_eval] =
  XGPIOPS_DATA_LSW_OFFSET_def XGPIOPS_DATA_MSW_OFFSET_def XGPIOPS_DATA_OFFSET_def
  XGPIOPS_DATA_RO_OFFSET_def XGPIOPS_DIRM_OFFSET_def XGPIOPS_OUTEN_OFFSET_def
  XGPIOPS_INTMASK_OFFSET_def XGPIOPS_INTEN_OFFSET_def XGPIOPS_INTDIS_OFFSET_def
  XGPIOPS_INTSTS_OFFSET_def XGPIOPS_INTTYPE_OFFSET_def XGPIOPS_INTPOL_OFFSET_def
  XGPIOPS_INTANY_OFFSET_def XGPIOPS_DATA_MASK_OFFSET_def XGPIOPS_DATA_BANK_OFFSET_def
  XGPIOPS_REG_MASK_OFFSET_def XGPIOPS_BANK0_def PS_COMPONENT_IS_READY_def XPLAT_ZYNQ_ULTRA_MP_def

record XGpioPs_Config =
  pscfg_DeviceId :: u16
  pscfg_BaseAddr :: u32

record XGpioPs =
  ps_DeviceId :: u16
  ps_BaseAddr :: u32
  ps_IsReady :: u32
  ps_Platform :: u32
  ps_MaxPinNum :: u32
  ps_MaxBanks :: u8

definition XGpioPs_ConfigTable :: "XGpioPs_Config list" where
  "XGpioPs_ConfigTable = [\<lparr>pscfg_DeviceId = 0, pscfg_BaseAddr = 0xFF0A0000\<rparr>]"

definition XGpioPs_LookupConfig :: "u16 \<Rightarrow> XGpioPs_Config option" where
  "XGpioPs_LookupConfig DeviceId = find (\<lambda>c. pscfg_DeviceId c = DeviceId) XGpioPs_ConfigTable"

text \<open>The address is computed in \<open>u32\<close>.\<close>

definition XGpioPs_ReadReg :: "'h bus \<Rightarrow> u32 \<Rightarrow> u32 \<Rightarrow> 'h \<Rightarrow> u32 \<times> 'h" where
  "XGpioPs_ReadReg B base off h = in32 B (ucast (base + off)) h"

definition XGpioPs_WriteReg :: "'h bus \<Rightarrow> u32 \<Rightarrow> u32 \<Rightarrow> u32 \<Rightarrow> 'h \<Rightarrow> 'h" where
  "XGpioPs_WriteReg B base off v h = out32 B (ucast (base + off)) v h"

section \<open>Initialisation\<close>

fun disable_banks :: "'h bus \<Rightarrow> u32 \<Rightarrow> nat \<Rightarrow> nat \<Rightarrow> 'h \<Rightarrow> 'h" where
  "disable_banks B base i 0 h = h"
| "disable_banks B base i (Suc n) h =
     disable_banks B base (Suc i) n
       (XGpioPs_WriteReg B base (of_nat i * XGPIOPS_REG_MASK_OFFSET + XGPIOPS_INTDIS_OFFSET) 0xFFFFFFFF h)"

definition XGpioPs_CfgInitialize ::
    "'h bus \<Rightarrow> XGpioPs_Config \<Rightarrow> u32 \<Rightarrow> 'h \<Rightarrow> (int \<times> XGpioPs \<times> 'h) option" where
  "XGpioPs_CfgInitialize B Config EffectiveAddr h =
     (if EffectiveAddr = 0 then None
      else
        let (pins, banks) = (if XGetPlatform_Info = XPLAT_ZYNQ_ULTRA_MP then (174, 6) else (118, 4));
            h = disable_banks B EffectiveAddr 0 (unat banks) h
        in Some (XST_SUCCESS,
             \<lparr>ps_DeviceId = pscfg_DeviceId Config, ps_BaseAddr = EffectiveAddr,
              ps_IsReady = PS_COMPONENT_IS_READY, ps_Platform = XGetPlatform_Info,
              ps_MaxPinNum = pins, ps_MaxBanks = banks\<rparr>, h))"

section \<open>Pins\<close>

text \<open>
  The table of the last pin of each bank and the search loop of \<open>XGpioPs_GetBankPin\<close>; the
  pin within the bank is a remainder by the size of all banks below.
\<close>

definition pin_table :: "u32 \<Rightarrow> u32 list" where
  "pin_table Platform =
     (if Platform = XPLAT_ZYNQ_ULTRA_MP then [25, 51, 77, 109, 141, 173] else [31, 53, 85, 117])"

fun bank_search :: "u32 list \<Rightarrow> u8 \<Rightarrow> u8 \<Rightarrow> u8" where
  "bank_search [] PinNumber Bank = Bank"
| "bank_search (t # ts) PinNumber Bank =
     (if ucast PinNumber \<le> t then Bank else bank_search ts PinNumber (Bank + 1))"

definition XGpioPs_GetBankPin :: "u8 \<Rightarrow> u8 \<times> u8" where
  "XGpioPs_GetBankPin PinNumber =
     (let table = pin_table XGetPlatform_Info;
          Bank = bank_search table PinNumber 0
      in (Bank, if Bank = 0 then PinNumber
                else ucast (ucast PinNumber mod (table ! unat (Bank - 1) + 1))))"

definition pin_ok :: "XGpioPs \<Rightarrow> u32 \<Rightarrow> bool" where
  "pin_ok g Pin \<longleftrightarrow> ps_IsReady g = PS_COMPONENT_IS_READY \<and> Pin < ps_MaxPinNum g"

definition bank_ok :: "XGpioPs \<Rightarrow> u8 \<Rightarrow> bool" where
  "bank_ok g Bank \<longleftrightarrow> ps_IsReady g = PS_COMPONENT_IS_READY \<and> Bank < ps_MaxBanks g"

definition XGpioPs_Read :: "'h bus \<Rightarrow> XGpioPs \<Rightarrow> u8 \<Rightarrow> 'h \<Rightarrow> (u32 \<times> 'h) option" where
  "XGpioPs_Read B g Bank h =
     (if bank_ok g Bank
      then Some (XGpioPs_ReadReg B (ps_BaseAddr g) (ucast Bank * XGPIOPS_DATA_BANK_OFFSET + XGPIOPS_DATA_RO_OFFSET) h)
      else None)"

definition XGpioPs_ReadPin :: "'h bus \<Rightarrow> XGpioPs \<Rightarrow> u32 \<Rightarrow> 'h \<Rightarrow> (u32 \<times> 'h) option" where
  "XGpioPs_ReadPin B g Pin h =
     (if pin_ok g Pin
      then let (Bank, PinNumber) = XGpioPs_GetBankPin (ucast Pin);
               (v, h) = XGpioPs_ReadReg B (ps_BaseAddr g)
                          (ucast Bank * XGPIOPS_DATA_BANK_OFFSET + XGPIOPS_DATA_RO_OFFSET) h
           in Some (drop_bit (unat PinNumber) v AND 1, h)
      else None)"

definition XGpioPs_Write :: "'h bus \<Rightarrow> XGpioPs \<Rightarrow> u8 \<Rightarrow> u32 \<Rightarrow> 'h \<Rightarrow> 'h option" where
  "XGpioPs_Write B g Bank Data h =
     (if bank_ok g Bank
      then Some (XGpioPs_WriteReg B (ps_BaseAddr g) (ucast Bank * XGPIOPS_DATA_BANK_OFFSET + XGPIOPS_DATA_OFFSET) Data h)
      else None)"

text \<open>The masked write: the upper half selects the pins, a set bit leaves its pin alone.\<close>

definition masked_value :: "u8 \<Rightarrow> u32 \<Rightarrow> u32" where
  "masked_value PinNumber Data =
     NOT (push_bit (unat PinNumber + 16) 1) AND (push_bit (unat PinNumber) (Data AND 1) OR 0xFFFF0000)"

definition XGpioPs_WritePin :: "'h bus \<Rightarrow> XGpioPs \<Rightarrow> u32 \<Rightarrow> u32 \<Rightarrow> 'h \<Rightarrow> 'h option" where
  "XGpioPs_WritePin B g Pin Data h =
     (if pin_ok g Pin
      then let (Bank, PinNumber) = XGpioPs_GetBankPin (ucast Pin);
               (PinNumber, RegOffset) =
                 (if PinNumber > 15 then (PinNumber - 16, XGPIOPS_DATA_MSW_OFFSET)
                  else (PinNumber, XGPIOPS_DATA_LSW_OFFSET))
           in Some (XGpioPs_WriteReg B (ps_BaseAddr g)
                      (ucast Bank * XGPIOPS_DATA_MASK_OFFSET + RegOffset) (masked_value PinNumber Data) h)
      else None)"

text \<open>Setting or clearing one pin's bit in a register of the bank.\<close>

definition update_pin :: "'h bus \<Rightarrow> XGpioPs \<Rightarrow> u32 \<Rightarrow> u32 \<Rightarrow> u32 \<Rightarrow> 'h \<Rightarrow> 'h" where
  "update_pin B g Offset Pin v h =
     (let (Bank, PinNumber) = XGpioPs_GetBankPin (ucast Pin);
          off = ucast Bank * XGPIOPS_REG_MASK_OFFSET + Offset;
          (r, h) = XGpioPs_ReadReg B (ps_BaseAddr g) off h;
          r = (if v \<noteq> 0 then r OR push_bit (unat PinNumber) 1
               else r AND NOT (push_bit (unat PinNumber) 1))
      in XGpioPs_WriteReg B (ps_BaseAddr g) off r h)"

text \<open>Reading one pin's bit of a register of the bank.\<close>

definition read_pin :: "'h bus \<Rightarrow> XGpioPs \<Rightarrow> u32 \<Rightarrow> u32 \<Rightarrow> 'h \<Rightarrow> u32 \<times> 'h" where
  "read_pin B g Offset Pin h =
     (let (Bank, PinNumber) = XGpioPs_GetBankPin (ucast Pin);
          (r, h) = XGpioPs_ReadReg B (ps_BaseAddr g) (ucast Bank * XGPIOPS_REG_MASK_OFFSET + Offset) h
      in (drop_bit (unat PinNumber) r AND 1, h))"

definition XGpioPs_SetDirection :: "'h bus \<Rightarrow> XGpioPs \<Rightarrow> u8 \<Rightarrow> u32 \<Rightarrow> 'h \<Rightarrow> 'h option" where
  "XGpioPs_SetDirection B g Bank Direction h =
     (if bank_ok g Bank
      then Some (XGpioPs_WriteReg B (ps_BaseAddr g) (ucast Bank * XGPIOPS_REG_MASK_OFFSET + XGPIOPS_DIRM_OFFSET) Direction h)
      else None)"

definition XGpioPs_GetDirection :: "'h bus \<Rightarrow> XGpioPs \<Rightarrow> u8 \<Rightarrow> 'h \<Rightarrow> (u32 \<times> 'h) option" where
  "XGpioPs_GetDirection B g Bank h =
     (if bank_ok g Bank
      then Some (XGpioPs_ReadReg B (ps_BaseAddr g) (ucast Bank * XGPIOPS_REG_MASK_OFFSET + XGPIOPS_DIRM_OFFSET) h)
      else None)"

definition XGpioPs_SetDirectionPin :: "'h bus \<Rightarrow> XGpioPs \<Rightarrow> u32 \<Rightarrow> u32 \<Rightarrow> 'h \<Rightarrow> 'h option" where
  "XGpioPs_SetDirectionPin B g Pin Direction h =
     (if pin_ok g Pin \<and> Direction \<le> 1 then Some (update_pin B g XGPIOPS_DIRM_OFFSET Pin Direction h) else None)"

definition XGpioPs_GetDirectionPin :: "'h bus \<Rightarrow> XGpioPs \<Rightarrow> u32 \<Rightarrow> 'h \<Rightarrow> (u32 \<times> 'h) option" where
  "XGpioPs_GetDirectionPin B g Pin h =
     (if pin_ok g Pin then Some (read_pin B g XGPIOPS_DIRM_OFFSET Pin h) else None)"

definition XGpioPs_SetOutputEnable :: "'h bus \<Rightarrow> XGpioPs \<Rightarrow> u8 \<Rightarrow> u32 \<Rightarrow> 'h \<Rightarrow> 'h option" where
  "XGpioPs_SetOutputEnable B g Bank OpEnable h =
     (if bank_ok g Bank
      then Some (XGpioPs_WriteReg B (ps_BaseAddr g) (ucast Bank * XGPIOPS_REG_MASK_OFFSET + XGPIOPS_OUTEN_OFFSET) OpEnable h)
      else None)"

definition XGpioPs_GetOutputEnable :: "'h bus \<Rightarrow> XGpioPs \<Rightarrow> u8 \<Rightarrow> 'h \<Rightarrow> (u32 \<times> 'h) option" where
  "XGpioPs_GetOutputEnable B g Bank h =
     (if bank_ok g Bank
      then Some (XGpioPs_ReadReg B (ps_BaseAddr g) (ucast Bank * XGPIOPS_REG_MASK_OFFSET + XGPIOPS_OUTEN_OFFSET) h)
      else None)"

definition XGpioPs_SetOutputEnablePin :: "'h bus \<Rightarrow> XGpioPs \<Rightarrow> u32 \<Rightarrow> u32 \<Rightarrow> 'h \<Rightarrow> 'h option" where
  "XGpioPs_SetOutputEnablePin B g Pin OpEnable h =
     (if pin_ok g Pin \<and> OpEnable \<le> 1 then Some (update_pin B g XGPIOPS_OUTEN_OFFSET Pin OpEnable h) else None)"

definition XGpioPs_GetOutputEnablePin :: "'h bus \<Rightarrow> XGpioPs \<Rightarrow> u32 \<Rightarrow> 'h \<Rightarrow> (u32 \<times> 'h) option" where
  "XGpioPs_GetOutputEnablePin B g Pin h =
     (if pin_ok g Pin then Some (read_pin B g XGPIOPS_OUTEN_OFFSET Pin h) else None)"

section \<open>Interrupt registers and self-test\<close>

text \<open>The register of a bank.\<close>

definition bank_reg :: "u8 \<Rightarrow> u32 \<Rightarrow> u32" where
  "bank_reg Bank Offset = ucast Bank * XGPIOPS_REG_MASK_OFFSET + Offset"

definition XGpioPs_IntrEnable :: "'h bus \<Rightarrow> XGpioPs \<Rightarrow> u8 \<Rightarrow> u32 \<Rightarrow> 'h \<Rightarrow> 'h option" where
  "XGpioPs_IntrEnable B g Bank Mask h =
     (if bank_ok g Bank
      then Some (XGpioPs_WriteReg B (ps_BaseAddr g) (bank_reg Bank XGPIOPS_INTEN_OFFSET) Mask h) else None)"

definition XGpioPs_IntrDisable :: "'h bus \<Rightarrow> XGpioPs \<Rightarrow> u8 \<Rightarrow> u32 \<Rightarrow> 'h \<Rightarrow> 'h option" where
  "XGpioPs_IntrDisable B g Bank Mask h =
     (if bank_ok g Bank
      then Some (XGpioPs_WriteReg B (ps_BaseAddr g) (bank_reg Bank XGPIOPS_INTDIS_OFFSET) Mask h) else None)"

definition XGpioPs_IntrGetEnabled :: "'h bus \<Rightarrow> XGpioPs \<Rightarrow> u8 \<Rightarrow> 'h \<Rightarrow> (u32 \<times> 'h) option" where
  "XGpioPs_IntrGetEnabled B g Bank h =
     (if bank_ok g Bank
      then let (IntrMask, h) = XGpioPs_ReadReg B (ps_BaseAddr g) (bank_reg Bank XGPIOPS_INTMASK_OFFSET) h
           in Some (NOT IntrMask, h)
      else None)"

definition XGpioPs_SetIntrType ::
    "'h bus \<Rightarrow> XGpioPs \<Rightarrow> u8 \<Rightarrow> u32 \<Rightarrow> u32 \<Rightarrow> u32 \<Rightarrow> 'h \<Rightarrow> 'h option" where
  "XGpioPs_SetIntrType B g Bank IntrType IntrPolarity IntrOnAny h =
     (if bank_ok g Bank
      then let h = XGpioPs_WriteReg B (ps_BaseAddr g) (bank_reg Bank XGPIOPS_INTTYPE_OFFSET) IntrType h;
               h = XGpioPs_WriteReg B (ps_BaseAddr g) (bank_reg Bank XGPIOPS_INTPOL_OFFSET) IntrPolarity h
           in Some (XGpioPs_WriteReg B (ps_BaseAddr g) (bank_reg Bank XGPIOPS_INTANY_OFFSET) IntrOnAny h)
      else None)"

definition XGpioPs_GetIntrType ::
    "'h bus \<Rightarrow> XGpioPs \<Rightarrow> u8 \<Rightarrow> 'h \<Rightarrow> (u32 \<times> u32 \<times> u32 \<times> 'h) option" where
  "XGpioPs_GetIntrType B g Bank h =
     (if bank_ok g Bank
      then let (IntrType, h) = XGpioPs_ReadReg B (ps_BaseAddr g) (bank_reg Bank XGPIOPS_INTTYPE_OFFSET) h;
               (IntrPolarity, h) = XGpioPs_ReadReg B (ps_BaseAddr g) (bank_reg Bank XGPIOPS_INTPOL_OFFSET) h;
               (IntrOnAny, h) = XGpioPs_ReadReg B (ps_BaseAddr g) (bank_reg Bank XGPIOPS_INTANY_OFFSET) h
           in Some (IntrType, IntrPolarity, IntrOnAny, h)
      else None)"

definition XGpioPs_SelfTest :: "'h bus \<Rightarrow> XGpioPs \<Rightarrow> 'h \<Rightarrow> (int \<times> 'h) option" where
  "XGpioPs_SelfTest B g h = do {
     (IntrEnabled, h) \<leftarrow> XGpioPs_IntrGetEnabled B g XGPIOPS_BANK0 h;
     h \<leftarrow> XGpioPs_IntrDisable B g XGPIOPS_BANK0 IntrEnabled h;
     (CurrentType, CurrentPolarity, CurrentOnAny, h) \<leftarrow> XGpioPs_GetIntrType B g XGPIOPS_BANK0 h;
     h \<leftarrow> XGpioPs_SetIntrType B g XGPIOPS_BANK0 0x22 0x22 0x22 h;
     (IntrType, IntrPolarity, IntrOnAny, h) \<leftarrow> XGpioPs_GetIntrType B g XGPIOPS_BANK0 h;
     let Status = (if IntrType \<noteq> 0x22 \<and> IntrPolarity \<noteq> 0x22 \<and> IntrOnAny \<noteq> 0x22
                   then XST_FAILURE else XST_SUCCESS);
     h \<leftarrow> XGpioPs_SetIntrType B g XGPIOPS_BANK0 CurrentType CurrentPolarity CurrentOnAny h;
     h \<leftarrow> XGpioPs_IntrEnable B g XGPIOPS_BANK0 IntrEnabled h;
     Some (Status, h)
   }"

section \<open>Facts\<close>

text \<open>An instance of the board's controller, as initialisation leaves it.\<close>

definition ps_ready :: "XGpioPs \<Rightarrow> bool" where
  "ps_ready g \<longleftrightarrow> ps_IsReady g = PS_COMPONENT_IS_READY \<and> ps_BaseAddr g = 0xFF0A0000 \<and>
     ps_MaxPinNum g = 174 \<and> ps_MaxBanks g = 6"

lemma ps_ready_pin: "ps_ready g \<Longrightarrow> pin_ok g Pin \<longleftrightarrow> Pin < 174"
  by (simp add: ps_ready_def pin_ok_def)

lemma ps_ready_bank: "ps_ready g \<Longrightarrow> bank_ok g Bank \<longleftrightarrow> Bank < 6"
  by (simp add: ps_ready_def bank_ok_def)

text \<open>The first pin and the size of each bank of the ZynqMP controller.\<close>

definition bank_start :: "nat \<Rightarrow> nat" where
  "bank_start b = [0, 26, 52, 78, 110, 142] ! b"

definition bank_size :: "nat \<Rightarrow> nat" where
  "bank_size b = [26, 26, 26, 32, 32, 32] ! b"

definition pin_placed :: "nat \<Rightarrow> bool" where
  "pin_placed p \<longleftrightarrow>
     (case XGpioPs_GetBankPin (of_nat p) of (Bank, n) \<Rightarrow>
        Bank < 6 \<and> unat n < bank_size (unat Bank) \<and> bank_start (unat Bank) + unat n = p)"

lemma pins_placed: "list_all pin_placed [0..<174]"
  by code_simp

text \<open>The masked write changes the pin it names and no other.\<close>

lemma bit_masked_value:
  assumes "unat n < 16" "k < 16"
  shows "bit (masked_value n d) (k + 16) \<longleftrightarrow> k \<noteq> unat n"
    and "bit (masked_value n d) (unat n) \<longleftrightarrow> bit d 0"
proof -
  have hi: "bit (0xFFFF0000 :: u32) j \<longleftrightarrow> 16 \<le> j \<and> j < 32" for j
  proof -
    have "(0xFFFF0000 :: u32) = push_bit 16 (mask 16)" by (simp add: mask_eq_exp_minus_1)
    then show ?thesis by (simp only: bit_push_bit_iff bit_mask_iff) auto
  qed
  note bits = masked_value_def bit_and_iff bit_or_iff bit_not_iff_eq bit_push_bit_iff bit_1_iff hi
  show "bit (masked_value n d) (k + 16) \<longleftrightarrow> k \<noteq> unat n"
    unfolding bits using assms by (auto simp: exp_eq_zero_iff)
  show "bit (masked_value n d) (unat n) \<longleftrightarrow> bit d 0"
    unfolding bits using assms by (auto simp: exp_eq_zero_iff)
qed

text \<open>
  Every one of the 174 pins lies in the bank, and at the place in it, that the bank table
  of the processor gives it: the banks are six ranges that follow each other.
\<close>

lemma every_pin_placed: "\<forall>p. p < 174 \<longrightarrow> pin_placed p"
  using pins_placed by (simp add: list_all_iff)

end
