(* ===== verification/I2c.thy ===== *)
theory I2c
  imports GpioPs
begin

text \<open>
  The bit-banged I2C master (\<open>libatca/hal/i2c_bitbang_boe.c\<close>, \<open>i2c_bitbang_boe.h\<close>) over the
  GPIO driver, and the status codes of the library (\<open>atca_status.h\<close>). The globals of the
  file and the GPIO hardware are the record \<open>i2c\<close>. The delays change nothing the code
  reads. \<open>None\<close> is a call that never returns: a failed assertion of the driver, or a wait
  for the data line that never ends. The last sections read the register accesses as the
  waveform on the two lines: START, STOP, clock pulses and samples.
\<close>

section \<open>Status codes\<close>

datatype ATCA_STATUS =
    ATCA_SUCCESS | ATCA_CONFIG_ZONE_LOCKED | ATCA_DATA_ZONE_LOCKED | ATCA_WAKE_FAILED
  | ATCA_CHECKMAC_VERIFY_FAILED | ATCA_PARSE_ERROR | ATCA_STATUS_CRC | ATCA_STATUS_UNKNOWN
  | ATCA_STATUS_ECC | ATCA_STATUS_SELFTEST_ERROR | ATCA_FUNC_FAIL | ATCA_GEN_FAIL
  | ATCA_BAD_PARAM | ATCA_INVALID_ID | ATCA_INVALID_SIZE | ATCA_RX_CRC_ERROR | ATCA_RX_FAIL
  | ATCA_RX_NO_RESPONSE | ATCA_RESYNC_WITH_WAKEUP | ATCA_PARITY_ERROR | ATCA_TX_TIMEOUT
  | ATCA_RX_TIMEOUT | ATCA_TOO_MANY_COMM_RETRIES | ATCA_SMALL_BUFFER | ATCA_COMM_FAIL
  | ATCA_TIMEOUT | ATCA_BAD_OPCODE | ATCA_WAKE_SUCCESS | ATCA_EXECUTION_ERROR
  | ATCA_UNIMPLEMENTED | ATCA_ASSERT_FAILURE | ATCA_TX_FAIL | ATCA_NOT_LOCKED
  | ATCA_NO_DEVICES | ATCA_HEALTH_TEST_ERROR

fun status_code :: "ATCA_STATUS \<Rightarrow> int" where
  "status_code ATCA_SUCCESS = 0x00"
| "status_code ATCA_CONFIG_ZONE_LOCKED = 0x01"
| "status_code ATCA_DATA_ZONE_LOCKED = 0x02"
| "status_code ATCA_WAKE_FAILED = 0xD0"
| "status_code ATCA_CHECKMAC_VERIFY_FAILED = 0xD1"
| "status_code ATCA_PARSE_ERROR = 0xD2"
| "status_code ATCA_STATUS_CRC = 0xD4"
| "status_code ATCA_STATUS_UNKNOWN = 0xD5"
| "status_code ATCA_STATUS_ECC = 0xD6"
| "status_code ATCA_STATUS_SELFTEST_ERROR = 0xD7"
| "status_code ATCA_FUNC_FAIL = 0xE0"
| "status_code ATCA_GEN_FAIL = 0xE1"
| "status_code ATCA_BAD_PARAM = 0xE2"
| "status_code ATCA_INVALID_ID = 0xE3"
| "status_code ATCA_INVALID_SIZE = 0xE4"
| "status_code ATCA_RX_CRC_ERROR = 0xE5"
| "status_code ATCA_RX_FAIL = 0xE6"
| "status_code ATCA_RX_NO_RESPONSE = 0xE7"
| "status_code ATCA_RESYNC_WITH_WAKEUP = 0xE8"
| "status_code ATCA_PARITY_ERROR = 0xE9"
| "status_code ATCA_TX_TIMEOUT = 0xEA"
| "status_code ATCA_RX_TIMEOUT = 0xEB"
| "status_code ATCA_TOO_MANY_COMM_RETRIES = 0xEC"
| "status_code ATCA_SMALL_BUFFER = 0xED"
| "status_code ATCA_COMM_FAIL = 0xF0"
| "status_code ATCA_TIMEOUT = 0xF1"
| "status_code ATCA_BAD_OPCODE = 0xF2"
| "status_code ATCA_WAKE_SUCCESS = 0xF3"
| "status_code ATCA_EXECUTION_ERROR = 0xF4"
| "status_code ATCA_UNIMPLEMENTED = 0xF5"
| "status_code ATCA_ASSERT_FAILURE = 0xF6"
| "status_code ATCA_TX_FAIL = 0xF7"
| "status_code ATCA_NOT_LOCKED = 0xF8"
| "status_code ATCA_NO_DEVICES = 0xF9"
| "status_code ATCA_HEALTH_TEST_ERROR = 0xFA"

lemma status_code_0 [simp]: "status_code st = 0 \<longleftrightarrow> st = ATCA_SUCCESS"
  by (cases st) simp_all

section \<open>The lines\<close>

definition BOE_I2C_DAT :: u32 where "BOE_I2C_DAT = 29"
definition BOE_I2C_SCL :: u32 where "BOE_I2C_SCL = 28"
definition BOE_INPUT :: u32 where "BOE_INPUT = 0"
definition BOE_OUTPUT :: u32 where "BOE_OUTPUT = 1"
definition MAX_I2C_BUSES :: nat where "MAX_I2C_BUSES = 1"
definition I2C_ACK_TIMEOUT :: nat where "I2C_ACK_TIMEOUT = 300"
definition DEFAULT_I2C_BUS :: int where "DEFAULT_I2C_BUS = 1"
definition GPIO_DEVICE_ID :: u16 where "GPIO_DEVICE_ID = 0"

lemmas i2c_consts [model_eval] =
  BOE_I2C_DAT_def BOE_I2C_SCL_def BOE_INPUT_def BOE_OUTPUT_def MAX_I2C_BUSES_def
  I2C_ACK_TIMEOUT_def DEFAULT_I2C_BUS_def GPIO_DEVICE_ID_def

record 'h i2c =
  i2cGpio :: XGpioPs
  pin_sda :: u8
  pin_scl :: u8
  b_init :: bool
  i2c_hw :: 'h

type_synonym 'h i2c_op = "'h i2c \<Rightarrow> 'h i2c option"

definition on_gpio :: "(XGpioPs \<Rightarrow> 'h \<Rightarrow> 'h option) \<Rightarrow> 'h i2c_op" where
  "on_gpio f s = map_option (\<lambda>h. s\<lparr>i2c_hw := h\<rparr>) (f (i2cGpio s) (i2c_hw s))"

definition I2C_ENABLE :: "'h bus \<Rightarrow> 'h i2c_op" where
  "I2C_ENABLE B s = do {
     s \<leftarrow> on_gpio (\<lambda>g. XGpioPs_SetDirectionPin B g BOE_I2C_DAT BOE_OUTPUT) s;
     s \<leftarrow> on_gpio (\<lambda>g. XGpioPs_SetOutputEnablePin B g BOE_I2C_DAT 1) s;
     s \<leftarrow> on_gpio (\<lambda>g. XGpioPs_SetDirectionPin B g BOE_I2C_SCL BOE_OUTPUT) s;
     on_gpio (\<lambda>g. XGpioPs_SetOutputEnablePin B g BOE_I2C_SCL 1) s
   }"

definition I2C_DISABLE :: "'h bus \<Rightarrow> 'h i2c_op" where
  "I2C_DISABLE B s = do {
     s \<leftarrow> on_gpio (\<lambda>g. XGpioPs_SetDirectionPin B g BOE_I2C_DAT BOE_INPUT) s;
     on_gpio (\<lambda>g. XGpioPs_SetDirectionPin B g BOE_I2C_SCL BOE_INPUT) s
   }"

definition I2C_CLOCK_LOW :: "'h bus \<Rightarrow> 'h i2c_op" where
  "I2C_CLOCK_LOW B = on_gpio (\<lambda>g. XGpioPs_WritePin B g BOE_I2C_SCL 0)"

definition I2C_CLOCK_HIGH :: "'h bus \<Rightarrow> 'h i2c_op" where
  "I2C_CLOCK_HIGH B = on_gpio (\<lambda>g. XGpioPs_WritePin B g BOE_I2C_SCL 1)"

definition I2C_DATA_LOW :: "'h bus \<Rightarrow> 'h i2c_op" where
  "I2C_DATA_LOW B = on_gpio (\<lambda>g. XGpioPs_WritePin B g BOE_I2C_DAT 0)"

definition I2C_DATA_HIGH :: "'h bus \<Rightarrow> 'h i2c_op" where
  "I2C_DATA_HIGH B = on_gpio (\<lambda>g. XGpioPs_WritePin B g BOE_I2C_DAT 1)"

definition I2C_DATA_IN :: "'h bus \<Rightarrow> 'h i2c \<Rightarrow> (u32 \<times> 'h i2c) option" where
  "I2C_DATA_IN B s =
     map_option (\<lambda>(v, h). (v, s\<lparr>i2c_hw := h\<rparr>)) (XGpioPs_ReadPin B (i2cGpio s) BOE_I2C_DAT (i2c_hw s))"

definition I2C_SET_OUTPUT :: "'h bus \<Rightarrow> 'h i2c_op" where
  "I2C_SET_OUTPUT B s = do {
     s \<leftarrow> on_gpio (\<lambda>g. XGpioPs_SetDirectionPin B g BOE_I2C_DAT BOE_OUTPUT) s;
     on_gpio (\<lambda>g. XGpioPs_SetOutputEnablePin B g BOE_I2C_DAT 1) s
   }"

definition I2C_SET_OUTPUT_HIGH :: "'h bus \<Rightarrow> 'h i2c_op" where
  "I2C_SET_OUTPUT_HIGH B s = do { s \<leftarrow> I2C_SET_OUTPUT B s; I2C_DATA_HIGH B s }"

definition I2C_SET_OUTPUT_LOW :: "'h bus \<Rightarrow> 'h i2c_op" where
  "I2C_SET_OUTPUT_LOW B s = do { s \<leftarrow> I2C_SET_OUTPUT B s; I2C_DATA_LOW B s }"

definition I2C_SET_INPUT :: "'h bus \<Rightarrow> 'h i2c_op" where
  "I2C_SET_INPUT B s = do {
     s \<leftarrow> on_gpio (\<lambda>g. XGpioPs_SetDirectionPin B g BOE_I2C_DAT BOE_INPUT) s;
     on_gpio (\<lambda>g. XGpioPs_SetOutputEnablePin B g BOE_I2C_DAT 1) s
   }"

section \<open>Initialisation and bus states\<close>

definition boe_i2c_init :: "'h bus \<Rightarrow> u16 \<Rightarrow> 'h i2c \<Rightarrow> (int \<times> 'h i2c) option" where
  "boe_i2c_init B DeviceId s =
     (case XGpioPs_LookupConfig DeviceId of
        None \<Rightarrow> Some (XST_FAILURE, s)
      | Some ConfigPtr \<Rightarrow> do {
          (_, g, h) \<leftarrow> XGpioPs_CfgInitialize B ConfigPtr (pscfg_BaseAddr ConfigPtr) (i2c_hw s);
          (Status, h) \<leftarrow> XGpioPs_SelfTest B g h;
          let s = s\<lparr>i2cGpio := g, i2c_hw := h\<rparr>;
          if Status \<noteq> XST_SUCCESS then Some (XST_FAILURE, s)
          else do {
            s \<leftarrow> I2C_CLOCK_LOW B s;
            s \<leftarrow> I2C_DATA_LOW B s;
            s \<leftarrow> I2C_ENABLE B s;
            Some (XST_SUCCESS, s)
          }
        })"

definition boe_i2c_safe :: "'h bus \<Rightarrow> 'h i2c_op" where
  "boe_i2c_safe B s =
     (if \<not> b_init s
      then do { (_, s) \<leftarrow> boe_i2c_init B GPIO_DEVICE_ID s; Some (s\<lparr>b_init := True\<rparr>) }
      else Some s)"

definition i2c_discover_buses :: "'h bus \<Rightarrow> int list \<Rightarrow> 'h i2c \<Rightarrow> (int list \<times> 'h i2c) option" where
  "i2c_discover_buses B i2c_bitbang_buses s = do {
     s \<leftarrow> boe_i2c_safe B s;
     Some (i2c_bitbang_buses[0 := DEFAULT_I2C_BUS], s)
   }"

definition i2c_set_pin :: "'h bus \<Rightarrow> u8 \<Rightarrow> u8 \<Rightarrow> 'h i2c_op" where
  "i2c_set_pin B sda scl s = boe_i2c_safe B (s\<lparr>pin_sda := sda, pin_scl := scl\<rparr>)"

definition i2c_enable :: "'h bus \<Rightarrow> 'h i2c_op" where
  "i2c_enable B s = do {
     s \<leftarrow> boe_i2c_safe B s;
     s \<leftarrow> I2C_ENABLE B s;
     s \<leftarrow> I2C_DATA_HIGH B s;
     I2C_CLOCK_HIGH B s
   }"

definition i2c_disable :: "'h bus \<Rightarrow> 'h i2c_op" where
  "i2c_disable B s = do { s \<leftarrow> boe_i2c_safe B s; I2C_DISABLE B s }"

definition i2c_send_start :: "'h bus \<Rightarrow> 'h i2c_op" where
  "i2c_send_start B s = do {
     s \<leftarrow> boe_i2c_safe B s;
     s \<leftarrow> I2C_CLOCK_HIGH B s;
     s \<leftarrow> I2C_SET_OUTPUT_HIGH B s;
     s \<leftarrow> I2C_DATA_LOW B s;
     I2C_CLOCK_LOW B s
   }"

text \<open>The wait for the data line: \<open>while (I2C_DATA_IN())\<close> and \<open>while (!I2C_DATA_IN())\<close>.\<close>

partial_function (option) line_wait :: "'h bus \<Rightarrow> bool \<Rightarrow> 'h i2c \<Rightarrow> 'h i2c option" where
  "line_wait B level s =
     Option.bind (I2C_DATA_IN B s) (\<lambda>(v, s). if (v \<noteq> 0) = level then Some s else line_wait B level s)"

definition i2c_send_ack :: "'h bus \<Rightarrow> u8 \<Rightarrow> 'h i2c_op" where
  "i2c_send_ack B ack s = do {
     s \<leftarrow> boe_i2c_safe B s;
     s \<leftarrow> (if ack \<noteq> 0 then do { s \<leftarrow> I2C_SET_OUTPUT_LOW B s; line_wait B False s }
          else do { s \<leftarrow> I2C_SET_OUTPUT_HIGH B s; line_wait B True s });
     s \<leftarrow> I2C_CLOCK_HIGH B s;
     I2C_CLOCK_LOW B s
   }"

definition i2c_send_stop :: "'h bus \<Rightarrow> 'h i2c_op" where
  "i2c_send_stop B s = do {
     s \<leftarrow> boe_i2c_safe B s;
     s \<leftarrow> I2C_SET_OUTPUT_LOW B s;
     s \<leftarrow> I2C_CLOCK_HIGH B s;
     I2C_DATA_HIGH B s
   }"

definition i2c_send_wake_token :: "'h bus \<Rightarrow> 'h i2c_op" where
  "i2c_send_wake_token B s = do {
     s \<leftarrow> boe_i2c_safe B s;
     s \<leftarrow> I2C_DATA_LOW B s;
     I2C_DATA_HIGH B s
   }"

section \<open>Bytes\<close>

text \<open>The loop over the data bits, the byte shifted left at each clock.\<close>

fun send_bits :: "'h bus \<Rightarrow> nat \<Rightarrow> u8 \<Rightarrow> 'h i2c_op" where
  "send_bits B 0 i2c_byte s = Some s"
| "send_bits B (Suc n) i2c_byte s = do {
     s \<leftarrow> I2C_CLOCK_LOW B s;
     s \<leftarrow> (if i2c_byte AND 0x80 \<noteq> 0 then I2C_DATA_HIGH B s else I2C_DATA_LOW B s);
     s \<leftarrow> I2C_CLOCK_HIGH B s;
     send_bits B n (push_bit 1 i2c_byte) s
   }"

text \<open>At most \<open>n\<close> looks at the data line for the acknowledge.\<close>

fun poll_ack :: "'h bus \<Rightarrow> nat \<Rightarrow> 'h i2c \<Rightarrow> (ATCA_STATUS \<times> 'h i2c) option" where
  "poll_ack B 0 s = Some (ATCA_TX_TIMEOUT, s)"
| "poll_ack B (Suc n) s = do {
     (v, s) \<leftarrow> I2C_DATA_IN B s;
     if v = 0 then Some (ATCA_SUCCESS, s) else poll_ack B n s
   }"

definition i2c_send_byte :: "'h bus \<Rightarrow> u8 \<Rightarrow> 'h i2c \<Rightarrow> (ATCA_STATUS \<times> 'h i2c) option" where
  "i2c_send_byte B i2c_byte s = do {
     s \<leftarrow> (if i2c_byte AND 0x80 \<noteq> 0 then I2C_SET_OUTPUT_HIGH B s else I2C_SET_OUTPUT_LOW B s);
     s \<leftarrow> send_bits B 8 i2c_byte s;
     s \<leftarrow> I2C_CLOCK_LOW B s;
     s \<leftarrow> I2C_SET_INPUT B s;
     s \<leftarrow> I2C_CLOCK_HIGH B s;
     (status, s) \<leftarrow> poll_ack B I2C_ACK_TIMEOUT s;
     s \<leftarrow> I2C_CLOCK_LOW B s;
     Some (status, s)
   }"

text \<open>The loop of \<open>i2c_send_bytes\<close> from index \<open>i\<close> on, \<open>n\<close> bytes to go.\<close>

fun send_bytes_from ::
    "'h bus \<Rightarrow> u8 list \<Rightarrow> nat \<Rightarrow> nat \<Rightarrow> ATCA_STATUS \<Rightarrow> 'h i2c \<Rightarrow> (fault + (ATCA_STATUS \<times> 'h i2c)) option" where
  "send_bytes_from B data i 0 status s = Some (Inr (status, s))"
| "send_bytes_from B data i (Suc n) status s =
     (if i < length data
      then case i2c_send_byte B (data ! i) s of
          None \<Rightarrow> None
        | Some (status, s) \<Rightarrow>
            if status \<noteq> ATCA_SUCCESS then Some (Inr (if i > 0 then ATCA_TX_FAIL else status, s))
            else send_bytes_from B data (Suc i) n status s
      else Some (Inl OutOfBounds))"

definition i2c_send_bytes ::
    "'h bus \<Rightarrow> u8 \<Rightarrow> u8 list \<Rightarrow> 'h i2c \<Rightarrow> (fault + (ATCA_STATUS \<times> 'h i2c)) option" where
  "i2c_send_bytes B count data = send_bytes_from B data 0 (unat count) ATCA_TX_TIMEOUT"

text \<open>The loop over the mask \<open>i\<close>, which is shifted right until it is zero.\<close>

function receive_bits :: "'h bus \<Rightarrow> u8 \<Rightarrow> u8 \<Rightarrow> 'h i2c \<Rightarrow> (u8 \<times> 'h i2c) option" where
  "receive_bits B i i2c_byte s =
     (if i = 0 then Some (i2c_byte, s)
      else do {
        s \<leftarrow> I2C_CLOCK_HIGH B s;
        (v, s) \<leftarrow> I2C_DATA_IN B s;
        s \<leftarrow> I2C_CLOCK_LOW B s;
        receive_bits B (drop_bit 1 i) (if v \<noteq> 0 then i2c_byte OR i else i2c_byte) s
      })"
  by pat_completeness auto
termination
proof (relation "measure (\<lambda>(B, i, b, s). unat i)", goal_cases)
  case (2 B i b s)
  have "unat (drop_bit 1 i) = unat i div 2" by (subst unat_drop_bit_eq) (simp add: drop_bit_eq_div)
  moreover have "0 < unat i" using 2(1) by (simp add: unat_gt_0)
  ultimately show ?case by simp
qed simp

declare receive_bits.simps [simp del]

definition i2c_receive_one_byte :: "'h bus \<Rightarrow> u8 \<Rightarrow> 'h i2c \<Rightarrow> (u8 \<times> 'h i2c) option" where
  "i2c_receive_one_byte B ack s = do {
     s \<leftarrow> I2C_SET_INPUT B s;
     (i2c_byte, s) \<leftarrow> receive_bits B 0x80 0 s;
     s \<leftarrow> i2c_send_ack B ack s;
     Some (i2c_byte, s)
   }"

definition i2c_receive_byte :: "'h bus \<Rightarrow> 'h i2c \<Rightarrow> (u8 \<times> 'h i2c) option" where
  "i2c_receive_byte B = i2c_receive_one_byte B 1"

text \<open>\<open>n\<close> bytes, each acknowledged: \<open>while (--count)\<close>.\<close>

fun receive_acked :: "'h bus \<Rightarrow> nat \<Rightarrow> 'h i2c \<Rightarrow> (u8 list \<times> 'h i2c) option" where
  "receive_acked B 0 s = Some ([], s)"
| "receive_acked B (Suc n) s = do {
     (b, s) \<leftarrow> i2c_receive_one_byte B 1 s;
     (bs, s) \<leftarrow> receive_acked B n s;
     Some (b # bs, s)
   }"

text \<open>The bytes that \<open>i2c_receive_bytes\<close> stores; \<open>--count\<close> of 0 is 255.\<close>

definition i2c_receive_bytes :: "'h bus \<Rightarrow> u8 \<Rightarrow> 'h i2c \<Rightarrow> (u8 list \<times> 'h i2c) option" where
  "i2c_receive_bytes B count s = do {
     (bs, s) \<leftarrow> receive_acked B (unat (count - 1)) s;
     (b, s) \<leftarrow> i2c_receive_one_byte B 0 s;
     s \<leftarrow> i2c_send_stop B s;
     Some (bs @ [b], s)
   }"

end
