(* ===== verification/I2cWave.thy ===== *)
theory I2cWave
  imports I2c
begin

text \<open>
  What the bit-banged master puts on the two lines. \<open>traced\<close> logs the register accesses of
  any hardware; \<open>decode\<close> reads the log as levels of clock and data line and yields the
  events of an I2C bus. The lemmas give the waveform of every bus state and of every byte,
  for every hardware behind the registers; the theorems state them for a whole byte.
\<close>

section \<open>Reading the register log\<close>

datatype access = Rd u64 u32 | Wr u64 u32

definition traced :: "'h bus \<Rightarrow> ('h \<times> access list) bus" where
  "traced B =
     \<lparr>in32 = (\<lambda>a (h, l). let (v, h) = in32 B a h in (v, (h, l @ [Rd a v]))),
      out32 = (\<lambda>a v (h, l). (out32 B a v h, l @ [Wr a v]))\<rparr>"

text \<open>
  The lines as the master drives them: both levels, and whether the data pin is an output.
  A released data line is high unless the slave pulls it down.
\<close>

record wires =
  scl :: bool
  sda :: bool
  sda_out :: bool

definition sda_level :: "wires \<Rightarrow> bool" where
  "sda_level w \<longleftrightarrow> (sda_out w \<longrightarrow> sda w)"

text \<open>\<open>Clock b\<close> is a rising clock edge with the data line driven to \<open>b\<close>, or released.\<close>

datatype i2c_event = Start | Stop | Clock "bool option" | Sample bool

definition DATA_REG :: u64 where "DATA_REG = 0xFF0A0008"
definition DIR_REG :: u64 where "DIR_REG = 0xFF0A0244"
definition IN_REG :: u64 where "IN_REG = 0xFF0A0064"

definition line_events :: "wires \<Rightarrow> wires \<Rightarrow> i2c_event list" where
  "line_events w w' =
     (if \<not> scl w \<and> scl w' then [Clock (if sda_out w' then Some (sda w') else None)]
      else if scl w \<and> scl w' \<and> sda_level w \<and> \<not> sda_level w' then [Start]
      else if scl w \<and> scl w' \<and> \<not> sda_level w \<and> sda_level w' then [Stop]
      else [])"

fun decode1 :: "wires \<Rightarrow> access \<Rightarrow> i2c_event list \<times> wires" where
  "decode1 w (Rd a v) = (if a = IN_REG then [Sample (bit v 3)] else [], w)"
| "decode1 w (Wr a v) =
     (let w' = (if a = DATA_REG
                then w\<lparr>scl := if bit v 18 then scl w else bit v 2, sda := if bit v 19 then sda w else bit v 3\<rparr>
                else if a = DIR_REG then w\<lparr>sda_out := bit v 3\<rparr> else w)
      in (line_events w w', w'))"

fun decode :: "wires \<Rightarrow> access list \<Rightarrow> i2c_event list \<times> wires" where
  "decode w [] = ([], w)"
| "decode w (a # as) =
     (let (es, w) = decode1 w a; (fs, w) = decode w as in (es @ fs, w))"

lemma decode_append:
  "decode w (as @ bs) = (let (es, w) = decode w as; (fs, w) = decode w bs in (es @ fs, w))"
  by (induction as arbitrary: w) (simp_all add: split_def Let_def)

section \<open>Waveforms of operations\<close>

definition i2c_ready :: "'h i2c \<Rightarrow> bool" where
  "i2c_ready s \<longleftrightarrow> b_init s \<and> ps_ready (i2cGpio s)"

type_synonym 'h tr = "('h \<times> access list) i2c"

definition wave :: "'h tr \<Rightarrow> wires \<Rightarrow> i2c_event list \<Rightarrow> wires \<Rightarrow> 'h tr \<Rightarrow> bool" where
  "wave s w es w' s' \<longleftrightarrow>
     i2cGpio s' = i2cGpio s \<and> b_init s' = b_init s \<and>
     (\<exists>h l. i2c_hw s' = (h, snd (i2c_hw s) @ l) \<and> decode w l = (es, w'))"

lemma wave_refl: "wave s w [] w s"
  unfolding wave_def by (intro conjI refl exI [of _ "fst (i2c_hw s)"] exI [of _ "[]"]) simp_all

lemma wave_trans: "wave s w es w' s' \<Longrightarrow> wave s' w' fs w'' s'' \<Longrightarrow> wave s w (es @ fs) w'' s''"
  by (force simp: wave_def decode_append)

lemma wave_ready: "wave s w es w' s' \<Longrightarrow> i2c_ready s' \<longleftrightarrow> i2c_ready s"
  by (auto simp: wave_def i2c_ready_def)

text \<open>
  \<open>emits M w es w'\<close>: the operation returns and puts \<open>es\<close> on the lines; \<open>yields M w R\<close>: when
  it returns, \<open>R\<close> relates its value, the events and the lines left behind; \<open>returns M\<close>: it
  returns.
\<close>

definition emits :: "('h tr \<Rightarrow> 'h tr option) \<Rightarrow> wires \<Rightarrow> i2c_event list \<Rightarrow> wires \<Rightarrow> bool" where
  "emits M w es w' \<longleftrightarrow> (\<forall>s. i2c_ready s \<longrightarrow> (\<exists>s'. M s = Some s' \<and> wave s w es w' s'))"

definition yields ::
    "('h tr \<Rightarrow> ('a \<times> 'h tr) option) \<Rightarrow> wires \<Rightarrow> ('a \<Rightarrow> i2c_event list \<Rightarrow> wires \<Rightarrow> bool) \<Rightarrow> bool" where
  "yields M w R \<longleftrightarrow> (\<forall>s x s'. i2c_ready s \<longrightarrow> M s = Some (x, s') \<longrightarrow>
     (\<exists>es w'. wave s w es w' s' \<and> R x es w'))"

definition returns :: "('h i2c \<Rightarrow> ('a \<times> 'h i2c) option) \<Rightarrow> bool" where
  "returns M \<longleftrightarrow> (\<forall>s. i2c_ready s \<longrightarrow> (\<exists>x s'. M s = Some (x, s') \<and> i2c_ready s'))"

lemma emits_Some: "emits Some w [] w"
  by (auto simp: emits_def intro: wave_refl)

lemma emits_bind:
  assumes "emits M w es w'" "emits N w' fs w''"
  shows "emits (\<lambda>s. Option.bind (M s) N) w (es @ fs) w''"
  unfolding emits_def
proof (intro allI impI)
  fix s :: "'a tr" assume r: "i2c_ready s"
  obtain s' where 1: "M s = Some s'" "wave s w es w' s'" using assms(1) r by (auto simp: emits_def)
  obtain s'' where "N s' = Some s''" "wave s' w' fs w'' s''"
    using assms(2) r wave_ready [OF 1(2)] by (auto simp: emits_def)
  then show "\<exists>s'. Option.bind (M s) N = Some s' \<and> wave s w (es @ fs) w'' s'"
    using 1 wave_trans by fastforce
qed

lemma yieldsD:
  "yields M w R \<Longrightarrow> i2c_ready s \<Longrightarrow> M s = Some (x, s') \<Longrightarrow> \<exists>es w'. wave s w es w' s' \<and> R x es w'"
  unfolding yields_def by blast

lemma emits_yields:
  assumes "emits M w es w'" "yields N w' R"
  shows "yields (\<lambda>s. Option.bind (M s) N) w (\<lambda>x fs w''. \<exists>gs. fs = es @ gs \<and> R x gs w'')"
  unfolding yields_def
proof (intro allI impI)
  fix s x s' assume r: "i2c_ready s" and m: "Option.bind (M s) N = Some (x, s')"
  obtain t where 1: "M s = Some t" "wave s w es w' t" using assms(1) r by (auto simp: emits_def)
  have "i2c_ready t" "N t = Some (x, s')" using r wave_ready [OF 1(2)] m 1(1) by simp_all
  then obtain gs w'' where 2: "wave t w' gs w'' s'" "R x gs w''" using yieldsD [OF assms(2)] by blast
  show "\<exists>fs w''. wave s w fs w'' s' \<and> (\<exists>gs. fs = es @ gs \<and> R x gs w'')"
    using wave_trans [OF 1(2) 2(1)] 2(2) by blast
qed

lemma yields_bind:
  assumes "yields M w R" "\<And>x es w'. R x es w' \<Longrightarrow> yields (N x) w' (\<lambda>y fs w''. Q y (es @ fs) w'')"
  shows "yields (\<lambda>s. Option.bind (M s) (\<lambda>(x, s). N x s)) w Q"
  unfolding yields_def
proof (intro allI impI)
  fix s y s' assume r: "i2c_ready s" and m: "Option.bind (M s) (\<lambda>(x, s). N x s) = Some (y, s')"
  obtain x t where n: "M s = Some (x, t)" "N x t = Some (y, s')" using m by (auto simp: bind_eq_Some_conv)
  obtain es w' where 1: "wave s w es w' t" "R x es w'" using yieldsD [OF assms(1) r n(1)] by blast
  obtain fs w'' where 2: "wave t w' fs w'' s'" "Q y (es @ fs) w''"
    using yieldsD [OF assms(2) [OF 1(2)] _ n(2)] r wave_ready [OF 1(1)] by blast
  show "\<exists>fs w''. wave s w fs w'' s' \<and> Q y fs w''" using wave_trans [OF 1(1) 2(1)] 2(2) by blast
qed

lemma yields_return: "R x [] w \<Longrightarrow> yields (\<lambda>s. Some (x, s)) w R"
  by (auto simp: yields_def intro: wave_refl)

lemma yields_weaken: "yields M w R \<Longrightarrow> (\<And>x es w'. R x es w' \<Longrightarrow> Q x es w') \<Longrightarrow> yields M w Q"
  unfolding yields_def by blast

text \<open>An operation without a value, followed by the return of one.\<close>

lemma emits_then: "emits M w es w' \<Longrightarrow> Q x es w' \<Longrightarrow> yields (\<lambda>s. Option.bind (M s) (\<lambda>s. Some (x, s))) w Q"
  by (rule yields_weaken [OF emits_yields [OF _ yields_return [where R = "\<lambda>y gs v. y = x \<and> gs = [] \<and> v = w'"]]])
    simp_all

section \<open>The lines\<close>

lemma i2c_pins: "XGpioPs_GetBankPin 28 = (1, 2)" "XGpioPs_GetBankPin 29 = (1, 3)"
  by code_simp+

lemma masked_values:
  "masked_value 2 0 = 0xFFFB0000" "masked_value 2 1 = 0xFFFB0004"
  "masked_value 3 0 = 0xFFF70000" "masked_value 3 1 = 0xFFF70008"
  by code_simp+

lemma line_regs:
  "ucast ((0xFF0A0000 :: u32) + (ucast (1 :: u8) * XGPIOPS_DATA_MASK_OFFSET + XGPIOPS_DATA_LSW_OFFSET)) = DATA_REG"
  "ucast ((0xFF0A0000 :: u32) + (ucast (1 :: u8) * XGPIOPS_REG_MASK_OFFSET + XGPIOPS_DIRM_OFFSET)) = DIR_REG"
  "ucast ((0xFF0A0000 :: u32) + (ucast (1 :: u8) * XGPIOPS_REG_MASK_OFFSET + XGPIOPS_OUTEN_OFFSET)) = 0xFF0A0248"
  "ucast ((0xFF0A0000 :: u32) + (ucast (1 :: u8) * XGPIOPS_DATA_BANK_OFFSET + XGPIOPS_DATA_RO_OFFSET)) = IN_REG"
  by code_simp+

lemma regs_distinct [simp]: "DATA_REG \<noteq> DIR_REG" "DIR_REG \<noteq> DATA_REG" "0xFF0A0248 \<noteq> DATA_REG"
  "0xFF0A0248 \<noteq> DIR_REG" "DIR_REG \<noteq> IN_REG" "0xFF0A0248 \<noteq> IN_REG"
  by (simp_all add: DATA_REG_def DIR_REG_def IN_REG_def)

text \<open>Bits of the values written, and of a register with one bit changed.\<close>

lemma written_bits:
  "bit (0xFFFB0000 :: u32) 18 = False" "bit (0xFFFB0000 :: u32) 19 = True"
  "bit (0xFFFB0000 :: u32) 2 = False" "bit (0xFFFB0004 :: u32) 18 = False"
  "bit (0xFFFB0004 :: u32) 19 = True" "bit (0xFFFB0004 :: u32) 2 = True"
  "bit (0xFFF70000 :: u32) 18 = True" "bit (0xFFF70000 :: u32) 19 = False"
  "bit (0xFFF70000 :: u32) 3 = False" "bit (0xFFF70008 :: u32) 18 = True"
  "bit (0xFFF70008 :: u32) 19 = False" "bit (0xFFF70008 :: u32) 3 = True"
  by code_simp+

lemma pin_bits:
  "bit ((r :: u32) OR push_bit 3 1) 3" "\<not> bit ((r :: u32) AND NOT (push_bit 3 1)) 3"
  by (simp_all add: bit_simps)

lemma data_in_bit: "drop_bit 3 (v :: u32) AND 1 \<noteq> 0 \<longleftrightarrow> bit v 3"
  by (simp add: and_one_eq bit_iff_odd_drop_bit odd_iff_mod_2_eq_one)

lemma wave_log:
  "decode w l = (es, w') \<Longrightarrow> \<exists>h'. t = s\<lparr>i2c_hw := (h', snd (i2c_hw s) @ l)\<rparr> \<Longrightarrow> wave s w es w' t"
  by (auto simp: wave_def)

lemma line_writes:
  assumes "i2c_ready s"
  shows "I2C_CLOCK_LOW B s = Some (s\<lparr>i2c_hw := out32 B DATA_REG 0xFFFB0000 (i2c_hw s)\<rparr>)"
    "I2C_CLOCK_HIGH B s = Some (s\<lparr>i2c_hw := out32 B DATA_REG 0xFFFB0004 (i2c_hw s)\<rparr>)"
    "I2C_DATA_LOW B s = Some (s\<lparr>i2c_hw := out32 B DATA_REG 0xFFF70000 (i2c_hw s)\<rparr>)"
    "I2C_DATA_HIGH B s = Some (s\<lparr>i2c_hw := out32 B DATA_REG 0xFFF70008 (i2c_hw s)\<rparr>)"
    "I2C_DATA_IN B s = (let (v, h) = in32 B IN_REG (i2c_hw s) in Some (drop_bit 3 v AND 1, s\<lparr>i2c_hw := h\<rparr>))"
proof -
  have r: "pin_ok (i2cGpio s) 28" "pin_ok (i2cGpio s) 29" "ps_BaseAddr (i2cGpio s) = 0xFF0A0000"
    using assms ps_ready_pin by (simp_all add: i2c_ready_def ps_ready_def)
  show "I2C_CLOCK_LOW B s = Some (s\<lparr>i2c_hw := out32 B DATA_REG 0xFFFB0000 (i2c_hw s)\<rparr>)"
    "I2C_CLOCK_HIGH B s = Some (s\<lparr>i2c_hw := out32 B DATA_REG 0xFFFB0004 (i2c_hw s)\<rparr>)"
    "I2C_DATA_LOW B s = Some (s\<lparr>i2c_hw := out32 B DATA_REG 0xFFF70000 (i2c_hw s)\<rparr>)"
    "I2C_DATA_HIGH B s = Some (s\<lparr>i2c_hw := out32 B DATA_REG 0xFFF70008 (i2c_hw s)\<rparr>)"
    unfolding I2C_CLOCK_LOW_def I2C_CLOCK_HIGH_def I2C_DATA_LOW_def I2C_DATA_HIGH_def on_gpio_def
      XGpioPs_WritePin_def BOE_I2C_SCL_def BOE_I2C_DAT_def
    using r by (simp_all add: i2c_pins masked_values XGpioPs_WriteReg_def flip: line_regs(1))
  show "I2C_DATA_IN B s = (let (v, h) = in32 B IN_REG (i2c_hw s) in Some (drop_bit 3 v AND 1, s\<lparr>i2c_hw := h\<rparr>))"
    unfolding I2C_DATA_IN_def XGpioPs_ReadPin_def BOE_I2C_DAT_def
    using r by (simp add: i2c_pins XGpioPs_ReadReg_def split_def Let_def flip: line_regs(4))
qed

text \<open>The same as waveforms.\<close>

lemma traced_simps [simp]:
  "out32 (traced B) a v p = (out32 B a v (fst p), snd p @ [Wr a v])"
  "in32 (traced B) a p = (let (v, h) = in32 B a (fst p) in (v, (h, snd p @ [Rd a v])))"
  by (simp_all add: traced_def split_def Let_def)

definition with_scl :: "bool \<Rightarrow> wires \<Rightarrow> wires" where "with_scl b w = w\<lparr>scl := b\<rparr>"
definition with_sda :: "bool \<Rightarrow> wires \<Rightarrow> wires" where "with_sda b w = w\<lparr>sda := b\<rparr>"
definition with_out :: "bool \<Rightarrow> wires \<Rightarrow> wires" where "with_out b w = w\<lparr>sda_out := b\<rparr>"

lemmas with_defs = with_scl_def with_sda_def with_out_def

lemma line_waves:
  "emits (I2C_CLOCK_LOW (traced B)) w (line_events w (with_scl False w)) (with_scl False w)"
  "emits (I2C_CLOCK_HIGH (traced B)) w (line_events w (with_scl True w)) (with_scl True w)"
  "emits (I2C_DATA_LOW (traced B)) w (line_events w (with_sda False w)) (with_sda False w)"
  "emits (I2C_DATA_HIGH (traced B)) w (line_events w (with_sda True w)) (with_sda True w)"
  unfolding emits_def
  by (auto simp: line_writes with_defs written_bits Let_def intro!: wave_log)

lemma data_in_wave:
  "yields (I2C_DATA_IN (traced B)) w (\<lambda>v es w'. es = [Sample (v \<noteq> 0)] \<and> w' = w)"
  unfolding yields_def
  by (auto simp: line_writes data_in_bit Let_def split_def intro!: wave_log)

definition changed_bit :: "bool \<Rightarrow> u32 \<Rightarrow> u32" where
  "changed_bit b r = (if b then r OR push_bit 3 1 else r AND NOT (push_bit 3 1))"

lemma dir_writes:
  assumes "i2c_ready s"
  shows "on_gpio (\<lambda>g. XGpioPs_SetDirectionPin B g BOE_I2C_DAT (if b then BOE_OUTPUT else BOE_INPUT)) s =
      (let (r, h) = in32 B DIR_REG (i2c_hw s) in Some (s\<lparr>i2c_hw := out32 B DIR_REG (changed_bit b r) h\<rparr>))"
    and "on_gpio (\<lambda>g. XGpioPs_SetOutputEnablePin B g BOE_I2C_DAT 1) s =
      (let (r, h) = in32 B 0xFF0A0248 (i2c_hw s) in Some (s\<lparr>i2c_hw := out32 B 0xFF0A0248 (changed_bit True r) h\<rparr>))"
proof -
  have r: "pin_ok (i2cGpio s) 29" "ps_BaseAddr (i2cGpio s) = 0xFF0A0000"
    using assms ps_ready_pin by (simp_all add: i2c_ready_def ps_ready_def)
  have "update_pin B (i2cGpio s) XGPIOPS_DIRM_OFFSET 29 v h =
      (let (r, h) = in32 B DIR_REG h in out32 B DIR_REG (changed_bit (v \<noteq> 0) r) h)" for v h
    unfolding update_pin_def XGpioPs_ReadReg_def XGpioPs_WriteReg_def Let_def
    by (simp add: i2c_pins r line_regs [simplified] changed_bit_def split_def Let_def del: push_bit_of_1)
  then show "on_gpio (\<lambda>g. XGpioPs_SetDirectionPin B g BOE_I2C_DAT (if b then BOE_OUTPUT else BOE_INPUT)) s =
      (let (r, h) = in32 B DIR_REG (i2c_hw s) in Some (s\<lparr>i2c_hw := out32 B DIR_REG (changed_bit b r) h\<rparr>))"
    unfolding on_gpio_def XGpioPs_SetDirectionPin_def BOE_I2C_DAT_def BOE_OUTPUT_def BOE_INPUT_def
    using r by (simp add: split_def Let_def)
  have "update_pin B (i2cGpio s) XGPIOPS_OUTEN_OFFSET 29 1 h =
      (let (r, h) = in32 B 0xFF0A0248 h in out32 B 0xFF0A0248 (changed_bit True r) h)" for h
    unfolding update_pin_def XGpioPs_ReadReg_def XGpioPs_WriteReg_def Let_def
    by (simp add: i2c_pins r line_regs [simplified] changed_bit_def split_def Let_def del: push_bit_of_1)
  then show "on_gpio (\<lambda>g. XGpioPs_SetOutputEnablePin B g BOE_I2C_DAT 1) s =
      (let (r, h) = in32 B 0xFF0A0248 (i2c_hw s) in Some (s\<lparr>i2c_hw := out32 B 0xFF0A0248 (changed_bit True r) h\<rparr>))"
    unfolding on_gpio_def XGpioPs_SetOutputEnablePin_def BOE_I2C_DAT_def
    using r by (simp add: split_def Let_def)
qed

lemma changed_bit: "bit (changed_bit b r) 3 = b"
  unfolding changed_bit_def using pin_bits by auto

lemma dir_wave:
  "emits (on_gpio (\<lambda>g. XGpioPs_SetDirectionPin (traced B) g BOE_I2C_DAT (if b then BOE_OUTPUT else BOE_INPUT))) w
     (line_events w (with_out b w)) (with_out b w)"
  unfolding emits_def
  by (auto simp: dir_writes with_defs changed_bit Let_def split_def intro!: wave_log)

lemma outen_wave:
  "emits (on_gpio (\<lambda>g. XGpioPs_SetOutputEnablePin (traced B) g BOE_I2C_DAT 1)) w [] w"
  unfolding emits_def
  by (auto simp: dir_writes(2) line_events_def Let_def split_def intro!: wave_log)

section \<open>Bus states\<close>

abbreviation idle_lines :: wires where
  "idle_lines \<equiv> \<lparr>scl = True, sda = True, sda_out = True\<rparr>"

lemma with_simps [simp]:
  "with_scl b \<lparr>scl = c, sda = d, sda_out = e\<rparr> = \<lparr>scl = b, sda = d, sda_out = e\<rparr>"
  "with_sda b \<lparr>scl = c, sda = d, sda_out = e\<rparr> = \<lparr>scl = c, sda = b, sda_out = e\<rparr>"
  "with_out b \<lparr>scl = c, sda = d, sda_out = e\<rparr> = \<lparr>scl = c, sda = d, sda_out = b\<rparr>"
  by (simp_all add: with_defs)

lemma emits_eq: "emits M w es w' \<Longrightarrow> es = fs \<Longrightarrow> w' = w'' \<Longrightarrow> emits M w fs w''"
  by simp

lemma safe_wave: "emits (boe_i2c_safe B) w [] w"
  by (auto simp: emits_def boe_i2c_safe_def i2c_ready_def intro: wave_refl)

lemma set_pin_ready: "i2c_ready s \<Longrightarrow> i2c_set_pin B a c s = Some (s\<lparr>pin_sda := a, pin_scl := c\<rparr>)"
  by (simp add: i2c_set_pin_def boe_i2c_safe_def i2c_ready_def)

lemma set_pin_wave: "emits (i2c_set_pin (B :: ('a \<times> access list) bus) a c) w [] w"
proof -
  have "wave s w [] w (s\<lparr>pin_sda := a, pin_scl := c\<rparr>)" for s :: "'a tr"
    using wave_refl [of s w] by (simp add: wave_def)
  then show ?thesis by (simp add: emits_def set_pin_ready)
qed

lemma set_output_wave:
  "emits (I2C_SET_OUTPUT (traced B)) w (line_events w (with_out True w)) (with_out True w)"
  unfolding I2C_SET_OUTPUT_def
  by (rule emits_eq, rule emits_bind [OF dir_wave [of _ True, simplified] outen_wave]) simp_all

lemma set_input_wave:
  "emits (I2C_SET_INPUT (traced B)) w (line_events w (with_out False w)) (with_out False w)"
  unfolding I2C_SET_INPUT_def
  by (rule emits_eq, rule emits_bind [OF dir_wave [of _ False, simplified] outen_wave]) simp_all

lemma output_low_wave:
  "emits (I2C_SET_OUTPUT_LOW (traced B)) \<lparr>scl = False, sda = d, sda_out = e\<rparr> []
     \<lparr>scl = False, sda = False, sda_out = True\<rparr>"
  "emits (I2C_SET_OUTPUT_LOW (traced B)) idle_lines [Start] \<lparr>scl = True, sda = False, sda_out = True\<rparr>"
  unfolding I2C_SET_OUTPUT_LOW_def
  by (rule emits_eq, rule emits_bind [OF set_output_wave line_waves(3)];
      simp add: line_events_def sda_level_def)+

lemma output_high_wave:
  "emits (I2C_SET_OUTPUT_HIGH (traced B)) \<lparr>scl = False, sda = d, sda_out = e\<rparr> []
     \<lparr>scl = False, sda = True, sda_out = True\<rparr>"
  "emits (I2C_SET_OUTPUT_HIGH (traced B)) idle_lines [] idle_lines"
  unfolding I2C_SET_OUTPUT_HIGH_def
  by (rule emits_eq, rule emits_bind [OF set_output_wave line_waves(4)];
      simp add: line_events_def sda_level_def)+

lemma start_wave:
  "emits (i2c_send_start (traced B)) idle_lines [Start] \<lparr>scl = False, sda = False, sda_out = True\<rparr>"
proof -
  have 1: "emits (I2C_CLOCK_HIGH (traced B)) idle_lines [] idle_lines"
    by (rule emits_eq [OF line_waves(2)]) (simp_all add: line_events_def)
  have 2: "emits (I2C_DATA_LOW (traced B)) idle_lines [Start] \<lparr>scl = True, sda = False, sda_out = True\<rparr>"
    by (rule emits_eq [OF line_waves(3)]) (simp_all add: line_events_def sda_level_def)
  have 3: "emits (I2C_CLOCK_LOW (traced B)) \<lparr>scl = True, sda = False, sda_out = True\<rparr> []
      \<lparr>scl = False, sda = False, sda_out = True\<rparr>"
    by (rule emits_eq [OF line_waves(1)]) (simp_all add: line_events_def)
  show ?thesis
    unfolding i2c_send_start_def
    by (rule emits_eq, rule emits_bind [OF safe_wave emits_bind [OF 1 emits_bind [OF output_high_wave(2)
          emits_bind [OF 2 3]]]]) simp_all
qed

lemma stop_rise_wave:
  "emits (I2C_DATA_HIGH (traced B)) \<lparr>scl = True, sda = False, sda_out = True\<rparr> [Stop] idle_lines"
  by (rule emits_eq [OF line_waves(4)]) (simp_all add: line_events_def sda_level_def)

lemma stop_wave:
  "emits (i2c_send_stop (traced B)) \<lparr>scl = False, sda = d, sda_out = e\<rparr> [Clock (Some False), Stop] idle_lines"
proof -
  have 1: "emits (I2C_CLOCK_HIGH (traced B)) \<lparr>scl = False, sda = False, sda_out = True\<rparr> [Clock (Some False)]
      \<lparr>scl = True, sda = False, sda_out = True\<rparr>"
    by (rule emits_eq [OF line_waves(2)]) (simp_all add: line_events_def)
  show ?thesis
    unfolding i2c_send_stop_def
    by (rule emits_eq, rule emits_bind [OF safe_wave emits_bind [OF output_low_wave(1)
          emits_bind [OF 1 stop_rise_wave]]]) simp_all
qed

text \<open>A STOP on an idle bus first makes a START.\<close>

lemma stop_idle_wave: "emits (i2c_send_stop (traced B)) idle_lines [Start, Stop] idle_lines"
proof -
  have 1: "emits (I2C_CLOCK_HIGH (traced B)) \<lparr>scl = True, sda = False, sda_out = True\<rparr> []
      \<lparr>scl = True, sda = False, sda_out = True\<rparr>"
    by (rule emits_eq [OF line_waves(2)]) (simp_all add: line_events_def)
  show ?thesis
    unfolding i2c_send_stop_def
    by (rule emits_eq, rule emits_bind [OF safe_wave emits_bind [OF output_low_wave(2)
          emits_bind [OF 1 stop_rise_wave]]]) simp_all
qed

lemma wake_wave: "emits (i2c_send_wake_token (traced B)) idle_lines [Start, Stop] idle_lines"
proof -
  have 1: "emits (I2C_DATA_LOW (traced B)) idle_lines [Start] \<lparr>scl = True, sda = False, sda_out = True\<rparr>"
    by (rule emits_eq [OF line_waves(3)]) (simp_all add: line_events_def sda_level_def)
  show ?thesis
    unfolding i2c_send_wake_token_def
    by (rule emits_eq, rule emits_bind [OF safe_wave emits_bind [OF 1 stop_rise_wave]]) simp_all
qed

section \<open>Bytes\<close>

text \<open>The bits of a byte in the order of the wire.\<close>

definition byte_bits :: "u8 \<Rightarrow> bool list" where
  "byte_bits b = map (bit b) [7, 6, 5, 4, 3, 2, 1, 0]"

fun high_bits :: "nat \<Rightarrow> u8 \<Rightarrow> bool list" where
  "high_bits 0 b = []"
| "high_bits (Suc n) b = bit b 7 # high_bits n (push_bit 1 b)"

lemma high_bits_map: "n \<le> 8 \<Longrightarrow> high_bits n b = map (\<lambda>i. bit b (7 - i)) [0..<n]"
proof (induction n arbitrary: b)
  case (Suc n)
  have "bit (push_bit 1 b) (7 - i) = bit b (7 - Suc i)" if "i < n" for i
    unfolding bit_push_bit_iff using that Suc.prems by (auto simp: exp_eq_zero_iff)
  then have "map (\<lambda>i. bit (push_bit 1 b) (7 - i)) [0..<n] = map (\<lambda>i. bit b (7 - Suc i)) [0..<n]" by simp
  then show ?case using Suc by (simp add: upt_conv_Cons map_Suc_upt [symmetric] del: upt_Suc)
qed simp

lemma high_bits_8: "high_bits 8 b = byte_bits b"
  by (simp add: high_bits_map upt_rec byte_bits_def)

lemma top_bit: "(b :: u8) AND 0x80 \<noteq> 0 \<longleftrightarrow> bit b 7"
  using and_exp_iff_bit [of b 7] by simp

definition lines_after :: "bool \<Rightarrow> bool \<Rightarrow> bool list \<Rightarrow> wires" where
  "lines_after c d bs = \<lparr>scl = bs \<noteq> [] \<or> c, sda = last (d # bs), sda_out = True\<rparr>"

lemma send_bits_wave:
  "emits (send_bits (traced B) n b) \<lparr>scl = c, sda = d, sda_out = True\<rparr>
     (map (Clock \<circ> Some) (high_bits n b)) (lines_after c d (high_bits n b))"
proof (induction n arbitrary: b c d)
  case 0
  have "send_bits (traced B) 0 b = Some" by (rule ext) simp
  then show ?case by (simp add: lines_after_def emits_Some)
next
  case (Suc n)
  let ?x = "bit b 7"
  have 1: "emits (I2C_CLOCK_LOW (traced B)) \<lparr>scl = c, sda = d, sda_out = True\<rparr> []
      \<lparr>scl = False, sda = d, sda_out = True\<rparr>"
    by (rule emits_eq [OF line_waves(1)]) (simp_all add: line_events_def)
  have 2: "emits (\<lambda>s. if b AND 0x80 \<noteq> 0 then I2C_DATA_HIGH (traced B) s else I2C_DATA_LOW (traced B) s)
      \<lparr>scl = False, sda = d, sda_out = True\<rparr> [] \<lparr>scl = False, sda = ?x, sda_out = True\<rparr>"
    unfolding top_bit
    using line_waves(3,4) [of B "\<lparr>scl = False, sda = d, sda_out = True\<rparr>"]
    by (cases ?x) (simp_all add: line_events_def)
  have 3: "emits (I2C_CLOCK_HIGH (traced B)) \<lparr>scl = False, sda = ?x, sda_out = True\<rparr> [Clock (Some ?x)]
      \<lparr>scl = True, sda = ?x, sda_out = True\<rparr>"
    by (rule emits_eq [OF line_waves(2)]) (simp_all add: line_events_def)
  show ?case
    unfolding send_bits.simps
    by (rule emits_eq, rule emits_bind [OF 1 emits_bind [OF 2 emits_bind [OF 3 Suc.IH]]])
      (simp_all add: lines_after_def)
qed

text \<open>The looks at the data line for the acknowledge.\<close>

definition acked :: "nat \<Rightarrow> ATCA_STATUS \<Rightarrow> bool list \<Rightarrow> bool" where
  "acked n st ss \<longleftrightarrow>
     (if st = ATCA_SUCCESS then \<exists>k < n. ss = replicate k True @ [False]
      else st = ATCA_TX_TIMEOUT \<and> ss = replicate n True)"

lemma poll_ack_wave:
  "yields (poll_ack (traced B) n) w (\<lambda>st es w'. \<exists>ss. es = map Sample ss \<and> acked n st ss \<and> w' = w)"
proof (induction n)
  case 0
  have e: "poll_ack (traced B) 0 = (\<lambda>s. Some (ATCA_TX_TIMEOUT, s))" by (rule ext) simp
  show ?case unfolding e by (rule yields_return) (simp add: acked_def)
next
  case (Suc n)
  have e: "poll_ack (traced B) (Suc n) =
      (\<lambda>s. Option.bind (I2C_DATA_IN (traced B) s)
        (\<lambda>(v, s). (\<lambda>v. if v = 0 then (\<lambda>s. Some (ATCA_SUCCESS, s)) else poll_ack (traced B) n) v s))"
    by (rule ext) (simp add: if_distribR cong: if_cong)
  show ?case
    unfolding e
  proof (rule yields_bind [OF data_in_wave])
    fix v :: u32 and es w' assume R: "es = [Sample (v \<noteq> 0)] \<and> w' = w"
    let ?Q = "\<lambda>st fs w''. \<exists>ss. es @ fs = map Sample ss \<and> acked (Suc n) st ss \<and> w'' = w"
    show "yields (if v = 0 then (\<lambda>s. Some (ATCA_SUCCESS, s)) else poll_ack (traced B) n) w' ?Q"
    proof (cases "v = 0")
      case True
      have "?Q ATCA_SUCCESS [] w'" using R True by (intro exI [of _ "[False]"]) (auto simp: acked_def intro: exI [of _ 0])
      from yields_return [of ?Q, OF this] show ?thesis using True by simp
    next
      case False
      have "yields (poll_ack (traced B) n) w' ?Q"
      proof (rule yields_weaken)
        show "yields (poll_ack (traced B) n) w' (\<lambda>st es w''. \<exists>ss. es = map Sample ss \<and> acked n st ss \<and> w'' = w)"
          using Suc R by simp
      next
        fix st fs w''
        assume "\<exists>ss. fs = map Sample ss \<and> acked n st ss \<and> w'' = w"
        then obtain ss where ss: "fs = map Sample ss" "acked n st ss" "w'' = w" by blast
        have "acked (Suc n) st (True # ss)"
          using ss(2) unfolding acked_def by (auto split: if_splits intro: exI [of _ "Suc k" for k])
        then show "?Q st fs w''" using ss R False by (intro exI [of _ "True # ss"]) simp
      qed
      then show ?thesis using False by simp
    qed
  qed
qed

definition byte_out :: "u8 \<Rightarrow> bool list \<Rightarrow> i2c_event list" where
  "byte_out b ss = map (Clock \<circ> Some) (byte_bits b) @ Clock None # map Sample ss"

lemma last_byte_bits: "last (d # byte_bits b) = bit b 0" "byte_bits b \<noteq> []"
  by (simp_all add: byte_bits_def)

lemma send_byte_wave:
  "yields (i2c_send_byte (traced B) b) \<lparr>scl = False, sda = d, sda_out = e\<rparr>
     (\<lambda>st es w'. w' = \<lparr>scl = False, sda = bit b 0, sda_out = False\<rparr> \<and>
        (\<exists>ss. es = byte_out b ss \<and> acked I2C_ACK_TIMEOUT st ss))"
proof -
  let ?w = "\<lparr>scl = False, sda = bit b 0, sda_out = False\<rparr>"
  have 1: "emits (\<lambda>s. if b AND 0x80 \<noteq> 0 then I2C_SET_OUTPUT_HIGH (traced B) s else I2C_SET_OUTPUT_LOW (traced B) s)
      \<lparr>scl = False, sda = d, sda_out = e\<rparr> [] \<lparr>scl = False, sda = bit b 7, sda_out = True\<rparr>"
    unfolding top_bit using output_high_wave(1) output_low_wave(1) by (cases "bit b 7") auto
  have 2: "emits (send_bits (traced B) 8 b) \<lparr>scl = False, sda = bit b 7, sda_out = True\<rparr>
      (map (Clock \<circ> Some) (byte_bits b)) \<lparr>scl = True, sda = bit b 0, sda_out = True\<rparr>"
    using send_bits_wave [of B 8 b False "bit b 7"] unfolding high_bits_8 lines_after_def
    by (simp only: last_byte_bits simp_thms)
  have 3: "emits (I2C_CLOCK_LOW (traced B)) \<lparr>scl = True, sda = bit b 0, sda_out = True\<rparr> []
      \<lparr>scl = False, sda = bit b 0, sda_out = True\<rparr>"
    by (rule emits_eq [OF line_waves(1)]) (simp_all add: line_events_def)
  have 4: "emits (I2C_SET_INPUT (traced B)) \<lparr>scl = False, sda = bit b 0, sda_out = True\<rparr> [] ?w"
    by (rule emits_eq [OF set_input_wave]) (simp_all add: line_events_def)
  have 5: "emits (I2C_CLOCK_HIGH (traced B)) ?w [Clock None] \<lparr>scl = True, sda = bit b 0, sda_out = False\<rparr>"
    by (rule emits_eq [OF line_waves(2)]) (simp_all add: line_events_def)
  have 6: "emits (I2C_CLOCK_LOW (traced B)) \<lparr>scl = True, sda = bit b 0, sda_out = False\<rparr> [] ?w"
    by (rule emits_eq [OF line_waves(1)]) (simp_all add: line_events_def)
  have 7: "yields (\<lambda>s. Option.bind (poll_ack (traced B) I2C_ACK_TIMEOUT s)
        (\<lambda>(st, s). Option.bind (I2C_CLOCK_LOW (traced B) s) (\<lambda>s. Some (st, s))))
      \<lparr>scl = True, sda = bit b 0, sda_out = False\<rparr>
      (\<lambda>st es w'. w' = ?w \<and> (\<exists>ss. es = map Sample ss \<and> acked I2C_ACK_TIMEOUT st ss))"
    by (rule yields_bind [OF poll_ack_wave], rule emits_then) (auto intro: 6)
  show ?thesis
    unfolding i2c_send_byte_def
    by (rule yields_weaken [OF emits_yields [OF 1 emits_yields [OF 2 emits_yields [OF 3
          emits_yields [OF 4 emits_yields [OF 5 7]]]]]]) (auto simp: byte_out_def)
qed

text \<open>Received bits: a clock pulse and a look at the released line for each.\<close>

definition mask_at :: "nat \<Rightarrow> u8" where
  "mask_at n = (if n = 0 then 0 else 2 ^ (n - 1))"

lemma mask_at_step: "n < 8 \<Longrightarrow> drop_bit 1 (mask_at (Suc n)) = mask_at n"
proof (rule bit_word_eqI)
  fix k assume "n < 8" "k < LENGTH(8)"
  then show "bit (drop_bit 1 (mask_at (Suc n))) k = bit (mask_at n) k"
    unfolding bit_drop_bit_eq comp_def mask_at_def by (auto simp: bit_exp_iff bit_0_eq)
qed

lemma mask_at_pos: "n < 8 \<Longrightarrow> mask_at (Suc n) \<noteq> 0"
  unfolding mask_at_def by (auto simp: exp_eq_zero_iff)

lemma bit_or_mask: "n < 8 \<Longrightarrow> bit ((b :: u8) OR mask_at (Suc n)) j \<longleftrightarrow> bit b j \<or> j = n"
  unfolding mask_at_def by (auto simp: bit_or_iff bit_exp_iff exp_eq_zero_iff)

definition in_bits :: "nat \<Rightarrow> u8 \<Rightarrow> i2c_event list" where
  "in_bits n b = concat (map (\<lambda>i. [Clock None, Sample (bit b i)]) (rev [0..<n]))"

lemma in_bits_Suc: "in_bits (Suc n) b = [Clock None, Sample (bit b n)] @ in_bits n b"
  by (simp add: in_bits_def)

lemma receive_bits_wave:
  "n \<le> 8 \<Longrightarrow> (\<And>j. j < n \<Longrightarrow> \<not> bit b j) \<Longrightarrow>
   yields (receive_bits (traced B) (mask_at n) b) \<lparr>scl = False, sda = d, sda_out = False\<rparr>
     (\<lambda>x es w'. es = in_bits n x \<and> w' = \<lparr>scl = False, sda = d, sda_out = False\<rparr> \<and>
        (\<forall>j \<ge> n. bit x j = bit b j))"
proof (induction n arbitrary: b)
  case 0
  have e: "receive_bits (traced B) (mask_at 0) b = (\<lambda>s. Some (b, s))"
    by (rule ext, subst receive_bits.simps) (simp add: mask_at_def)
  show ?case unfolding e by (rule yields_return) (simp add: in_bits_def)
next
  case (Suc n)
  let ?w = "\<lparr>scl = False, sda = d, sda_out = False\<rparr>"
  let ?m = "mask_at (Suc n)"
  have n: "n < 8" using Suc.prems by simp
  have 1: "emits (I2C_CLOCK_HIGH (traced B)) ?w [Clock None] \<lparr>scl = True, sda = d, sda_out = False\<rparr>"
    by (rule emits_eq [OF line_waves(2)]) (simp_all add: line_events_def)
  have 2: "emits (I2C_CLOCK_LOW (traced B)) \<lparr>scl = True, sda = d, sda_out = False\<rparr> [] ?w"
    by (rule emits_eq [OF line_waves(1)]) (simp_all add: line_events_def)
  let ?rec = "\<lambda>v. receive_bits (traced B) (mask_at n) (if v \<noteq> 0 then b OR ?m else b)"
  have e: "receive_bits (traced B) ?m b =
      (\<lambda>s. Option.bind (I2C_CLOCK_HIGH (traced B) s) (\<lambda>s. Option.bind (I2C_DATA_IN (traced B) s)
        (\<lambda>(v, s). (\<lambda>v s. Option.bind (I2C_CLOCK_LOW (traced B) s) (?rec v)) v s)))"
    by (rule ext, subst receive_bits.simps) (simp add: mask_at_pos [OF n] mask_at_step [OF n, unfolded One_nat_def])
  have 3: "yields (\<lambda>s. Option.bind (I2C_DATA_IN (traced B) s)
        (\<lambda>(v, s). (\<lambda>v s. Option.bind (I2C_CLOCK_LOW (traced B) s) (?rec v)) v s))
      \<lparr>scl = True, sda = d, sda_out = False\<rparr>
      (\<lambda>x es w'. es = Sample (bit x n) # in_bits n x \<and> w' = ?w \<and> (\<forall>j \<ge> Suc n. bit x j = bit b j))"
  proof (rule yields_bind [OF data_in_wave])
    fix v :: u32 and es w' assume R: "es = [Sample (v \<noteq> 0)] \<and> w' = \<lparr>scl = True, sda = d, sda_out = False\<rparr>"
    let ?b = "if v \<noteq> 0 then b OR ?m else b"
    have b: "bit ?b j \<longleftrightarrow> (if j = n then v \<noteq> 0 else bit b j)" for j
      using Suc.prems(2) [of n] bit_or_mask [OF n, of b j] by auto
    have "\<not> bit ?b j" if "j < n" for j using b Suc.prems(2) that by auto
    with Suc.IH [of ?b] n have "yields (?rec v) ?w (\<lambda>x es w'. es = in_bits n x \<and> w' = ?w \<and>
        (\<forall>j \<ge> n. bit x j = bit ?b j))" by simp
    from emits_yields [OF 2 this] R
    show "yields (\<lambda>s. Option.bind (I2C_CLOCK_LOW (traced B) s) (?rec v)) w'
        (\<lambda>x fs w''. es @ fs = Sample (bit x n) # in_bits n x \<and> w'' = ?w \<and> (\<forall>j \<ge> Suc n. bit x j = bit b j))"
      by (auto elim!: yields_weaken simp: b)
  qed
  show ?case
    unfolding e by (rule yields_weaken [OF emits_yields [OF 1 3]]) (auto simp: in_bits_Suc)
qed

text \<open>The wait for the data line.\<close>

lemma line_wait_wave:
  assumes "line_wait (traced B) level s = Some s'" "i2c_ready s"
  shows "\<exists>k. wave s w (map Sample (replicate k (\<not> level) @ [level])) w s'"
proof -
  let ?P = "\<lambda>B' lv s s'. B' = traced B \<longrightarrow> lv = level \<longrightarrow> i2c_ready s \<longrightarrow>
    (\<exists>k. wave s w (map Sample (replicate k (\<not> level) @ [level])) w s')"
  have "?P (traced B) level s s'"
  proof (rule line_wait.raw_induct [where P = ?P, OF _ assms(1)], intro impI)
    fix rec B' lv s t
    assume IH: "\<And>B' lv s s'. rec B' lv s = Some s' \<Longrightarrow> ?P B' lv s s'"
      and m: "Option.bind (I2C_DATA_IN B' s) (\<lambda>(v, s). if (v \<noteq> 0) = lv then Some s else rec B' lv s) = Some t"
      and eq: "B' = traced B" "lv = level" and rdy: "i2c_ready s"
    from m obtain v u where d: "I2C_DATA_IN (traced B) s = Some (v, u)"
      and r: "(if (v \<noteq> 0) = level then Some u else rec (traced B) level u) = Some t"
      unfolding eq by (auto simp: bind_eq_Some_conv)
    obtain es w' where "wave s w es w' u" "es = [Sample (v \<noteq> 0)]" "w' = w"
      using yieldsD [OF data_in_wave rdy d] by blast
    then have u: "wave s w [Sample (v \<noteq> 0)] w u" by simp
    show "\<exists>k. wave s w (map Sample (replicate k (\<not> level) @ [level])) w t"
    proof (cases "(v \<noteq> 0) = level")
      case True
      then show ?thesis using u r by (intro exI [of _ 0]) auto
    next
      case False
      then have "rec (traced B) level u = Some t" using r by simp
      from IH [OF this] obtain k where "wave u w (map Sample (replicate k (\<not> level) @ [level])) w t"
        using wave_ready [OF u] rdy by blast
      from wave_trans [OF u this] False show ?thesis by (intro exI [of _ "Suc k"]) auto
    qed
  qed
  then show ?thesis using assms(2) by blast
qed

definition ack_events :: "u8 \<Rightarrow> nat \<Rightarrow> i2c_event list" where
  "ack_events ack k = map Sample (replicate k (ack \<noteq> 0) @ [ack = 0]) @ [Clock (Some (ack = 0))]"

lemma send_ack_wave:
  assumes "i2c_send_ack (traced B) ack s = Some s'" "i2c_ready s"
  shows "\<exists>k. wave s \<lparr>scl = False, sda = d, sda_out = e\<rparr> (ack_events ack k)
    \<lparr>scl = False, sda = ack = 0, sda_out = True\<rparr> s'"
proof -
  let ?low = "\<lparr>scl = False, sda = ack = 0, sda_out = True\<rparr>" and ?lvl = "ack = 0"
  have safe: "boe_i2c_safe (traced B) s = Some s"
    using assms(2) by (simp add: boe_i2c_safe_def i2c_ready_def)
  obtain s1 s2 s3 where m: "(if ack \<noteq> 0 then I2C_SET_OUTPUT_LOW (traced B) s else I2C_SET_OUTPUT_HIGH (traced B) s) = Some s1"
    "line_wait (traced B) ?lvl s1 = Some s2" "I2C_CLOCK_HIGH (traced B) s2 = Some s3"
    "I2C_CLOCK_LOW (traced B) s3 = Some s'"
    using assms(1) unfolding i2c_send_ack_def safe
    by (auto simp: bind_eq_Some_conv split: if_splits)
  have w1: "wave s \<lparr>scl = False, sda = d, sda_out = e\<rparr> [] ?low s1"
    using m(1) output_low_wave(1) [of B d e] output_high_wave(1) [of B d e] assms(2)
    unfolding emits_def by (auto split: if_splits)
  have r1: "i2c_ready s1" using wave_ready [OF w1] assms(2) by simp
  obtain k where w2: "wave s1 ?low (map Sample (replicate k (\<not> ?lvl) @ [?lvl])) ?low s2"
    using line_wait_wave [OF m(2) r1] by blast
  have r2: "i2c_ready s2" using wave_ready [OF w2] r1 by simp
  have w3: "wave s2 ?low [Clock (Some ?lvl)] \<lparr>scl = True, sda = ?lvl, sda_out = True\<rparr> s3"
    using line_waves(2) [of B ?low] m(3) r2 unfolding emits_def by (auto simp: line_events_def)
  have r3: "i2c_ready s3" using wave_ready [OF w3] r2 by simp
  have "wave s3 \<lparr>scl = True, sda = ?lvl, sda_out = True\<rparr> [] ?low s'"
    using line_waves(1) [of B "\<lparr>scl = True, sda = ?lvl, sda_out = True\<rparr>"] m(4) r3
    unfolding emits_def by (auto simp: line_events_def)
  from wave_trans [OF w1 wave_trans [OF w2 wave_trans [OF w3 this]]]
  show ?thesis by (auto simp: ack_events_def)
qed

definition byte_in :: "u8 \<Rightarrow> u8 \<Rightarrow> nat \<Rightarrow> i2c_event list" where
  "byte_in ack b k = in_bits 8 b @ ack_events ack k"

lemma receive_one_byte_wave:
  "yields (i2c_receive_one_byte (traced B) ack) \<lparr>scl = False, sda = d, sda_out = e\<rparr>
     (\<lambda>b es w'. w' = \<lparr>scl = False, sda = ack = 0, sda_out = True\<rparr> \<and> (\<exists>k. es = byte_in ack b k))"
proof -
  let ?in = "\<lparr>scl = False, sda = d, sda_out = False\<rparr>"
  let ?w = "\<lparr>scl = False, sda = ack = 0, sda_out = True\<rparr>"
  have 1: "emits (I2C_SET_INPUT (traced B)) \<lparr>scl = False, sda = d, sda_out = e\<rparr> [] ?in"
    by (rule emits_eq [OF set_input_wave]) (simp_all add: line_events_def)
  have 2: "yields (receive_bits (traced B) 0x80 0) ?in (\<lambda>b es w'. es = in_bits 8 b \<and> w' = ?in)"
    using receive_bits_wave [of 8 0 B d] by (auto simp: mask_at_def elim: yields_weaken)
  have 3: "yields (\<lambda>s. Option.bind (i2c_send_ack (traced B) ack s) (\<lambda>s. Some (b, s))) ?in
      (\<lambda>x es w'. x = b \<and> w' = ?w \<and> (\<exists>k. es = ack_events ack k))" for b :: u8
    unfolding yields_def
  proof (intro allI impI)
    fix s x s'
    assume r: "i2c_ready s" and m: "Option.bind (i2c_send_ack (traced B) ack s) (\<lambda>s. Some (b, s)) = Some (x, s')"
    then have "i2c_send_ack (traced B) ack s = Some s'" "x = b" by (auto simp: bind_eq_Some_conv)
    then show "\<exists>es w'. wave s ?in es w' s' \<and> x = b \<and> w' = ?w \<and> (\<exists>k. es = ack_events ack k)"
      using send_ack_wave [OF _ r, of B ack s' d False] by blast
  qed
  have 4: "yields (\<lambda>s. Option.bind (receive_bits (traced B) 0x80 0 s)
      (\<lambda>(b, s). Option.bind (i2c_send_ack (traced B) ack s) (\<lambda>s. Some (b, s)))) ?in
      (\<lambda>b es w'. w' = ?w \<and> (\<exists>k. es = byte_in ack b k))"
    by (rule yields_bind [OF 2], elim conjE, hypsubst, rule yields_weaken [OF 3]) (auto simp: byte_in_def)
  show ?thesis
    unfolding i2c_receive_one_byte_def by (rule yields_weaken [OF emits_yields [OF 1 4]]) simp
qed

section \<open>Which calls return\<close>

text \<open>On a ready master every call without a wait for the data line returns, on any hardware.\<close>

definition op_returns :: "('h i2c \<Rightarrow> 'h i2c option) \<Rightarrow> bool" where
  "op_returns M \<longleftrightarrow> (\<forall>s. i2c_ready s \<longrightarrow> (\<exists>s'. M s = Some s' \<and> i2c_ready s'))"

lemma i2c_ready_hw [simp]: "i2c_ready (s\<lparr>i2c_hw := h\<rparr>) = i2c_ready s"
  by (simp add: i2c_ready_def)

lemma op_returns_bind: "op_returns M \<Longrightarrow> op_returns N \<Longrightarrow> op_returns (\<lambda>s. Option.bind (M s) N)"
  unfolding op_returns_def by fastforce

lemma returns_bind: "op_returns M \<Longrightarrow> returns N \<Longrightarrow> returns (\<lambda>s. Option.bind (M s) N)"
  unfolding op_returns_def returns_def by fastforce

lemma returns_case: "returns M \<Longrightarrow> (\<And>x. returns (N x)) \<Longrightarrow> returns (\<lambda>s. Option.bind (M s) (\<lambda>(x, s). N x s))"
  unfolding returns_def by fastforce

lemma returns_Some: "returns (\<lambda>s. Some (x, s))"
  by (simp add: returns_def)

lemma op_returns_if: "op_returns M \<Longrightarrow> op_returns N \<Longrightarrow> op_returns (\<lambda>s. if c then M s else N s)"
  by (simp add: op_returns_def)

lemma lines_return [intro]:
  "op_returns (I2C_CLOCK_LOW B)" "op_returns (I2C_CLOCK_HIGH B)" "op_returns (I2C_DATA_LOW B)"
  "op_returns (I2C_DATA_HIGH B)" "op_returns (boe_i2c_safe B)"
  by (simp_all add: op_returns_def line_writes) (simp add: boe_i2c_safe_def i2c_ready_def)

lemma data_in_returns: "returns (I2C_DATA_IN B)"
  by (simp add: returns_def line_writes split_def Let_def)

lemma dir_returns:
  "op_returns (on_gpio (\<lambda>g. XGpioPs_SetDirectionPin B g BOE_I2C_DAT BOE_OUTPUT))"
  "op_returns (on_gpio (\<lambda>g. XGpioPs_SetDirectionPin B g BOE_I2C_DAT BOE_INPUT))"
  "op_returns (on_gpio (\<lambda>g. XGpioPs_SetOutputEnablePin B g BOE_I2C_DAT 1))"
  by (simp_all add: op_returns_def dir_writes(1) [where b = True, simplified]
      dir_writes(1) [where b = False, simplified] dir_writes(2) split_def Let_def)

lemma set_returns [intro]:
  "op_returns (I2C_SET_OUTPUT_HIGH B)" "op_returns (I2C_SET_OUTPUT_LOW B)" "op_returns (I2C_SET_INPUT B)"
  unfolding I2C_SET_OUTPUT_HIGH_def I2C_SET_OUTPUT_LOW_def I2C_SET_OUTPUT_def I2C_SET_INPUT_def
  by (intro op_returns_bind dir_returns lines_return)+

lemma bus_states_return [intro]:
  "op_returns (i2c_send_start B)" "op_returns (i2c_send_stop B)" "op_returns (i2c_send_wake_token B)"
  unfolding i2c_send_start_def i2c_send_stop_def i2c_send_wake_token_def
  by (intro op_returns_bind set_returns lines_return)+

lemma set_pin_returns: "op_returns (i2c_set_pin B a c)"
  unfolding op_returns_def by (auto simp: set_pin_ready) (simp add: i2c_ready_def)

lemma send_bits_returns: "op_returns (send_bits B n b)"
proof (induction n arbitrary: b)
  case (Suc n)
  show ?case unfolding send_bits.simps
    by (intro op_returns_bind op_returns_if lines_return Suc)
qed (simp add: op_returns_def)

lemma poll_ack_returns: "returns (poll_ack B n)"
proof (induction n)
  case (Suc n)
  have e: "poll_ack B (Suc n) = (\<lambda>s. Option.bind (I2C_DATA_IN B s)
      (\<lambda>(v, s). (\<lambda>v s. if v = 0 then Some (ATCA_SUCCESS, s) else poll_ack B n s) v s))"
    by (rule ext) simp
  have "returns (\<lambda>s. if v = 0 then Some (ATCA_SUCCESS, s) else poll_ack B n s)" for v :: u32
    using Suc by (cases "v = 0") (simp_all add: returns_Some)
  then show ?case unfolding e by (rule returns_case [OF data_in_returns])
qed (simp add: returns_def)

lemma send_byte_returns: "returns (i2c_send_byte B b)"
  unfolding i2c_send_byte_def
  by (intro returns_bind op_returns_if set_returns send_bits_returns lines_return
      returns_case [OF poll_ack_returns] returns_Some)

text \<open>The wait for the data line does not end on a line that never shows the level.\<close>

lemma line_wait_stuck:
  assumes "i2c_ready s" "\<And>h. bit (fst (in32 B IN_REG h)) 3 \<longleftrightarrow> \<not> level"
  shows "line_wait B level s = None"
proof (rule ccontr)
  assume "line_wait B level s \<noteq> None"
  then obtain s' where w: "line_wait B level s = Some s'" by blast
  let ?P = "\<lambda>B' lv s s'. B' = B \<longrightarrow> lv = level \<longrightarrow> i2c_ready s \<longrightarrow> False"
  have "?P B level s s'"
  proof (rule line_wait.raw_induct [where P = ?P, OF _ w], intro impI)
    fix rec B' lv s t
    assume IH: "\<And>B' lv s s'. rec B' lv s = Some s' \<Longrightarrow> ?P B' lv s s'"
      and m: "Option.bind (I2C_DATA_IN B' s) (\<lambda>(v, s). if (v \<noteq> 0) = lv then Some s else rec B' lv s) = Some t"
      and eq: "B' = B" "lv = level" and rdy: "i2c_ready s"
    let ?v = "drop_bit 3 (fst (in32 B IN_REG (i2c_hw s))) AND 1" and ?u = "s\<lparr>i2c_hw := snd (in32 B IN_REG (i2c_hw s))\<rparr>"
    have "I2C_DATA_IN B s = Some (?v, ?u)" using line_writes(5) [OF rdy, of B] by (simp add: split_def Let_def)
    moreover have "(?v \<noteq> 0) \<noteq> level" unfolding data_in_bit using assms(2) by simp
    ultimately have "rec B level ?u = Some t" using m unfolding eq by (auto split: if_splits)
    from IH [OF this] rdy show False by simp
  qed
  then show False using assms(1) by blast
qed

text \<open>
  Sending a byte on a free clock puts its eight bits on the data line, the highest first,
  each with one clock pulse, then releases the line for the acknowledge and looks at it up to
  300 times: success exactly if one look saw it low, a transmission time-out if none did.
\<close>

lemma send_byte_waveform:
  "yields (i2c_send_byte (traced B) b) \<lparr>scl = False, sda = d, sda_out = e\<rparr>
     (\<lambda>st es w'. w' = \<lparr>scl = False, sda = bit b 0, sda_out = False\<rparr> \<and>
        (\<exists>ss. es = byte_out b ss \<and> acked I2C_ACK_TIMEOUT st ss))"
  by (rule send_byte_wave)

text \<open>
  C22: The acknowledge that the master sends waits for the data line to follow it without a
  time limit: on a line stuck at the other level the call never returns.
\<close>

theorem send_ack_stuck:
  assumes "i2c_ready s" "\<And>h. bit (fst (in32 B IN_REG h)) 3 \<longleftrightarrow> ack \<noteq> 0"
  shows "i2c_send_ack B ack s = None"
proof -
  have safe: "boe_i2c_safe B s = Some s" using assms(1) by (simp add: boe_i2c_safe_def i2c_ready_def)
  obtain lo hi where s: "I2C_SET_OUTPUT_LOW B s = Some lo" "i2c_ready lo" "I2C_SET_OUTPUT_HIGH B s = Some hi" "i2c_ready hi"
    using set_returns assms(1) unfolding op_returns_def by metis
  have "line_wait B (ack = 0) s' = None" if "i2c_ready s'" for s'
    by (rule line_wait_stuck [OF that]) (simp add: assms(2))
  from this [OF s(2)] this [OF s(4)] show ?thesis
    by (cases "ack = 0") (simp_all add: i2c_send_ack_def safe s(1,3))
qed

theorem send_ack_stuck_witness:
  "i2c_send_ack \<lparr>in32 = (\<lambda>a h. (0, h)), out32 = (\<lambda>a v h. h)\<rparr> 0
     \<lparr>i2cGpio = \<lparr>ps_DeviceId = 0, ps_BaseAddr = 0xFF0A0000, ps_IsReady = PS_COMPONENT_IS_READY,
        ps_Platform = XPLAT_ZYNQ_ULTRA_MP, ps_MaxPinNum = 174, ps_MaxBanks = 6\<rparr>,
      pin_sda = 29, pin_scl = 28, b_init = True, i2c_hw = ()\<rparr> = None"
  by (rule send_ack_stuck) (simp_all add: i2c_ready_def ps_ready_def)

end
