(* ===== verification/AtcaCommand.thy ===== *)
theory AtcaCommand
  imports I2c
begin

text \<open>
  The command packets of the ATECC508A (\<open>libatca/atca_command.c\<close>, \<open>atca_command.h\<close>): the
  CRC, one builder per command, the check of responses. A packet is the record
  \<open>ATCAPacket\<close>; the CRC is written into its bytes from the size byte on, so it can reach the
  header fields or leave the packet, which is the fault \<open>OutOfBounds\<close>. A builder returns its
  status and the packet.
\<close>

section \<open>Constants\<close>

definition ATCA_CHECKMAC :: u8 where "ATCA_CHECKMAC = 0x28"
definition ATCA_DERIVE_KEY :: u8 where "ATCA_DERIVE_KEY = 0x1c"
definition ATCA_INFO :: u8 where "ATCA_INFO = 0x30"
definition ATCA_GENDIG :: u8 where "ATCA_GENDIG = 0x15"
definition ATCA_GENKEY :: u8 where "ATCA_GENKEY = 0x40"
definition ATCA_HMAC :: u8 where "ATCA_HMAC = 0x11"
definition ATCA_LOCK :: u8 where "ATCA_LOCK = 0x17"
definition ATCA_MAC :: u8 where "ATCA_MAC = 0x8"
definition ATCA_NONCE :: u8 where "ATCA_NONCE = 0x16"
definition ATCA_PAUSE :: u8 where "ATCA_PAUSE = 0x1"
definition ATCA_PRIVWRITE :: u8 where "ATCA_PRIVWRITE = 0x46"
definition ATCA_RANDOM :: u8 where "ATCA_RANDOM = 0x1b"
definition ATCA_READ :: u8 where "ATCA_READ = 0x2"
definition ATCA_SIGN :: u8 where "ATCA_SIGN = 0x41"
definition ATCA_UPDATE_EXTRA :: u8 where "ATCA_UPDATE_EXTRA = 0x20"
definition ATCA_VERIFY :: u8 where "ATCA_VERIFY = 0x45"
definition ATCA_WRITE :: u8 where "ATCA_WRITE = 0x12"
definition ATCA_ECDH :: u8 where "ATCA_ECDH = 0x43"
definition ATCA_COUNTER :: u8 where "ATCA_COUNTER = 36"
definition ATCA_SHA :: u8 where "ATCA_SHA = 0x47"
definition ATCA_AES :: u8 where "ATCA_AES = 0x51"
definition ATCA_KDF :: u8 where "ATCA_KDF = 0x56"
definition ATCA_SECUREBOOT :: u8 where "ATCA_SECUREBOOT = 0x80"
definition ATCA_SELFTEST :: u8 where "ATCA_SELFTEST = 0x77"
definition ATCA_CMD_SIZE_MIN :: u8 where "ATCA_CMD_SIZE_MIN = 7"
definition ATCA_CRC_SIZE :: u8 where "ATCA_CRC_SIZE = 2"
definition ATCA_BLOCK_SIZE :: u8 where "ATCA_BLOCK_SIZE = 32"
definition ATCA_WORD_SIZE :: u8 where "ATCA_WORD_SIZE = 4"
definition ATCA_ZONE_CONFIG :: u8 where "ATCA_ZONE_CONFIG = 0x0"
definition ATCA_ZONE_OTP :: u8 where "ATCA_ZONE_OTP = 0x1"
definition ATCA_ZONE_DATA :: u8 where "ATCA_ZONE_DATA = 0x2"
definition ATCA_ZONE_READWRITE_32 :: u8 where "ATCA_ZONE_READWRITE_32 = 0x80"
definition ATCA_AES_GFM_SIZE :: u8 where "ATCA_AES_GFM_SIZE = 32"
definition AES_MODE_OP_MASK :: u8 where "AES_MODE_OP_MASK = 0x7"
definition AES_MODE_GFM :: u8 where "AES_MODE_GFM = 0x3"
definition AES_DATA_SIZE :: u8 where "AES_DATA_SIZE = 16"
definition CHECKMAC_COUNT :: u8 where "CHECKMAC_COUNT = 84"
definition DERIVE_KEY_COUNT_SMALL :: u8 where "DERIVE_KEY_COUNT_SMALL = 7"
definition DERIVE_KEY_COUNT_LARGE :: u8 where "DERIVE_KEY_COUNT_LARGE = 39"
definition ECDH_COUNT :: u8 where "ECDH_COUNT = 71"
definition GENDIG_COUNT :: u8 where "GENDIG_COUNT = 7"
definition GENDIG_ZONE_SHARED_NONCE :: u8 where "GENDIG_ZONE_SHARED_NONCE = 0x3"
definition GENKEY_COUNT :: u8 where "GENKEY_COUNT = 7"
definition GENKEY_COUNT_DATA :: u8 where "GENKEY_COUNT_DATA = 10"
definition GENKEY_MODE_PUBKEY_DIGEST :: u8 where "GENKEY_MODE_PUBKEY_DIGEST = 0x10"
definition KDF_DETAILS_SIZE :: u8 where "KDF_DETAILS_SIZE = 4"
definition KDF_MODE_TARGET_MASK :: u8 where "KDF_MODE_TARGET_MASK = 0x1c"
definition KDF_MODE_TARGET_OUTPUT :: u8 where "KDF_MODE_TARGET_OUTPUT = 0x10"
definition KDF_MODE_TARGET_OUTPUT_ENC :: u8 where "KDF_MODE_TARGET_OUTPUT_ENC = 0x14"
definition KDF_MODE_ALG_MASK :: u8 where "KDF_MODE_ALG_MASK = 0x60"
definition KDF_MODE_ALG_PRF :: u8 where "KDF_MODE_ALG_PRF = 0x0"
definition KDF_MODE_ALG_AES :: u8 where "KDF_MODE_ALG_AES = 0x20"
definition KDF_MODE_ALG_HKDF :: u8 where "KDF_MODE_ALG_HKDF = 0x40"
definition MAC_COUNT_SHORT :: u8 where "MAC_COUNT_SHORT = 7"
definition MAC_COUNT_LONG :: u8 where "MAC_COUNT_LONG = 39"
definition MAC_MODE_BLOCK2_TEMPKEY :: u8 where "MAC_MODE_BLOCK2_TEMPKEY = 0x1"
definition NONCE_COUNT_SHORT :: u8 where "NONCE_COUNT_SHORT = 27"
definition NONCE_COUNT_LONG :: u8 where "NONCE_COUNT_LONG = 39"
definition NONCE_COUNT_LONG_64 :: u8 where "NONCE_COUNT_LONG_64 = 71"
definition NONCE_MODE_MASK :: u8 where "NONCE_MODE_MASK = 0x3"
definition NONCE_MODE_SEED_UPDATE :: u8 where "NONCE_MODE_SEED_UPDATE = 0x0"
definition NONCE_MODE_NO_SEED_UPDATE :: u8 where "NONCE_MODE_NO_SEED_UPDATE = 0x1"
definition NONCE_MODE_PASSTHROUGH :: u8 where "NONCE_MODE_PASSTHROUGH = 0x3"
definition NONCE_MODE_INPUT_LEN_MASK :: u8 where "NONCE_MODE_INPUT_LEN_MASK = 0x20"
definition NONCE_MODE_INPUT_LEN_64 :: u8 where "NONCE_MODE_INPUT_LEN_64 = 0x20"
definition PRIVWRITE_COUNT :: u8 where "PRIVWRITE_COUNT = 75"
definition SECUREBOOT_DIGEST_SIZE :: u8 where "SECUREBOOT_DIGEST_SIZE = 32"
definition SECUREBOOT_SIGNATURE_SIZE :: u8 where "SECUREBOOT_SIGNATURE_SIZE = 64"
definition SECUREBOOT_MODE_MASK :: u8 where "SECUREBOOT_MODE_MASK = 0x7"
definition SECUREBOOT_MODE_FULL :: u8 where "SECUREBOOT_MODE_FULL = 0x5"
definition SECUREBOOT_MODE_FULL_STORE :: u8 where "SECUREBOOT_MODE_FULL_STORE = 0x6"
definition SECUREBOOT_MODE_FULL_COPY :: u8 where "SECUREBOOT_MODE_FULL_COPY = 0x7"
definition SECUREBOOT_MODE_ENC_MAC_FLAG :: u8 where "SECUREBOOT_MODE_ENC_MAC_FLAG = 0x80"
definition SHA_MODE_MASK :: u8 where "SHA_MODE_MASK = 0x7"
definition SHA_MODE_SHA256_START :: u8 where "SHA_MODE_SHA256_START = 0x0"
definition SHA_MODE_SHA256_UPDATE :: u8 where "SHA_MODE_SHA256_UPDATE = 0x1"
definition SHA_MODE_SHA256_END :: u8 where "SHA_MODE_SHA256_END = 0x2"
definition SHA_MODE_SHA256_PUBLIC :: u8 where "SHA_MODE_SHA256_PUBLIC = 0x3"
definition SHA_MODE_HMAC_START :: u8 where "SHA_MODE_HMAC_START = 0x4"
definition SHA_MODE_HMAC_END :: u8 where "SHA_MODE_HMAC_END = 0x5"
definition SHA_MODE_READ_CONTEXT :: u8 where "SHA_MODE_READ_CONTEXT = 0x6"
definition SHA_MODE_WRITE_CONTEXT :: u8 where "SHA_MODE_WRITE_CONTEXT = 0x7"
definition VERIFY_MODE_MASK :: u8 where "VERIFY_MODE_MASK = 0x3"
definition VERIFY_MODE_STORED :: u8 where "VERIFY_MODE_STORED = 0x0"
definition VERIFY_MODE_VALIDATE_EXTERNAL :: u8 where "VERIFY_MODE_VALIDATE_EXTERNAL = 0x1"
definition VERIFY_MODE_EXTERNAL :: u8 where "VERIFY_MODE_EXTERNAL = 0x2"
definition VERIFY_MODE_VALIDATE :: u8 where "VERIFY_MODE_VALIDATE = 0x3"
definition VERIFY_MODE_INVALIDATE :: u8 where "VERIFY_MODE_INVALIDATE = 0x7"
definition VERIFY_MODE_MAC_FLAG :: u8 where "VERIFY_MODE_MAC_FLAG = 0x80"
definition VERIFY_256_STORED_COUNT :: u8 where "VERIFY_256_STORED_COUNT = 71"
definition VERIFY_256_VALIDATE_COUNT :: u8 where "VERIFY_256_VALIDATE_COUNT = 90"
definition VERIFY_256_EXTERNAL_COUNT :: u8 where "VERIFY_256_EXTERNAL_COUNT = 135"
definition WRITE_MAC_SIZE :: u8 where "WRITE_MAC_SIZE = 32"
definition ATCA_RSP_SIZE_MIN :: u16 where "ATCA_RSP_SIZE_MIN = 4"
definition ATCA_RSP_SIZE_VAL :: u16 where "ATCA_RSP_SIZE_VAL = 7"
definition ATCA_RSP_SIZE_4 :: u16 where "ATCA_RSP_SIZE_4 = 7"
definition ATCA_RSP_SIZE_72 :: u16 where "ATCA_RSP_SIZE_72 = 75"
definition ATCA_RSP_SIZE_64 :: u16 where "ATCA_RSP_SIZE_64 = 67"
definition ATCA_RSP_SIZE_32 :: u16 where "ATCA_RSP_SIZE_32 = 35"
definition ATCA_RSP_SIZE_16 :: u16 where "ATCA_RSP_SIZE_16 = 19"
definition ATCA_PACKET_OVERHEAD :: u16 where "ATCA_PACKET_OVERHEAD = 3"
definition OUTNONCE_SIZE :: u16 where "OUTNONCE_SIZE = 32"
definition ATCA_SHA_DIGEST_SIZE :: u16 where "ATCA_SHA_DIGEST_SIZE = 32"
definition SHA_CONTEXT_MAX_SIZE :: u16 where "SHA_CONTEXT_MAX_SIZE = 99"
definition SECUREBOOT_RSP_SIZE_MAC :: u16 where "SECUREBOOT_RSP_SIZE_MAC = 35"
definition KDF_DETAILS_PRF_TARGET_LEN_MASK :: u32 where "KDF_DETAILS_PRF_TARGET_LEN_MASK = 0x100"
definition KDF_DETAILS_PRF_TARGET_LEN_64 :: u32 where "KDF_DETAILS_PRF_TARGET_LEN_64 = 0x100"
definition KDF_DETAILS_PRF_AEAD_MASK :: u32 where "KDF_DETAILS_PRF_AEAD_MASK = 0x600"
definition KDF_DETAILS_PRF_AEAD_MODE1 :: u32 where "KDF_DETAILS_PRF_AEAD_MODE1 = 0x200"

lemmas command_consts [model_eval] =
  ATCA_CHECKMAC_def ATCA_DERIVE_KEY_def ATCA_INFO_def ATCA_GENDIG_def ATCA_GENKEY_def
  ATCA_HMAC_def ATCA_LOCK_def ATCA_MAC_def ATCA_NONCE_def ATCA_PAUSE_def ATCA_PRIVWRITE_def
  ATCA_RANDOM_def ATCA_READ_def ATCA_SIGN_def ATCA_UPDATE_EXTRA_def ATCA_VERIFY_def ATCA_WRITE_def
  ATCA_ECDH_def ATCA_COUNTER_def ATCA_SHA_def ATCA_AES_def ATCA_KDF_def ATCA_SECUREBOOT_def
  ATCA_SELFTEST_def ATCA_CMD_SIZE_MIN_def ATCA_CRC_SIZE_def ATCA_BLOCK_SIZE_def ATCA_WORD_SIZE_def
  ATCA_ZONE_CONFIG_def ATCA_ZONE_OTP_def ATCA_ZONE_DATA_def ATCA_ZONE_READWRITE_32_def
  ATCA_AES_GFM_SIZE_def AES_MODE_OP_MASK_def AES_MODE_GFM_def AES_DATA_SIZE_def CHECKMAC_COUNT_def
  DERIVE_KEY_COUNT_SMALL_def DERIVE_KEY_COUNT_LARGE_def ECDH_COUNT_def GENDIG_COUNT_def
  GENDIG_ZONE_SHARED_NONCE_def GENKEY_COUNT_def GENKEY_COUNT_DATA_def
  GENKEY_MODE_PUBKEY_DIGEST_def KDF_DETAILS_SIZE_def KDF_MODE_TARGET_MASK_def
  KDF_MODE_TARGET_OUTPUT_def KDF_MODE_TARGET_OUTPUT_ENC_def KDF_MODE_ALG_MASK_def
  KDF_MODE_ALG_PRF_def KDF_MODE_ALG_AES_def KDF_MODE_ALG_HKDF_def MAC_COUNT_SHORT_def
  MAC_COUNT_LONG_def MAC_MODE_BLOCK2_TEMPKEY_def NONCE_COUNT_SHORT_def NONCE_COUNT_LONG_def
  NONCE_COUNT_LONG_64_def NONCE_MODE_MASK_def NONCE_MODE_SEED_UPDATE_def
  NONCE_MODE_NO_SEED_UPDATE_def NONCE_MODE_PASSTHROUGH_def NONCE_MODE_INPUT_LEN_MASK_def
  NONCE_MODE_INPUT_LEN_64_def PRIVWRITE_COUNT_def SECUREBOOT_DIGEST_SIZE_def
  SECUREBOOT_SIGNATURE_SIZE_def SECUREBOOT_MODE_MASK_def SECUREBOOT_MODE_FULL_def
  SECUREBOOT_MODE_FULL_STORE_def SECUREBOOT_MODE_FULL_COPY_def SECUREBOOT_MODE_ENC_MAC_FLAG_def
  SHA_MODE_MASK_def SHA_MODE_SHA256_START_def SHA_MODE_SHA256_UPDATE_def SHA_MODE_SHA256_END_def
  SHA_MODE_SHA256_PUBLIC_def SHA_MODE_HMAC_START_def SHA_MODE_HMAC_END_def
  SHA_MODE_READ_CONTEXT_def SHA_MODE_WRITE_CONTEXT_def VERIFY_MODE_MASK_def VERIFY_MODE_STORED_def
  VERIFY_MODE_VALIDATE_EXTERNAL_def VERIFY_MODE_EXTERNAL_def VERIFY_MODE_VALIDATE_def
  VERIFY_MODE_INVALIDATE_def VERIFY_MODE_MAC_FLAG_def VERIFY_256_STORED_COUNT_def
  VERIFY_256_VALIDATE_COUNT_def VERIFY_256_EXTERNAL_COUNT_def WRITE_MAC_SIZE_def
  ATCA_RSP_SIZE_MIN_def ATCA_RSP_SIZE_VAL_def ATCA_RSP_SIZE_4_def ATCA_RSP_SIZE_72_def
  ATCA_RSP_SIZE_64_def ATCA_RSP_SIZE_32_def ATCA_RSP_SIZE_16_def ATCA_PACKET_OVERHEAD_def
  OUTNONCE_SIZE_def ATCA_SHA_DIGEST_SIZE_def SHA_CONTEXT_MAX_SIZE_def SECUREBOOT_RSP_SIZE_MAC_def
  KDF_DETAILS_PRF_TARGET_LEN_MASK_def KDF_DETAILS_PRF_TARGET_LEN_64_def
  KDF_DETAILS_PRF_AEAD_MASK_def KDF_DETAILS_PRF_AEAD_MODE1_def

section \<open>Packets\<close>

datatype ATCADeviceType = ATSHA204A | ATECC108A | ATECC508A | ATECC608A | ATCA_DEV_UNKNOWN

record atca_command =
  cmd_dt :: ATCADeviceType
  clock_divider :: u8
  execution_time_msec :: u16

type_synonym ATCACommand = "atca_command option"

record ATCAPacket =
  pkt_reserved :: u8
  txsize :: u8
  opcode :: u8
  param1 :: u8
  param2 :: u16
  pkt_data :: "u8 list"
  execTime :: u8
  rxsize :: u16

definition PACKET_DATA_SIZE :: nat where "PACKET_DATA_SIZE = 130"

definition wf_packet :: "ATCAPacket \<Rightarrow> bool" where
  "wf_packet p \<longleftrightarrow> length (pkt_data p) = PACKET_DATA_SIZE"

text \<open>The frame on the wire, from the size byte to the end of the data buffer.\<close>

definition packet_frame :: "ATCAPacket \<Rightarrow> u8 list" where
  "packet_frame p = [txsize p, opcode p, param1 p] @ le16 (param2 p) @ pkt_data p"

definition with_frame :: "u8 list \<Rightarrow> ATCAPacket \<Rightarrow> ATCAPacket" where
  "with_frame f p =
     p\<lparr>txsize := f ! 0, opcode := f ! 1, param1 := f ! 2, param2 := of_le16 [f ! 3, f ! 4],
       pkt_data := drop 5 f\<rparr>"

text \<open>All bytes of the structure, with the padding byte before the last field.\<close>

definition packet_image :: "ATCAPacket \<Rightarrow> u8 list" where
  "packet_image p = pkt_reserved p # packet_frame p @ [execTime p, 0] @ le16 (rxsize p)"

section \<open>CRC\<close>

text \<open>One bit of \<open>atCRC\<close>, the loop over the bits of a byte (until the mask is shifted out),
  the loop over the bytes.\<close>

definition crc_step :: "bool \<Rightarrow> u16 \<Rightarrow> u16" where
  "crc_step data_bit crc_register =
     (let crc_bit = drop_bit 15 crc_register \<noteq> 0; crc_register = push_bit 1 crc_register
      in if data_bit \<noteq> crc_bit then crc_register XOR 0x8005 else crc_register)"

function crc_byte :: "u8 \<Rightarrow> u8 \<Rightarrow> u16 \<Rightarrow> u16" where
  "crc_byte shift_register d crc_register =
     (if shift_register = 0 then crc_register
      else crc_byte (push_bit 1 shift_register) d (crc_step (d AND shift_register \<noteq> 0) crc_register))"
  by pat_completeness auto
termination
proof (relation "measure (\<lambda>(m, d, r). LEAST n. push_bit n m = 0)", goal_cases)
  case (2 m d r)
  have ex: "push_bit 8 x = 0" for x :: u8 by (rule bit_word_eqI) (simp add: bit_push_bit_iff)
  define k where "k = (LEAST n. push_bit n m = 0)"
  have k: "push_bit k m = 0" unfolding k_def by (rule LeastI [of _ 8]) (rule ex)
  have "k \<noteq> 0" using k 2 by (metis push_bit_0_id id_apply)
  then obtain j where j: "k = Suc j" using not0_implies_Suc by blast
  have "push_bit j (push_bit 1 m) = 0" using k j by (simp only: push_bit_push_bit) simp
  then have "(LEAST n. push_bit n (push_bit 1 m) = 0) \<le> j" by (rule Least_le)
  then show ?case using j unfolding k_def by simp
qed simp

declare crc_byte.simps [simp del]

definition crc_bytes :: "u8 list \<Rightarrow> u16 \<Rightarrow> u16" where
  "crc_bytes bs crc_register = fold (crc_byte 1) bs crc_register"

definition crc_le :: "u16 \<Rightarrow> u8 list" where
  "crc_le crc_register = [ucast (crc_register AND 0x00FF), ucast (drop_bit 8 crc_register)]"

definition atCRC :: "nat \<Rightarrow> u8 list \<Rightarrow> fault + u8 list" where
  "atCRC len bs =
     (if len \<le> length bs then Inr (crc_le (crc_bytes (take len bs) 0)) else Inl OutOfBounds)"

definition atCalcCrc :: "ATCAPacket \<Rightarrow> fault + ATCAPacket" where
  "atCalcCrc packet =
     (let len = txsize packet - ATCA_CRC_SIZE; f = packet_frame packet
      in case atCRC (unat len) f of
          Inl e \<Rightarrow> Inl e
        | Inr crc \<Rightarrow>
            if unat len + 2 \<le> length f then Inr (with_frame (memcpy_at (unat len) crc f) packet)
            else Inl OutOfBounds)"

definition atCheckCrc :: "u8 list \<Rightarrow> fault + ATCA_STATUS" where
  "atCheckCrc response =
     (case response of
        [] \<Rightarrow> Inl OutOfBounds
      | r # _ \<Rightarrow>
          let count = unat (r - ATCA_CRC_SIZE)
          in case atCRC count response of
              Inl e \<Rightarrow> Inl e
            | Inr crc \<Rightarrow>
                if count + 1 < length response
                then Inr (if crc ! 0 = response ! count \<and> crc ! 1 = response ! (count + 1)
                          then ATCA_SUCCESS else ATCA_RX_CRC_ERROR)
                else Inl OutOfBounds)"

section \<open>Builders\<close>

type_synonym built = "fault + (ATCA_STATUS \<times> ATCAPacket)"

text \<open>The end of every builder.\<close>

definition with_crc :: "ATCAPacket \<Rightarrow> built" where
  "with_crc packet = (case atCalcCrc packet of Inl e \<Rightarrow> Inl e | Inr packet \<Rightarrow> Inr (ATCA_SUCCESS, packet))"

definition atCheckMAC :: "ATCACommand \<Rightarrow> ATCAPacket \<Rightarrow> built" where
  "atCheckMAC ca_cmd packet = with_crc (packet\<lparr>opcode := ATCA_CHECKMAC, txsize := CHECKMAC_COUNT, rxsize := ATCA_RSP_SIZE_MIN\<rparr>)"

definition atCounter :: "ATCACommand \<Rightarrow> ATCAPacket \<Rightarrow> built" where
  "atCounter ca_cmd packet = with_crc (packet\<lparr>opcode := ATCA_COUNTER, txsize := ATCA_CMD_SIZE_MIN, rxsize := ATCA_RSP_SIZE_4\<rparr>)"

definition atDeriveKey :: "ATCACommand \<Rightarrow> ATCAPacket \<Rightarrow> bool \<Rightarrow> built" where
  "atDeriveKey ca_cmd packet has_mac =
     with_crc (packet\<lparr>opcode := ATCA_DERIVE_KEY,
       txsize := (if has_mac then DERIVE_KEY_COUNT_LARGE else DERIVE_KEY_COUNT_SMALL),
       rxsize := ATCA_RSP_SIZE_MIN\<rparr>)"

definition atECDH :: "ATCACommand \<Rightarrow> ATCAPacket \<Rightarrow> built" where
  "atECDH ca_cmd packet = with_crc (packet\<lparr>opcode := ATCA_ECDH, txsize := ECDH_COUNT, rxsize := ATCA_RSP_SIZE_64\<rparr>)"

definition atGenDig :: "ATCACommand \<Rightarrow> ATCAPacket \<Rightarrow> bool \<Rightarrow> built" where
  "atGenDig ca_cmd packet is_no_mac_key =
     with_crc (packet\<lparr>opcode := ATCA_GENDIG,
       txsize := (if param1 packet = GENDIG_ZONE_SHARED_NONCE then GENDIG_COUNT + 32
                  else if is_no_mac_key then GENDIG_COUNT + 4 else GENDIG_COUNT),
       rxsize := ATCA_RSP_SIZE_MIN\<rparr>)"

definition atGenKey :: "ATCACommand \<Rightarrow> ATCAPacket \<Rightarrow> built" where
  "atGenKey ca_cmd packet =
     (let packet = packet\<lparr>opcode := ATCA_GENKEY\<rparr>
      in with_crc (if param1 packet AND GENKEY_MODE_PUBKEY_DIGEST \<noteq> 0
           then packet\<lparr>txsize := GENKEY_COUNT_DATA, rxsize := ATCA_RSP_SIZE_MIN\<rparr>
           else packet\<lparr>txsize := GENKEY_COUNT, rxsize := ATCA_RSP_SIZE_72\<rparr>))"

definition atHMAC :: "ATCACommand \<Rightarrow> ATCAPacket \<Rightarrow> built" where
  "atHMAC ca_cmd packet = with_crc (packet\<lparr>opcode := ATCA_HMAC, txsize := ATCA_CMD_SIZE_MIN, rxsize := ATCA_RSP_SIZE_32\<rparr>)"

definition atInfo :: "ATCACommand \<Rightarrow> ATCAPacket \<Rightarrow> built" where
  "atInfo ca_cmd packet = with_crc (packet\<lparr>opcode := ATCA_INFO, txsize := ATCA_CMD_SIZE_MIN, rxsize := ATCA_RSP_SIZE_VAL\<rparr>)"

definition atLock :: "ATCACommand \<Rightarrow> ATCAPacket \<Rightarrow> built" where
  "atLock ca_cmd packet = with_crc (packet\<lparr>opcode := ATCA_LOCK, txsize := ATCA_CMD_SIZE_MIN, rxsize := ATCA_RSP_SIZE_MIN\<rparr>)"

definition atMAC :: "ATCACommand \<Rightarrow> ATCAPacket \<Rightarrow> built" where
  "atMAC ca_cmd packet =
     with_crc (packet\<lparr>opcode := ATCA_MAC,
       txsize := (if param1 packet AND MAC_MODE_BLOCK2_TEMPKEY = 0 then MAC_COUNT_LONG else MAC_COUNT_SHORT),
       rxsize := ATCA_RSP_SIZE_32\<rparr>)"

definition atNonce :: "ATCACommand \<Rightarrow> ATCAPacket \<Rightarrow> built" where
  "atNonce ca_cmd packet =
     (let calc_mode = param1 packet AND NONCE_MODE_MASK; packet = packet\<lparr>opcode := ATCA_NONCE\<rparr>
      in if calc_mode = NONCE_MODE_SEED_UPDATE \<or> calc_mode = NONCE_MODE_NO_SEED_UPDATE
         then with_crc (packet\<lparr>txsize := NONCE_COUNT_SHORT, rxsize := ATCA_RSP_SIZE_32\<rparr>)
         else if calc_mode = NONCE_MODE_PASSTHROUGH
         then with_crc (packet\<lparr>
           txsize := (if param1 packet AND NONCE_MODE_INPUT_LEN_MASK = NONCE_MODE_INPUT_LEN_64
                      then NONCE_COUNT_LONG_64 else NONCE_COUNT_LONG),
           rxsize := ATCA_RSP_SIZE_MIN\<rparr>)
         else Inr (ATCA_BAD_PARAM, packet))"

definition atPause :: "ATCACommand \<Rightarrow> ATCAPacket \<Rightarrow> built" where
  "atPause ca_cmd packet = with_crc (packet\<lparr>opcode := ATCA_PAUSE, txsize := ATCA_CMD_SIZE_MIN, rxsize := ATCA_RSP_SIZE_MIN\<rparr>)"

definition atPrivWrite :: "ATCACommand \<Rightarrow> ATCAPacket \<Rightarrow> built" where
  "atPrivWrite ca_cmd packet = with_crc (packet\<lparr>opcode := ATCA_PRIVWRITE, txsize := PRIVWRITE_COUNT, rxsize := ATCA_RSP_SIZE_MIN\<rparr>)"

definition atRandom :: "ATCACommand \<Rightarrow> ATCAPacket \<Rightarrow> built" where
  "atRandom ca_cmd packet = with_crc (packet\<lparr>opcode := ATCA_RANDOM, txsize := ATCA_CMD_SIZE_MIN, rxsize := ATCA_RSP_SIZE_32\<rparr>)"

definition atRead :: "ATCACommand \<Rightarrow> ATCAPacket \<Rightarrow> built" where
  "atRead ca_cmd packet =
     with_crc (packet\<lparr>opcode := ATCA_READ, txsize := ATCA_CMD_SIZE_MIN,
       rxsize := (if param1 packet AND 0x80 = 0 then ATCA_RSP_SIZE_VAL else ATCA_RSP_SIZE_32)\<rparr>)"

definition atSecureBoot :: "ATCACommand \<Rightarrow> ATCAPacket \<Rightarrow> built" where
  "atSecureBoot ca_cmd packet =
     (let packet = packet\<lparr>opcode := ATCA_SECUREBOOT, txsize := ATCA_CMD_SIZE_MIN\<rparr>;
          mode = param1 packet AND SECUREBOOT_MODE_MASK;
          finish = (\<lambda>packet. with_crc (packet\<lparr>
            rxsize := (if param1 packet AND SECUREBOOT_MODE_ENC_MAC_FLAG \<noteq> 0
                       then SECUREBOOT_RSP_SIZE_MAC else ATCA_RSP_SIZE_MIN)\<rparr>))
      in if mode = SECUREBOOT_MODE_FULL \<or> mode = SECUREBOOT_MODE_FULL_COPY
         then finish (packet\<lparr>txsize := txsize packet + (SECUREBOOT_DIGEST_SIZE + SECUREBOOT_SIGNATURE_SIZE)\<rparr>)
         else if mode = SECUREBOOT_MODE_FULL_STORE
         then finish (packet\<lparr>txsize := txsize packet + SECUREBOOT_DIGEST_SIZE\<rparr>)
         else Inr (ATCA_BAD_PARAM, packet))"

text \<open>The sizes of \<open>atSHA\<close> are stored in a byte without a check.\<close>

definition atSHA :: "ATCACommand \<Rightarrow> ATCAPacket \<Rightarrow> u16 \<Rightarrow> built" where
  "atSHA ca_cmd packet write_context_size =
     (let packet = packet\<lparr>opcode := ATCA_SHA\<rparr>; mode = param1 packet AND SHA_MODE_MASK
      in if mode = SHA_MODE_SHA256_START \<or> mode = SHA_MODE_HMAC_START \<or> mode = SHA_MODE_SHA256_PUBLIC
         then with_crc (packet\<lparr>rxsize := ATCA_RSP_SIZE_MIN, txsize := ATCA_CMD_SIZE_MIN\<rparr>)
         else if mode = SHA_MODE_SHA256_UPDATE
         then (case ca_cmd of
             None \<Rightarrow> Inl NullPointer
           | Some c \<Rightarrow> with_crc (packet\<lparr>
               rxsize := (if cmd_dt c = ATSHA204A then ATCA_SHA_DIGEST_SIZE + ATCA_PACKET_OVERHEAD
                          else ATCA_RSP_SIZE_MIN),
               txsize := ucast (ucast ATCA_CMD_SIZE_MIN + param2 packet)\<rparr>))
         else if mode = SHA_MODE_SHA256_END \<or> mode = SHA_MODE_HMAC_END
         then with_crc (packet\<lparr>rxsize := ATCA_RSP_SIZE_32,
                txsize := ucast (ucast ATCA_CMD_SIZE_MIN + param2 packet)\<rparr>)
         else if mode = SHA_MODE_READ_CONTEXT
         then with_crc (packet\<lparr>rxsize := SHA_CONTEXT_MAX_SIZE + ATCA_PACKET_OVERHEAD, txsize := ATCA_CMD_SIZE_MIN\<rparr>)
         else if mode = SHA_MODE_WRITE_CONTEXT
         then with_crc (packet\<lparr>rxsize := ATCA_RSP_SIZE_MIN,
                txsize := ucast (ucast ATCA_CMD_SIZE_MIN + write_context_size)\<rparr>)
         else Inr (ATCA_BAD_PARAM, packet))"

definition atSign :: "ATCACommand \<Rightarrow> ATCAPacket \<Rightarrow> built" where
  "atSign ca_cmd packet = with_crc (packet\<lparr>opcode := ATCA_SIGN, txsize := ATCA_CMD_SIZE_MIN, rxsize := ATCA_RSP_SIZE_64\<rparr>)"

definition atUpdateExtra :: "ATCACommand \<Rightarrow> ATCAPacket \<Rightarrow> built" where
  "atUpdateExtra ca_cmd packet = with_crc (packet\<lparr>opcode := ATCA_UPDATE_EXTRA, txsize := ATCA_CMD_SIZE_MIN, rxsize := ATCA_RSP_SIZE_MIN\<rparr>)"

definition atVerify :: "ATCACommand \<Rightarrow> ATCAPacket \<Rightarrow> built" where
  "atVerify ca_cmd packet =
     (let packet = packet\<lparr>opcode := ATCA_VERIFY\<rparr>; mode = param1 packet AND VERIFY_MODE_MASK;
          mac_rsp = (if param1 packet AND VERIFY_MODE_MAC_FLAG \<noteq> 0 then ATCA_RSP_SIZE_32 else ATCA_RSP_SIZE_MIN)
      in if mode = VERIFY_MODE_STORED
         then with_crc (packet\<lparr>txsize := VERIFY_256_STORED_COUNT, rxsize := mac_rsp\<rparr>)
         else if mode = VERIFY_MODE_VALIDATE_EXTERNAL
         then with_crc (packet\<lparr>txsize := VERIFY_256_EXTERNAL_COUNT, rxsize := ATCA_RSP_SIZE_MIN\<rparr>)
         else if mode = VERIFY_MODE_EXTERNAL
         then with_crc (packet\<lparr>txsize := VERIFY_256_EXTERNAL_COUNT, rxsize := mac_rsp\<rparr>)
         else if mode = VERIFY_MODE_VALIDATE \<or> mode = VERIFY_MODE_INVALIDATE
         then with_crc (packet\<lparr>txsize := VERIFY_256_VALIDATE_COUNT, rxsize := ATCA_RSP_SIZE_MIN\<rparr>)
         else Inr (ATCA_BAD_PARAM, packet))"

definition atWrite :: "ATCACommand \<Rightarrow> ATCAPacket \<Rightarrow> bool \<Rightarrow> built" where
  "atWrite ca_cmd packet has_mac =
     (let size = 7 + (if param1 packet AND ATCA_ZONE_READWRITE_32 \<noteq> 0 then ATCA_BLOCK_SIZE else ATCA_WORD_SIZE);
          size = (if has_mac then size + WRITE_MAC_SIZE else size)
      in with_crc (packet\<lparr>opcode := ATCA_WRITE, txsize := size, rxsize := ATCA_RSP_SIZE_MIN\<rparr>))"

definition atAES :: "ATCACommand \<Rightarrow> ATCAPacket \<Rightarrow> built" where
  "atAES ca_cmd packet =
     with_crc (packet\<lparr>opcode := ATCA_AES,
       txsize := ATCA_CMD_SIZE_MIN +
         (if param1 packet AND AES_MODE_OP_MASK = AES_MODE_GFM then ATCA_AES_GFM_SIZE else AES_DATA_SIZE),
       rxsize := ATCA_RSP_SIZE_16\<rparr>)"

definition atSelfTest :: "ATCACommand \<Rightarrow> ATCAPacket \<Rightarrow> built" where
  "atSelfTest ca_cmd packet = with_crc (packet\<lparr>opcode := ATCA_SELFTEST, txsize := ATCA_CMD_SIZE_MIN, rxsize := ATCA_RSP_SIZE_MIN\<rparr>)"

text \<open>
  \<open>atKDF\<close>; with a status of success it also delivers the values for \<open>out_data_size\<close> and
  \<open>out_nonce_size\<close>, where the caller passes them.
\<close>

definition kdf_details :: "ATCAPacket \<Rightarrow> u32" where
  "kdf_details packet =
     ucast (pkt_data packet ! 0) OR push_bit 8 (ucast (pkt_data packet ! 1)) OR
     push_bit 16 (ucast (pkt_data packet ! 2)) OR push_bit 24 (ucast (pkt_data packet ! 3))"

definition kdf_output :: "u8 \<Rightarrow> u8 \<Rightarrow> u32 \<Rightarrow> u16 option" where
  "kdf_output alg target details =
     (let out = (target = KDF_MODE_TARGET_OUTPUT \<or> target = KDF_MODE_TARGET_OUTPUT_ENC)
      in if alg = KDF_MODE_ALG_PRF
         then Some (if out
           then (if details AND KDF_DETAILS_PRF_TARGET_LEN_MASK = KDF_DETAILS_PRF_TARGET_LEN_64 then 64 else 32)
           else if details AND KDF_DETAILS_PRF_AEAD_MASK = KDF_DETAILS_PRF_AEAD_MODE1 then 32 else 1)
         else if alg = KDF_MODE_ALG_AES \<or> alg = KDF_MODE_ALG_HKDF then Some (if out then 32 else 1)
         else None)"

definition atKDF ::
    "ATCACommand \<Rightarrow> ATCAPacket \<Rightarrow> fault + (ATCA_STATUS \<times> ATCAPacket \<times> (u16 \<times> u16) option)" where
  "atKDF ca_cmd packet =
     (let alg = param1 packet AND KDF_MODE_ALG_MASK;
          packet = packet\<lparr>opcode := ATCA_KDF,
            txsize := ATCA_CMD_SIZE_MIN + KDF_DETAILS_SIZE +
              (if alg = KDF_MODE_ALG_AES then AES_DATA_SIZE else pkt_data packet ! 3),
            rxsize := ATCA_PACKET_OVERHEAD\<rparr>;
          target = param1 packet AND KDF_MODE_TARGET_MASK
      in case kdf_output alg target (kdf_details packet) of
          None \<Rightarrow> Inr (ATCA_BAD_PARAM, packet, None)
        | Some n \<Rightarrow>
            let packet = packet\<lparr>rxsize := rxsize packet + n\<rparr>;
                out_data_size = (if rxsize packet > ATCA_RSP_SIZE_MIN then rxsize packet - ATCA_PACKET_OVERHEAD else 0);
                enc = (target = KDF_MODE_TARGET_OUTPUT_ENC);
                packet = (if enc then packet\<lparr>rxsize := rxsize packet + OUTNONCE_SIZE\<rparr> else packet)
            in case atCalcCrc packet of
                Inl e \<Rightarrow> Inl e
              | Inr packet \<Rightarrow>
                  Inr (ATCA_SUCCESS, packet, Some (out_data_size, if enc then OUTNONCE_SIZE else 0)))"

section \<open>Device families and error frames\<close>

fun atIsSHAFamily :: "ATCADeviceType \<Rightarrow> bool" where
  "atIsSHAFamily ATSHA204A = True"
| "atIsSHAFamily ATECC108A = True"
| "atIsSHAFamily ATECC508A = True"
| "atIsSHAFamily ATECC608A = True"
| "atIsSHAFamily _ = False"

fun atIsECCFamily :: "ATCADeviceType \<Rightarrow> bool" where
  "atIsECCFamily ATECC108A = True"
| "atIsECCFamily ATECC508A = True"
| "atIsECCFamily ATECC608A = True"
| "atIsECCFamily _ = False"

text \<open>\<open>isATCAError\<close> on a buffer of at least four bytes.\<close>

definition isATCAError :: "u8 list \<Rightarrow> ATCA_STATUS" where
  "isATCAError bs =
     (if take 4 bs = [0x04, 0x00, 0x03, 0x40] then ATCA_SUCCESS
      else if bs ! 0 = 0x04 then
        (if bs ! 1 = 0x01 then ATCA_CHECKMAC_VERIFY_FAILED
         else if bs ! 1 = 0x03 then ATCA_PARSE_ERROR
         else if bs ! 1 = 0x05 then ATCA_STATUS_ECC
         else if bs ! 1 = 0x07 then ATCA_STATUS_SELFTEST_ERROR
         else if bs ! 1 = 0x08 then ATCA_HEALTH_TEST_ERROR
         else if bs ! 1 = 0x0f then ATCA_EXECUTION_ERROR
         else if bs ! 1 = 0x11 then ATCA_WAKE_SUCCESS
         else if bs ! 1 = 0xff then ATCA_STATUS_CRC
         else ATCA_GEN_FAIL)
      else ATCA_SUCCESS)"

end
