(* ===== verification/AtcaHal.thy ===== *)
theory AtcaHal
  imports I2cWave AtcaCommand
begin

text \<open>
  The I2C layer of the library's hardware abstraction (\<open>libatca/hal/hal_i2c_bitbang.c\<close>) over
  the bit-banged master: use counts of the bus, address, send, receive, wake, idle, sleep.
  The record \<open>atca\<close> holds the globals of the layer, the state of the master and the heap.
  \<open>None\<close> is a call that never returns, \<open>Inl\<close> a fault.
\<close>

section \<open>State\<close>

text \<open>
  The allocator: the outcomes of the coming \<open>malloc\<close> calls (success when none is listed) and
  the number of live blocks.
\<close>

record heap =
  heap_outcomes :: "bool list"
  heap_live :: int

record ATCAI2CMaster =
  master_sda :: u32
  master_scl :: u32
  master_ref_ct :: int
  master_bus_index :: nat

record 'h atca =
  i2c_st :: "'h i2c"
  i2c_hal_data :: "ATCAI2CMaster option list"
  i2c_bus_ref_ct :: int
  atca_heap :: heap

definition malloc_ok :: "'h atca \<Rightarrow> bool \<times> 'h atca" where
  "malloc_ok st =
     (case heap_outcomes (atca_heap st) of
        [] \<Rightarrow> (True, st\<lparr>atca_heap := (atca_heap st)\<lparr>heap_live := heap_live (atca_heap st) + 1\<rparr>\<rparr>)
      | ok # rest \<Rightarrow>
          (ok, st\<lparr>atca_heap := \<lparr>heap_outcomes = rest,
                 heap_live = heap_live (atca_heap st) + (if ok then 1 else 0)\<rparr>\<rparr>))"

definition free_block :: "'h atca \<Rightarrow> 'h atca" where
  "free_block st = st\<lparr>atca_heap := (atca_heap st)\<lparr>heap_live := heap_live (atca_heap st) - 1\<rparr>\<rparr>"

datatype ATCAIfaceType =
    ATCA_I2C_IFACE | ATCA_SWI_IFACE | ATCA_UART_IFACE | ATCA_SPI_IFACE | ATCA_HID_IFACE
  | ATCA_CUSTOM_IFACE | ATCA_UNKNOWN_IFACE

text \<open>Of the union of the interface kinds, the I2C member.\<close>

record ATCAIfaceCfg =
  iface_type :: ATCAIfaceType
  devtype :: ATCADeviceType
  slave_address :: u8
  cfg_bus :: u8
  baud :: u32
  wake_delay :: u16
  rx_retries :: int

type_synonym 'a run = "(fault + 'a) option"

text \<open>Calls of the master.\<close>

definition i2c_op :: "('h i2c \<Rightarrow> 'h i2c option) \<Rightarrow> 'h atca \<Rightarrow> 'h atca run" where
  "i2c_op f st = map_option (\<lambda>s. Inr (st\<lparr>i2c_st := s\<rparr>)) (f (i2c_st st))"

definition i2c_val :: "('h i2c \<Rightarrow> ('a \<times> 'h i2c) option) \<Rightarrow> 'h atca \<Rightarrow> ('a \<times> 'h atca) run" where
  "i2c_val f st = map_option (\<lambda>(x, s). Inr (x, st\<lparr>i2c_st := s\<rparr>)) (f (i2c_st st))"

definition i2c_run :: "('h i2c \<Rightarrow> ('a \<times> 'h i2c) run) \<Rightarrow> 'h atca \<Rightarrow> ('a \<times> 'h atca) run" where
  "i2c_run f st = if_runs (f (i2c_st st)) (\<lambda>(x, s). Some (Inr (x, st\<lparr>i2c_st := s\<rparr>)))"

definition i2c_buses_default :: "(u8 \<times> u8) list" where
  "i2c_buses_default = [(ucast BOE_I2C_DAT, ucast BOE_I2C_SCL)]"

text \<open>\<open>i2c_set_pin(i2c_hal_data[bus]->pin_sda, i2c_hal_data[bus]->pin_scl)\<close>.\<close>

definition set_bus_pins :: "'h bus \<Rightarrow> nat \<Rightarrow> 'h atca \<Rightarrow> 'h atca run" where
  "set_bus_pins B bus st =
     (if bus < length (i2c_hal_data st)
      then (case i2c_hal_data st ! bus of
          None \<Rightarrow> Some (Inl NullPointer)
        | Some m \<Rightarrow> i2c_op (i2c_set_pin B (ucast (master_sda m)) (ucast (master_scl m))) st)
      else Some (Inl OutOfBounds))"

section \<open>Discovery, set-up and release\<close>

definition hal_i2c_discover_buses :: "'h bus \<Rightarrow> int list \<Rightarrow> 'h atca \<Rightarrow> (ATCA_STATUS \<times> int list \<times> 'h atca) run" where
  "hal_i2c_discover_buses B i2c_buses st =
     if_runs (i2c_val (i2c_discover_buses B i2c_buses) st) (\<lambda>(buses, st). Some (Inr (ATCA_SUCCESS, buses, st)))"

text \<open>
  The pointer that \<open>hal_i2c_init\<close> stores in \<open>hal_data\<close> is the index of the bus; on failure
  nothing is stored.
\<close>

definition hal_i2c_init :: "'h bus \<Rightarrow> ATCAIfaceCfg \<Rightarrow> 'h atca \<Rightarrow> (ATCA_STATUS \<times> nat option \<times> 'h atca) run" where
  "hal_i2c_init B cfg st =
     (let bus = unat (cfg_bus cfg);
          st = (if i2c_bus_ref_ct st = 0 then st\<lparr>i2c_hal_data := replicate MAX_I2C_BUSES None\<rparr> else st);
          st = st\<lparr>i2c_bus_ref_ct := i2c_bus_ref_ct st + 1\<rparr>
      in if bus < MAX_I2C_BUSES
         then (case i2c_hal_data st ! bus of
             None \<Rightarrow>
               let (ok, st) = malloc_ok st
               in if \<not> ok then Some (Inl NullPointer)
                  else
                    let (sda, scl) = i2c_buses_default ! bus;
                        m = \<lparr>master_sda = ucast sda, master_scl = ucast scl, master_ref_ct = 1, master_bus_index = bus\<rparr>;
                        st = st\<lparr>i2c_hal_data := (i2c_hal_data st)[bus := Some m]\<rparr>
                    in if_runs (i2c_op (i2c_set_pin B sda scl) st) (\<lambda>st.
                       if_runs (i2c_op (i2c_enable B) st) (\<lambda>st.
                       Some (Inr (ATCA_SUCCESS, Some bus, st))))
           | Some m \<Rightarrow>
               Some (Inr (ATCA_SUCCESS, Some bus,
                 st\<lparr>i2c_hal_data := (i2c_hal_data st)[bus := Some (m\<lparr>master_ref_ct := master_ref_ct m + 1\<rparr>)]\<rparr>)))
         else Some (Inr (ATCA_COMM_FAIL, None, st)))"

definition hal_i2c_post_init :: ATCA_STATUS where
  "hal_i2c_post_init = ATCA_SUCCESS"

text \<open>Releasing through a pointer whose object is gone is the fault \<open>NullPointer\<close>.\<close>

definition hal_i2c_release :: "'h bus \<Rightarrow> nat option \<Rightarrow> 'h atca \<Rightarrow> (ATCA_STATUS \<times> 'h atca) run" where
  "hal_i2c_release B hal_data st =
     (let st = st\<lparr>i2c_bus_ref_ct := i2c_bus_ref_ct st - 1\<rparr>
      in case hal_data of
          None \<Rightarrow> Some (Inr (ATCA_SUCCESS, st))
        | Some p \<Rightarrow>
            (case i2c_hal_data st ! p of
               None \<Rightarrow> Some (Inl NullPointer)
             | Some m \<Rightarrow>
                 let m = m\<lparr>master_ref_ct := master_ref_ct m - 1\<rparr>; b = master_bus_index m;
                     st = st\<lparr>i2c_hal_data := (i2c_hal_data st)[p := Some m]\<rparr>
                 in if master_ref_ct m \<le> 0 \<and> i2c_hal_data st ! b \<noteq> None
                    then if_runs (set_bus_pins B b st) (\<lambda>st.
                         if_runs (i2c_op (i2c_disable B) st) (\<lambda>st.
                         Some (Inr (ATCA_SUCCESS, (free_block st)\<lparr>i2c_hal_data := (i2c_hal_data st)[b := None]\<rparr>))))
                    else Some (Inr (ATCA_SUCCESS, st))))"

section \<open>Transfers\<close>

definition I2C_WRITE :: u8 where "I2C_WRITE = 0"
definition I2C_READ :: u8 where "I2C_READ = 1"

definition hal_i2c_send_slave_address ::
    "'h bus \<Rightarrow> ATCAIfaceCfg \<Rightarrow> u8 \<Rightarrow> 'h atca \<Rightarrow> (ATCA_STATUS \<times> 'h atca) run" where
  "hal_i2c_send_slave_address B cfg RorW st =
     if_runs (i2c_op (i2c_send_start B) st) (\<lambda>st.
     if_runs (i2c_val (i2c_send_byte B (slave_address cfg OR RorW)) st) (\<lambda>(status, st).
       if status \<noteq> ATCA_SUCCESS
       then if_runs (i2c_op (i2c_send_stop B) st) (\<lambda>st. Some (Inr (status, st)))
       else Some (Inr (status, st))))"

text \<open>The length is passed on in a byte.\<close>

definition hal_i2c_send ::
    "'h bus \<Rightarrow> ATCAIfaceCfg \<Rightarrow> u8 list \<Rightarrow> int \<Rightarrow> 'h atca \<Rightarrow> (ATCA_STATUS \<times> u8 list \<times> 'h atca) run" where
  "hal_i2c_send B cfg txdata txlength st =
     (if txdata = [] then Some (Inl OutOfBounds)
      else
        let txdata = txdata[0 := 0x03]; txlength = txlength + 1
        in if_runs (set_bus_pins B (unat (cfg_bus cfg)) st) (\<lambda>st.
           if_runs (hal_i2c_send_slave_address B cfg I2C_WRITE st) (\<lambda>(status, st).
           if_runs (if status \<noteq> ATCA_SUCCESS then Some (Inr (status, st))
                    else i2c_run (i2c_send_bytes B (of_int txlength) txdata) st) (\<lambda>(status, st).
           if_runs (i2c_op (i2c_send_stop B) st) (\<lambda>st.
           Some (Inr (status, txdata, st)))))))"

text \<open>
  The response to an acknowledged address: the count byte, then the rest. The first component
  is \<open>True\<close> when a bad count ends the loop.
\<close>

definition receive_frame :: "'h bus \<Rightarrow> u16 \<Rightarrow> u8 list \<Rightarrow> 'h atca \<Rightarrow> (bool \<times> u8 list \<times> 'h atca) run" where
  "receive_frame B rxlength rxdata st =
     if_runs (i2c_val (i2c_receive_byte B) st) (\<lambda>(count, st).
       if rxdata = [] then Some (Inl OutOfBounds)
       else
         let rxdata = rxdata[0 := count]
         in if count < ucast ATCA_RSP_SIZE_MIN \<or> ucast count > rxlength
            then if_runs (i2c_op (i2c_send_stop B) st) (\<lambda>st. Some (Inr (True, rxdata, st)))
            else if_runs (i2c_val (i2c_receive_bytes B (count - 1)) st) (\<lambda>(bs, st).
              if 1 + length bs \<le> length rxdata then Some (Inr (False, memcpy_at 1 bs rxdata, st))
              else Some (Inl OutOfBounds)))"

fun receive_tries ::
    "'h bus \<Rightarrow> ATCAIfaceCfg \<Rightarrow> u16 \<Rightarrow> nat \<Rightarrow> ATCA_STATUS \<Rightarrow> u8 list \<Rightarrow> 'h atca \<Rightarrow>
     (ATCA_STATUS \<times> u8 list \<times> 'h atca) run" where
  "receive_tries B cfg rxlength 0 status rxdata st = Some (Inr (status, rxdata, st))"
| "receive_tries B cfg rxlength (Suc retries) status rxdata st =
     (if status = ATCA_SUCCESS then Some (Inr (status, rxdata, st))
      else if_runs (hal_i2c_send_slave_address B cfg I2C_READ st) (\<lambda>(status, st).
        if status = ATCA_SUCCESS
        then if_runs (receive_frame B rxlength rxdata st) (\<lambda>(bad_size, rxdata, st).
          if bad_size then Some (Inr (ATCA_INVALID_SIZE, rxdata, st))
          else receive_tries B cfg rxlength retries status rxdata st)
        else receive_tries B cfg rxlength retries status rxdata st))"

text \<open>The length that the caller passes is never changed.\<close>

definition hal_i2c_receive ::
    "'h bus \<Rightarrow> ATCAIfaceCfg \<Rightarrow> u8 list \<Rightarrow> u16 \<Rightarrow> 'h atca \<Rightarrow> (ATCA_STATUS \<times> u8 list \<times> 'h atca) run" where
  "hal_i2c_receive B cfg rxdata rxlength st =
     if_runs (set_bus_pins B (unat (cfg_bus cfg)) st) (\<lambda>st.
     if_runs (receive_tries B cfg rxlength (nat (rx_retries cfg)) ATCA_RX_TIMEOUT rxdata st) (\<lambda>(status, rxdata, st).
       Some (Inr (if status = ATCA_TX_TIMEOUT then ATCA_RX_NO_RESPONSE else status, rxdata, st))))"

definition WAKE_RESPONSE :: "u8 list" where
  "WAKE_RESPONSE = [0x04, 0x11, 0x33, 0x43]"

definition hal_i2c_wake :: "'h bus \<Rightarrow> ATCAIfaceCfg \<Rightarrow> 'h atca \<Rightarrow> (ATCA_STATUS \<times> 'h atca) run" where
  "hal_i2c_wake B cfg st =
     if_runs (set_bus_pins B (unat (cfg_bus cfg)) st) (\<lambda>st.
     if_runs (i2c_op (i2c_send_wake_token B) st) (\<lambda>st.
     if_runs (hal_i2c_receive B cfg [0, 0, 0, 0] 4 st) (\<lambda>(status, response, st).
       Some (Inr (if status = ATCA_SUCCESS \<and> response \<noteq> WAKE_RESPONSE then ATCA_WAKE_FAILED else status, st)))))"

text \<open>Idle and sleep: a word address alone.\<close>

definition send_word_address ::
    "'h bus \<Rightarrow> ATCAIfaceCfg \<Rightarrow> u8 \<Rightarrow> 'h atca \<Rightarrow> (ATCA_STATUS \<times> 'h atca) run" where
  "send_word_address B cfg word st =
     if_runs (set_bus_pins B (unat (cfg_bus cfg)) st) (\<lambda>st.
     if_runs (hal_i2c_send_slave_address B cfg I2C_WRITE st) (\<lambda>(status, st).
       if status = ATCA_SUCCESS
       then if_runs (i2c_val (i2c_send_byte B word) st) (\<lambda>(status, st).
            if_runs (i2c_op (i2c_send_stop B) st) (\<lambda>st. Some (Inr (status, st))))
       else Some (Inr (status, st))))"

definition hal_i2c_idle :: "'h bus \<Rightarrow> ATCAIfaceCfg \<Rightarrow> 'h atca \<Rightarrow> (ATCA_STATUS \<times> 'h atca) run" where
  "hal_i2c_idle B cfg = send_word_address B cfg 0x02"

definition hal_i2c_sleep :: "'h bus \<Rightarrow> ATCAIfaceCfg \<Rightarrow> 'h atca \<Rightarrow> (ATCA_STATUS \<times> 'h atca) run" where
  "hal_i2c_sleep B cfg = send_word_address B cfg 0x01"

end
