(* ===== verification/AtcaHalFacts.thy ===== *)
theory AtcaHalFacts
  imports AtcaHal
begin

text \<open>
  What the transfers of \<open>AtcaHal\<close> put on the I2C bus, on any hardware: the waveform of a
  write transaction, that writing always returns, and the bounds of receiving.
\<close>

section \<open>Waveforms of the layer's calls\<close>

definition hal_ready :: "ATCAIfaceCfg \<Rightarrow> 'h atca \<Rightarrow> bool" where
  "hal_ready cfg st \<longleftrightarrow> i2c_ready (i2c_st st) \<and> unat (cfg_bus cfg) < length (i2c_hal_data st) \<and>
     i2c_hal_data st ! unat (cfg_bus cfg) \<noteq> None"

text \<open>Only the master changes.\<close>

definition same_bus :: "'h atca \<Rightarrow> 'h atca \<Rightarrow> bool" where
  "same_bus st st' \<longleftrightarrow> i2c_hal_data st' = i2c_hal_data st \<and> i2c_bus_ref_ct st' = i2c_bus_ref_ct st \<and>
     atca_heap st' = atca_heap st \<and> (i2c_ready (i2c_st st') \<longleftrightarrow> i2c_ready (i2c_st st))"

lemma same_bus_refl [intro, simp]: "same_bus st st"
  by (simp add: same_bus_def)

lemma same_bus_trans: "same_bus st st' \<Longrightarrow> same_bus st' st'' \<Longrightarrow> same_bus st st''"
  by (simp add: same_bus_def)

lemma same_bus_ready: "same_bus st st' \<Longrightarrow> hal_ready cfg st' \<longleftrightarrow> hal_ready cfg st"
  by (simp add: same_bus_def hal_ready_def)

type_synonym 'h tr_atca = "('h \<times> access list) atca"

definition st_wave :: "'h tr_atca \<Rightarrow> wires \<Rightarrow> i2c_event list \<Rightarrow> wires \<Rightarrow> 'h tr_atca \<Rightarrow> bool" where
  "st_wave st w es w' st' \<longleftrightarrow> wave (i2c_st st) w es w' (i2c_st st') \<and> same_bus st st'"

lemma st_wave_trans: "st_wave st w es w' st' \<Longrightarrow> st_wave st' w' fs w'' st'' \<Longrightarrow> st_wave st w (es @ fs) w'' st''"
  unfolding st_wave_def using wave_trans same_bus_trans by blast

lemma st_wave_refl: "st_wave st w [] w st"
  by (simp add: st_wave_def wave_refl)

text \<open>
  \<open>makes M w R\<close>: on a ready bus the call returns without a fault, and \<open>R\<close> relates its value,
  its waveform and the lines it leaves.
\<close>

definition makes ::
    "('h tr_atca \<Rightarrow> ('a \<times> 'h tr_atca) run) \<Rightarrow> wires \<Rightarrow> ('a \<Rightarrow> i2c_event list \<Rightarrow> wires \<Rightarrow> bool) \<Rightarrow> bool" where
  "makes M w R \<longleftrightarrow> (\<forall>st. i2c_ready (i2c_st st) \<longrightarrow>
     (\<exists>x st' es w'. M st = Some (Inr (x, st')) \<and> st_wave st w es w' st' \<and> R x es w'))"

lemma op_makes:
  assumes "emits f w es w'" "i2c_ready (i2c_st st)"
  shows "\<exists>st'. i2c_op f st = Some (Inr st') \<and> st_wave st w es w' st'"
proof -
  obtain s' where s: "f (i2c_st st) = Some s'" "wave (i2c_st st) w es w' s'"
    using assms by (auto simp: emits_def)
  then show ?thesis using wave_ready [OF s(2)] by (simp add: i2c_op_def st_wave_def same_bus_def)
qed

lemma val_makes:
  assumes "yields f w R" "returns f"
  shows "makes (i2c_val f) w R"
  unfolding makes_def
proof (intro allI impI)
  fix st :: "'a tr_atca" assume r: "i2c_ready (i2c_st st)"
  obtain x s' where s: "f (i2c_st st) = Some (x, s')" using assms(2) r by (auto simp: returns_def)
  obtain es w' where w: "wave (i2c_st st) w es w' s'" "R x es w'" using yieldsD [OF assms(1) r s] by blast
  have "st_wave st w es w' (st\<lparr>i2c_st := s'\<rparr>)" using w(1) wave_ready [OF w(1)] by (simp add: st_wave_def same_bus_def)
  then show "\<exists>x st' es w'. i2c_val f st = Some (Inr (x, st')) \<and> st_wave st w es w' st' \<and> R x es w'"
    using s w(2) by (auto simp: i2c_val_def)
qed

lemma st_wave_ready: "st_wave st w es w' st' \<Longrightarrow> i2c_ready (i2c_st st) \<Longrightarrow> i2c_ready (i2c_st st')"
  by (simp add: st_wave_def same_bus_def)

lemma makes_op_bind:
  assumes "emits f w es w'" "makes N w' (\<lambda>x fs. Q x (es @ fs))"
  shows "makes (\<lambda>st. if_runs (i2c_op f st) N) w Q"
  unfolding makes_def
proof (intro allI impI)
  fix st :: "'a tr_atca" assume r: "i2c_ready (i2c_st st)"
  obtain st1 where 1: "i2c_op f st = Some (Inr st1)" "st_wave st w es w' st1"
    using op_makes [OF assms(1) r] by blast
  have r1: "i2c_ready (i2c_st st1)" by (rule st_wave_ready [OF 1(2) r])
  obtain x st' fs w'' where "N st1 = Some (Inr (x, st'))" "st_wave st1 w' fs w'' st'" "Q x (es @ fs) w''"
    using assms(2) r1 unfolding makes_def by blast
  then show "\<exists>x st' es w'. if_runs (i2c_op f st) N = Some (Inr (x, st')) \<and> st_wave st w es w' st' \<and> Q x es w'"
    using 1 st_wave_trans by fastforce
qed

lemma makes_bind:
  assumes "makes M w R" "\<And>x es w'. R x es w' \<Longrightarrow> makes (N x) w' (\<lambda>y fs. Q y (es @ fs))"
  shows "makes (\<lambda>st. if_runs (M st) (\<lambda>(x, st). N x st)) w Q"
  unfolding makes_def
proof (intro allI impI)
  fix st :: "'a tr_atca" assume r: "i2c_ready (i2c_st st)"
  obtain x st1 es w' where 1: "M st = Some (Inr (x, st1))" "st_wave st w es w' st1" "R x es w'"
    using assms(1) r unfolding makes_def by blast
  have r1: "i2c_ready (i2c_st st1)" by (rule st_wave_ready [OF 1(2) r])
  obtain y st' fs w'' where "N x st1 = Some (Inr (y, st'))" "st_wave st1 w' fs w'' st'" "Q y (es @ fs) w''"
    using assms(2) [OF 1(3)] r1 unfolding makes_def by blast
  then show "\<exists>y st' es w'. if_runs (M st) (\<lambda>(x, st). N x st) = Some (Inr (y, st')) \<and>
      st_wave st w es w' st' \<and> Q y es w'"
    using 1 st_wave_trans by fastforce
qed

lemma makes_return: "R x [] w \<Longrightarrow> makes (\<lambda>st. Some (Inr (x, st))) w R"
  unfolding makes_def using st_wave_refl by blast

lemma makes_weaken: "makes M w R \<Longrightarrow> (\<And>x es w'. R x es w' \<Longrightarrow> Q x es w') \<Longrightarrow> makes M w Q"
  unfolding makes_def by blast

section \<open>Write transactions\<close>

text \<open>
  The bytes of a transaction after the address: each is acknowledged but perhaps the last
  one sent. A first byte without acknowledge is a time-out, a later one a failure.
\<close>

inductive bytes_wave :: "bool \<Rightarrow> u8 list \<Rightarrow> ATCA_STATUS \<Rightarrow> i2c_event list \<Rightarrow> bool" where
  bytes_done: "bytes_wave first [] ATCA_SUCCESS []"
| bytes_nack: "acked I2C_ACK_TIMEOUT ATCA_TX_TIMEOUT ss \<Longrightarrow>
    bytes_wave first (b # bs) (if first then ATCA_TX_TIMEOUT else ATCA_TX_FAIL) (byte_out b ss)"
| bytes_ack: "acked I2C_ACK_TIMEOUT ATCA_SUCCESS ss \<Longrightarrow> bytes_wave False bs status es \<Longrightarrow>
    bytes_wave first (b # bs) status (byte_out b ss @ es)"

inductive_cases bytes_done_cases: "bytes_wave first [] status es"
inductive_cases bytes_cases: "bytes_wave first (b # bs) status es"

definition write_wave :: "u8 \<Rightarrow> u8 list \<Rightarrow> ATCA_STATUS \<Rightarrow> i2c_event list \<Rightarrow> bool" where
  "write_wave address bs status es \<longleftrightarrow>
     (\<exists>ss fs. acked I2C_ACK_TIMEOUT ATCA_SUCCESS ss \<and> bytes_wave True bs status fs \<and>
        es = Start # byte_out address ss @ fs @ [Clock (Some False), Stop]) \<or>
     (\<exists>ss. status = ATCA_TX_TIMEOUT \<and> acked I2C_ACK_TIMEOUT status ss \<and>
        es = Start # byte_out address ss @ [Clock (Some False), Stop, Start, Stop])"

text \<open>The lines between a START and the STOP: clock low.\<close>

lemma byte_makes:
  assumes "\<not> scl w"
  shows "makes (i2c_val (i2c_send_byte (traced B) b)) w
    (\<lambda>st es w'. \<not> scl w' \<and> (\<exists>ss. es = byte_out b ss \<and> acked I2C_ACK_TIMEOUT st ss))"
proof -
  have w: "w = \<lparr>scl = False, sda = sda w, sda_out = sda_out w\<rparr>" using assms by (cases w) simp
  show ?thesis
    by (subst w, rule makes_weaken [OF val_makes [OF send_byte_wave send_byte_returns]]) auto
qed

lemma stop_emits:
  assumes "\<not> scl w"
  shows "emits (i2c_send_stop (traced B)) w [Clock (Some False), Stop] idle_lines"
proof -
  have w: "w = \<lparr>scl = False, sda = sda w, sda_out = sda_out w\<rparr>" using assms by (cases w) simp
  show ?thesis by (subst w, rule stop_wave)
qed

lemma op_return_makes: "emits f w es w' \<Longrightarrow> Q x es w' \<Longrightarrow> makes (\<lambda>st. if_runs (i2c_op f st) (\<lambda>st. Some (Inr (x, st)))) w Q"
  by (rule makes_op_bind, assumption, rule makes_return) simp

lemma address_makes:
  "makes (hal_i2c_send_slave_address (traced B) cfg RorW) idle_lines
     (\<lambda>status es w'. \<exists>ss. acked I2C_ACK_TIMEOUT status ss \<and>
        (if status = ATCA_SUCCESS then es = Start # byte_out (slave_address cfg OR RorW) ss \<and> \<not> scl w'
         else es = Start # byte_out (slave_address cfg OR RorW) ss @ [Clock (Some False), Stop] \<and> w' = idle_lines))"
  unfolding hal_i2c_send_slave_address_def
proof (rule makes_op_bind [OF start_wave], rule makes_bind [OF byte_makes])
  fix status es and w' :: wires
  let ?a = "slave_address cfg OR RorW"
  assume R: "\<not> scl w' \<and> (\<exists>ss. es = byte_out ?a ss \<and> acked I2C_ACK_TIMEOUT status ss)"
  let ?Q = "\<lambda>status' es w'. \<exists>ss. acked I2C_ACK_TIMEOUT status' ss \<and>
      (if status' = ATCA_SUCCESS then es = Start # byte_out ?a ss \<and> \<not> scl w'
       else es = Start # byte_out ?a ss @ [Clock (Some False), Stop] \<and> w' = idle_lines)"
  show "makes (\<lambda>st. if status \<noteq> ATCA_SUCCESS
        then if_runs (i2c_op (i2c_send_stop (traced B)) st) (\<lambda>st. Some (Inr (status, st)))
        else Some (Inr (status, st))) w' (\<lambda>y fs. ?Q y ([Start] @ es @ fs))"
  proof (cases "status = ATCA_SUCCESS")
    case True
    have "makes (\<lambda>st. Some (Inr (status, st))) w' (\<lambda>y fs. ?Q y ([Start] @ es @ fs))"
      by (rule makes_return) (use R True in auto)
    then show ?thesis using True by simp
  next
    case False
    have "makes (\<lambda>st. if_runs (i2c_op (i2c_send_stop (traced B)) st) (\<lambda>st. Some (Inr (status, st)))) w'
        (\<lambda>y fs. ?Q y ([Start] @ es @ fs))"
      by (rule op_return_makes [OF stop_emits]) (use R False in auto)
    then show ?thesis using False by simp
  qed
qed simp

lemma send_bytes_step:
  "i < length data \<Longrightarrow> i2c_run (send_bytes_from B data i (Suc n) status) st =
     if_runs (i2c_val (i2c_send_byte B (data ! i)) st) (\<lambda>(status, st).
       if status \<noteq> ATCA_SUCCESS then Some (Inr (if i > 0 then ATCA_TX_FAIL else status, st))
       else i2c_run (send_bytes_from B data (Suc i) n status) st)"
  by (cases "i2c_send_byte B (data ! i) (i2c_st st)") (auto simp: i2c_run_def i2c_val_def)

lemma send_bytes_makes:
  "i + n \<le> length data \<Longrightarrow> (n = 0 \<Longrightarrow> status = ATCA_SUCCESS) \<Longrightarrow> \<not> scl w \<Longrightarrow>
   makes (i2c_run (send_bytes_from (traced B) data i n status)) w
     (\<lambda>status' es w'. \<not> scl w' \<and> bytes_wave (i = 0) (take n (drop i data)) status' es)"
proof (induction n arbitrary: i status w)
  case 0
  have e: "i2c_run (send_bytes_from (traced B) data i 0 status) = (\<lambda>st. Some (Inr (ATCA_SUCCESS, st)))"
    using 0(2) by (auto simp: i2c_run_def)
  show ?case unfolding e by (rule makes_return) (use 0 in \<open>simp add: bytes_done\<close>)
next
  case (Suc n)
  let ?b = "data ! i"
  have i: "i < length data" using Suc.prems by simp
  have bs: "take (Suc n) (drop i data) = ?b # take n (drop (Suc i) data)"
    using i by (simp add: Cons_nth_drop_Suc [symmetric])
  let ?Q = "\<lambda>status' es w'. \<not> scl w' \<and> bytes_wave (i = 0) (take (Suc n) (drop i data)) status' es"
  let ?N = "\<lambda>status st. if status \<noteq> ATCA_SUCCESS then Some (Inr (if i > 0 then ATCA_TX_FAIL else status, st))
      else i2c_run (send_bytes_from (traced B) data (Suc i) n status) st"
  have e: "i2c_run (send_bytes_from (traced B) data i (Suc n) status) =
      (\<lambda>st. if_runs (i2c_val (i2c_send_byte (traced B) ?b) st) (\<lambda>(status, st). ?N status st))"
    by (rule ext) (simp only: send_bytes_step [OF i])
  show ?case
    unfolding e
  proof (rule makes_bind [OF byte_makes [OF Suc.prems(3)]])
    fix st1 es and w' :: wires
    assume R: "\<not> scl w' \<and> (\<exists>ss. es = byte_out ?b ss \<and> acked I2C_ACK_TIMEOUT st1 ss)"
    then obtain ss where ss: "es = byte_out ?b ss" "acked I2C_ACK_TIMEOUT st1 ss" by blast
    show "makes (?N st1) w' (\<lambda>y fs. ?Q y (es @ fs))"
    proof (cases "st1 = ATCA_SUCCESS")
      case True
      have "makes (i2c_run (send_bytes_from (traced B) data (Suc i) n st1)) w'
          (\<lambda>status' es w'. \<not> scl w' \<and> bytes_wave (Suc i = 0) (take n (drop (Suc i) data)) status' es)"
        by (rule Suc.IH) (use Suc.prems R True in auto)
      then have "makes (i2c_run (send_bytes_from (traced B) data (Suc i) n st1)) w' (\<lambda>y fs. ?Q y (es @ fs))"
        by (rule makes_weaken) (use ss True in \<open>auto simp: bs intro: bytes_ack\<close>)
      then show ?thesis using True by simp
    next
      case False
      then have t: "st1 = ATCA_TX_TIMEOUT" using ss(2) by (simp add: acked_def)
      have "bytes_wave (i = 0) (?b # take n (drop (Suc i) data)) (if i = 0 then ATCA_TX_TIMEOUT else ATCA_TX_FAIL)
          (byte_out ?b ss)"
        by (rule bytes_nack) (use ss(2) t in simp)
      moreover have "(if i > 0 then ATCA_TX_FAIL else st1) = (if i = 0 then ATCA_TX_TIMEOUT else ATCA_TX_FAIL)"
        using t by simp
      ultimately have "?Q (if i > 0 then ATCA_TX_FAIL else st1) (es @ []) w'"
        using R by (simp only: bs ss(1) append_Nil2 simp_thms)
      from makes_return [of "\<lambda>y fs. ?Q y (es @ fs)", OF this] False show ?thesis by simp
    qed
  qed
qed

lemma pins_make:
  assumes "hal_ready cfg st"
  shows "\<exists>st'. set_bus_pins (traced B) (unat (cfg_bus cfg)) st = Some (Inr st') \<and> st_wave st w [] w st'"
proof -
  obtain m where m: "i2c_hal_data st ! unat (cfg_bus cfg) = Some m" "unat (cfg_bus cfg) < length (i2c_hal_data st)"
    using assms by (auto simp: hal_ready_def)
  have "i2c_ready (i2c_st st)" using assms by (simp add: hal_ready_def)
  from op_makes [OF set_pin_wave this] m show ?thesis by (simp add: set_bus_pins_def)
qed

lemma unat_length:
  assumes "0 \<le> n" "n < 255"
  shows "unat (of_int (n + 1) :: u8) = Suc (nat n)"
proof -
  have "(of_int (n + 1) :: u8) = of_int (int (Suc (nat n)))" using assms by (simp only: int_Suc int_nat_eq) simp
  then have "(of_int (n + 1) :: u8) = of_nat (Suc (nat n))" by (simp only: of_int_of_nat_eq)
  moreover have "unat (of_nat (Suc (nat n)) :: u8) = Suc (nat n)"
    using assms by (simp only: unat_of_nat) simp
  ultimately show ?thesis by (simp only:)
qed

text \<open>A write transaction, from an idle bus to an idle bus.\<close>

lemma hal_send_makes:
  assumes "hal_ready cfg st" "txdata \<noteq> []" "0 \<le> n" "n < 255" "n < int (length txdata)"
  shows "\<exists>status st' es. hal_i2c_send (traced B) cfg txdata n st =
      Some (Inr (status, txdata[0 := 0x03], st')) \<and>
    st_wave st idle_lines es idle_lines st' \<and>
    write_wave (slave_address cfg) (take (nat n + 1) (txdata[0 := 0x03])) status es"
proof -
  let ?tx = "txdata[0 := 0x03]" and ?a = "slave_address cfg"
  let ?W = "write_wave ?a (take (nat n + 1) ?tx)"
  have len: "unat (of_int (n + 1) :: u8) = Suc (nat n)" by (rule unat_length) fact+
  obtain st1 where 1: "set_bus_pins (traced B) (unat (cfg_bus cfg)) st = Some (Inr st1)" "st_wave st idle_lines [] idle_lines st1"
    using pins_make [OF assms(1)] by blast
  have r1: "i2c_ready (i2c_st st1)" using st_wave_ready [OF 1(2)] assms(1) by (simp add: hal_ready_def)
  let ?body = "\<lambda>st. if_runs (hal_i2c_send_slave_address (traced B) cfg I2C_WRITE st) (\<lambda>(status, st).
      if_runs (if status \<noteq> ATCA_SUCCESS then Some (Inr (status, st))
               else i2c_run (i2c_send_bytes (traced B) (of_int (n + 1)) ?tx) st) (\<lambda>(status, st).
      if_runs (i2c_op (i2c_send_stop (traced B)) st) (\<lambda>st. Some (Inr (status, st)))))"
  have m: "makes ?body idle_lines (\<lambda>status es w'. ?W status es \<and> w' = idle_lines)"
  proof (rule makes_bind [OF address_makes])
    fix status es w'
    assume R: "\<exists>ss. acked I2C_ACK_TIMEOUT status ss \<and> (if status = ATCA_SUCCESS
      then es = Start # byte_out (?a OR I2C_WRITE) ss \<and> \<not> scl w'
      else es = Start # byte_out (?a OR I2C_WRITE) ss @ [Clock (Some False), Stop] \<and> w' = idle_lines)"
    let ?N = "\<lambda>st. if_runs (if status \<noteq> ATCA_SUCCESS then Some (Inr (status, st))
               else i2c_run (i2c_send_bytes (traced B) (of_int (n + 1)) ?tx) st) (\<lambda>(status, st).
      if_runs (i2c_op (i2c_send_stop (traced B)) st) (\<lambda>st. Some (Inr (status, st))))"
    show "makes ?N w' (\<lambda>y fs w''. ?W y (es @ fs) \<and> w'' = idle_lines)"
    proof (cases "status = ATCA_SUCCESS")
      case True
      then obtain ss where ss: "acked I2C_ACK_TIMEOUT status ss" "es = Start # byte_out ?a ss" "\<not> scl w'"
        using R by (auto simp: I2C_WRITE_def)
      have l: "0 + Suc (nat n) \<le> length ?tx" using assms by simp
      have "makes (i2c_run (i2c_send_bytes (traced B) (of_int (n + 1)) ?tx)) w'
          (\<lambda>status' es w'. \<not> scl w' \<and> bytes_wave True (take (nat n + 1) ?tx) status' es)"
        using send_bytes_makes [OF l _ ss(3), of ATCA_TX_TIMEOUT B] unfolding i2c_send_bytes_def len by simp
      then have "makes (\<lambda>st. if_runs (i2c_run (i2c_send_bytes (traced B) (of_int (n + 1)) ?tx) st) (\<lambda>(status, st).
          if_runs (i2c_op (i2c_send_stop (traced B)) st) (\<lambda>st. Some (Inr (status, st))))) w'
          (\<lambda>y fs w''. ?W y (es @ fs) \<and> w'' = idle_lines)"
        by (rule makes_bind, intro op_return_makes [OF stop_emits])
          (use ss True in \<open>auto simp: write_wave_def\<close>)
      then show ?thesis using True by simp
    next
      case False
      then obtain ss where ss: "acked I2C_ACK_TIMEOUT status ss"
        "es = Start # byte_out ?a ss @ [Clock (Some False), Stop]" "w' = idle_lines"
        using R by (auto simp: I2C_WRITE_def)
      have "status = ATCA_TX_TIMEOUT" using ss(1) False by (simp add: acked_def)
      then have "makes (\<lambda>st. if_runs (i2c_op (i2c_send_stop (traced B)) st) (\<lambda>st. Some (Inr (status, st)))) idle_lines
          (\<lambda>y fs w''. ?W y (es @ fs) \<and> w'' = idle_lines)"
        by (intro op_return_makes [OF stop_idle_wave]) (use ss in \<open>auto simp: write_wave_def\<close>)
      then show ?thesis using False ss(3) by simp
    qed
  qed
  obtain status st2 es w' where 2: "?body st1 = Some (Inr (status, st2))" "st_wave st1 idle_lines es w' st2"
    "?W status es" "w' = idle_lines"
    using m r1 unfolding makes_def by blast
  have "hal_i2c_send (traced B) cfg txdata n st = if_runs (?body st1) (\<lambda>(status, st). Some (Inr (status, ?tx, st)))"
    using assms(2) 1(1) by (simp add: hal_i2c_send_def Let_def if_runs_def split: option.splits sum.splits prod.splits)
  then show ?thesis using 2 st_wave_trans [OF 1(2) 2(2)] by auto
qed

section \<open>Bounds of receiving\<close>

text \<open>The bus of the configuration is set up; what a transfer keeps of the layer's state.\<close>

definition bus_up :: "ATCAIfaceCfg \<Rightarrow> 'h atca \<Rightarrow> bool" where
  "bus_up cfg st \<longleftrightarrow> unat (cfg_bus cfg) < length (i2c_hal_data st) \<and> i2c_hal_data st ! unat (cfg_bus cfg) \<noteq> None"

definition layer_same :: "'h atca \<Rightarrow> 'h atca \<Rightarrow> bool" where
  "layer_same st st' \<longleftrightarrow> i2c_hal_data st' = i2c_hal_data st \<and> i2c_bus_ref_ct st' = i2c_bus_ref_ct st \<and>
     atca_heap st' = atca_heap st"

lemma layer_same_refl [simp]: "layer_same st st"
  by (simp add: layer_same_def)

lemma layer_same_trans [trans]: "layer_same st st' \<Longrightarrow> layer_same st' st'' \<Longrightarrow> layer_same st st''"
  by (simp add: layer_same_def)

lemma layer_same_i2c [simp]: "layer_same st (st'\<lparr>i2c_st := s\<rparr>) \<longleftrightarrow> layer_same st st'"
  by (simp add: layer_same_def)

lemma layer_same_up: "layer_same st st' \<Longrightarrow> bus_up cfg st' \<longleftrightarrow> bus_up cfg st"
  by (simp add: layer_same_def bus_up_def)

text \<open>\<open>ends r P\<close>: where the call returns, it returns without a fault and with \<open>P\<close>.\<close>

definition ends :: "'a run \<Rightarrow> ('a \<Rightarrow> bool) \<Rightarrow> bool" where
  "ends r P \<longleftrightarrow> (\<forall>z. r = Some z \<longrightarrow> (\<exists>x. z = Inr x \<and> P x))"

lemma endsD: "ends r P \<Longrightarrow> r = Some z \<Longrightarrow> \<exists>x. z = Inr x \<and> P x"
  by (simp add: ends_def)

lemma ends_bind: "ends r P \<Longrightarrow> (\<And>x. P x \<Longrightarrow> ends (k x) Q) \<Longrightarrow> ends (if_runs r k) Q"
  by (auto simp: ends_def if_runs_def split: option.splits sum.splits)

lemma ends_return: "P x \<Longrightarrow> ends (Some (Inr x)) P"
  by (simp add: ends_def)

lemma ends_weaken: "ends r P \<Longrightarrow> (\<And>x. P x \<Longrightarrow> Q x) \<Longrightarrow> ends r Q"
  by (auto simp: ends_def)

lemma ends_if: "(c \<Longrightarrow> ends r P) \<Longrightarrow> (\<not> c \<Longrightarrow> ends r' P) \<Longrightarrow> ends (if c then r else r') P"
  by simp

lemma op_ends: "ends (i2c_op f st) (layer_same st)"
  by (auto simp: ends_def i2c_op_def)

lemma val_ends: "(\<And>x s. f (i2c_st st) = Some (x, s) \<Longrightarrow> P x) \<Longrightarrow> ends (i2c_val f st) (\<lambda>(x, st'). P x \<and> layer_same st st')"
  by (auto simp: ends_def i2c_val_def)

lemma pins_end: "bus_up cfg st \<Longrightarrow> ends (set_bus_pins B (unat (cfg_bus cfg)) st) (layer_same st)"
  by (auto simp: bus_up_def set_bus_pins_def op_ends)

definition bus_status :: "ATCA_STATUS \<Rightarrow> bool" where
  "bus_status status \<longleftrightarrow> status = ATCA_SUCCESS \<or> status = ATCA_TX_TIMEOUT"

lemma poll_ack_status: "poll_ack B n s = Some (status, s') \<Longrightarrow> bus_status status"
  by (induction n arbitrary: s) (auto simp: bus_status_def bind_eq_Some_conv split: if_splits)

lemma send_byte_status: "i2c_send_byte B b s = Some (status, s') \<Longrightarrow> bus_status status"
  by (auto simp: i2c_send_byte_def bind_eq_Some_conv dest: poll_ack_status split: if_splits)

lemma address_ends: "ends (hal_i2c_send_slave_address B cfg RorW st) (\<lambda>(status, st'). bus_status status \<and> layer_same st st')"
  unfolding hal_i2c_send_slave_address_def
  by (rule ends_bind [OF op_ends], rule ends_bind [OF val_ends [where P = bus_status]], erule send_byte_status)
    (auto intro!: ends_bind [OF op_ends] ends_return intro: layer_same_trans split: prod.splits)

lemma length_receive_acked: "receive_acked B n s = Some (bs, s') \<Longrightarrow> length bs = n"
  by (induction n arbitrary: s bs) (auto simp: bind_eq_Some_conv)

lemma length_receive_bytes:
  assumes "i2c_receive_bytes B count s = Some (bs, s')" "count \<noteq> 0"
  shows "length bs = unat count"
proof -
  have "unat (count - 1) = unat count - 1" using assms(2) by (simp add: unat_minus_one)
  moreover have "0 < unat count" using assms(2) by (simp add: unat_gt_0)
  ultimately show ?thesis using assms(1)
    by (auto simp: i2c_receive_bytes_def bind_eq_Some_conv dest!: length_receive_acked)
qed

text \<open>A response that was taken has its announced size, which fits the buffer.\<close>

definition received :: "u16 \<Rightarrow> u8 list \<Rightarrow> u8 list \<Rightarrow> ATCA_STATUS \<Rightarrow> bool" where
  "received n rx rx' status \<longleftrightarrow> length rx' = length rx \<and> drop (unat n) rx' = drop (unat n) rx \<and>
     (status = ATCA_SUCCESS \<longrightarrow> 4 \<le> unat (rx' ! 0) \<and> unat (rx' ! 0) \<le> unat n)"

lemma received_count: "0 < unat n \<Longrightarrow> status \<noteq> ATCA_SUCCESS \<Longrightarrow> received n rx (rx[0 := c]) status"
  by (simp add: received_def drop_update_cancel)

lemma received_frame:
  assumes "rx \<noteq> []" "unat n \<le> length rx" "Suc (length bs) = unat c" "4 \<le> unat c" "unat c \<le> unat n"
  shows "received n rx (memcpy_at 1 bs (rx[0 := c])) status"
proof -
  have l: "1 + length bs \<le> length (rx[0 := c])" using assms by simp
  have "drop (unat n) (memcpy_at 1 bs (rx[0 := c])) = drop (unat n) (rx[0 := c])"
    using assms l by (simp add: memcpy_at_def)
  also have "\<dots> = drop (unat n) rx" using assms by (intro drop_update_cancel) simp
  finally have d: "drop (unat n) (memcpy_at 1 bs (rx[0 := c])) = drop (unat n) rx" .
  have z: "memcpy_at 1 bs (rx[0 := c]) ! 0 = c"
    using assms by (cases rx) (simp_all add: memcpy_at_def)
  show ?thesis using d z l length_memcpy_at [OF l] assms by (simp add: received_def)
qed

lemma received_trans: "received n rx rx' s \<Longrightarrow> received n rx' rx'' s' \<Longrightarrow> received n rx rx'' s'"
  by (simp add: received_def)

lemma received_refl: "status \<noteq> ATCA_SUCCESS \<Longrightarrow> received n rx rx status"
  by (simp add: received_def)

lemma unat_count: "unat (ucast (c :: u8) :: u16) = unat c"
proof -
  have "unat c < 2 ^ 8" using unsigned_less [of c] by simp
  then show ?thesis by (simp add: unsigned_ucast_eq take_bit_nat_eq_self)
qed

lemma frame_ends:
  assumes "0 < unat n" "unat n \<le> length rx"
  shows "ends (receive_frame B n rx st) (\<lambda>(bad, rx', st').
    received n rx rx' (if bad then ATCA_INVALID_SIZE else ATCA_SUCCESS) \<and> layer_same st st')"
    (is "ends _ ?P")
  unfolding receive_frame_def
proof (rule ends_bind [OF val_ends [where P = "\<lambda>_. True"]], simp, clarify)
  fix c :: u8 and st1 :: "'a atca" assume 1: "layer_same st st1"
  let ?rx = "rx[0 := c]"
  have ne: "rx \<noteq> []" using assms by auto
  have "ends (if c < ucast ATCA_RSP_SIZE_MIN \<or> ucast c > n
      then if_runs (i2c_op (i2c_send_stop B) st1) (\<lambda>st. Some (Inr (True, ?rx, st)))
      else if_runs (i2c_val (i2c_receive_bytes B (c - 1)) st1) (\<lambda>(bs, st).
        if 1 + length bs \<le> length ?rx then Some (Inr (False, memcpy_at 1 bs ?rx, st))
        else Some (Inl OutOfBounds))) ?P"
  proof (rule ends_if)
    show "ends (if_runs (i2c_op (i2c_send_stop B) st1) (\<lambda>st. Some (Inr (True, ?rx, st)))) ?P"
      by (rule ends_bind [OF op_ends], rule ends_return)
        (use received_count [OF assms(1), of ATCA_INVALID_SIZE rx c] 1 in \<open>auto intro: layer_same_trans\<close>)
  next
    assume "\<not> (c < ucast ATCA_RSP_SIZE_MIN \<or> ucast c > n)"
    then have c: "c \<ge> 4" "ucast c \<le> n" by (auto simp: ATCA_RSP_SIZE_MIN_def)
    have c4: "4 \<le> unat c" and cn: "unat c \<le> unat n" using c by (simp_all add: word_le_nat_alt unat_count)
    have "c \<noteq> 0" "c \<noteq> 1" using c4 by auto
    then have c1: "c - 1 \<noteq> 0" "unat (c - 1) = unat c - 1" by (simp_all add: unat_minus_one)
    show "ends (if_runs (i2c_val (i2c_receive_bytes B (c - 1)) st1) (\<lambda>(bs, st).
        if 1 + length bs \<le> length ?rx then Some (Inr (False, memcpy_at 1 bs ?rx, st))
        else Some (Inl OutOfBounds))) ?P"
    proof (rule ends_bind [OF val_ends [where P = "\<lambda>bs. length bs = unat (c - 1)"]],
        erule length_receive_bytes [OF _ c1(1)], clarify)
      fix bs :: "u8 list" and st2 :: "'a atca"
      assume 2: "length bs = unat (c - 1)" "layer_same st1 st2"
      have len: "Suc (length bs) = unat c" using 2(1) c1 c4 by simp
      have fits: "1 + length bs \<le> length ?rx" using len cn assms(2) by simp
      show "ends (if 1 + length bs \<le> length ?rx then Some (Inr (False, memcpy_at 1 bs ?rx, st2))
          else Some (Inl OutOfBounds)) ?P"
        unfolding if_P [OF fits] by (rule ends_return)
          (use received_frame [OF ne assms(2) len c4 cn] 1 2 in \<open>auto intro: layer_same_trans\<close>)
    qed
  qed
  then show "ends (if rx = [] then Some (Inl OutOfBounds)
    else let rxdata = rx[0 := c]
      in if c < ucast ATCA_RSP_SIZE_MIN \<or> ucast c > n
         then if_runs (i2c_op (i2c_send_stop B) st1) (\<lambda>st. Some (Inr (True, rxdata, st)))
         else if_runs (i2c_val (i2c_receive_bytes B (c - 1)) st1) (\<lambda>(bs, st).
           if 1 + length bs \<le> length rxdata then Some (Inr (False, memcpy_at 1 bs rxdata, st))
           else Some (Inl OutOfBounds))) ?P"
    using ne by (simp add: Let_def)
qed

text \<open>The loop stops with a response, a size error, or, after all its tries, no response.\<close>

lemma tries_end:
  assumes "0 < unat n" "unat n \<le> length rx" "status = ATCA_SUCCESS \<Longrightarrow> received n rx rx status"
  shows "ends (receive_tries B cfg n k status rx st)
    (\<lambda>(status', rx', st'). received n rx rx' status' \<and> layer_same st st' \<and>
       (bus_status status' \<or> status' = ATCA_INVALID_SIZE \<or> status' = status))"
  using assms
proof (induction k arbitrary: status rx st)
  case 0
  then show ?case by (auto simp: received_def intro!: ends_return)
next
  case (Suc k)
  let ?P = "\<lambda>(status', rx', st'). received n rx rx' status' \<and> layer_same st st' \<and>
       (bus_status status' \<or> status' = ATCA_INVALID_SIZE \<or> status' = status)"
  have again: "ends (receive_tries B cfg n k status1 rx1 st1) ?P"
    if "layer_same st st1" "bus_status status1" "received n rx rx1 status1" for status1 rx1 st1
  proof (rule ends_weaken [OF Suc.IH])
    show "unat n \<le> length rx1" using that(3) Suc.prems(2) by (simp add: received_def)
    show "received n rx1 rx1 status1" using that(3) by (simp add: received_def)
  qed (use that Suc.prems(1) in \<open>auto intro: layer_same_trans received_trans\<close>)
  show ?case
  proof (cases "status = ATCA_SUCCESS")
    case True
    then show ?thesis using Suc.prems by (auto intro!: ends_return)
  next
    case False
    show ?thesis
      unfolding receive_tries.simps if_not_P [OF False]
      by (rule ends_bind [OF address_ends], clarify, rule ends_if)
        (auto intro!: again ends_bind [OF frame_ends [OF Suc.prems(1,2)]] ends_return
          intro: layer_same_trans received_refl split: prod.splits)
  qed
qed

lemma receive_ends:
  assumes "bus_up cfg st" "0 < unat n" "unat n \<le> length rx"
  shows "ends (hal_i2c_receive B cfg rx n st) (\<lambda>(status, rx', st'). received n rx rx' status \<and> layer_same st st' \<and>
    status \<in> {ATCA_SUCCESS, ATCA_INVALID_SIZE, ATCA_RX_NO_RESPONSE, ATCA_RX_TIMEOUT})"
    (is "ends _ ?P")
  unfolding hal_i2c_receive_def
proof (rule ends_bind [OF pins_end [OF assms(1)]])
  fix st1 assume 1: "layer_same st st1"
  show "ends (if_runs (receive_tries B cfg n (nat (rx_retries cfg)) ATCA_RX_TIMEOUT rx st1) (\<lambda>(status, rxdata, st).
      Some (Inr (if status = ATCA_TX_TIMEOUT then ATCA_RX_NO_RESPONSE else status, rxdata, st)))) ?P"
    by (rule ends_bind [OF tries_end [OF assms(2,3)]])
      (auto intro!: ends_return intro: layer_same_trans [OF 1] simp: bus_status_def received_def)
qed

section \<open>The other calls\<close>

lemma send_bytes_ends:
  "i + n \<le> length data \<Longrightarrow> ends (i2c_run (send_bytes_from B data i n status) st) (\<lambda>(status, st'). layer_same st st')"
proof (induction n arbitrary: i status st)
  case 0
  then show ?case by (simp add: i2c_run_def ends_def)
next
  case (Suc n)
  have i: "i < length data" and n: "Suc i + n \<le> length data" using Suc.prems by simp_all
  show ?case
    unfolding send_bytes_step [OF i]
  proof (rule ends_bind [OF val_ends [where P = "\<lambda>_. True"]], simp, clarify)
    fix status1 and st1 :: "'a atca" assume 1: "layer_same st st1"
    have "ends (i2c_run (send_bytes_from B data (Suc i) n status1) st1) (\<lambda>(status, st'). layer_same st st')"
      by (rule ends_weaken [OF Suc.IH [OF n]]) (auto intro: layer_same_trans [OF 1])
    then show "ends (if status1 \<noteq> ATCA_SUCCESS then Some (Inr (if i > 0 then ATCA_TX_FAIL else status1, st1))
        else i2c_run (send_bytes_from B data (Suc i) n status1) st1) (\<lambda>(status, st'). layer_same st st')"
      using 1 by (cases "status1 = ATCA_SUCCESS") (simp_all add: ends_return)
  qed
qed

lemma send_ends:
  assumes "bus_up cfg st" "tx \<noteq> []" "0 \<le> n" "n < 255" "n < int (length tx)"
  shows "ends (hal_i2c_send B cfg tx n st) (\<lambda>(status, tx', st'). layer_same st st' \<and> tx' = tx[0 := 3])"
    (is "ends _ ?P")
proof -
  let ?tx = "tx[0 := 3]"
  have fits: "0 + unat (of_int (n + 1) :: u8) \<le> length ?tx"
    unfolding unat_length [OF assms(3,4)] using assms(3-5) by simp
  let ?send = "\<lambda>status st. if status \<noteq> ATCA_SUCCESS then Some (Inr (status, st))
      else i2c_run (i2c_send_bytes B (of_int (n + 1)) ?tx) st"
  have send: "ends (?send status st1) (\<lambda>(status, st'). layer_same st st')" if "layer_same st st1" for status st1
  proof (cases "status = ATCA_SUCCESS")
    case True
    have "ends (i2c_run (i2c_send_bytes B (of_int (n + 1)) ?tx) st1) (\<lambda>(status, st'). layer_same st st')"
      unfolding i2c_send_bytes_def
      by (rule ends_weaken [OF send_bytes_ends [OF fits]]) (auto intro: layer_same_trans [OF that])
    then show ?thesis using True by simp
  qed (simp add: that ends_return)
  have "ends (if_runs (set_bus_pins B (unat (cfg_bus cfg)) st) (\<lambda>st.
       if_runs (hal_i2c_send_slave_address B cfg I2C_WRITE st) (\<lambda>(status, st).
       if_runs (?send status st) (\<lambda>(status, st).
       if_runs (i2c_op (i2c_send_stop B) st) (\<lambda>st. Some (Inr (status, ?tx, st))))))) ?P"
  proof (rule ends_bind [OF pins_end [OF assms(1)]], rule ends_bind [OF address_ends], clarify)
    fix st1 st2 :: "'a atca" and status assume "layer_same st st1" "layer_same st1 st2"
    then have 2: "layer_same st st2" by (rule layer_same_trans)
    show "ends (if_runs (?send status st2) (\<lambda>(status, st).
       if_runs (i2c_op (i2c_send_stop B) st) (\<lambda>st. Some (Inr (status, ?tx, st))))) ?P"
      by (rule ends_bind [OF send [OF 2]], clarify, rule ends_bind [OF op_ends])
        (auto intro: ends_return layer_same_trans)
  qed
  then show ?thesis using assms(2) by (simp add: hal_i2c_send_def Let_def)
qed

text \<open>The chip is awake only where the four bytes of the wake response came.\<close>

lemma wake_ends:
  assumes "bus_up cfg st"
  shows "ends (hal_i2c_wake B cfg st) (\<lambda>(status, st'). layer_same st st' \<and>
    status \<in> {ATCA_SUCCESS, ATCA_WAKE_FAILED, ATCA_INVALID_SIZE, ATCA_RX_NO_RESPONSE, ATCA_RX_TIMEOUT})"
    (is "ends _ ?P")
  unfolding hal_i2c_wake_def
proof (rule ends_bind [OF pins_end [OF assms]], rule ends_bind [OF op_ends])
  fix st1 st2 :: "'a atca" assume "layer_same st st1" "layer_same st1 st2"
  then have 2: "layer_same st st2" by (rule layer_same_trans)
  have up: "bus_up cfg st2" using assms layer_same_up [OF 2] by simp
  show "ends (if_runs (hal_i2c_receive B cfg [0, 0, 0, 0] 4 st2) (\<lambda>(status, response, st).
      Some (Inr (if status = ATCA_SUCCESS \<and> response \<noteq> WAKE_RESPONSE then ATCA_WAKE_FAILED else status, st)))) ?P"
    by (rule ends_bind [OF receive_ends [OF up]]) (auto intro!: ends_return intro: layer_same_trans [OF 2] split: if_splits)
qed

lemma word_address_ends:
  assumes "bus_up cfg st"
  shows "ends (send_word_address B cfg word st) (\<lambda>(status, st'). bus_status status \<and> layer_same st st')"
    (is "ends _ ?P")
  unfolding send_word_address_def
proof (rule ends_bind [OF pins_end [OF assms]], rule ends_bind [OF address_ends], clarify, rule ends_if)
  fix st1 st2 :: "'a atca" and status assume "layer_same st st1" "bus_status status" "layer_same st1 st2"
  then have 2: "layer_same st st2" "bus_status status" by (blast intro: layer_same_trans)+
  then show "ends (Some (Inr (status, st2))) ?P" by (simp add: ends_return)
  show "ends (if_runs (i2c_val (i2c_send_byte B word) st2) (\<lambda>(status, st).
      if_runs (i2c_op (i2c_send_stop B) st) (\<lambda>st. Some (Inr (status, st))))) ?P"
    by (rule ends_bind [OF val_ends [where P = bus_status]], erule send_byte_status, clarify, rule ends_bind [OF op_ends])
      (auto intro!: ends_return intro: layer_same_trans [OF 2(1)] layer_same_trans)
qed

section \<open>Properties\<close>

text \<open>
  C19: A send is a write transaction on the bus: START, the address and the bytes of the
  command behind the word address 3, as far as they are acknowledged, and STOP. Without an
  acknowledge of the address a second, empty START and STOP follow. The call always returns
  and leaves the bus idle.
\<close>

theorem i2c_send_transaction:
  assumes "hal_ready cfg st" "txdata \<noteq> []" "0 \<le> n" "n < 255" "n < int (length txdata)"
  shows "\<exists>status st' es. hal_i2c_send (traced B) cfg txdata n st = Some (Inr (status, txdata[0 := 0x03], st')) \<and>
    st_wave st idle_lines es idle_lines st' \<and>
    write_wave (slave_address cfg) (take (nat n + 1) (txdata[0 := 0x03])) status es"
  by (rule hal_send_makes [OF assms])

definition example_layer :: "'h \<Rightarrow> 'h atca" where
  "example_layer h =
     \<lparr>i2c_st = \<lparr>i2cGpio = \<lparr>ps_DeviceId = 0, ps_BaseAddr = 0xFF0A0000, ps_IsReady = PS_COMPONENT_IS_READY,
          ps_Platform = XPLAT_ZYNQ_ULTRA_MP, ps_MaxPinNum = 174, ps_MaxBanks = 6\<rparr>,
        pin_sda = 0, pin_scl = 0, b_init = True, i2c_hw = h\<rparr>,
      i2c_hal_data = [Some \<lparr>master_sda = 29, master_scl = 28, master_ref_ct = 1, master_bus_index = 0\<rparr>],
      i2c_bus_ref_ct = 1, atca_heap = \<lparr>heap_outcomes = [], heap_live = 0\<rparr>\<rparr>"

definition example_cfg :: ATCAIfaceCfg where
  "example_cfg = \<lparr>iface_type = ATCA_I2C_IFACE, devtype = ATECC508A, slave_address = 0xC0, cfg_bus = 0,
      baud = 40000, wake_delay = 1500, rx_retries = 20\<rparr>"

lemma example_ready: "hal_ready example_cfg (example_layer h)" "bus_up example_cfg (example_layer h)"
  by (simp_all add: hal_ready_def bus_up_def example_cfg_def example_layer_def i2c_ready_def ps_ready_def)

theorem i2c_send_transaction_witness:
  "\<exists>status st' es. hal_i2c_send (traced \<lparr>in32 = (\<lambda>a h. (0, h)), out32 = (\<lambda>a v h. h)\<rparr>) example_cfg [0, 7, 2] 2
      (example_layer ((), [])) = Some (Inr (status, [3, 7, 2], st')) \<and>
    st_wave (example_layer ((), [])) idle_lines es idle_lines st' \<and> write_wave 0xC0 [3, 7, 2] status es"
  using i2c_send_transaction [OF example_ready(1), of "[0, 7, 2]" 2] by (simp add: example_cfg_def)



end
