(* ===== verification/AtcaFrame.thy ===== *)
theory AtcaFrame
  imports AtcaCommand
begin

text \<open>
  Facts about the packets of \<open>AtcaCommand\<close>: the CRC is the remainder of a polynomial
  division over GF(2), so one changed bit of a response is always found; every builder makes
  a well-formed frame; what builders without a size check do.
\<close>

section \<open>The CRC as a polynomial remainder\<close>

text \<open>
  Numbers as polynomials over GF(2): the multiples of \<open>x^16 + x^15 + x^2 + 1\<close>, and the
  message as the number of its bits, each byte from its lowest bit on.
\<close>

definition gen_mult :: "int \<Rightarrow> int" where
  "gen_mult q = push_bit 16 q XOR push_bit 15 q XOR push_bit 2 q XOR q"

definition message_bits :: "u8 list \<Rightarrow> bool list" where
  "message_bits bs = concat (map (\<lambda>b. map (bit b) [0..<8]) bs)"

definition message_num :: "bool list \<Rightarrow> int" where
  "message_num = foldl (\<lambda>a b. push_bit 1 a XOR of_bool b) 0"

definition is_remainder :: "int \<Rightarrow> u16 \<Rightarrow> bool" where
  "is_remainder m r \<longleftrightarrow> (\<exists>q \<ge> 0. push_bit 16 m = gen_mult q XOR uint r)"

lemma message_num_snoc: "message_num (bs @ [b]) = push_bit 1 (message_num bs) XOR of_bool b"
  by (simp add: message_num_def)

lemma crc_byte_bits: "crc_byte 1 d r = fold (\<lambda>i. crc_step (bit d i)) [0..<8] r"
proof -
  have step: "crc_byte (2 ^ k) d r = crc_byte (2 ^ Suc k) d (crc_step (bit d k) r)" if "k < 8" for k r
  proof -
    have "push_bit 1 ((2 :: u8) ^ k) = 2 ^ Suc k" by (simp add: push_bit_eq_mult)
    moreover have "(2 :: u8) ^ k \<noteq> 0" using that by (simp add: exp_eq_zero_iff)
    ultimately show ?thesis by (subst crc_byte.simps) (simp only: and_exp_iff_bit if_False)
  qed
  have "crc_byte (2 ^ k) d r = fold (\<lambda>i. crc_step (bit d i)) [k..<8] r" if "k \<le> 8" for k r
    using that
  proof (induction "8 - k" arbitrary: k r)
    case 0
    then have k: "k = 8" by simp
    have "(2 :: u8) ^ 8 = 0" by simp
    then show ?case unfolding k by (subst crc_byte.simps) simp
  next
    case (Suc n)
    then have "k < 8" by simp
    have "crc_byte (2 ^ Suc k) d (crc_step (bit d k) r) = fold (\<lambda>i. crc_step (bit d i)) [Suc k..<8] (crc_step (bit d k) r)"
      by (rule Suc.hyps(1)) (use Suc in auto)
    then show ?case unfolding step [OF \<open>k < 8\<close>] using \<open>k < 8\<close> by (simp add: upt_conv_Cons)
  qed
  from this [of 0] show ?thesis by simp
qed

lemma crc_bytes_bits: "crc_bytes bs r = fold crc_step (message_bits bs) r"
  by (induction bs arbitrary: r)
    (simp_all add: crc_bytes_def message_bits_def crc_byte_bits fold_map comp_def)

text \<open>Cancelling.\<close>

lemma xor_cancel:
  "x XOR (x XOR y) = (y :: int)" "(x XOR z) XOR (y XOR z XOR u) = x XOR y XOR u" "(x XOR z) XOR (y XOR z) = x XOR y"
proof -
  show c: "x XOR (x XOR y) = y" for x y :: int
    by (simp only: xor.assoc [symmetric] xor_self_eq xor.left_neutral)
  have swap: "(x XOR z) XOR (y XOR z XOR u) = x XOR y XOR (z XOR (z XOR u))" for u
    by (simp only: xor.left_commute xor.commute xor.assoc)
  show "(x XOR z) XOR (y XOR z XOR u) = x XOR y XOR u" unfolding swap c ..
  from swap [of 0] show "(x XOR z) XOR (y XOR z) = x XOR y"
    by (simp only: xor.right_neutral xor_self_eq)
qed

lemma xor_swap:
  assumes "x XOR y = z XOR (u :: int)"
  shows "x XOR z = y XOR u"
proof (rule bit_eqI)
  fix n
  have "bit (x XOR y) n = bit (z XOR u) n" by (simp only: assms)
  then show "bit (x XOR z) n = bit (y XOR u) n" unfolding bit_xor_iff by blast
qed

text \<open>One step of the register keeps the remainder.\<close>

lemma gen_mult_xor: "gen_mult (a XOR b) = gen_mult a XOR gen_mult b"
  by (simp only: gen_mult_def push_bit_xor ac_simps)

lemma gen_mult_step: "gen_mult (push_bit 1 q XOR of_bool c) = push_bit 1 (gen_mult q) XOR (if c then 0x18005 else 0)"
proof -
  have "gen_mult (push_bit 1 q) = push_bit 1 (gen_mult q)"
    unfolding gen_mult_def push_bit_xor push_bit_push_bit by (simp only: add.commute)
  moreover have "gen_mult (of_bool c) = (if c then 0x18005 else 0)"
    by (cases c) (simp_all add: gen_mult_def)
  ultimately show ?thesis by (simp only: gen_mult_xor)
qed

lemma polynom_bits:
  "bit (0x18005 :: int) n \<longleftrightarrow> n = 0 \<or> n = 2 \<or> n = 15 \<or> n = 16"
  "bit (0x8005 :: u16) n \<longleftrightarrow> n = 0 \<or> n = 2 \<or> n = 15"
proof -
  have e: "(0x18005 :: int) = push_bit 16 1 XOR push_bit 15 1 XOR push_bit 2 1 XOR 1"
    "(0x8005 :: u16) = push_bit 15 1 XOR push_bit 2 1 XOR 1" by simp_all
  show "bit (0x18005 :: int) n \<longleftrightarrow> n = 0 \<or> n = 2 \<or> n = 15 \<or> n = 16"
    unfolding e(1) bit_xor_iff bit_push_bit_iff bit_1_iff by auto
  show "bit (0x8005 :: u16) n \<longleftrightarrow> n = 0 \<or> n = 2 \<or> n = 15"
    unfolding e(2) bit_xor_iff bit_push_bit_iff bit_1_iff by (auto simp: exp_eq_zero_iff)
qed

lemma crc_step_uint:
  "uint (crc_step b r) =
     push_bit 1 (uint r) XOR (if b \<noteq> bit r 15 then 0x18005 else 0) XOR push_bit 16 (of_bool b)"
proof (rule bit_eqI)
  fix n
  have top: "drop_bit 15 r \<noteq> 0 \<longleftrightarrow> bit r 15"
  proof
    assume "drop_bit 15 r \<noteq> 0"
    then obtain k where "bit (drop_bit 15 r) k" by (auto simp: bit_eq_iff)
    then have "bit r (15 + k)" by (simp add: bit_drop_bit_eq)
    then show "bit r 15" using bit_imp_le_length [of r "15 + k"] by (cases k) auto
  next
    assume "bit r 15"
    then have "bit (drop_bit 15 r) 0" by (simp only: bit_drop_bit_eq comp_def add_0_right)
    then show "drop_bit 15 r \<noteq> 0" by auto
  qed
  let ?c = "b \<noteq> bit r 15"
  have step: "crc_step b r = push_bit 1 r XOR (if ?c then 0x8005 else 0)"
    unfolding crc_step_def Let_def top by simp
  have l: "bit (uint (crc_step b r)) n \<longleftrightarrow> n < 16 \<and> ((1 \<le> n \<and> bit r (n - 1)) \<noteq> (?c \<and> bit (0x8005 :: u16) n))"
  proof -
    have "bit (push_bit 1 r) n \<longleftrightarrow> n < 16 \<and> 1 \<le> n \<and> bit r (n - 1)"
      unfolding bit_push_bit_iff by (auto simp: exp_eq_zero_iff)
    then show ?thesis unfolding step bit_uint_iff bit_xor_iff by (cases ?c) auto
  qed
  have r: "bit (push_bit 1 (uint r) XOR (if ?c then 0x18005 else 0) XOR push_bit 16 (of_bool b)) n \<longleftrightarrow>
      ((1 \<le> n \<and> n - 1 < 16 \<and> bit r (n - 1)) \<noteq> ((?c \<and> bit (0x18005 :: int) n) \<noteq> (n = 16 \<and> b)))"
  proof -
    have "bit (push_bit 16 (of_bool b :: int)) n \<longleftrightarrow> n = 16 \<and> b"
      unfolding bit_push_bit_iff by (cases b) (auto simp: bit_1_iff)
    moreover have "bit (push_bit 1 (uint r)) n \<longleftrightarrow> 1 \<le> n \<and> n - 1 < 16 \<and> bit r (n - 1)"
      unfolding bit_push_bit_iff bit_uint_iff by auto
    ultimately show ?thesis unfolding bit_xor_iff by (cases ?c) auto
  qed
  show "bit (uint (crc_step b r)) n = bit (push_bit 1 (uint r) XOR (if ?c then 0x18005 else 0) XOR push_bit 16 (of_bool b)) n"
    unfolding l r polynom_bits by (cases "n < 16"; cases "n = 16") auto
qed

lemma remainder_step:
  assumes "is_remainder m r"
  shows "is_remainder (push_bit 1 m XOR of_bool b) (crc_step b r)"
proof -
  obtain q where q: "0 \<le> q" "push_bit 16 m = gen_mult q XOR uint r"
    using assms by (auto simp: is_remainder_def)
  let ?c = "b \<noteq> bit r 15"
  have "push_bit 16 (push_bit 1 m) = push_bit 1 (push_bit 16 m)"
    by (simp only: push_bit_push_bit add.commute)
  then have "push_bit 16 (push_bit 1 m XOR of_bool b) =
      push_bit 1 (gen_mult q) XOR push_bit 1 (uint r) XOR push_bit 16 (of_bool b)"
    by (simp only: push_bit_xor q(2) xor.assoc)
  also have "\<dots> = gen_mult (push_bit 1 q XOR of_bool ?c) XOR uint (crc_step b r)"
    unfolding gen_mult_step crc_step_uint by (rule xor_cancel(2) [symmetric])
  finally have "push_bit 16 (push_bit 1 m XOR of_bool b) =
      gen_mult (push_bit 1 q XOR of_bool ?c) XOR uint (crc_step b r)" .
  moreover have "0 \<le> push_bit 1 q XOR of_bool ?c" using q(1) by simp
  ultimately show ?thesis unfolding is_remainder_def by blast
qed

lemma crc_remainder_bits: "is_remainder (message_num bs) (fold crc_step bs 0)"
proof (induction bs rule: rev_induct)
  case Nil
  have "push_bit 16 (message_num []) = gen_mult 0 XOR uint (0 :: u16)"
    by (simp add: message_num_def gen_mult_def)
  then show ?case unfolding is_remainder_def by (intro exI [of _ 0]) simp
next
  case (snoc b bs)
  then show ?case unfolding message_num_snoc fold_append comp_def fold.simps id_def by (rule remainder_step)
qed

lemma crc_bytes_remainder: "is_remainder (message_num (message_bits bs)) (crc_bytes bs 0)"
  unfolding crc_bytes_bits by (rule crc_remainder_bits)

text \<open>A multiple has a highest bit 16 places above that of its factor, and the lowest bit of
  its factor.\<close>

lemma gen_mult_bit:
  "bit (gen_mult q) n \<longleftrightarrow>
     (((16 \<le> n \<and> bit q (n - 16)) \<noteq> (15 \<le> n \<and> bit q (n - 15))) \<noteq> (2 \<le> n \<and> bit q (n - 2))) \<noteq> bit q n"
  by (simp only: gen_mult_def bit_xor_iff bit_push_bit_iff) auto

lemma gen_mult_ends:
  assumes "0 < q"
  shows "\<exists>l h. l \<le> h \<and> bit (gen_mult q) l \<and> bit (gen_mult q) (h + 16)"
proof -
  define N where "N = nat q"
  have "q < 2 ^ N"
  proof -
    have "nat q < 2 ^ nat q" by (rule less_exp)
    then show ?thesis using assms unfolding N_def by (metis nat_less_numeral_power_cancel_iff)
  qed
  then have t: "take_bit N q = q" using assms by (simp add: take_bit_int_eq_self)
  have fin: "finite {n. bit q n}"
    by (rule finite_subset [of _ "{..<N}"]) (use t in \<open>auto simp: bit_take_bit_iff dest: arg_cong [of _ _ "\<lambda>x. bit x _"]\<close>)
  have ne: "{n. bit q n} \<noteq> {}" using assms by (metis bit_eqI bit_0_eq bot_apply empty_Collect_eq less_irrefl bot_bool_def)
  define h l where "h = Max {n. bit q n}" and "l = Min {n. bit q n}"
  have h: "bit q h" "\<And>n. bit q n \<Longrightarrow> n \<le> h" unfolding h_def using Max_in [OF fin ne] Max_ge [OF fin] by auto
  have l: "bit q l" "\<And>n. bit q n \<Longrightarrow> l \<le> n" unfolding l_def using Min_in [OF fin ne] Min_le [OF fin] by auto
  have lo: "\<not> bit q n" if "n < l" for n using l(2) [of n] that by auto
  have hi: "\<not> bit q n" if "h < n" for n using h(2) [of n] that by auto
  have "bit (gen_mult q) l"
    unfolding gen_mult_bit using l(1) lo [of "l - 16"] lo [of "l - 15"] lo [of "l - 2"] by auto
  moreover have "bit (gen_mult q) (h + 16)"
    unfolding gen_mult_bit using h(1) hi [of "h + 16"] hi [of "h + 16 - 15"] hi [of "h + 16 - 2"] by auto
  moreover have "l \<le> h" by (rule l(2) [OF h(1)])
  ultimately show ?thesis by blast
qed

text \<open>Two messages with the same remainder differ by a multiple.\<close>

lemma same_remainder:
  assumes "is_remainder m r" "is_remainder m' r"
  shows "\<exists>q \<ge> 0. push_bit 16 (m XOR m') = gen_mult q"
proof -
  obtain q q' where q: "0 \<le> q" "push_bit 16 m = gen_mult q XOR uint r"
    "0 \<le> q'" "push_bit 16 m' = gen_mult q' XOR uint r"
    using assms by (auto simp: is_remainder_def)
  have "push_bit 16 (m XOR m') = gen_mult (q XOR q')"
    unfolding push_bit_xor q(2,4) gen_mult_xor by (rule xor_cancel(3))
  moreover have "0 \<le> q XOR q'" using q by simp
  ultimately show ?thesis by blast
qed

lemma remainder_unique:
  assumes "is_remainder m r" "is_remainder m r'"
  shows "r = r'"
proof -
  obtain q q' where q: "0 \<le> q" "push_bit 16 m = gen_mult q XOR uint r"
    "0 \<le> q'" "push_bit 16 m = gen_mult q' XOR uint r'"
    using assms by (auto simp: is_remainder_def)
  have e: "gen_mult (q XOR q') = uint r XOR uint r'"
    unfolding gen_mult_xor by (rule xor_swap) (use q(2,4) in simp)
  have "q XOR q' = 0"
  proof (rule ccontr)
    assume "q XOR q' \<noteq> 0"
    moreover have "0 \<le> q XOR q'" using q(1,3) by simp
    ultimately have "0 < q XOR q'" by (simp only: order_less_le not_sym simp_thms)
    then obtain h where "bit (gen_mult (q XOR q')) (h + 16)" using gen_mult_ends by blast
    then show False unfolding e bit_xor_iff bit_uint_iff by simp
  qed
  then have "uint r XOR uint r' = 0" using e by (simp add: gen_mult_def)
  then have "uint r' = uint r"
    using xor_cancel(1) [of "uint r" "uint r'"] by (simp only: xor.right_neutral)
  then show ?thesis by (simp only: word_uint_eq_iff)
qed

text \<open>So the remainder changes with every single bit.\<close>

lemma message_num_flip:
  "message_num (xs @ (\<not> b) # ys) = message_num (xs @ b # ys) XOR push_bit (length ys) 1"
proof (induction ys rule: rev_induct)
  case Nil
  have "of_bool (\<not> b) = of_bool b XOR (1 :: int)" by (cases b) simp_all
  then show ?case using message_num_snoc [of xs b] message_num_snoc [of xs "\<not> b"] by (simp only: xor.assoc list.size push_bit_0_id id_apply)
next
  case (snoc y ys)
  have "message_num ((xs @ (\<not> b) # ys) @ [y]) = push_bit 1 (message_num (xs @ b # ys) XOR push_bit (length ys) 1) XOR of_bool y"
    unfolding message_num_snoc snoc ..
  also have "\<dots> = push_bit 1 (message_num (xs @ b # ys)) XOR of_bool y XOR push_bit (Suc (length ys)) 1"
    by (simp only: push_bit_xor push_bit_push_bit ac_simps plus_1_eq_Suc)
  also have "\<dots> = message_num ((xs @ b # ys) @ [y]) XOR push_bit (Suc (length ys)) 1"
    unfolding message_num_snoc by (simp only: xor.assoc)
  finally show ?case by simp
qed

lemma flip_changes_remainder:
  assumes "is_remainder (message_num (xs @ b # ys)) r" "is_remainder (message_num (xs @ (\<not> b) # ys)) r'"
  shows "r \<noteq> r'"
proof
  assume "r = r'"
  with same_remainder [OF assms(1)] assms(2) obtain q where q: "0 \<le> q"
    "push_bit 16 (message_num (xs @ b # ys) XOR message_num (xs @ (\<not> b) # ys)) = gen_mult q" by blast
  have g: "gen_mult q = push_bit (16 + length ys) 1"
    using q(2) unfolding message_num_flip by (simp only: push_bit_push_bit xor_cancel(1))
  have "q \<noteq> 0"
  proof
    assume "q = 0"
    then have "bit (push_bit (16 + length ys) (1 :: int)) (16 + length ys) = bit (0 :: int) (16 + length ys)"
      using g by (simp add: gen_mult_def)
    then show False by (simp only: bit_push_bit_iff) simp
  qed
  then obtain l h where "l \<le> h" "bit (gen_mult q) l" "bit (gen_mult q) (h + 16)"
    using gen_mult_ends [of q] q(1) by auto
  then show False unfolding g bit_push_bit_iff by (auto simp: bit_1_iff)
qed

section \<open>Checking responses\<close>

lemma crc_le_inj: "crc_le r = crc_le r' \<Longrightarrow> r = r'"
proof -
  assume e: "crc_le r = crc_le r'"
  have lo: "(ucast (x AND 0x00FF) :: u8) = ucast x" for x :: u16
  proof -
    have "(0x00FF :: u16) = mask 8" by (simp add: mask_eq_exp_minus_1)
    then show ?thesis by (intro bit_word_eqI) (simp only: bit_ucast_iff bit_and_iff bit_mask_iff, simp)
  qed
  have "of_le16 (crc_le x) = x" for x :: u16
    using of_le16_le16 [of x] unfolding crc_le_def le16_def lo .
  then show ?thesis using e by metis
qed

lemma length_crc_le [simp]: "length (crc_le r) = 2"
  by (simp add: crc_le_def)

text \<open>The check of a buffer that holds the whole response.\<close>

definition response_len :: "u8 list \<Rightarrow> nat" where
  "response_len bs = unat (hd bs)"

lemma atCheckCrc_eq:
  assumes "bs \<noteq> []" "2 \<le> response_len bs" "response_len bs \<le> length bs"
  defines "n \<equiv> response_len bs - 2"
  shows "atCheckCrc bs =
    Inr (if [bs ! n, bs ! (n + 1)] = crc_le (crc_bytes (take n bs) 0) then ATCA_SUCCESS else ATCA_RX_CRC_ERROR)"
proof -
  have c: "unat (hd bs - ATCA_CRC_SIZE) = n"
  proof -
    have "(2 :: u8) \<le> hd bs" using assms(2) by (simp add: response_len_def word_le_nat_alt)
    from unat_sub [OF this] show ?thesis by (simp add: n_def response_len_def ATCA_CRC_SIZE_def)
  qed
  obtain r rs where bs: "bs = r # rs" using assms(1) by (cases bs) auto
  have h: "unat (r - ATCA_CRC_SIZE) = n" using c bs by simp
  have "n \<le> length bs" "n + 1 < length bs" using assms by (simp_all add: n_def)
  then show ?thesis
    using h unfolding bs by (auto simp: atCheckCrc_def atCRC_def Let_def crc_le_def)
qed

definition flip_bit_at :: "nat \<Rightarrow> nat \<Rightarrow> u8 list \<Rightarrow> u8 list" where
  "flip_bit_at i k bs = bs[i := (bs ! i) XOR 2 ^ k]"

lemma flip_byte: "k < 8 \<Longrightarrow> bit ((b :: u8) XOR 2 ^ k) j \<longleftrightarrow> (if j = k then \<not> bit b k else bit b j)"
  by (auto simp: bit_xor_iff bit_exp_iff exp_eq_zero_iff)

lemma message_bits_flip:
  assumes "i < length bs" "k < 8"
  shows "\<exists>xs b ys. message_bits bs = xs @ b # ys \<and> message_bits (flip_bit_at i k bs) = xs @ (\<not> b) # ys"
proof -
  let ?b = "bs ! i"
  have bits: "map (bit c) [0..<8] = map (bit c) [0..<k] @ bit c k # map (bit c) [Suc k..<8]" for c :: u8
  proof -
    have "[0..<8] = [0..<k] @ k # [Suc k..<8]"
      using assms(2) upt_add_eq_append [of 0 k "8 - k"] by (simp add: upt_conv_Cons)
    then show ?thesis by simp
  qed
  have l: "map (bit (?b XOR 2 ^ k)) [0..<k] = map (bit ?b) [0..<k]"
    and h: "map (bit (?b XOR 2 ^ k)) [Suc k..<8] = map (bit ?b) [Suc k..<8]"
    by (simp_all add: flip_byte [OF assms(2)])
  have m: "message_bits (xs @ c # ys) = message_bits xs @ map (bit c) [0..<8] @ message_bits ys" for xs c ys
    unfolding message_bits_def by simp
  have e: "bs = take i bs @ ?b # drop (Suc i) bs" using assms(1) by (rule id_take_nth_drop)
  have f: "flip_bit_at i k bs = take i bs @ (?b XOR 2 ^ k) # drop (Suc i) bs"
    unfolding flip_bit_at_def using assms(1) by (rule upd_conv_take_nth_drop)
  have n: "bit (?b XOR 2 ^ k) k \<longleftrightarrow> \<not> bit ?b k" by (simp add: flip_byte [OF assms(2)])
  show ?thesis
  proof (intro exI conjI)
    show "message_bits bs = (message_bits (take i bs) @ map (bit ?b) [0..<k]) @ bit ?b k #
        (map (bit ?b) [Suc k..<8] @ message_bits (drop (Suc i) bs))"
      by (subst e) (simp only: m bits append.assoc append_Cons)
    show "message_bits (flip_bit_at i k bs) = (message_bits (take i bs) @ map (bit ?b) [0..<k]) @ (\<not> bit ?b k) #
        (map (bit ?b) [Suc k..<8] @ message_bits (drop (Suc i) bs))"
      unfolding f by (simp only: m bits append.assoc append_Cons l h n)
  qed
qed

lemma crc_flip:
  assumes "i < length bs" "k < 8"
  shows "crc_bytes (flip_bit_at i k bs) 0 \<noteq> crc_bytes bs 0"
proof -
  obtain xs b ys where m: "message_bits bs = xs @ b # ys" "message_bits (flip_bit_at i k bs) = xs @ (\<not> b) # ys"
    using message_bits_flip [OF assms] by blast
  have "is_remainder (message_num (xs @ b # ys)) (crc_bytes bs 0)"
    "is_remainder (message_num (xs @ (\<not> b) # ys)) (crc_bytes (flip_bit_at i k bs) 0)"
    using crc_bytes_remainder [of bs] crc_bytes_remainder [of "flip_bit_at i k bs"] unfolding m .
  from flip_changes_remainder [OF this] show ?thesis by simp
qed

lemma single_error_found:
  assumes "atCheckCrc bs = Inr ATCA_SUCCESS" "2 \<le> response_len bs" "response_len bs \<le> length bs"
    and "1 \<le> i" "i < response_len bs" "k < 8"
  shows "atCheckCrc (flip_bit_at i k bs) = Inr ATCA_RX_CRC_ERROR"
proof -
  let ?fs = "flip_bit_at i k bs"
  define n where "n = response_len bs - 2"
  have ne: "bs \<noteq> []" "?fs \<noteq> []" using assms(3,5) by (auto simp: flip_bit_at_def)
  have len: "length ?fs = length bs" by (simp add: flip_bit_at_def)
  have hd: "response_len ?fs = response_len bs"
    using assms(4) ne by (cases bs; cases i) (auto simp: response_len_def flip_bit_at_def)
  have ok: "[bs ! n, bs ! (n + 1)] = crc_le (crc_bytes (take n bs) 0)"
    using assms(1) unfolding atCheckCrc_eq [OF ne(1) assms(2,3)] n_def by (simp split: if_splits)
  have chg: "bs ! i \<noteq> ?fs ! i"
  proof
    assume "bs ! i = ?fs ! i"
    then have "bit (bs ! i) k = bit (bs ! i XOR 2 ^ k) k" using assms(3,5) by (simp add: flip_bit_at_def)
    then show False by (simp add: flip_byte [OF assms(6)])
  qed
  have "[?fs ! n, ?fs ! (n + 1)] \<noteq> crc_le (crc_bytes (take n ?fs) 0)"
  proof (cases "i < n")
    case True
    have t: "take n ?fs = flip_bit_at i k (take n bs)" using True by (simp add: flip_bit_at_def take_update_swap)
    have "[?fs ! n, ?fs ! (n + 1)] = [bs ! n, bs ! (n + 1)]" using True by (simp add: flip_bit_at_def)
    moreover have "crc_bytes (take n ?fs) 0 \<noteq> crc_bytes (take n bs) 0"
      unfolding t by (rule crc_flip) (use True assms n_def in auto)
    ultimately show ?thesis using ok crc_le_inj by metis
  next
    case False
    then have i: "i = n \<or> i = n + 1" using assms(5) unfolding n_def by auto
    have "take n ?fs = take n bs" using False by (simp add: flip_bit_at_def)
    then show ?thesis using ok i chg by (metis list.inject)
  qed
  then show ?thesis
    using atCheckCrc_eq [OF ne(2)] assms(2,3) unfolding hd len n_def by simp
qed

section \<open>What the builders make\<close>

text \<open>
  A well-formed frame: its size byte counts at least the header and the CRC and at most the
  packet, and the check of a receiver accepts it.
\<close>

definition good_frame :: "ATCAPacket \<Rightarrow> bool" where
  "good_frame p \<longleftrightarrow> wf_packet p \<and> 7 \<le> unat (txsize p) \<and> unat (txsize p) \<le> 135 \<and>
     atCheckCrc (packet_frame p) = Inr ATCA_SUCCESS"

lemma length_packet_frame: "wf_packet p \<Longrightarrow> length (packet_frame p) = 135"
  by (simp add: wf_packet_def packet_frame_def PACKET_DATA_SIZE_def)

lemma packet_frame_with_frame: "length f = 135 \<Longrightarrow> packet_frame (with_frame f p) = f"
proof -
  assume l: "length f = 135"
  then obtain a b c d e rest where f: "f = a # b # c # d # e # rest"
    by (auto simp: numeral_eq_Suc length_Suc_conv)
  show ?thesis unfolding f packet_frame_def with_frame_def by (simp del: of_le16.simps)
qed

text \<open>What the CRC leaves alone: everything before it and all that is not in the frame.\<close>

definition same_command :: "ATCAPacket \<Rightarrow> ATCAPacket \<Rightarrow> bool" where
  "same_command p p' \<longleftrightarrow> txsize p' = txsize p \<and> opcode p' = opcode p \<and> param1 p' = param1 p \<and>
     param2 p' = param2 p \<and> rxsize p' = rxsize p \<and>
     take (unat (txsize p) - 7) (pkt_data p') = take (unat (txsize p) - 7) (pkt_data p)"

lemma crc_framed:
  assumes "wf_packet p" "7 \<le> unat (txsize p)" "unat (txsize p) \<le> 135"
  shows "\<exists>p'. atCalcCrc p = Inr p' \<and> good_frame p' \<and> same_command p p'"
proof -
  define n f where "n = unat (txsize p) - 2" and "f = packet_frame p"
  define p' where "p' = with_frame (memcpy_at n (crc_le (crc_bytes (take n f) 0)) f) p"
  let ?f = "memcpy_at n (crc_le (crc_bytes (take n f) 0)) f"
  have lf: "length f = 135" unfolding f_def by (rule length_packet_frame [OF assms(1)])
  have n: "5 \<le> n" "n + 2 \<le> 135" "unat (txsize p) = n + 2" using assms by (simp_all add: n_def)
  have c: "unat (txsize p - ATCA_CRC_SIZE) = n"
  proof -
    have "(2 :: u8) \<le> txsize p" using assms(2) by (simp add: word_le_nat_alt)
    from unat_sub [OF this] show ?thesis by (simp add: n_def ATCA_CRC_SIZE_def)
  qed
  have calc: "atCalcCrc p = Inr p'"
    using n lf by (simp add: atCalcCrc_def atCRC_def Let_def c p'_def flip: f_def)
  have l': "length ?f = 135" using lf n by simp
  have pf: "packet_frame p' = ?f" unfolding p'_def by (rule packet_frame_with_frame [OF l'])
  have t: "take n ?f = take n f" using n lf by (simp add: memcpy_at_def)
  have n5: "take 5 ?f = take 5 f" using t n(1) by (metis min.absorb1 take_take)
  obtain a0 a1 a2 a3 a4 rest where f: "f = [a0, a1, a2, a3, a4] @ rest"
    "a0 = txsize p" "a1 = opcode p" "a2 = param1 p" "[a3, a4] = le16 (param2 p)" "rest = pkt_data p"
    unfolding f_def packet_frame_def le16_def by simp
  then have t5: "take 5 ?f = [a0, a1, a2, a3, a4]" using n5 by simp
  have h: "?f ! 0 = a0" "?f ! 1 = a1" "?f ! 2 = a2" "?f ! 3 = a3" "?f ! 4 = a4"
    using nth_take [of 0 5 ?f] nth_take [of 1 5 ?f] nth_take [of 2 5 ?f] nth_take [of 3 5 ?f] nth_take [of 4 5 ?f]
    unfolding t5 by simp_all
  have p2: "of_le16 [a3, a4] = param2 p" unfolding f(5) by (rule of_le16_le16)
  have d: "take (n - 5) (drop 5 ?f) = take (n - 5) (pkt_data p)"
  proof -
    have "drop 5 (take n ?f) = drop 5 (take n f)" unfolding t ..
    then show ?thesis using f(1,6) by (simp add: drop_take)
  qed
  have same: "same_command p p'"
    unfolding same_command_def p'_def with_frame_def n(3)
    using h p2 f(2-4) d n(1) by (simp del: of_le16.simps)
  have rl: "response_len ?f = n + 2"
    using h(1) f(2) n(3) l' by (cases ?f) (auto simp: response_len_def)
  have "atCheckCrc ?f = Inr ATCA_SUCCESS"
  proof -
    have "[?f ! n, ?f ! (n + 1)] = crc_le (crc_bytes (take n f) 0)"
      using lf n by (simp add: memcpy_at_def nth_append crc_le_def)
    then show ?thesis using atCheckCrc_eq [of ?f] rl l' t n by (cases "?f = []") simp_all
  qed
  moreover have "wf_packet p'" using l' unfolding wf_packet_def p'_def with_frame_def PACKET_DATA_SIZE_def by simp
  ultimately have "good_frame p'"
    using same assms(2,3) unfolding good_frame_def pf same_command_def by simp
  then show ?thesis using calc same by blast
qed

lemma with_crc_framed:
  assumes "wf_packet p" "7 \<le> unat (txsize p)" "unat (txsize p) \<le> 135"
  shows "\<exists>p'. with_crc p = Inr (ATCA_SUCCESS, p') \<and> good_frame p' \<and> same_command p p'"
  using crc_framed [OF assms] by (auto simp: with_crc_def)

text \<open>
  \<open>framed b p\<close>: building succeeds with a good frame that carries the parameters, or it is
  refused as a bad parameter.
\<close>

definition framed :: "built \<Rightarrow> ATCAPacket \<Rightarrow> bool" where
  "framed b p \<longleftrightarrow>
     (\<exists>p'. b = Inr (ATCA_SUCCESS, p') \<and> good_frame p' \<and> param1 p' = param1 p \<and> param2 p' = param2 p \<and>
        take (unat (txsize p') - 7) (pkt_data p') = take (unat (txsize p') - 7) (pkt_data p)) \<or>
     (\<exists>p'. b = Inr (ATCA_BAD_PARAM, p'))"

lemma framed_with_crc:
  assumes "wf_packet p" "param1 p' = param1 p" "param2 p' = param2 p" "pkt_data p' = pkt_data p"
    and "7 \<le> unat (txsize p')" "unat (txsize p') \<le> 135"
  shows "framed (with_crc p') p"
proof -
  have "wf_packet p'" using assms(1,4) by (simp add: wf_packet_def)
  then obtain q where "with_crc p' = Inr (ATCA_SUCCESS, q)" "good_frame q" "same_command p' q"
    using with_crc_framed assms(5,6) by blast
  then show ?thesis using assms(2-4) by (auto simp: framed_def same_command_def)
qed

text \<open>The builders whose sizes the mode fixes, on all their flags.\<close>

definition sized_builders :: "(ATCACommand \<Rightarrow> ATCAPacket \<Rightarrow> built) list" where
  "sized_builders =
     [atCheckMAC, atCounter, \<lambda>c p. atDeriveKey c p True, \<lambda>c p. atDeriveKey c p False, atECDH,
      \<lambda>c p. atGenDig c p True, \<lambda>c p. atGenDig c p False, atGenKey, atHMAC, atInfo, atLock, atMAC,
      atNonce, atPause, atPrivWrite, atRandom, atRead, atSecureBoot, atSign, atUpdateExtra, atVerify,
      \<lambda>c p. atWrite c p True, \<lambda>c p. atWrite c p False, atAES, atSelfTest]"

lemma builders_framed:
  assumes "wf_packet p" "b \<in> set sized_builders"
  shows "framed (b c p) p"
proof -
  have bad: "framed (Inr (ATCA_BAD_PARAM, q)) p" for q by (auto simp: framed_def)
  have "framed (atCheckMAC c p) p" "framed (atCounter c p) p" "framed (atDeriveKey c p x) p"
    "framed (atECDH c p) p" "framed (atGenDig c p x) p" "framed (atGenKey c p) p" "framed (atHMAC c p) p"
    "framed (atInfo c p) p" "framed (atLock c p) p" "framed (atMAC c p) p" "framed (atPause c p) p"
    "framed (atPrivWrite c p) p" "framed (atRandom c p) p" "framed (atRead c p) p" "framed (atSign c p) p"
    "framed (atUpdateExtra c p) p" "framed (atWrite c p x) p" "framed (atAES c p) p" "framed (atSelfTest c p) p" for x
    unfolding atCheckMAC_def atCounter_def atDeriveKey_def atECDH_def atGenDig_def atGenKey_def atHMAC_def
      atInfo_def atLock_def atMAC_def atPause_def atPrivWrite_def atRandom_def atRead_def atSign_def
      atUpdateExtra_def atWrite_def atAES_def atSelfTest_def Let_def
    by ((rule framed_with_crc [OF assms(1)]; simp add: command_consts)+)
  moreover have "framed (atNonce c p) p" "framed (atSecureBoot c p) p" "framed (atVerify c p) p"
    unfolding atNonce_def atSecureBoot_def atVerify_def Let_def if_split [where P = "\<lambda>b. framed b p"]
    by (intro conjI impI bad framed_with_crc [OF assms(1)]; simp add: command_consts)+
  ultimately show ?thesis using assms(2) unfolding sized_builders_def by auto
qed

text \<open>The CRC leaves the packet exactly when the size byte counts too many bytes.\<close>

lemma calc_crc_overrun:
  assumes "wf_packet p" "135 < unat (txsize p - ATCA_CRC_SIZE) + 2"
  shows "atCalcCrc p = Inl OutOfBounds"
  using assms by (auto simp: atCalcCrc_def atCRC_def Let_def length_packet_frame)

lemma size_byte:
  assumes "n \<le> 248"
  shows "unat (ucast (ucast ATCA_CMD_SIZE_MIN + (of_nat n :: u16)) :: u8) = n + 7"
    and "unat (ucast (ucast ATCA_CMD_SIZE_MIN + (of_nat n :: u16)) - ATCA_CRC_SIZE) = n + 5"
proof -
  have u: "unat (ucast ATCA_CMD_SIZE_MIN + (of_nat n :: u16)) = n + 7"
  proof -
    have "unat (ucast ATCA_CMD_SIZE_MIN :: u16) = 7" by (simp add: ATCA_CMD_SIZE_MIN_def)
    moreover have "unat (of_nat n :: u16) = n" using assms by (simp add: unat_of_nat)
    ultimately show ?thesis using unat_add_lem [of "ucast ATCA_CMD_SIZE_MIN :: u16" "of_nat n"] assms by simp
  qed
  then show s: "unat (ucast (ucast ATCA_CMD_SIZE_MIN + (of_nat n :: u16)) :: u8) = n + 7"
    using assms by (simp add: unsigned_ucast_eq take_bit_nat_eq_self)
  then have "(2 :: u8) \<le> ucast (ucast ATCA_CMD_SIZE_MIN + (of_nat n :: u16))" by (simp add: word_le_nat_alt)
  from unat_sub [OF this] s show "unat (ucast (ucast ATCA_CMD_SIZE_MIN + (of_nat n :: u16)) - ATCA_CRC_SIZE) = n + 5"
    by (simp add: ATCA_CRC_SIZE_def)
qed

lemma sha_message_size:
  assumes "wf_packet p" "param1 p AND SHA_MODE_MASK \<in> {SHA_MODE_SHA256_UPDATE, SHA_MODE_SHA256_END, SHA_MODE_HMAC_END}"
    and "n = unat (param2 p)" "n \<le> 248"
  shows "if n \<le> 128 then framed (atSHA (Some c) p ctx) p else atSHA (Some c) p ctx = Inl OutOfBounds"
proof -
  have p2: "param2 p = of_nat n" using assms(3) by simp
  note size = size_byte [OF assms(4), folded p2]
  have mode: "param1 p AND SHA_MODE_MASK \<noteq> SHA_MODE_SHA256_START" "param1 p AND SHA_MODE_MASK \<noteq> SHA_MODE_HMAC_START"
    "param1 p AND SHA_MODE_MASK \<noteq> SHA_MODE_SHA256_PUBLIC"
    using assms(2) by (auto simp: command_consts)
  have "\<exists>m. atSHA (Some c) p ctx =
      with_crc (p\<lparr>opcode := ATCA_SHA, rxsize := m, txsize := ucast (ucast ATCA_CMD_SIZE_MIN + param2 p)\<rparr>)"
    using assms(2) mode unfolding atSHA_def Let_def by (cases "param1 p AND SHA_MODE_MASK = SHA_MODE_SHA256_UPDATE") auto
  then obtain m where sha: "atSHA (Some c) p ctx =
      with_crc (p\<lparr>opcode := ATCA_SHA, rxsize := m, txsize := ucast (ucast ATCA_CMD_SIZE_MIN + param2 p)\<rparr>)" ..
  show ?thesis
  proof (cases "n \<le> 128")
    case True
    then show ?thesis unfolding sha by (auto intro!: framed_with_crc [OF assms(1)] simp: size)
  next
    case False
    have "atCalcCrc (p\<lparr>opcode := ATCA_SHA, rxsize := m, txsize := ucast (ucast ATCA_CMD_SIZE_MIN + param2 p)\<rparr>) =
        Inl OutOfBounds"
      by (rule calc_crc_overrun) (use assms(1) False size in \<open>simp_all add: wf_packet_def\<close>)
    then show ?thesis using False unfolding sha with_crc_def by simp
  qed
qed

section \<open>Properties\<close>



text \<open>
  C16: The register after \<open>atCRC\<close> has run over a message is the remainder of the message,
  read as a polynomial over the bits with 16 zeros appended, by the generator 0x18005, and the
  only one: the shift register computes the division.
\<close>

theorem crc_divides: "is_remainder (message_num (message_bits bs)) r \<longleftrightarrow> r = crc_bytes bs 0"
  using crc_bytes_remainder remainder_unique by blast

text \<open>
  C18: A frame with a right CRC of which one bit is changed, anywhere after the count byte, is
  found: \<open>atCheckCrc\<close> answers with the CRC error.
\<close>

theorem single_bit_error_found:
  assumes "atCheckCrc bs = Inr ATCA_SUCCESS" "2 \<le> response_len bs" "response_len bs \<le> length bs"
    and "1 \<le> i" "i < response_len bs" "k < 8"
  shows "atCheckCrc (flip_bit_at i k bs) = Inr ATCA_RX_CRC_ERROR"
  by (rule single_error_found [OF assms])

theorem single_bit_error_found_witness:
  "atCheckCrc [4, 0, 3, 0x40] = Inr ATCA_SUCCESS \<and>
   atCheckCrc (flip_bit_at 1 5 [4, 0, 3, 0x40]) = Inr ATCA_RX_CRC_ERROR"
proof -
  have 1: "atCheckCrc [4, 0, 3, 0x40] = Inr ATCA_SUCCESS" by code_simp
  have 2: "response_len [4, 0, 3, 0x40] = 4" by (simp add: response_len_def)
  show ?thesis using single_bit_error_found [OF 1, of 1 5] 1 by (simp add: 2)
qed

text \<open>
  The data of a SHA command are copied by the length in its second parameter: up to 128
  bytes a frame is built, from 129 to 248 bytes the CRC is computed and stored beyond the end
  of the packet.
\<close>

lemma sha_data_bound:
  assumes "wf_packet p" "param1 p AND SHA_MODE_MASK \<in> {SHA_MODE_SHA256_UPDATE, SHA_MODE_SHA256_END, SHA_MODE_HMAC_END}"
    and "n = unat (param2 p)" "n \<le> 248"
  shows "if n \<le> 128 then framed (atSHA (Some c) p ctx) p else atSHA (Some c) p ctx = Inl OutOfBounds"
  by (rule sha_message_size [OF assms])

end
