(* ===== verification/AtcaExec.thy ===== *)
theory AtcaExec
  imports AtcaHalFacts AtcaFrame
begin

text \<open>
  Devices and the execution of a command (\<open>libatca/hal/atca_hal.c\<close>, \<open>atca_iface.c\<close>,
  \<open>atca_device.c\<close>, \<open>atca_cfgs.c\<close>, \<open>atca_execution.c\<close>). The function pointers of the hardware
  layer are the fields of a record; the execution is defined over them, the locale
  \<open>hal_layer\<close> says what it relies on, and the I2C layer is shown to provide it.
\<close>

section \<open>The hardware layer as function pointers\<close>

text \<open>
  Each function gets the configuration that the C function reads from its interface. A
  receive also returns the length, which it could change through its pointer.
\<close>

record 's ATCAHAL =
  halinit :: "ATCAIfaceCfg \<Rightarrow> 's \<Rightarrow> (ATCA_STATUS \<times> nat option \<times> 's) run"
  halpostinit :: ATCA_STATUS
  halsend :: "ATCAIfaceCfg \<Rightarrow> u8 list \<Rightarrow> int \<Rightarrow> 's \<Rightarrow> (ATCA_STATUS \<times> u8 list \<times> 's) run"
  halreceive :: "ATCAIfaceCfg \<Rightarrow> u8 list \<Rightarrow> u16 \<Rightarrow> 's \<Rightarrow> (ATCA_STATUS \<times> u8 list \<times> u16 \<times> 's) run"
  halwake :: "ATCAIfaceCfg \<Rightarrow> 's \<Rightarrow> (ATCA_STATUS \<times> 's) run"
  halidle :: "ATCAIfaceCfg \<Rightarrow> 's \<Rightarrow> (ATCA_STATUS \<times> 's) run"
  halsleep :: "ATCAIfaceCfg \<Rightarrow> 's \<Rightarrow> (ATCA_STATUS \<times> 's) run"

text \<open>\<open>hal_iface_init\<close>: with only the I2C layer built in, the other kinds set no pointers.\<close>

definition i2c_hal :: "'h bus \<Rightarrow> 'h atca ATCAHAL" where
  "i2c_hal B =
     \<lparr>halinit = hal_i2c_init B, halpostinit = hal_i2c_post_init, halsend = hal_i2c_send B,
      halreceive = (\<lambda>cfg rxdata rxlength st.
        if_runs (hal_i2c_receive B cfg rxdata rxlength st) (\<lambda>(status, rxdata, st).
          Some (Inr (status, rxdata, rxlength, st)))),
      halwake = hal_i2c_wake B, halidle = hal_i2c_idle B, halsleep = hal_i2c_sleep B\<rparr>"

definition hal_iface_init :: "'h bus \<Rightarrow> ATCAIfaceCfg \<Rightarrow> ATCA_STATUS \<times> 'h atca ATCAHAL option" where
  "hal_iface_init B cfg =
     (case iface_type cfg of
        ATCA_I2C_IFACE \<Rightarrow> (ATCA_SUCCESS, Some (i2c_hal B))
      | _ \<Rightarrow> (ATCA_COMM_FAIL, None))"

definition hal_iface_release ::
    "'h bus \<Rightarrow> ATCAIfaceType \<Rightarrow> nat option \<Rightarrow> 'h atca \<Rightarrow> (ATCA_STATUS \<times> 'h atca) run" where
  "hal_iface_release B kind data st =
     (case kind of
        ATCA_I2C_IFACE \<Rightarrow> hal_i2c_release B data st
      | _ \<Rightarrow> Some (Inr (ATCA_GEN_FAIL, st)))"

section \<open>Interfaces and devices\<close>

record 's ATCAIface =
  mType :: ATCAIfaceType
  mIfaceCFG :: ATCAIfaceCfg
  iface_calls :: "'s ATCAHAL"
  hal_data :: "nat option"

record 's ATCADevice =
  mCommands :: atca_command
  mIface :: "'s ATCAIface"

definition atsend :: "'s ATCAIface \<Rightarrow> u8 list \<Rightarrow> int \<Rightarrow> 's \<Rightarrow> (ATCA_STATUS \<times> u8 list \<times> 's) run" where
  "atsend ca_iface = halsend (iface_calls ca_iface) (mIfaceCFG ca_iface)"

definition atreceive :: "'s ATCAIface \<Rightarrow> u8 list \<Rightarrow> u16 \<Rightarrow> 's \<Rightarrow> (ATCA_STATUS \<times> u8 list \<times> u16 \<times> 's) run" where
  "atreceive ca_iface = halreceive (iface_calls ca_iface) (mIfaceCFG ca_iface)"

definition atwake :: "'s ATCAIface \<Rightarrow> 's \<Rightarrow> (ATCA_STATUS \<times> 's) run" where
  "atwake ca_iface = halwake (iface_calls ca_iface) (mIfaceCFG ca_iface)"

definition atidle :: "'s ATCAIface \<Rightarrow> 's \<Rightarrow> (ATCA_STATUS \<times> 's) run" where
  "atidle ca_iface = halidle (iface_calls ca_iface) (mIfaceCFG ca_iface)"

definition atsleep :: "'s ATCAIface \<Rightarrow> 's \<Rightarrow> (ATCA_STATUS \<times> 's) run" where
  "atsleep ca_iface = halsleep (iface_calls ca_iface) (mIfaceCFG ca_iface)"

text \<open>
  \<open>_atinit\<close> copies the pointers whatever \<open>hal_iface_init\<close> answered; the call through a pointer
  that was not set is the fault \<open>Uninitialised\<close>.
\<close>

definition atinit ::
    "'h bus \<Rightarrow> ATCAIfaceCfg \<Rightarrow> 'h atca \<Rightarrow> (ATCA_STATUS \<times> 'h atca ATCAIface option \<times> 'h atca) run" where
  "atinit B cfg st =
     (case snd (hal_iface_init B cfg) of
        None \<Rightarrow> Some (Inl Uninitialised)
      | Some hal \<Rightarrow>
          if_runs (halinit hal cfg st) (\<lambda>(status, data, st).
            Some (Inr (if status = ATCA_SUCCESS
              then (halpostinit hal, Some \<lparr>mType = iface_type cfg, mIfaceCFG = cfg, iface_calls = hal, hal_data = data\<rparr>, st)
              else (status, None, st)))))"

definition newATCAIface :: "'h bus \<Rightarrow> ATCAIfaceCfg \<Rightarrow> 'h atca \<Rightarrow> ('h atca ATCAIface option \<times> 'h atca) run" where
  "newATCAIface B cfg st =
     (let (ok, st) = malloc_ok st
      in if \<not> ok then Some (Inl NullPointer)
         else if_runs (atinit B cfg st) (\<lambda>(status, iface, st).
           Some (Inr (if status \<noteq> ATCA_SUCCESS then (None, free_block st) else (iface, st)))))"

definition deleteATCAIface :: "'h bus \<Rightarrow> 'h atca ATCAIface option \<Rightarrow> 'h atca \<Rightarrow> 'h atca run" where
  "deleteATCAIface B iface st =
     (case iface of
        None \<Rightarrow> Some (Inr st)
      | Some i \<Rightarrow>
          if_runs (hal_iface_release B (mType i) (hal_data i) st) (\<lambda>(status, st). Some (Inr (free_block st))))"

definition newATCACommand :: "ATCADeviceType \<Rightarrow> 'h atca \<Rightarrow> (atca_command \<times> 'h atca) run" where
  "newATCACommand device_type st =
     (let (ok, st) = malloc_ok st
      in if \<not> ok then Some (Inl NullPointer)
         else Some (Inr (\<lparr>cmd_dt = device_type, clock_divider = 0, execution_time_msec = 0\<rparr>, st)))"

definition deleteATCACommand :: "atca_command option \<Rightarrow> 'h atca \<Rightarrow> 'h atca" where
  "deleteATCACommand ca_cmd st = (case ca_cmd of None \<Rightarrow> st | Some c \<Rightarrow> free_block st)"

definition newATCADevice ::
    "'h bus \<Rightarrow> ATCAIfaceCfg option \<Rightarrow> 'h atca \<Rightarrow> ('h atca ATCADevice option \<times> 'h atca) run" where
  "newATCADevice B cfg st =
     (case cfg of
        None \<Rightarrow> Some (Inr (None, st))
      | Some cfg \<Rightarrow>
          let (ok, st) = malloc_ok st
          in if \<not> ok then Some (Inl NullPointer)
             else if_runs (newATCACommand (devtype cfg) st) (\<lambda>(commands, st).
                  if_runs (newATCAIface B cfg st) (\<lambda>(iface, st).
                  Some (Inr (case iface of
                      None \<Rightarrow> (None, free_block st)
                    | Some i \<Rightarrow> (Some \<lparr>mCommands = commands, mIface = i\<rparr>, st))))))"

definition deleteATCADevice :: "'h bus \<Rightarrow> 'h atca ATCADevice option \<Rightarrow> 'h atca \<Rightarrow> 'h atca run" where
  "deleteATCADevice B ca_dev st =
     (case ca_dev of
        None \<Rightarrow> Some (Inr st)
      | Some dev \<Rightarrow>
          if_runs (deleteATCAIface B (Some (mIface dev)) (deleteATCACommand (Some (mCommands dev)) st)) (\<lambda>st.
            Some (Inr (free_block st))))"

text \<open>The configuration of the board's chip.\<close>

definition cfg_ateccx08a_i2c_default :: ATCAIfaceCfg where
  "cfg_ateccx08a_i2c_default =
     \<lparr>iface_type = ATCA_I2C_IFACE, devtype = ATECC508A, slave_address = 0xC0, cfg_bus = 0,
      baud = 40000, wake_delay = 1500, rx_retries = 20\<rparr>"

section \<open>Execution of a command\<close>

definition ATCA_POLLING_FREQUENCY_TIME_MSEC :: nat where "ATCA_POLLING_FREQUENCY_TIME_MSEC = 2"
definition ATCA_POLLING_MAX_TIME_MSEC :: nat where "ATCA_POLLING_MAX_TIME_MSEC = 2000"

text \<open>The packet read back from its bytes.\<close>

definition with_image :: "u8 list \<Rightarrow> ATCAPacket \<Rightarrow> ATCAPacket" where
  "with_image img p =
     (with_frame (take 135 (drop 1 img)) p)\<lparr>pkt_reserved := img ! 0, execTime := img ! 136,
        rxsize := of_le16 [img ! 138, img ! 139]\<rparr>"

definition send_packet :: "'s ATCAIface \<Rightarrow> ATCAPacket \<Rightarrow> 's \<Rightarrow> (ATCA_STATUS \<times> ATCAPacket \<times> 's) run" where
  "send_packet ca_iface packet s =
     if_runs (atsend ca_iface (packet_image packet) (uint (txsize packet)) s) (\<lambda>(status, img, s).
       Some (Inr (status, with_image img packet, s)))"

text \<open>The polling loop; \<open>n\<close> is \<open>max_delay_count\<close>.\<close>

fun poll_response :: "'s ATCAIface \<Rightarrow> nat \<Rightarrow> ATCAPacket \<Rightarrow> 's \<Rightarrow> (ATCAPacket \<times> 's) run" where
  "poll_response ca_iface n packet s =
     if_runs (atreceive ca_iface (pkt_data packet) (rxsize packet) s) (\<lambda>(status, data, size, s).
       let packet = packet\<lparr>pkt_data := data, rxsize := size\<rparr>
       in if status = ATCA_SUCCESS then Some (Inr (packet, s))
          else (case n of 0 \<Rightarrow> Some (Inr (packet, s)) | Suc n \<Rightarrow> poll_response ca_iface n packet s))"

declare poll_response.simps [simp del]

definition check_response :: "ATCAPacket \<Rightarrow> fault + ATCA_STATUS" where
  "check_response packet =
     (if rxsize packet < 4
      then Inr (if rxsize packet > 0 then ATCA_RX_FAIL else ATCA_RX_NO_RESPONSE)
      else case atCheckCrc (pkt_data packet) of
          Inl e \<Rightarrow> Inl e
        | Inr status \<Rightarrow> Inr (if status \<noteq> ATCA_SUCCESS then status else isATCAError (pkt_data packet)))"

definition run_command_body :: "'s ATCAIface \<Rightarrow> ATCAPacket \<Rightarrow> 's \<Rightarrow> (ATCA_STATUS \<times> ATCAPacket \<times> 's) run" where
  "run_command_body ca_iface packet s =
     if_runs (atwake ca_iface s) (\<lambda>(status, s).
       if status \<noteq> ATCA_SUCCESS then Some (Inr (status, packet, s))
       else if_runs (send_packet ca_iface packet s) (\<lambda>(status, packet, s).
         if status \<noteq> ATCA_SUCCESS then Some (Inr (status, packet, s))
         else if_runs (poll_response ca_iface
             (ATCA_POLLING_MAX_TIME_MSEC div ATCA_POLLING_FREQUENCY_TIME_MSEC) packet s) (\<lambda>(packet, s).
           case check_response packet of
             Inl e \<Rightarrow> Some (Inl e)
           | Inr status \<Rightarrow> Some (Inr (status, packet, s)))))"

definition atca_execute_command ::
    "ATCAPacket \<Rightarrow> 's ATCADevice \<Rightarrow> 's \<Rightarrow> (ATCA_STATUS \<times> ATCAPacket \<times> 's) run" where
  "atca_execute_command packet device s =
     if_runs (run_command_body (mIface device) packet s) (\<lambda>(status, packet, s).
     if_runs (atidle (mIface device) s) (\<lambda>(idle_status, s).
     Some (Inr (status, packet, s))))"

section \<open>What the execution relies on\<close>

locale hal_layer =
  fixes ca_iface :: "'s ATCAIface" and inv :: "'s \<Rightarrow> bool"
  assumes wake_ends: "inv s \<Longrightarrow> ends (atwake ca_iface s) (\<lambda>(status, s'). inv s')"
    and idle_ends: "inv s \<Longrightarrow> ends (atidle ca_iface s) (\<lambda>(status, s'). inv s')"
    and send_ends: "inv s \<Longrightarrow> tx \<noteq> [] \<Longrightarrow> 0 \<le> n \<Longrightarrow> n < 255 \<Longrightarrow> n < int (length tx) \<Longrightarrow>
      ends (atsend ca_iface tx n s) (\<lambda>(status, tx', s'). inv s' \<and> tx' = tx[0 := 3])"
    and receive_ends: "inv s \<Longrightarrow> 0 < unat m \<Longrightarrow> unat m \<le> length rx \<Longrightarrow>
      ends (atreceive ca_iface rx m s) (\<lambda>(status, rx', m', s'). inv s' \<and> m' = m \<and> received m rx rx' status)"

text \<open>Packets whose frame and response fit; what an execution keeps of its packet.\<close>

definition executable :: "ATCAPacket \<Rightarrow> bool" where
  "executable p \<longleftrightarrow> wf_packet p \<and> unat (txsize p) \<le> 135 \<and> 4 \<le> unat (rxsize p) \<and> unat (rxsize p) \<le> 130"

definition response_in :: "ATCAPacket \<Rightarrow> ATCAPacket \<Rightarrow> bool" where
  "response_in p p' \<longleftrightarrow> wf_packet p' \<and> txsize p' = txsize p \<and> rxsize p' = rxsize p \<and>
     drop (unat (rxsize p)) (pkt_data p') = drop (unat (rxsize p)) (pkt_data p)"

lemma response_in_refl: "wf_packet p \<Longrightarrow> response_in p p"
  by (simp add: response_in_def)

lemma response_in_trans: "response_in p p' \<Longrightarrow> response_in p' p'' \<Longrightarrow> response_in p p''"
  by (simp add: response_in_def)

lemma response_in_executable: "response_in p p' \<Longrightarrow> executable p \<Longrightarrow> executable p'"
  by (simp add: response_in_def executable_def)

lemma response_in_received:
  assumes "wf_packet p" "received (rxsize p) (pkt_data p) data status"
  shows "response_in p (p\<lparr>pkt_data := data\<rparr>)"
  using assms by (simp add: response_in_def received_def wf_packet_def)

lemma length_packet_image: "wf_packet p \<Longrightarrow> length (packet_image p) = 140"
  by (simp add: packet_image_def length_packet_frame)

lemma image_tail:
  assumes "length F = 135"
  shows "(b # F @ [e, z, c, d]) ! 136 = e" "(b # F @ [e, z, c, d]) ! 138 = c" "(b # F @ [e, z, c, d]) ! 139 = d"
  using assms by (simp_all add: nth_append)

lemma with_image_sent:
  assumes "wf_packet p"
  shows "with_image ((packet_image p)[0 := b]) p = p\<lparr>pkt_reserved := b\<rparr>"
proof -
  have f: "length (packet_frame p) = 135" by (rule length_packet_frame [OF assms])
  obtain d0 d1 d2 d3 d4 data where pf: "packet_frame p = d0 # d1 # d2 # d3 # d4 # data"
    "d0 = txsize p" "d1 = opcode p" "d2 = param1 p" "[d3, d4] = le16 (param2 p)" "data = pkt_data p"
    by (auto simp: packet_frame_def le16_def)
  have 1: "with_frame (packet_frame p) p = p"
    unfolding pf(1) with_frame_def using pf(2-) by (simp del: of_le16.simps)
  obtain c d where r: "le16 (rxsize p) = [c, d]" by (auto simp: le16_def)
  have img: "(packet_image p)[0 := b] = b # packet_frame p @ [execTime p, 0, c, d]"
    by (simp add: packet_image_def r)
  have rx: "of_le16 [c, d] = rxsize p" using of_le16_le16 [of "rxsize p"] r by simp
  have fr: "take 135 (drop 1 ((packet_image p)[0 := b])) = packet_frame p" using f by (simp add: img)
  have "with_image ((packet_image p)[0 := b]) p = p\<lparr>pkt_reserved := b, execTime := execTime p, rxsize := rxsize p\<rparr>"
    unfolding with_image_def fr 1 unfolding img image_tail [OF f] rx nth_Cons_0 by (rule refl)
  then show ?thesis by simp
qed

lemma executable_reserved [simp]: "executable (p\<lparr>pkt_reserved := b\<rparr>) = executable p"
  by (simp add: executable_def wf_packet_def)

lemma uint_le_nat: "unat (w :: u8) \<le> n \<Longrightarrow> uint w \<le> int n"
  by (simp only: uint_nat of_nat_le_iff)

text \<open>\<open>answers r P\<close>: where the call returns, it overran a buffer or returns with \<open>P\<close>.\<close>

definition answers :: "'a run \<Rightarrow> ('a \<Rightarrow> bool) \<Rightarrow> bool" where
  "answers r P \<longleftrightarrow> (\<forall>z. r = Some z \<longrightarrow> z = Inl OutOfBounds \<or> (\<exists>x. z = Inr x \<and> P x))"

lemma answersD: "answers r P \<Longrightarrow> r = Some (Inr x) \<Longrightarrow> P x"
  by (auto simp: answers_def)

lemma answers_then: "answers r P \<Longrightarrow> (\<And>x. P x \<Longrightarrow> answers (k x) Q) \<Longrightarrow> answers (if_runs r k) Q"
  by (auto simp: answers_def if_runs_def split: option.splits sum.splits)

lemma answers_bind: "ends r P \<Longrightarrow> (\<And>x. P x \<Longrightarrow> answers (k x) Q) \<Longrightarrow> answers (if_runs r k) Q"
  by (rule answers_then [of r P]) (auto simp: ends_def answers_def)

lemma check_response_fault: "check_response p = Inl e \<Longrightarrow> e = OutOfBounds"
  by (auto simp: check_response_def atCheckCrc_def atCRC_def Let_def split: if_splits sum.splits list.splits)

context hal_layer
begin

lemma send_packet_ends:
  assumes "inv s" "executable p"
  shows "ends (send_packet ca_iface p s) (\<lambda>(status, p', s'). inv s' \<and> p' = p\<lparr>pkt_reserved := 3\<rparr>)"
proof -
  have w: "wf_packet p" and t: "unat (txsize p) \<le> 135" using assms(2) by (simp_all add: executable_def)
  have l: "length (packet_image p) = 140" by (rule length_packet_image [OF w])
  have u: "uint (txsize p) \<le> 135" using uint_le_nat [OF t] by simp
  have ne: "packet_image p \<noteq> []" using l by auto
  show ?thesis
    unfolding send_packet_def
    by (rule ends_bind [OF send_ends [OF assms(1) ne]])
      (use l u in \<open>auto intro!: ends_return simp: with_image_sent [OF w]\<close>)
qed

lemma poll_ends:
  assumes "inv s" "executable p"
  shows "ends (poll_response ca_iface n p s) (\<lambda>(p', s'). inv s' \<and> response_in p p')"
  using assms
proof (induction n arbitrary: p s)
  case (0 p s)
  have rx: "0 < unat (rxsize p)" "unat (rxsize p) \<le> length (pkt_data p)" and w: "wf_packet p"
    using 0 by (auto simp: executable_def wf_packet_def PACKET_DATA_SIZE_def)
  show ?case
    by (subst poll_response.simps, rule ends_bind [OF receive_ends [OF 0(1) rx]])
      (auto simp: Let_def intro!: ends_return response_in_received [OF w])
next
  case (Suc n p s)
  have rx: "0 < unat (rxsize p)" "unat (rxsize p) \<le> length (pkt_data p)" and w: "wf_packet p"
    using Suc.prems by (auto simp: executable_def wf_packet_def PACKET_DATA_SIZE_def)
  have again: "ends (poll_response ca_iface n p1 s1) (\<lambda>(p', s'). inv s' \<and> response_in p p')"
    if "inv s1" "response_in p p1" for p1 s1
    by (rule ends_weaken [OF Suc.IH]) (use that Suc.prems response_in_executable in \<open>auto intro: response_in_trans\<close>)
  show ?case
    by (subst poll_response.simps, rule ends_bind [OF receive_ends [OF Suc.prems(1) rx]])
      (auto simp: Let_def intro!: ends_return again response_in_received [OF w])
qed

text \<open>The only fault of an execution is a check of a response that overruns the packet.\<close>

lemma body_answers:
  assumes "inv s" "executable p"
  shows "answers (run_command_body ca_iface p s) (\<lambda>(status, p', s'). inv s' \<and> response_in p p' \<and>
    (status = ATCA_SUCCESS \<longrightarrow> check_response p' = Inr ATCA_SUCCESS))"
    (is "answers _ ?P")
  unfolding run_command_body_def
proof (rule answers_bind [OF wake_ends [OF assms(1)]], clarify)
  fix status s1 assume 1: "inv s1"
  have w: "wf_packet p" using assms(2) by (simp add: executable_def)
  let ?n = "ATCA_POLLING_MAX_TIME_MSEC div ATCA_POLLING_FREQUENCY_TIME_MSEC"
  let ?poll = "\<lambda>packet s. if_runs (poll_response ca_iface ?n packet s) (\<lambda>(packet, s).
      case check_response packet of Inl e \<Rightarrow> Some (Inl e) | Inr status \<Rightarrow> Some (Inr (status, packet, s)))"
  have poll: "answers (?poll (p\<lparr>pkt_reserved := 3\<rparr>) s2) ?P" if "inv s2" for s2
  proof (rule answers_bind [OF poll_ends [OF that]], simp add: assms(2), clarify)
    fix p' s3 assume 3: "inv s3" "response_in (p\<lparr>pkt_reserved := 3\<rparr>) p'"
    have "response_in p p'" using 3(2) by (simp add: response_in_def)
    then show "answers (case check_response p' of Inl e \<Rightarrow> Some (Inl e) | Inr status \<Rightarrow> Some (Inr (status, p', s3))) ?P"
      using 3(1) check_response_fault by (auto simp: answers_def split: sum.splits)
  qed
  show "answers (if status \<noteq> ATCA_SUCCESS then Some (Inr (status, p, s1))
      else if_runs (send_packet ca_iface p s1) (\<lambda>(status, packet, s).
        if status \<noteq> ATCA_SUCCESS then Some (Inr (status, packet, s)) else ?poll packet s)) ?P"
  proof (cases "status = ATCA_SUCCESS")
    case True
    have "answers (if_runs (send_packet ca_iface p s1) (\<lambda>(status, packet, s).
        if status \<noteq> ATCA_SUCCESS then Some (Inr (status, packet, s)) else ?poll packet s)) ?P"
    proof (rule answers_bind [OF send_packet_ends [OF 1 assms(2)]], clarify)
      fix status2 s2 assume 2: "inv s2"
      have "response_in p (p\<lparr>pkt_reserved := 3\<rparr>)" using w by (simp add: response_in_def wf_packet_def)
      then show "answers (if status2 \<noteq> ATCA_SUCCESS then Some (Inr (status2, p\<lparr>pkt_reserved := 3\<rparr>, s2))
          else ?poll (p\<lparr>pkt_reserved := 3\<rparr>) s2) ?P"
        using poll [OF 2] 2 by (cases "status2 = ATCA_SUCCESS") (simp_all add: answers_def)
    qed
    then show ?thesis using True by simp
  next
    case False
    then show ?thesis using 1 response_in_refl [OF w] by (simp add: answers_def)
  qed
qed

text \<open>Whatever happened before, the execution ends with the chip told to idle.\<close>

lemma execute_answers:
  assumes "inv s" "executable p" "ca_iface = mIface device"
  shows "answers (atca_execute_command p device s) (\<lambda>(status, p', s'). inv s' \<and> response_in p p' \<and>
    (status = ATCA_SUCCESS \<longrightarrow> check_response p' = Inr ATCA_SUCCESS) \<and>
    (\<exists>s1 st. inv s1 \<and> atidle ca_iface s1 = Some (Inr (st, s'))))"
    (is "answers _ ?P")
  unfolding atca_execute_command_def assms(3) [symmetric]
proof (rule answers_then [OF body_answers [OF assms(1,2)]], clarify)
  fix status p' s1
  assume 1: "inv s1" "response_in p p'" "status = ATCA_SUCCESS \<longrightarrow> check_response p' = Inr ATCA_SUCCESS"
  show "answers (if_runs (atidle ca_iface s1) (\<lambda>(idle_status, s). Some (Inr (status, p', s)))) ?P"
    using endsD [OF idle_ends [OF 1(1)]] 1
    by (auto simp: answers_def if_runs_def split: option.splits sum.splits)
qed

end

section \<open>The I2C layer provides it\<close>

definition i2c_iface :: "'h bus \<Rightarrow> ATCAIfaceCfg \<Rightarrow> nat option \<Rightarrow> 'h atca ATCAIface" where
  "i2c_iface B cfg d = \<lparr>mType = iface_type cfg, mIfaceCFG = cfg, iface_calls = i2c_hal B, hal_data = d\<rparr>"

lemma i2c_calls:
  "atwake (i2c_iface B cfg d) = hal_i2c_wake B cfg"
  "atidle (i2c_iface B cfg d) = hal_i2c_idle B cfg"
  "atsleep (i2c_iface B cfg d) = hal_i2c_sleep B cfg"
  "atsend (i2c_iface B cfg d) = hal_i2c_send B cfg"
  "atreceive (i2c_iface B cfg d) rx n st =
     if_runs (hal_i2c_receive B cfg rx n st) (\<lambda>(status, rx, st). Some (Inr (status, rx, n, st)))"
  by (simp_all add: i2c_iface_def i2c_hal_def atwake_def atidle_def atsleep_def atsend_def atreceive_def)

interpretation i2c: hal_layer "i2c_iface B cfg d" "\<lambda>st. bus_up cfg st \<and> layer_same st0 st" for B cfg d st0
proof (unfold_locales, unfold i2c_calls)
  fix s :: "'a atca" and tx rx :: "u8 list" and n :: int and m :: u16
  assume up: "bus_up cfg s \<and> layer_same st0 s"
  have keep: "bus_up cfg s' \<and> layer_same st0 s'" if "layer_same s s'" for s'
    using up that layer_same_up layer_same_trans by blast
  show "ends (hal_i2c_wake B cfg s) (\<lambda>(status, s'). bus_up cfg s' \<and> layer_same st0 s')"
    by (rule ends_weaken [OF wake_ends]) (use up keep in auto)
  show "ends (hal_i2c_idle B cfg s) (\<lambda>(status, s'). bus_up cfg s' \<and> layer_same st0 s')"
    unfolding hal_i2c_idle_def by (rule ends_weaken [OF word_address_ends]) (use up keep in auto)
  show "ends (hal_i2c_send B cfg tx n s) (\<lambda>(status, tx', s'). (bus_up cfg s' \<and> layer_same st0 s') \<and> tx' = tx[0 := 3])"
    if "tx \<noteq> []" "0 \<le> n" "n < 255" "n < int (length tx)"
    by (rule ends_weaken [OF send_ends]) (use up keep that in auto)
  show "ends (if_runs (hal_i2c_receive B cfg rx m s) (\<lambda>(status, rx, st). Some (Inr (status, rx, m, st))))
      (\<lambda>(status, rx', m', s'). (bus_up cfg s' \<and> layer_same st0 s') \<and> m' = m \<and> received m rx rx' status)"
    if "0 < unat m" "unat m \<le> length rx"
    by (rule ends_bind [OF receive_ends]) (use up keep that in \<open>auto intro!: ends_return\<close>)
qed

end
