(* ===== verification/AtcaBasic.thy ===== *)
theory AtcaBasic
  imports AtcaExec
begin

text \<open>
  The basic interface of the library over its one global device: creation and release
  (\<open>basic/atca_basic.c\<close>), addresses and sizes of the zones, reading (\<open>atca_basic_read.c\<close>) and
  writing (\<open>atca_basic_write.c\<close>) them. An output buffer is an option: \<open>None\<close> when the call left
  it as it was. Sizes are natural numbers below the wrap of \<open>size_t\<close>.
\<close>

section \<open>State\<close>

text \<open>
  The library below, the global device, the memory that the packets of the coming commands
  find on the stack, and the serial number of the test.
\<close>

record 's atcab =
  lib :: 's
  gDevice :: "'s ATCADevice option"
  stack_packets :: "ATCAPacket list"
  SerialNum :: "u8 list"

definition zero_packet :: ATCAPacket where
  "zero_packet = \<lparr>pkt_reserved = 0, txsize = 0, opcode = 0, param1 = 0, param2 = 0,
     pkt_data = replicate PACKET_DATA_SIZE 0, execTime = 0, rxsize = 0\<rparr>"

definition found_packet :: "'s atcab \<Rightarrow> ATCAPacket \<times> 's atcab" where
  "found_packet st =
     (case stack_packets st of
        [] \<Rightarrow> (zero_packet, st)
      | p # ps \<Rightarrow> (p, st\<lparr>stack_packets := ps\<rparr>))"

definition with_device :: "('s ATCADevice \<Rightarrow> 's atcab \<Rightarrow> 'a run) \<Rightarrow> 's atcab \<Rightarrow> 'a run" where
  "with_device f st = (case gDevice st of None \<Rightarrow> Some (Inl NullPointer) | Some dev \<Rightarrow> f dev st)"

text \<open>Building and executing a command: the middle of every function.\<close>

definition execute ::
    "(ATCACommand \<Rightarrow> ATCAPacket \<Rightarrow> built) \<Rightarrow> ATCAPacket \<Rightarrow> 's ATCADevice \<Rightarrow> 's atcab \<Rightarrow>
     (ATCA_STATUS \<times> ATCAPacket \<times> 's atcab) run" where
  "execute build packet dev st =
     (case build (Some (mCommands dev)) packet of
        Inl e \<Rightarrow> Some (Inl e)
      | Inr (status, packet) \<Rightarrow>
          if status \<noteq> ATCA_SUCCESS then Some (Inr (status, packet, st))
          else if_runs (atca_execute_command packet dev (lib st)) (\<lambda>(status, packet, s).
            Some (Inr (status, packet, st\<lparr>lib := s\<rparr>))))"

definition response_data :: "nat \<Rightarrow> ATCAPacket \<Rightarrow> u8 list" where
  "response_data n packet = take n (drop 1 (pkt_data packet))"

section \<open>Zones\<close>

definition ATCA_SERIAL_NUM_SIZE :: nat where "ATCA_SERIAL_NUM_SIZE = 9"
definition ATCA_ECC_CONFIG_SIZE :: nat where "ATCA_ECC_CONFIG_SIZE = 128"
definition ATCA_SHA_CONFIG_SIZE :: nat where "ATCA_SHA_CONFIG_SIZE = 88"
definition LOCK_ZONE_CONFIG :: u8 where "LOCK_ZONE_CONFIG = 0x00"
definition LOCK_ZONE_DATA :: u8 where "LOCK_ZONE_DATA = 0x01"
definition ATCA_CHIPMODE_OFFSET :: nat where "ATCA_CHIPMODE_OFFSET = 19"
definition ATCA_CHIPMODE_CLOCK_DIV_MASK :: u8 where "ATCA_CHIPMODE_CLOCK_DIV_MASK = 0xF8"

lemmas basic_consts [model_eval] =
  ATCA_SERIAL_NUM_SIZE_def ATCA_ECC_CONFIG_SIZE_def ATCA_SHA_CONFIG_SIZE_def LOCK_ZONE_CONFIG_def
  LOCK_ZONE_DATA_def ATCA_CHIPMODE_OFFSET_def ATCA_CHIPMODE_CLOCK_DIV_MASK_def

definition atcab_get_addr :: "u8 \<Rightarrow> u16 \<Rightarrow> u8 \<Rightarrow> u8 \<Rightarrow> ATCA_STATUS \<times> u16 option" where
  "atcab_get_addr zone slot block offset =
     (let mem_zone = zone AND 0x03
      in if mem_zone \<noteq> ATCA_ZONE_CONFIG \<and> mem_zone \<noteq> ATCA_ZONE_DATA \<and> mem_zone \<noteq> ATCA_ZONE_OTP
         then (ATCA_BAD_PARAM, None)
         else
           let offset = offset AND 0x07
           in (ATCA_SUCCESS, Some
                (if mem_zone = ATCA_ZONE_CONFIG \<or> mem_zone = ATCA_ZONE_OTP
                 then push_bit 3 (ucast block) OR ucast offset
                 else push_bit 3 slot OR ucast offset OR push_bit 8 (ucast block))))"

definition zone_size :: "ATCADeviceType \<Rightarrow> u8 \<Rightarrow> u16 \<Rightarrow> nat option" where
  "zone_size dt zone slot =
     (if dt = ATSHA204A
      then (if zone = ATCA_ZONE_CONFIG then Some 88 else if zone = ATCA_ZONE_OTP then Some 64
            else if zone = ATCA_ZONE_DATA then Some 32 else None)
      else if zone = ATCA_ZONE_CONFIG then Some 128
      else if zone = ATCA_ZONE_OTP then Some 64
      else if zone = ATCA_ZONE_DATA
      then (if slot < 8 then Some 36 else if slot = 8 then Some 416 else if slot < 16 then Some 72 else None)
      else None)"

definition atcab_get_zone_size :: "u8 \<Rightarrow> u16 \<Rightarrow> 's atcab \<Rightarrow> (ATCA_STATUS \<times> nat option) run" where
  "atcab_get_zone_size zone slot =
     with_device (\<lambda>dev st. Some (Inr (case zone_size (devtype (mIfaceCFG (mIface dev))) zone slot of
         None \<Rightarrow> (ATCA_BAD_PARAM, None)
       | Some n \<Rightarrow> (ATCA_SUCCESS, Some n))))"

section \<open>Reading\<close>

definition atcab_read_zone ::
    "u8 \<Rightarrow> u16 \<Rightarrow> u8 \<Rightarrow> u8 \<Rightarrow> u8 \<Rightarrow> 's atcab \<Rightarrow> (ATCA_STATUS \<times> u8 list option \<times> 's atcab) run" where
  "atcab_read_zone zone slot block offset len = with_device (\<lambda>dev st.
     let (packet, st) = found_packet st
     in if len \<noteq> 4 \<and> len \<noteq> 32 then Some (Inr (ATCA_BAD_PARAM, None, st))
        else case atcab_get_addr zone slot block offset of
            (status, None) \<Rightarrow> Some (Inr (status, None, st))
          | (status, Some addr) \<Rightarrow>
              let zone = (if len = ATCA_BLOCK_SIZE then zone OR ATCA_ZONE_READWRITE_32 else zone)
              in if_runs (execute atRead (packet\<lparr>param1 := zone, param2 := addr\<rparr>) dev st) (\<lambda>(status, packet, st).
                   Some (Inr (status, if status = ATCA_SUCCESS then Some (response_data (unat len) packet) else None, st))))"

definition atcab_read_serial_number :: "'s atcab \<Rightarrow> (ATCA_STATUS \<times> u8 list option \<times> 's atcab) run" where
  "atcab_read_serial_number st =
     if_runs (atcab_read_zone ATCA_ZONE_CONFIG 0 0 0 ATCA_BLOCK_SIZE st) (\<lambda>(status, read_buf, st).
       Some (Inr (status, map_option (\<lambda>buf. take 4 buf @ take 5 (drop 8 buf)) read_buf, st)))"

definition atcab_is_slot_locked :: "u16 \<Rightarrow> 's atcab \<Rightarrow> (ATCA_STATUS \<times> bool option \<times> 's atcab) run" where
  "atcab_is_slot_locked slot st =
     (if slot > 15 then Some (Inr (ATCA_BAD_PARAM, None, st))
      else if_runs (atcab_read_zone ATCA_ZONE_CONFIG 0 2 6 ATCA_WORD_SIZE st) (\<lambda>(status, buf, st).
        Some (Inr (status, map_option (\<lambda>data.
          of_le16 [data ! 0, data ! 1] AND push_bit (unat slot) 1 = 0) buf, st))))"

definition atcab_is_locked :: "u8 \<Rightarrow> 's atcab \<Rightarrow> (ATCA_STATUS \<times> bool option \<times> 's atcab) run" where
  "atcab_is_locked zone st =
     if_runs (atcab_read_zone ATCA_ZONE_CONFIG 0 2 5 ATCA_WORD_SIZE st) (\<lambda>(status, buf, st).
       Some (Inr (case buf of
           None \<Rightarrow> (status, None, st)
         | Some data \<Rightarrow>
             if zone = LOCK_ZONE_CONFIG then (status, Some (data ! 3 \<noteq> 0x55), st)
             else if zone = LOCK_ZONE_DATA then (status, Some (data ! 2 \<noteq> 0x55), st)
             else (ATCA_BAD_PARAM, None, st))))"

text \<open>
  The loop of \<open>atcab_read_bytes_zone\<close>: block reads, then word reads where less than a block
  of the zone is left. \<open>got\<close> is the data so far (\<open>data_idx\<close> bytes). A pass delivers at least a
  byte (\<open>read_bytes_zone_reads\<close>), so \<open>len\<close> passes are enough.
\<close>

primrec read_bytes_loop ::
    "nat \<Rightarrow> u8 \<Rightarrow> u16 \<Rightarrow> nat \<Rightarrow> nat \<Rightarrow> nat \<Rightarrow> nat \<Rightarrow> nat \<Rightarrow> u8 \<Rightarrow> u8 list \<Rightarrow> 's atcab \<Rightarrow>
     (ATCA_STATUS \<times> u8 list \<times> 's atcab) run" where
  "read_bytes_loop 0 zone slot zsize offset len cur_block cur_offset read_size got st =
     (if len \<le> length got then Some (Inr (ATCA_SUCCESS, got, st)) else None)"
| "read_bytes_loop (Suc n) zone slot zsize offset len cur_block cur_offset read_size got st =
     (if len \<le> length got then Some (Inr (ATCA_SUCCESS, got, st))
      else
        let words = (read_size = ATCA_BLOCK_SIZE \<and> zsize - cur_block * 32 < 32);
            cur_offset = (if words then (length got + offset) div 4 mod 8 else cur_offset);
            read_size = (if words then ATCA_WORD_SIZE else read_size)
        in if_runs (atcab_read_zone zone slot (of_nat cur_block) (of_nat cur_offset) read_size st) (\<lambda>(status, buf, st).
           case buf of
             None \<Rightarrow> Some (Inr (status, got, st))
           | Some read_buf \<Rightarrow>
               let read_offset = cur_block * 32 + cur_offset * 4;
                   read_buf_idx = (if read_offset < offset then offset - read_offset else 0);
                   copy_length = (if len - length got < unat read_size - read_buf_idx
                     then len - length got else unat read_size - read_buf_idx)
               in read_bytes_loop n zone slot zsize offset len
                    (if read_size = ATCA_BLOCK_SIZE then cur_block + 1 else cur_block)
                    (if read_size = ATCA_BLOCK_SIZE then cur_offset else cur_offset + 1)
                    read_size (got @ take copy_length (drop read_buf_idx read_buf)) st))"

declare read_bytes_loop.simps [simp del]

definition zone_args_ok :: "u8 \<Rightarrow> u16 \<Rightarrow> bool" where
  "zone_args_ok zone slot \<longleftrightarrow>
     (zone = ATCA_ZONE_CONFIG \<or> zone = ATCA_ZONE_OTP \<or> zone = ATCA_ZONE_DATA) \<and>
     \<not> (zone = ATCA_ZONE_DATA \<and> slot > 15)"

definition atcab_read_bytes_zone ::
    "u8 \<Rightarrow> u16 \<Rightarrow> nat \<Rightarrow> nat \<Rightarrow> 's atcab \<Rightarrow> (ATCA_STATUS \<times> u8 list \<times> 's atcab) run" where
  "atcab_read_bytes_zone zone slot offset len st =
     (if \<not> zone_args_ok zone slot then Some (Inr (ATCA_BAD_PARAM, [], st))
      else if len = 0 then Some (Inr (ATCA_SUCCESS, [], st))
      else if_runs (atcab_get_zone_size zone slot st) (\<lambda>(status, size).
        case size of
          None \<Rightarrow> Some (Inr (status, [], st))
        | Some zsize \<Rightarrow>
            if offset + len > zsize then Some (Inr (ATCA_BAD_PARAM, [], st))
            else read_bytes_loop len zone slot zsize offset len (offset div 32) 0 ATCA_BLOCK_SIZE [] st))"

definition atcab_read_config_zone :: "'s atcab \<Rightarrow> (ATCA_STATUS \<times> u8 list \<times> 's atcab) run" where
  "atcab_read_config_zone = with_device (\<lambda>dev.
     atcab_read_bytes_zone ATCA_ZONE_CONFIG 0 0
       (if devtype (mIfaceCFG (mIface dev)) = ATSHA204A then ATCA_SHA_CONFIG_SIZE else ATCA_ECC_CONFIG_SIZE))"

section \<open>Writing\<close>

text \<open>Reading \<open>n\<close> bytes of a source buffer.\<close>

definition needs :: "nat \<Rightarrow> u8 list \<Rightarrow> 'a run \<Rightarrow> 'a run" where
  "needs n src k = (if n \<le> length src then k else Some (Inl OutOfBounds))"

definition copy_in :: "nat \<Rightarrow> nat \<Rightarrow> u8 list \<Rightarrow> ATCAPacket \<Rightarrow> ATCAPacket" where
  "copy_in i n src packet = packet\<lparr>pkt_data := memcpy_at i (take n src) (pkt_data packet)\<rparr>"

definition atcab_write ::
    "u8 \<Rightarrow> u16 \<Rightarrow> u8 list \<Rightarrow> u8 list option \<Rightarrow> 's atcab \<Rightarrow> (ATCA_STATUS \<times> 's atcab) run" where
  "atcab_write zone address value mac = with_device (\<lambda>dev st.
     let (packet, st) = found_packet st;
         packet = packet\<lparr>param1 := zone, param2 := address\<rparr>;
         whole = (zone AND ATCA_ZONE_READWRITE_32 \<noteq> 0)
     in needs (if whole then 32 else 4) value
        (needs (if whole then 32 else 0) (case mac of None \<Rightarrow> replicate 32 0 | Some mac \<Rightarrow> mac)
          (let packet = copy_in 0 (if whole then 32 else 4) value packet;
               packet = (case mac of Some mac \<Rightarrow> if whole then copy_in 32 32 mac packet else packet | None \<Rightarrow> packet)
           in if_runs (execute (\<lambda>cmd packet. atWrite cmd packet (mac \<noteq> None \<and> whole)) packet dev st)
                (\<lambda>(status, packet, st). Some (Inr (status, st))))))"

definition atcab_write_zone ::
    "u8 \<Rightarrow> u16 \<Rightarrow> u8 \<Rightarrow> u8 \<Rightarrow> u8 list \<Rightarrow> u8 \<Rightarrow> 's atcab \<Rightarrow> (ATCA_STATUS \<times> 's atcab) run" where
  "atcab_write_zone zone slot block offset data len st =
     (if len \<noteq> 4 \<and> len \<noteq> 32 then Some (Inr (ATCA_BAD_PARAM, st))
      else case atcab_get_addr zone slot block offset of
          (status, None) \<Rightarrow> Some (Inr (status, st))
        | (status, Some addr) \<Rightarrow>
            atcab_write (if len = ATCA_BLOCK_SIZE then zone OR ATCA_ZONE_READWRITE_32 else zone) addr data None st)"

text \<open>
  The loop of \<open>atcab_write_bytes_zone\<close> over the rest of the data. The word of the
  configuration zone with the selector and the lock bytes is passed over.
\<close>

function write_bytes_loop ::
    "u8 \<Rightarrow> u16 \<Rightarrow> nat \<Rightarrow> nat \<Rightarrow> u8 list \<Rightarrow> 's atcab \<Rightarrow> (ATCA_STATUS \<times> 's atcab) run" where
  "write_bytes_loop zone slot cur_block cur_word rest st =
     (if rest = [] then Some (Inr (ATCA_SUCCESS, st))
      else if cur_word = 0 \<and> 32 \<le> length rest \<and> \<not> (zone = ATCA_ZONE_CONFIG \<and> cur_block = 2)
      then if_runs (atcab_write_zone zone slot (of_nat cur_block) 0 rest ATCA_BLOCK_SIZE st) (\<lambda>(status, st).
        if status \<noteq> ATCA_SUCCESS then Some (Inr (status, st))
        else write_bytes_loop zone slot (cur_block + 1) cur_word (drop 32 rest) st)
      else if_runs (if zone = ATCA_ZONE_CONFIG \<and> cur_block = 2 \<and> cur_word = 5 then Some (Inr (ATCA_SUCCESS, st))
          else atcab_write_zone zone slot (of_nat cur_block) (of_nat cur_word) rest ATCA_WORD_SIZE st) (\<lambda>(status, st).
        if status \<noteq> ATCA_SUCCESS then Some (Inr (status, st))
        else write_bytes_loop zone slot (if cur_word + 1 = 8 then cur_block + 1 else cur_block)
          (if cur_word + 1 = 8 then 0 else cur_word + 1) (drop 4 rest) st))"
  by pat_completeness auto
termination
  by (relation "measure (\<lambda>(zone, slot, b, w, rest, st). length rest)") auto

declare write_bytes_loop.simps [simp del]

text \<open>The data are \<open>len\<close> bytes from the start of the buffer.\<close>

definition atcab_write_bytes_zone ::
    "u8 \<Rightarrow> u16 \<Rightarrow> nat \<Rightarrow> u8 list \<Rightarrow> nat \<Rightarrow> 's atcab \<Rightarrow> (ATCA_STATUS \<times> 's atcab) run" where
  "atcab_write_bytes_zone zone slot offset_bytes data len st =
     (if \<not> zone_args_ok zone slot then Some (Inr (ATCA_BAD_PARAM, st))
      else if len = 0 then Some (Inr (ATCA_SUCCESS, st))
      else if offset_bytes mod 4 \<noteq> 0 \<or> len mod 4 \<noteq> 0 then Some (Inr (ATCA_BAD_PARAM, st))
      else if_runs (atcab_get_zone_size zone slot st) (\<lambda>(status, size).
        case size of
          None \<Rightarrow> Some (Inr (status, st))
        | Some zsize \<Rightarrow>
            if offset_bytes + len > zsize then Some (Inr (ATCA_BAD_PARAM, st))
            else needs len data
              (write_bytes_loop zone slot (offset_bytes div 32) (offset_bytes mod 32 div 4) (take len data) st)))"

definition COUNTER_MAX_VALUE :: u32 where "COUNTER_MAX_VALUE = 2097151"

text \<open>The counter value as the chip keeps it: two linear and two binary parts.\<close>

definition counter_bytes :: "u32 \<Rightarrow> u8 list" where
  "counter_bytes v =
     (let ones = (\<lambda>n. drop_bit (unat (n mod 32)) (0xFFFF :: u32));
          lin_a = ucast (ones v) :: u16;
          lin_b = ucast (ones (if v \<ge> 16 then (v - 16) mod 32 else 0)) :: u16;
          bin_a = ucast (v div 32) :: u16;
          bin_b = ucast (if v \<ge> 16 then (v - 16) div 32 else 0) :: u16;
          be = (\<lambda>w :: u16. [ucast (drop_bit 8 w), ucast (w AND 0xFF)])
      in be lin_a @ be lin_b @ be bin_a @ be bin_b)"

definition atcab_write_config_counter :: "u16 \<Rightarrow> u32 \<Rightarrow> 's atcab \<Rightarrow> (ATCA_STATUS \<times> 's atcab) run" where
  "atcab_write_config_counter counter_id counter_value st =
     (if counter_id > 1 \<or> counter_value > COUNTER_MAX_VALUE then Some (Inr (ATCA_BAD_PARAM, st))
      else atcab_write_bytes_zone ATCA_ZONE_CONFIG 0 (52 + unat counter_id * 8) (counter_bytes counter_value) 8 st)"

text \<open>A public key with its padding, as a slot holds it.\<close>

definition padded_key :: "u8 list \<Rightarrow> u8 list" where
  "padded_key public_key = memcpy_at 40 (take 32 (drop 32 public_key)) (memcpy_at 4 (take 32 public_key) (replicate 72 0))"

definition atcab_write_pubkey :: "u16 \<Rightarrow> u8 list \<Rightarrow> 's atcab \<Rightarrow> (ATCA_STATUS \<times> 's atcab) run" where
  "atcab_write_pubkey slot public_key st =
     needs 64 public_key (atcab_write_bytes_zone ATCA_ZONE_DATA slot 0 (padded_key public_key) 72 st)"

section \<open>The counters\<close>

text \<open>
  The value of a counter in its encoding: 32 per unit of the first binary part, and a unit for
  every cleared bit of the linear parts, of the second one while the binary parts agree.
\<close>

definition zeros :: "u16 \<Rightarrow> nat" where
  "zeros w = length (filter (\<lambda>k. \<not> bit w k) [0..<16])"

definition be_word :: "u8 list \<Rightarrow> nat \<Rightarrow> u16" where
  "be_word bs i = push_bit 8 (ucast (bs ! i)) OR ucast (bs ! (i + 1))"

definition counter_value :: "u8 list \<Rightarrow> nat" where
  "counter_value bs =
     32 * unat (be_word bs 4) + zeros (be_word bs 0) + (if be_word bs 6 = be_word bs 4 then zeros (be_word bs 2) else 0)"

lemma be_word_split: "push_bit 8 (ucast (ucast (drop_bit 8 w) :: u8)) OR ucast (ucast (w AND 0xFF) :: u8) = (w :: u16)"
proof (rule bit_word_eqI)
  fix n assume "n < LENGTH(16)"
  have m: "bit (0xFF :: u16) k \<longleftrightarrow> k < 8" for k
    using bit_mask_iff [of 8 k, where 'a = u16] by (auto simp: mask_eq_exp_minus_1)
  show "bit (push_bit 8 (ucast (ucast (drop_bit 8 w) :: u8)) OR ucast (ucast (w AND 0xFF) :: u8) :: u16) n = bit w n"
    unfolding bit_or_iff bit_push_bit_iff bit_ucast_iff bit_drop_bit_eq bit_and_iff comp_def m
    using \<open>n < LENGTH(16)\<close> by (cases "n < 8") (auto simp: bit_ucast_iff m)
qed

lemma linear_zeros: "k < 32 \<Longrightarrow> zeros (ucast (drop_bit k (0xFFFF :: u32))) = min k 16"
proof -
  have "list_all (\<lambda>k. zeros (ucast (drop_bit k (0xFFFF :: u32))) = min k 16) [0..<32]" by code_simp
  then show "k < 32 \<Longrightarrow> ?thesis" by (simp add: list_all_iff)
qed

lemma counter_parts:
  "32 * (n div 32) + min (n mod 32) 16 + (if (n - 16) div 32 = n div 32 then min ((n - 16) mod 32) 16 else 0) = (n :: nat)"
proof -
  define q k where "q = n div 32" and "k = n mod 32"
  have n: "n = q * 32 + k" and k: "k < 32" by (simp_all add: q_def k_def)
  consider "16 \<le> k" | "k < 16" "q = 0" | p where "k < 16" "q = Suc p" by (cases q; cases "k < 16") auto
  then show ?thesis
  proof cases
    case 1
    then have "n - 16 = q * 32 + (k - 16)" using n by simp
    then have "(n - 16) div 32 = q" "(n - 16) mod 32 = k - 16" using k by simp_all
    then show ?thesis unfolding q_def [symmetric] k_def [symmetric] using 1 k n by simp
  next
    case 2
    then show ?thesis using n by simp
  next
    case 3
    then have "n - 16 = p * 32 + (k + 16)" using n by simp
    then have "(n - 16) div 32 = p" using 3 by simp
    then show ?thesis unfolding q_def [symmetric] k_def [symmetric] using 3 n by simp
  qed
qed

lemma counter_roundtrip:
  assumes "v \<le> COUNTER_MAX_VALUE"
  shows "counter_value (counter_bytes v) = unat v"
proof -
  define n where "n = unat v"
  have n: "n \<le> 2097151" using assms by (simp add: n_def COUNTER_MAX_VALUE_def word_le_nat_alt)
  have k: "unat (v mod 32) = n mod 32" and q: "unat (v div 32) = n div 32" by (simp_all add: n_def unat_mod unat_div)
  have ge: "v \<ge> 16 \<longleftrightarrow> 16 \<le> n" by (simp add: n_def word_le_nat_alt)
  have sub: "unat (v - 16) = n - 16" if "16 \<le> n" using that ge by (simp add: n_def unat_sub)
  have ucq: "unat (ucast x :: u16) = unat x" if "unat (x :: u32) < 65536" for x
    using that by (simp add: unsigned_ucast_eq take_bit_nat_eq_self)
  have a: "unat (ucast (v div 32) :: u16) = n div 32" using n q by (subst ucq) auto
  have b: "unat (ucast (if v \<ge> 16 then (v - 16) div 32 else 0) :: u16) = (n - 16) div 32"
    using n ge sub by (subst ucq) (auto simp: unat_div)
  have c: "unat ((if v \<ge> 16 then (v - 16) mod 32 else 0) mod 32) = (n - 16) mod 32"
    using ge sub by (auto simp: unat_mod)
  have words: "be_word (counter_bytes v) 0 = ucast (drop_bit (n mod 32) (0xFFFF :: u32))"
    "be_word (counter_bytes v) 2 = ucast (drop_bit ((n - 16) mod 32) (0xFFFF :: u32))"
    "be_word (counter_bytes v) 4 = ucast (v div 32)"
    "be_word (counter_bytes v) 6 = ucast (if v \<ge> 16 then (v - 16) div 32 else 0)"
    unfolding be_word_def counter_bytes_def Let_def k [symmetric] c [symmetric] by (simp_all add: be_word_split)
  have eq: "be_word (counter_bytes v) 6 = be_word (counter_bytes v) 4 \<longleftrightarrow> (n - 16) div 32 = n div 32"
    unfolding words(3,4) a [symmetric] b [symmetric] word_unat_eq_iff ..
  show ?thesis
    unfolding counter_value_def eq unfolding words a linear_zeros [OF mod_less_divisor [OF zero_less_numeral]] n_def [symmetric]
    by (rule counter_parts)
qed

text \<open>
  The eight bytes written for a counter encode it: every value up to the maximum is read
  back from them.
\<close>

lemma counter_encoding:
  assumes "v \<le> COUNTER_MAX_VALUE"
  shows "counter_value (counter_bytes v) = unat v"
  by (rule counter_roundtrip [OF assms])

end
