(* ===== verification/AtcaTest.thy ===== *)
theory AtcaTest
  imports AtcaBasic
begin

text \<open>
  The global device of the library (\<open>basic/atca_basic.c\<close>) and the ECC test of the board
  (\<open>atca_test.c\<close>), with what a passed test says about the chip and what any run leaves behind.
\<close>

section \<open>The global device\<close>

definition atcab_release :: "'h bus \<Rightarrow> 'h atca atcab \<Rightarrow> (ATCA_STATUS \<times> 'h atca atcab) run" where
  "atcab_release B st =
     if_runs (deleteATCADevice B (gDevice st) (lib st)) (\<lambda>s.
       Some (Inr (ATCA_SUCCESS, st\<lparr>lib := s, gDevice := None\<rparr>)))"

definition set_clock_divider :: "u8 \<Rightarrow> 's ATCADevice \<Rightarrow> 's ATCADevice" where
  "set_clock_divider d dev = dev\<lparr>mCommands := (mCommands dev)\<lparr>clock_divider := d\<rparr>\<rparr>"

definition atcab_init :: "'h bus \<Rightarrow> ATCAIfaceCfg \<Rightarrow> 'h atca atcab \<Rightarrow> (ATCA_STATUS \<times> 'h atca atcab) run" where
  "atcab_init B cfg st =
     if_runs (if gDevice st \<noteq> None then atcab_release B st else Some (Inr (ATCA_SUCCESS, st))) (\<lambda>(_, st).
     if_runs (newATCADevice B (Some cfg) (lib st)) (\<lambda>(dev, s).
       let st = st\<lparr>lib := s, gDevice := dev\<rparr>
       in case dev of
           None \<Rightarrow> Some (Inr (ATCA_GEN_FAIL, st))
         | Some dev \<Rightarrow>
             if devtype cfg = ATECC608A
             then if_runs (atcab_read_bytes_zone ATCA_ZONE_CONFIG 0 ATCA_CHIPMODE_OFFSET 1 st) (\<lambda>(status, got, st).
               if status \<noteq> ATCA_SUCCESS then Some (Inr (status, st))
               else Some (Inr (ATCA_SUCCESS,
                 st\<lparr>gDevice := map_option (set_clock_divider (hd got AND ATCA_CHIPMODE_CLOCK_DIV_MASK)) (gDevice st)\<rparr>)))
             else Some (Inr (ATCA_SUCCESS, st))))"

definition atcab_init_device ::
    "'h bus \<Rightarrow> 'h atca ATCADevice option \<Rightarrow> 'h atca atcab \<Rightarrow> (ATCA_STATUS \<times> 'h atca atcab) run" where
  "atcab_init_device B ca_device st =
     (case ca_device of
        None \<Rightarrow> Some (Inr (ATCA_BAD_PARAM, st))
      | Some dev \<Rightarrow>
          if_runs (if gDevice st \<noteq> None then atcab_release B st else Some (Inr (ATCA_SUCCESS, st))) (\<lambda>(_, st).
            Some (Inr (ATCA_SUCCESS, st\<lparr>gDevice := Some dev\<rparr>))))"

text \<open>Calls of the interface of the global device.\<close>

definition device_call ::
    "('s ATCAIface \<Rightarrow> 's \<Rightarrow> (ATCA_STATUS \<times> 's) run) \<Rightarrow> 's atcab \<Rightarrow> (ATCA_STATUS \<times> 's atcab) run" where
  "device_call f st =
     (case gDevice st of
        None \<Rightarrow> Some (Inr (ATCA_GEN_FAIL, st))
      | Some dev \<Rightarrow> if_runs (f (mIface dev) (lib st)) (\<lambda>(status, s). Some (Inr (status, st\<lparr>lib := s\<rparr>))))"

definition atcab_wakeup :: "'s atcab \<Rightarrow> (ATCA_STATUS \<times> 's atcab) run" where
  "atcab_wakeup = device_call atwake"

definition atcab_idle :: "'s atcab \<Rightarrow> (ATCA_STATUS \<times> 's atcab) run" where
  "atcab_idle = device_call atidle"

definition atcab_sleep :: "'s atcab \<Rightarrow> (ATCA_STATUS \<times> 's atcab) run" where
  "atcab_sleep = device_call atsleep"

section \<open>The test\<close>

text \<open>The result of \<open>atcab_init\<close> is not looked at; prints are left out.\<close>

definition at508_get_sernum :: "'h bus \<Rightarrow> 'h atca atcab \<Rightarrow> (ATCA_STATUS \<times> u8 list option \<times> 'h atca atcab) run" where
  "at508_get_sernum B st =
     if_runs (atcab_init B cfg_ateccx08a_i2c_default st) (\<lambda>(_, st).
     if_runs (atcab_read_serial_number st) (\<lambda>(status, sernum, st).
       if status \<noteq> ATCA_SUCCESS then Some (Inr (status, sernum, st))
       else if_runs (atcab_release B st) (\<lambda>(_, st). Some (Inr (status, sernum, st)))))"

definition at508_test :: "'h bus \<Rightarrow> 'h atca atcab \<Rightarrow> (int \<times> 'h atca atcab) run" where
  "at508_test B st =
     if_runs (at508_get_sernum B st) (\<lambda>(status, sernum, st).
       Some (Inr (status_code status,
         case sernum of None \<Rightarrow> st | Some sn \<Rightarrow> st\<lparr>SerialNum := sn\<rparr>)))"

section \<open>Reading a zone\<close>

definition stack_ok :: "'s atcab \<Rightarrow> bool" where
  "stack_ok st \<longleftrightarrow> list_all wf_packet (stack_packets st)"

definition same_device :: "'s atcab \<Rightarrow> 's atcab \<Rightarrow> bool" where
  "same_device st st' \<longleftrightarrow> gDevice st' = gDevice st \<and> SerialNum st' = SerialNum st \<and> (stack_ok st \<longrightarrow> stack_ok st')"

lemma found_packet_ok:
  "stack_ok st \<Longrightarrow> found_packet st = (p, st') \<Longrightarrow> wf_packet p \<and> same_device st st' \<and> stack_ok st' \<and> lib st' = lib st"
  by (auto simp: found_packet_def stack_ok_def same_device_def zero_packet_def wf_packet_def split: list.splits)

lemma atRead_executable:
  assumes "wf_packet p"
  shows "\<exists>p'. atRead c p = Inr (ATCA_SUCCESS, p') \<and> executable p'"
proof -
  let ?q = "p\<lparr>opcode := ATCA_READ, txsize := ATCA_CMD_SIZE_MIN,
       rxsize := (if param1 p AND 0x80 = 0 then ATCA_RSP_SIZE_VAL else ATCA_RSP_SIZE_32)\<rparr>"
  have "wf_packet ?q" "7 \<le> unat (txsize ?q)" "unat (txsize ?q) \<le> 135"
    using assms by (simp_all add: wf_packet_def command_consts)
  from with_crc_framed [OF this] obtain p' where p': "with_crc ?q = Inr (ATCA_SUCCESS, p')" "good_frame p'" "same_command ?q p'"
    by blast
  have "executable p'" using p'(2,3)
    by (auto simp: executable_def good_frame_def same_command_def command_consts)
  then show ?thesis using p'(1) by (auto simp: atRead_def)
qed

text \<open>A response that was checked: its CRC is right and it reports no error.\<close>

definition checked :: "u8 list \<Rightarrow> bool" where
  "checked resp \<longleftrightarrow> length resp = PACKET_DATA_SIZE \<and> atCheckCrc resp = Inr ATCA_SUCCESS \<and> isATCAError resp = ATCA_SUCCESS"

lemma check_response_checked:
  "wf_packet p \<Longrightarrow> 4 \<le> unat (rxsize p) \<Longrightarrow> check_response p = Inr ATCA_SUCCESS \<Longrightarrow> checked (pkt_data p)"
  by (auto simp: check_response_def checked_def wf_packet_def word_less_nat_alt split: if_splits sum.splits)

context hal_layer
begin

lemma execute_cmd_answers:
  assumes "inv (lib st)" "mIface dev = ca_iface" "build (Some (mCommands dev)) p = Inr (ATCA_SUCCESS, p')" "executable p'"
  shows "answers (execute build p dev st) (\<lambda>(status, q, st'). same_device st st' \<and> inv (lib st') \<and>
    response_in p' q \<and> (status = ATCA_SUCCESS \<longrightarrow> checked (pkt_data q)))"
proof -
  have "answers (if_runs (atca_execute_command p' dev (lib st)) (\<lambda>(status, packet, s).
      Some (Inr (status, packet, st\<lparr>lib := s\<rparr>)))) (\<lambda>(status, q, st'). same_device st st' \<and> inv (lib st') \<and>
    response_in p' q \<and> (status = ATCA_SUCCESS \<longrightarrow> checked (pkt_data q)))"
  proof (rule answers_then [OF execute_answers [OF assms(1,4) assms(2) [symmetric]]], clarify)
    fix status q s assume q: "inv s" "response_in p' q" "status = ATCA_SUCCESS \<longrightarrow> check_response q = Inr ATCA_SUCCESS"
    have "executable q" by (rule response_in_executable [OF q(2) assms(4)])
    then have "status = ATCA_SUCCESS \<longrightarrow> checked (pkt_data q)"
      using q(3) check_response_checked by (auto simp: executable_def)
    then show "answers (Some (Inr (status, q, st\<lparr>lib := s\<rparr>))) (\<lambda>(status, q, st'). same_device st st' \<and> inv (lib st') \<and>
        response_in p' q \<and> (status = ATCA_SUCCESS \<longrightarrow> checked (pkt_data q)))"
      using q(1,2) by (simp add: answers_def same_device_def stack_ok_def)
  qed
  then show ?thesis using assms(3) by (simp add: execute_def)
qed

lemma read_zone_answers:
  assumes "inv (lib st)" "gDevice st = Some dev" "mIface dev = ca_iface" "stack_ok st"
  shows "answers (atcab_read_zone zone slot block offset len st) (\<lambda>(status, buf, st'). same_device st st' \<and> inv (lib st') \<and>
    (case buf of None \<Rightarrow> status \<noteq> ATCA_SUCCESS
     | Some d \<Rightarrow> status = ATCA_SUCCESS \<and> (\<exists>resp. checked resp \<and> d = take (unat len) (drop 1 resp))))"
    (is "answers _ ?P")
proof -
  obtain p st1 where f: "found_packet st = (p, st1)" by (cases "found_packet st") auto
  have st1: "wf_packet p" "same_device st st1" "lib st1 = lib st" using found_packet_ok [OF assms(4) f] by auto
  have ?thesis if "atcab_get_addr zone slot block offset = (status, Some addr)" "len = 4 \<or> len = 32" for status addr
  proof -
    let ?zone = "if len = ATCA_BLOCK_SIZE then zone OR ATCA_ZONE_READWRITE_32 else zone"
    let ?p = "p\<lparr>param1 := ?zone, param2 := addr\<rparr>"
    have "wf_packet ?p" using st1(1) by (simp add: wf_packet_def)
    then obtain p' where p': "atRead (Some (mCommands dev)) ?p = Inr (ATCA_SUCCESS, p')" "executable p'"
      using atRead_executable by blast
    have "answers (if_runs (execute atRead ?p dev st1) (\<lambda>(status, packet, st).
        Some (Inr (status, if status = ATCA_SUCCESS then Some (response_data (unat len) packet) else None, st)))) ?P"
      by (rule answers_then [OF execute_cmd_answers [where build = atRead, OF _ assms(3) p'(1) p'(2)]])
        (use assms(1) st1 in \<open>auto simp: answers_def same_device_def response_data_def split: if_splits\<close>)
    then show ?thesis using that assms(2) by (auto simp: atcab_read_zone_def with_device_def f)
  qed
  moreover have ?thesis if "\<not> (len = 4 \<or> len = 32) \<or> snd (atcab_get_addr zone slot block offset) = None"
  proof -
    have "fst (atcab_get_addr zone slot block offset) \<noteq> ATCA_SUCCESS" if "snd (atcab_get_addr zone slot block offset) = None"
      using that by (auto simp: atcab_get_addr_def Let_def split: if_splits)
    then show ?thesis using that assms(1,2) st1
      by (cases "atcab_get_addr zone slot block offset") (auto simp: atcab_read_zone_def with_device_def f answers_def)
  qed
  ultimately show ?thesis
    by (cases "atcab_get_addr zone slot block offset"; cases "snd (atcab_get_addr zone slot block offset)") auto
qed

end

section \<open>The life of the device\<close>

text \<open>
  The layer with the one device of the test: bus 0 set up once, four blocks on the heap beside
  the \<open>base\<close> blocks of the rest of the program. No allocation fails.
\<close>

definition board_master :: ATCAI2CMaster where
  "board_master = \<lparr>master_sda = 29, master_scl = 28, master_ref_ct = 1, master_bus_index = 0\<rparr>"

definition heap_ok :: "int \<Rightarrow> 'h atca \<Rightarrow> bool" where
  "heap_ok n s \<longleftrightarrow> list_all id (heap_outcomes (atca_heap s)) \<and> heap_live (atca_heap s) = n"

definition layer_down :: "int \<Rightarrow> 'h atca \<Rightarrow> bool" where
  "layer_down base s \<longleftrightarrow> i2c_bus_ref_ct s = 0 \<and> heap_ok base s"

definition layer_up :: "int \<Rightarrow> 'h atca \<Rightarrow> bool" where
  "layer_up base s \<longleftrightarrow> i2c_bus_ref_ct s = 1 \<and> i2c_hal_data s = [Some board_master] \<and> heap_ok (base + 4) s"

definition lib_inv :: "'h bus \<Rightarrow> int \<Rightarrow> 'h atca atcab \<Rightarrow> bool" where
  "lib_inv B base st \<longleftrightarrow> stack_ok st \<and>
     (case gDevice st of
        None \<Rightarrow> layer_down base (lib st)
      | Some dev \<Rightarrow> mIface dev = i2c_iface B cfg_ateccx08a_i2c_default (Some 0) \<and> layer_up base (lib st))"

lemma layer_same_keeps:
  "layer_same s s' \<Longrightarrow> layer_up base s' = layer_up base s" "layer_same s s' \<Longrightarrow> heap_ok n s' = heap_ok n s"
  by (simp_all add: layer_same_def layer_up_def heap_ok_def)

lemma layer_up_bus: "layer_up base s \<Longrightarrow> bus_up cfg_ateccx08a_i2c_default s"
  by (simp add: layer_up_def bus_up_def cfg_ateccx08a_i2c_default_def)

lemma malloc_succeeds:
  assumes "heap_ok n s"
  obtains s' where "malloc_ok s = (True, s')" "heap_ok (n + 1) s'" "i2c_hal_data s' = i2c_hal_data s"
    "i2c_bus_ref_ct s' = i2c_bus_ref_ct s" "i2c_st s' = i2c_st s"
proof -
  have "\<exists>s'. malloc_ok s = (True, s') \<and> heap_ok (n + 1) s' \<and> i2c_hal_data s' = i2c_hal_data s \<and>
      i2c_bus_ref_ct s' = i2c_bus_ref_ct s \<and> i2c_st s' = i2c_st s"
    using assms by (auto simp: malloc_ok_def heap_ok_def split: list.splits)
  then show thesis using that by blast
qed

lemma free_heap: "heap_ok n s \<Longrightarrow> heap_ok (n - 1) (free_block s)"
  by (simp add: heap_ok_def free_block_def)

lemma free_two: "heap_ok (n + 2) s \<Longrightarrow> heap_ok n (free_block (free_block s))"
  by (simp add: heap_ok_def free_block_def)

lemma free_simps [simp]:
  "i2c_hal_data (free_block s) = i2c_hal_data s" "i2c_bus_ref_ct (free_block s) = i2c_bus_ref_ct s"
  by (simp_all add: free_block_def)

lemma init_bus_ends:
  assumes "i2c_bus_ref_ct s = 0" "heap_ok n s"
  shows "ends (hal_i2c_init B cfg_ateccx08a_i2c_default s) (\<lambda>(status, d, s').
    status = ATCA_SUCCESS \<and> d = Some 0 \<and> i2c_bus_ref_ct s' = 1 \<and> i2c_hal_data s' = [Some board_master] \<and> heap_ok (n + 1) s')"
    (is "ends _ ?P")
proof -
  let ?s1 = "s\<lparr>i2c_hal_data := [None], i2c_bus_ref_ct := 1\<rparr>"
  have "heap_ok n ?s1" using assms(2) by (simp add: heap_ok_def)
  then obtain s2 where 2: "malloc_ok ?s1 = (True, s2)" "heap_ok (n + 1) s2" "i2c_hal_data s2 = [None]" "i2c_bus_ref_ct s2 = 1"
    by (rule malloc_succeeds) auto
  let ?s3 = "s2\<lparr>i2c_hal_data := [Some board_master]\<rparr>"
  have 3: "heap_ok (n + 1) ?s3" "i2c_bus_ref_ct ?s3 = 1" using 2 by (simp_all add: heap_ok_def)
  have "ends (if_runs (i2c_op (i2c_set_pin B 29 28) ?s3) (\<lambda>st. if_runs (i2c_op (i2c_enable B) st) (\<lambda>st.
      Some (Inr (ATCA_SUCCESS, Some 0, st))))) ?P"
  proof (rule ends_bind [OF op_ends], rule ends_bind [OF op_ends], rule ends_return)
    fix s4 s5 assume "layer_same ?s3 s4" "layer_same s4 s5"
    then have "layer_same ?s3 s5" by (rule layer_same_trans)
    then show "?P (ATCA_SUCCESS, Some 0, s5)" using 3 layer_same_keeps(2) [of ?s3 s5 "n + 1"] by (simp add: layer_same_def)
  qed
  moreover have "hal_i2c_init B cfg_ateccx08a_i2c_default s =
      if_runs (i2c_op (i2c_set_pin B 29 28) ?s3) (\<lambda>st. if_runs (i2c_op (i2c_enable B) st) (\<lambda>st.
      Some (Inr (ATCA_SUCCESS, Some 0, st))))"
    using assms(1) 2 by (simp add: hal_i2c_init_def cfg_ateccx08a_i2c_default_def i2c_buses_default_def i2c_consts
        board_master_def Let_def)
  ultimately show ?thesis by simp
qed

lemma default_kind: "iface_type cfg_ateccx08a_i2c_default = ATCA_I2C_IFACE"
  by (simp add: cfg_ateccx08a_i2c_default_def)

lemma i2c_pointers:
  "hal_iface_init B cfg_ateccx08a_i2c_default = (ATCA_SUCCESS, Some (i2c_hal B))"
  "halinit (i2c_hal B) = hal_i2c_init B" "halpostinit (i2c_hal B) = ATCA_SUCCESS"
  by (simp_all add: hal_iface_init_def default_kind i2c_hal_def hal_i2c_post_init_def)

lemma new_device_ends:
  assumes "layer_down base s"
  shows "ends (newATCADevice B (Some cfg_ateccx08a_i2c_default) s) (\<lambda>(d, s').
    (\<exists>c. d = Some \<lparr>mCommands = c, mIface = i2c_iface B cfg_ateccx08a_i2c_default (Some 0)\<rparr>) \<and> layer_up base s')"
    (is "ends _ ?P")
proof -
  let ?cfg = cfg_ateccx08a_i2c_default
  have d: "i2c_bus_ref_ct s = 0" "heap_ok base s" using assms by (simp_all add: layer_down_def)
  obtain s1 where 1: "malloc_ok s = (True, s1)" "heap_ok (base + 1) s1" "i2c_bus_ref_ct s1 = 0"
    by (rule malloc_succeeds [OF d(2)]) (use d(1) in auto)
  obtain s2 where 2: "malloc_ok s1 = (True, s2)" "heap_ok (base + 2) s2" "i2c_bus_ref_ct s2 = 0"
    by (rule malloc_succeeds [OF 1(2)]) (use 1(3) in \<open>auto simp: add.assoc\<close>)
  obtain s3 where 3: "malloc_ok s2 = (True, s3)" "heap_ok (base + 3) s3" "i2c_bus_ref_ct s3 = 0"
    by (rule malloc_succeeds [OF 2(2)]) (use 2(3) in \<open>auto simp: add.assoc\<close>)
  obtain c where c: "newATCACommand (devtype ?cfg) s1 = Some (Inr (c, s2))"
    using 2(1) by (simp add: newATCACommand_def)
  have init: "atinit B ?cfg s3 = if_runs (hal_i2c_init B ?cfg s3) (\<lambda>(status, data, st).
      Some (Inr (if status = ATCA_SUCCESS then (ATCA_SUCCESS, Some (i2c_iface B ?cfg data), st) else (status, None, st))))"
    by (simp add: atinit_def i2c_pointers i2c_iface_def cong: if_cong)
  have "ends (if_runs (hal_i2c_init B ?cfg s3) (\<lambda>(status, data, st).
      Some (Inr (if status \<noteq> ATCA_SUCCESS then (None, free_block st) else (Some (i2c_iface B ?cfg data), st)))))
    (\<lambda>(i, s'). i = Some (i2c_iface B ?cfg (Some 0)) \<and> layer_up base s')"
    by (rule ends_bind [OF init_bus_ends [OF 3(3,2)]]) (auto intro!: ends_return simp: layer_up_def add.commute)
  moreover have "newATCAIface B ?cfg s2 = if_runs (hal_i2c_init B ?cfg s3) (\<lambda>(status, data, st).
      Some (Inr (if status \<noteq> ATCA_SUCCESS then (None, free_block st) else (Some (i2c_iface B ?cfg data), st))))"
    by (simp add: newATCAIface_def 3(1) init if_runs_assoc case_prod_unfold)
      (rule arg_cong [where f = "if_runs (hal_i2c_init B ?cfg s3)"], rule ext, simp)
  ultimately have "ends (newATCAIface B ?cfg s2) (\<lambda>(i, s'). i = Some (i2c_iface B ?cfg (Some 0)) \<and> layer_up base s')"
    by simp
  then have "ends (if_runs (newATCAIface B ?cfg s2) (\<lambda>(iface, st). Some (Inr (case iface of
      None \<Rightarrow> (None, free_block st) | Some i \<Rightarrow> (Some \<lparr>mCommands = c, mIface = i\<rparr>, st))))) ?P"
    by (rule ends_bind) (auto intro!: ends_return)
  then show ?thesis by (simp add: newATCADevice_def 1(1) c)
qed

lemma release_ends:
  assumes "lib_inv B base st" "gDevice st \<noteq> None"
  shows "ends (atcab_release B st) (\<lambda>(status, st'). lib_inv B base st' \<and> gDevice st' = None \<and> SerialNum st' = SerialNum st)"
    (is "ends _ ?P")
proof -
  obtain dev where dev: "gDevice st = Some dev" "mIface dev = i2c_iface B cfg_ateccx08a_i2c_default (Some 0)"
    and up: "layer_up base (lib st)" and sk: "stack_ok st"
    using assms by (auto simp: lib_inv_def)
  let ?s1 = "(free_block (lib st))\<lparr>i2c_bus_ref_ct := 0, i2c_hal_data := [Some (board_master\<lparr>master_ref_ct := 0\<rparr>)]\<rparr>"
  have h: "heap_ok (base + 3) ?s1" using up free_heap [of "base + 4" "lib st"] by (simp add: layer_up_def heap_ok_def)
  have b: "bus_up cfg_ateccx08a_i2c_default ?s1" by (simp add: bus_up_def cfg_ateccx08a_i2c_default_def)
  have b0: "unat (cfg_bus cfg_ateccx08a_i2c_default) = 0" by (simp add: cfg_ateccx08a_i2c_default_def)
  have rel: "hal_i2c_release B (Some 0) (free_block (lib st)) =
      if_runs (set_bus_pins B 0 ?s1) (\<lambda>s. if_runs (i2c_op (i2c_disable B) s) (\<lambda>s.
        Some (Inr (ATCA_SUCCESS, (free_block s)\<lparr>i2c_hal_data := (i2c_hal_data s)[0 := None]\<rparr>))))"
    using up by (simp add: hal_i2c_release_def layer_up_def board_master_def Let_def)
  have "ends (hal_i2c_release B (Some 0) (free_block (lib st))) (\<lambda>(status, s'). i2c_bus_ref_ct s' = 0 \<and> heap_ok (base + 2) s')"
    unfolding rel
  proof (rule ends_bind [OF pins_end [OF b, unfolded b0]], rule ends_bind [OF op_ends], rule ends_return)
    fix s2 s3 assume "layer_same ?s1 s2" "layer_same s2 s3"
    then have s3: "layer_same ?s1 s3" by (rule layer_same_trans)
    then have "heap_ok (base + 2) (free_block s3)"
      using h layer_same_keeps(2) [OF s3, of "base + 3"] free_heap [of "base + 3" s3] by (simp add: add.commute)
    moreover have "i2c_bus_ref_ct s3 = 0" using s3 by (simp add: layer_same_def)
    ultimately show "case (ATCA_SUCCESS, (free_block s3)\<lparr>i2c_hal_data := (i2c_hal_data s3)[0 := None]\<rparr>) of
        (status, s') \<Rightarrow> i2c_bus_ref_ct s' = 0 \<and> heap_ok (base + 2) s'" by (simp add: heap_ok_def)
  qed
  then have "ends (if_runs (hal_i2c_release B (Some 0) (free_block (lib st)))
      (\<lambda>(status, s). Some (Inr (free_block (free_block s))))) (layer_down base)"
    by (rule ends_bind) (auto intro!: ends_return free_two simp: layer_down_def)
  moreover have "deleteATCADevice B (gDevice st) (lib st) =
      if_runs (hal_i2c_release B (Some 0) (free_block (lib st))) (\<lambda>(status, s). Some (Inr (free_block (free_block s))))"
    unfolding dev(1) by (simp add: deleteATCADevice_def deleteATCAIface_def deleteATCACommand_def dev(2) i2c_iface_def
        hal_iface_release_def default_kind if_runs_assoc case_prod_unfold)
  ultimately have "ends (deleteATCADevice B (gDevice st) (lib st)) (layer_down base)" by (simp only:)
  then show ?thesis unfolding atcab_release_def
    by (rule ends_bind) (use sk in \<open>auto intro!: ends_return simp: lib_inv_def stack_ok_def\<close>)
qed

lemma atcab_init_default:
  "atcab_init B cfg_ateccx08a_i2c_default st =
     if_runs (if gDevice st \<noteq> None then atcab_release B st else Some (Inr (ATCA_SUCCESS, st))) (\<lambda>(_, st).
     if_runs (newATCADevice B (Some cfg_ateccx08a_i2c_default) (lib st)) (\<lambda>(dev, s).
       Some (Inr (if dev = None then ATCA_GEN_FAIL else ATCA_SUCCESS, st\<lparr>lib := s, gDevice := dev\<rparr>))))"
proof -
  have dt: "devtype cfg_ateccx08a_i2c_default = ATECC508A" by (simp add: cfg_ateccx08a_i2c_default_def)
  have e: "(case dev of None \<Rightarrow> Some (Inr (ATCA_GEN_FAIL, st1\<lparr>lib := s, gDevice := None\<rparr>))
      | Some d \<Rightarrow> Some (Inr (ATCA_SUCCESS, st1\<lparr>lib := s, gDevice := Some d\<rparr>))) =
    Some (Inr (if dev = None then ATCA_GEN_FAIL else ATCA_SUCCESS, st1\<lparr>lib := s, gDevice := dev\<rparr>))"
    for dev s and st1 :: "'a atca atcab"
    by (cases dev) simp_all
  show ?thesis unfolding atcab_init_def dt
    by (simp add: Let_def e cong: option.case_cong)
qed

lemma init_ends:
  assumes "lib_inv B base st"
  shows "ends (atcab_init B cfg_ateccx08a_i2c_default st) (\<lambda>(status, st').
    status = ATCA_SUCCESS \<and> lib_inv B base st' \<and> gDevice st' \<noteq> None \<and> SerialNum st' = SerialNum st)"
    (is "ends _ ?P")
  unfolding atcab_init_default
proof (rule ends_bind [where P = "\<lambda>(_, st1). lib_inv B base st1 \<and> gDevice st1 = None \<and> SerialNum st1 = SerialNum st"])
  show "ends (if gDevice st \<noteq> None then atcab_release B st else Some (Inr (ATCA_SUCCESS, st)))
      (\<lambda>(_, st1). lib_inv B base st1 \<and> gDevice st1 = None \<and> SerialNum st1 = SerialNum st)"
    by (rule ends_if, rule ends_weaken [OF release_ends [OF assms]]) (use assms in \<open>auto simp: ends_def\<close>)
next
  fix x :: "ATCA_STATUS \<times> 'a atca atcab"
  assume "case x of (_, st1) \<Rightarrow> lib_inv B base st1 \<and> gDevice st1 = None \<and> SerialNum st1 = SerialNum st"
  then obtain y st1 where x: "x = (y, st1)" "layer_down base (lib st1)" "stack_ok st1" "SerialNum st1 = SerialNum st"
    by (cases x) (auto simp: lib_inv_def)
  have "ends (if_runs (newATCADevice B (Some cfg_ateccx08a_i2c_default) (lib st1)) (\<lambda>(dev, s).
       Some (Inr (if dev = None then ATCA_GEN_FAIL else ATCA_SUCCESS, st1\<lparr>lib := s, gDevice := dev\<rparr>)))) ?P"
    by (rule ends_bind [OF new_device_ends [OF x(2)]])
      (use x in \<open>auto intro!: ends_return simp: lib_inv_def stack_ok_def\<close>)
  then show "ends (case x of (_, st) \<Rightarrow> if_runs (newATCADevice B (Some cfg_ateccx08a_i2c_default) (lib st)) (\<lambda>(dev, s).
       Some (Inr (if dev = None then ATCA_GEN_FAIL else ATCA_SUCCESS, st\<lparr>lib := s, gDevice := dev\<rparr>)))) ?P"
    using x(1) by simp
qed

text \<open>
  What the test leaves: the library is again as the invariant says, whatever the chip did; a
  result of 0 comes with a serial number from a checked response, any other result with the
  device still allocated.
\<close>

definition serial_of :: "u8 list \<Rightarrow> u8 list" where
  "serial_of resp = take 4 (drop 1 resp) @ take 5 (drop 9 resp)"

lemma serial_answers:
  assumes "lib_inv B base st" "gDevice st \<noteq> None"
  shows "answers (atcab_read_serial_number st) (\<lambda>(status, sn, st').
    lib_inv B base st' \<and> gDevice st' \<noteq> None \<and> SerialNum st' = SerialNum st \<and>
    (case sn of None \<Rightarrow> status \<noteq> ATCA_SUCCESS
     | Some d \<Rightarrow> status = ATCA_SUCCESS \<and> (\<exists>resp. checked resp \<and> d = serial_of resp)))"
    (is "answers _ ?P")
proof -
  obtain dev where dev: "gDevice st = Some dev" "mIface dev = i2c_iface B cfg_ateccx08a_i2c_default (Some 0)"
    and up: "layer_up base (lib st)" and sk: "stack_ok st"
    using assms by (auto simp: lib_inv_def)
  have cut: "take 4 (take 32 (drop 1 resp)) @ take 5 (drop 8 (take 32 (drop 1 resp))) = serial_of resp" for resp :: "u8 list"
    by (simp add: serial_of_def drop_take)
  have 32: "unat ATCA_BLOCK_SIZE = 32" by (simp add: ATCA_BLOCK_SIZE_def)
  have inv: "bus_up cfg_ateccx08a_i2c_default (lib st) \<and> layer_same (lib st) (lib st)"
    using layer_up_bus [OF up] by simp
  show ?thesis
    unfolding atcab_read_serial_number_def
  proof (rule answers_then [OF i2c.read_zone_answers [OF inv dev sk]], clarify)
    fix status buf st'
    assume st': "same_device st st'" "layer_same (lib st) (lib st')"
      "case buf of None \<Rightarrow> status \<noteq> ATCA_SUCCESS
       | Some d \<Rightarrow> status = ATCA_SUCCESS \<and> (\<exists>resp. checked resp \<and> d = take (unat ATCA_BLOCK_SIZE) (drop 1 resp))"
    have "lib_inv B base st'" using st'(1) layer_same_keeps(1) [OF st'(2), of base] up dev sk
      by (auto simp: lib_inv_def same_device_def)
    then show "answers (Some (Inr (status, map_option (\<lambda>buf. take 4 buf @ take 5 (drop 8 buf)) buf, st'))) ?P"
      using st'(1,3) dev(1) by (auto simp: answers_def same_device_def 32 cut [simplified] split: option.splits)
  qed
qed

lemma at508_answers:
  assumes "lib_inv B base st"
  shows "answers (at508_test B st) (\<lambda>(ret, st'). lib_inv B base st' \<and>
    (if ret = 0 then gDevice st' = None \<and> (\<exists>resp. checked resp \<and> SerialNum st' = serial_of resp)
     else gDevice st' \<noteq> None \<and> SerialNum st' = SerialNum st))"
    (is "answers _ ?P")
proof -
  have keep: "lib_inv B base (st1\<lparr>SerialNum := sn\<rparr>) = lib_inv B base st1" for st1 sn
    by (cases "gDevice st1") (simp_all add: lib_inv_def stack_ok_def)
  have fin: "answers (if_runs (if status \<noteq> ATCA_SUCCESS then Some (Inr (status, sn, st2))
       else if_runs (atcab_release B st2) (\<lambda>(_, st). Some (Inr (status, sn, st)))) (\<lambda>(status, sernum, st).
       Some (Inr (status_code status, case sernum of None \<Rightarrow> st | Some sn \<Rightarrow> st\<lparr>SerialNum := sn\<rparr>)))) ?P"
    if st2: "lib_inv B base st2" "gDevice st2 \<noteq> None" "SerialNum st2 = SerialNum st"
      and sn: "case sn of None \<Rightarrow> status \<noteq> ATCA_SUCCESS
        | Some d \<Rightarrow> status = ATCA_SUCCESS \<and> (\<exists>resp. checked resp \<and> d = serial_of resp)" for status sn st2
  proof (cases sn)
    case None
    then show ?thesis using st2 sn by (simp add: answers_def)
  next
    case (Some d)
    have "answers (if_runs (atcab_release B st2) (\<lambda>(_, st). Some (Inr (0, st\<lparr>SerialNum := d\<rparr>)))) ?P"
      by (rule answers_bind [OF release_ends [OF st2(1,2)]]) (use sn Some keep in \<open>auto simp: answers_def\<close>)
    moreover have "status = ATCA_SUCCESS" using sn Some by simp
    ultimately show ?thesis using Some by (simp add: if_runs_assoc case_prod_unfold)
  qed
  show ?thesis
    unfolding at508_test_def at508_get_sernum_def if_runs_assoc
  proof (rule answers_bind [OF init_ends [OF assms]], clarify, unfold if_runs_assoc)
    fix st1 dev assume 1: "lib_inv B base st1" "gDevice st1 = Some dev" "SerialNum st1 = SerialNum st"
    then have d: "gDevice st1 \<noteq> None" by simp
    show "answers (if_runs (atcab_read_serial_number st1) (\<lambda>x. if_runs (case x of (status, sernum, st) \<Rightarrow>
       if status \<noteq> ATCA_SUCCESS then Some (Inr (status, sernum, st))
       else if_runs (atcab_release B st) (\<lambda>(_, st). Some (Inr (status, sernum, st)))) (\<lambda>(status, sernum, st).
       Some (Inr (status_code status, case sernum of None \<Rightarrow> st | Some sn \<Rightarrow> st\<lparr>SerialNum := sn\<rparr>))))) ?P"
    proof (rule answers_then [OF serial_answers [OF 1(1) d]], unfold split_paired_all prod.case)
      fix status sn st2
      assume "lib_inv B base st2 \<and> gDevice st2 \<noteq> None \<and> SerialNum st2 = SerialNum st1 \<and>
        (case sn of None \<Rightarrow> status \<noteq> ATCA_SUCCESS
         | Some d \<Rightarrow> status = ATCA_SUCCESS \<and> (\<exists>resp. checked resp \<and> d = serial_of resp))"
      then show "answers (if_runs (if status \<noteq> ATCA_SUCCESS then Some (Inr (status, sn, st2))
         else if_runs (atcab_release B st2) (\<lambda>(_, st). Some (Inr (status, sn, st)))) (\<lambda>(status, sernum, st).
         Some (Inr (status_code status, case sernum of None \<Rightarrow> st | Some sn \<Rightarrow> st\<lparr>SerialNum := sn\<rparr>)))) ?P"
        by (intro fin) (use 1(3) in auto)
    qed
  qed
qed

end
