(* ===== verification/AtcaChip.thy ===== *)
theory AtcaChip
  imports AtcaTest
begin

text \<open>
  Whole runs of the ECC test on a chip: a bus whose data line answers from a script of bits,
  and is pulled up when the script is over. With the bits of a chip that acknowledges and
  responds the test delivers its serial number; without a chip it fails.
\<close>

section \<open>A chip by its bits\<close>

definition chip_bus :: "bool list bus" where
  "chip_bus = \<lparr>in32 = (\<lambda>a h. if a = IN_REG
       then (case h of [] \<Rightarrow> (8, []) | b # bs \<Rightarrow> (if b then 8 else 0, bs)) else (0, h)),
     out32 = (\<lambda>a v h. h)\<rparr>"

lemma chip_quiet:
  assumes "i2c_ready s"
  shows "I2C_CLOCK_LOW chip_bus s = Some s" "I2C_CLOCK_HIGH chip_bus s = Some s"
    "I2C_DATA_LOW chip_bus s = Some s" "I2C_DATA_HIGH chip_bus s = Some s" "boe_i2c_safe chip_bus s = Some s"
    "on_gpio (\<lambda>g. XGpioPs_SetDirectionPin chip_bus g BOE_I2C_DAT BOE_OUTPUT) s = Some s"
    "on_gpio (\<lambda>g. XGpioPs_SetDirectionPin chip_bus g BOE_I2C_DAT BOE_INPUT) s = Some s"
    "on_gpio (\<lambda>g. XGpioPs_SetOutputEnablePin chip_bus g BOE_I2C_DAT 1) s = Some s"
  using assms by (simp_all add: line_writes chip_bus_def boe_i2c_safe_def i2c_ready_def [of s]
      dir_writes(1) [where b = True, simplified] dir_writes(1) [where b = False, simplified] dir_writes(2))

lemma chip_states:
  assumes "i2c_ready s"
  shows "I2C_SET_OUTPUT_HIGH chip_bus s = Some s" "I2C_SET_OUTPUT_LOW chip_bus s = Some s"
    "I2C_SET_INPUT chip_bus s = Some s" "i2c_send_start chip_bus s = Some s"
    "i2c_send_stop chip_bus s = Some s" "i2c_send_wake_token chip_bus s = Some s" "send_bits chip_bus n b s = Some s"
proof -
  show 1: "I2C_SET_OUTPUT_HIGH chip_bus s = Some s" "I2C_SET_OUTPUT_LOW chip_bus s = Some s"
    "I2C_SET_INPUT chip_bus s = Some s"
    using assms by (simp_all add: I2C_SET_OUTPUT_HIGH_def I2C_SET_OUTPUT_LOW_def I2C_SET_OUTPUT_def I2C_SET_INPUT_def chip_quiet)
  show "i2c_send_start chip_bus s = Some s" "i2c_send_stop chip_bus s = Some s" "i2c_send_wake_token chip_bus s = Some s"
    using assms by (simp_all add: i2c_send_start_def i2c_send_stop_def i2c_send_wake_token_def chip_quiet 1)
  show "send_bits chip_bus n b s = Some s"
    by (induction n arbitrary: b) (simp_all add: chip_quiet assms)
qed

lemma chip_data_in:
  assumes "i2c_ready s"
  shows "i2c_hw s = b # bits \<Longrightarrow> I2C_DATA_IN chip_bus s = Some (of_bool b, s\<lparr>i2c_hw := bits\<rparr>)"
    and "i2c_hw s = [] \<Longrightarrow> I2C_DATA_IN chip_bus s = Some (1, s)"
  using assms by (simp_all add: line_writes chip_bus_def)

text \<open>\<open>takes f x xs\<close>: the call reads the bits \<open>xs\<close> and returns \<open>x\<close>.\<close>

definition takes :: "(bool list i2c \<Rightarrow> ('a \<times> bool list i2c) option) \<Rightarrow> 'a \<Rightarrow> bool list \<Rightarrow> bool" where
  "takes f x xs \<longleftrightarrow> (\<forall>s bits. i2c_ready s \<longrightarrow> i2c_hw s = xs @ bits \<longrightarrow> f s = Some (x, s\<lparr>i2c_hw := bits\<rparr>))"

lemma send_byte_takes: "takes (i2c_send_byte chip_bus b) ATCA_SUCCESS [False]"
proof -
  have n: "I2C_ACK_TIMEOUT = Suc 299" by (simp add: I2C_ACK_TIMEOUT_def)
  have "poll_ack chip_bus I2C_ACK_TIMEOUT s = Some (ATCA_SUCCESS, s\<lparr>i2c_hw := bits\<rparr>)"
    if "i2c_ready s" "i2c_hw s = False # bits" for s bits
    unfolding n poll_ack.simps by (simp add: chip_data_in(1) [OF that])
  then show ?thesis unfolding takes_def i2c_send_byte_def
    by (auto simp: chip_states chip_quiet)
qed

lemma receive_bits_takes:
  "n \<le> 8 \<Longrightarrow> (\<And>j. bit b j \<Longrightarrow> bit v j) \<Longrightarrow> (\<And>j. j \<ge> n \<Longrightarrow> bit v j = bit b j) \<Longrightarrow> (\<And>j. j < n \<Longrightarrow> \<not> bit b j) \<Longrightarrow>
   takes (receive_bits chip_bus (mask_at n) b) v (map (bit v) (rev [0..<n]))"
proof (induction n arbitrary: b)
  case 0
  have "v = b" by (rule bit_word_eqI) (use 0 in auto)
  then show ?case by (auto simp: takes_def receive_bits.simps mask_at_def)
next
  case (Suc n)
  let ?m = "mask_at (Suc n)" and ?b = "if bit v n then b OR mask_at (Suc n) else b"
  have n: "n < 8" using Suc.prems by simp
  have b: "bit ?b j \<longleftrightarrow> (if j = n then bit v n else bit b j)" for j
    using Suc.prems(4) [of n] bit_or_mask [OF n, of b j] by auto
  have IH: "takes (receive_bits chip_bus (mask_at n) ?b) v (map (bit v) (rev [0..<n]))"
  proof (rule Suc.IH)
    show "bit v j" if "bit ?b j" for j using that Suc.prems(2) unfolding b by (cases "j = n") auto
    show "bit v j = bit ?b j" if "n \<le> j" for j using that Suc.prems(3) unfolding b by (cases "j = n") auto
    show "\<not> bit ?b j" if "j < n" for j using that Suc.prems(4) unfolding b by auto
  qed (use n in simp)
  show ?case
    unfolding takes_def
  proof (intro allI impI)
    fix s :: "bool list i2c" and bits
    assume r: "i2c_ready s" and h: "i2c_hw s = map (bit v) (rev [0..<Suc n]) @ bits"
    let ?s = "s\<lparr>i2c_hw := map (bit v) (rev [0..<n]) @ bits\<rparr>"
    have "i2c_hw s = bit v n # (map (bit v) (rev [0..<n]) @ bits)" using h by simp
    note d = chip_data_in(1) [OF r this]
    have "receive_bits chip_bus ?m b s = receive_bits chip_bus (mask_at n) ?b ?s"
      by (subst receive_bits.simps)
        (simp add: mask_at_pos [OF n] mask_at_step [OF n, unfolded One_nat_def] chip_quiet r d)
    then show "receive_bits chip_bus ?m b s = Some (v, s\<lparr>i2c_hw := bits\<rparr>)"
      using IH r unfolding takes_def by simp
  qed
qed

definition bits_in :: "u8 \<Rightarrow> u8 \<Rightarrow> bool list" where
  "bits_in ack v = byte_bits v @ [ack = 0]"

lemma receive_byte_takes: "takes (i2c_receive_one_byte chip_bus ack) v (bits_in ack v)"
  unfolding takes_def
proof (intro allI impI)
  fix s :: "bool list i2c" and bits
  assume r: "i2c_ready s" and h: "i2c_hw s = bits_in ack v @ bits"
  have m: "mask_at 8 = 0x80" by (simp add: mask_at_def)
  have "takes (receive_bits chip_bus (mask_at 8) 0) v (map (bit v) (rev [0..<8]))"
  proof (rule receive_bits_takes)
    show "bit v j = bit (0 :: u8) j" if "8 \<le> j" for j
      using that bit_imp_le_length [of v j] by auto
  qed simp_all
  moreover have "map (bit v) (rev [0..<8]) = byte_bits v" by (simp add: byte_bits_def upt_rec numeral_eq_Suc)
  ultimately have "receive_bits chip_bus 0x80 0 s = Some (v, s\<lparr>i2c_hw := (ack = 0) # bits\<rparr>)"
    using r h unfolding takes_def m by (simp add: bits_in_def)
  moreover have "line_wait chip_bus (ack = 0) (s\<lparr>i2c_hw := (ack = 0) # bits\<rparr>) = Some (s\<lparr>i2c_hw := bits\<rparr>)"
    using r chip_data_in(1) [of "s\<lparr>i2c_hw := (ack = 0) # bits\<rparr>" "ack = 0" bits]
    by (subst line_wait.simps) simp
  ultimately show "i2c_receive_one_byte chip_bus ack s = Some (v, s\<lparr>i2c_hw := bits\<rparr>)"
    using r by (cases "ack = 0") (simp_all add: i2c_receive_one_byte_def i2c_send_ack_def chip_quiet chip_states)
qed

lemma takes_bind:
  assumes "takes f x xs" "takes (g x) y ys"
  shows "takes (\<lambda>s. Option.bind (f s) (\<lambda>(x, s). g x s)) y (xs @ ys)"
  unfolding takes_def
proof (intro allI impI)
  fix s :: "bool list i2c" and bits
  assume r: "i2c_ready s" "i2c_hw s = (xs @ ys) @ bits"
  then have "f s = Some (x, s\<lparr>i2c_hw := ys @ bits\<rparr>)" using assms(1) by (simp add: takes_def)
  moreover have "g x (s\<lparr>i2c_hw := ys @ bits\<rparr>) = Some (y, s\<lparr>i2c_hw := bits\<rparr>)"
    using assms(2) r(1) unfolding takes_def by (metis i2c_ready_hw i2c.select_convs(5) i2c.update_convs(5) i2c.surjective)
  ultimately show "Option.bind (f s) (\<lambda>(x, s). g x s) = Some (y, s\<lparr>i2c_hw := bits\<rparr>)" by simp
qed

lemma takes_return: "takes (\<lambda>s. Some (x, s)) x []"
  by (simp add: takes_def)

lemma receive_acked_takes: "takes (receive_acked chip_bus (length bs)) bs (concat (map (bits_in 1) bs))"
proof (induction bs)
  case Nil
  have "receive_acked chip_bus 0 = (\<lambda>s. Some ([], s))" by (rule ext) simp
  then show ?case by (simp add: takes_return)
next
  case (Cons b bs)
  have "takes (\<lambda>s. Option.bind (i2c_receive_one_byte chip_bus 1 s) (\<lambda>(b, s).
      Option.bind (receive_acked chip_bus (length bs) s) (\<lambda>(bs, s). Some (b # bs, s))))
    (b # bs) (bits_in 1 b @ concat (map (bits_in 1) bs) @ [])"
    by (rule takes_bind [OF receive_byte_takes takes_bind [OF Cons takes_return]])
  moreover have "receive_acked chip_bus (length (b # bs)) = (\<lambda>s. Option.bind (i2c_receive_one_byte chip_bus 1 s) (\<lambda>(b, s).
      Option.bind (receive_acked chip_bus (length bs) s) (\<lambda>(bs, s). Some (b # bs, s))))"
    by (rule ext) simp
  ultimately show ?case by simp
qed

definition bytes_in :: "u8 list \<Rightarrow> bool list" where
  "bytes_in bs = concat (map (bits_in 1) (butlast bs)) @ bits_in 0 (last bs)"

lemma receive_bytes_takes:
  assumes "bs \<noteq> []" "unat count = length bs"
  shows "takes (i2c_receive_bytes chip_bus count) bs (bytes_in bs)"
proof -
  have "count \<noteq> 0" using assms by auto
  then have "unat (count - 1) = length (butlast bs)" using assms by (simp add: unat_minus_one)
  note acked = receive_acked_takes [of "butlast bs", folded this]
  have stop: "takes (\<lambda>s. Option.bind (i2c_send_stop chip_bus s) (\<lambda>s. Some (bs, s))) bs []"
    unfolding takes_def by (simp add: chip_states)
  have "takes (\<lambda>s. Option.bind (receive_acked chip_bus (unat (count - 1)) s) (\<lambda>(bs, s).
      Option.bind (i2c_receive_one_byte chip_bus 0 s) (\<lambda>(b, s).
      Option.bind (i2c_send_stop chip_bus s) (\<lambda>s. Some (bs @ [b], s)))))
    bs (concat (map (bits_in 1) (butlast bs)) @ bits_in 0 (last bs) @ [])"
    by (rule takes_bind [OF acked takes_bind [OF receive_byte_takes]]) (use stop assms(1) in simp)
  then show ?thesis by (simp add: i2c_receive_bytes_def [abs_def] bytes_in_def)
qed

section \<open>Calls of the layer on the chip\<close>

definition on_chip :: "ATCAIfaceCfg \<Rightarrow> bool list \<Rightarrow> bool list atca \<Rightarrow> bool" where
  "on_chip cfg bits st \<longleftrightarrow> bus_up cfg st \<and> i2c_ready (i2c_st st) \<and> i2c_hw (i2c_st st) = bits"

definition chip_run :: "ATCAIfaceCfg \<Rightarrow> (bool list atca \<Rightarrow> 'r run) \<Rightarrow> (bool list atca \<Rightarrow> 'r) \<Rightarrow> bool list \<Rightarrow> bool" where
  "chip_run cfg M mk xs \<longleftrightarrow> (\<forall>st bits. on_chip cfg (xs @ bits) st \<longrightarrow>
     (\<exists>st'. M st = Some (Inr (mk st')) \<and> on_chip cfg bits st' \<and> layer_same st st'))"

lemma chip_run_bind:
  assumes "chip_run cfg M mk xs" "chip_run cfg (\<lambda>st. k (mk st)) mk' ys"
  shows "chip_run cfg (\<lambda>st. if_runs (M st) k) mk' (xs @ ys)"
  unfolding chip_run_def
proof (intro allI impI)
  fix st bits assume "on_chip cfg ((xs @ ys) @ bits) st"
  then obtain st1 where 1: "M st = Some (Inr (mk st1))" "on_chip cfg (ys @ bits) st1" "layer_same st st1"
    using assms(1) unfolding chip_run_def by (metis append_assoc)
  from 1(2) obtain st2 where "k (mk st1) = Some (Inr (mk' st2))" "on_chip cfg bits st2" "layer_same st1 st2"
    using assms(2) unfolding chip_run_def by blast
  then show "\<exists>st'. if_runs (M st) k = Some (Inr (mk' st')) \<and> on_chip cfg bits st' \<and> layer_same st st'"
    using 1 layer_same_trans by fastforce
qed

lemma chip_run_then: "chip_run cfg M mk [] \<Longrightarrow> chip_run cfg (\<lambda>st. k (mk st)) mk' ys \<Longrightarrow> chip_run cfg (\<lambda>st. if_runs (M st) k) mk' ys"
  using chip_run_bind by fastforce

lemma chip_run_last: "chip_run cfg M mk xs \<Longrightarrow> chip_run cfg (\<lambda>st. k (mk st)) mk' [] \<Longrightarrow> chip_run cfg (\<lambda>st. if_runs (M st) k) mk' xs"
  using chip_run_bind by fastforce

lemma chip_run_return: "chip_run cfg (\<lambda>st. Some (Inr (mk st))) mk []"
  by (auto simp: chip_run_def)

lemma chip_run_op: "(\<And>s. i2c_ready s \<Longrightarrow> f s = Some s) \<Longrightarrow> chip_run cfg (i2c_op f) (\<lambda>st. st) []"
  by (auto simp: chip_run_def on_chip_def i2c_op_def bus_up_def)

lemma chip_run_val: "takes f x xs \<Longrightarrow> chip_run cfg (i2c_val f) (\<lambda>st. (x, st)) xs"
  unfolding chip_run_def
  by (auto simp: takes_def on_chip_def i2c_val_def bus_up_def intro!: exI)

lemma chip_run_pins: "chip_run cfg (set_bus_pins chip_bus (unat (cfg_bus cfg))) (\<lambda>st. st) []"
proof -
  have "\<exists>st'. set_bus_pins chip_bus (unat (cfg_bus cfg)) st = Some (Inr st') \<and> on_chip cfg bits st' \<and> layer_same st st'"
    if "on_chip cfg bits st" for bits st
    using that by (auto simp: on_chip_def bus_up_def set_bus_pins_def i2c_op_def set_pin_ready i2c_ready_def)
  then show ?thesis by (simp add: chip_run_def)
qed

lemma chip_ops:
  "chip_run cfg (i2c_op (i2c_send_start chip_bus)) (\<lambda>st. st) []"
  "chip_run cfg (i2c_op (i2c_send_stop chip_bus)) (\<lambda>st. st) []"
  "chip_run cfg (i2c_op (i2c_send_wake_token chip_bus)) (\<lambda>st. st) []"
  by (rule chip_run_op, simp add: chip_states)+

lemma address_chip:
  "chip_run cfg (hal_i2c_send_slave_address chip_bus cfg RorW) (\<lambda>st. (ATCA_SUCCESS, st)) [False]"
  unfolding hal_i2c_send_slave_address_def
  by (rule chip_run_then [OF chip_ops(1)], rule chip_run_last [OF chip_run_val [OF send_byte_takes]])
    (simp add: chip_run_return)

lemma frame_chip:
  assumes "4 \<le> length resp" "length resp \<le> unat n" "unat n \<le> length rx" "length resp < 256" "hd resp = of_nat (length resp)"
  shows "chip_run cfg (receive_frame chip_bus n rx) (\<lambda>st. (False, resp @ drop (length resp) rx, st))
    (bits_in 1 (hd resp) @ bytes_in (tl resp))"
proof -
  obtain c bs where r: "resp = c # bs" using assms(1) by (cases resp) auto
  have "unat (of_nat (length resp) :: u8) = length resp"
    using assms(4) by (simp only: unat_of_nat) simp
  then have c: "unat c = length resp" using assms(5) r by simp
  have c1: "unat (c - 1) = length bs" using c r by (subst unat_minus_one) auto
  have bs: "bs \<noteq> []" using assms(1) r by auto
  have ok: "\<not> (c < ucast ATCA_RSP_SIZE_MIN \<or> ucast c > n)"
    using assms(1,2) c by (simp add: ATCA_RSP_SIZE_MIN_def word_less_nat_alt unat_count)
  have fits: "1 + length bs \<le> length (rx[0 := c])" and ne: "rx \<noteq> []" using assms r by auto
  have mem: "memcpy_at 1 bs (rx[0 := c]) = resp @ drop (length resp) rx"
    using ne r assms by (cases rx) (simp_all add: memcpy_at_def)
  have "chip_run cfg (\<lambda>st. if_runs (i2c_val (i2c_receive_bytes chip_bus (c - 1)) st) (\<lambda>(bs, st).
      if 1 + length bs \<le> length (rx[0 := c]) then Some (Inr (False, memcpy_at 1 bs (rx[0 := c]), st))
      else Some (Inl OutOfBounds))) (\<lambda>st. (False, resp @ drop (length resp) rx, st)) (bytes_in bs)"
    by (rule chip_run_last [OF chip_run_val [OF receive_bytes_takes [OF bs c1]]])
      (use fits mem in \<open>simp add: chip_run_return\<close>)
  then have "chip_run cfg (\<lambda>st. (\<lambda>(count, st).
       if rx = [] then Some (Inl OutOfBounds)
       else
         let rxdata = rx[0 := count]
         in if count < ucast ATCA_RSP_SIZE_MIN \<or> ucast count > n
            then if_runs (i2c_op (i2c_send_stop chip_bus) st) (\<lambda>st. Some (Inr (True, rxdata, st)))
            else if_runs (i2c_val (i2c_receive_bytes chip_bus (count - 1)) st) (\<lambda>(bs, st).
              if 1 + length bs \<le> length rxdata then Some (Inr (False, memcpy_at 1 bs rxdata, st))
              else Some (Inl OutOfBounds))) (c, st)) (\<lambda>st. (False, resp @ drop (length resp) rx, st)) (bytes_in bs)"
    using ne ok by (simp add: Let_def)
  from chip_run_bind [OF chip_run_val [OF receive_byte_takes [of 1 c, folded i2c_receive_byte_def]] this]
  show ?thesis unfolding receive_frame_def r by simp
qed

definition frame_bits :: "u8 list \<Rightarrow> bool list" where
  "frame_bits resp = False # bits_in 1 (hd resp) @ bytes_in (tl resp)"

lemma receive_chip:
  assumes "4 \<le> length resp" "length resp \<le> unat n" "unat n \<le> length rx" "length resp < 256"
    "hd resp = of_nat (length resp)" "0 < rx_retries cfg"
  shows "chip_run cfg (hal_i2c_receive chip_bus cfg rx n) (\<lambda>st. (ATCA_SUCCESS, resp @ drop (length resp) rx, st))
    (frame_bits resp)"
proof -
  obtain k where k: "nat (rx_retries cfg) = Suc k" using assms(6) by (cases "nat (rx_retries cfg)") auto
  have fin: "receive_tries chip_bus cfg n k ATCA_SUCCESS rx' st = Some (Inr (ATCA_SUCCESS, rx', st))" for rx' st
    by (cases k) simp_all
  have frame: "chip_run cfg (\<lambda>st. if_runs (receive_frame chip_bus n rx st) (\<lambda>(bad_size, rxdata, st).
      if bad_size then Some (Inr (ATCA_INVALID_SIZE, rxdata, st))
      else receive_tries chip_bus cfg n k ATCA_SUCCESS rxdata st))
      (\<lambda>st. (ATCA_SUCCESS, resp @ drop (length resp) rx, st)) (bits_in 1 (hd resp) @ bytes_in (tl resp))"
    by (rule chip_run_last [OF frame_chip [OF assms(1-5)]]) (simp add: fin chip_run_return)
  have "chip_run cfg (receive_tries chip_bus cfg n (Suc k) ATCA_RX_TIMEOUT rx)
      (\<lambda>st. (ATCA_SUCCESS, resp @ drop (length resp) rx, st)) (frame_bits resp)"
  proof -
    have e: "receive_tries chip_bus cfg n (Suc k) ATCA_RX_TIMEOUT rx = (\<lambda>st.
      if_runs (hal_i2c_send_slave_address chip_bus cfg I2C_READ st) (\<lambda>(status, st).
        if status = ATCA_SUCCESS
        then if_runs (receive_frame chip_bus n rx st) (\<lambda>(bad_size, rxdata, st).
          if bad_size then Some (Inr (ATCA_INVALID_SIZE, rxdata, st))
          else receive_tries chip_bus cfg n k status rxdata st)
        else receive_tries chip_bus cfg n k status rx st))"
      by (rule ext) simp
    have "chip_run cfg (receive_tries chip_bus cfg n (Suc k) ATCA_RX_TIMEOUT rx)
        (\<lambda>st. (ATCA_SUCCESS, resp @ drop (length resp) rx, st)) ([False] @ bits_in 1 (hd resp) @ bytes_in (tl resp))"
      unfolding e by (rule chip_run_bind [OF address_chip]) (use frame in simp)
    then show ?thesis by (simp add: frame_bits_def)
  qed
  then have "chip_run cfg (\<lambda>st. if_runs (receive_tries chip_bus cfg n (nat (rx_retries cfg)) ATCA_RX_TIMEOUT rx st)
      (\<lambda>(status, rxdata, st). Some (Inr (if status = ATCA_TX_TIMEOUT then ATCA_RX_NO_RESPONSE else status, rxdata, st))))
      (\<lambda>st. (ATCA_SUCCESS, resp @ drop (length resp) rx, st)) (frame_bits resp)"
    unfolding k by (rule chip_run_last) (simp add: chip_run_return)
  then show ?thesis
    unfolding hal_i2c_receive_def by (rule chip_run_then [OF chip_run_pins])
qed

lemma wake_chip:
  assumes "0 < rx_retries cfg"
  shows "chip_run cfg (hal_i2c_wake chip_bus cfg) (\<lambda>st. (ATCA_SUCCESS, st)) (frame_bits WAKE_RESPONSE)"
proof -
  have "chip_run cfg (hal_i2c_receive chip_bus cfg [0, 0, 0, 0] 4) (\<lambda>st. (ATCA_SUCCESS, WAKE_RESPONSE, st)) (frame_bits WAKE_RESPONSE)"
    using receive_chip [of WAKE_RESPONSE 4 "[0, 0, 0, 0]" cfg] assms by (simp add: WAKE_RESPONSE_def)
  then show ?thesis unfolding hal_i2c_wake_def
    by (intro chip_run_then [OF chip_run_pins] chip_run_then [OF chip_ops(3)], elim chip_run_last) (simp add: chip_run_return)
qed

lemma send_bytes_chip:
  "i + n \<le> length data \<Longrightarrow> (n = 0 \<Longrightarrow> status = ATCA_SUCCESS) \<Longrightarrow>
   chip_run cfg (i2c_run (send_bytes_from chip_bus data i n status)) (\<lambda>st. (ATCA_SUCCESS, st)) (replicate n False)"
proof (induction n arbitrary: i status)
  case 0
  then have e: "i2c_run (send_bytes_from chip_bus data i 0 status) = (\<lambda>st. Some (Inr (ATCA_SUCCESS, st)))"
    by (auto simp: i2c_run_def)
  show ?case unfolding e by (simp add: chip_run_return)
next
  case (Suc n)
  have i: "i < length data" using Suc.prems by simp
  have e: "i2c_run (send_bytes_from chip_bus data i (Suc n) status) = (\<lambda>st.
      if_runs (i2c_val (i2c_send_byte chip_bus (data ! i)) st) (\<lambda>(status, st).
       if status \<noteq> ATCA_SUCCESS then Some (Inr (if i > 0 then ATCA_TX_FAIL else status, st))
       else i2c_run (send_bytes_from chip_bus data (Suc i) n status) st))"
    by (rule ext) (simp only: send_bytes_step [OF i])
  have IH: "chip_run cfg (i2c_run (send_bytes_from chip_bus data (Suc i) n ATCA_SUCCESS)) (\<lambda>st. (ATCA_SUCCESS, st)) (replicate n False)"
    by (rule Suc.IH) (use Suc.prems in simp_all)
  show ?case unfolding e
    using chip_run_bind [OF chip_run_val [OF send_byte_takes [of "data ! i"]], of cfg "\<lambda>(status, st).
       if status \<noteq> ATCA_SUCCESS then Some (Inr (if i > 0 then ATCA_TX_FAIL else status, st))
       else i2c_run (send_bytes_from chip_bus data (Suc i) n status) st"] IH by simp
qed

lemma send_chip:
  assumes "tx \<noteq> []" "0 \<le> n" "n < 255" "n < int (length tx)"
  shows "chip_run cfg (hal_i2c_send chip_bus cfg tx n) (\<lambda>st. (ATCA_SUCCESS, tx[0 := 3], st)) (replicate (nat n + 2) False)"
proof -
  let ?tx = "tx[0 := 3]"
  have "0 + Suc (nat n) \<le> length ?tx" using assms by simp
  from send_bytes_chip [OF this, of ATCA_TX_TIMEOUT cfg]
  have "chip_run cfg (i2c_run (i2c_send_bytes chip_bus (of_int (n + 1)) ?tx)) (\<lambda>st. (ATCA_SUCCESS, st)) (replicate (Suc (nat n)) False)"
    unfolding i2c_send_bytes_def unat_length [OF assms(2,3)] by simp
  then have 1: "chip_run cfg (\<lambda>st. if_runs (i2c_run (i2c_send_bytes chip_bus (of_int (n + 1)) ?tx) st) (\<lambda>(status, st).
      if_runs (i2c_op (i2c_send_stop chip_bus) st) (\<lambda>st. Some (Inr (status, ?tx, st)))))
      (\<lambda>st. (ATCA_SUCCESS, ?tx, st)) (replicate (Suc (nat n)) False)"
    by (rule chip_run_last) (simp, rule chip_run_then [OF chip_ops(2)], rule chip_run_return)
  have "chip_run cfg (\<lambda>st. if_runs (hal_i2c_send_slave_address chip_bus cfg I2C_WRITE st) (\<lambda>(status, st).
           if_runs (if status \<noteq> ATCA_SUCCESS then Some (Inr (status, st))
                    else i2c_run (i2c_send_bytes chip_bus (of_int (n + 1)) ?tx) st) (\<lambda>(status, st).
           if_runs (i2c_op (i2c_send_stop chip_bus) st) (\<lambda>st. Some (Inr (status, ?tx, st))))))
      (\<lambda>st. (ATCA_SUCCESS, ?tx, st)) ([False] @ replicate (Suc (nat n)) False)"
    by (rule chip_run_bind [OF address_chip]) (use 1 in simp)
  then have "chip_run cfg (\<lambda>st. if_runs (set_bus_pins chip_bus (unat (cfg_bus cfg)) st) (\<lambda>st.
           if_runs (hal_i2c_send_slave_address chip_bus cfg I2C_WRITE st) (\<lambda>(status, st).
           if_runs (if status \<noteq> ATCA_SUCCESS then Some (Inr (status, st))
                    else i2c_run (i2c_send_bytes chip_bus (of_int (n + 1)) ?tx) st) (\<lambda>(status, st).
           if_runs (i2c_op (i2c_send_stop chip_bus) st) (\<lambda>st. Some (Inr (status, ?tx, st)))))))
      (\<lambda>st. (ATCA_SUCCESS, ?tx, st)) ([False] @ replicate (Suc (nat n)) False)"
    by (rule chip_run_then [OF chip_run_pins])
  then show ?thesis using assms(1) by (simp add: hal_i2c_send_def [abs_def] Let_def)
qed

lemma idle_chip: "chip_run cfg (hal_i2c_idle chip_bus cfg) (\<lambda>st. (ATCA_SUCCESS, st)) [False, False]"
proof -
  have "chip_run cfg (\<lambda>st. if_runs (i2c_val (i2c_send_byte chip_bus 2) st) (\<lambda>(status, st).
      if_runs (i2c_op (i2c_send_stop chip_bus) st) (\<lambda>st. Some (Inr (status, st))))) (\<lambda>st. (ATCA_SUCCESS, st)) [False]"
    by (rule chip_run_last [OF chip_run_val [OF send_byte_takes]]) (simp, rule chip_run_then [OF chip_ops(2)], rule chip_run_return)
  then have "chip_run cfg (\<lambda>st. if_runs (hal_i2c_send_slave_address chip_bus cfg I2C_WRITE st) (\<lambda>(status, st).
       if status = ATCA_SUCCESS
       then if_runs (i2c_val (i2c_send_byte chip_bus 2) st) (\<lambda>(status, st).
            if_runs (i2c_op (i2c_send_stop chip_bus) st) (\<lambda>st. Some (Inr (status, st))))
       else Some (Inr (status, st)))) (\<lambda>st. (ATCA_SUCCESS, st)) ([False] @ [False])"
    by (intro chip_run_bind [OF address_chip]) simp
  then show ?thesis unfolding hal_i2c_idle_def send_word_address_def [abs_def]
    by (intro chip_run_then [OF chip_run_pins]) simp
qed

section \<open>The test on the chip\<close>

lemma scl_quiet:
  assumes "i2c_ready s"
  shows "on_gpio (\<lambda>g. XGpioPs_SetDirectionPin chip_bus g BOE_I2C_SCL BOE_OUTPUT) s = Some s"
    "on_gpio (\<lambda>g. XGpioPs_SetDirectionPin chip_bus g BOE_I2C_SCL BOE_INPUT) s = Some s"
    "on_gpio (\<lambda>g. XGpioPs_SetOutputEnablePin chip_bus g BOE_I2C_SCL 1) s = Some s"
proof -
  have r: "pin_ok (i2cGpio s) 28" "ps_BaseAddr (i2cGpio s) = 0xFF0A0000"
    using assms ps_ready_pin by (simp_all add: i2c_ready_def ps_ready_def)
  have u: "update_pin chip_bus (i2cGpio s) XGPIOPS_DIRM_OFFSET 28 v h = h"
    "update_pin chip_bus (i2cGpio s) XGPIOPS_OUTEN_OFFSET 28 v h = h" for v h
    unfolding update_pin_def XGpioPs_ReadReg_def XGpioPs_WriteReg_def Let_def
    by (simp_all add: i2c_pins r line_regs [simplified] chip_bus_def split_def)
  show "on_gpio (\<lambda>g. XGpioPs_SetDirectionPin chip_bus g BOE_I2C_SCL BOE_OUTPUT) s = Some s"
    "on_gpio (\<lambda>g. XGpioPs_SetDirectionPin chip_bus g BOE_I2C_SCL BOE_INPUT) s = Some s"
    "on_gpio (\<lambda>g. XGpioPs_SetOutputEnablePin chip_bus g BOE_I2C_SCL 1) s = Some s"
    unfolding on_gpio_def XGpioPs_SetDirectionPin_def XGpioPs_SetOutputEnablePin_def BOE_I2C_SCL_def
      BOE_OUTPUT_def BOE_INPUT_def
    using r by (simp_all add: u)
qed

lemma enable_quiet:
  assumes "i2c_ready s"
  shows "i2c_enable chip_bus s = Some s" "i2c_disable chip_bus s = Some s"
    "i2c_set_pin chip_bus a c s = Some (s\<lparr>pin_sda := a, pin_scl := c\<rparr>)"
  using assms by (simp_all add: i2c_enable_def i2c_disable_def I2C_ENABLE_def I2C_DISABLE_def chip_quiet scl_quiet set_pin_ready)

text \<open>Setting the device up and releasing it return, and read no bit.\<close>

definition still :: "bool list atca \<Rightarrow> bool list atca \<Rightarrow> bool" where
  "still s s' \<longleftrightarrow> i2c_ready (i2c_st s') \<and> i2c_hw (i2c_st s') = i2c_hw (i2c_st s)"

lemma still_free: "still s (free_block s') = still s s'"
  by (simp add: still_def free_block_def)

lemma new_device_still:
  assumes "layer_down base s" "i2c_ready (i2c_st s)"
  shows "\<exists>d s'. newATCADevice chip_bus (Some cfg_ateccx08a_i2c_default) s = Some (Inr (d, s')) \<and> still s s'"
proof -
  let ?cfg = cfg_ateccx08a_i2c_default
  have m: "\<exists>s'. malloc_ok s = (True, s') \<and> layer_down (n + 1) s' \<and> i2c_ready (i2c_st s') \<and> still s0 s'"
    if "layer_down n s" "i2c_ready (i2c_st s)" "still s0 s" for s0 s :: "bool list atca" and n
    using that by (auto simp: malloc_ok_def layer_down_def heap_ok_def still_def split: list.splits)
  have s0: "still s s" using assms(2) by (simp add: still_def)
  obtain s1 where 1: "malloc_ok s = (True, s1)" "layer_down (base + 1) s1" "i2c_ready (i2c_st s1)" "still s s1"
    using m [OF assms s0] by blast
  obtain s2 where 2: "malloc_ok s1 = (True, s2)" "layer_down (base + 1 + 1) s2" "i2c_ready (i2c_st s2)" "still s s2"
    using m [OF 1(2-4)] by blast
  obtain s3 where 3: "malloc_ok s2 = (True, s3)" "layer_down (base + 1 + 1 + 1) s3" "i2c_ready (i2c_st s3)" "still s s3"
    using m [OF 2(2-4)] by blast
  let ?s3 = "s3\<lparr>i2c_hal_data := [None], i2c_bus_ref_ct := 1\<rparr>"
  have "\<exists>s4. malloc_ok ?s3 = (True, s4) \<and> i2c_hal_data s4 = [None] \<and> i2c_ready (i2c_st s4) \<and> still s s4"
    using 3 by (auto simp: malloc_ok_def layer_down_def heap_ok_def still_def split: list.splits)
  then obtain s4 where 4: "malloc_ok ?s3 = (True, s4)" "i2c_hal_data s4 = [None]" "i2c_ready (i2c_st s4)" "still s s4" by blast
  have r4: "i2c_ready (i2c_st s4\<lparr>pin_sda := a, pin_scl := c\<rparr>)" for a c using 4(3) by (simp add: i2c_ready_def)
  have "\<exists>s5. hal_i2c_init chip_bus ?cfg s3 = Some (Inr (ATCA_SUCCESS, Some 0, s5)) \<and> still s s5"
    using 4 3(2) r4 by (simp add: hal_i2c_init_def cfg_ateccx08a_i2c_default_def i2c_consts i2c_buses_default_def Let_def
        layer_down_def i2c_op_def enable_quiet still_def)
  then obtain s5 where 5: "hal_i2c_init chip_bus ?cfg s3 = Some (Inr (ATCA_SUCCESS, Some 0, s5))" "still s s5" by blast
  have "newATCAIface chip_bus ?cfg s2 = Some (Inr (Some (i2c_iface chip_bus ?cfg (Some 0)), s5))"
    by (simp add: newATCAIface_def 3(1) atinit_def i2c_pointers 5(1) i2c_iface_def)
  then show ?thesis using 5(2) by (simp add: newATCADevice_def 1(1) newATCACommand_def 2(1))
qed

lemma release_still:
  assumes "lib_inv chip_bus base st" "i2c_ready (i2c_st (lib st))"
  shows "\<exists>status st'. atcab_release chip_bus st = Some (Inr (status, st')) \<and> still (lib st) (lib st')"
proof (cases "gDevice st")
  case None
  then show ?thesis using assms(2) by (simp add: atcab_release_def deleteATCADevice_def still_def)
next
  case (Some dev)
  have dev: "mIface dev = i2c_iface chip_bus cfg_ateccx08a_i2c_default (Some 0)" and up: "layer_up base (lib st)"
    using assms(1) Some by (auto simp: lib_inv_def)
  let ?s = "free_block (lib st)"
  have r: "i2c_ready (i2c_st ?s)" "i2c_hal_data ?s = [Some board_master]" "i2c_bus_ref_ct ?s = 1"
    using assms(2) up by (simp_all add: layer_up_def free_block_def)
  have r4: "i2c_ready (i2c_st ?s\<lparr>pin_sda := a, pin_scl := c\<rparr>)" for a c using r(1) by (simp add: i2c_ready_def)
  have "\<exists>s'. hal_i2c_release chip_bus (Some 0) ?s = Some (Inr (ATCA_SUCCESS, s')) \<and> still (lib st) s'"
    using r r4 by (simp add: hal_i2c_release_def board_master_def Let_def set_bus_pins_def i2c_op_def enable_quiet
        still_def free_block_def)
  then obtain s' where s': "hal_i2c_release chip_bus (Some 0) ?s = Some (Inr (ATCA_SUCCESS, s'))" "still (lib st) s'" by blast
  then show ?thesis using Some
    by (simp add: atcab_release_def deleteATCADevice_def deleteATCACommand_def deleteATCAIface_def dev i2c_iface_def
        hal_iface_release_def default_kind still_free)
qed

text \<open>The response frame with some data, and the bits of a chip that executes one command.\<close>

definition response_frame :: "u8 list \<Rightarrow> u8 list" where
  "response_frame dat = (let body = of_nat (length dat + 3) # dat in body @ crc_le (crc_bytes body 0))"

lemma crc_of_success: "crc_le (crc_bytes [4, 0] 0) = [3, 0x40]"
  by code_simp

lemma response_frame_crc:
  assumes "length dat < 128"
  shows "atCheckCrc (response_frame dat @ rest) = Inr ATCA_SUCCESS"
    "length (response_frame dat) = length dat + 3" "hd (response_frame dat) = of_nat (length (response_frame dat))"
proof -
  let ?body = "of_nat (length dat + 3) # dat :: u8 list"
  let ?crc = "crc_le (crc_bytes ?body 0)"
  have u: "unat (of_nat (length dat + 3) :: u8) = length dat + 3"
    using assms by (simp only: unat_of_nat) simp
  have c: "length ?crc = 2" by simp
  have f: "response_frame dat = ?body @ ?crc" by (simp add: response_frame_def Let_def)
  show l: "length (response_frame dat) = length dat + 3" unfolding f by (simp add: c)
  show "hd (response_frame dat) = of_nat (length (response_frame dat))" unfolding l by (simp add: f)
  obtain a b where crc: "?crc = [a, b]" by (rule that [OF crc_le_def])
  let ?bs = "?body @ [a, b] @ rest"
  have bs: "response_frame dat @ rest = ?bs" by (simp only: f crc append_assoc)
  have len: "response_len ?bs = length dat + 3" using u by (simp add: response_len_def)
  have "atCheckCrc ?bs = Inr (if [?bs ! (length dat + 1), ?bs ! (length dat + 1 + 1)] =
      crc_le (crc_bytes (take (length dat + 1) ?bs) 0) then ATCA_SUCCESS else ATCA_RX_CRC_ERROR)"
    using atCheckCrc_eq [of ?bs] len by simp
  moreover have "take (length dat + 1) ?bs = ?body" "[?bs ! (length dat + 1), ?bs ! (length dat + 1 + 1)] = [a, b]"
    by (simp_all add: nth_append)
  ultimately show "atCheckCrc (response_frame dat @ rest) = Inr ATCA_SUCCESS" unfolding bs using crc by simp
qed

lemma response_frame_status:
  assumes "length dat < 128" "length dat \<noteq> 1 \<or> dat = [0]"
  shows "isATCAError (response_frame dat @ rest) = ATCA_SUCCESS"
proof -
  have u: "unat (of_nat (length dat + 3) :: u8) = length dat + 3"
    using assms(1) by (simp only: unat_of_nat) simp
  have "(of_nat (length dat + 3) :: u8) \<noteq> 4 \<or> dat = [0]"
  proof (rule disjCI)
    assume "dat \<noteq> [0]"
    show "(of_nat (length dat + 3) :: u8) \<noteq> 4"
    proof
      assume "(of_nat (length dat + 3) :: u8) = 4"
      then have "length dat + 3 = unat (4 :: u8)" using u by simp
      then show False using assms(2) \<open>dat \<noteq> [0]\<close> by simp
    qed
  qed
  then show ?thesis using crc_of_success by (auto simp: isATCAError_def response_frame_def Let_def)
qed

lemma response_frame_checked:
  assumes "length dat < 128" "length dat \<noteq> 1 \<or> dat = [0]" "length dat + 3 \<le> n"
  shows "atCheckCrc (response_frame dat @ rest) = Inr ATCA_SUCCESS" "isATCAError (response_frame dat @ rest) = ATCA_SUCCESS"
    "length (response_frame dat) = length dat + 3" "hd (response_frame dat) = of_nat (length (response_frame dat))"
  by (rule response_frame_crc [OF assms(1)] response_frame_status [OF assms(1,2)])+

definition command_bits :: "nat \<Rightarrow> u8 list \<Rightarrow> bool list" where
  "command_bits n resp = frame_bits WAKE_RESPONSE @ replicate (n + 2) False @ frame_bits resp @ [False, False]"

lemma execute_chip:
  assumes "executable p" "mIface dev = i2c_iface chip_bus cfg d" "0 < rx_retries cfg"
    and "4 \<le> length resp" "length resp \<le> unat (rxsize p)" "hd resp = of_nat (length resp)"
    and "atCheckCrc (resp @ drop (length resp) (pkt_data p)) = Inr ATCA_SUCCESS"
    and "isATCAError (resp @ drop (length resp) (pkt_data p)) = ATCA_SUCCESS"
  shows "chip_run cfg (atca_execute_command p dev)
    (\<lambda>st. (ATCA_SUCCESS, p\<lparr>pkt_reserved := 3, pkt_data := resp @ drop (length resp) (pkt_data p)\<rparr>, st))
    (command_bits (unat (txsize p)) resp)"
proof -
  let ?i = "i2c_iface chip_bus cfg d" and ?d = "resp @ drop (length resp) (pkt_data p)"
  let ?q = "p\<lparr>pkt_reserved := 3, pkt_data := ?d\<rparr>"
  have w: "wf_packet p" and t: "unat (txsize p) \<le> 135" and r: "4 \<le> unat (rxsize p)" "unat (rxsize p) \<le> 130"
    using assms(1) by (simp_all add: executable_def)
  have n: "nat (uint (txsize p)) = unat (txsize p)" by (rule unat_eq_nat_uint [symmetric])
  have u1: "uint (txsize p) \<le> 135" using uint_le_nat [OF t] by simp
  have u: "0 \<le> uint (txsize p)" "uint (txsize p) < 255" "uint (txsize p) < int (length (packet_image p))"
    unfolding length_packet_image [OF w] using u1 by simp_all
  have ne: "packet_image p \<noteq> []" using length_packet_image [OF w] by auto
  have send: "chip_run cfg (send_packet ?i p) (\<lambda>st. (ATCA_SUCCESS, p\<lparr>pkt_reserved := 3\<rparr>, st)) (replicate (unat (txsize p) + 2) False)"
    unfolding send_packet_def i2c_calls
    by (rule chip_run_last [OF send_chip [OF ne u, unfolded n]]) (simp add: with_image_sent [OF w] chip_run_return)
  have recv: "chip_run cfg (hal_i2c_receive chip_bus cfg (pkt_data p) (rxsize p)) (\<lambda>st. (ATCA_SUCCESS, ?d, st)) (frame_bits resp)"
    by (rule receive_chip) (use assms r w in \<open>auto simp: wf_packet_def PACKET_DATA_SIZE_def\<close>)
  have poll: "chip_run cfg (poll_response ?i k (p\<lparr>pkt_reserved := 3\<rparr>)) (\<lambda>st. (?q, st)) (frame_bits resp)" for k
  proof -
    let ?p = "p\<lparr>pkt_reserved := 3\<rparr>"
    have e: "poll_response ?i k ?p = (\<lambda>st. if_runs (atreceive ?i (pkt_data ?p) (rxsize ?p) st) (\<lambda>(status, data, size, s).
       let packet = ?p\<lparr>pkt_data := data, rxsize := size\<rparr>
       in if status = ATCA_SUCCESS then Some (Inr (packet, s))
          else (case k of 0 \<Rightarrow> Some (Inr (packet, s)) | Suc n \<Rightarrow> poll_response ?i n packet s)))"
      by (rule ext, subst poll_response.simps) (rule refl)
    have "chip_run cfg (atreceive ?i (pkt_data ?p) (rxsize ?p)) (\<lambda>st. (ATCA_SUCCESS, ?d, rxsize p, st)) (frame_bits resp)"
      unfolding i2c_calls(5) [abs_def] by (rule chip_run_last [where mk = "\<lambda>st. (ATCA_SUCCESS, ?d, st)"]) (simp_all add: recv chip_run_return)
    then show ?thesis unfolding e by (rule chip_run_last) (simp add: chip_run_return Let_def)
  qed
  have "\<not> rxsize p < 4" using r(1) by (simp add: word_less_nat_alt)
  then have check: "check_response ?q = Inr ATCA_SUCCESS" using assms(7,8) by (simp add: check_response_def)
  let ?n = "ATCA_POLLING_MAX_TIME_MSEC div ATCA_POLLING_FREQUENCY_TIME_MSEC"
  let ?wait = "\<lambda>packet s. if_runs (poll_response ?i ?n packet s) (\<lambda>(packet, s).
      case check_response packet of Inl e \<Rightarrow> Some (Inl e) | Inr status \<Rightarrow> Some (Inr (status, packet, s)))"
  have b3: "chip_run cfg (?wait (p\<lparr>pkt_reserved := 3\<rparr>)) (\<lambda>st. (ATCA_SUCCESS, ?q, st)) (frame_bits resp)"
    by (rule chip_run_last [OF poll]) (simp add: check chip_run_return)
  have b2: "chip_run cfg (\<lambda>s. if_runs (send_packet ?i p s) (\<lambda>(status, packet, s).
        if status \<noteq> ATCA_SUCCESS then Some (Inr (status, packet, s)) else ?wait packet s))
      (\<lambda>st. (ATCA_SUCCESS, ?q, st)) (replicate (unat (txsize p) + 2) False @ frame_bits resp)"
    by (rule chip_run_bind [OF send]) (use b3 in simp)
  have body: "chip_run cfg (run_command_body ?i p) (\<lambda>st. (ATCA_SUCCESS, ?q, st))
      (frame_bits WAKE_RESPONSE @ replicate (unat (txsize p) + 2) False @ frame_bits resp)"
    unfolding run_command_body_def i2c_calls by (rule chip_run_bind [OF wake_chip [OF assms(3)]]) (use b2 in simp)
  have idle: "chip_run cfg (\<lambda>st. if_runs (hal_i2c_idle chip_bus cfg st) (\<lambda>(idle_status, s). Some (Inr (ATCA_SUCCESS, ?q, s))))
      (\<lambda>st. (ATCA_SUCCESS, ?q, st)) [False, False]"
    by (rule chip_run_last [OF idle_chip]) (simp add: chip_run_return)
  have "chip_run cfg (\<lambda>s. if_runs (run_command_body ?i p s) (\<lambda>(status, packet, s).
      if_runs (atidle ?i s) (\<lambda>(idle_status, s). Some (Inr (status, packet, s)))))
      (\<lambda>st. (ATCA_SUCCESS, ?q, st)) ((frame_bits WAKE_RESPONSE @ replicate (unat (txsize p) + 2) False @ frame_bits resp) @ [False, False])"
    by (rule chip_run_bind [OF body]) (use idle in \<open>simp add: i2c_calls\<close>)
  then show ?thesis by (simp add: atca_execute_command_def [abs_def] assms(2) command_bits_def)
qed

lemma init_still:
  assumes "lib_inv chip_bus base st" "i2c_ready (i2c_st (lib st))"
  shows "\<exists>status st1. atcab_init chip_bus cfg_ateccx08a_i2c_default st = Some (Inr (status, st1)) \<and> still (lib st) (lib st1)"
proof -
  have "\<exists>status st1. (if gDevice st \<noteq> None then atcab_release chip_bus st else Some (Inr (ATCA_SUCCESS, st))) =
      Some (Inr (status, st1)) \<and> still (lib st) (lib st1) \<and> layer_down base (lib st1)"
  proof (cases "gDevice st = None")
    case True
    then show ?thesis using assms by (simp add: still_def lib_inv_def)
  next
    case False
    obtain status st1 where r: "atcab_release chip_bus st = Some (Inr (status, st1))" "still (lib st) (lib st1)"
      using release_still [OF assms] by blast
    then have "layer_down base (lib st1)"
      using endsD [OF release_ends [OF assms(1) False] r(1)] by (auto simp: lib_inv_def)
    then show ?thesis using r False by simp
  qed
  then obtain status st1 where 1: "(if gDevice st \<noteq> None then atcab_release chip_bus st else Some (Inr (ATCA_SUCCESS, st))) =
      Some (Inr (status, st1))" "still (lib st) (lib st1)" "layer_down base (lib st1)" by blast
  have "i2c_ready (i2c_st (lib st1))" using 1(2) by (simp add: still_def)
  from new_device_still [OF 1(3) this] obtain d s' where
    "newATCADevice chip_bus (Some cfg_ateccx08a_i2c_default) (lib st1) = Some (Inr (d, s'))" "still (lib st1) s'" by blast
  then show ?thesis unfolding atcab_init_default 1(1) using 1(2) by (simp add: still_def)
qed

lemma serial_chip:
  assumes "lib_inv chip_bus base st" "gDevice st = Some dev" "i2c_ready (i2c_st (lib st))" "length dat = 32"
    and "i2c_hw (i2c_st (lib st)) = command_bits 7 (response_frame dat) @ bits"
  shows "\<exists>st'. atcab_read_serial_number st = Some (Inr (ATCA_SUCCESS, Some (take 4 dat @ take 5 (drop 8 dat)), st')) \<and>
    lib_inv chip_bus base st' \<and> gDevice st' \<noteq> None \<and> i2c_ready (i2c_st (lib st'))"
proof -
  let ?cfg = cfg_ateccx08a_i2c_default and ?resp = "response_frame dat"
  have dev: "mIface dev = i2c_iface chip_bus ?cfg (Some 0)" and up: "layer_up base (lib st)" and sk: "stack_ok st"
    using assms(1,2) by (auto simp: lib_inv_def)
  obtain p st1 where f: "found_packet st = (p, st1)" by (cases "found_packet st") auto
  have st1: "wf_packet p" "same_device st st1" "lib st1 = lib st" "stack_ok st1" using found_packet_ok [OF sk f] by auto
  have addr: "atcab_get_addr ATCA_ZONE_CONFIG 0 0 0 = (ATCA_SUCCESS, Some 0)"
    by (simp add: atcab_get_addr_def command_consts)
  let ?p = "p\<lparr>param1 := ATCA_ZONE_CONFIG OR ATCA_ZONE_READWRITE_32, param2 := 0\<rparr>"
  let ?q = "?p\<lparr>opcode := ATCA_READ, txsize := ATCA_CMD_SIZE_MIN, rxsize := ATCA_RSP_SIZE_32\<rparr>"
  have q: "wf_packet ?q" "7 \<le> unat (txsize ?q)" "unat (txsize ?q) \<le> 135"
    using st1(1) by (simp_all add: wf_packet_def command_consts)
  from with_crc_framed [OF this] obtain p' where p': "with_crc ?q = Inr (ATCA_SUCCESS, p')" "good_frame p'" "same_command ?q p'"
    by blast
  have read: "atRead (Some (mCommands dev)) ?p = Inr (ATCA_SUCCESS, p')"
    using p'(1) by (simp add: atRead_def command_consts)
  have sizes: "unat (txsize p') = 7" "unat (rxsize p') = 35" "wf_packet p'"
    using p'(2,3) by (simp_all add: same_command_def good_frame_def command_consts)
  then have ex: "executable p'" by (simp add: executable_def)
  note ok = response_frame_checked(1,2) [of dat 35 "drop (length ?resp) (pkt_data p')"] response_frame_checked(3,4) [of dat 35]
  have run: "chip_run ?cfg (atca_execute_command p' dev)
    (\<lambda>st. (ATCA_SUCCESS, p'\<lparr>pkt_reserved := 3, pkt_data := ?resp @ drop (length ?resp) (pkt_data p')\<rparr>, st)) (command_bits 7 ?resp)"
    using execute_chip [OF ex dev, of ?resp] ok sizes assms(4) by (simp add: cfg_ateccx08a_i2c_default_def)
  have on: "on_chip ?cfg (command_bits 7 ?resp @ bits) (lib st)"
    using layer_up_bus [OF up] assms(3,5) by (simp add: on_chip_def)
  then obtain s where s: "atca_execute_command p' dev (lib st) =
      Some (Inr (ATCA_SUCCESS, p'\<lparr>pkt_reserved := 3, pkt_data := ?resp @ drop (length ?resp) (pkt_data p')\<rparr>, s))"
    "on_chip ?cfg bits s" "layer_same (lib st) s"
    using run unfolding chip_run_def by blast
  have data: "take 32 (drop 1 (?resp @ xs)) = dat" for xs
    using assms(4) by (simp add: response_frame_def Let_def)
  have "atcab_read_zone ATCA_ZONE_CONFIG 0 0 0 ATCA_BLOCK_SIZE st = Some (Inr (ATCA_SUCCESS, Some dat, st1\<lparr>lib := s\<rparr>))"
    using read s(1) data [of "drop (length ?resp) (pkt_data p')"]
    by (simp add: atcab_read_zone_def with_device_def assms(2) f addr execute_def st1(3) response_data_def ATCA_BLOCK_SIZE_def)
  moreover have "lib_inv chip_bus base (st1\<lparr>lib := s\<rparr>) \<and> gDevice (st1\<lparr>lib := s\<rparr>) \<noteq> None"
    using st1 assms(2) up dev layer_same_keeps(1) [OF s(3), of base] by (simp add: lib_inv_def same_device_def stack_ok_def)
  moreover have "i2c_ready (i2c_st s)" using s(2) by (simp add: on_chip_def)
  ultimately show ?thesis by (auto simp: atcab_read_serial_number_def)
qed

lemma at508_chip:
  assumes "lib_inv chip_bus base st" "i2c_ready (i2c_st (lib st))" "length dat = 32"
    and "i2c_hw (i2c_st (lib st)) = command_bits 7 (response_frame dat) @ bits"
  shows "\<exists>st'. at508_test chip_bus st = Some (Inr (0, st')) \<and> SerialNum st' = take 4 dat @ take 5 (drop 8 dat)"
proof -
  obtain status st1 where 1: "atcab_init chip_bus cfg_ateccx08a_i2c_default st = Some (Inr (status, st1))" "still (lib st) (lib st1)"
    using init_still [OF assms(1,2)] by blast
  have i: "lib_inv chip_bus base st1" "gDevice st1 \<noteq> None" using endsD [OF init_ends [OF assms(1)] 1(1)] by auto
  then obtain dev where dev: "gDevice st1 = Some dev" by blast
  have r: "i2c_ready (i2c_st (lib st1))" "i2c_hw (i2c_st (lib st1)) = command_bits 7 (response_frame dat) @ bits"
    using 1(2) assms(4) by (simp_all add: still_def)
  obtain st2 where 2: "atcab_read_serial_number st1 = Some (Inr (ATCA_SUCCESS, Some (take 4 dat @ take 5 (drop 8 dat)), st2))"
    "lib_inv chip_bus base st2" "i2c_ready (i2c_st (lib st2))"
    using serial_chip [OF i(1) dev r(1) assms(3) r(2)] by blast
  obtain status3 st3 where "atcab_release chip_bus st2 = Some (Inr (status3, st3))"
    using release_still [OF 2(2,3)] by blast
  then show ?thesis by (simp add: at508_test_def at508_get_sernum_def 1(1) 2(1))
qed

section \<open>The test without a chip\<close>

text \<open>\<open>fails M mk\<close>: without a chip the call returns \<open>mk\<close> and leaves the board so.\<close>

definition fails :: "ATCAIfaceCfg \<Rightarrow> (bool list atca \<Rightarrow> 'r run) \<Rightarrow> (bool list atca \<Rightarrow> 'r) \<Rightarrow> bool" where
  "fails cfg M mk \<longleftrightarrow> (\<forall>st. on_chip cfg [] st \<longrightarrow>
     (\<exists>st'. M st = Some (Inr (mk st')) \<and> on_chip cfg [] st' \<and> layer_same st st'))"

lemma chip_run_fails: "chip_run cfg M mk [] \<Longrightarrow> fails cfg M mk"
  unfolding chip_run_def fails_def by fastforce

lemma fails_bind:
  assumes "fails cfg M mk" "fails cfg (\<lambda>st. k (mk st)) mk'"
  shows "fails cfg (\<lambda>st. if_runs (M st) k) mk'"
  using assms unfolding fails_def by (fastforce intro: layer_same_trans)

lemma fails_return: "fails cfg (\<lambda>st. Some (Inr (mk st))) mk"
  by (auto simp: fails_def)

lemma send_byte_fails: "fails cfg (i2c_val (i2c_send_byte chip_bus b)) (\<lambda>st. (ATCA_TX_TIMEOUT, st))"
proof -
  have p: "poll_ack chip_bus n s = Some (ATCA_TX_TIMEOUT, s)" if "i2c_ready s" "i2c_hw s = []" for n s
    using chip_data_in(2) [OF that] by (induction n) simp_all
  have "i2c_send_byte chip_bus b s = Some (ATCA_TX_TIMEOUT, s)" if "i2c_ready s" "i2c_hw s = []" for s
    using that by (simp add: i2c_send_byte_def chip_states chip_quiet p)
  then show ?thesis by (auto simp: fails_def on_chip_def i2c_val_def bus_up_def)
qed

lemma address_fails: "fails cfg (hal_i2c_send_slave_address chip_bus cfg RorW) (\<lambda>st. (ATCA_TX_TIMEOUT, st))"
  unfolding hal_i2c_send_slave_address_def
  by (rule fails_bind [OF chip_run_fails [OF chip_ops(1)]], rule fails_bind [OF send_byte_fails], simp,
      rule fails_bind [OF chip_run_fails [OF chip_ops(2)]], rule fails_return)

lemma tries_step:
  assumes "status \<noteq> ATCA_SUCCESS"
  shows "receive_tries B cfg n (Suc k) status rx = (\<lambda>st. if_runs (hal_i2c_send_slave_address B cfg I2C_READ st)
      (\<lambda>(status, st). if status = ATCA_SUCCESS
        then if_runs (receive_frame B n rx st) (\<lambda>(bad_size, rxdata, st).
          if bad_size then Some (Inr (ATCA_INVALID_SIZE, rxdata, st))
          else receive_tries B cfg n k status rxdata st)
        else receive_tries B cfg n k status rx st))"
  by (rule ext) (simp only: receive_tries.simps if_not_P [OF assms])

lemma tries_fail:
  "status \<in> {ATCA_RX_TIMEOUT, ATCA_TX_TIMEOUT} \<Longrightarrow>
   fails cfg (receive_tries chip_bus cfg n (Suc k) status rx) (\<lambda>st. (ATCA_TX_TIMEOUT, rx, st))"
proof (induction k arbitrary: status)
  case 0
  then have s: "status \<noteq> ATCA_SUCCESS" by auto
  show ?case unfolding tries_step [OF s] by (rule fails_bind [OF address_fails]) (simp add: fails_return)
next
  case (Suc k)
  then have s: "status \<noteq> ATCA_SUCCESS" by auto
  have "fails cfg (receive_tries chip_bus cfg n (Suc k) ATCA_TX_TIMEOUT rx) (\<lambda>st. (ATCA_TX_TIMEOUT, rx, st))"
    by (rule Suc.IH) simp
  then show ?case unfolding tries_step [OF s] by (intro fails_bind [OF address_fails]) (simp del: receive_tries.simps)
qed

lemma receive_fails:
  assumes "0 < rx_retries cfg"
  shows "fails cfg (hal_i2c_receive chip_bus cfg rx n) (\<lambda>st. (ATCA_RX_NO_RESPONSE, rx, st))"
proof -
  obtain k where k: "nat (rx_retries cfg) = Suc k" using assms by (cases "nat (rx_retries cfg)") auto
  have "fails cfg (receive_tries chip_bus cfg n (nat (rx_retries cfg)) ATCA_RX_TIMEOUT rx) (\<lambda>st. (ATCA_TX_TIMEOUT, rx, st))"
    unfolding k by (rule tries_fail) simp
  then show ?thesis unfolding hal_i2c_receive_def
    by (intro fails_bind [OF chip_run_fails [OF chip_run_pins]], elim fails_bind) (simp add: fails_return)
qed

lemma wake_fails:
  assumes "0 < rx_retries cfg"
  shows "fails cfg (hal_i2c_wake chip_bus cfg) (\<lambda>st. (ATCA_RX_NO_RESPONSE, st))"
  unfolding hal_i2c_wake_def
  by (rule fails_bind [OF chip_run_fails [OF chip_run_pins]], rule fails_bind [OF chip_run_fails [OF chip_ops(3)]],
      rule fails_bind [OF receive_fails [OF assms]]) (simp add: fails_return)

lemma idle_fails: "fails cfg (hal_i2c_idle chip_bus cfg) (\<lambda>st. (ATCA_TX_TIMEOUT, st))"
  unfolding hal_i2c_idle_def send_word_address_def
  by (rule fails_bind [OF chip_run_fails [OF chip_run_pins]], rule fails_bind [OF address_fails]) (simp add: fails_return)

lemma execute_fails:
  assumes "mIface dev = i2c_iface chip_bus cfg d" "0 < rx_retries cfg"
  shows "fails cfg (atca_execute_command p dev) (\<lambda>st. (ATCA_RX_NO_RESPONSE, p, st))"
proof -
  have "fails cfg (run_command_body (i2c_iface chip_bus cfg d) p) (\<lambda>st. (ATCA_RX_NO_RESPONSE, p, st))"
    unfolding run_command_body_def i2c_calls by (rule fails_bind [OF wake_fails [OF assms(2)]]) (simp add: fails_return)
  then show ?thesis unfolding atca_execute_command_def assms(1) i2c_calls
    by (rule fails_bind) (simp, rule fails_bind [OF idle_fails], simp add: fails_return)
qed

text \<open>No acknowledge, no wake response: the code of \<open>ATCA_RX_NO_RESPONSE\<close>.\<close>

lemma at508_no_chip:
  assumes "lib_inv chip_bus base st" "i2c_ready (i2c_st (lib st))" "i2c_hw (i2c_st (lib st)) = []"
  shows "\<exists>st'. at508_test chip_bus st = Some (Inr (status_code ATCA_RX_NO_RESPONSE, st'))"
proof -
  let ?cfg = cfg_ateccx08a_i2c_default
  obtain status st1 where 1: "atcab_init chip_bus ?cfg st = Some (Inr (status, st1))" "still (lib st) (lib st1)"
    using init_still [OF assms(1,2)] by blast
  have i: "lib_inv chip_bus base st1" "gDevice st1 \<noteq> None" using endsD [OF init_ends [OF assms(1)] 1(1)] by auto
  then obtain dev where dev: "gDevice st1 = Some dev" "mIface dev = i2c_iface chip_bus ?cfg (Some 0)"
    and up: "layer_up base (lib st1)" and sk: "stack_ok st1" by (auto simp: lib_inv_def)
  obtain p st2 where f: "found_packet st1 = (p, st2)" by (cases "found_packet st1") auto
  have st2: "wf_packet p" "lib st2 = lib st1" using found_packet_ok [OF sk f] by auto
  have addr: "atcab_get_addr ATCA_ZONE_CONFIG 0 0 0 = (ATCA_SUCCESS, Some 0)"
    by (simp add: atcab_get_addr_def command_consts)
  let ?p = "p\<lparr>param1 := ATCA_ZONE_CONFIG OR ATCA_ZONE_READWRITE_32, param2 := 0\<rparr>"
  have "wf_packet ?p" using st2(1) by (simp add: wf_packet_def)
  then obtain p' where p': "atRead (Some (mCommands dev)) ?p = Inr (ATCA_SUCCESS, p')" using atRead_executable by blast
  have on: "on_chip ?cfg [] (lib st1)"
    using layer_up_bus [OF up] 1(2) assms(3) by (simp add: on_chip_def still_def)
  have "fails ?cfg (atca_execute_command p' dev) (\<lambda>st. (ATCA_RX_NO_RESPONSE, p', st))"
    by (rule execute_fails [OF dev(2)]) (simp add: cfg_ateccx08a_i2c_default_def)
  then obtain s where "atca_execute_command p' dev (lib st1) = Some (Inr (ATCA_RX_NO_RESPONSE, p', s))"
    using on unfolding fails_def by blast
  then have "atcab_read_zone ATCA_ZONE_CONFIG 0 0 0 ATCA_BLOCK_SIZE st1 = Some (Inr (ATCA_RX_NO_RESPONSE, None, st2\<lparr>lib := s\<rparr>))"
    using p' by (simp add: atcab_read_zone_def with_device_def dev(1) f addr execute_def st2(2) ATCA_BLOCK_SIZE_def)
  then show ?thesis by (simp add: at508_test_def at508_get_sernum_def 1(1) atcab_read_serial_number_def)
qed

section \<open>A library for concrete runs\<close>

text \<open>The pin driver is initialised, no device is allocated.\<close>

definition idle_lib :: "'h \<Rightarrow> 'h atca atcab" where
  "idle_lib h =
     \<lparr>lib = \<lparr>i2c_st = \<lparr>i2cGpio = \<lparr>ps_DeviceId = 0, ps_BaseAddr = 0xFF0A0000, ps_IsReady = PS_COMPONENT_IS_READY,
          ps_Platform = XPLAT_ZYNQ_ULTRA_MP, ps_MaxPinNum = 174, ps_MaxBanks = 6\<rparr>,
        pin_sda = 0, pin_scl = 0, b_init = True, i2c_hw = h\<rparr>,
        i2c_hal_data = [], i2c_bus_ref_ct = 0, atca_heap = \<lparr>heap_outcomes = [], heap_live = 0\<rparr>\<rparr>,
      gDevice = None, stack_packets = [], SerialNum = replicate 9 0\<rparr>"

lemma idle_lib_facts:
  "lib_inv B 0 (idle_lib h)" "i2c_ready (i2c_st (lib (idle_lib h)))" "i2c_hw (i2c_st (lib (idle_lib h))) = h"
  by (simp_all add: idle_lib_def lib_inv_def stack_ok_def layer_down_def heap_ok_def i2c_ready_def ps_ready_def)

definition chip_bits :: "u8 list \<Rightarrow> bool list" where
  "chip_bits dat = command_bits 7 (response_frame dat)"

lemma chip_runs:
  "length dat = 32 \<Longrightarrow> \<exists>st. at508_test chip_bus (idle_lib (chip_bits dat)) = Some (Inr (0, st)) \<and>
     SerialNum st = take 4 dat @ take 5 (drop 8 dat)"
  "\<exists>st. at508_test chip_bus (idle_lib []) = Some (Inr (status_code ATCA_RX_NO_RESPONSE, st))"
  using at508_chip [OF idle_lib_facts(1,2), where bits = "[]"] at508_no_chip [OF idle_lib_facts(1,2)]
  by (simp_all add: idle_lib_facts(3) chip_bits_def)

section \<open>Properties\<close>



text \<open>
  C12: On a bus where a chip acknowledges and answers the read command with 32 bytes, the test
  returns 0 with the serial number that they hold.
\<close>

theorem at508_reads_serial:
  assumes "lib_inv chip_bus base st" "i2c_ready (i2c_st (lib st))" "length dat = 32"
    and "i2c_hw (i2c_st (lib st)) = command_bits 7 (response_frame dat) @ bits"
  shows "\<exists>st'. at508_test chip_bus st = Some (Inr (0, st')) \<and> SerialNum st' = take 4 dat @ take 5 (drop 8 dat)"
  by (rule at508_chip [OF assms])

theorem at508_reads_serial_witness:
  "\<exists>st'. at508_test chip_bus (idle_lib (chip_bits (replicate 32 7))) = Some (Inr (0, st')) \<and> SerialNum st' = replicate 9 7"
  using at508_reads_serial [OF idle_lib_facts(1,2), of "replicate 32 7" "chip_bits (replicate 32 7)" "[]"]
  by (auto simp: idle_lib_facts(3) chip_bits_def numeral_eq_Suc)

text \<open>C21: On a bus without a chip the test ends, with the code of \<open>ATCA_RX_NO_RESPONSE\<close>.\<close>

theorem at508_without_chip:
  assumes "lib_inv chip_bus base st" "i2c_ready (i2c_st (lib st))" "i2c_hw (i2c_st (lib st)) = []"
  shows "\<exists>st'. at508_test chip_bus st = Some (Inr (0xE7, st'))"
  using at508_no_chip [OF assms] by simp

theorem at508_without_chip_witness: "\<exists>st'. at508_test chip_bus (idle_lib []) = Some (Inr (0xE7, st'))"
  by (rule at508_without_chip [OF idle_lib_facts(1,2)]) (simp add: idle_lib_facts(3))


definition example_device :: "bool list atca ATCADevice" where
  "example_device =
     \<lparr>mCommands = \<lparr>cmd_dt = ATECC508A, clock_divider = 0, execution_time_msec = 0\<rparr>,
      mIface = i2c_iface chip_bus cfg_ateccx08a_i2c_default (Some 0)\<rparr>"


end
