(* ===== verification/Board.thy ===== *)
theory Board
  imports MsgPool FlashTest MemTest Led SdTest EthTest AtcaChip
begin

text \<open>
  The program of the board, \<open>boe_factory_test/src/main.c\<close>: the main loop that takes the
  requests of the host from the message pool, runs the tests, replies, and shows the
  verdict. \<open>None\<close> is a call that never returns, \<open>Inl\<close> a fault. The test of the ATECC508A
  runs on the pins of the processor, \<open>env_psgpio\<close>, which no other test touches.
\<close>

section \<open>State\<close>

text \<open>The hardware and the libraries behind the tests.\<close>

record ('h, 'd, 'm, 'f, 'e) board_env =
  env_bus :: "'h bus"
  env_qspi :: "'d qspi"
  env_mem :: "'m memory"
  env_fs :: "'f fatfs"
  env_psgpio :: "'e bus"

record ('h, 'd, 'm, 'f, 'e) board =
  hw :: 'h
  flash_g :: flash_globals
  flash_dev :: 'd
  mem_state :: 'm
  sd_g :: sd_globals
  fs_state :: 'f
  eth_g :: eth_globals
  ecc_state :: "'e atca atcab"
  led_g :: XGpio
  gMsgIns :: MsgPool
  tx :: "u8 list"
  board_result :: u8
  bLoop :: u8

section \<open>The tests\<close>

type_synonym ('h, 'd, 'm, 'f, 'e) test =
  "('h, 'd, 'm, 'f, 'e) board_env \<Rightarrow> ('h, 'd, 'm, 'f, 'e) board \<Rightarrow>
   (fault + (int \<times> ('h, 'd, 'm, 'f, 'e) board)) option"

definition run_sd :: "('h, 'd, 'm, 'f, 'e) test" where
  "run_sd E st =
     (let (ret, g, f) = ffs_sd_test (env_fs E) (sd_g st) (fs_state st)
      in Some (Inr (ret, st\<lparr>sd_g := g, fs_state := f\<rparr>)))"

definition run_flash :: "('h, 'd, 'm, 'f, 'e) test" where
  "run_flash E st =
     if_runs (flashtest (env_qspi E) (flash_g st) (flash_dev st))
       (\<lambda>(ret, g, d). Some (Inr (ret, st\<lparr>flash_g := g, flash_dev := d\<rparr>)))"

definition run_mem :: "('h, 'd, 'm, 'f, 'e) test" where
  "run_mem E st =
     (case memtest (env_mem E) (mem_state st) of
        None \<Rightarrow> None | Some (ret, m) \<Rightarrow> Some (Inr (ret, st\<lparr>mem_state := m\<rparr>)))"

definition run_net :: "('h, 'd, 'm, 'f, 'e) test" where
  "run_net E st =
     if_runs (pl_net_test (env_bus E) (eth_g st) (hw st))
       (\<lambda>(ret, g, h). Some (Inr (ret, st\<lparr>eth_g := g, hw := h\<rparr>)))"

definition run_ecc :: "('h, 'd, 'm, 'f, 'e) test" where
  "run_ecc E st =
     if_runs (at508_test (env_psgpio E) (ecc_state st)) (\<lambda>(ret, e). Some (Inr (ret, st\<lparr>ecc_state := e\<rparr>)))"

section \<open>The main loop\<close>

definition package_check :: "A_Package \<Rightarrow> int" where
  "package_check pack = (if magic pack = MAGIC then 0 else 1)"

text \<open>
  The branches on the command. \<open>ret\<close> is 0 on entry, from \<open>package_check\<close>, and a command
  without a branch leaves it so.
\<close>

definition run_command ::
    "A_Package \<Rightarrow> ('h, 'd, 'm, 'f, 'e) test" where
  "run_command rcv E st =
     (if cmd rcv = REQ_CONNECT then
        (case ledHigh (env_bus E) (led_g st) (LED_1 OR LED_2) (hw st) of
           None \<Rightarrow> None | Some (_, h) \<Rightarrow> Some (Inr (0, st\<lparr>hw := h\<rparr>)))
      else if cmd rcv = REQ_SD_TEST then run_sd E st
      else if cmd rcv = REQ_FLASH_TEST then run_flash E st
      else if cmd rcv = REQ_DRAM_TEST then run_mem E st
      else if cmd rcv = REQ_NET_TEST then run_net E st
      else if cmd rcv = REQ_ECC_TEST then run_ecc E st
      else if cmd rcv = REQ_RESULT then
        (case data rcv of [] \<Rightarrow> Some (Inl OutOfBounds) | r # _ \<Rightarrow> Some (Inr (0, st\<lparr>board_result := r\<rparr>)))
      else if cmd rcv = REQ_FINISH then Some (Inr (0, st\<lparr>bLoop := 0\<rparr>))
      else Some (Inr (0, st)))"

text \<open>The reply is built in the static buffer \<open>tx\<close>; its header and 60 more bytes are sent.\<close>

definition send_reply ::
    "A_Package \<Rightarrow> int \<Rightarrow> ('h, 'd, 'm, 'f, 'e) board_env \<Rightarrow> ('h, 'd, 'm, 'f, 'e) board \<Rightarrow>
     (fault + ('h, 'd, 'm, 'f, 'e) board) option" where
  "send_reply rcv ret E st =
     (case unpack_bytes (tx st) of
        None \<Rightarrow> Some (Inl OutOfBounds)
      | Some send \<Rightarrow>
          let (wlen, send) = make_package rcv send (if ret = 0 then RET_SUCCES else RET_FAILED);
              st = st\<lparr>tx := pack_bytes send\<rparr>
          in case msg_pool_txsend (env_bus E) (gMsgIns st) (tx st) (wlen + 60) (hw st) of
               Inl e \<Rightarrow> Some (Inl e)
             | Inr (_, h) \<Rightarrow> Some (Inr (st\<lparr>hw := h\<rparr>)))"

definition serve_package ::
    "A_Package \<Rightarrow> ('h, 'd, 'm, 'f, 'e) board_env \<Rightarrow> ('h, 'd, 'm, 'f, 'e) board \<Rightarrow>
     (fault + ('h, 'd, 'm, 'f, 'e) board) option" where
  "serve_package rcv E st =
     (if package_check rcv = 0
      then if_runs (run_command rcv E st) (\<lambda>(ret, st). send_reply rcv ret E st)
      else Some (Inr st))"

text \<open>The endless loop that shows the verdict.\<close>

datatype verdict = LedSuccess | LedFailed

definition show_verdict :: "('h, 'd, 'm, 'f, 'e) board \<Rightarrow> verdict" where
  "show_verdict st = (if board_result st = 0 then LedSuccess else LedFailed)"

partial_function (option) mainloop ::
    "('h, 'd, 'm, 'f, 'e) board_env \<Rightarrow> ('h, 'd, 'm, 'f, 'e) board \<Rightarrow>
     (fault + (verdict \<times> ('h, 'd, 'm, 'f, 'e) board)) option" where
  "mainloop E st =
     (if bLoop st = 0 then Some (Inr (show_verdict st, st))
      else
        Option.bind (msg_pool_fetch (env_bus E) (gMsgIns st) 0 (hw st)) (\<lambda>r.
          case r of
            Inl e \<Rightarrow> Some (Inl e)
          | Inr (ret, slot, mp, h) \<Rightarrow>
              let st = st\<lparr>gMsgIns := mp, hw := h\<rparr>
              in if ret \<noteq> 0 then mainloop E st
                 else case slot of
                   None \<Rightarrow> Some (Inl NullPointer)
                 | Some i \<Rightarrow>
                     (case unpack_bytes (pool mp ! i) of
                        None \<Rightarrow> Some (Inl OutOfBounds)
                      | Some rcv \<Rightarrow>
                          Option.bind (serve_package rcv E st) (\<lambda>r.
                            case r of Inl e \<Rightarrow> Some (Inl e) | Inr st \<Rightarrow> mainloop E st))))"

text \<open>\<open>main\<close>: it ends only when the message pool cannot be set up.\<close>

datatype board_end = Exit int | Show verdict

definition board_main ::
    "('h, 'd, 'm, 'f, 'e) board_env \<Rightarrow> MsgPool option \<Rightarrow> ('h, 'd, 'm, 'f, 'e) board \<Rightarrow>
     (fault + (board_end \<times> ('h, 'd, 'm, 'f, 'e) board)) option" where
  "board_main E malloc st =
     Option.bind (ledInit (env_bus E) (led_g st) (hw st)) (\<lambda>(_, g, h).
       case msg_pool_init (env_bus E) malloc h of
         Inl e \<Rightarrow> Some (Inl e)
       | Inr (status, mp, h) \<Rightarrow>
           let st = st\<lparr>led_g := g, hw := h\<rparr>
           in if status \<noteq> XST_SUCCESS then Some (Inr (Exit (-1), st))
              else case mp of
                None \<Rightarrow> Some (Inl NullPointer)
              | Some mp \<Rightarrow>
                  Option.bind (ledHigh (env_bus E) (led_g st) LED_1 (hw st)) (\<lambda>(_, h).
                    if_runs (mainloop E (st\<lparr>gMsgIns := mp, hw := h\<rparr>))
                      (\<lambda>(v, st). Some (Inr (Show v, st)))))"

text \<open>\<open>selftest\<close> runs the tests without the host. Its call in \<open>main\<close> is commented out.\<close>

definition selftest ::
    "('h, 'd, 'm, 'f, 'e) board_env \<Rightarrow> ('h, 'd, 'm, 'f, 'e) board \<Rightarrow>
     (fault + (verdict \<times> ('h, 'd, 'm, 'f, 'e) board)) option" where
  "selftest E st =
     if_runs (run_flash E st) (\<lambda>(status, st).
       if status \<noteq> XST_SUCCESS then Some (Inr (LedFailed, st))
       else if_runs (run_mem E st) (\<lambda>(status, st).
         if status \<noteq> XST_SUCCESS then Some (Inr (LedFailed, st))
         else if_runs (run_ecc E st) (\<lambda>(status, st).
           Some (Inr (if status = 0 then LedSuccess else LedFailed, st)))))"

section \<open>The reply\<close>

text \<open>
  The transmit buffer: 256 bytes, of which only the header is ever written.
\<close>

definition tx_wf :: "('h, 'd, 'm, 'f, 'e) board \<Rightarrow> bool" where
  "tx_wf st \<longleftrightarrow> length (tx st) = 256 \<and> drop 8 (tx st) = replicate 248 0"

definition reply_code :: "int \<Rightarrow> u16" where
  "reply_code ret = (if ret = 0 then RET_SUCCES else RET_FAILED)"

definition reply_bytes :: "A_Package \<Rightarrow> int \<Rightarrow> u8 list" where
  "reply_bytes rcv ret = le16 (magic rcv) @ le16 (reply_code ret) @ le32 (pid rcv) @ replicate 248 0"

lemma send_reply_tx:
  assumes "tx_wf st"
  shows "send_reply rcv ret E st =
    (case msg_pool_txsend (env_bus E) (gMsgIns st) (reply_bytes rcv ret) 68 (hw st) of
       Inl e \<Rightarrow> Some (Inl e)
     | Inr (_, h) \<Rightarrow> Some (Inr (st\<lparr>tx := reply_bytes rcv ret, hw := h\<rparr>)))"
proof -
  obtain send where send: "unpack_bytes (tx st) = Some send"
    using assms unpack_None [of "tx st"] by (cases "unpack_bytes (tx st)") (auto simp: tx_wf_def sizeof_A_Package_def)
  then have "tx st = pack_bytes send" by (rule pack_unpack [symmetric])
  then have "data send = replicate 248 0"
    using assms by (simp add: tx_wf_def pack_bytes_def le16_def le32_def)
  then obtain send' where p: "make_package rcv send (reply_code ret) = (8, send')"
    "pack_bytes send' = reply_bytes rcv ret"
    by (simp add: make_package_def pack_bytes_def reply_bytes_def sizeof_A_Package_def)
  show ?thesis
    unfolding send_reply_def send option.case Let_def reply_code_def [symmetric] p(1) prod.case p(2)
    by simp
qed

lemma send_reply_keeps:
  assumes "tx_wf st" "send_reply rcv ret E st = Some (Inr st')"
  shows "tx_wf st'" "board_result st' = board_result st" "bLoop st' = bLoop st" "gMsgIns st' = gMsgIns st"
  using assms(2) unfolding send_reply_tx [OF assms(1)]
  by (auto simp: tx_wf_def reply_bytes_def split: sum.splits)

text \<open>No test touches the transmit buffer, the verdict, the loop flag or the message pool.\<close>

definition same_control :: "('h, 'd, 'm, 'f, 'e) board \<Rightarrow> ('h, 'd, 'm, 'f, 'e) board \<Rightarrow> bool" where
  "same_control st st' \<longleftrightarrow> tx st' = tx st \<and> board_result st' = board_result st \<and> bLoop st' = bLoop st \<and>
     gMsgIns st' = gMsgIns st \<and> led_g st' = led_g st"

lemma tests_same_control:
  "run_sd E st = Some (Inr (ret, st')) \<Longrightarrow> same_control st st'"
  "run_flash E st = Some (Inr (ret, st')) \<Longrightarrow> same_control st st'"
  "run_mem E st = Some (Inr (ret, st')) \<Longrightarrow> same_control st st'"
  "run_net E st = Some (Inr (ret, st')) \<Longrightarrow> same_control st st'"
  "run_ecc E st = Some (Inr (ret, st')) \<Longrightarrow> same_control st st'"
  by (auto simp: run_sd_def run_flash_def run_mem_def run_net_def run_ecc_def same_control_def if_runs_ok
      split: prod.splits option.splits)

text \<open>The effect of a command on the verdict byte and on the loop flag.\<close>

definition result_after :: "A_Package \<Rightarrow> u8 \<Rightarrow> u8" where
  "result_after p r = (if magic p = MAGIC \<and> cmd p = REQ_RESULT then hd (data p) else r)"

definition is_finish :: "A_Package \<Rightarrow> bool" where
  "is_finish p \<longleftrightarrow> magic p = MAGIC \<and> cmd p = REQ_FINISH"

lemma run_command_control:
  assumes "run_command p E st = Some (Inr (ret, st'))" "magic p = MAGIC"
  shows "tx st' = tx st" "board_result st' = result_after p (board_result st)"
    "bLoop st' = (if is_finish p then 0 else bLoop st)" "gMsgIns st' = gMsgIns st"
  using assms tests_same_control [of E st ret st']
  by (auto simp: run_command_def result_after_def is_finish_def same_control_def protocol_codes
      split: if_splits option.splits list.splits)

lemma serve_control:
  assumes "serve_package p E st = Some (Inr st')" "tx_wf st"
  shows "tx_wf st'" "board_result st' = result_after p (board_result st)"
    "bLoop st' = (if is_finish p then 0 else bLoop st)" "gMsgIns st' = gMsgIns st"
proof -
  have "tx_wf st' \<and> board_result st' = result_after p (board_result st) \<and>
    bLoop st' = (if is_finish p then 0 else bLoop st) \<and> gMsgIns st' = gMsgIns st"
  proof (cases "magic p = MAGIC")
    case True
    then obtain ret st1 where r: "run_command p E st = Some (Inr (ret, st1))"
      "send_reply p ret E st1 = Some (Inr st')"
      using assms(1) by (auto simp: serve_package_def package_check_def if_runs_ok)
    note c = run_command_control [OF r(1) True]
    then have "tx_wf st1" using assms(2) by (simp add: tx_wf_def)
    from send_reply_keeps [OF this r(2)] c show ?thesis by simp
  next
    case False
    then show ?thesis using assms
      by (simp add: serve_package_def package_check_def result_after_def is_finish_def)
  qed
  then show "tx_wf st'" "board_result st' = result_after p (board_result st)"
    "bLoop st' = (if is_finish p then 0 else bLoop st)" "gMsgIns st' = gMsgIns st" by simp_all
qed

section \<open>Sessions\<close>

text \<open>
  \<open>session E st ps st'\<close>: from state \<open>st\<close> the main loop takes exactly the packages \<open>ps\<close> from
  the pool, with any number of empty fetches in between, and ends in state \<open>st'\<close>.
\<close>

inductive session ::
    "('h, 'd, 'm, 'f, 'e) board_env \<Rightarrow> ('h, 'd, 'm, 'f, 'e) board \<Rightarrow> A_Package list \<Rightarrow>
     ('h, 'd, 'm, 'f, 'e) board \<Rightarrow> bool" for E where
  ended: "bLoop st = 0 \<Longrightarrow> session E st [] st"
| idle: "bLoop st \<noteq> 0 \<Longrightarrow> msg_pool_fetch (env_bus E) (gMsgIns st) 0 (hw st) = Some (Inr (ret, slot, mp, h)) \<Longrightarrow>
    ret \<noteq> 0 \<Longrightarrow> session E (st\<lparr>gMsgIns := mp, hw := h\<rparr>) ps st' \<Longrightarrow> session E st ps st'"
| message: "bLoop st \<noteq> 0 \<Longrightarrow>
    msg_pool_fetch (env_bus E) (gMsgIns st) 0 (hw st) = Some (Inr (0, Some i, mp, h)) \<Longrightarrow>
    unpack_bytes (pool mp ! i) = Some p \<Longrightarrow>
    serve_package p E (st\<lparr>gMsgIns := mp, hw := h\<rparr>) = Some (Inr st1) \<Longrightarrow>
    session E st1 ps st' \<Longrightarrow> session E st (p # ps) st'"

inductive_cases session_NilE: "session E st [] st'"

text \<open>A terminating run of the loop is a session, and the other way round.\<close>

lemma session_mainloop: "session E st ps st' \<Longrightarrow> mainloop E st = Some (Inr (show_verdict st', st'))"
proof (induction rule: session.induct)
  case (ended st)
  then show ?case by (subst mainloop.simps) simp
next
  case (idle st ret slot mp h ps st')
  then show ?case by (subst mainloop.simps) simp
next
  case (message st i mp h p st1 ps st')
  then show ?case by (subst mainloop.simps) simp
qed

lemma mainloop_session:
  assumes "mainloop E st = Some r"
  shows "\<forall>v st'. r = Inr (v, st') \<longrightarrow> v = show_verdict st' \<and> (\<exists>ps. session E st ps st')"
proof (rule mainloop.raw_induct
    [where P = "\<lambda>E st r. \<forall>v st'. r = Inr (v, st') \<longrightarrow> v = show_verdict st' \<and> (\<exists>ps. session E st ps st')",
      OF _ assms])
  fix rec :: "('a, 'b, 'c, 'd, 'e) board_env \<Rightarrow> ('a, 'b, 'c, 'd, 'e) board \<Rightarrow>
     (fault + (verdict \<times> ('a, 'b, 'c, 'd, 'e) board)) option" and E st r
  assume IH: "\<And>E st r. rec E st = Some r \<Longrightarrow>
      \<forall>v st'. r = Inr (v, st') \<longrightarrow> v = show_verdict st' \<and> (\<exists>ps. session E st ps st')"
    and eq: "(if bLoop st = 0 then Some (Inr (show_verdict st, st))
      else
        Option.bind (msg_pool_fetch (env_bus E) (gMsgIns st) 0 (hw st)) (\<lambda>r.
          case r of
            Inl e \<Rightarrow> Some (Inl e)
          | Inr (ret, slot, mp, h) \<Rightarrow>
              let st = st\<lparr>gMsgIns := mp, hw := h\<rparr>
              in if ret \<noteq> 0 then rec E st
                 else case slot of
                   None \<Rightarrow> Some (Inl NullPointer)
                 | Some i \<Rightarrow>
                     (case unpack_bytes (pool mp ! i) of
                        None \<Rightarrow> Some (Inl OutOfBounds)
                      | Some rcv \<Rightarrow>
                          Option.bind (serve_package rcv E st) (\<lambda>r.
                            case r of Inl e \<Rightarrow> Some (Inl e) | Inr st \<Rightarrow> rec E st)))) = Some r"
  show "\<forall>v st'. r = Inr (v, st') \<longrightarrow> v = show_verdict st' \<and> (\<exists>ps. session E st ps st')"
  proof (intro allI impI)
    fix v st' assume r: "r = Inr (v, st')"
    show "v = show_verdict st' \<and> (\<exists>ps. session E st ps st')"
    proof (cases "bLoop st = 0")
      case True
      then show ?thesis using eq r by (auto intro: session.ended)
    next
      case False
      then obtain ret slot mp h where f:
        "msg_pool_fetch (env_bus E) (gMsgIns st) 0 (hw st) = Some (Inr (ret, slot, mp, h))"
        using eq r by (auto simp: bind_eq_Some_conv case_Inr_conv)
      let ?st = "st\<lparr>gMsgIns := mp, hw := h\<rparr>"
      show ?thesis
      proof (cases "ret = 0")
        case True
        then obtain i p st1 where m: "slot = Some i" "unpack_bytes (pool mp ! i) = Some p"
          "serve_package p E ?st = Some (Inr st1)" "rec E st1 = Some r"
          using eq r f \<open>bLoop st \<noteq> 0\<close>
          by (auto simp: bind_eq_Some_conv case_Inr_conv Let_def split: option.splits)
        from IH [OF m(4)] r obtain ps where "v = show_verdict st'" "session E st1 ps st'" by blast
        then show ?thesis using session.message [OF \<open>bLoop st \<noteq> 0\<close> f [unfolded True m(1)] m(2,3)] by blast
      next
        case False
        then have "rec E ?st = Some r" using eq r f \<open>bLoop st \<noteq> 0\<close> by (simp add: Let_def)
        from IH [OF this] r show ?thesis
          using session.idle [OF \<open>bLoop st \<noteq> 0\<close> f False] by blast
      qed
    qed
  qed
qed


definition ends_with_finish :: "A_Package list \<Rightarrow> bool" where
  "ends_with_finish ps \<longleftrightarrow> (\<exists>qs p. ps = qs @ [p] \<and> is_finish p \<and> list_all (\<lambda>q. \<not> is_finish q) qs)"

lemma ends_with_finish_Cons:
  "\<not> is_finish p \<Longrightarrow> ends_with_finish ps \<Longrightarrow> ends_with_finish (p # ps)"
  unfolding ends_with_finish_def by (metis append_Cons list.pred_inject(2))

lemma ended_session: "session E st ps st' \<Longrightarrow> bLoop st = 0 \<Longrightarrow> ps = [] \<and> st' = st"
  by (induction rule: session.induct) auto

lemma session_control:
  "session E st ps st' \<Longrightarrow> tx_wf st \<Longrightarrow>
   tx_wf st' \<and> board_result st' = fold result_after ps (board_result st) \<and>
   (bLoop st \<noteq> 0 \<longrightarrow> ends_with_finish ps)"
proof (induction rule: session.induct)
  case (idle st ret slot mp h ps st')
  then show ?case by (simp add: tx_wf_def)
next
  case (message st i mp h p st1 ps st')
  have "tx_wf (st\<lparr>gMsgIns := mp, hw := h\<rparr>)" using message.prems by (simp add: tx_wf_def)
  note c = serve_control [OF message.hyps(4) this]
  note IH = message.IH [OF c(1)]
  show ?case
  proof (cases "is_finish p")
    case True
    then have "bLoop st1 = 0" using c(3) by simp
    then have "ps = []" using ended_session [OF message.hyps(5)] by simp
    then show ?thesis using IH c(2) True unfolding ends_with_finish_def by (auto intro!: exI [of _ "[]"])
  next
    case False
    then show ?thesis using IH c(2,3) message.hyps(1) ends_with_finish_Cons by simp
  qed
qed simp

text \<open>
  C9: The main loop ends only with the first FINISH request, and the verdict it shows is
  success exactly when the last RESULT request carried 0, or none came and the byte was 0
  from the start. Packages with another magic number have no effect on it.
\<close>

theorem mainloop_verdict:
  assumes "tx_wf st" "bLoop st \<noteq> 0" "mainloop E st = Some (Inr (v, st'))"
  shows "\<exists>ps. session E st ps st' \<and> ends_with_finish ps \<and>
    v = (if fold result_after ps (board_result st) = 0 then LedSuccess else LedFailed)"
proof -
  obtain ps where "session E st ps st'" "v = show_verdict st'"
    using mainloop_session [OF assms(3)] by blast
  then show ?thesis using session_control [OF _ assms(1)] assms(2)
    by (auto simp: show_verdict_def intro!: exI [of _ ps])
qed

section \<open>What is sent\<close>

definition reply_word :: "int \<Rightarrow> u32" where
  "reply_word ret = (if ret = 0 then 0x0002cc11 else 0x0001cc11)"

lemma words_replicate_0: "words_of_bytes (replicate (4 * n) 0) = replicate n 0"
proof (induction n)
  case (Suc n)
  have "replicate (4 * Suc n) (0 :: u8) = 0 # 0 # 0 # 0 # replicate (4 * n) 0"
    by (simp add: numeral_eq_Suc)
  then show ?case by (simp only: words_of_bytes.simps Suc) simp
qed simp

lemma reply_words:
  assumes "magic p = MAGIC"
  shows "words_of_bytes (padded (take 68 (reply_bytes p ret))) = reply_word ret # pid p # replicate 15 0"
proof -
  let ?bs = "le16 (magic p) @ le16 (reply_code ret) @ le32 (pid p) @ replicate 60 0"
  have t: "take 68 (reply_bytes p ret) = ?bs" by (simp add: reply_bytes_def)
  have pad: "padded ?bs = ?bs" by (simp add: padded_def ceil_div_def WORD_SIZE_def)
  have "le16 (magic p) @ le16 (reply_code ret) = le32 (reply_word ret)"
    by (simp add: assms reply_word_def reply_code_def protocol_codes le16_def le32_def)
  then have "?bs = le32 (reply_word ret) @ le32 (pid p) @ replicate (4 * 15) 0" by simp
  then show ?thesis unfolding t pad by (simp only: words_of_bytes_le32 words_replicate_0)
qed

lemma send_reply_run:
  assumes "tx_wf st" "magic p = MAGIC" "pool_magic (gMsgIns st) = HANDLE_MAGIC"
  shows "send_reply p ret E st = Some (Inr (st\<lparr>tx := reply_bytes p ret,
    hw := snd (tx_wait (env_bus E) (fifoIns (gMsgIns st)) 2000000
      (XLlFifo_iTxSetLen (env_bus E) (fifoIns (gMsgIns st)) 68
        (tx_words (env_bus E) (fifoIns (gMsgIns st)) (reply_word ret # pid p # replicate 15 0) (hw st))))\<rparr>))"
proof -
  let ?B = "env_bus E" and ?f = "fifoIns (gMsgIns st)"
  have "length (padded (take 68 (reply_bytes p ret))) = 68"
    by (simp add: padded_def ceil_div_def WORD_SIZE_def reply_bytes_def)
  moreover have "68 \<le> length (reply_bytes p ret)" by (simp add: reply_bytes_def)
  ultimately have "FifoSend ?B ?f (reply_bytes p ret) 68 (hw st) = Inr (tx_wait ?B ?f 2000000
      (XLlFifo_iTxSetLen ?B ?f 68 (tx_words ?B ?f (reply_word ret # pid p # replicate 15 0) (hw st))))"
    using FifoSend_words [of 68 "reply_bytes p ret" ?B ?f "hw st"] by (simp add: reply_words [OF assms(2)])
  then show ?thesis
    by (simp add: send_reply_tx [OF assms(1)] msg_pool_txsend_def assms(3) split: prod.splits)
qed

text \<open>
  C10: The board answers every request with the right magic number once its test has
  returned: one packet of 17 words, the header with the success code exactly when the test
  returned 0, the sequence number of the request, and zeros.
\<close>

theorem board_reply:
  assumes "magic p = MAGIC" "run_command p E st = Some (Inr (ret, st1))"
    and "tx_wf st" "pool_magic (gMsgIns st) = HANDLE_MAGIC"
  shows "serve_package p E st = Some (Inr (st1\<lparr>tx := reply_bytes p ret,
    hw := snd (tx_wait (env_bus E) (fifoIns (gMsgIns st)) 2000000
      (XLlFifo_iTxSetLen (env_bus E) (fifoIns (gMsgIns st)) 68
        (tx_words (env_bus E) (fifoIns (gMsgIns st)) (reply_word ret # pid p # replicate 15 0) (hw st1))))\<rparr>))"
proof -
  note c = run_command_control [OF assms(2,1)]
  have "tx_wf st1" using c(1) assms(3) by (simp add: tx_wf_def)
  from send_reply_run [OF this assms(1), of ret E] show ?thesis
    using assms by (simp add: serve_package_def package_check_def c(4))
qed

text \<open>
  A request with an unknown command runs no test, and is answered with the success
  code: the return code still holds the 0 of the magic number check.
\<close>

lemma unknown_command_succeeds:
  assumes "magic p = MAGIC" "cmd p \<notin> {REQ_CONNECT, REQ_SD_TEST, REQ_FLASH_TEST, REQ_DRAM_TEST,
      REQ_NET_TEST, REQ_ECC_TEST, REQ_RESULT, REQ_FINISH}"
    and "tx_wf st" "pool_magic (gMsgIns st) = HANDLE_MAGIC"
  shows "serve_package p E st = Some (Inr (st\<lparr>tx := reply_bytes p 0,
    hw := snd (tx_wait (env_bus E) (fifoIns (gMsgIns st)) 2000000
      (XLlFifo_iTxSetLen (env_bus E) (fifoIns (gMsgIns st)) 68
        (tx_words (env_bus E) (fifoIns (gMsgIns st)) (0x0002cc11 # pid p # replicate 15 0) (hw st))))\<rparr>))"
proof -
  have "run_command p E st = Some (Inr (0, st))"
    using assms(2) by (simp add: run_command_def)
  with send_reply_run [OF assms(3,1,4), of 0 E] assms(1) show ?thesis
    by (simp add: serve_package_def package_check_def reply_word_def)
qed

text \<open>
  The self test lights the success pattern exactly when the flash, the memory and the
  ECC test, run in this order on the state the previous one left, all return 0.
\<close>

lemma selftest_verdict:
  "selftest E st = Some (Inr (LedSuccess, st')) \<longleftrightarrow>
    (\<exists>st1 st2. run_flash E st = Some (Inr (0, st1)) \<and> run_mem E st1 = Some (Inr (0, st2)) \<and>
       run_ecc E st2 = Some (Inr (0, st')))"
  unfolding selftest_def XST_SUCCESS_def
  by (auto simp: if_runs_ok split: if_splits)

section \<open>A board for concrete runs\<close>

text \<open>Its parts work; the register bus is left open.\<close>

definition good_env :: "'h bus \<Rightarrow> ('h, qspi_event list, u64 \<Rightarrow> u8, u8 list, bool list) board_env" where
  "good_env B = \<lparr>env_bus = B, env_qspi = healthy_flash, env_mem = byte_memory beyond_window,
     env_fs = one_file 8192, env_psgpio = chip_bus\<rparr>"

definition start_board :: "'h \<Rightarrow> ('h, qspi_event list, u64 \<Rightarrow> u8, u8 list, bool list) board" where
  "start_board h = \<lparr>hw = h, flash_g = flash_init, flash_dev = [], mem_state = (\<lambda>_. 0), sd_g = sd_zero,
     fs_state = [], eth_g = eth_zero, ecc_state = idle_lib (chip_bits (replicate 32 7)),
     led_g = \<lparr>gpio_BaseAddress = 0xA0001000, gpio_IsReady = GPIO_IS_READY, gpio_InterruptPresent = 0,
              gpio_IsDual = 0\<rparr>,
     gMsgIns = empty_pool, tx = replicate 256 0, board_result = 0, bLoop = 1\<rparr>"

lemma start_board_facts:
  "tx_wf (start_board h)" "bLoop (start_board h) \<noteq> 0" "pool_magic (gMsgIns (start_board h)) = HANDLE_MAGIC"
  by (simp_all add: tx_wf_def start_board_def empty_pool_facts)

definition example_request :: "u16 \<Rightarrow> A_Package" where
  "example_request c = \<lparr>magic = MAGIC, cmd = c, pid = 7, data = replicate 248 0\<rparr>"

text \<open>A message in two words, and the register reads that deliver it and take the reply.\<close>

lemma example_unpack:
  "unpack_bytes (package_of_words [0x8cc11, 7]) = Some (example_request REQ_FINISH)"
proof -
  have "package_of_words [0x8cc11, 7] = pack_bytes (example_request REQ_FINISH)"
    by (simp add: package_of_words_def memcpy_at_def pack_bytes_def example_request_def protocol_codes
        le32_def le16_def)
  then show ?thesis using unpack_pack [of "example_request REQ_FINISH" "[]"] by simp
qed

lemma finish_session:
  "\<exists>st'. session (good_env script_bus) (start_board [1, 8, 0x8cc11, 7, 0]) [example_request REQ_FINISH] st'"
proof -
  let ?E = "good_env script_bus" and ?st = "start_board [1, 8, 0x8cc11, 7, 0]"
  obtain slot mp' where f: "msg_pool_fetch script_bus empty_pool 0 [1, 8, 0x8cc11, 7, 0] =
      Some (Inr (0, Some slot, mp', []))" "pool mp' ! slot = package_of_words [0x8cc11, 7]"
    "pool_magic mp' = HANDLE_MAGIC"
    using fetch_queue [OF empty_pool_facts(1,3) serves_one [of _ "0x8cc11" 7], of "package_of_words [0x8cc11, 7]" "[]" 0]
    by (auto simp: empty_pool_facts packages_of_def PACKAGE_MAX_SIZE_def)
  let ?st1 = "?st\<lparr>gMsgIns := mp', hw := []\<rparr>"
  let ?st2 = "?st1\<lparr>bLoop := 0\<rparr>"
  have run: "run_command (example_request REQ_FINISH) ?E ?st1 = Some (Inr (0, ?st2))"
    by (simp add: run_command_def example_request_def protocol_codes)
  have wf: "tx_wf ?st2" by (simp add: tx_wf_def start_board_def)
  have m: "pool_magic (gMsgIns ?st2) = HANDLE_MAGIC" by (simp add: f(3))
  have "magic (example_request REQ_FINISH) = MAGIC" by (simp add: example_request_def)
  note s = send_reply_run [OF wf this m, of 0 ?E]
  have "\<exists>st3. serve_package (example_request REQ_FINISH) ?E ?st1 = Some (Inr st3) \<and> bLoop st3 = 0"
  proof -
    have "package_check (example_request REQ_FINISH) = 0" by (simp add: package_check_def example_request_def)
    then show ?thesis unfolding serve_package_def run if_runs_simps prod.case s by simp
  qed
  then obtain st3 where st3: "serve_package (example_request REQ_FINISH) ?E ?st1 = Some (Inr st3)" "bLoop st3 = 0"
    by blast
  have "session ?E ?st [example_request REQ_FINISH] st3"
  proof (rule session.message)
    show "msg_pool_fetch (env_bus ?E) (gMsgIns ?st) 0 (hw ?st) = Some (Inr (0, Some slot, mp', []))"
      using f(1) by (simp add: good_env_def start_board_def)
    show "unpack_bytes (pool mp' ! slot) = Some (example_request REQ_FINISH)"
      unfolding f(2) by (rule example_unpack)
    show "serve_package (example_request REQ_FINISH) ?E (?st\<lparr>gMsgIns := mp', hw := []\<rparr>) = Some (Inr st3)"
      by (rule st3(1))
    show "session ?E st3 [] st3" using st3(2) by (rule session.ended)
  qed (rule start_board_facts)
  then show ?thesis ..
qed

theorem mainloop_verdict_witness:
  "\<exists>ps st'. session (good_env script_bus) (start_board [1, 8, 0x8cc11, 7, 0]) ps st' \<and> ends_with_finish ps"
proof -
  obtain st' where "mainloop (good_env script_bus) (start_board [1, 8, 0x8cc11, 7, 0]) =
      Some (Inr (show_verdict st', st'))"
    using finish_session session_mainloop by blast
  from mainloop_verdict [OF start_board_facts(1,2) this] show ?thesis by blast
qed

theorem board_reply_witness:
  "\<exists>st. serve_package (example_request REQ_ECC_TEST) (good_env (log_bus 0x08000000)) (start_board []) = Some (Inr st)"
proof -
  obtain e where e: "at508_test chip_bus (idle_lib (chip_bits (replicate 32 7))) = Some (Inr (0, e))"
    using chip_runs(1) [of "replicate 32 7"] by auto
  have "run_command (example_request REQ_ECC_TEST) (good_env (log_bus 0x08000000)) (start_board []) =
      Some (Inr (0, start_board []\<lparr>ecc_state := e\<rparr>))"
    using e by (simp add: run_command_def example_request_def protocol_codes run_ecc_def good_env_def start_board_def)
  from board_reply [OF _ this start_board_facts(1,3)] show ?thesis
    by (simp add: example_request_def)
qed

end
