(* ===== verification/RawSocket.thy ===== *)
theory RawSocket
  imports Prelude
begin

text \<open>
  The raw Ethernet socket of the factory host, \<open>factory_test/rs.c\<close>. The operating system is
  a record of the calls the code makes, over a state of any type. A call returns its C
  result; reads of memory nothing was written to and writes outside a buffer are faults.
\<close>

section \<open>State\<close>

text \<open>
  \<open>os_ioctl\<close> answers a request with its result and the six bytes of the hardware address
  or the interface index that it stores. \<open>os_sendto\<close> takes the frame, \<open>os_recvfrom n\<close>
  returns the length and the first bytes of the buffer of \<open>n\<close> bytes.
\<close>

datatype ioctl_request = SIOCGIFFLAGS | SIOCGIFHWADDR | SIOCGIFINDEX

record sockaddr_ll =
  sll_ifindex :: int
  sll_family :: u16
  sll_addr :: "u8 list"
  sll_halen :: u8
  sll_protocol :: u16

record 'o os =
  os_malloc :: "nat \<Rightarrow> 'o \<Rightarrow> bool \<times> 'o"
  os_free :: "'o \<Rightarrow> 'o"
  os_socket :: "u16 \<Rightarrow> 'o \<Rightarrow> int \<times> 'o"
  os_close :: "int \<Rightarrow> 'o \<Rightarrow> 'o"
  os_ioctl :: "int \<Rightarrow> ioctl_request \<Rightarrow> string \<Rightarrow> 'o \<Rightarrow> int \<times> u8 list \<times> int \<times> 'o"
  os_bind :: "int \<Rightarrow> sockaddr_ll \<Rightarrow> 'o \<Rightarrow> int \<times> 'o"
  os_sendto :: "int \<Rightarrow> u8 list \<Rightarrow> sockaddr_ll \<Rightarrow> 'o \<Rightarrow> int \<times> 'o"
  os_recvfrom :: "int \<Rightarrow> nat \<Rightarrow> 'o \<Rightarrow> int \<times> u8 list \<times> 'o"
  os_select :: "int \<Rightarrow> nat \<Rightarrow> nat \<Rightarrow> 'o \<Rightarrow> int \<times> 'o"

record RSContext =
  sfd :: int
  buflen :: nat
  rs_type :: int
  tx_buf :: "u8 list option"
  loc_mac :: "u8 list"
  device :: sockaddr_ll

definition RS_MAX_PACKAGE_LEN :: nat where "RS_MAX_PACKAGE_LEN = 1000"
definition package_header_len :: nat where "package_header_len = 14"
definition rmt_mac :: "u8 list" where "rmt_mac = [0x7F, 0xFF, 0xFF, 0xFF, 0xFF, 0xFF]"
definition AF_PACKET :: u16 where "AF_PACKET = 17"
definition IFNAMSIZ :: nat where "IFNAMSIZ = 16"

lemmas rs_consts [model_eval] =
  RS_MAX_PACKAGE_LEN_def package_header_len_def rmt_mac_def AF_PACKET_def IFNAMSIZ_def

definition zero_addr :: sockaddr_ll where
  "zero_addr = \<lparr>sll_ifindex = 0, sll_family = 0, sll_addr = replicate 8 0, sll_halen = 0, sll_protocol = 0\<rparr>"

text \<open>\<open>memset(ctx, 0, sizeof(RSContext))\<close>\<close>

definition zero_ctx :: RSContext where
  "zero_ctx = \<lparr>sfd = 0, buflen = 0, rs_type = 0, tx_buf = None, loc_mac = replicate 6 0, device = zero_addr\<rparr>"

text \<open>\<open>htons\<close> of a little-endian machine, and the two bytes it lays out.\<close>

definition htons :: "u16 \<Rightarrow> u16" where
  "htons w = push_bit 8 w OR drop_bit 8 w"

section \<open>Opening\<close>

text \<open>The clean-up at the label \<open>failed\<close>, which \<open>RSRelease\<close> repeats.\<close>

definition rs_cleanup :: "'o os \<Rightarrow> RSContext \<Rightarrow> 'o \<Rightarrow> RSContext \<times> 'o" where
  "rs_cleanup OS ctx s =
     (let s = (if sfd ctx > 0 then os_close OS (sfd ctx) s else s);
          s = (if tx_buf ctx \<noteq> None then os_free OS s else s)
      in (zero_ctx, s))"

text \<open>
  \<open>sll_halen\<close> is a byte, so that \<open>htons(6)\<close> is cut to its low byte. An interface name that
  does not fit \<open>ifr_name\<close> with its terminator is written past its end by \<open>strcpy\<close>.
\<close>

definition RSCreate :: "'o os \<Rightarrow> string \<Rightarrow> int \<Rightarrow> 'o \<Rightarrow> fault + (int \<times> RSContext \<times> 'o)" where
  "RSCreate OS ethname type s =
     (let ctx = zero_ctx\<lparr>rs_type := type, buflen := RS_MAX_PACKAGE_LEN + package_header_len\<rparr>;
          failed = (\<lambda>ctx s. let (ctx, s) = rs_cleanup OS ctx s in Inr (-1, ctx, s));
          (ok, s) = os_malloc OS (buflen ctx) s
      in if \<not> ok then failed ctx s
         else
           let ctx = ctx\<lparr>tx_buf := Some (replicate (buflen ctx) 0)\<rparr>;
               (fd, s) = os_socket OS (htons (of_int type)) s;
               ctx = ctx\<lparr>sfd := fd\<rparr>
           in if fd = -1 then failed ctx s
              else if length ethname \<ge> IFNAMSIZ then Inl OutOfBounds
              else
                let (r, _, _, s) = os_ioctl OS fd SIOCGIFFLAGS ethname s
                in if r < 0 then failed ctx s
                   else let (r, mac, _, s) = os_ioctl OS fd SIOCGIFHWADDR ethname s
                   in if r < 0 then failed ctx s
                      else
                        let ctx = ctx\<lparr>loc_mac := take 6 mac\<rparr>;
                            (r, _, if_index, s) = os_ioctl OS fd SIOCGIFINDEX ethname s
                        in if r < 0 then failed ctx s
                           else
                             let dev = zero_addr\<lparr>sll_ifindex := if_index, sll_family := AF_PACKET,
                                   sll_addr := memcpy_at 0 (loc_mac ctx) (sll_addr zero_addr),
                                   sll_halen := ucast (htons 6), sll_protocol := htons (of_int type)\<rparr>;
                                 ctx = ctx\<lparr>device := dev\<rparr>;
                                 (r, s) = os_bind OS fd dev s
                             in if r < 0 then failed ctx s
                                else
                                  let hdr = rmt_mac @ loc_mac ctx @ le16 (htons (of_int type))
                                  in Inr (0, ctx\<lparr>tx_buf := map_option (memcpy_at 0 hdr) (tx_buf ctx)\<rparr>, s))"

definition RSRelease :: "'o os \<Rightarrow> RSContext \<Rightarrow> 'o \<Rightarrow> int \<times> RSContext \<times> 'o" where
  "RSRelease OS ctx s = (let (ctx, s) = rs_cleanup OS ctx s in (0, ctx, s))"

section \<open>Sending and receiving\<close>

definition RSWrite :: "'o os \<Rightarrow> RSContext \<Rightarrow> u8 list \<Rightarrow> nat \<Rightarrow> 'o \<Rightarrow> fault + (int \<times> RSContext \<times> 'o)" where
  "RSWrite OS ctx p_data len s =
     (if len > RS_MAX_PACKAGE_LEN then Inr (-1, ctx, s)
      else case tx_buf ctx of
        None \<Rightarrow> Inl NullPointer
      | Some buf \<Rightarrow>
          if len > length p_data then Inl OutOfBounds
          else
            let buf = memcpy_at package_header_len (take len p_data) buf;
                pkg_len = len + package_header_len;
                (tx_len, s) = os_sendto OS (sfd ctx) (take pkg_len buf) (device ctx) s;
                ctx = ctx\<lparr>tx_buf := Some buf\<rparr>
            in if tx_len \<noteq> int pkg_len then Inr (-1, ctx, s) else Inr (0, ctx, s))"

text \<open>The protocol field of a received header against the type of the context.\<close>

definition checkpack :: "RSContext \<Rightarrow> u8 list \<Rightarrow> bool" where
  "checkpack ctx eth \<longleftrightarrow> int (unat (eth ! 12)) * 256 + int (unat (eth ! 13)) = rs_type ctx"

text \<open>
  \<open>rx_len <= package_header_len\<close> compares an \<open>int\<close> with a \<open>size_t\<close>, so a negative length
  counts as a huge one, and the header that is checked next was never written.
  The result is the return code and the bytes stored at \<open>p_buf\<close>.
\<close>

definition RSRead :: "'o os \<Rightarrow> RSContext \<Rightarrow> nat \<Rightarrow> 'o \<Rightarrow> fault + (int \<times> u8 list \<times> 'o)" where
  "RSRead OS ctx len s =
     (let (rx_len, pdata, s) = os_recvfrom OS (sfd ctx) (RS_MAX_PACKAGE_LEN + package_header_len) s
      in if rx_len < 0 then Inl Uninitialised
         else if nat rx_len \<le> package_header_len then Inr (-1, [], s)
         else if \<not> checkpack ctx pdata then Inr (-1, [], s)
         else
           let rx_len = nat rx_len - package_header_len;
               len = (if rx_len < len then rx_len else len)
           in Inr (0, take len (drop package_header_len pdata), s))"

text \<open>The seconds and microseconds of the timeout go to \<open>select\<close>.\<close>

definition RSSelect :: "'o os \<Rightarrow> RSContext \<Rightarrow> nat \<Rightarrow> 'o \<Rightarrow> int \<times> 'o" where
  "RSSelect OS ctx timeout_ms s =
     os_select OS (sfd ctx) (timeout_ms div 1000) (timeout_ms mod 1000 * 1000) s"

section \<open>Frames\<close>

text \<open>The frame of a payload: destination, source, type in network order, payload.\<close>

definition rs_header :: "RSContext \<Rightarrow> u8 list" where
  "rs_header ctx = rmt_mac @ loc_mac ctx @ le16 (htons (of_int (rs_type ctx)))"

definition rs_frame :: "RSContext \<Rightarrow> u8 list \<Rightarrow> u8 list" where
  "rs_frame ctx bs = rs_header ctx @ bs"

text \<open>What \<open>RSCreate\<close> sets up.\<close>

definition rs_ready :: "RSContext \<Rightarrow> bool" where
  "rs_ready ctx \<longleftrightarrow> length (loc_mac ctx) = 6 \<and> 0 \<le> rs_type ctx \<and> rs_type ctx < 65536 \<and>
     (\<exists>buf. tx_buf ctx = Some buf \<and> length buf = RS_MAX_PACKAGE_LEN + package_header_len \<and>
            take package_header_len buf = rs_header ctx)"

lemma length_rs_header: "length (loc_mac ctx) = 6 \<Longrightarrow> length (rs_header ctx) = package_header_len"
  by (simp add: rs_header_def rs_consts)

text \<open>The operating system stores six bytes of hardware address.\<close>

definition six_byte_mac :: "'o os \<Rightarrow> bool" where
  "six_byte_mac OS \<longleftrightarrow>
     (\<forall>fd r name s. length (fst (snd (os_ioctl OS fd r name s))) = 6)"

lemma le16_htons: "le16 (htons w) = [ucast (drop_bit 8 w), ucast w]"
  unfolding le16_def htons_def
  by (auto intro!: bit_word_eqI simp: bit_simps)

lemma RSCreate_ok:
  assumes "RSCreate OS ethname type s = Inr (0, ctx, s')"
  shows "\<exists>fd mac if_index s1 r i s2. os_ioctl OS fd SIOCGIFHWADDR ethname s1 = (r, mac, i, s2) \<and>
    ctx = \<lparr>sfd = fd, buflen = 1014, rs_type = type,
      tx_buf = Some (memcpy_at 0 (rmt_mac @ take 6 mac @ le16 (htons (of_int type))) (replicate 1014 0)),
      loc_mac = take 6 mac,
      device = \<lparr>sll_ifindex = if_index, sll_family = AF_PACKET,
        sll_addr = memcpy_at 0 (take 6 mac) (replicate 8 0), sll_halen = 0,
        sll_protocol = htons (of_int type)\<rparr>\<rparr>"
proof -
  obtain ok s1 where m: "os_malloc OS 1014 s = (ok, s1)" by force
  obtain fd s2 where so: "os_socket OS (htons (of_int type)) s1 = (fd, s2)" by force
  obtain r1 m1 i1 s3 where c1: "os_ioctl OS fd SIOCGIFFLAGS ethname s2 = (r1, m1, i1, s3)" by (metis prod_cases4)
  obtain r2 mac i2 s4 where c2: "os_ioctl OS fd SIOCGIFHWADDR ethname s3 = (r2, mac, i2, s4)" by (metis prod_cases4)
  obtain r3 m3 idx s5 where c3: "os_ioctl OS fd SIOCGIFINDEX ethname s4 = (r3, m3, idx, s5)" by (metis prod_cases4)
  have h6: "ucast (htons 6) = (0 :: u8)" by (simp add: htons_def)
  have "ctx = \<lparr>sfd = fd, buflen = 1014, rs_type = type,
      tx_buf = Some (memcpy_at 0 (rmt_mac @ take 6 mac @ le16 (htons (of_int type))) (replicate 1014 0)),
      loc_mac = take 6 mac,
      device = \<lparr>sll_ifindex = idx, sll_family = AF_PACKET,
        sll_addr = memcpy_at 0 (take 6 mac) (replicate 8 0), sll_halen = 0,
        sll_protocol = htons (of_int type)\<rparr>\<rparr>"
    using assms
    by (simp add: RSCreate_def Let_def RS_MAX_PACKAGE_LEN_def package_header_len_def m so c1 c2 c3
        zero_ctx_def zero_addr_def h6 split: if_splits prod.splits)
  with c2 show ?thesis by blast
qed

lemma RSCreate_result:
  assumes "RSCreate OS ethname type s = Inr (r, ctx, s')"
  shows "(r = -1 \<and> ctx = zero_ctx) \<or> r = 0"
proof -
  have cl: "fst (rs_cleanup OS c t) = zero_ctx" for c t by (simp add: rs_cleanup_def Let_def)
  show ?thesis
    using assms by (auto simp: RSCreate_def Let_def split_beta cl split: if_splits)
qed

lemma RSCreate_ready:
  assumes "RSCreate OS ethname type s = Inr (0, ctx, s')" "six_byte_mac OS" "0 \<le> type" "type < 65536"
  shows "rs_ready ctx \<and> rs_type ctx = type \<and> sll_halen (device ctx) = 0"
proof -
  obtain fd mac if_index s1 r i s2 where io: "os_ioctl OS fd SIOCGIFHWADDR ethname s1 = (r, mac, i, s2)"
    and ctx: "ctx = \<lparr>sfd = fd, buflen = 1014, rs_type = type,
      tx_buf = Some (memcpy_at 0 (rmt_mac @ take 6 mac @ le16 (htons (of_int type))) (replicate 1014 0)),
      loc_mac = take 6 mac,
      device = \<lparr>sll_ifindex = if_index, sll_family = AF_PACKET,
        sll_addr = memcpy_at 0 (take 6 mac) (replicate 8 0), sll_halen = 0,
        sll_protocol = htons (of_int type)\<rparr>\<rparr>"
    using RSCreate_ok [OF assms(1)] by blast
  have mac: "length mac = 6" using assms(2) io unfolding six_byte_mac_def by (metis fst_conv snd_conv)
  show ?thesis
    using assms(3,4) mac unfolding rs_ready_def ctx
    by (simp add: rs_header_def rs_consts memcpy_at_def)
qed

lemma RSWrite_frame:
  assumes "rs_ready ctx" "n \<le> length p" "n \<le> RS_MAX_PACKAGE_LEN"
  shows "\<exists>ctx'. rs_ready ctx' \<and> sfd ctx' = sfd ctx \<and> rs_type ctx' = rs_type ctx \<and>
    loc_mac ctx' = loc_mac ctx \<and> device ctx' = device ctx \<and>
    RSWrite OS ctx p n s =
      (let (tx_len, s') = os_sendto OS (sfd ctx) (rs_frame ctx (take n p)) (device ctx) s
       in Inr (if tx_len = int (n + 14) then 0 else -1, ctx', s'))"
proof -
  obtain buf where buf: "tx_buf ctx = Some buf" "length buf = 1014" "take 14 buf = rs_header ctx"
    using assms(1) by (auto simp: rs_ready_def rs_consts)
  let ?buf = "memcpy_at 14 (take n p) buf"
  have hdr: "length (rs_header ctx) = 14"
    using assms(1) by (auto simp: rs_ready_def length_rs_header package_header_len_def)
  have fr: "take (n + 14) ?buf = rs_frame ctx (take n p)"
    using assms(2) buf by (simp add: memcpy_at_def rs_frame_def hdr)
  have "rs_ready (ctx\<lparr>tx_buf := Some ?buf\<rparr>)"
    using assms buf hdr by (auto simp: rs_ready_def rs_consts memcpy_at_def rs_header_def)
  then show ?thesis
    using assms(2,3) buf fr
    by (intro exI [of _ "ctx\<lparr>tx_buf := Some ?buf\<rparr>"])
       (simp add: RSWrite_def package_header_len_def RS_MAX_PACKAGE_LEN_def Let_def split: prod.splits)
qed

lemma frame_type:
  assumes "rs_ready ctx"
  shows "checkpack ctx (rs_frame ctx bs)"
proof -
  have "length (loc_mac ctx) = 6" "0 \<le> rs_type ctx" "rs_type ctx < 65536"
    using assms by (auto simp: rs_ready_def)
  define t :: u16 where "t = of_int (rs_type ctx)"
  have "rs_frame ctx bs ! 12 = ucast (drop_bit 8 t) \<and> rs_frame ctx bs ! 13 = ucast t"
    using \<open>length (loc_mac ctx) = 6\<close>
    by (simp add: rs_frame_def rs_header_def rmt_mac_def le16_htons nth_append t_def)
  moreover have "unat t = nat (rs_type ctx)"
    using \<open>0 \<le> rs_type ctx\<close> \<open>rs_type ctx < 65536\<close>
    by (simp add: t_def unsigned_of_int take_bit_int_eq_self)
  moreover have "unat (ucast (drop_bit 8 t) :: u8) * 256 + unat (ucast t :: u8) = unat t"
  proof -
    have u: "unat (ucast (w :: u16) :: u8) = unat w mod 256" for w
      by transfer (simp add: take_bit_eq_mod nat_mod_distrib)
    have "unat t < 2 ^ 16" using unsigned_less [of t] by simp
    then show ?thesis by (simp only: u unat_drop_bit_eq) (simp add: drop_bit_eq_div)
  qed
  ultimately have "unat (rs_frame ctx bs ! 12) * 256 + unat (rs_frame ctx bs ! 13) = nat (rs_type ctx)" by simp
  then have "int (unat (rs_frame ctx bs ! 12) * 256 + unat (rs_frame ctx bs ! 13)) = rs_type ctx"
    using \<open>0 \<le> rs_type ctx\<close> by simp
  then show ?thesis unfolding checkpack_def by simp
qed

text \<open>Receiving a frame.\<close>

lemma RSRead_frame:
  assumes "rs_ready tx_ctx" "rs_type ctx = rs_type tx_ctx" "bs \<noteq> []"
    and "os_recvfrom OS (sfd ctx) 1014 s = (int (length bs + 14), rs_frame tx_ctx bs @ rest, s')"
  shows "RSRead OS ctx n s = Inr (0, take n bs, s')"
proof -
  have hdr: "length (rs_header tx_ctx) = 14"
    using assms(1) by (auto simp: rs_ready_def length_rs_header package_header_len_def)
  have "checkpack tx_ctx (rs_frame tx_ctx (bs @ rest))" using assms(1) by (rule frame_type)
  then have c: "checkpack ctx (rs_frame tx_ctx bs @ rest)" by (simp add: rs_frame_def checkpack_def assms(2))
  have d: "drop 14 (rs_frame tx_ctx bs @ rest) = bs @ rest" by (simp add: rs_frame_def hdr)
  have l: "nat (int (length bs + 14)) = length bs + 14" "0 < length bs" using assms(3) by simp_all
  have "take (if length bs < n then length bs else n) (bs @ rest) = take n bs" by simp
  then show ?thesis
    unfolding RSRead_def RS_MAX_PACKAGE_LEN_def package_header_len_def
    using assms(4) c l(2)
    by (simp add: d l(1) Let_def del: of_nat_add drop_append take_append)
qed

text \<open>
  A context that \<open>RSCreate\<close> set up sends a payload of at most 1000 bytes as one Ethernet
  frame: the fixed destination, the address of the interface, the type in network byte
  order, the payload; the context stays set up. \<open>RSWrite\<close> reports 0 exactly when the
  whole frame was taken.
\<close>

lemma rs_send:
  assumes "RSCreate OS ethname type s0 = Inr (0, ctx, s1)" "six_byte_mac OS" "0 \<le> type" "type < 65536"
    and "n \<le> length p" "n \<le> 1000"
  shows "\<exists>ctx'. rs_ready ctx' \<and> RSWrite OS ctx p n s =
    (let (tx_len, s') = os_sendto OS (sfd ctx)
           (rmt_mac @ loc_mac ctx @ [of_int (type div 256), of_int type] @ take n p) (device ctx) s
     in Inr (if tx_len = int (n + 14) then 0 else -1, ctx', s'))"
proof -
  have r: "rs_ready ctx" "rs_type ctx = type" using RSCreate_ready [OF assms(1-4)] by simp_all
  have v: "ucast (of_int type :: u16) = (of_int type :: u8)"
    by (rule bit_word_eqI) (simp only: bit_ucast_iff bit_word_of_int_iff, simp)
  have u: "ucast (drop_bit 8 (of_int type :: u16)) = (of_int (type div 256) :: u8)"
  proof -
    have "ucast (drop_bit 8 (of_int type :: u16)) = (of_int (drop_bit 8 type) :: u8)"
      by (rule bit_word_eqI) (simp only: bit_ucast_iff bit_drop_bit_eq comp_apply bit_word_of_int_iff, simp)
    then show ?thesis by (simp only: drop_bit_eq_div) simp
  qed
  have "rs_frame ctx (take n p) = rmt_mac @ loc_mac ctx @ [of_int (type div 256), of_int type] @ take n p"
    by (simp add: rs_frame_def rs_header_def le16_htons r(2) u v)
  then show ?thesis
    using RSWrite_frame [OF r(1) assms(5), of OS s] assms(6) by (auto simp: RS_MAX_PACKAGE_LEN_def)
qed

text \<open>
  What one context sends, another one of the same type receives: a frame with a payload
  of 1 to 1000 bytes that arrives complete is accepted and its payload delivered.
\<close>

lemma rs_roundtrip:
  assumes "rs_ready tx_ctx" "rs_ready rx_ctx" "rs_type rx_ctx = rs_type tx_ctx"
    and "0 < n" "n \<le> length p" "n \<le> 1000"
    and "os_sendto OS (sfd tx_ctx) (rs_frame tx_ctx (take n p)) (device tx_ctx) s = (int (n + 14), s1)"
    and "os_recvfrom OS (sfd rx_ctx) 1014 s1 =
           (int (n + 14), rs_frame tx_ctx (take n p) @ rest, s2)"
  shows "\<exists>ctx'. RSWrite OS tx_ctx p n s = Inr (0, ctx', s1) \<and>
    RSRead OS rx_ctx 1024 s1 = Inr (0, take n p, s2)"
proof -
  obtain ctx' where "RSWrite OS tx_ctx p n s = Inr (0, ctx', s1)"
    using RSWrite_frame [OF assms(1,5), of OS s] assms(6,7) by (auto simp: RS_MAX_PACKAGE_LEN_def)
  moreover have "length (take n p) = n" "take n p \<noteq> []" using assms(4,5) by auto
  then have "RSRead OS rx_ctx 1024 s1 = Inr (0, take 1024 (take n p), s2)"
    using RSRead_frame [OF assms(1,3), of "take n p" OS s1 rest s2 1024] assms(8) by simp
  ultimately show ?thesis using assms(6) by (simp add: min_def)
qed

text \<open>
  A failed \<open>recvfrom\<close> is not noticed: its result \<open>-1\<close> passes the length check, and
  \<open>RSRead\<close> goes on to inspect a frame buffer nothing was written to. It does so exactly then.
\<close>

lemma RSRead_unnoticed_error:
  "RSRead OS ctx n s = Inl Uninitialised \<longleftrightarrow> fst (os_recvfrom OS (sfd ctx) 1014 s) < 0"
  by (cases "os_recvfrom OS (sfd ctx) 1014 s")
     (auto simp: RSRead_def RS_MAX_PACKAGE_LEN_def package_header_len_def Let_def)

text \<open>
  When \<open>RSCreate\<close> reports a failure, the context is cleared. When it succeeds, the
  context is ready for sending, but the length of the hardware address in the socket
  address is 0 and not 6, since \<open>htons(6)\<close> does not fit the byte.
\<close>

lemma RSCreate_outcomes:
  assumes "six_byte_mac OS" "0 \<le> type" "type < 65536"
    and "RSCreate OS ethname type s = Inr (r, ctx, s')"
  shows "(r = -1 \<and> ctx = zero_ctx) \<or> (r = 0 \<and> rs_ready ctx \<and> rs_type ctx = type \<and> sll_halen (device ctx) = 0)"
proof -
  have "(r = -1 \<and> ctx = zero_ctx) \<or> r = 0" using assms(4) by (rule RSCreate_result)
  then show ?thesis using RSCreate_ready [OF _ assms(1-3)] assms(4) by blast
qed

section \<open>A wire for concrete runs\<close>

text \<open>The frames sent and not yet received are its state.\<close>

definition wire_os :: "u8 list list os" where
  "wire_os =
    \<lparr>os_malloc = (\<lambda>_ s. (True, s)), os_free = (\<lambda>s. s), os_socket = (\<lambda>_ s. (3, s)), os_close = (\<lambda>_ s. s),
     os_ioctl = (\<lambda>_ _ _ s. (0, [2, 0, 0, 0, 0, 1], 4, s)), os_bind = (\<lambda>_ _ s. (0, s)),
     os_sendto = (\<lambda>_ f _ s. (int (length f), s @ [f])),
     os_recvfrom = (\<lambda>_ _ s. case s of [] \<Rightarrow> (-1, [], []) | f # fs \<Rightarrow> (int (length f), f, fs)),
     os_select = (\<lambda>_ _ _ s. (if s = [] then 0 else 1, s))\<rparr>"

lemma wire_sendto: "os_sendto wire_os fd f d s = (int (length f), s @ [f])"
  by (simp add: wire_os_def)

lemma wire_facts: "six_byte_mac wire_os"
  by (simp add: six_byte_mac_def wire_os_def)

lemma wire_create: "\<exists>ctx. RSCreate wire_os ''eth0'' 0xFF00 [] = Inr (0, ctx, [])"
  by (simp add: RSCreate_def wire_os_def rs_consts)

end
