(* ===== verification/FactoryHost.thy ===== *)
theory FactoryHost
  imports RawSocket Protocol
begin

text \<open>
  The factory host, \<open>factory_test/ftest.c\<close>: one request and its reply (\<open>_do\<close>), and the
  sequence of tests of \<open>main\<close>. The static buffers \<open>tx\<close> and \<open>rx\<close> are cleared at the start
  of every request, so they are local here.
\<close>

section \<open>A request\<close>

definition host_buffer_size :: nat where "host_buffer_size = 1024"

definition zero_package :: A_Package where
  "zero_package = \<lparr>magic = 0, cmd = 0, pid = 0, data = replicate (host_buffer_size - sizeof_A_Package) 0\<rparr>"

text \<open>What \<open>_do\<close> makes of the received bytes, in a buffer that was zero.\<close>

definition reply_status :: "u32 \<Rightarrow> u8 list \<Rightarrow> fault + int" where
  "reply_status i bytes =
     (case unpack_bytes (memcpy_at 0 bytes (replicate host_buffer_size 0)) of
        None \<Rightarrow> Inl OutOfBounds
      | Some rp \<Rightarrow> Inr (if pid rp = i then (if cmd rp = RET_SUCCES then 0 else 1) else 0))"

definition host_do ::
    "'o os \<Rightarrow> mk_pkg \<Rightarrow> nat \<Rightarrow> RSContext \<Rightarrow> host_globals \<Rightarrow> 'o \<Rightarrow>
     fault + (int \<times> RSContext \<times> host_globals \<times> 'o)" where
  "host_do OS func timeout_s ctx g s =
     (let (wlen, p, g) = func zero_package g
      in case RSWrite OS ctx (pack_bytes p) wlen s of
           Inl e \<Rightarrow> Inl e
         | Inr (r, ctx, s) \<Rightarrow>
             if r < 0 then Inr (-1, ctx, g, s)
             else
               let (ret, s) = RSSelect OS ctx (timeout_s * 1000) s
               in if ret > 0 then
                    (case RSRead OS ctx host_buffer_size s of
                       Inl e \<Rightarrow> Inl e
                     | Inr (ret, bytes, s) \<Rightarrow>
                         if ret < 0 then Inr (-1, ctx, g, s)
                         else case reply_status (pid p) bytes of
                           Inl e \<Rightarrow> Inl e
                         | Inr st \<Rightarrow> Inr (st, ctx, g, s))
                  else Inr (-1, ctx, g, s))"

section \<open>The sequence of tests\<close>

text \<open>The tests of \<open>main\<close> with their time limits; a test that does not return 0 ends them.\<close>

definition host_tests :: "(mk_pkg \<times> nat) list" where
  "host_tests =
     [(make_package_conn, 10), (make_package_memtest, 80), (make_package_flash_test, 60),
      (make_package_ecc_test, 60)]"

fun run_requests ::
    "'o os \<Rightarrow> (mk_pkg \<times> nat) list \<Rightarrow> RSContext \<Rightarrow> host_globals \<Rightarrow> 'o \<Rightarrow>
     fault + (int \<times> RSContext \<times> host_globals \<times> 'o)" where
  "run_requests OS [] ctx g s = Inr (0, ctx, g, s)"
| "run_requests OS ((func, t) # rest) ctx g s =
     (case host_do OS func t ctx g s of
        Inl e \<Rightarrow> Inl e
      | Inr (ret, ctx, g, s) \<Rightarrow>
          if ret \<noteq> 0 then Inr (ret, ctx, g, s) else run_requests OS rest ctx g s)"

text \<open>The labels \<open>failed\<close> and \<open>success\<close>: the results of the last requests are ignored.\<close>

definition host_finish ::
    "'o os \<Rightarrow> int \<Rightarrow> RSContext \<Rightarrow> host_globals \<Rightarrow> 'o \<Rightarrow> fault + (int \<times> host_globals \<times> 'o)" where
  "host_finish OS ret ctx g s =
     (case host_do OS make_package_finish 2 ctx g s of
        Inl e \<Rightarrow> Inl e
      | Inr (_, ctx, g, s) \<Rightarrow> let (_, ctx, s) = RSRelease OS ctx s in Inr (ret, g, s))"

definition host_report ::
    "'o os \<Rightarrow> int \<Rightarrow> RSContext \<Rightarrow> host_globals \<Rightarrow> 'o \<Rightarrow> fault + (int \<times> host_globals \<times> 'o)" where
  "host_report OS ret ctx g s =
     (if ret = 0 then host_finish OS ret ctx g s
      else case host_do OS make_package_result 2 ctx (g\<lparr>result := 1\<rparr>) s of
             Inl e \<Rightarrow> Inl e
           | Inr (_, ctx, g, s) \<Rightarrow> host_finish OS ret ctx g s)"

text \<open>\<open>atoi\<close> of the C library, without its undefined overflow.\<close>

definition digit :: "char \<Rightarrow> int option" where
  "digit c = (let k = int (of_char c) - 48 in if 0 \<le> k \<and> k \<le> 9 then Some k else None)"

fun atoi_digits :: "int \<Rightarrow> string \<Rightarrow> int" where
  "atoi_digits n [] = n"
| "atoi_digits n (c # cs) = (case digit c of None \<Rightarrow> n | Some k \<Rightarrow> atoi_digits (10 * n + k) cs)"

fun atoi :: "string \<Rightarrow> int" where
  "atoi [] = 0"
| "atoi (c # cs) =
     (if (of_char c :: nat) = 32 \<or> 9 \<le> (of_char c :: nat) \<and> (of_char c :: nat) \<le> 13 then atoi cs
      else if c = CHR ''-'' then - atoi_digits 0 cs
      else if c = CHR ''+'' then atoi_digits 0 cs
      else atoi_digits 0 (c # cs))"

text \<open>An unknown type is printed and used as it is.\<close>

definition ether_type :: "int \<Rightarrow> int" where
  "ether_type t =
     (if t = 0 then 0xFF00 else if t = 1 then 0xFF01 else if t = 2 then 0xFF02 else t)"

definition host_main :: "'o os \<Rightarrow> string list \<Rightarrow> host_globals \<Rightarrow> 'o \<Rightarrow> fault + (int \<times> host_globals \<times> 'o)" where
  "host_main OS argv g s =
     (case argv of
        _ # ethname # t # _ \<Rightarrow>
          (case RSCreate OS ethname (ether_type (atoi t)) s of
             Inl e \<Rightarrow> Inl e
           | Inr (ret, ctx, s) \<Rightarrow>
               if ret \<noteq> 0 then Inr (-1, g, s)
               else case run_requests OS host_tests ctx g s of
                      Inl e \<Rightarrow> Inl e
                    | Inr (ret, ctx, g, s) \<Rightarrow> host_report OS ret ctx g s)
      | _ \<Rightarrow> Inr (-1, g, s))"

section \<open>What a request does\<close>

text \<open>The builders differ in the command and in the number of bytes only.\<close>

definition builds :: "mk_pkg \<Rightarrow> u16 \<Rightarrow> bool" where
  "builds func c \<longleftrightarrow> (\<forall>p g. func p g = (sizeof_A_Package, p\<lparr>pid := gpid g, magic := MAGIC, cmd := c\<rparr>,
     g\<lparr>gpid := gpid g + 1\<rparr>))"

lemma builders:
  "builds make_package_sd_test REQ_SD_TEST" "builds make_package_flash_test REQ_FLASH_TEST"
  "builds make_package_net_test REQ_NET_TEST" "builds make_package_memtest REQ_DRAM_TEST"
  "builds make_package_ecc_test REQ_ECC_TEST" "builds make_package_conn REQ_CONNECT"
  "builds make_package_finish REQ_FINISH"
  by (simp_all add: builds_def make_package_defs)

lemma make_result:
  "make_package_result p g = (sizeof_A_Package + 1,
     p\<lparr>pid := gpid g, magic := MAGIC, cmd := REQ_RESULT, data := (data p)[0 := result g]\<rparr>,
     g\<lparr>gpid := gpid g + 1\<rparr>)"
  by (simp add: make_package_defs)

definition request_bytes :: "u16 \<Rightarrow> u32 \<Rightarrow> u8 list" where
  "request_bytes c i = le16 MAGIC @ le16 c @ le32 i"

definition same_link :: "RSContext \<Rightarrow> RSContext \<Rightarrow> bool" where
  "same_link ctx ctx' \<longleftrightarrow> rs_ready ctx' \<and> sfd ctx' = sfd ctx \<and> rs_type ctx' = rs_type ctx \<and>
     loc_mac ctx' = loc_mac ctx \<and> device ctx' = device ctx"

lemma same_link_frame: "same_link ctx ctx' \<Longrightarrow> rs_frame ctx' bs = rs_frame ctx bs"
  by (simp add: same_link_def rs_frame_def rs_header_def)

text \<open>
  The operating system takes the frame of the request \<open>req\<close>, reports within the time limit
  that something arrived, and delivers the frame of \<open>reply\<close>.
\<close>

definition exchange ::
    "'o os \<Rightarrow> RSContext \<Rightarrow> u8 list \<Rightarrow> nat \<Rightarrow> 'o \<Rightarrow> u8 list \<Rightarrow> 'o \<Rightarrow> bool" where
  "exchange OS ctx req timeout_s s reply s' \<longleftrightarrow>
     (\<exists>s1 s2 n rest. os_sendto OS (sfd ctx) (rs_frame ctx req) (device ctx) s = (int (length req + 14), s1) \<and>
        os_select OS (sfd ctx) timeout_s 0 s1 = (n, s2) \<and> n > 0 \<and>
        os_recvfrom OS (sfd ctx) 1014 s2 = (int (length reply + 14), rs_frame ctx reply @ rest, s'))"

lemma host_do_exchange:
  assumes "func zero_package g = (n, p, g')" "n \<le> length (pack_bytes p)" "n \<le> 1000"
    and "rs_ready ctx" "exchange OS ctx (take n (pack_bytes p)) t s reply s'" "reply \<noteq> []"
  shows "\<exists>ctx'. same_link ctx ctx' \<and> host_do OS func t ctx g s =
    (case reply_status (pid p) (take 1024 reply) of
       Inl e \<Rightarrow> Inl e | Inr st \<Rightarrow> Inr (st, ctx', g', s'))"
proof -
  obtain s1 s2 k rest where ex:
    "os_sendto OS (sfd ctx) (rs_frame ctx (take n (pack_bytes p))) (device ctx) s = (int (n + 14), s1)"
    "os_select OS (sfd ctx) t 0 s1 = (k, s2)" "k > 0"
    "os_recvfrom OS (sfd ctx) 1014 s2 = (int (length reply + 14), rs_frame ctx reply @ rest, s')"
    using assms(2,5) unfolding exchange_def by auto
  obtain ctx' where ctx': "rs_ready ctx'" "sfd ctx' = sfd ctx" "rs_type ctx' = rs_type ctx"
    "loc_mac ctx' = loc_mac ctx" "device ctx' = device ctx"
    "RSWrite OS ctx (pack_bytes p) n s = Inr (0, ctx', s1)"
    using RSWrite_frame [OF assms(4,2), of OS s] assms(3) ex(1) by (auto simp: RS_MAX_PACKAGE_LEN_def)
  have "RSRead OS ctx' 1024 s2 = Inr (0, take 1024 reply, s')"
    using RSRead_frame [OF assms(4) ctx'(3) assms(6), of OS s2 rest s' 1024] ex(4) ctx'(2) by simp
  then have "host_do OS func t ctx g s =
    (case reply_status (pid p) (take 1024 reply) of Inl e \<Rightarrow> Inl e | Inr st \<Rightarrow> Inr (st, ctx', g', s'))"
    using ex ctx' by (simp add: host_do_def assms(1) RSSelect_def host_buffer_size_def)
  then show ?thesis using ctx' unfolding same_link_def by blast
qed

lemma reply_status_header:
  assumes "length rest \<le> 1016"
  shows "reply_status i (le16 m @ le16 c @ le32 j @ rest) =
    Inr (if j = i then (if c = RET_SUCCES then 0 else 1) else 0)"
proof -
  let ?p = "\<lparr>magic = m, cmd = c, pid = j, data = rest\<rparr>"
  have "memcpy_at 0 (le16 m @ le16 c @ le32 j @ rest) (replicate host_buffer_size 0) =
      pack_bytes ?p @ replicate (1016 - length rest) 0"
    by (simp add: memcpy_at_def pack_bytes_def host_buffer_size_def)
  then show ?thesis by (simp add: reply_status_def unpack_pack)
qed

lemma pack_request:
  assumes "builds func c"
  shows "func zero_package g = (8, zero_package\<lparr>pid := gpid g, magic := MAGIC, cmd := c\<rparr>, g\<lparr>gpid := gpid g + 1\<rparr>)"
    and "take 8 (pack_bytes (zero_package\<lparr>pid := i, magic := MAGIC, cmd := c\<rparr>)) = request_bytes c i"
    and "8 \<le> length (pack_bytes (zero_package\<lparr>pid := i, magic := MAGIC, cmd := c\<rparr>))"
  using assms by (simp_all add: builds_def sizeof_A_Package_def pack_bytes_def request_bytes_def)

lemma host_do_request:
  assumes "builds func c" "rs_ready ctx" "exchange OS ctx (request_bytes c (gpid g)) t s reply s'"
    and "reply = le16 m @ le16 code @ le32 j @ rest" "length rest \<le> 1016"
  shows "\<exists>ctx'. same_link ctx ctx' \<and> host_do OS func t ctx g s =
    Inr (if j = gpid g then (if code = RET_SUCCES then 0 else 1) else 0, ctx', g\<lparr>gpid := gpid g + 1\<rparr>, s')"
proof -
  have ne: "reply \<noteq> []" by (auto simp: assms(4) le16_def)
  have t: "take 1024 reply = reply" using assms(4,5) by simp
  note pk = pack_request(1) [OF assms(1), of g] pack_request(2) [OF assms(1), of "gpid g"]
    pack_request(3) [OF assms(1), of "gpid g"]
  have "exchange OS ctx (take 8 (pack_bytes (zero_package\<lparr>pid := gpid g, magic := MAGIC, cmd := c\<rparr>))) t s reply s'"
    using assms(3) by (simp only: pk(2))
  from host_do_exchange [where func = func, OF pk(1) pk(3) _ assms(2) this ne] show ?thesis
    unfolding t by (simp add: assms(4) reply_status_header [OF assms(5)])
qed

text \<open>
  A request that is sent and answered has the result of the reply it gets only if the
  reply carries its sequence number. A reply with another number, a late answer to an
  earlier request say, counts as success whatever its code is.
\<close>

lemma host_do_reply:
  assumes "builds func c" "rs_ready ctx" "exchange OS ctx (request_bytes c (gpid g)) t s reply s'"
    and "reply = le16 m @ le16 code @ le32 j @ rest" "length rest \<le> 1016"
  shows "\<exists>ctx'. host_do OS func t ctx g s =
    Inr (if j \<noteq> gpid g then 0 else if code = RET_SUCCES then 0 else 1, ctx', g\<lparr>gpid := gpid g + 1\<rparr>, s')"
  using host_do_request [OF assms] by auto


section \<open>A link that answers everything alike\<close>

definition stray_reply :: "u8 list" where
  "stray_reply = le16 MAGIC @ le16 RET_FAILED @ le32 0xFFFFFFFF @ []"

definition stray_os :: "unit os" where
  "stray_os =
    \<lparr>os_malloc = (\<lambda>_ s. (True, s)), os_free = (\<lambda>s. s), os_socket = (\<lambda>_ s. (3, s)), os_close = (\<lambda>_ s. s),
     os_ioctl = (\<lambda>_ _ _ s. (0, [2, 0, 0, 0, 0, 1], 4, s)), os_bind = (\<lambda>_ _ s. (0, s)),
     os_sendto = (\<lambda>_ f _ s. (int (length f), s)),
     os_recvfrom = (\<lambda>_ _ s. (22, rmt_mac @ [2, 0, 0, 0, 0, 1] @ [0xFF, 0x00] @ stray_reply, s)),
     os_select = (\<lambda>_ _ _ s. (1, s))\<rparr>"

definition stray_ctx :: "RSContext \<Rightarrow> bool" where
  "stray_ctx ctx \<longleftrightarrow> rs_ready ctx \<and> rs_type ctx = 0xFF00 \<and> loc_mac ctx = [2, 0, 0, 0, 0, 1]"

lemma stray_create: "\<exists>ctx. RSCreate stray_os ''eth0'' 0xFF00 () = Inr (0, ctx, ()) \<and> stray_ctx ctx"
proof -
  have "\<exists>ctx. RSCreate stray_os ''eth0'' 0xFF00 () = Inr (0, ctx, ()) \<and> loc_mac ctx = [2, 0, 0, 0, 0, 1]"
    by (simp add: RSCreate_def stray_os_def rs_consts)
  moreover have "six_byte_mac stray_os" by (simp add: six_byte_mac_def stray_os_def)
  ultimately show ?thesis using RSCreate_ready [of stray_os "''eth0''" "0xFF00" "()"]
    by (fastforce simp: stray_ctx_def)
qed

lemma stray_exchange:
  assumes "stray_ctx ctx"
  shows "exchange stray_os ctx req t () stray_reply ()"
proof -
  have "rs_frame ctx stray_reply = rmt_mac @ [2, 0, 0, 0, 0, 1] @ [0xFF, 0x00] @ stray_reply"
    using assms by (simp add: stray_ctx_def rs_frame_def rs_header_def le16_htons)
  moreover have "length stray_reply = 8" by (simp add: stray_reply_def)
  moreover have "length (rs_frame ctx req) = length req + 14"
    using assms by (simp add: stray_ctx_def rs_frame_def rs_header_def rmt_mac_def)
  ultimately show ?thesis
    unfolding exchange_def by (intro exI [of _ "()"] exI [of _ "1 :: int"] exI [of _ "[]"]) (simp add: stray_os_def)
qed

lemma stray_do:
  assumes "builds func c" "stray_ctx ctx" "gpid g \<noteq> 0xFFFFFFFF"
  shows "\<exists>ctx'. stray_ctx ctx' \<and> host_do stray_os func t ctx g () = Inr (0, ctx', g\<lparr>gpid := gpid g + 1\<rparr>, ())"
proof -
  have "rs_ready ctx" using assms(2) by (simp add: stray_ctx_def)
  from host_do_request [OF assms(1) this stray_exchange [OF assms(2)] stray_reply_def, of t]
  obtain ctx' where c: "same_link ctx ctx'" and d: "host_do stray_os func t ctx g () =
      Inr (if 0xFFFFFFFF = gpid g then (if RET_FAILED = RET_SUCCES then 0 else 1) else 0, ctx',
           g\<lparr>gpid := gpid g + 1\<rparr>, ())" by auto
  have "stray_ctx ctx'" using c assms(2) by (simp add: stray_ctx_def same_link_def)
  then show ?thesis using d assms(3) by auto
qed

lemma stray_run:
  "\<exists>g'. host_main stray_os [''ftest'', ''eth0'', ''0''] \<lparr>gpid = 0, result = 0\<rparr> () = Inr (0, g', ())"
proof -
  obtain c0 where c0: "RSCreate stray_os ''eth0'' 0xFF00 () = Inr (0, c0, ())" "stray_ctx c0"
    using stray_create by blast
  have a: "ether_type (atoi ''0'') = 0xFF00" by (simp add: ether_type_def digit_def)
  obtain c1 where c1: "stray_ctx c1" "host_do stray_os make_package_conn 10 c0 \<lparr>gpid = 0, result = 0\<rparr> () =
      Inr (0, c1, \<lparr>gpid = 1, result = 0\<rparr>, ())"
    using stray_do [OF builders(6) c0(2), of "\<lparr>gpid = 0, result = 0\<rparr>" 10] by auto
  obtain c2 where c2: "stray_ctx c2" "host_do stray_os make_package_memtest 80 c1 \<lparr>gpid = 1, result = 0\<rparr> () =
      Inr (0, c2, \<lparr>gpid = 2, result = 0\<rparr>, ())"
    using stray_do [OF builders(4) c1(1), of "\<lparr>gpid = 1, result = 0\<rparr>" 80] by auto
  obtain c3 where c3: "stray_ctx c3" "host_do stray_os make_package_flash_test 60 c2 \<lparr>gpid = 2, result = 0\<rparr> () =
      Inr (0, c3, \<lparr>gpid = 3, result = 0\<rparr>, ())"
    using stray_do [OF builders(2) c2(1), of "\<lparr>gpid = 2, result = 0\<rparr>" 60] by auto
  obtain c4 where c4: "stray_ctx c4" "host_do stray_os make_package_ecc_test 60 c3 \<lparr>gpid = 3, result = 0\<rparr> () =
      Inr (0, c4, \<lparr>gpid = 4, result = 0\<rparr>, ())"
    using stray_do [OF builders(5) c3(1), of "\<lparr>gpid = 3, result = 0\<rparr>" 60] by auto
  obtain c5 where c5: "host_do stray_os make_package_finish 2 c4 \<lparr>gpid = 4, result = 0\<rparr> () =
      Inr (0, c5, \<lparr>gpid = 5, result = 0\<rparr>, ())"
    using stray_do [OF builders(7) c4(1), of "\<lparr>gpid = 4, result = 0\<rparr>" 2] by auto
  have r: "run_requests stray_os host_tests c0 \<lparr>gpid = 0, result = 0\<rparr> () = Inr (0, c4, \<lparr>gpid = 4, result = 0\<rparr>, ())"
    unfolding host_tests_def by (simp add: c1(2) c2(2) c3(2) c4(2))
  show ?thesis
    unfolding host_main_def list.case a c0(1)
    by (simp add: r host_report_def host_finish_def c5 RSRelease_def split: prod.splits)
qed

text \<open>
  The host reports success although every reply it got said FAILED, if none of them
  carried the number of a request: each stray reply counts as a success.
\<close>

lemma host_accepts_strays:
  "\<exists>g'. host_main stray_os [''ftest'', ''eth0'', ''0''] \<lparr>gpid = 0, result = 0\<rparr> () = Inr (0, g', ())"
  by (rule stray_run)


end
