(* ===== verification/Factory.thy ===== *)
theory Factory
  imports Board FactoryHost
begin

text \<open>
  Host and board together: a link that delivers every frame of the host to the board's
  handler (\<open>serve_package\<close>) and its reply to the host. The link is ideal; what is under it,
  the Ethernet logic in the FPGA, is not part of the repository.
\<close>

section \<open>The link\<close>

record ('h, 'd, 'm, 'f, 'e) wire =
  w_board :: "('h, 'd, 'm, 'f, 'e) board"
  w_frames :: "u8 list list"

text \<open>
  The payload of a frame arrives in a slot of 256 bytes. The board sends the first 68 bytes
  of its transmit buffer if it replies.
\<close>

definition board_answer ::
    "('h, 'd, 'm, 'f, 'e) board_env \<Rightarrow> u8 list \<Rightarrow> ('h, 'd, 'm, 'f, 'e) wire \<Rightarrow> ('h, 'd, 'm, 'f, 'e) wire" where
  "board_answer E f w =
     (case unpack_bytes (memcpy_at 0 (drop package_header_len f) (replicate PACKAGE_MAX_SIZE 0)) of
        None \<Rightarrow> w
      | Some p \<Rightarrow>
          if bLoop (w_board w) = 0 then w
          else case serve_package p E (w_board w) of
            Some (Inr st) \<Rightarrow>
              \<lparr>w_board = st,
               w_frames = w_frames w @
                 (if package_check p = 0 then [take package_header_len f @ take 68 (tx st)] else [])\<rparr>
          | _ \<Rightarrow> w)"

definition board_os :: "('h, 'd, 'm, 'f, 'e) board_env \<Rightarrow> ('h, 'd, 'm, 'f, 'e) wire os" where
  "board_os E =
    \<lparr>os_malloc = (\<lambda>_ w. (True, w)), os_free = (\<lambda>w. w), os_socket = (\<lambda>_ w. (3, w)), os_close = (\<lambda>_ w. w),
     os_ioctl = (\<lambda>_ _ _ w. (0, [2, 0, 0, 0, 0, 1], 4, w)), os_bind = (\<lambda>_ _ w. (0, w)),
     os_sendto = (\<lambda>_ f _ w. (int (length f), board_answer E f w)),
     os_recvfrom = (\<lambda>_ _ w. case w_frames w of [] \<Rightarrow> (-1, [], w)
       | f # fs \<Rightarrow> (int (length f), f, w\<lparr>w_frames := fs\<rparr>)),
     os_select = (\<lambda>_ _ _ w. (if w_frames w = [] then 0 else 1, w))\<rparr>"

section \<open>One request\<close>

definition ready_board :: "('h, 'd, 'm, 'f, 'e) board \<Rightarrow> bool" where
  "ready_board st \<longleftrightarrow> tx_wf st \<and> bLoop st \<noteq> 0 \<and> pool_magic (gMsgIns st) = HANDLE_MAGIC \<and> led_ready (led_g st)"

text \<open>The state of the tests, which sending a reply leaves alone.\<close>

definition same_tests :: "('h, 'd, 'm, 'f, 'e) board \<Rightarrow> ('h, 'd, 'm, 'f, 'e) board \<Rightarrow> bool" where
  "same_tests st st' \<longleftrightarrow> flash_g st' = flash_g st \<and> flash_dev st' = flash_dev st \<and>
     mem_state st' = mem_state st \<and> ecc_state st' = ecc_state st \<and> board_result st' = board_result st \<and>
     bLoop st' = bLoop st \<and> gMsgIns st' = gMsgIns st \<and> led_g st' = led_g st"

definition host_package :: "u16 \<Rightarrow> u32 \<Rightarrow> u8 list \<Rightarrow> A_Package" where
  "host_package c i d = \<lparr>magic = MAGIC, cmd = c, pid = i, data = d @ replicate (248 - length d) 0\<rparr>"

lemma board_serves:
  assumes "run_command (host_package c i d) E st = Some (Inr (ret, st1))" "ready_board st"
  shows "\<exists>st2. serve_package (host_package c i d) E st = Some (Inr st2) \<and> same_tests st1 st2 \<and> tx_wf st2 \<and>
    take 68 (tx st2) = le16 MAGIC @ le16 (reply_code ret) @ le32 i @ replicate 60 0"
proof -
  let ?p = "host_package c i d"
  have m: "magic ?p = MAGIC" by (simp add: host_package_def)
  note rc = run_command_control [OF assms(1) m]
  have wf: "tx_wf st1" "pool_magic (gMsgIns st1) = HANDLE_MAGIC"
    using rc assms(2) by (simp_all add: tx_wf_def ready_board_def)
  have t: "take 68 (reply_bytes ?p ret) = le16 MAGIC @ le16 (reply_code ret) @ le32 i @ replicate 60 0"
    by (simp add: reply_bytes_def host_package_def)
  have w: "tx_wf (st1\<lparr>tx := reply_bytes ?p ret, hw := h\<rparr>)" for h
    by (simp add: tx_wf_def reply_bytes_def)
  show ?thesis
    unfolding serve_package_def assms(1) if_runs_simps prod.case send_reply_run [OF wf(1) m wf(2)]
    using w t by (simp add: package_check_def m same_tests_def)
qed

lemma board_exchange:
  assumes "run_command (host_package c i d) E st = Some (Inr (ret, st1))" "ready_board st" "rs_ready ctx"
    and "length d \<le> 248"
  shows "\<exists>st2. exchange (board_os E) ctx (request_bytes c i @ d) t \<lparr>w_board = st, w_frames = []\<rparr>
      (le16 MAGIC @ le16 (reply_code ret) @ le32 i @ replicate 60 0) \<lparr>w_board = st2, w_frames = []\<rparr> \<and>
    same_tests st1 st2 \<and> tx_wf st2"
proof -
  let ?reply = "le16 MAGIC @ le16 (reply_code ret) @ le32 i @ replicate 60 0"
  obtain st2 where s: "serve_package (host_package c i d) E st = Some (Inr st2)" "same_tests st1 st2" "tx_wf st2"
    "take 68 (tx st2) = ?reply" using board_serves [OF assms(1,2)] by blast
  have hdr: "length (rs_header ctx) = 14"
    using assms(3) by (auto simp: rs_ready_def length_rs_header package_header_len_def)
  have "memcpy_at 0 (request_bytes c i @ d) (replicate PACKAGE_MAX_SIZE 0) = pack_bytes (host_package c i d) @ []"
    using assms(4) by (simp add: memcpy_at_def request_bytes_def pack_bytes_def host_package_def PACKAGE_MAX_SIZE_def)
  then have u: "unpack_bytes (memcpy_at 0 (request_bytes c i @ d) (replicate PACKAGE_MAX_SIZE 0)) =
      Some (host_package c i d)" using unpack_pack [of "host_package c i d" "[]"] by simp
  have b: "bLoop st \<noteq> 0" using assms(2) by (simp add: ready_board_def)
  have pc: "package_check (host_package c i d) = 0" by (simp add: package_check_def host_package_def)
  have "board_answer E (rs_frame ctx (request_bytes c i @ d)) \<lparr>w_board = st, w_frames = []\<rparr> =
      \<lparr>w_board = st2, w_frames = [rs_frame ctx ?reply]\<rparr>"
    unfolding board_answer_def rs_frame_def package_header_len_def
    by (simp add: hdr u s(1) b pc s(4))
  then have "exchange (board_os E) ctx (request_bytes c i @ d) t \<lparr>w_board = st, w_frames = []\<rparr>
      ?reply \<lparr>w_board = st2, w_frames = []\<rparr>"
    unfolding exchange_def board_os_def by (simp add: rs_frame_def hdr)
  then show ?thesis using s by blast
qed

lemma board_do:
  assumes "builds func c" "run_command (host_package c (gpid g) []) E st = Some (Inr (ret, st1))"
    and "ready_board st" "rs_ready ctx"
  shows "\<exists>ctx' st2. rs_ready ctx' \<and> same_tests st1 st2 \<and> tx_wf st2 \<and>
    host_do (board_os E) func t ctx g \<lparr>w_board = st, w_frames = []\<rparr> =
      Inr (if ret = 0 then 0 else 1, ctx', g\<lparr>gpid := gpid g + 1\<rparr>, \<lparr>w_board = st2, w_frames = []\<rparr>)"
proof -
  obtain st2 where ex: "exchange (board_os E) ctx (request_bytes c (gpid g)) t \<lparr>w_board = st, w_frames = []\<rparr>
      (le16 MAGIC @ le16 (reply_code ret) @ le32 (gpid g) @ replicate 60 0) \<lparr>w_board = st2, w_frames = []\<rparr>"
    and s: "same_tests st1 st2" "tx_wf st2" using board_exchange [OF assms(2-4), of t] by auto
  have "reply_code ret = RET_SUCCES \<longleftrightarrow> ret = 0" by (simp add: reply_code_def protocol_codes)
  then show ?thesis
    using host_do_request [OF assms(1,4) ex refl] s unfolding same_link_def by auto
qed

section \<open>The requests of the host\<close>

lemma ready_board_same:
  assumes "ready_board st" "same_tests st1 st2" "tx_wf st2" "bLoop st1 = bLoop st"
    "gMsgIns st1 = gMsgIns st" "led_g st1 = led_g st"
  shows "ready_board st2"
  using assms by (simp add: ready_board_def same_tests_def)

lemma host_package_simps [simp]:
  "cmd (host_package c i d) = c" "magic (host_package c i d) = MAGIC"
  "data (host_package c i d) = d @ replicate (248 - length d) 0"
  by (simp_all add: host_package_def)

lemma do_conn:
  assumes "ready_board st" "rs_ready ctx"
  shows "\<exists>ctx' st'. rs_ready ctx' \<and> ready_board st' \<and> mem_state st' = mem_state st \<and> flash_g st' = flash_g st \<and>
    flash_dev st' = flash_dev st \<and> ecc_state st' = ecc_state st \<and> board_result st' = board_result st \<and>
    host_do (board_os E) make_package_conn t ctx g \<lparr>w_board = st, w_frames = []\<rparr> =
      Inr (0, ctx', g\<lparr>gpid := gpid g + 1\<rparr>, \<lparr>w_board = st', w_frames = []\<rparr>)"
proof -
  obtain h where "ledHigh (env_bus E) (led_g st) (LED_1 OR LED_2) (hw st) = Some (XST_SUCCESS, h)"
    using ledHigh_write [of "led_g st" "env_bus E" "LED_1 OR LED_2" "hw st"] assms(1)
    by (simp add: ready_board_def)
  then have "run_command (host_package REQ_CONNECT (gpid g) []) E st = Some (Inr (0, st\<lparr>hw := h\<rparr>))"
    by (simp add: run_command_def)
  from board_do [OF builders(6) this assms, of t] show ?thesis
    using ready_board_same [OF assms(1)] by (fastforce simp: same_tests_def)
qed

lemma do_mem:
  assumes "ready_board st" "rs_ready ctx" "memtest (env_mem E) (mem_state st) = Some (r, m)"
  shows "\<exists>ctx' st'. rs_ready ctx' \<and> ready_board st' \<and> flash_g st' = flash_g st \<and>
    flash_dev st' = flash_dev st \<and> ecc_state st' = ecc_state st \<and> board_result st' = board_result st \<and>
    host_do (board_os E) make_package_memtest t ctx g \<lparr>w_board = st, w_frames = []\<rparr> =
      Inr (if r = 0 then 0 else 1, ctx', g\<lparr>gpid := gpid g + 1\<rparr>, \<lparr>w_board = st', w_frames = []\<rparr>)"
proof -
  have "run_command (host_package REQ_DRAM_TEST (gpid g) []) E st = Some (Inr (r, st\<lparr>mem_state := m\<rparr>))"
    by (simp add: run_command_def protocol_codes run_mem_def assms(3))
  from board_do [OF builders(4) this assms(1,2), of t] show ?thesis
    using ready_board_same [OF assms(1)] by (fastforce simp: same_tests_def)
qed

lemma do_flash:
  assumes "ready_board st" "rs_ready ctx"
    and "flashtest (env_qspi E) (flash_g st) (flash_dev st) = Some (Inr (r, fg, d))"
  shows "\<exists>ctx' st'. rs_ready ctx' \<and> ready_board st' \<and> ecc_state st' = ecc_state st \<and>
    board_result st' = board_result st \<and>
    host_do (board_os E) make_package_flash_test t ctx g \<lparr>w_board = st, w_frames = []\<rparr> =
      Inr (if r = 0 then 0 else 1, ctx', g\<lparr>gpid := gpid g + 1\<rparr>, \<lparr>w_board = st', w_frames = []\<rparr>)"
proof -
  have "run_command (host_package REQ_FLASH_TEST (gpid g) []) E st =
      Some (Inr (r, st\<lparr>flash_g := fg, flash_dev := d\<rparr>))"
    by (simp add: run_command_def protocol_codes run_flash_def assms(3))
  from board_do [OF builders(2) this assms(1,2), of t] show ?thesis
    using ready_board_same [OF assms(1)] by (fastforce simp: same_tests_def)
qed

lemma do_ecc:
  assumes "ready_board st" "rs_ready ctx" "at508_test (env_psgpio E) (ecc_state st) = Some (Inr (r, e))"
  shows "\<exists>ctx' st'. rs_ready ctx' \<and> ready_board st' \<and> board_result st' = board_result st \<and>
    host_do (board_os E) make_package_ecc_test t ctx g \<lparr>w_board = st, w_frames = []\<rparr> =
      Inr (if r = 0 then 0 else 1, ctx', g\<lparr>gpid := gpid g + 1\<rparr>, \<lparr>w_board = st', w_frames = []\<rparr>)"
proof -
  have "run_command (host_package REQ_ECC_TEST (gpid g) []) E st = Some (Inr (r, st\<lparr>ecc_state := e\<rparr>))"
    by (simp add: run_command_def protocol_codes run_ecc_def assms(3))
  from board_do [OF builders(5) this assms(1,2), of t] show ?thesis
    using ready_board_same [OF assms(1)] by (fastforce simp: same_tests_def)
qed

lemma do_finish:
  assumes "ready_board st" "rs_ready ctx"
  shows "\<exists>ctx' st'. bLoop st' = 0 \<and> board_result st' = board_result st \<and>
    host_do (board_os E) make_package_finish t ctx g \<lparr>w_board = st, w_frames = []\<rparr> =
      Inr (0, ctx', g\<lparr>gpid := gpid g + 1\<rparr>, \<lparr>w_board = st', w_frames = []\<rparr>)"
proof -
  have "run_command (host_package REQ_FINISH (gpid g) []) E st = Some (Inr (0, st\<lparr>bLoop := 0\<rparr>))"
    by (simp add: run_command_def protocol_codes)
  from board_do [OF builders(7) this assms, of t] show ?thesis by (fastforce simp: same_tests_def)
qed

lemma do_result:
  assumes "ready_board st" "rs_ready ctx"
  shows "\<exists>ctx' st'. rs_ready ctx' \<and> ready_board st' \<and> board_result st' = result g \<and>
    host_do (board_os E) make_package_result t ctx g \<lparr>w_board = st, w_frames = []\<rparr> =
      Inr (0, ctx', g\<lparr>gpid := gpid g + 1\<rparr>, \<lparr>w_board = st', w_frames = []\<rparr>)"
proof -
  let ?p = "zero_package\<lparr>pid := gpid g, magic := MAGIC, cmd := REQ_RESULT, data := (data zero_package)[0 := result g]\<rparr>"
  have run: "run_command (host_package REQ_RESULT (gpid g) [result g]) E st =
      Some (Inr (0, st\<lparr>board_result := result g\<rparr>))"
    by (simp add: run_command_def protocol_codes)
  obtain st2 where ex: "exchange (board_os E) ctx (request_bytes REQ_RESULT (gpid g) @ [result g]) t
      \<lparr>w_board = st, w_frames = []\<rparr>
      (le16 MAGIC @ le16 (reply_code 0) @ le32 (gpid g) @ replicate 60 0) \<lparr>w_board = st2, w_frames = []\<rparr>"
    and s: "same_tests (st\<lparr>board_result := result g\<rparr>) st2" "tx_wf st2"
    using board_exchange [OF run assms, of t] by auto
  have mk: "make_package_result zero_package g = (9, ?p, g\<lparr>gpid := gpid g + 1\<rparr>)"
    by (simp add: make_result sizeof_A_Package_def)
  have d: "(data zero_package)[0 := result g] = result g # replicate 1015 0"
    by (simp add: zero_package_def host_buffer_size_def sizeof_A_Package_def numeral_eq_Suc)
  have tk: "take 9 (pack_bytes ?p) = request_bytes REQ_RESULT (gpid g) @ [result g]"
    by (simp add: pack_bytes_def request_bytes_def d)
  have l: "9 \<le> length (pack_bytes ?p)" by (simp add: pack_bytes_def d)
  let ?r = "le16 MAGIC @ le16 (reply_code 0) @ le32 (gpid g) @ replicate 60 (0 :: u8)"
  have "?r \<noteq> []" by (simp add: le16_def)
  moreover have "reply_status (gpid g) (take 1024 ?r) = Inr 0"
    using reply_status_header [of "replicate 60 0" "gpid g" MAGIC "reply_code 0" "gpid g"]
    by (simp add: reply_code_def)
  ultimately obtain ctx' where "rs_ready ctx'" "host_do (board_os E) make_package_result t ctx g
      \<lparr>w_board = st, w_frames = []\<rparr> = Inr (0, ctx', g\<lparr>gpid := gpid g + 1\<rparr>, \<lparr>w_board = st2, w_frames = []\<rparr>)"
    using host_do_exchange [where func = make_package_result, OF mk l _ assms(2), of "board_os E" t
        "\<lparr>w_board = st, w_frames = []\<rparr>" ?r "\<lparr>w_board = st2, w_frames = []\<rparr>"] ex
    unfolding tk same_link_def by auto
  moreover have "ready_board st2" by (rule ready_board_same [OF assms(1) s]) simp_all
  moreover have "board_result st2 = result g" using s(1) by (simp add: same_tests_def)
  ultimately show ?thesis by blast
qed

section \<open>The verdict\<close>

text \<open>What the three tests of the host's sequence return on a board.\<close>

definition tests_return ::
    "('h, 'd, 'm, 'f, 'e) board_env \<Rightarrow> ('h, 'd, 'm, 'f, 'e) board \<Rightarrow> int \<Rightarrow> int \<Rightarrow> int \<Rightarrow> bool" where
  "tests_return E st rm rf re \<longleftrightarrow>
     (\<exists>m. memtest (env_mem E) (mem_state st) = Some (rm, m)) \<and>
     (\<exists>fg d. flashtest (env_qspi E) (flash_g st) (flash_dev st) = Some (Inr (rf, fg, d))) \<and>
     (\<exists>e. at508_test (env_psgpio E) (ecc_state st) = Some (Inr (re, e)))"

text \<open>The outcome of a sequence of requests: its result, a ready board, no frame left over.\<close>

lemma factory_requests:
  assumes "ready_board st" "rs_ready ctx" "tests_return E st rm rf re"
  shows "\<exists>ret ctx' st' g'. run_requests (board_os E) host_tests ctx g \<lparr>w_board = st, w_frames = []\<rparr> =
      Inr (ret, ctx', g', \<lparr>w_board = st', w_frames = []\<rparr>) \<and> ready_board st' \<and> rs_ready ctx' \<and>
    board_result st' = board_result st \<and> (ret = 0 \<longleftrightarrow> rm = 0 \<and> rf = 0 \<and> re = 0)"
proof -
  let ?w = "\<lambda>st. \<lparr>w_board = st, w_frames = []\<rparr>" and ?g = "\<lambda>n. g\<lparr>gpid := gpid g + n\<rparr>"
  obtain m fg d e where r: "memtest (env_mem E) (mem_state st) = Some (rm, m)"
    "flashtest (env_qspi E) (flash_g st) (flash_dev st) = Some (Inr (rf, fg, d))"
    "at508_test (env_psgpio E) (ecc_state st) = Some (Inr (re, e))"
    using assms(3) unfolding tests_return_def by blast
  obtain c1 s1 where 1: "rs_ready c1" "ready_board s1" "mem_state s1 = mem_state st" "flash_g s1 = flash_g st"
    "flash_dev s1 = flash_dev st" "ecc_state s1 = ecc_state st" "board_result s1 = board_result st"
    "host_do (board_os E) make_package_conn 10 ctx g (?w st) = Inr (0, c1, ?g 1, ?w s1)"
    using do_conn [OF assms(1,2), of E 10 g] by blast
  obtain c2 s2 where 2: "rs_ready c2" "ready_board s2" "flash_g s2 = flash_g st" "flash_dev s2 = flash_dev st"
    "ecc_state s2 = ecc_state st" "board_result s2 = board_result st"
    "host_do (board_os E) make_package_memtest 80 c1 (?g 1) (?w s1) = Inr (if rm = 0 then 0 else 1, c2, ?g 2, ?w s2)"
    using do_mem [OF 1(2,1), of E rm m 80 "?g 1"] 1 r(1) by auto
  obtain c3 s3 where 3: "rs_ready c3" "ready_board s3" "ecc_state s3 = ecc_state st" "board_result s3 = board_result st"
    "host_do (board_os E) make_package_flash_test 60 c2 (?g 2) (?w s2) = Inr (if rf = 0 then 0 else 1, c3, ?g 3, ?w s3)"
    using do_flash [OF 2(2,1), of E rf fg d 60 "?g 2"] 2 r(2) by auto
  obtain c4 s4 where 4: "rs_ready c4" "ready_board s4" "board_result s4 = board_result st"
    "host_do (board_os E) make_package_ecc_test 60 c3 (?g 3) (?w s3) = Inr (if re = 0 then 0 else 1, c4, ?g 4, ?w s4)"
    using do_ecc [OF 3(2,1), of E re e 60 "?g 3"] 3 r(3) by auto
  note all = 1 2 3 4
  show ?thesis
  proof (cases "rm = 0")
    case False
    then show ?thesis using all by (simp add: host_tests_def)
  next
    case m0: True
    show ?thesis
    proof (cases "rf = 0")
      case False
      then show ?thesis using all m0 by (simp add: host_tests_def)
    next
      case True
      then show ?thesis using all m0 by (cases "re = 0") (simp_all add: host_tests_def)
    qed
  qed
qed

lemma factory_report:
  assumes "ready_board st" "rs_ready ctx" "board_result st = 0"
  shows "\<exists>g' st'. host_report (board_os E) ret ctx g \<lparr>w_board = st, w_frames = []\<rparr> =
      Inr (ret, g', \<lparr>w_board = st', w_frames = []\<rparr>) \<and> bLoop st' = 0 \<and> (board_result st' = 0 \<longleftrightarrow> ret = 0)"
proof -
  let ?w = "\<lambda>st. \<lparr>w_board = st, w_frames = []\<rparr>"
  have fin: "\<exists>g' st'. host_finish (board_os E) ret ctx g (?w st) = Inr (ret, g', ?w st') \<and>
      bLoop st' = 0 \<and> board_result st' = board_result st" if b: "ready_board st" "rs_ready ctx" for st ctx g
  proof -
    obtain c s where "bLoop s = 0" "board_result s = board_result st"
      "host_do (board_os E) make_package_finish 2 ctx g (?w st) = Inr (0, c, g\<lparr>gpid := gpid g + 1\<rparr>, ?w s)"
      using do_finish [OF b, of E 2 g] by blast
    moreover have "RSRelease (board_os E) c w = (0, zero_ctx, w)" for w
      by (simp add: RSRelease_def rs_cleanup_def board_os_def)
    ultimately show ?thesis by (simp add: host_finish_def)
  qed
  show ?thesis
  proof (cases "ret = 0")
    case True
    then show ?thesis using fin [OF assms(1,2), of g] assms(3) by (auto simp: host_report_def)
  next
    case False
    obtain c s where c: "rs_ready c" "ready_board s" "board_result s = 1"
      "host_do (board_os E) make_package_result 2 ctx (g\<lparr>result := 1\<rparr>) (?w st) =
        Inr (0, c, g\<lparr>result := 1, gpid := gpid g + 1\<rparr>, ?w s)"
      using do_result [OF assms(1,2), of "g\<lparr>result := 1\<rparr>" E 2] by auto
    then show ?thesis using fin [OF c(2,1), of "g\<lparr>result := 1, gpid := gpid g + 1\<rparr>"] False
      by (auto simp: host_report_def)
  qed
qed

lemma board_os_create:
  assumes "length eth < 16" "0 \<le> type" "type < 65536"
  shows "\<exists>ctx. RSCreate (board_os E) eth type w = Inr (0, ctx, w) \<and> rs_ready ctx"
proof -
  have "\<exists>ctx. RSCreate (board_os E) eth type w = Inr (0, ctx, w)"
    using assms(1) by (simp add: RSCreate_def board_os_def rs_consts)
  moreover have "six_byte_mac (board_os E)" by (simp add: six_byte_mac_def board_os_def)
  ultimately show ?thesis using RSCreate_ready [of "board_os E" eth type w] assms(2,3) by blast
qed

lemma factory_run:
  assumes "ready_board st" "board_result st = 0" "tests_return E st rm rf re" "length eth < 16"
  shows "\<exists>r g' st'. host_main (board_os E) [prog, eth, ''0''] g \<lparr>w_board = st, w_frames = []\<rparr> =
      Inr (r, g', \<lparr>w_board = st', w_frames = []\<rparr>) \<and> bLoop st' = 0 \<and>
    (r = 0 \<longleftrightarrow> rm = 0 \<and> rf = 0 \<and> re = 0) \<and> show_verdict st' = (if r = 0 then LedSuccess else LedFailed)"
proof -
  let ?w = "\<lambda>st. \<lparr>w_board = st, w_frames = []\<rparr>"
  have t: "ether_type (atoi ''0'') = 0xFF00" by (simp add: ether_type_def digit_def)
  obtain ctx where c: "RSCreate (board_os E) eth 0xFF00 (?w st) = Inr (0, ctx, ?w st)" "rs_ready ctx"
    using board_os_create [OF assms(4), of "0xFF00" E "?w st"] by auto
  obtain ret ctx1 st1 g1 where r: "run_requests (board_os E) host_tests ctx g (?w st) = Inr (ret, ctx1, g1, ?w st1)"
    "ready_board st1" "rs_ready ctx1" "board_result st1 = 0" "ret = 0 \<longleftrightarrow> rm = 0 \<and> rf = 0 \<and> re = 0"
    using factory_requests [OF assms(1) c(2) assms(3), of g] assms(2) by auto
  obtain g2 st2 where f: "host_report (board_os E) ret ctx1 g1 (?w st1) = Inr (ret, g2, ?w st2)" "bLoop st2 = 0"
    "board_result st2 = 0 \<longleftrightarrow> ret = 0"
    using factory_report [OF r(2,3,4), of E ret g1] by auto
  have "host_main (board_os E) [prog, eth, ''0''] g (?w st) = Inr (ret, g2, ?w st2)"
    unfolding host_main_def list.case t c(1) by (simp add: r(1) f(1))
  then show ?thesis using f r(5) by (auto simp: show_verdict_def)
qed

end
