(* ===== verification/AtcaSim.thy ===== *)
theory AtcaSim
  imports AtcaChip AtcaBasic
begin

text \<open>
  A chip as a function from commands to responses, behind a hardware layer that transports the
  frames: the documented behaviour of the chip in the example and refinement theorems. The
  chip gets the opcode, the parameters and the data of a command and gives its next state and
  the data of its response, one byte for a status.
\<close>

type_synonym 'c chip = "u8 \<Rightarrow> u8 \<Rightarrow> u16 \<Rightarrow> u8 list \<Rightarrow> 'c \<Rightarrow> 'c \<times> u8 list"

definition command_data :: "ATCAPacket \<Rightarrow> u8 list" where
  "command_data p = take (unat (txsize p) - 7) (pkt_data p)"

definition chip_answer :: "'c chip \<Rightarrow> ATCAPacket \<Rightarrow> 'c \<Rightarrow> 'c \<times> u8 list" where
  "chip_answer chip p c = chip (opcode p) (param1 p) (param2 p) (command_data p) c"

definition chip_hal :: "'c chip \<Rightarrow> ('c \<times> u8 list) ATCAHAL" where
  "chip_hal chip =
     \<lparr>halinit = (\<lambda>cfg s. Some (Inr (ATCA_SUCCESS, None, s))), halpostinit = ATCA_SUCCESS,
      halsend = (\<lambda>cfg img n s.
        let (c, dat) = chip_answer chip (with_image (img[0 := 3]) zero_packet) (fst s)
        in Some (Inr (ATCA_SUCCESS, img[0 := 3], (c, response_frame dat)))),
      halreceive = (\<lambda>cfg rx n s. Some (Inr (ATCA_SUCCESS, snd s @ drop (length (snd s)) rx, n, s))),
      halwake = (\<lambda>cfg s. Some (Inr (ATCA_SUCCESS, s))), halidle = (\<lambda>cfg s. Some (Inr (ATCA_SUCCESS, s))),
      halsleep = (\<lambda>cfg s. Some (Inr (ATCA_SUCCESS, s)))\<rparr>"

definition chip_device :: "ATCADeviceType \<Rightarrow> 'c chip \<Rightarrow> ('c \<times> u8 list) ATCADevice" where
  "chip_device dt chip =
     \<lparr>mCommands = \<lparr>cmd_dt = dt, clock_divider = 0, execution_time_msec = 0\<rparr>,
      mIface = \<lparr>mType = ATCA_I2C_IFACE, mIfaceCFG = cfg_ateccx08a_i2c_default\<lparr>devtype := dt\<rparr>,
        iface_calls = chip_hal chip, hal_data = None\<rparr>\<rparr>"

definition chip_lib :: "ATCADeviceType \<Rightarrow> 'c chip \<Rightarrow> 'c \<Rightarrow> ('c \<times> u8 list) atcab" where
  "chip_lib dt chip c =
     \<lparr>lib = (c, []), gDevice = Some (chip_device dt chip), stack_packets = [], SerialNum = replicate 9 0\<rparr>"

text \<open>The states of the library with such a device, and the state of the chip in them.\<close>

definition chip_ready :: "ATCADeviceType \<Rightarrow> 'c chip \<Rightarrow> ('c \<times> u8 list) atcab \<Rightarrow> bool" where
  "chip_ready dt chip st \<longleftrightarrow> gDevice st = Some (chip_device dt chip) \<and> stack_packets st = []"

definition chip_state :: "('c \<times> u8 list) atcab \<Rightarrow> 'c" where
  "chip_state st = fst (lib st)"

lemma chip_lib_ready: "chip_ready dt chip (chip_lib dt chip c)" "chip_state (chip_lib dt chip c) = c"
  by (simp_all add: chip_ready_def chip_lib_def chip_state_def)

lemma ready_with_lib [simp]: "chip_ready dt chip (st\<lparr>lib := l\<rparr>) = chip_ready dt chip st"
  by (simp add: chip_ready_def)

lemma state_with_lib [simp]: "chip_state (st\<lparr>lib := l\<rparr>) = fst l"
  by (simp add: chip_state_def)

lemma ready_start:
  assumes "chip_ready dt chip st"
  shows "with_device f st = f (chip_device dt chip) st" "found_packet st = (zero_packet, st)"
  using assms by (simp_all add: chip_ready_def with_device_def found_packet_def)

lemma device_types [simp]:
  "cmd_dt (mCommands (chip_device dt chip)) = dt" "devtype (mIfaceCFG (mIface (chip_device dt chip))) = dt"
  by (simp_all add: chip_device_def)

lemma with_image_of: "with_image img zero_packet = with_image img p"
  by (simp add: with_image_def with_frame_def)

text \<open>The status that the library reads from a response.\<close>

definition response_status :: "u8 list \<Rightarrow> ATCA_STATUS" where
  "response_status dat = isATCAError (response_frame dat)"

lemma response_status_cases:
  "length dat < 128 \<Longrightarrow> length dat \<noteq> 1 \<Longrightarrow> response_status dat = ATCA_SUCCESS"
  "response_status [0] = ATCA_SUCCESS" "response_status [1] = ATCA_CHECKMAC_VERIFY_FAILED"
proof -
  show "length dat < 128 \<Longrightarrow> length dat \<noteq> 1 \<Longrightarrow> response_status dat = ATCA_SUCCESS"
    using response_frame_checked(2) [of dat "length dat + 3" "[]"] by (simp add: response_status_def)
  show "response_status [0] = ATCA_SUCCESS" "response_status [1] = ATCA_CHECKMAC_VERIFY_FAILED"
    by code_simp+
qed

lemma status_of_frame:
  assumes "dat \<noteq> []"
  shows "isATCAError (response_frame dat @ rest) = response_status dat"
proof -
  have l: "4 \<le> length (response_frame dat)" using assms by (cases dat) (auto simp: response_frame_def Let_def crc_le_def)
  then have "response_frame dat \<noteq> []" by auto
  with l have "take 4 (response_frame dat @ rest) = take 4 (response_frame dat)"
    "(response_frame dat @ rest) ! 0 = response_frame dat ! 0" "(response_frame dat @ rest) ! 1 = response_frame dat ! 1"
    by (simp_all add: nth_append)
  then show ?thesis by (simp only: response_status_def isATCAError_def)
qed

text \<open>Executing a command: the chip gets the command as it was built, the caller its response.\<close>

lemma chip_execute:
  assumes "executable p" "chip_answer chip p (fst s) = (c, dat)" "dat \<noteq> []" "length dat < 128"
  defines "q \<equiv> p\<lparr>pkt_reserved := 3, pkt_data := response_frame dat @ drop (length (response_frame dat)) (pkt_data p)\<rparr>"
  shows "atca_execute_command p (chip_device dt chip) s = Some (Inr (response_status dat, q, (c, response_frame dat)))"
proof -
  have w: "wf_packet p" and r: "4 \<le> unat (rxsize p)" using assms(1) by (simp_all add: executable_def)
  let ?dev = "chip_device dt chip"
  have "chip_answer chip (p\<lparr>pkt_reserved := 3\<rparr>) (fst s) = (c, dat)"
    using assms(2) by (simp add: chip_answer_def command_data_def)
  then have send: "send_packet (mIface ?dev) p s = Some (Inr (ATCA_SUCCESS, p\<lparr>pkt_reserved := 3\<rparr>, (c, response_frame dat)))"
    by (simp add: send_packet_def atsend_def chip_device_def chip_hal_def with_image_of [of _ p] with_image_sent [OF w])
  have poll: "poll_response (mIface ?dev) n (p\<lparr>pkt_reserved := 3\<rparr>) (c, response_frame dat) = Some (Inr (q, (c, response_frame dat)))" for n
    by (subst poll_response.simps) (simp add: atreceive_def chip_device_def chip_hal_def Let_def q_def)
  have "\<not> rxsize p < 4" using r by (simp add: word_less_nat_alt)
  then have "check_response q = Inr (response_status dat)"
    using response_frame_crc(1) [OF assms(4)] status_of_frame [OF assms(3)] by (simp add: check_response_def q_def)
  moreover have "atwake (mIface ?dev) x = Some (Inr (ATCA_SUCCESS, x))" "atidle (mIface ?dev) x = Some (Inr (ATCA_SUCCESS, x))" for x
    by (simp_all add: atwake_def atidle_def chip_device_def chip_hal_def)
  ultimately show ?thesis
    by (simp add: atca_execute_command_def run_command_body_def send poll)
qed

lemma chip_command:
  assumes "build (Some (mCommands (chip_device dt chip))) p = with_crc P"
    and P: "wf_packet P" "7 \<le> unat (txsize P)" "unat (txsize P) \<le> 135" "4 \<le> unat (rxsize P)" "unat (rxsize P) \<le> 130"
    and chip: "chip_answer chip P (chip_state st) = (c, dat)" "dat \<noteq> []" "length dat + 3 \<le> 130"
  shows "\<exists>q. execute build p (chip_device dt chip) st =
      Some (Inr (response_status dat, q, st\<lparr>lib := (c, response_frame dat)\<rparr>)) \<and>
    rxsize q = rxsize P \<and> pkt_data q ! 0 = of_nat (length dat + 3) \<and> response_data (length dat) q = dat"
proof -
  obtain p' where p': "with_crc P = Inr (ATCA_SUCCESS, p')" "good_frame p'" "same_command P p'"
    using with_crc_framed [OF P(1-3)] by blast
  have ex: "executable p'" using p'(2,3) P(3-5) by (simp add: executable_def good_frame_def same_command_def)
  have ans: "chip_answer chip p' (fst (lib st)) = (c, dat)"
    using p'(3) chip(1) by (simp add: same_command_def chip_answer_def command_data_def chip_state_def)
  have small: "length dat < 128" using chip(3) by simp
  let ?q = "p'\<lparr>pkt_reserved := 3, pkt_data := response_frame dat @ drop (length (response_frame dat)) (pkt_data p')\<rparr>"
  have "execute build p (chip_device dt chip) st = Some (Inr (response_status dat, ?q, st\<lparr>lib := (c, response_frame dat)\<rparr>))"
    using chip_execute [OF ex ans chip(2) small] by (simp add: execute_def assms(1) p'(1))
  moreover have "take (length dat) (drop 1 (response_frame dat @ xs)) = dat" "(response_frame dat @ xs) ! 0 = of_nat (length dat + 3)" for xs
    by (simp_all add: response_frame_def Let_def)
  ultimately show ?thesis using p'(3)
    by (intro exI [of _ ?q]) (simp add: same_command_def response_data_def del: take_append drop_append)
qed

end
