(* ===== verification/AtcaZones.thy ===== *)
theory AtcaZones
  imports AtcaSim
begin

text \<open>
  The byte-wise access to zones (\<open>atcab_read_bytes_zone\<close>, \<open>atcab_write_bytes_zone\<close>) against a
  zone as a list of bytes: any run of bytes is read and written through block and word
  transfers as if the zone were memory.
\<close>

section \<open>Reading\<close>

text \<open>
  A chip whose zone holds \<open>mem\<close>: a read of a block, or of a word in a block, delivers its bytes,
  as long as \<open>I\<close> holds, which it keeps.
\<close>

definition transfer_ok :: "nat \<Rightarrow> nat \<Rightarrow> u8 \<Rightarrow> nat \<Rightarrow> bool" where
  "transfer_ok b w rs zsize \<longleftrightarrow> (rs = 32 \<and> w = 0 \<or> rs = 4 \<and> w < 8) \<and> b * 32 + w * 4 + unat rs \<le> zsize"

definition zone_reads :: "('s atcab \<Rightarrow> bool) \<Rightarrow> u8 \<Rightarrow> u16 \<Rightarrow> u8 list \<Rightarrow> bool" where
  "zone_reads I zone slot mem \<longleftrightarrow>
     (\<forall>st b w rs. I st \<longrightarrow> transfer_ok b w rs (length mem) \<longrightarrow>
       (\<exists>st'. I st' \<and> atcab_read_zone zone slot (of_nat b) (of_nat w) rs st =
          Some (Inr (ATCA_SUCCESS, Some (take (unat rs) (drop (b * 32 + w * 4) mem)), st'))))"

lemma zone_readsD:
  assumes "zone_reads I zone slot mem" "I st" "transfer_ok b w rs (length mem)"
  obtains st' where "I st'" "atcab_read_zone zone slot (of_nat b) (of_nat w) rs st =
    Some (Inr (ATCA_SUCCESS, Some (take (unat rs) (drop (b * 32 + w * 4) mem)), st'))"
  using assms unfolding zone_reads_def by blast

lemma zone_sizes: "zone_size dt zone slot = Some n \<Longrightarrow> n mod 4 = 0 \<and> n \<le> 416"
  by (auto simp: zone_size_def split: if_splits)

text \<open>
  The loop is at the transfer that holds the next byte. Before the first transfer the byte may
  lie inside it, later it is its first.
\<close>

definition at_transfer :: "nat \<Rightarrow> nat \<Rightarrow> nat \<Rightarrow> nat \<Rightarrow> u8 \<Rightarrow> nat \<Rightarrow> bool" where
  "at_transfer offset k b w rs zsize \<longleftrightarrow>
     b * 32 + w * 4 \<le> offset + k \<and> offset + k < b * 32 + w * 4 + unat rs \<and>
     (k = 0 \<or> offset + k = b * 32 + w * 4) \<and>
     (rs = 32 \<and> w = 0 \<or> rs = 4 \<and> w < 8 \<and> zsize < b * 32 + 32)"

text \<open>The transfer the loop makes from there.\<close>

lemma next_transfer:
  assumes "at_transfer offset k b w rs zsize" "offset + k < zsize" "zsize mod 4 = 0"
  defines "words \<equiv> rs = ATCA_BLOCK_SIZE \<and> zsize - b * 32 < 32"
  defines "w' \<equiv> if words then (k + offset) div 4 mod 8 else w"
    and "rs' \<equiv> if words then ATCA_WORD_SIZE else rs"
  shows "transfer_ok b w' rs' zsize" "at_transfer offset k b w' rs' zsize"
proof -
  have s: "ATCA_BLOCK_SIZE = 32" "ATCA_WORD_SIZE = 4" by (simp_all add: command_consts)
  have "transfer_ok b w' rs' zsize \<and> at_transfer offset k b w' rs' zsize"
  proof (cases words)
    case True
    have a: "rs = 32" "w = 0" "zsize < b * 32 + 32" "b * 32 \<le> offset + k" "offset + k < b * 32 + 32"
      using True assms(1,2) unfolding words_def s at_transfer_def by auto
    define q where "q = (offset + k) div 4"
    have q: "q * 4 \<le> offset + k" "offset + k < q * 4 + 4" unfolding q_def by simp_all
    have "b * 8 \<le> q" "q < b * 8 + 8" using a(4,5) q by simp_all
    then have "q mod 8 = q - b * 8" by (metis add_diff_inverse_nat less_diff_conv2 linorder_not_le mod_less mod_mult_self4 add.commute mult.commute)
    then have w': "w' = q - b * 8" using True unfolding w'_def q_def by (simp add: add.commute)
    have p: "b * 32 + w' * 4 = q * 4" using \<open>b * 8 \<le> q\<close> unfolding w' by simp
    have z: "q * 4 + 4 \<le> zsize" using q(1) assms(2,3) by presburger
    have first: "k = 0 \<or> offset + k = q * 4"
    proof (rule disjCI)
      assume "offset + k \<noteq> q * 4"
      moreover have "k = 0 \<or> offset + k = b * 32" using assms(1) a(2) by (simp add: at_transfer_def)
      moreover have "(b * 32) div 4 * 4 = b * 32" by simp
      ultimately show "k = 0" unfolding q_def by metis
    qed
    have w8: "w' < 8" using \<open>q < b * 8 + 8\<close> \<open>b * 8 \<le> q\<close> unfolding w' by simp
    have 1: "transfer_ok b w' rs' zsize"
      using True w8 z unfolding transfer_ok_def rs'_def s p by simp
    have "at_transfer offset k b w' rs' zsize"
      unfolding at_transfer_def rs'_def s p using True w8 first q a(3) by auto
    with 1 show ?thesis ..
  next
    case False
    then have e: "w' = w" "rs' = rs" by (simp_all add: w'_def rs'_def)
    have "transfer_ok b w' rs' zsize"
    proof (cases "rs = 32")
      case True
      then have "32 \<le> zsize - b * 32" using False by (simp add: words_def s)
      then show ?thesis using assms(1) True unfolding e by (auto simp: transfer_ok_def at_transfer_def)
    next
      case 4: False
      then have a: "rs = 4" "w < 8" "b * 32 + w * 4 \<le> offset + k" using assms(1) by (auto simp: at_transfer_def)
      then have "(b * 8 + w) * 4 < zsize" using assms(2) by simp
      then have "(b * 8 + w) * 4 + 4 \<le> zsize" using assms(3) by presburger
      then show ?thesis using a unfolding e by (simp add: transfer_ok_def)
    qed
    then show ?thesis unfolding e using assms(1) by simp
  qed
  then show "transfer_ok b w' rs' zsize" "at_transfer offset k b w' rs' zsize" by simp_all
qed

text \<open>A pass from such a transfer copies at least one byte and comes to the next.\<close>

lemma after_transfer:
  assumes "at_transfer offset k b w rs zsize" "k < len" "offset + len \<le> zsize"
  defines "idx \<equiv> if b * 32 + w * 4 < offset then offset - (b * 32 + w * 4) else 0"
  defines "c \<equiv> if len - k < unat rs - idx then len - k else unat rs - idx"
  shows "0 < c" "k + c \<le> len" "idx + c \<le> unat rs" "b * 32 + w * 4 + idx = offset + k"
    "k + c < len \<Longrightarrow> at_transfer offset (k + c) (if rs = ATCA_BLOCK_SIZE then b + 1 else b)
       (if rs = ATCA_BLOCK_SIZE then w else w + 1) rs zsize"
proof -
  have a: "b * 32 + w * 4 \<le> offset + k" "offset + k < b * 32 + w * 4 + unat rs" "k = 0 \<or> offset + k = b * 32 + w * 4"
    and s: "rs = 32 \<and> w = 0 \<or> rs = 4 \<and> w < 8 \<and> zsize < b * 32 + 32"
    using assms(1) by (auto simp: at_transfer_def)
  show i: "b * 32 + w * 4 + idx = offset + k" using a by (auto simp: idx_def)
  then show "0 < c" "k + c \<le> len" "idx + c \<le> unat rs" using a(2) assms(2) by (auto simp: c_def)
  show "at_transfer offset (k + c) (if rs = ATCA_BLOCK_SIZE then b + 1 else b)
       (if rs = ATCA_BLOCK_SIZE then w else w + 1) rs zsize" if "k + c < len"
  proof -
    have "c = unat rs - idx" using that by (auto simp: c_def split: if_splits)
    then have n: "offset + (k + c) = b * 32 + w * 4 + unat rs" using i a(2) by simp
    from s show ?thesis
    proof
      assume "rs = 32 \<and> w = 0"
      then show ?thesis using n by (simp add: at_transfer_def ATCA_BLOCK_SIZE_def)
    next
      assume r: "rs = 4 \<and> w < 8 \<and> zsize < b * 32 + 32"
      then have "w + 1 < 8" using n that assms(3) by simp
      then show ?thesis using n r by (simp add: at_transfer_def ATCA_BLOCK_SIZE_def)
    qed
  qed
qed

lemma append_slice:
  assumes "i + c \<le> r" "s + i = off + k"
  shows "take k (drop off xs) @ take c (drop i (take r (drop s xs))) = take (k + c) (drop off xs)"
proof -
  have "drop i (take r (drop s xs)) = take (r - i) (drop (s + i) xs)" by (simp add: drop_take add.commute)
  moreover have "min c (r - i) = c" using assms(1) by simp
  ultimately show ?thesis unfolding assms(2) by (simp add: take_add add.commute [of off])
qed

lemma read_loop_reads:
  assumes "zone_reads I zone slot mem" "offset + len \<le> length mem" "length mem mod 4 = 0"
  shows "I st \<Longrightarrow> k \<le> len \<Longrightarrow> len - k \<le> n \<Longrightarrow> (k < len \<longrightarrow> at_transfer offset k b w rs (length mem)) \<Longrightarrow>
    \<exists>st'. I st' \<and> read_bytes_loop n zone slot (length mem) offset len b w rs (take k (drop offset mem)) st =
      Some (Inr (ATCA_SUCCESS, take len (drop offset mem), st'))"
proof (induction n arbitrary: st k b w rs)
  case 0
  then have "k = len" by simp
  then show ?case using 0(1) assms(2) by (auto simp: read_bytes_loop.simps)
next
  case (Suc n)
  have l: "length (take k (drop offset mem)) = k" using Suc.prems(2) assms(2) by simp
  show ?case
  proof (cases "k < len")
    case False
    then have "k = len" using Suc.prems(2) by simp
    then show ?thesis using Suc.prems(1) l by (auto simp: read_bytes_loop.simps)
  next
    case True
    define w' where "w' = (if rs = ATCA_BLOCK_SIZE \<and> length mem - b * 32 < 32 then (k + offset) div 4 mod 8 else w)"
    define rs' where "rs' = (if rs = ATCA_BLOCK_SIZE \<and> length mem - b * 32 < 32 then ATCA_WORD_SIZE else rs)"
    define idx where "idx = (if b * 32 + w' * 4 < offset then offset - (b * 32 + w' * 4) else 0)"
    define c where "c = (if len - k < unat rs' - idx then len - k else unat rs' - idx)"
    have "offset + k < length mem" using True assms(2) by simp
    from next_transfer [OF mp [OF Suc.prems(4) True] this assms(3)]
    have t: "transfer_ok b w' rs' (length mem)" "at_transfer offset k b w' rs' (length mem)"
      by (simp_all add: w'_def rs'_def)
    note a = after_transfer [OF t(2) True assms(2), folded idx_def, folded c_def]
    obtain st1 where r: "I st1" "atcab_read_zone zone slot (of_nat b) (of_nat w') rs' st =
        Some (Inr (ATCA_SUCCESS, Some (take (unat rs') (drop (b * 32 + w' * 4) mem)), st1))"
      using zone_readsD [OF assms(1) Suc.prems(1) t(1)] by blast
    have "k + c \<le> len" "len - (k + c) \<le> n" using a(1,2) Suc.prems(3) by simp_all
    from Suc.IH [OF r(1) this] a(5) obtain st2 where IH: "I st2"
      "read_bytes_loop n zone slot (length mem) offset len (if rs' = ATCA_BLOCK_SIZE then b + 1 else b)
        (if rs' = ATCA_BLOCK_SIZE then w' else w' + 1) rs' (take (k + c) (drop offset mem)) st1 =
       Some (Inr (ATCA_SUCCESS, take len (drop offset mem), st2))" by blast
    have "read_bytes_loop (Suc n) zone slot (length mem) offset len b w rs (take k (drop offset mem)) st =
      read_bytes_loop n zone slot (length mem) offset len (if rs' = ATCA_BLOCK_SIZE then b + 1 else b)
        (if rs' = ATCA_BLOCK_SIZE then w' else w' + 1) rs' (take (k + c) (drop offset mem)) st1"
      unfolding read_bytes_loop.simps Let_def l if_not_P [OF linorder_not_le [THEN iffD2, OF True]]
        w'_def [symmetric] rs'_def [symmetric] r(2) idx_def [symmetric] c_def [symmetric] if_runs_simps prod.case option.case
        append_slice [OF a(3,4)] ..
    then show ?thesis using IH by auto
  qed
qed

text \<open>Any run of bytes inside the zone is delivered, with the chip in a state of \<open>I\<close>.\<close>

lemma read_bytes_zone_reads:
  assumes "zone_reads I zone slot mem" "I st" "zone_args_ok zone slot" "gDevice st = Some dev"
    and "zone_size (devtype (mIfaceCFG (mIface dev))) zone slot = Some (length mem)" "offset + len \<le> length mem"
  shows "\<exists>st'. I st' \<and> atcab_read_bytes_zone zone slot offset len st =
    Some (Inr (ATCA_SUCCESS, take len (drop offset mem), st'))"
proof (cases "len = 0")
  case True
  then show ?thesis using assms(2,3) by (auto simp: atcab_read_bytes_zone_def)
next
  case False
  have "at_transfer offset 0 (offset div 32) 0 ATCA_BLOCK_SIZE (length mem)"
    by (simp add: at_transfer_def ATCA_BLOCK_SIZE_def)
  then obtain st' where "I st'" "read_bytes_loop len zone slot (length mem) offset len (offset div 32) 0 ATCA_BLOCK_SIZE [] st =
      Some (Inr (ATCA_SUCCESS, take len (drop offset mem), st'))"
    using read_loop_reads [OF assms(1,6) _ assms(2), of 0 len "offset div 32" 0 ATCA_BLOCK_SIZE] zone_sizes [OF assms(5)]
    by auto
  then show ?thesis using False assms(3-6)
    by (auto simp: atcab_read_bytes_zone_def atcab_get_zone_size_def with_device_def)
qed

section \<open>Writing\<close>

text \<open>
  A chip on which \<open>M\<close> is the content of the zone: a write of a block or of a word puts its bytes
  there. The selector and lock bytes of the configuration zone are not written.
\<close>

definition writable :: "u8 \<Rightarrow> nat \<Rightarrow> bool" where
  "writable zone i \<longleftrightarrow> \<not> (zone = ATCA_ZONE_CONFIG \<and> 84 \<le> i \<and> i < 88)"

definition zone_writes :: "('s atcab \<Rightarrow> bool) \<Rightarrow> ('s atcab \<Rightarrow> u8 list) \<Rightarrow> u8 \<Rightarrow> u16 \<Rightarrow> nat \<Rightarrow> bool" where
  "zone_writes I M zone slot zsize \<longleftrightarrow>
     (\<forall>st. I st \<longrightarrow> length (M st) = zsize) \<and>
     (\<forall>st b w rs data. I st \<longrightarrow> transfer_ok b w rs zsize \<longrightarrow> unat rs \<le> length data \<longrightarrow>
       (\<forall>i < unat rs. writable zone (b * 32 + w * 4 + i)) \<longrightarrow>
       (\<exists>st'. I st' \<and> M st' = memcpy_at (b * 32 + w * 4) (take (unat rs) data) (M st) \<and>
          atcab_write_zone zone slot (of_nat b) (of_nat w) data rs st = Some (Inr (ATCA_SUCCESS, st'))))"

lemma zone_writesD:
  assumes "zone_writes I M zone slot zsize" "I st" "transfer_ok b w rs zsize" "unat rs \<le> length data"
    "\<And>i. i < unat rs \<Longrightarrow> writable zone (b * 32 + w * 4 + i)"
  obtains st' where "I st'" "M st' = memcpy_at (b * 32 + w * 4) (take (unat rs) data) (M st)"
    "atcab_write_zone zone slot (of_nat b) (of_nat w) data rs st = Some (Inr (ATCA_SUCCESS, st'))"
  using assms unfolding zone_writes_def by blast

text \<open>The zone after \<open>data\<close> was written at \<open>p\<close>.\<close>

definition zone_written :: "u8 \<Rightarrow> nat \<Rightarrow> u8 list \<Rightarrow> u8 list \<Rightarrow> u8 list" where
  "zone_written zone p data mem =
     map (\<lambda>i. if p \<le> i \<and> i < p + length data \<and> writable zone i then data ! (i - p) else mem ! i) [0..<length mem]"

lemma zone_written_nil: "zone_written zone p [] mem = mem"
  by (rule nth_equalityI) (auto simp: zone_written_def)

lemma nth_memcpy_at:
  "i + length src \<le> length dst \<Longrightarrow> j < length dst \<Longrightarrow>
   memcpy_at i src dst ! j = (if i \<le> j \<and> j < i + length src then src ! (j - i) else dst ! j)"
  by (simp add: memcpy_at_def nth_append) linarith

lemma zone_written_step:
  assumes "n \<le> length data" "p + length data \<le> length mem" "\<And>i. i < n \<Longrightarrow> writable zone (p + i)"
  shows "zone_written zone (p + n) (drop n data) (memcpy_at p (take n data) mem) = zone_written zone p data mem"
proof (rule nth_equalityI)
  show "length (zone_written zone (p + n) (drop n data) (memcpy_at p (take n data) mem)) = length (zone_written zone p data mem)"
    using assms(1,2) by (simp add: zone_written_def)
  fix j assume "j < length (zone_written zone (p + n) (drop n data) (memcpy_at p (take n data) mem))"
  then have j: "j < length mem" using assms(1,2) by (simp add: zone_written_def)
  have w: "writable zone j" if "p \<le> j" "j < p + n" using assms(3) [of "j - p"] that by simp
  show "zone_written zone (p + n) (drop n data) (memcpy_at p (take n data) mem) ! j = zone_written zone p data mem ! j"
    using j assms(1,2) w by (auto simp: zone_written_def nth_memcpy_at)
qed

lemma zone_written_skip:
  assumes "n \<le> length data" "p + length data \<le> length mem" "\<And>i. i < n \<Longrightarrow> \<not> writable zone (p + i)"
  shows "zone_written zone (p + n) (drop n data) mem = zone_written zone p data mem"
proof (rule nth_equalityI)
  show "length (zone_written zone (p + n) (drop n data) mem) = length (zone_written zone p data mem)"
    by (simp add: zone_written_def)
  fix j assume "j < length (zone_written zone (p + n) (drop n data) mem)"
  then have j: "j < length mem" by (simp add: zone_written_def)
  have w: "\<not> writable zone j" if "p \<le> j" "j < p + n" using assms(3) [of "j - p"] that by simp
  show "zone_written zone (p + n) (drop n data) mem ! j = zone_written zone p data mem ! j"
    using j assms(1,2) w by (auto simp: zone_written_def)
qed

lemma write_loop_writes:
  assumes "zone_writes I M zone slot zsize"
  shows "I st \<Longrightarrow> w < 8 \<Longrightarrow> length data mod 4 = 0 \<Longrightarrow> b * 32 + w * 4 + length data \<le> zsize \<Longrightarrow>
    \<exists>st'. I st' \<and> M st' = zone_written zone (b * 32 + w * 4) data (M st) \<and>
      write_bytes_loop zone slot b w data st = Some (Inr (ATCA_SUCCESS, st'))"
proof (induction "length data" arbitrary: st b w data rule: less_induct)
  case less
  have m: "length (M st) = zsize" using assms less.prems(1) by (simp add: zone_writes_def)
  show ?case
  proof (cases "data = []")
    case True
    then show ?thesis using less.prems(1)
      by (intro exI [of _ st]) (simp add: zone_written_nil write_bytes_loop.simps)
  next
    case False
    then have four: "4 \<le> length data" using less.prems(3) by (cases "length data") (auto, presburger)
    have s: "unat ATCA_BLOCK_SIZE = 32" "unat ATCA_WORD_SIZE = 4" "ATCA_BLOCK_SIZE = 32" "ATCA_WORD_SIZE = 4"
      by (simp_all add: command_consts)
    show ?thesis
    proof (cases "w = 0 \<and> 32 \<le> length data \<and> \<not> (zone = ATCA_ZONE_CONFIG \<and> b = 2)")
      case True
      then have ok: "transfer_ok b 0 32 zsize" using less.prems(4) by (simp add: transfer_ok_def)
      have w: "writable zone (b * 32 + i)" if "i < 32" for i using True that by (auto simp: writable_def)
      have "unat (32 :: u8) \<le> length data" using True by simp
      from zone_writesD [OF assms less.prems(1) ok this] w obtain st1 where 1: "I st1"
        "M st1 = memcpy_at (b * 32) (take 32 data) (M st)"
        "atcab_write_zone zone slot (of_nat b) 0 data ATCA_BLOCK_SIZE st = Some (Inr (ATCA_SUCCESS, st1))"
        by (auto simp: s)
      have "length data - 32 < length data" "(length data - 32) mod 4 = 0" "(b + 1) * 32 + w * 4 + (length data - 32) \<le> zsize"
        using conjunct1 [OF True] conjunct1 [OF conjunct2 [OF True]] less.prems(3,4) by (linarith | presburger)+
      then have "length (drop 32 data) < length data" "length (drop 32 data) mod 4 = 0"
        "(b + 1) * 32 + w * 4 + length (drop 32 data) \<le> zsize" unfolding length_drop .
      from less.hyps [OF this(1) 1(1) less.prems(2) this(2,3)] obtain st2 where 2: "I st2"
        "M st2 = zone_written zone (b * 32 + 32) (drop 32 data) (M st1)"
        "write_bytes_loop zone slot (b + 1) w (drop 32 data) st1 = Some (Inr (ATCA_SUCCESS, st2))"
        using True by (auto simp: add.commute)
      have "M st2 = zone_written zone (b * 32 + w * 4) data (M st)"
        using zone_written_step [of 32 data "b * 32" "M st" zone] w True less.prems(4) m unfolding 2(2) 1(2) by simp
      moreover have "write_bytes_loop zone slot b w data st = Some (Inr (ATCA_SUCCESS, st2))"
        using True False 1(3) 2(3) by (subst write_bytes_loop.simps) simp
      ultimately show ?thesis using 2(1) by blast
    next
      case words: False
      let ?p = "b * 32 + w * 4"
      let ?b = "if w + 1 = 8 then b + 1 else b" and ?w = "if w + 1 = 8 then 0 else w + 1"
      have p: "?b * 32 + ?w * 4 = ?p + 4" "?w < 8" using less.prems(2) by auto
      have r: "length (drop 4 data) < length data" "length (drop 4 data) mod 4 = 0" "?b * 32 + ?w * 4 + length (drop 4 data) \<le> zsize"
        unfolding p(1) using less.prems(3,4) four by (simp_all, presburger)
      have step: "\<exists>st1. I st1 \<and> zone_written zone (?p + 4) (drop 4 data) (M st1) = zone_written zone ?p data (M st) \<and>
          (if zone = ATCA_ZONE_CONFIG \<and> b = 2 \<and> w = 5 then Some (Inr (ATCA_SUCCESS, st))
           else atcab_write_zone zone slot (of_nat b) (of_nat w) data ATCA_WORD_SIZE st) = Some (Inr (ATCA_SUCCESS, st1))"
      proof (cases "zone = ATCA_ZONE_CONFIG \<and> b = 2 \<and> w = 5")
        case True
        then have "\<not> writable zone (?p + i)" if "i < 4" for i using that by (auto simp: writable_def)
        from zone_written_skip [OF four _ this] show ?thesis using True less.prems(1,4) m by (intro exI [of _ st]) simp
      next
        case other: False
        have wr: "writable zone (?p + i)" if "i < 4" for i
          unfolding writable_def using other that less.prems(2) by (auto simp: not_le not_less; presburger)
        have ok: "transfer_ok b w 4 zsize" using less.prems(2,4) four by (simp add: transfer_ok_def)
        have "unat (4 :: u8) \<le> length data" using four by simp
        from zone_writesD [OF assms less.prems(1) ok this] wr obtain st1 where 1: "I st1"
          "M st1 = memcpy_at ?p (take 4 data) (M st)"
          "atcab_write_zone zone slot (of_nat b) (of_nat w) data ATCA_WORD_SIZE st = Some (Inr (ATCA_SUCCESS, st1))"
          by (auto simp: s)
        have "zone_written zone (?p + 4) (drop 4 data) (M st1) = zone_written zone ?p data (M st)"
          unfolding 1(2) by (rule zone_written_step [OF four _ wr]) (use less.prems(4) m in auto)
        then show ?thesis unfolding if_not_P [OF other] using 1(1,3) by blast
      qed
      then obtain st1 where 1: "I st1" "zone_written zone (?p + 4) (drop 4 data) (M st1) = zone_written zone ?p data (M st)"
        "(if zone = ATCA_ZONE_CONFIG \<and> b = 2 \<and> w = 5 then Some (Inr (ATCA_SUCCESS, st))
          else atcab_write_zone zone slot (of_nat b) (of_nat w) data ATCA_WORD_SIZE st) = Some (Inr (ATCA_SUCCESS, st1))" by blast
      from less.hyps [OF r(1) 1(1) p(2) r(2,3)] obtain st2 where 2: "I st2"
        "M st2 = zone_written zone (?p + 4) (drop 4 data) (M st1)"
        "write_bytes_loop zone slot ?b ?w (drop 4 data) st1 = Some (Inr (ATCA_SUCCESS, st2))" unfolding p(1) by blast
      have "write_bytes_loop zone slot b w data st = Some (Inr (ATCA_SUCCESS, st2))"
        by (subst write_bytes_loop.simps)
          (simp only: if_not_P [OF words] if_not_P [OF False] 1(3) if_runs_simps prod.case 2(3) simp_thms if_False)
      then show ?thesis using 2(1,2) 1(2) by auto
    qed
  qed
qed

text \<open>The bytes arrive in the zone and nowhere else.\<close>

lemma write_bytes_zone_writes:
  assumes "zone_writes I M zone slot zsize" "I st" "zone_args_ok zone slot" "gDevice st = Some dev"
    and "zone_size (devtype (mIfaceCFG (mIface dev))) zone slot = Some zsize"
    and "offset mod 4 = 0" "len mod 4 = 0" "offset + len \<le> zsize" "len \<le> length data"
  shows "\<exists>st'. I st' \<and> M st' = zone_written zone offset (take len data) (M st) \<and>
    atcab_write_bytes_zone zone slot offset data len st = Some (Inr (ATCA_SUCCESS, st'))"
proof (cases "len = 0")
  case True
  then show ?thesis using assms(2,3) by (auto simp: atcab_write_bytes_zone_def zone_written_nil)
next
  case False
  have p: "offset div 32 * 32 + offset mod 32 div 4 * 4 = offset" "offset mod 32 div 4 < 8" using assms(6) by presburger+
  have d: "length (take len data) mod 4 = 0" "offset + length (take len data) \<le> zsize" using assms(7-9) by (simp_all add: min_absorb2)
  obtain st' where "I st'" "M st' = zone_written zone offset (take len data) (M st)"
    "write_bytes_loop zone slot (offset div 32) (offset mod 32 div 4) (take len data) st = Some (Inr (ATCA_SUCCESS, st'))"
    using write_loop_writes [OF assms(1,2) p(2) d(1), of "offset div 32", unfolded p(1)] d(2) by blast
  then show ?thesis using False assms(3-9)
    by (auto simp: atcab_write_bytes_zone_def atcab_get_zone_size_def with_device_def needs_def)
qed

section \<open>A chip with a configuration zone\<close>

text \<open>It executes the read and write commands on the zone that is its state.\<close>

definition zone_chip :: "u8 list chip" where
  "zone_chip op p1 p2 dat mem =
     (let num = (if p1 AND ATCA_ZONE_READWRITE_32 \<noteq> 0 then 32 else 4); pos = 4 * unat p2
      in if op = ATCA_READ then (mem, take num (drop pos mem)) else (memcpy_at pos (take num dat) mem, [0]))"

definition sim_holds :: "u8 list \<Rightarrow> (u8 list \<times> u8 list) atcab \<Rightarrow> bool" where
  "sim_holds mem st \<longleftrightarrow> chip_ready ATECC508A zone_chip st \<and> chip_state st = mem \<and> length mem = 128"

lemma config_address:
  assumes "b < 4" "w < 8"
  shows "unat (push_bit 3 (ucast (of_nat b :: u8)) OR ucast ((of_nat w :: u8) AND 7) :: u16) = b * 8 + w"
proof -
  have "b \<in> {0, 1, 2, 3}" "w \<in> {0, 1, 2, 3, 4, 5, 6, 7}" using assms by auto
  then show ?thesis by (elim insertE emptyE; simp)
qed

lemma transfer_address:
  assumes "transfer_ok b w rs 128"
  shows "\<exists>a. atcab_get_addr ATCA_ZONE_CONFIG 0 (of_nat b) (of_nat w) = (ATCA_SUCCESS, Some a) \<and> 4 * unat a = b * 32 + w * 4"
    "rs = 4 \<or> rs = 32" "(if rs = ATCA_BLOCK_SIZE then ATCA_ZONE_CONFIG OR ATCA_ZONE_READWRITE_32 else ATCA_ZONE_CONFIG) AND 0x80 \<noteq> 0 \<longleftrightarrow> rs = 32"
proof -
  have "b < 4" "w < 8" using assms by (auto simp: transfer_ok_def)
  from config_address [OF this] show "\<exists>a. atcab_get_addr ATCA_ZONE_CONFIG 0 (of_nat b) (of_nat w) = (ATCA_SUCCESS, Some a) \<and> 4 * unat a = b * 32 + w * 4"
    by (simp add: atcab_get_addr_def command_consts)
  show "rs = 4 \<or> rs = 32" using assms by (auto simp: transfer_ok_def)
  then show "(if rs = ATCA_BLOCK_SIZE then ATCA_ZONE_CONFIG OR ATCA_ZONE_READWRITE_32 else ATCA_ZONE_CONFIG) AND 0x80 \<noteq> 0 \<longleftrightarrow> rs = 32"
    by (auto simp: command_consts)
qed

lemma sim_reads: "zone_reads (sim_holds mem) ATCA_ZONE_CONFIG 0 mem"
  unfolding zone_reads_def
proof (intro allI impI)
  fix st b w rs
  assume st: "sim_holds mem st" and t: "transfer_ok b w rs (length mem)"
  then have m: "length mem = 128" "chip_state st = mem" "chip_ready ATECC508A zone_chip st"
    by (simp_all add: sim_holds_def)
  note addr = transfer_address [OF t [unfolded m(1)]]
  obtain a where a: "atcab_get_addr ATCA_ZONE_CONFIG 0 (of_nat b) (of_nat w) = (ATCA_SUCCESS, Some a)" "4 * unat a = b * 32 + w * 4"
    using addr(1) by blast
  let ?zone = "if rs = ATCA_BLOCK_SIZE then ATCA_ZONE_CONFIG OR ATCA_ZONE_READWRITE_32 else ATCA_ZONE_CONFIG"
  let ?p = "zero_packet\<lparr>param1 := ?zone, param2 := a\<rparr>" and ?dat = "take (unat rs) (drop (b * 32 + w * 4) mem)"
  let ?adjust = "\<lambda>packet. packet\<lparr>opcode := ATCA_READ, txsize := ATCA_CMD_SIZE_MIN,
       rxsize := (if param1 packet AND 0x80 = 0 then ATCA_RSP_SIZE_VAL else ATCA_RSP_SIZE_32)\<rparr>"
  have len: "length ?dat = unat rs" using t m(1) by (auto simp: transfer_ok_def)
  have rx: "unat (rxsize (?adjust ?p)) = unat rs + 3" using addr(2,3) by (auto simp: command_consts)
  have ans: "chip_answer zone_chip (?adjust ?p) (chip_state st) = (mem, ?dat)"
    using addr(2,3) a(2) m(2) by (auto simp: chip_answer_def zone_chip_def Let_def ATCA_ZONE_READWRITE_32_def)
  have "\<exists>q. execute atRead ?p (chip_device ATECC508A zone_chip) st =
        Some (Inr (response_status ?dat, q, st\<lparr>lib := (mem, response_frame ?dat)\<rparr>)) \<and>
      rxsize q = rxsize (?adjust ?p) \<and> pkt_data q ! 0 = of_nat (length ?dat + 3) \<and> response_data (length ?dat) q = ?dat"
  proof (rule chip_command [OF _ _ _ _ _ _ ans])
    show "atRead (Some (mCommands (chip_device ATECC508A zone_chip))) ?p = with_crc (?adjust ?p)" by (simp add: atRead_def)
    show "wf_packet (?adjust ?p)" by (simp add: wf_packet_def zero_packet_def)
    show "7 \<le> unat (txsize (?adjust ?p))" "unat (txsize (?adjust ?p)) \<le> 135" by (simp_all add: command_consts)
    show "?dat \<noteq> []" "length ?dat + 3 \<le> 130" using len addr(2) by (auto simp del: length_take length_drop)
  qed (use rx addr(2) in auto)
  moreover have "response_status ?dat = ATCA_SUCCESS"
    using len addr(2) by (intro response_status_cases(1)) auto
  ultimately show "\<exists>st'. sim_holds mem st' \<and> atcab_read_zone ATCA_ZONE_CONFIG 0 (of_nat b) (of_nat w) rs st =
      Some (Inr (ATCA_SUCCESS, Some ?dat, st'))"
    using m a(1) addr(2) len
    by (auto simp: atcab_read_zone_def ready_start sim_holds_def simp del: take_drop)
qed

lemma sim_writes: "zone_writes (\<lambda>st. sim_holds (chip_state st) st) chip_state ATCA_ZONE_CONFIG 0 128"
  unfolding zone_writes_def
proof (intro conjI allI impI)
  fix st b w rs and data :: "u8 list"
  assume st: "sim_holds (chip_state st) st" and t: "transfer_ok b w rs 128" and d: "unat rs \<le> length data"
  let ?mem = "chip_state st" and ?dev = "chip_device ATECC508A zone_chip"
  have m: "length ?mem = 128" "chip_ready ATECC508A zone_chip st" using st by (simp_all add: sim_holds_def)
  note addr = transfer_address [OF t]
  obtain a where a: "atcab_get_addr ATCA_ZONE_CONFIG 0 (of_nat b) (of_nat w) = (ATCA_SUCCESS, Some a)" "4 * unat a = b * 32 + w * 4"
    using addr(1) by blast
  let ?zone = "if rs = ATCA_BLOCK_SIZE then ATCA_ZONE_CONFIG OR ATCA_ZONE_READWRITE_32 else ATCA_ZONE_CONFIG"
  let ?p = "copy_in 0 (unat rs) data (zero_packet\<lparr>param1 := ?zone, param2 := a\<rparr>)"
  let ?new = "memcpy_at (b * 32 + w * 4) (take (unat rs) data) ?mem"
  let ?adjust = "\<lambda>packet. packet\<lparr>opcode := ATCA_WRITE,
     txsize := 7 + (if param1 packet AND ATCA_ZONE_READWRITE_32 \<noteq> 0 then ATCA_BLOCK_SIZE else ATCA_WORD_SIZE),
     rxsize := ATCA_RSP_SIZE_MIN\<rparr>"
  have rs: "unat rs \<le> 32" using addr(2) by auto
  have z: "?zone AND ATCA_ZONE_READWRITE_32 \<noteq> 0 \<longleftrightarrow> rs = 32" using addr(3) by (simp add: ATCA_ZONE_READWRITE_32_def)
  have p: "param1 ?p = ?zone" "param2 ?p = a" by (simp_all add: copy_in_def)
  have tx: "unat (txsize (?adjust ?p)) = unat rs + 7" using addr(2) by (auto simp: copy_in_def command_consts)
  have "command_data (?adjust ?p) = take (unat rs) (pkt_data ?p)" using tx by (simp add: command_data_def)
  also have "\<dots> = take (unat rs) data" using d by (simp add: copy_in_def memcpy_at_def)
  finally have ans: "chip_answer zone_chip (?adjust ?p) ?mem = (?new, [0])"
    using z a(2) addr(2) by (auto simp: chip_answer_def zone_chip_def Let_def p ATCA_WRITE_def ATCA_READ_def)
  have "\<exists>q. execute (\<lambda>cmd packet. atWrite cmd packet False) ?p ?dev st =
        Some (Inr (response_status [0], q, st\<lparr>lib := (?new, response_frame [0])\<rparr>)) \<and>
      rxsize q = rxsize (?adjust ?p) \<and> pkt_data q ! 0 = of_nat (length [0 :: u8] + 3) \<and> response_data (length [0 :: u8]) q = [0]"
  proof (rule chip_command [OF _ _ _ _ _ _ ans])
    show "atWrite (Some (mCommands ?dev)) ?p False = with_crc (?adjust ?p)" by (simp add: atWrite_def)
    show "wf_packet (?adjust ?p)"
      using rs d by (simp add: wf_packet_def copy_in_def zero_packet_def PACKET_DATA_SIZE_def)
  qed (use tx rs in \<open>simp_all add: ATCA_RSP_SIZE_MIN_def\<close>)
  then obtain q where q: "execute (\<lambda>cmd packet. atWrite cmd packet False) ?p ?dev st =
      Some (Inr (ATCA_SUCCESS, q, st\<lparr>lib := (?new, response_frame [0])\<rparr>))" by (auto simp: response_status_cases)
  have "atcab_write ?zone a data None st = Some (Inr (ATCA_SUCCESS, st\<lparr>lib := (?new, response_frame [0])\<rparr>))"
  proof (cases "rs = 32")
    case True
    then show ?thesis using q z d by (simp add: atcab_write_def ready_start [OF m(2)] needs_def Let_def)
  next
    case False
    then have "rs = 4" using addr(2) by simp
    then show ?thesis using q z d by (simp add: atcab_write_def ready_start [OF m(2)] needs_def Let_def)
  qed
  moreover have "length ?new = 128" using m(1) t d by (simp add: transfer_ok_def)
  ultimately show "\<exists>st'. sim_holds (chip_state st') st' \<and> chip_state st' = ?new \<and>
      atcab_write_zone ATCA_ZONE_CONFIG 0 (of_nat b) (of_nat w) data rs st = Some (Inr (ATCA_SUCCESS, st'))"
    using a(1) addr(2) m(2)
    by (intro exI [of _ "st\<lparr>lib := (?new, response_frame [0])\<rparr>"]) (auto simp: atcab_write_zone_def sim_holds_def)
qed (simp add: sim_holds_def chip_ready_def)

section \<open>Properties\<close>

text \<open>
  C13: On a chip that answers block and word reads with the content of a zone, reading any run
  of bytes inside the zone delivers these bytes, in whatever blocks and words it is fetched.
\<close>

theorem read_bytes_refines:
  assumes "zone_reads I zone slot mem" "I st" "zone_args_ok zone slot" "gDevice st = Some dev"
    and "zone_size (devtype (mIfaceCFG (mIface dev))) zone slot = Some (length mem)" "offset + len \<le> length mem"
  shows "\<exists>st'. I st' \<and> atcab_read_bytes_zone zone slot offset len st =
    Some (Inr (ATCA_SUCCESS, take len (drop offset mem), st'))"
  by (rule read_bytes_zone_reads [OF assms])

lemma sim_device_zone:
  "zone_size (devtype (mIfaceCFG (mIface (chip_device ATECC508A zone_chip)))) ATCA_ZONE_CONFIG 0 = Some 128" "zone_args_ok ATCA_ZONE_CONFIG 0"
  by (simp_all add: zone_size_def zone_args_ok_def command_consts)

theorem read_bytes_refines_witness:
  "\<exists>st'. atcab_read_bytes_zone ATCA_ZONE_CONFIG 0 30 40 (chip_lib ATECC508A zone_chip (map of_nat [0..<128])) =
     Some (Inr (ATCA_SUCCESS, map of_nat [30..<70], st'))"
proof -
  let ?mem = "map of_nat [0..<128] :: u8 list"
  have "sim_holds ?mem (chip_lib ATECC508A zone_chip ?mem)" by (simp add: sim_holds_def chip_lib_ready)
  moreover have "gDevice (chip_lib ATECC508A zone_chip ?mem) = Some (chip_device ATECC508A zone_chip)" by (simp add: chip_lib_def)
  moreover have "take 40 (drop 30 ?mem) = map of_nat [30..<70]" by (simp only: drop_map take_map drop_upt) simp
  ultimately show ?thesis
    using read_bytes_refines [OF sim_reads [of ?mem], of "chip_lib ATECC508A zone_chip ?mem" "chip_device ATECC508A zone_chip" 30 40] sim_device_zone by auto
qed



end
