(* ===== verification/AtcaOps.thy ===== *)
theory AtcaOps
  imports AtcaBasic
begin

text \<open>
  The basic commands that the library offers beside reading and writing (\<open>basic/atca_basic_info.c\<close>,
  \<open>_lock\<close>, \<open>_random\<close>, \<open>_nonce\<close>, \<open>_counter\<close>, \<open>_derivekey\<close>, \<open>_checkmac\<close>, \<open>_mac\<close>, \<open>_hmac\<close>, \<open>_gendig\<close>,
  \<open>_genkey\<close>, \<open>_updateextra\<close>, \<open>_selftest\<close>, \<open>_sign\<close>, \<open>_verify\<close>, \<open>_kdf\<close>, \<open>_ecdh\<close>, \<open>_secureboot\<close>). An output
  is an option: the bytes that are copied to the buffer of the caller, if it gave one, or \<open>None\<close>
  when nothing is copied. An input that may be a null pointer is an option too.
\<close>

section \<open>Constants\<close>

definition INFO_MODE_REVISION :: u8 where "INFO_MODE_REVISION = 0x00"
definition INFO_MODE_VOL_KEY_PERMIT :: u8 where "INFO_MODE_VOL_KEY_PERMIT = 0x04"
definition INFO_PARAM2_SET_LATCH_STATE :: u16 where "INFO_PARAM2_SET_LATCH_STATE = 0x0002"
definition INFO_PARAM2_LATCH_SET :: u16 where "INFO_PARAM2_LATCH_SET = 0x0001"
definition INFO_PARAM2_LATCH_CLEAR :: u16 where "INFO_PARAM2_LATCH_CLEAR = 0x0000"
definition LOCK_ZONE_DATA_SLOT :: u8 where "LOCK_ZONE_DATA_SLOT = 0x02"
definition LOCK_ZONE_NO_CRC :: u8 where "LOCK_ZONE_NO_CRC = 0x80"
definition RANDOM_SEED_UPDATE :: u8 where "RANDOM_SEED_UPDATE = 0x00"
definition RANDOM_RSP_SIZE :: u8 where "RANDOM_RSP_SIZE = 35"
definition NONCE_NUMIN_SIZE :: nat where "NONCE_NUMIN_SIZE = 20"
definition NONCE_MODE_INPUT_LEN_32 :: u8 where "NONCE_MODE_INPUT_LEN_32 = 0x00"
definition NONCE_MODE_TARGET_MASK :: u8 where "NONCE_MODE_TARGET_MASK = 0xC0"
definition NONCE_MODE_TARGET_TEMPKEY :: u8 where "NONCE_MODE_TARGET_TEMPKEY = 0x00"
definition NONCE_MODE_TARGET_MSGDIGBUF :: u8 where "NONCE_MODE_TARGET_MSGDIGBUF = 0x40"
definition COUNTER_MODE_READ :: u8 where "COUNTER_MODE_READ = 0x00"
definition COUNTER_MODE_INCREMENT :: u8 where "COUNTER_MODE_INCREMENT = 0x01"
definition CHECKMAC_MODE_BLOCK2_TEMPKEY :: u8 where "CHECKMAC_MODE_BLOCK2_TEMPKEY = 0x01"
definition CHECKMAC_OTHER_DATA_SIZE :: nat where "CHECKMAC_OTHER_DATA_SIZE = 13"
definition GENDIG_ZONE_DATA :: u8 where "GENDIG_ZONE_DATA = 2"
definition GENKEY_OTHER_DATA_SIZE :: nat where "GENKEY_OTHER_DATA_SIZE = 3"
definition GENKEY_MODE_PRIVATE :: u8 where "GENKEY_MODE_PRIVATE = 0x04"
definition GENKEY_MODE_PUBLIC :: u8 where "GENKEY_MODE_PUBLIC = 0x00"
definition SIGN_MODE_INTERNAL :: u8 where "SIGN_MODE_INTERNAL = 0x00"
definition SIGN_MODE_INVALIDATE :: u8 where "SIGN_MODE_INVALIDATE = 0x01"
definition SIGN_MODE_INCLUDE_SN :: u8 where "SIGN_MODE_INCLUDE_SN = 0x40"
definition SIGN_MODE_EXTERNAL :: u8 where "SIGN_MODE_EXTERNAL = 0x80"
definition SIGN_MODE_SOURCE_TEMPKEY :: u8 where "SIGN_MODE_SOURCE_TEMPKEY = 0x00"
definition SIGN_MODE_SOURCE_MSGDIGBUF :: u8 where "SIGN_MODE_SOURCE_MSGDIGBUF = 0x20"
definition VERIFY_MODE_SOURCE_TEMPKEY :: u8 where "VERIFY_MODE_SOURCE_TEMPKEY = 0x00"
definition VERIFY_MODE_SOURCE_MSGDIGBUF :: u8 where "VERIFY_MODE_SOURCE_MSGDIGBUF = 0x20"
definition VERIFY_KEY_P256 :: u16 where "VERIFY_KEY_P256 = 0x0004"
definition VERIFY_OTHER_DATA_SIZE :: nat where "VERIFY_OTHER_DATA_SIZE = 19"
definition ATCA_SIG_SIZE :: nat where "ATCA_SIG_SIZE = 64"
definition ATCA_PUB_KEY_SIZE :: nat where "ATCA_PUB_KEY_SIZE = 64"
definition ATCA_KEY_SIZE :: nat where "ATCA_KEY_SIZE = 32"
definition ECDH_PREFIX_MODE :: u8 where "ECDH_PREFIX_MODE = 0x00"
definition ECDH_MODE_SOURCE_TEMPKEY :: u8 where "ECDH_MODE_SOURCE_TEMPKEY = 0x01"
definition ECDH_MODE_COPY_OUTPUT_BUFFER :: u8 where "ECDH_MODE_COPY_OUTPUT_BUFFER = 0x0C"

lemmas op_consts [model_eval] =
  INFO_MODE_REVISION_def INFO_MODE_VOL_KEY_PERMIT_def INFO_PARAM2_SET_LATCH_STATE_def
  INFO_PARAM2_LATCH_SET_def INFO_PARAM2_LATCH_CLEAR_def LOCK_ZONE_DATA_SLOT_def LOCK_ZONE_NO_CRC_def
  RANDOM_SEED_UPDATE_def RANDOM_RSP_SIZE_def NONCE_NUMIN_SIZE_def NONCE_MODE_INPUT_LEN_32_def
  NONCE_MODE_TARGET_MASK_def NONCE_MODE_TARGET_TEMPKEY_def NONCE_MODE_TARGET_MSGDIGBUF_def
  COUNTER_MODE_READ_def COUNTER_MODE_INCREMENT_def CHECKMAC_MODE_BLOCK2_TEMPKEY_def
  CHECKMAC_OTHER_DATA_SIZE_def GENDIG_ZONE_DATA_def GENKEY_OTHER_DATA_SIZE_def GENKEY_MODE_PRIVATE_def
  GENKEY_MODE_PUBLIC_def SIGN_MODE_INTERNAL_def SIGN_MODE_INVALIDATE_def SIGN_MODE_INCLUDE_SN_def
  SIGN_MODE_EXTERNAL_def SIGN_MODE_SOURCE_TEMPKEY_def SIGN_MODE_SOURCE_MSGDIGBUF_def
  VERIFY_MODE_SOURCE_TEMPKEY_def VERIFY_MODE_SOURCE_MSGDIGBUF_def VERIFY_KEY_P256_def
  VERIFY_OTHER_DATA_SIZE_def ATCA_SIG_SIZE_def ATCA_PUB_KEY_SIZE_def ATCA_KEY_SIZE_def
  ECDH_PREFIX_MODE_def ECDH_MODE_SOURCE_TEMPKEY_def ECDH_MODE_COPY_OUTPUT_BUFFER_def

section \<open>Commands with one response\<close>

text \<open>
  The end of most functions: build, execute, and on success deliver what the response holds.
  A function that needs the packet with the response itself uses \<open>execute\<close>.
\<close>

definition command ::
    "(ATCACommand \<Rightarrow> ATCAPacket \<Rightarrow> built) \<Rightarrow> ATCAPacket \<Rightarrow> (ATCAPacket \<Rightarrow> 'o option) \<Rightarrow>
     's ATCADevice \<Rightarrow> 's atcab \<Rightarrow> (ATCA_STATUS \<times> 'o option \<times> 's atcab) run" where
  "command build packet out dev st =
     if_runs (execute build packet dev st) (\<lambda>(status, packet, st).
       Some (Inr (status, if status = ATCA_SUCCESS then out packet else None, st)))"

definition only_status :: "(ATCA_STATUS \<times> 'o \<times> 's atcab) run \<Rightarrow> (ATCA_STATUS \<times> 's atcab) run" where
  "only_status r = if_runs r (\<lambda>(status, out, st). Some (Inr (status, st)))"

text \<open>The information command and the latch.\<close>

definition atcab_info_base ::
    "u8 \<Rightarrow> u16 \<Rightarrow> 's atcab \<Rightarrow> (ATCA_STATUS \<times> u8 list option \<times> 's atcab) run" where
  "atcab_info_base mode p2 = with_device (\<lambda>dev st.
     let (packet, st) = found_packet st
     in command atInfo (packet\<lparr>param1 := mode, param2 := p2\<rparr>)
          (\<lambda>packet. if rxsize packet \<ge> 7 then Some (response_data 4 packet) else None) dev st)"

definition atcab_info :: "'s atcab \<Rightarrow> (ATCA_STATUS \<times> u8 list option \<times> 's atcab) run" where
  "atcab_info = atcab_info_base INFO_MODE_REVISION 0"

definition atcab_info_get_latch :: "'s atcab \<Rightarrow> (ATCA_STATUS \<times> bool option \<times> 's atcab) run" where
  "atcab_info_get_latch st =
     if_runs (atcab_info_base INFO_MODE_VOL_KEY_PERMIT 0 st) (\<lambda>(status, out_data, st).
       if status \<noteq> ATCA_SUCCESS then Some (Inr (status, None, st))
       else case out_data of
           None \<Rightarrow> Some (Inl Uninitialised)
         | Some d \<Rightarrow> Some (Inr (status, Some (d ! 0 = 1), st)))"

definition atcab_info_set_latch :: "bool \<Rightarrow> 's atcab \<Rightarrow> (ATCA_STATUS \<times> 's atcab) run" where
  "atcab_info_set_latch latch st =
     only_status (atcab_info_base INFO_MODE_VOL_KEY_PERMIT
       (INFO_PARAM2_SET_LATCH_STATE OR (if latch then INFO_PARAM2_LATCH_SET else INFO_PARAM2_LATCH_CLEAR)) st)"

text \<open>The lock command; its packet is zeroed first.\<close>

definition atcab_lock :: "u8 \<Rightarrow> u16 \<Rightarrow> 's atcab \<Rightarrow> (ATCA_STATUS \<times> 's atcab) run" where
  "atcab_lock mode summary_crc = with_device (\<lambda>dev st.
     only_status (command atLock (zero_packet\<lparr>param1 := mode, param2 := summary_crc\<rparr>) (\<lambda>_. None :: unit option) dev st))"

definition atcab_lock_config_zone :: "'s atcab \<Rightarrow> (ATCA_STATUS \<times> 's atcab) run" where
  "atcab_lock_config_zone = atcab_lock (LOCK_ZONE_NO_CRC OR LOCK_ZONE_CONFIG) 0"

definition atcab_lock_config_zone_crc :: "u16 \<Rightarrow> 's atcab \<Rightarrow> (ATCA_STATUS \<times> 's atcab) run" where
  "atcab_lock_config_zone_crc summary_crc = atcab_lock LOCK_ZONE_CONFIG summary_crc"

definition atcab_lock_data_zone :: "'s atcab \<Rightarrow> (ATCA_STATUS \<times> 's atcab) run" where
  "atcab_lock_data_zone = atcab_lock (LOCK_ZONE_NO_CRC OR LOCK_ZONE_DATA) 0"

definition atcab_lock_data_zone_crc :: "u16 \<Rightarrow> 's atcab \<Rightarrow> (ATCA_STATUS \<times> 's atcab) run" where
  "atcab_lock_data_zone_crc summary_crc = atcab_lock LOCK_ZONE_DATA summary_crc"

definition atcab_lock_data_slot :: "u16 \<Rightarrow> 's atcab \<Rightarrow> (ATCA_STATUS \<times> 's atcab) run" where
  "atcab_lock_data_slot slot = atcab_lock (push_bit 2 (ucast slot) OR LOCK_ZONE_DATA_SLOT) 0"

text \<open>Updating the extra bytes; the random numbers, whose response is checked once more.\<close>

definition atcab_updateextra :: "u8 \<Rightarrow> u16 \<Rightarrow> 's atcab \<Rightarrow> (ATCA_STATUS \<times> 's atcab) run" where
  "atcab_updateextra mode new_value = with_device (\<lambda>dev st.
     only_status (command atUpdateExtra (zero_packet\<lparr>param1 := mode, param2 := new_value\<rparr>) (\<lambda>_. None :: unit option) dev st))"

definition atcab_random :: "'s atcab \<Rightarrow> (ATCA_STATUS \<times> u8 list option \<times> 's atcab) run" where
  "atcab_random = with_device (\<lambda>dev st.
     let (packet, st) = found_packet st
     in if_runs (execute atRandom (packet\<lparr>param1 := RANDOM_SEED_UPDATE, param2 := 0\<rparr>) dev st) (\<lambda>(status, packet, st).
          if status \<noteq> ATCA_SUCCESS then Some (Inr (status, None, st))
          else if rxsize packet < ucast (pkt_data packet ! 0) \<or> pkt_data packet ! 0 \<noteq> RANDOM_RSP_SIZE
          then Some (Inr (ATCA_RX_FAIL, None, st))
          else Some (Inr (status, Some (response_data 32 packet), st))))"

section \<open>Nonces\<close>

definition atcab_nonce_base ::
    "u8 \<Rightarrow> u16 \<Rightarrow> u8 list \<Rightarrow> 's atcab \<Rightarrow> (ATCA_STATUS \<times> u8 list option \<times> 's atcab) run" where
  "atcab_nonce_base mode zero num_in = with_device (\<lambda>dev st.
     let nonce_mode = mode AND NONCE_MODE_MASK;
         (packet, st) = found_packet st;
         packet = packet\<lparr>param1 := mode, param2 := zero\<rparr>;
         load = (\<lambda>n. needs n num_in (command atNonce (copy_in 0 n num_in packet)
           (\<lambda>packet. if rxsize packet \<ge> 35 then Some (response_data 32 packet) else None) dev st))
     in if nonce_mode = NONCE_MODE_SEED_UPDATE \<or> nonce_mode = NONCE_MODE_NO_SEED_UPDATE
        then load NONCE_NUMIN_SIZE
        else if nonce_mode = NONCE_MODE_PASSTHROUGH
        then load (if mode AND NONCE_MODE_INPUT_LEN_MASK = NONCE_MODE_INPUT_LEN_64 then 64 else 32)
        else Some (Inr (ATCA_BAD_PARAM, None, st)))"

definition atcab_nonce :: "u8 list \<Rightarrow> 's atcab \<Rightarrow> (ATCA_STATUS \<times> 's atcab) run" where
  "atcab_nonce num_in st = only_status (atcab_nonce_base NONCE_MODE_PASSTHROUGH 0 num_in st)"

definition atcab_nonce_load :: "u8 \<Rightarrow> u8 list \<Rightarrow> u16 \<Rightarrow> 's atcab \<Rightarrow> (ATCA_STATUS \<times> 's atcab) run" where
  "atcab_nonce_load target num_in num_in_size st =
     (let mode = NONCE_MODE_PASSTHROUGH OR (NONCE_MODE_TARGET_MASK AND target)
      in if num_in_size = 32
         then only_status (atcab_nonce_base (mode OR NONCE_MODE_INPUT_LEN_32) 0 num_in st)
         else if num_in_size = 64
         then only_status (atcab_nonce_base (mode OR NONCE_MODE_INPUT_LEN_64) 0 num_in st)
         else Some (Inr (ATCA_BAD_PARAM, st)))"

definition atcab_nonce_rand :: "u8 list \<Rightarrow> 's atcab \<Rightarrow> (ATCA_STATUS \<times> u8 list option \<times> 's atcab) run" where
  "atcab_nonce_rand num_in = atcab_nonce_base NONCE_MODE_SEED_UPDATE 0 num_in"

definition atcab_challenge :: "u8 list \<Rightarrow> 's atcab \<Rightarrow> (ATCA_STATUS \<times> 's atcab) run" where
  "atcab_challenge num_in st = only_status (atcab_nonce_base NONCE_MODE_PASSTHROUGH 0 num_in st)"

definition atcab_challenge_seed_update :: "u8 list \<Rightarrow> 's atcab \<Rightarrow> (ATCA_STATUS \<times> u8 list option \<times> 's atcab) run" where
  "atcab_challenge_seed_update num_in = atcab_nonce_base NONCE_MODE_SEED_UPDATE 0 num_in"

section \<open>Counters\<close>

definition atcab_counter :: "u8 \<Rightarrow> u16 \<Rightarrow> 's atcab \<Rightarrow> (ATCA_STATUS \<times> u32 option \<times> 's atcab) run" where
  "atcab_counter mode counter_id = with_device (\<lambda>dev st.
     let (packet, st) = found_packet st
     in if counter_id > 1 then Some (Inr (ATCA_BAD_PARAM, None, st))
        else command atCounter (packet\<lparr>param1 := mode, param2 := counter_id\<rparr>)
          (\<lambda>packet. if rxsize packet \<ge> 7 then Some (of_le32 (response_data 4 packet)) else None) dev st)"

definition atcab_counter_increment :: "u16 \<Rightarrow> 's atcab \<Rightarrow> (ATCA_STATUS \<times> u32 option \<times> 's atcab) run" where
  "atcab_counter_increment = atcab_counter COUNTER_MODE_INCREMENT"

definition atcab_counter_read :: "u16 \<Rightarrow> 's atcab \<Rightarrow> (ATCA_STATUS \<times> u32 option \<times> 's atcab) run" where
  "atcab_counter_read = atcab_counter COUNTER_MODE_READ"

section \<open>Keys and message authentication codes\<close>

definition atcab_derivekey :: "u8 \<Rightarrow> u16 \<Rightarrow> u8 list option \<Rightarrow> 's atcab \<Rightarrow> (ATCA_STATUS \<times> 's atcab) run" where
  "atcab_derivekey mode target_key mac = with_device (\<lambda>dev st.
     let (packet, st) = found_packet st;
         packet = packet\<lparr>param1 := mode, param2 := target_key\<rparr>;
         go = (\<lambda>packet. only_status (command (\<lambda>cmd p. atDeriveKey cmd p (mac \<noteq> None)) packet (\<lambda>_. None :: unit option) dev st))
     in case mac of None \<Rightarrow> go packet | Some m \<Rightarrow> needs 32 m (go (copy_in 0 32 m packet)))"

definition atcab_checkmac ::
    "u8 \<Rightarrow> u16 \<Rightarrow> u8 list option \<Rightarrow> u8 list option \<Rightarrow> u8 list option \<Rightarrow> 's atcab \<Rightarrow> (ATCA_STATUS \<times> 's atcab) run" where
  "atcab_checkmac mode key_id challenge response other_data = with_device (\<lambda>dev st.
     let (packet, st) = found_packet st;
         packet = packet\<lparr>param1 := mode, param2 := key_id\<rparr>
     in case (response, other_data) of
          (Some r, Some d) \<Rightarrow>
            if mode AND CHECKMAC_MODE_BLOCK2_TEMPKEY = 0 \<and> challenge = None then Some (Inr (ATCA_BAD_PARAM, st))
            else
              let c = (case challenge of None \<Rightarrow> replicate 32 0 | Some c \<Rightarrow> c)
              in needs 32 c (needs 32 r (needs CHECKMAC_OTHER_DATA_SIZE d
                (only_status (command atCheckMAC
                  (copy_in 64 CHECKMAC_OTHER_DATA_SIZE d (copy_in 32 32 r (copy_in 0 32 c packet)))
                  (\<lambda>_. None :: unit option) dev st))))
        | _ \<Rightarrow> Some (Inr (ATCA_BAD_PARAM, st)))"

definition atcab_mac ::
    "u8 \<Rightarrow> u16 \<Rightarrow> u8 list option \<Rightarrow> 's atcab \<Rightarrow> (ATCA_STATUS \<times> u8 list option \<times> 's atcab) run" where
  "atcab_mac mode key_id challenge = with_device (\<lambda>dev st.
     let (packet, st) = found_packet st;
         packet = packet\<lparr>param1 := mode, param2 := key_id\<rparr>;
         go = (\<lambda>packet. command atMAC packet (\<lambda>packet. Some (response_data 32 packet)) dev st)
     in if mode AND MAC_MODE_BLOCK2_TEMPKEY \<noteq> 0 then go packet
        else case challenge of
            None \<Rightarrow> Some (Inr (ATCA_BAD_PARAM, None, st))
          | Some c \<Rightarrow> needs 32 c (go (copy_in 0 32 c packet)))"

definition atcab_hmac :: "u8 \<Rightarrow> u16 \<Rightarrow> 's atcab \<Rightarrow> (ATCA_STATUS \<times> u8 list option \<times> 's atcab) run" where
  "atcab_hmac mode key_id = with_device (\<lambda>dev st.
     let (packet, st) = found_packet st
     in if_runs (execute atHMAC (packet\<lparr>param1 := mode, param2 := key_id\<rparr>) dev st) (\<lambda>(status, packet, st).
          if status \<noteq> ATCA_SUCCESS then Some (Inr (status, None, st))
          else if rxsize packet \<noteq> 32 + 3 then Some (Inr (ATCA_RX_FAIL, None, st))
          else Some (Inr (status, Some (response_data 32 packet), st))))"

definition atcab_gendig ::
    "u8 \<Rightarrow> u16 \<Rightarrow> u8 list option \<Rightarrow> u8 \<Rightarrow> 's atcab \<Rightarrow> (ATCA_STATUS \<times> 's atcab) run" where
  "atcab_gendig zone key_id other_data other_data_size = with_device (\<lambda>dev st.
     let (packet, st) = found_packet st;
         packet = packet\<lparr>param1 := zone, param2 := key_id\<rparr>;
         go = (\<lambda>no_mac packet. only_status (command (\<lambda>cmd p. atGenDig cmd p no_mac) packet (\<lambda>_. None :: unit option) dev st))
     in if other_data_size > 0 \<and> other_data = None then Some (Inr (ATCA_BAD_PARAM, st))
        else if zone = GENDIG_ZONE_SHARED_NONCE \<and> other_data_size \<ge> ATCA_BLOCK_SIZE
        then needs 32 (the other_data) (go False (copy_in 0 32 (the other_data) packet))
        else if zone = GENDIG_ZONE_DATA \<and> other_data_size \<ge> ATCA_WORD_SIZE
        then needs 4 (the other_data) (go True (copy_in 0 4 (the other_data) packet))
        else go False packet)"

text \<open>The size of a public key is what the first byte of the response says. \<open>public_key\<close>: the caller has
  a buffer for it.\<close>

definition atcab_genkey_base ::
    "u8 \<Rightarrow> u16 \<Rightarrow> u8 list option \<Rightarrow> bool \<Rightarrow> 's atcab \<Rightarrow> (ATCA_STATUS \<times> u8 list option \<times> 's atcab) run" where
  "atcab_genkey_base mode key_id other_data public_key = with_device (\<lambda>dev st.
     let (packet, st) = found_packet st;
         packet = packet\<lparr>param1 := mode, param2 := key_id\<rparr>;
         go = (\<lambda>packet. if_runs (execute atGenKey packet dev st) (\<lambda>(status, packet, st).
           let count = unat (pkt_data packet ! 0)
           in if status \<noteq> ATCA_SUCCESS \<or> \<not> (public_key \<and> count > 4) then Some (Inr (status, None, st))
              else needs (1 + (count - 3)) (pkt_data packet)
                (Some (Inr (status, Some (response_data (count - 3) packet), st)))))
     in case other_data of
          None \<Rightarrow> go packet
        | Some d \<Rightarrow> needs GENKEY_OTHER_DATA_SIZE d (go (copy_in 0 GENKEY_OTHER_DATA_SIZE d packet)))"

definition atcab_genkey :: "u16 \<Rightarrow> bool \<Rightarrow> 's atcab \<Rightarrow> (ATCA_STATUS \<times> u8 list option \<times> 's atcab) run" where
  "atcab_genkey key_id = atcab_genkey_base GENKEY_MODE_PRIVATE key_id None"

definition atcab_get_pubkey :: "u16 \<Rightarrow> bool \<Rightarrow> 's atcab \<Rightarrow> (ATCA_STATUS \<times> u8 list option \<times> 's atcab) run" where
  "atcab_get_pubkey key_id = atcab_genkey_base GENKEY_MODE_PUBLIC key_id None"


section \<open>The self test\<close>

text \<open>
  The response byte is taken for the result unless it has a bit in common with the logical
  negation of the mode, which is 0 for every mode but 0 (\<open>!mode\<close>, where \<open>~mode\<close> is meant).
\<close>

definition atcab_selftest :: "u8 \<Rightarrow> u16 \<Rightarrow> 's atcab \<Rightarrow> (ATCA_STATUS \<times> u8 option \<times> 's atcab) run" where
  "atcab_selftest mode p2 = with_device (\<lambda>dev st.
     let (packet, st) = found_packet st
     in case atSelfTest (Some (mCommands dev)) (packet\<lparr>param1 := mode, param2 := p2\<rparr>) of
          Inl e \<Rightarrow> Some (Inl e)
        | Inr (status, packet) \<Rightarrow>
            if status \<noteq> ATCA_SUCCESS then Some (Inr (status, None, st))
            else if_runs (atca_execute_command packet dev (lib st)) (\<lambda>(status, packet, s).
              let st = st\<lparr>lib := s\<rparr>; response = pkt_data packet ! 1
              in if response AND (if mode = 0 then 1 else 0) \<noteq> 0 then Some (Inr (status, None, st))
                 else Some (Inr (ATCA_SUCCESS, Some response, st))))"

section \<open>Signatures\<close>

text \<open>The size of a signature is that of the response.\<close>

definition atcab_sign_base :: "u8 \<Rightarrow> u16 \<Rightarrow> 's atcab \<Rightarrow> (ATCA_STATUS \<times> u8 list option \<times> 's atcab) run" where
  "atcab_sign_base mode key_id = with_device (\<lambda>dev st.
     let (packet, st) = found_packet st
     in command atSign (packet\<lparr>param1 := mode, param2 := key_id\<rparr>)
          (\<lambda>packet. if rxsize packet > 4 then Some (response_data (unat (rxsize packet - ATCA_PACKET_OVERHEAD)) packet) else None)
          dev st)"

definition atcab_sign :: "u16 \<Rightarrow> u8 list \<Rightarrow> 's atcab \<Rightarrow> (ATCA_STATUS \<times> u8 list option \<times> 's atcab) run" where
  "atcab_sign key_id msg st =
     if_runs (atcab_random st) (\<lambda>(status, _, st).
       if status \<noteq> ATCA_SUCCESS then Some (Inr (status, None, st))
       else with_device (\<lambda>dev st.
         let dig = (cmd_dt (mCommands dev) = ATECC608A)
         in if_runs (atcab_nonce_load (if dig then NONCE_MODE_TARGET_MSGDIGBUF else NONCE_MODE_TARGET_TEMPKEY) msg 32 st)
              (\<lambda>(status, st).
              if status \<noteq> ATCA_SUCCESS then Some (Inr (status, None, st))
              else atcab_sign_base
                (SIGN_MODE_EXTERNAL OR (if dig then SIGN_MODE_SOURCE_MSGDIGBUF else SIGN_MODE_SOURCE_TEMPKEY)) key_id st)) st)"

definition atcab_sign_internal ::
    "u16 \<Rightarrow> bool \<Rightarrow> bool \<Rightarrow> 's atcab \<Rightarrow> (ATCA_STATUS \<times> u8 list option \<times> 's atcab) run" where
  "atcab_sign_internal key_id is_invalidate is_full_sn =
     (let mode = SIGN_MODE_INTERNAL;
          mode = (if is_invalidate then mode OR SIGN_MODE_INVALIDATE else mode);
          mode = (if is_full_sn then mode OR SIGN_MODE_INCLUDE_SN else mode)
      in atcab_sign_base mode key_id)"

text \<open>
  Verification. The public key and the other data are null pointers in the modes that do not
  use them; the result is the validating code, where the response has one.
\<close>

definition atcab_verify ::
    "u8 \<Rightarrow> u16 \<Rightarrow> u8 list \<Rightarrow> u8 list option \<Rightarrow> u8 list option \<Rightarrow> 's atcab \<Rightarrow> (ATCA_STATUS \<times> u8 list option \<times> 's atcab) run" where
  "atcab_verify mode key_id signature public_key other_data = with_device (\<lambda>dev st.
     let verify_mode = mode AND VERIFY_MODE_MASK;
         (packet, st) = found_packet st;
         packet = packet\<lparr>param1 := mode, param2 := key_id\<rparr>;
         go = (\<lambda>packet. command atVerify packet
           (\<lambda>packet. if rxsize packet \<ge> 32 + ATCA_PACKET_OVERHEAD then Some (response_data 32 packet) else None) dev st)
     in if verify_mode = VERIFY_MODE_EXTERNAL \<and> public_key = None then Some (Inr (ATCA_BAD_PARAM, None, st))
        else if (verify_mode = VERIFY_MODE_VALIDATE \<or> verify_mode = VERIFY_MODE_INVALIDATE) \<and> other_data = None
        then Some (Inr (ATCA_BAD_PARAM, None, st))
        else needs ATCA_SIG_SIZE signature (
          let packet = copy_in 0 ATCA_SIG_SIZE signature packet
          in if verify_mode = VERIFY_MODE_EXTERNAL
             then needs ATCA_PUB_KEY_SIZE (the public_key) (go (copy_in ATCA_SIG_SIZE ATCA_PUB_KEY_SIZE (the public_key) packet))
             else case other_data of
                 None \<Rightarrow> go packet
               | Some d \<Rightarrow> needs VERIFY_OTHER_DATA_SIZE d (go (copy_in ATCA_SIG_SIZE VERIFY_OTHER_DATA_SIZE d packet))))"

text \<open>A failed verification is a success of the command.\<close>

definition verified :: "(ATCA_STATUS \<times> u8 list option \<times> 's atcab) run \<Rightarrow> (ATCA_STATUS \<times> bool \<times> 's atcab) run" where
  "verified r = if_runs r (\<lambda>(status, _, st).
     Some (Inr (if status = ATCA_CHECKMAC_VERIFY_FAILED then ATCA_SUCCESS else status, status = ATCA_SUCCESS, st)))"

text \<open>The message goes to the digest buffer of an ATECC608A and to the temporary key of the others.\<close>

definition verify_message ::
    "u8 list \<Rightarrow> (u8 \<Rightarrow> 's atcab \<Rightarrow> (ATCA_STATUS \<times> bool \<times> 's atcab) run) \<Rightarrow> 's atcab \<Rightarrow> (ATCA_STATUS \<times> bool \<times> 's atcab) run" where
  "verify_message message k = with_device (\<lambda>dev st.
     let dig = (cmd_dt (mCommands dev) = ATECC608A)
     in if_runs (atcab_nonce_load (if dig then NONCE_MODE_TARGET_MSGDIGBUF else NONCE_MODE_TARGET_TEMPKEY) message 32 st)
          (\<lambda>(status, st).
          if status \<noteq> ATCA_SUCCESS then Some (Inr (status, False, st))
          else k (if dig then VERIFY_MODE_SOURCE_MSGDIGBUF else VERIFY_MODE_SOURCE_TEMPKEY) st))"

definition atcab_verify_extern ::
    "u8 list \<Rightarrow> u8 list \<Rightarrow> u8 list \<Rightarrow> 's atcab \<Rightarrow> (ATCA_STATUS \<times> bool \<times> 's atcab) run" where
  "atcab_verify_extern message signature public_key =
     verify_message message (\<lambda>source st.
       verified (atcab_verify (VERIFY_MODE_EXTERNAL OR source) VERIFY_KEY_P256 signature (Some public_key) None st))"

definition atcab_verify_stored ::
    "u8 list \<Rightarrow> u8 list \<Rightarrow> u16 \<Rightarrow> 's atcab \<Rightarrow> (ATCA_STATUS \<times> bool \<times> 's atcab) run" where
  "atcab_verify_stored message signature key_id =
     verify_message message (\<lambda>source st.
       verified (atcab_verify (VERIFY_MODE_STORED OR source) key_id signature None None st))"

definition atcab_verify_validate ::
    "u16 \<Rightarrow> u8 list \<Rightarrow> u8 list \<Rightarrow> 's atcab \<Rightarrow> (ATCA_STATUS \<times> bool \<times> 's atcab) run" where
  "atcab_verify_validate key_id signature other_data st =
     verified (atcab_verify VERIFY_MODE_VALIDATE key_id signature None (Some other_data) st)"

definition atcab_verify_invalidate ::
    "u16 \<Rightarrow> u8 list \<Rightarrow> u8 list \<Rightarrow> 's atcab \<Rightarrow> (ATCA_STATUS \<times> bool \<times> 's atcab) run" where
  "atcab_verify_invalidate key_id signature other_data st =
     verified (atcab_verify VERIFY_MODE_INVALIDATE key_id signature None (Some other_data) st)"

section \<open>Key agreement, key derivation, secure boot\<close>

definition atcab_ecdh_base ::
    "u8 \<Rightarrow> u16 \<Rightarrow> u8 list \<Rightarrow> 's atcab \<Rightarrow> (ATCA_STATUS \<times> (u8 list option \<times> u8 list option) \<times> 's atcab) run" where
  "atcab_ecdh_base mode key_id public_key st =
     (let (packet, st) = found_packet st
      in needs ATCA_PUB_KEY_SIZE public_key (with_device (\<lambda>dev st.
           if_runs (command atECDH (copy_in 0 ATCA_PUB_KEY_SIZE public_key (packet\<lparr>param1 := mode, param2 := key_id\<rparr>))
             (\<lambda>packet. Some (
               if rxsize packet \<ge> 3 + 32 then Some (response_data 32 packet) else None,
               if rxsize packet \<ge> 3 + 32 * 2 then Some (take 32 (drop 33 (pkt_data packet))) else None)) dev st)
             (\<lambda>(status, out, st). Some (Inr (status, case out of None \<Rightarrow> (None, None) | Some outs \<Rightarrow> outs, st)))) st))"

definition atcab_ecdh :: "u16 \<Rightarrow> u8 list \<Rightarrow> 's atcab \<Rightarrow> (ATCA_STATUS \<times> u8 list option \<times> 's atcab) run" where
  "atcab_ecdh key_id public_key st =
     if_runs (atcab_ecdh_base ECDH_PREFIX_MODE key_id public_key st) (\<lambda>(status, out, st). Some (Inr (status, fst out, st)))"

definition atcab_ecdh_tempkey :: "u8 list \<Rightarrow> 's atcab \<Rightarrow> (ATCA_STATUS \<times> u8 list option \<times> 's atcab) run" where
  "atcab_ecdh_tempkey public_key st =
     if_runs (atcab_ecdh_base (ECDH_MODE_SOURCE_TEMPKEY OR ECDH_MODE_COPY_OUTPUT_BUFFER) 0 public_key st)
       (\<lambda>(status, out, st). Some (Inr (status, fst out, st)))"

text \<open>The size of the message is the last byte of the details; the copy does not check it.\<close>

definition atcab_kdf ::
    "u8 \<Rightarrow> u16 \<Rightarrow> u32 \<Rightarrow> u8 list option \<Rightarrow> 's atcab \<Rightarrow> (ATCA_STATUS \<times> (u8 list option \<times> u8 list option) \<times> 's atcab) run" where
  "atcab_kdf mode key_id details message = with_device (\<lambda>dev st.
     let (packet, st) = found_packet st
     in case message of
          None \<Rightarrow> Some (Inr (ATCA_BAD_PARAM, (None, None), st))
        | Some msg \<Rightarrow>
            let packet = packet\<lparr>param1 := mode, param2 := key_id\<rparr>;
                packet = packet\<lparr>pkt_data := memcpy_at 0 (le32 details) (pkt_data packet)\<rparr>;
                n = (if mode AND KDF_MODE_ALG_MASK = KDF_MODE_ALG_AES then 16 else unat (pkt_data packet ! 3))
            in needs n msg (
               if 4 + n > length (pkt_data packet) then Some (Inl OutOfBounds)
               else case atKDF (Some (mCommands dev)) (copy_in 4 n msg packet) of
                   Inl e \<Rightarrow> Some (Inl e)
                 | Inr (status, packet, None) \<Rightarrow> Some (Inr (status, (None, None), st))
                 | Inr (status, packet, Some (out_data_size, out_nonce_size)) \<Rightarrow>
                     if_runs (atca_execute_command packet dev (lib st)) (\<lambda>(status, packet, s).
                       Some (Inr (status,
                         if status \<noteq> ATCA_SUCCESS then (None, None)
                         else (if rxsize packet \<ge> ATCA_PACKET_OVERHEAD + out_data_size
                               then Some (response_data (unat out_data_size) packet) else None,
                               if rxsize packet \<ge> ATCA_PACKET_OVERHEAD + out_data_size + out_nonce_size
                               then Some (take (unat out_nonce_size) (drop (1 + unat out_data_size) (pkt_data packet))) else None),
                         st\<lparr>lib := s\<rparr>)))))"

definition atcab_secureboot ::
    "u8 \<Rightarrow> u16 \<Rightarrow> u8 list option \<Rightarrow> u8 list option \<Rightarrow> 's atcab \<Rightarrow> (ATCA_STATUS \<times> u8 list option \<times> 's atcab) run" where
  "atcab_secureboot mode p2 digest signature = with_device (\<lambda>dev st.
     let (packet, st) = found_packet st;
         go = (\<lambda>packet. command atSecureBoot packet
           (\<lambda>packet. if rxsize packet \<ge> SECUREBOOT_RSP_SIZE_MAC then Some (response_data 32 packet) else None) dev st)
     in case digest of
          None \<Rightarrow> Some (Inr (ATCA_BAD_PARAM, None, st))
        | Some d \<Rightarrow> needs 32 d (
            let packet = copy_in 0 32 d (packet\<lparr>param1 := mode, param2 := p2\<rparr>)
            in case signature of
                 None \<Rightarrow> go packet
               | Some s \<Rightarrow> needs 64 s (go (copy_in 32 64 s packet))))"

end
