(* ===== verification/AtcaOpsFacts.thy ===== *)
theory AtcaOpsFacts
  imports AtcaOps AtcaSim
begin

text \<open>
  Signing and verifying on a chip that does both as documented, and what the self test reports.
\<close>

section \<open>Commands on a chip\<close>

lemma command_status:
  assumes "build (Some (mCommands (chip_device dt chip))) p = with_crc P"
    and "wf_packet P" "7 \<le> unat (txsize P)" "unat (txsize P) \<le> 135" "4 \<le> unat (rxsize P)" "unat (rxsize P) \<le> 130"
    and "chip_answer chip P (chip_state st) = (c, dat)" "dat \<noteq> []" "length dat + 3 \<le> 130"
  shows "\<exists>q. command build p out (chip_device dt chip) st =
      Some (Inr (response_status dat, if response_status dat = ATCA_SUCCESS then out q else None, st\<lparr>lib := (c, response_frame dat)\<rparr>)) \<and>
    rxsize q = rxsize P \<and> pkt_data q ! 0 = of_nat (length dat + 3) \<and> response_data (length dat) q = dat"
  using chip_command [where build = build and P = P, OF assms] by (auto simp: command_def)

text \<open>
  The chip: \<open>S\<close> signs a message with the key in a slot, \<open>P\<close> gives the public key of a slot, \<open>V\<close>
  verifies. Its state is the message in the temporary key and the one in the digest buffer.
  A signature and a verification take the message from where the mode says, and use it up.
\<close>

type_synonym signer = "u8 list option \<times> u8 list option"

definition take_message :: "bool \<Rightarrow> signer \<Rightarrow> (u8 list \<times> signer) option" where
  "take_message dig s = (if dig then map_option (\<lambda>m. (m, (fst s, None))) (snd s) else map_option (\<lambda>m. (m, (None, snd s))) (fst s))"

definition signing_chip ::
    "(u16 \<Rightarrow> u8 list \<Rightarrow> u8 list) \<Rightarrow> (u16 \<Rightarrow> u8 list) \<Rightarrow> (u8 list \<Rightarrow> u8 list \<Rightarrow> u8 list \<Rightarrow> bool) \<Rightarrow> signer chip" where
  "signing_chip S P V opc mode p2 dat s =
     (let dig = (mode AND 0x20 \<noteq> 0)
      in if opc = ATCA_RANDOM then (s, replicate 32 0xFF)
         else if opc = ATCA_NONCE \<and> mode AND NONCE_MODE_MASK = NONCE_MODE_PASSTHROUGH
         then (if mode AND NONCE_MODE_TARGET_MASK = NONCE_MODE_TARGET_MSGDIGBUF then (fst s, Some dat) else (Some dat, snd s), [0])
         else if opc = ATCA_GENKEY \<and> mode = GENKEY_MODE_PUBLIC then (s, P p2)
         else if opc = ATCA_SIGN \<and> mode AND SIGN_MODE_EXTERNAL \<noteq> 0
         then (case take_message dig s of None \<Rightarrow> (s, [0x0F]) | Some (m, s) \<Rightarrow> (s, S p2 m))
         else if opc = ATCA_VERIFY
         then (case take_message dig s of
             None \<Rightarrow> (s, [0x0F])
           | Some (m, s) \<Rightarrow>
               if mode AND VERIFY_MODE_MASK = VERIFY_MODE_EXTERNAL
               then (s, [if V (drop 64 dat) m (take 64 dat) then 0 else 1])
               else if mode AND VERIFY_MODE_MASK = VERIFY_MODE_STORED
               then (s, [if V (P p2) m dat then 0 else 1])
               else (s, [3]))
         else (s, [3]))"

definition loaded :: "ATCADeviceType \<Rightarrow> u8 list \<Rightarrow> (signer \<times> u8 list) atcab \<Rightarrow> bool" where
  "loaded dt m st \<longleftrightarrow> (if dt = ATECC608A then snd (chip_state st) else fst (chip_state st)) = Some m"

lemma chip_random:
  assumes "chip_ready dt (signing_chip S P V) st"
  shows "\<exists>st' r. atcab_random st = Some (Inr (ATCA_SUCCESS, r, st')) \<and> chip_ready dt (signing_chip S P V) st'"
proof -
  let ?chip = "signing_chip S P V" and ?p = "zero_packet\<lparr>param1 := RANDOM_SEED_UPDATE, param2 := 0\<rparr>"
  let ?P = "?p\<lparr>opcode := ATCA_RANDOM, txsize := ATCA_CMD_SIZE_MIN, rxsize := ATCA_RSP_SIZE_32\<rparr>"
  let ?st = "st\<lparr>lib := (chip_state st, response_frame (replicate 32 0xFF))\<rparr>"
  have "\<exists>q. execute atRandom ?p (chip_device dt ?chip) st = Some (Inr (response_status (replicate 32 0xFF), q, ?st)) \<and>
    rxsize q = rxsize ?P \<and> pkt_data q ! 0 = of_nat (length (replicate 32 (0xFF :: u8)) + 3) \<and>
    response_data (length (replicate 32 (0xFF :: u8))) q = replicate 32 0xFF"
  proof (rule chip_command)
    show "atRandom (Some (mCommands (chip_device dt ?chip))) ?p = with_crc ?P" by (simp add: atRandom_def)
    show "chip_answer ?chip ?P (chip_state st) = (chip_state st, replicate 32 0xFF)"
      by (simp add: chip_answer_def signing_chip_def Let_def)
  qed (simp_all add: wf_packet_def zero_packet_def command_consts)
  then obtain q where "execute atRandom ?p (chip_device dt ?chip) st = Some (Inr (ATCA_SUCCESS, q, ?st))"
    "rxsize q = ATCA_RSP_SIZE_32" "pkt_data q ! 0 = 35" by (auto simp: response_status_cases)
  then have "atcab_random st = Some (Inr (ATCA_SUCCESS, Some (response_data 32 q), ?st))" using assms
    by (simp add: atcab_random_def ready_start [OF assms] Let_def RANDOM_RSP_SIZE_def command_consts)
  then show ?thesis using assms by auto
qed

lemma chip_load:
  assumes "chip_ready dt (signing_chip S P V) st" "length msg = 32"
  defines "target \<equiv> if dt = ATECC608A then NONCE_MODE_TARGET_MSGDIGBUF else NONCE_MODE_TARGET_TEMPKEY"
  shows "\<exists>st'. atcab_nonce_load target msg 32 st = Some (Inr (ATCA_SUCCESS, st')) \<and>
    chip_ready dt (signing_chip S P V) st' \<and> loaded dt msg st'"
proof -
  let ?chip = "signing_chip S P V" and ?s = "chip_state st"
  define mode where "mode = (NONCE_MODE_PASSTHROUGH OR (NONCE_MODE_TARGET_MASK AND target)) OR NONCE_MODE_INPUT_LEN_32"
  have mode: "mode AND NONCE_MODE_MASK = NONCE_MODE_PASSTHROUGH" "mode AND NONCE_MODE_INPUT_LEN_MASK \<noteq> NONCE_MODE_INPUT_LEN_64"
    "mode AND NONCE_MODE_TARGET_MASK = NONCE_MODE_TARGET_MSGDIGBUF \<longleftrightarrow> dt = ATECC608A"
    by (simp_all add: mode_def target_def op_consts command_consts)
  have other: "NONCE_MODE_PASSTHROUGH \<noteq> NONCE_MODE_SEED_UPDATE" "NONCE_MODE_PASSTHROUGH \<noteq> NONCE_MODE_NO_SEED_UPDATE"
    by (simp_all add: command_consts)
  let ?p = "copy_in 0 32 msg (zero_packet\<lparr>param1 := mode, param2 := 0\<rparr>)"
  let ?P = "?p\<lparr>opcode := ATCA_NONCE, txsize := NONCE_COUNT_LONG, rxsize := ATCA_RSP_SIZE_MIN\<rparr>"
  let ?c = "if dt = ATECC608A then (fst ?s, Some msg) else (Some msg, snd ?s)"
  have dat: "command_data ?P = msg"
    using assms(2) by (simp add: command_data_def copy_in_def memcpy_at_def command_consts)
  have "\<exists>q. command atNonce ?p out (chip_device dt ?chip) st =
      Some (Inr (response_status [0], if response_status [0] = ATCA_SUCCESS then out q else None, st\<lparr>lib := (?c, response_frame [0])\<rparr>)) \<and>
    rxsize q = rxsize ?P \<and> pkt_data q ! 0 = of_nat (length [0 :: u8] + 3) \<and> response_data (length [0 :: u8]) q = [0]"
    for out :: "ATCAPacket \<Rightarrow> u8 list option"
  proof (rule command_status)
    show "atNonce (Some (mCommands (chip_device dt ?chip))) ?p = with_crc ?P"
      using mode(1,2) other by (simp add: atNonce_def copy_in_def)
    show "chip_answer ?chip ?P ?s = (?c, [0])"
      unfolding chip_answer_def dat using mode by (simp add: signing_chip_def Let_def copy_in_def command_consts)
    show "wf_packet ?P" using assms(2) by (simp add: wf_packet_def copy_in_def memcpy_at_def zero_packet_def PACKET_DATA_SIZE_def)
  qed (simp_all add: command_consts copy_in_def)
  then have run: "\<exists>r. command atNonce ?p out (chip_device dt ?chip) st = Some (Inr (ATCA_SUCCESS, r, st\<lparr>lib := (?c, response_frame [0])\<rparr>))"
    for out :: "ATCAPacket \<Rightarrow> u8 list option" by (simp only: response_status_cases) blast
  have "\<exists>r. atcab_nonce_base mode 0 msg st = Some (Inr (ATCA_SUCCESS, r, st\<lparr>lib := (?c, response_frame [0])\<rparr>))"
    unfolding atcab_nonce_base_def ready_start(1) [OF assms(1)]
    using run mode(1,2) other assms(2) by (simp add: ready_start(2) [OF assms(1)] needs_def)
  then show ?thesis using assms(1)
    by (cases "dt = ATECC608A") (auto simp: atcab_nonce_load_def mode_def [symmetric] only_status_def loaded_def)
qed

text \<open>Both commands on a loaded message.\<close>

definition source_bit :: "ATCADeviceType \<Rightarrow> u8" where
  "source_bit dt = (if dt = ATECC608A then 0x20 else 0)"

lemma take_loaded:
  assumes "loaded dt m st" "mode = base OR source_bit dt" "base AND 0x20 = 0"
  shows "\<exists>s. take_message (mode AND 0x20 \<noteq> 0) (chip_state st) = Some (m, s)"
  using assms by (auto simp: loaded_def take_message_def source_bit_def bit.conj_disj_distrib2 split: if_splits)

lemma chip_sign:
  assumes "chip_ready dt (signing_chip S P V) st" "loaded dt m st" "length (S key_id m) = 64"
  shows "\<exists>st'. atcab_sign_base (SIGN_MODE_EXTERNAL OR source_bit dt) key_id st =
      Some (Inr (ATCA_SUCCESS, Some (S key_id m), st')) \<and> chip_ready dt (signing_chip S P V) st'"
proof -
  let ?chip = "signing_chip S P V" and ?p = "zero_packet\<lparr>param1 := SIGN_MODE_EXTERNAL OR source_bit dt, param2 := key_id\<rparr>"
  let ?P = "?p\<lparr>opcode := ATCA_SIGN, txsize := ATCA_CMD_SIZE_MIN, rxsize := ATCA_RSP_SIZE_64\<rparr>"
  let ?out = "\<lambda>packet. if rxsize packet > 4 then Some (response_data (unat (rxsize packet - ATCA_PACKET_OVERHEAD)) packet) else None"
  obtain s where s: "take_message ((SIGN_MODE_EXTERNAL OR source_bit dt) AND 0x20 \<noteq> 0) (chip_state st) = Some (m, s)"
    using take_loaded [OF assms(2) refl, of SIGN_MODE_EXTERNAL] by (auto simp: SIGN_MODE_EXTERNAL_def)
  have dat: "S key_id m \<noteq> []" using assms(3) by auto
  have "(SIGN_MODE_EXTERNAL OR source_bit dt) AND SIGN_MODE_EXTERNAL \<noteq> 0" by (simp add: SIGN_MODE_EXTERNAL_def source_bit_def)
  then have ans: "chip_answer ?chip ?P (chip_state st) = (s, S key_id m)"
    using s by (simp add: chip_answer_def signing_chip_def Let_def command_consts)
  have "\<exists>q. command atSign ?p ?out (chip_device dt ?chip) st =
      Some (Inr (response_status (S key_id m), if response_status (S key_id m) = ATCA_SUCCESS then ?out q else None,
        st\<lparr>lib := (s, response_frame (S key_id m))\<rparr>)) \<and>
    rxsize q = rxsize ?P \<and> pkt_data q ! 0 = of_nat (length (S key_id m) + 3) \<and> response_data (length (S key_id m)) q = S key_id m"
  proof (rule command_status)
    show "atSign (Some (mCommands (chip_device dt ?chip))) ?p = with_crc ?P" by (simp add: atSign_def)
    show "chip_answer ?chip ?P (chip_state st) = (s, S key_id m)" by (rule ans)
    show "length (S key_id m) + 3 \<le> 130" by (simp add: assms(3))
  qed (simp_all add: dat wf_packet_def zero_packet_def command_consts)
  then obtain q where "command atSign ?p ?out (chip_device dt ?chip) st =
      Some (Inr (ATCA_SUCCESS, ?out q, st\<lparr>lib := (s, response_frame (S key_id m))\<rparr>))"
    "rxsize q = ATCA_RSP_SIZE_64" "response_data 64 q = S key_id m"
    by (auto simp: response_status_cases assms(3))
  then show ?thesis using assms(1)
    by (simp add: atcab_sign_base_def ready_start [OF assms(1)] Let_def ATCA_PACKET_OVERHEAD_def command_consts)
qed

text \<open>
  A verification with the public key in the command or in a slot; \<open>pk\<close> is the data after the
  signature, \<open>mine\<close> what is verified with.
\<close>

lemma chip_verify:
  assumes "chip_ready dt (signing_chip S P V) st" "loaded dt m st" "length sig = 64"
    and "base = VERIFY_MODE_EXTERNAL \<and> (\<exists>k. pk = Some k \<and> length k = 64 \<and> mine = k) \<or>
         base = VERIFY_MODE_STORED \<and> pk = None \<and> mine = P key_id"
  shows "\<exists>st'. verified (atcab_verify (base OR source_bit dt) key_id sig pk None st) =
      Some (Inr (ATCA_SUCCESS, V mine m sig, st')) \<and> chip_ready dt (signing_chip S P V) st'"
proof -
  let ?chip = "signing_chip S P V" and ?mode = "base OR source_bit dt"
  have mode: "?mode AND VERIFY_MODE_MASK = base" "?mode AND VERIFY_MODE_MAC_FLAG = 0" "base AND 0x20 = 0"
    using assms(4) by (auto simp: source_bit_def command_consts)
  have modes: "VERIFY_MODE_EXTERNAL \<noteq> VERIFY_MODE_STORED" "VERIFY_MODE_VALIDATE \<noteq> VERIFY_MODE_EXTERNAL"
    "VERIFY_MODE_VALIDATE \<noteq> VERIFY_MODE_STORED" "VERIFY_MODE_INVALIDATE \<noteq> VERIFY_MODE_EXTERNAL"
    "VERIFY_MODE_INVALIDATE \<noteq> VERIFY_MODE_STORED" "VERIFY_MODE_VALIDATE_EXTERNAL \<noteq> VERIFY_MODE_STORED"
    "VERIFY_MODE_VALIDATE_EXTERNAL \<noteq> VERIFY_MODE_EXTERNAL" by (simp_all add: command_consts)
  obtain s where s: "take_message (?mode AND 0x20 \<noteq> 0) (chip_state st) = Some (m, s)"
    using take_loaded [OF assms(2) refl mode(3)] by auto
  let ?p0 = "zero_packet\<lparr>param1 := ?mode, param2 := key_id\<rparr>"
  define p where "p = (case pk of None \<Rightarrow> copy_in 0 64 sig ?p0 | Some k \<Rightarrow> copy_in 64 64 k (copy_in 0 64 sig ?p0))"
  define P' where "P' = p\<lparr>opcode := ATCA_VERIFY,
    txsize := (if base = VERIFY_MODE_STORED then VERIFY_256_STORED_COUNT else VERIFY_256_EXTERNAL_COUNT), rxsize := ATCA_RSP_SIZE_MIN\<rparr>"
  have p: "param1 p = ?mode" "param2 p = key_id" "wf_packet p"
    using assms(3,4) by (auto simp: p_def copy_in_def memcpy_at_def wf_packet_def zero_packet_def PACKET_DATA_SIZE_def)
  have dat: "command_data P' = sig @ (case pk of None \<Rightarrow> [] | Some k \<Rightarrow> k)"
    using assms(3,4) by (auto simp: P'_def command_data_def p_def copy_in_def memcpy_at_def command_consts)
  define r where "r = [if V mine m sig then 0 else 1 :: u8]"
  have ans: "chip_answer ?chip P' (chip_state st) = (s, r)"
    unfolding chip_answer_def dat using assms(3,4) s mode p modes
    by (auto simp: P'_def signing_chip_def Let_def r_def command_consts)
  have "\<exists>q. command atVerify p out (chip_device dt ?chip) st =
      Some (Inr (response_status r, if response_status r = ATCA_SUCCESS then out q else None, st\<lparr>lib := (s, response_frame r)\<rparr>)) \<and>
    rxsize q = rxsize P' \<and> pkt_data q ! 0 = of_nat (length r + 3) \<and> response_data (length r) q = r"
    for out :: "ATCAPacket \<Rightarrow> u8 list option"
  proof (rule command_status)
    show "atVerify (Some (mCommands (chip_device dt ?chip))) p = with_crc P'"
      using assms(4) mode(1,2) modes by (auto simp: atVerify_def P'_def p Let_def)
    show "chip_answer ?chip P' (chip_state st) = (s, r)" by (rule ans)
  qed (use p(3) in \<open>auto simp: r_def P'_def wf_packet_def command_consts\<close>)
  then have run: "\<exists>x. command atVerify p out (chip_device dt ?chip) st = Some (Inr (response_status r, x, st\<lparr>lib := (s, response_frame r)\<rparr>))"
    for out :: "ATCAPacket \<Rightarrow> u8 list option" by blast
  have "\<exists>x. atcab_verify ?mode key_id sig pk None st = Some (Inr (response_status r, x, st\<lparr>lib := (s, response_frame r)\<rparr>))"
    unfolding atcab_verify_def ready_start(1) [OF assms(1)]
    using run assms(3,4) mode(1) modes
    by (auto simp: ready_start(2) [OF assms(1)] needs_def Let_def p_def ATCA_SIG_SIZE_def ATCA_PUB_KEY_SIZE_def)
  then show ?thesis using assms(1)
    by (auto simp: verified_def r_def response_status_cases)
qed

section \<open>Properties\<close>

text \<open>
  C30: On every kind of chip, signing a message gives the chip's signature of exactly this message
  with the key asked for; verifying a signature, with a public key given or one stored in the
  chip, succeeds as a command and says whether the chip accepts the signature of this message.
  So a rejected signature is a result and not an error.
\<close>

theorem sign_and_verify:
  assumes "chip_ready dt (signing_chip S P V) st" "length msg = 32" "length sig = 64" "length pk = 64" "length (S key_id msg) = 64"
  shows "(\<exists>st'. atcab_sign key_id msg st = Some (Inr (ATCA_SUCCESS, Some (S key_id msg), st')) \<and> chip_ready dt (signing_chip S P V) st') \<and>
    (\<exists>st'. atcab_verify_extern msg sig pk st = Some (Inr (ATCA_SUCCESS, V pk msg sig, st')) \<and> chip_ready dt (signing_chip S P V) st') \<and>
    (\<exists>st'. atcab_verify_stored msg sig key_id st = Some (Inr (ATCA_SUCCESS, V (P key_id) msg sig, st')) \<and> chip_ready dt (signing_chip S P V) st')"
proof (intro conjI)
  let ?chip = "signing_chip S P V"
  let ?target = "if dt = ATECC608A then NONCE_MODE_TARGET_MSGDIGBUF else NONCE_MODE_TARGET_TEMPKEY"
  obtain s r where s: "atcab_random st = Some (Inr (ATCA_SUCCESS, r, s))" "chip_ready dt ?chip s"
    using chip_random [OF assms(1)] by blast
  obtain s1 where s1: "atcab_nonce_load ?target msg 32 s = Some (Inr (ATCA_SUCCESS, s1))" "chip_ready dt ?chip s1" "loaded dt msg s1"
    using chip_load [OF s(2) assms(2)] by blast
  show "\<exists>st'. atcab_sign key_id msg st = Some (Inr (ATCA_SUCCESS, Some (S key_id msg), st')) \<and> chip_ready dt ?chip st'"
    using chip_sign [OF s1(2,3), of key_id] assms(5) s(1) s1(1)
    by (auto simp: atcab_sign_def ready_start(1) [OF s(2)] Let_def source_bit_def op_consts split: if_splits)
  obtain s2 where s2: "atcab_nonce_load ?target msg 32 st = Some (Inr (ATCA_SUCCESS, s2))" "chip_ready dt ?chip s2" "loaded dt msg s2"
    using chip_load [OF assms(1,2)] by blast
  have load: "verify_message msg k st = k (source_bit dt) s2" for k :: "_ \<Rightarrow> _ \<Rightarrow> (ATCA_STATUS \<times> bool \<times> _) run"
    using s2(1) unfolding verify_message_def ready_start(1) [OF assms(1)] Let_def device_types
    by (simp add: source_bit_def VERIFY_MODE_SOURCE_MSGDIGBUF_def VERIFY_MODE_SOURCE_TEMPKEY_def)
  show "\<exists>st'. atcab_verify_extern msg sig pk st = Some (Inr (ATCA_SUCCESS, V pk msg sig, st')) \<and> chip_ready dt ?chip st'"
    unfolding atcab_verify_extern_def load by (rule chip_verify [OF s2(2,3) assms(3)]) (use assms(4) in simp)
  show "\<exists>st'. atcab_verify_stored msg sig key_id st = Some (Inr (ATCA_SUCCESS, V (P key_id) msg sig, st')) \<and> chip_ready dt ?chip st'"
    unfolding atcab_verify_stored_def load by (rule chip_verify [OF s2(2,3) assms(3)]) simp
qed

theorem sign_and_verify_witness:
  "\<exists>st'. atcab_verify_extern (replicate 32 5) (replicate 64 1) (replicate 64 2)
      (chip_lib ATECC608A (signing_chip (\<lambda>k m. m @ m) (\<lambda>_. replicate 64 2) (\<lambda>k m s. s = m @ m)) (None, None)) =
    Some (Inr (ATCA_SUCCESS, False, st'))"
proof -
  have "hd (replicate 64 1 :: u8 list) \<noteq> hd (replicate 32 5 @ replicate 32 5)" by simp
  then have "(replicate 64 1 :: u8 list) \<noteq> replicate 32 5 @ replicate 32 5" by metis
  then show ?thesis
    using sign_and_verify [where msg = "replicate 32 5" and sig = "replicate 64 1" and pk = "replicate 64 2" and key_id = 1,
        OF chip_lib_ready(1) [where dt = ATECC608A and chip = "signing_chip (\<lambda>k m. m @ m) (\<lambda>_. replicate 64 2) (\<lambda>k m s. s = m @ m)"
          and c = "(None, None)"]] by auto
qed

text \<open>
  C32: A self test with any of its tests selected reports success, whatever the device does, even
  when the command could not be executed: the test for bits outside the mode is a logical
  negation, so no response is ever taken for an error.
\<close>

theorem selftest_always_succeeds:
  assumes "atcab_selftest mode p2 st = Some (Inr (status, response, st'))" "mode \<noteq> 0"
  shows "status = ATCA_SUCCESS \<and> response \<noteq> None"
proof -
  have "status = ATCA_SUCCESS" if "atSelfTest c p = Inr (status, q)" for c p status q
    using that by (auto simp: atSelfTest_def with_crc_def split: sum.splits)
  then show ?thesis using assms
    by (auto simp: atcab_selftest_def with_device_def found_packet_def Let_def if_runs_def split: option.splits sum.splits prod.splits if_splits list.splits)
qed

theorem selftest_always_succeeds_witness:
  "\<exists>st'. atcab_selftest 1 0 (chip_lib ATECC608A (\<lambda>opc mode p2 dat s. (s, [0x0F])) ()) = Some (Inr (ATCA_SUCCESS, Some 0x0F, st'))"
proof -
  let ?r = "atcab_selftest 1 0 (chip_lib ATECC608A (\<lambda>opc mode p2 dat s. (s, [0x0F])) ())"
  have "(case ?r of Some (Inr (_, d, _)) \<Rightarrow> d | _ \<Rightarrow> None) = Some 0x0F" by code_simp
  then obtain s st' where run: "?r = Some (Inr (s, Some 0x0F, st'))" by (auto split: option.splits sum.splits)
  show ?thesis using selftest_always_succeeds [OF run] run by auto
qed

end
