(* ===== verification/HashBlocks.thy ===== *)
theory HashBlocks
  imports Prelude
begin

text \<open>
  What the two hash functions of the library share (FIPS 180-4, sections 3.1 and 5): big-endian
  words, the padding of a message, its blocks of 64 bytes, and the iteration over them.
\<close>

section \<open>Big-endian words\<close>

fun of_be32 :: "u8 list \<Rightarrow> u32" where
  "of_be32 [a, b, c, d] = push_bit 24 (ucast a) OR push_bit 16 (ucast b) OR push_bit 8 (ucast c) OR ucast d"
| "of_be32 _ = 0"

definition be32 :: "u32 \<Rightarrow> u8 list" where
  "be32 w = [ucast (drop_bit 24 w), ucast (drop_bit 16 w), ucast (drop_bit 8 w), ucast w]"

lemma length_be32 [simp]: "length (be32 w) = 4"
  by (simp add: be32_def)

definition be_words :: "u8 list \<Rightarrow> u32 list" where
  "be_words bs = map (\<lambda>t. of_be32 (take 4 (drop (4 * t) bs))) [0..<length bs div 4]"

text \<open>Swapping the four bytes of a word and reading it in little-endian order.\<close>

lemma of_le32_swapped: "of_le32 [d, c, b, a] = of_be32 [a, b, c, d]"
  by (simp add: ac_simps)

lemma rotate_right_word:
  assumes "0 < n" "n < 32"
  shows "drop_bit n w OR push_bit (32 - n) w = word_rotr n (w :: u32)"
proof (rule bit_word_eqI)
  fix k assume k: "k < LENGTH(32)"
  show "bit (drop_bit n w OR push_bit (32 - n) w) k = bit (word_rotr n w) k"
  proof (cases "k + n < 32")
    case True
    then have "\<not> 32 - n \<le> k" by linarith
    then show ?thesis using True k by (simp add: bit_simps bit_word_rotr_iff add.commute)
  next
    case False
    then have "(k + n) mod 32 = k - (32 - n)" using assms k by (simp add: mod_if)
    moreover have "\<not> bit w (n + k)" using False by (auto dest: bit_imp_le_length)
    moreover have "32 - n \<le> k" using False by linarith
    ultimately show ?thesis using assms k by (simp add: bit_simps bit_word_rotr_iff)
  qed
qed

section \<open>Padding and blocks\<close>

definition be64 :: "nat \<Rightarrow> u8 list" where
  "be64 n = map (\<lambda>i. of_nat (n div 256 ^ (7 - i))) [0..<8]"

definition md_pad :: "u8 list \<Rightarrow> u8 list" where
  "md_pad m = m @ [0x80] @ replicate ((119 - length m mod 64) mod 64) 0 @ be64 (8 * length m)"

function blocks64 :: "u8 list \<Rightarrow> u8 list list" where
  "blocks64 bs = (if length bs < 64 then [] else take 64 bs # blocks64 (drop 64 bs))"
  by pat_completeness auto
termination
  by (relation "measure length") auto

declare blocks64.simps [simp del]

text \<open>The blocks that a message fills, run through a compression function.\<close>

definition run_blocks :: "('h \<Rightarrow> u8 list \<Rightarrow> 'h) \<Rightarrow> 'h \<Rightarrow> u8 list \<Rightarrow> 'h" where
  "run_blocks compress h bs = foldl compress h (blocks64 bs)"

lemma blocks_short [simp]: "length bs < 64 \<Longrightarrow> blocks64 bs = []"
  by (subst blocks64.simps) simp

lemma blocks_cons: "length b = 64 \<Longrightarrow> blocks64 (b @ bs) = b # blocks64 bs"
  by (subst blocks64.simps) simp

lemma blocks_append: "length a mod 64 = 0 \<Longrightarrow> blocks64 (a @ b) = blocks64 a @ blocks64 b"
proof (induction a rule: blocks64.induct)
  case (1 a)
  show ?case
  proof (cases "length a < 64")
    case True
    then show ?thesis using 1(2) by (simp add: mod_less)
  next
    case False
    then have "length (drop 64 a) mod 64 = 0" using 1(2) by (simp add: le_mod_geq)
    with 1(1) False have IH: "blocks64 (drop 64 a @ b) = blocks64 (drop 64 a) @ blocks64 b" by blast
    have "blocks64 (take 64 a @ (drop 64 a @ b)) = take 64 a # blocks64 (drop 64 a @ b)"
      "blocks64 (take 64 a @ drop 64 a) = take 64 a # blocks64 (drop 64 a)"
      using False by (intro blocks_cons; simp)+
    moreover have "take 64 a @ (drop 64 a @ b) = a @ b" by (simp only: append_assoc [symmetric] append_take_drop_id)
    ultimately show ?thesis using IH by simp
  qed
qed

lemma run_blocks_append:
  "length a mod 64 = 0 \<Longrightarrow> run_blocks f h (a @ b) = run_blocks f (run_blocks f h a) b"
  by (simp add: run_blocks_def blocks_append)

lemma run_blocks_short [simp]: "length bs < 64 \<Longrightarrow> run_blocks f h bs = h"
  by (simp add: run_blocks_def)

lemma run_blocks_one: "length b = 64 \<Longrightarrow> run_blocks f h b = f h b"
  using blocks_cons [of b "[]"] by (simp add: run_blocks_def)

lemma run_blocks_drop_end:
  assumes "length a mod 64 = 0" "length b < 64"
  shows "run_blocks f h (a @ b) = run_blocks f h a"
  using assms by (simp add: run_blocks_append)

text \<open>The part of a message in whole blocks, and the rest.\<close>

definition whole :: "u8 list \<Rightarrow> u8 list" where
  "whole m = take (64 * (length m div 64)) m"

definition rest :: "u8 list \<Rightarrow> u8 list" where
  "rest m = drop (64 * (length m div 64)) m"

lemma whole_rest: "whole m @ rest m = m" "length (whole m) = 64 * (length m div 64)" "length (rest m) = length m mod 64"
proof -
  have n: "64 * (length m div 64) + length m mod 64 = length m" by simp
  show "whole m @ rest m = m" by (simp add: whole_def rest_def)
  show "length (whole m) = 64 * (length m div 64)" "length (rest m) = length m mod 64"
    unfolding whole_def rest_def length_take length_drop using n by linarith+
qed

lemma run_blocks_whole: "run_blocks f h m = run_blocks f h (whole m)"
proof -
  have "run_blocks f h (whole m @ rest m) = run_blocks f h (whole m)"
    by (rule run_blocks_drop_end) (simp_all add: whole_rest)
  then show ?thesis by (simp add: whole_rest)
qed

text \<open>The split into whole blocks and a rest is unique.\<close>

lemma whole_unique:
  assumes "m = a @ b" "length a mod 64 = 0" "length b < 64"
  shows "whole m = a" "rest m = b"
proof -
  obtain q where q: "length a = 64 * q" using assms(2) by (metis mod_0_imp_dvd dvdE)
  have "64 * (length m div 64) = length a" using assms(1,3) by (simp add: q)
  then show "whole m = a" "rest m = b" using assms(1) by (simp_all add: whole_def rest_def)
qed

definition padding :: "nat \<Rightarrow> u8 list" where
  "padding n = [0x80] @ replicate ((119 - n mod 64) mod 64) 0 @ be64 (8 * n)"

lemma md_pad_split: "md_pad m = whole m @ (rest m @ padding (length m))"
  using whole_rest(1) [of m] by (simp add: md_pad_def padding_def flip: append_assoc)

end
