(* ===== verification/Sha2.thy ===== *)
theory Sha2
  imports HashBlocks AtcaHal Complex_Main
begin

text \<open>
  The SHA-256 of the library in software (\<open>libatca/crypto/hashes/sha2_routines.c\<close>,
  \<open>atca_crypto_sw_sha2.c\<close>) and its specification by FIPS 180-4. A message is a pointer to a
  list of bytes; reading beyond it is a fault.
\<close>

section \<open>The program\<close>

definition SHA256_DIGEST_SIZE :: nat where "SHA256_DIGEST_SIZE = 32"
definition SHA256_BLOCK_SIZE :: u32 where "SHA256_BLOCK_SIZE = 64"

record sw_sha256_ctx =
  total_msg_size :: u32
  block_size :: u32
  block :: "u8 list"
  hash :: "u32 list"

definition rotate_right :: "u32 \<Rightarrow> nat \<Rightarrow> u32" where
  "rotate_right value places = drop_bit places value OR push_bit (32 - places) value"

definition sha256_k :: "u32 list" where
  "sha256_k =
   concat
     [[0x428a2f98, 0x71374491, 0xb5c0fbcf, 0xe9b5dba5, 0x3956c25b, 0x59f111f1, 0x923f82a4, 0xab1c5ed5],
      [0xd807aa98, 0x12835b01, 0x243185be, 0x550c7dc3, 0x72be5d74, 0x80deb1fe, 0x9bdc06a7, 0xc19bf174],
      [0xe49b69c1, 0xefbe4786, 0x0fc19dc6, 0x240ca1cc, 0x2de92c6f, 0x4a7484aa, 0x5cb0a9dc, 0x76f988da],
      [0x983e5152, 0xa831c66d, 0xb00327c8, 0xbf597fc7, 0xc6e00bf3, 0xd5a79147, 0x06ca6351, 0x14292967],
      [0x27b70a85, 0x2e1b2138, 0x4d2c6dfc, 0x53380d13, 0x650a7354, 0x766a0abb, 0x81c2c92e, 0x92722c85],
      [0xa2bfe8a1, 0xa81a664b, 0xc24b8b70, 0xc76c51a3, 0xd192e819, 0xd6990624, 0xf40e3585, 0x106aa070],
      [0x19a4c116, 0x1e376c08, 0x2748774c, 0x34b0bcb5, 0x391c0cb3, 0x4ed8aa4a, 0x5b9cca4f, 0x682e6ff3],
      [0x748f82ee, 0x78a5636f, 0x84c87814, 0x8cc70208, 0x90befffa, 0xa4506ceb, 0xbef9a3f7, 0xc67178f2]]"

text \<open>The message schedule: 16 words with their bytes swapped, then a word from earlier ones.\<close>

definition swapped_words :: "u8 list \<Rightarrow> u32 list" where
  "swapped_words cur = map (\<lambda>t. of_le32 [cur ! (4 * t + 3), cur ! (4 * t + 2), cur ! (4 * t + 1), cur ! (4 * t)]) [0..<16]"

definition schedule_word :: "u32 list \<Rightarrow> nat \<Rightarrow> u32" where
  "schedule_word w t =
     (let s0 = rotate_right (w ! (t - 15)) 7 XOR rotate_right (w ! (t - 15)) 18 XOR drop_bit 3 (w ! (t - 15));
          s1 = rotate_right (w ! (t - 2)) 17 XOR rotate_right (w ! (t - 2)) 19 XOR drop_bit 10 (w ! (t - 2))
      in w ! (t - 16) + s0 + w ! (t - 7) + s1)"

primrec schedule :: "nat \<Rightarrow> u32 list \<Rightarrow> u32 list" where
  "schedule 0 w = w"
| "schedule (Suc n) w = (let w = schedule n w in w @ [schedule_word w (length w)])"

text \<open>One pass of the hash calculation loop over the rotating register.\<close>

definition sha256_round :: "u32 \<Rightarrow> u32 \<Rightarrow> u32 list \<Rightarrow> u32 list" where
  "sha256_round k w r =
     (let s0 = rotate_right (r ! 0) 2 XOR rotate_right (r ! 0) 13 XOR rotate_right (r ! 0) 22;
          maj = (r ! 0 AND r ! 1) XOR (r ! 0 AND r ! 2) XOR (r ! 1 AND r ! 2);
          t2 = s0 + maj;
          s1 = rotate_right (r ! 4) 6 XOR rotate_right (r ! 4) 11 XOR rotate_right (r ! 4) 25;
          ch = (r ! 4 AND r ! 5) XOR (NOT (r ! 4) AND r ! 6);
          t1 = r ! 7 + s1 + ch + k + w
      in [t1 + t2, r ! 0, r ! 1, r ! 2, r ! 3 + t1, r ! 4, r ! 5, r ! 6])"

definition sha256_block :: "u32 list \<Rightarrow> u8 list \<Rightarrow> u32 list" where
  "sha256_block hash_state cur =
     (let w = schedule 48 (swapped_words cur);
          rotate_register = fold (\<lambda>i. sha256_round (sha256_k ! i) (w ! i)) [0..<64] hash_state
      in map2 (+) hash_state rotate_register)"

primrec sw_sha256_process :: "nat \<Rightarrow> u32 list \<Rightarrow> u8 list \<Rightarrow> fault + u32 list" where
  "sw_sha256_process 0 hash_state blocks = Inr hash_state"
| "sw_sha256_process (Suc block_count) hash_state blocks =
     (if length blocks < 64 then Inl OutOfBounds
      else sw_sha256_process block_count (sha256_block hash_state (take 64 blocks)) (drop 64 blocks))"

definition sha256_hash_init :: "u32 list" where
  "sha256_hash_init =
     [0x6a09e667, 0xbb67ae85, 0x3c6ef372, 0xa54ff53a, 0x510e527f, 0x9b05688c, 0x1f83d9ab, 0x5be0cd19]"

definition sw_sha256_init :: sw_sha256_ctx where
  "sw_sha256_init = \<lparr>total_msg_size = 0, block_size = 0, block = replicate 128 0, hash = sha256_hash_init\<rparr>"

definition sw_sha256_update :: "sw_sha256_ctx \<Rightarrow> u8 list \<Rightarrow> u32 \<Rightarrow> fault + sw_sha256_ctx" where
  "sw_sha256_update ctx msg msg_size =
     (let rem_size = SHA256_BLOCK_SIZE - block_size ctx;
          copy_size = (if msg_size > rem_size then rem_size else msg_size)
      in if length msg < unat copy_size then Inl OutOfBounds
         else if_inr (put_at (unat (block_size ctx)) (take (unat copy_size) msg) (block ctx)) (\<lambda>blk.
           if block_size ctx + msg_size < SHA256_BLOCK_SIZE
           then Inr (ctx\<lparr>block := blk, block_size := block_size ctx + msg_size\<rparr>)
           else if_inr (sw_sha256_process 1 (hash ctx) blk) (\<lambda>h1.
             let msg_size = msg_size - copy_size;
                 block_count = msg_size div SHA256_BLOCK_SIZE
             in if_inr (sw_sha256_process (unat block_count) h1 (drop (unat copy_size) msg)) (\<lambda>h2.
               let rem = msg_size mod SHA256_BLOCK_SIZE;
                   tail = drop (unat (copy_size + block_count * SHA256_BLOCK_SIZE)) msg
               in if length tail < unat rem then Inl OutOfBounds
                  else if_inr (put_at 0 (take (unat rem) tail) blk) (\<lambda>blk.
                    Inr \<lparr>total_msg_size = total_msg_size ctx + (block_count + 1) * SHA256_BLOCK_SIZE,
                         block_size = rem, block = blk, hash = h2\<rparr>)))))"

definition sw_sha256_final :: "sw_sha256_ctx \<Rightarrow> fault + (sw_sha256_ctx \<times> u8 list)" where
  "sw_sha256_final ctx =
     (let total = total_msg_size ctx + block_size ctx;
          msg_size_bits = total * 8;
          pad_zero_count = (SHA256_BLOCK_SIZE - (block_size ctx + 9) mod SHA256_BLOCK_SIZE) mod SHA256_BLOCK_SIZE;
          n = block_size ctx
      in if_inr (put_at (unat n) [0x80] (block ctx)) (\<lambda>blk.
         if_inr (put_at (unat (n + 1)) (replicate (unat (pad_zero_count + 4)) 0) blk) (\<lambda>blk.
         if_inr (put_at (unat (n + 1 + (pad_zero_count + 4))) (be32 msg_size_bits) blk) (\<lambda>blk.
         let stop = n + 1 + (pad_zero_count + 4) + 4
         in if_inr (sw_sha256_process (unat (stop div SHA256_BLOCK_SIZE)) (hash ctx) blk) (\<lambda>h.
            Inr (ctx\<lparr>total_msg_size := total, block_size := stop, block := blk, hash := replicate 8 0\<rparr>,
                 concat (map be32 h)))))))"

definition sw_sha256 :: "u8 list \<Rightarrow> u32 \<Rightarrow> fault + u8 list" where
  "sw_sha256 message len =
     if_inr (sw_sha256_update sw_sha256_init message len) (\<lambda>ctx.
     if_inr (sw_sha256_final ctx) (\<lambda>(ctx, digest). Inr digest))"

text \<open>
  The wrappers. A context has the room of 48 words, the implementation needs 42; \<open>data_size\<close>
  is a \<open>size_t\<close> that is cut to 32 bits.
\<close>

definition sizeof_sw_sha256_ctx :: nat where "sizeof_sw_sha256_ctx = 4 + 4 + 128 + 32"
definition sizeof_atcac_sha2_256_ctx :: nat where "sizeof_atcac_sha2_256_ctx = 48 * 4"

definition atcac_sw_sha2_256_init :: "sw_sha256_ctx \<Rightarrow> ATCA_STATUS \<times> sw_sha256_ctx" where
  "atcac_sw_sha2_256_init ctx =
     (if sizeof_sw_sha256_ctx > sizeof_atcac_sha2_256_ctx then (ATCA_ASSERT_FAILURE, ctx)
      else (ATCA_SUCCESS, sw_sha256_init))"

definition atcac_sw_sha2_256_update :: "sw_sha256_ctx \<Rightarrow> u8 list \<Rightarrow> u64 \<Rightarrow> fault + (ATCA_STATUS \<times> sw_sha256_ctx)" where
  "atcac_sw_sha2_256_update ctx data data_size =
     if_inr (sw_sha256_update ctx data (ucast data_size)) (\<lambda>ctx. Inr (ATCA_SUCCESS, ctx))"

definition atcac_sw_sha2_256_finish :: "sw_sha256_ctx \<Rightarrow> fault + (ATCA_STATUS \<times> sw_sha256_ctx \<times> u8 list)" where
  "atcac_sw_sha2_256_finish ctx =
     if_inr (sw_sha256_final ctx) (\<lambda>(ctx, digest). Inr (ATCA_SUCCESS, ctx, digest))"

definition atcac_sw_sha2_256 :: "u8 list \<Rightarrow> u64 \<Rightarrow> sw_sha256_ctx \<Rightarrow> u8 list \<Rightarrow> fault + (ATCA_STATUS \<times> u8 list)" where
  "atcac_sw_sha2_256 data data_size ctx digest =
     (let (ret, ctx) = atcac_sw_sha2_256_init ctx
      in if ret \<noteq> ATCA_SUCCESS then Inr (ret, digest)
         else if_inr (atcac_sw_sha2_256_update ctx data data_size) (\<lambda>(ret, ctx).
           if ret \<noteq> ATCA_SUCCESS then Inr (ret, digest)
           else if_inr (atcac_sw_sha2_256_finish ctx) (\<lambda>(ret, ctx, digest).
             if ret \<noteq> ATCA_SUCCESS then Inr (ret, digest) else Inr (ATCA_SUCCESS, digest))))"

section \<open>FIPS 180-4\<close>

text \<open>
  The constants are the first 32 bits of the fractional parts of the cube roots and square
  roots of the first primes (sections 4.2.2 and 5.3.3).
\<close>

definition first_primes :: "int list" where
  "first_primes =
     [2, 3, 5, 7, 11, 13, 17, 19, 23, 29, 31, 37, 41, 43, 47, 53, 59, 61, 67, 71, 73, 79, 83, 89, 97, 101, 103, 107, 109, 113, 127, 131, 137, 139, 149, 151, 157, 163, 167, 173, 179, 181, 191, 193, 197, 199, 211, 223, 227, 229, 233, 239, 241, 251, 257, 263, 269, 271, 277, 281, 283, 293, 307, 311]"

definition scaled_root :: "nat \<Rightarrow> int \<Rightarrow> u32" where
  "scaled_root k p = word_of_int \<lfloor>root k (of_int p) * 2 ^ 32\<rfloor>"

definition fips_K :: "u32 list" where
  "fips_K = map (scaled_root 3) first_primes"

definition fips_H0 :: "u32 list" where
  "fips_H0 = map (scaled_root 2) (take 8 first_primes)"

text \<open>The functions of section 4.1.2, the schedule and the rounds of section 6.2.2.\<close>

definition Ch :: "u32 \<Rightarrow> u32 \<Rightarrow> u32 \<Rightarrow> u32" where "Ch x y z = (x AND y) XOR (NOT x AND z)"
definition Maj :: "u32 \<Rightarrow> u32 \<Rightarrow> u32 \<Rightarrow> u32" where "Maj x y z = (x AND y) XOR (x AND z) XOR (y AND z)"
definition Sigma0 :: "u32 \<Rightarrow> u32" where "Sigma0 x = word_rotr 2 x XOR word_rotr 13 x XOR word_rotr 22 x"
definition Sigma1 :: "u32 \<Rightarrow> u32" where "Sigma1 x = word_rotr 6 x XOR word_rotr 11 x XOR word_rotr 25 x"
definition sigma0 :: "u32 \<Rightarrow> u32" where "sigma0 x = word_rotr 7 x XOR word_rotr 18 x XOR drop_bit 3 x"
definition sigma1 :: "u32 \<Rightarrow> u32" where "sigma1 x = word_rotr 17 x XOR word_rotr 19 x XOR drop_bit 10 x"

fun fips_W :: "u32 list \<Rightarrow> nat \<Rightarrow> u32" where
  "fips_W M t =
     (if t < 16 then M ! t
      else sigma1 (fips_W M (t - 2)) + fips_W M (t - 7) + sigma0 (fips_W M (t - 15)) + fips_W M (t - 16))"

declare fips_W.simps [simp del]

type_synonym working = "u32 \<times> u32 \<times> u32 \<times> u32 \<times> u32 \<times> u32 \<times> u32 \<times> u32"

fun fips_step :: "u32 \<Rightarrow> u32 \<Rightarrow> working \<Rightarrow> working" where
  "fips_step K W (a, b, c, d, e, f, g, h) =
     (let T1 = h + Sigma1 e + Ch e f g + K + W; T2 = Sigma0 a + Maj a b c
      in (T1 + T2, a, b, c, d + T1, e, f, g))"

primrec fips_rounds :: "u32 list \<Rightarrow> nat \<Rightarrow> working \<Rightarrow> working" where
  "fips_rounds M 0 v = v"
| "fips_rounds M (Suc t) v = fips_step (fips_K ! t) (fips_W M t) (fips_rounds M t v)"

fun to_list :: "working \<Rightarrow> u32 list" where
  "to_list (a, b, c, d, e, f, g, h) = [a, b, c, d, e, f, g, h]"

fun of_list :: "u32 list \<Rightarrow> working" where
  "of_list [a, b, c, d, e, f, g, h] = (a, b, c, d, e, f, g, h)"
| "of_list _ = (0, 0, 0, 0, 0, 0, 0, 0)"

definition fips_compress :: "u32 list \<Rightarrow> u8 list \<Rightarrow> u32 list" where
  "fips_compress H B = map2 (+) H (to_list (fips_rounds (be_words B) 64 (of_list H)))"

definition fips_sha256 :: "u8 list \<Rightarrow> u8 list" where
  "fips_sha256 m = concat (map be32 (run_blocks fips_compress fips_H0 (md_pad m)))"

section \<open>A block\<close>

text \<open>The integer that a scaled root lies above.\<close>

lemma scaled_root_floor:
  fixes p r :: int
  assumes "0 < k" "0 \<le> r" "r ^ k \<le> p * (2 ^ 32) ^ k" "p * (2 ^ 32) ^ k < (r + 1) ^ k"
  shows "\<lfloor>root k (of_int p) * 2 ^ 32\<rfloor> = r"
proof -
  have x: "root k (of_int p) * 2 ^ 32 = root k (of_int (p * (2 ^ 32) ^ k))"
    using assms(1) real_root_pos2 [of k "2 ^ 32"] by (simp add: real_root_mult)
  have "of_int (r ^ k) \<le> (of_int (p * (2 ^ 32) ^ k) :: real)" "(of_int (p * (2 ^ 32) ^ k) :: real) < of_int ((r + 1) ^ k)"
    using assms(3,4) by (simp_all only: of_int_le_iff of_int_less_iff)
  then have "root k (of_int r ^ k) \<le> root k (of_int (p * (2 ^ 32) ^ k))"
    "root k (of_int (p * (2 ^ 32) ^ k)) < root k (of_int (r + 1) ^ k)"
    using assms(1) by (simp_all only: real_root_le_iff real_root_less_iff of_int_power)
  moreover have "root k (of_int r ^ k) = of_int r" "root k (of_int (r + 1) ^ k) = of_int (r + 1)"
    using assms(1,2) by (simp_all add: real_root_pos2)
  ultimately show ?thesis unfolding x by (simp add: floor_eq_iff)
qed

text \<open>The first primes with their scaled roots.\<close>

definition cube_roots :: "int list" where
  "cube_roots =
   [0x1428a2f98, 0x171374491, 0x1b5c0fbcf, 0x1e9b5dba5, 0x23956c25b, 0x259f111f1, 0x2923f82a4, 0x2ab1c5ed5,
    0x2d807aa98, 0x312835b01, 0x3243185be, 0x3550c7dc3, 0x372be5d74, 0x380deb1fe, 0x39bdc06a7, 0x3c19bf174,
    0x3e49b69c1, 0x3efbe4786, 0x40fc19dc6, 0x4240ca1cc, 0x42de92c6f, 0x44a7484aa, 0x45cb0a9dc, 0x476f988da,
    0x4983e5152, 0x4a831c66d, 0x4b00327c8, 0x4bf597fc7, 0x4c6e00bf3, 0x4d5a79147, 0x506ca6351, 0x514292967,
    0x527b70a85, 0x52e1b2138, 0x54d2c6dfc, 0x553380d13, 0x5650a7354, 0x5766a0abb, 0x581c2c92e, 0x592722c85,
    0x5a2bfe8a1, 0x5a81a664b, 0x5c24b8b70, 0x5c76c51a3, 0x5d192e819, 0x5d6990624, 0x5f40e3585, 0x6106aa070,
    0x619a4c116, 0x61e376c08, 0x62748774c, 0x634b0bcb5, 0x6391c0cb3, 0x64ed8aa4a, 0x65b9cca4f, 0x6682e6ff3,
    0x6748f82ee, 0x678a5636f, 0x684c87814, 0x68cc70208, 0x690befffa, 0x6a4506ceb, 0x6bef9a3f7, 0x6c67178f2]"

definition square_roots :: "int list" where
  "square_roots =
   [0x16a09e667, 0x1bb67ae85, 0x23c6ef372, 0x2a54ff53a, 0x3510e527f, 0x39b05688c, 0x41f83d9ab, 0x45be0cd19]"

lemma scaled_roots:
  assumes "list_all2 (\<lambda>p r. 0 \<le> r \<and> r ^ k \<le> p * (2 ^ 32) ^ k \<and> p * (2 ^ 32) ^ k < (r + 1) ^ k) ps rs" "0 < k"
  shows "map (scaled_root k) ps = map word_of_int rs"
  using assms(1)
proof (induction rule: list_all2_induct)
  case (Cons p ps r rs)
  then have "\<lfloor>root k (of_int p) * 2 ^ 32\<rfloor> = r" using assms(2) by (intro scaled_root_floor) auto
  then show ?case using Cons by (simp add: scaled_root_def)
qed simp

lemma sha256_constants: "sha256_k = fips_K" "sha256_hash_init = fips_H0"
proof -
  have "fips_K = map word_of_int cube_roots" unfolding fips_K_def
    by (rule scaled_roots) (simp_all add: first_primes_def cube_roots_def)
  also have "\<dots> = sha256_k" by (simp add: cube_roots_def sha256_k_def)
  finally show "sha256_k = fips_K" by simp
  have "fips_H0 = map word_of_int square_roots" unfolding fips_H0_def
    by (rule scaled_roots) (simp_all add: first_primes_def square_roots_def)
  also have "\<dots> = sha256_hash_init" by (simp add: square_roots_def sha256_hash_init_def)
  finally show "sha256_hash_init = fips_H0" by simp
qed

lemma swapped_words_be: "length B = 64 \<Longrightarrow> swapped_words B = be_words B"
proof -
  assume B: "length B = 64"
  have "take 4 (drop (4 * t) B) = [B ! (4 * t), B ! (4 * t + 1), B ! (4 * t + 2), B ! (4 * t + 3)]" if "t < 16" for t
  proof -
    have "length (take 4 (drop (4 * t) B)) = 4" using that B by simp
    then show ?thesis by (intro nth_equalityI) (auto simp: less_Suc_eq numeral_eq_Suc)
  qed
  then show ?thesis using B by (simp add: swapped_words_def be_words_def of_le32_swapped del: of_le32.simps of_be32.simps)
qed

lemma rotations: "rotate_right w n = word_rotr n w" if "0 < n" "n < 32"
  using rotate_right_word [OF that] by (simp add: rotate_right_def)

lemma schedule_fips:
  assumes "length M = 16"
  shows "schedule n M = map (fips_W M) [0..<16 + n]"
proof (induction n)
  case 0
  have "fips_W M t = M ! t" if "t < 16" for t using that by (subst fips_W.simps) simp
  then show ?case using assms by (intro nth_equalityI) simp_all
next
  case (Suc n)
  have "schedule_word (map (fips_W M) [0..<16 + n]) (16 + n) = fips_W M (16 + n)"
    by (subst fips_W.simps) (simp add: schedule_word_def Let_def rotations sigma0_def sigma1_def ac_simps)
  moreover have "[0..<16 + Suc n] = [0..<16 + n] @ [16 + n]" by (simp only: add_Suc_right upt_Suc) simp
  ultimately show ?case using Suc by (simp add: Let_def)
qed

lemma round_fips: "sha256_round k w (to_list v) = to_list (fips_step k w v)"
  by (cases v rule: to_list.cases)
    (simp add: sha256_round_def Let_def rotations Sigma0_def Sigma1_def Ch_def Maj_def ac_simps)

lemma block_fips:
  assumes "length H = 8" "length B = 64"
  shows "sha256_block H B = fips_compress H B"
proof -
  have M: "length (be_words B) = 16" using assms(2) by (simp add: be_words_def)
  have H: "to_list (of_list H) = H" using assms(1) by (auto simp: numeral_eq_Suc length_Suc_conv)
  have "fold (\<lambda>i. sha256_round (sha256_k ! i) (schedule 48 (be_words B) ! i)) [0..<t] (to_list (of_list H)) =
      to_list (fips_rounds (be_words B) t (of_list H))" if "t \<le> 64" for t
    using that by (induction t) (simp_all add: schedule_fips [OF M] sha256_constants(1) round_fips)
  from this [of 64] show ?thesis
    using swapped_words_be [OF assms(2)] by (simp add: sha256_block_def fips_compress_def H Let_def)
qed

lemma length_fips_compress [simp]: "length H = 8 \<Longrightarrow> length (fips_compress H B) = 8"
  by (cases "fips_rounds (be_words B) 64 (of_list H)" rule: to_list.cases) (simp add: fips_compress_def)

section \<open>Updates\<close>

lemma length_run_blocks: "length H = 8 \<Longrightarrow> length (run_blocks fips_compress H bs) = 8"
proof -
  have "length H = 8 \<Longrightarrow> length (foldl fips_compress H Bs) = 8" for Bs by (induction Bs arbitrary: H) simp_all
  then show "length H = 8 \<Longrightarrow> ?thesis" by (simp add: run_blocks_def)
qed

lemma process_blocks:
  assumes "length H = 8" "64 * c \<le> length bs"
  shows "sw_sha256_process c H bs = Inr (run_blocks fips_compress H (take (64 * c) bs))"
  using assms
proof (induction c arbitrary: H bs)
  case (Suc c)
  have "take (64 * Suc c) bs = take 64 bs @ take (64 * c) (drop 64 bs)" by (simp add: take_add)
  then have "run_blocks fips_compress H (take (64 * Suc c) bs) =
      run_blocks fips_compress (fips_compress H (take 64 bs)) (take (64 * c) (drop 64 bs))"
    using Suc.prems(2) by (simp add: run_blocks_append run_blocks_one)
  then show ?case using Suc by (simp add: block_fips)
qed simp

text \<open>The words of an update are the numbers they stand for.\<close>

lemma update_numbers:
  assumes "block_size ctx = of_nat b" "b < 64" "b + n < 2 ^ 32" "length msg = n"
  shows "sw_sha256_update ctx msg (of_nat n) =
    (let c = min n (64 - b)
     in if_inr (put_at b (take c msg) (block ctx)) (\<lambda>blk.
        if b + n < 64 then Inr (ctx\<lparr>block := blk, block_size := of_nat (b + n)\<rparr>)
        else if_inr (sw_sha256_process 1 (hash ctx) blk) (\<lambda>h1.
          if_inr (sw_sha256_process ((n - c) div 64) h1 (drop c msg)) (\<lambda>h2.
          if_inr (put_at 0 (take ((n - c) mod 64) (drop (c + (n - c) div 64 * 64) msg)) blk) (\<lambda>blk.
            Inr \<lparr>total_msg_size = total_msg_size ctx + of_nat (((n - c) div 64 + 1) * 64),
                 block_size = of_nat ((n - c) mod 64), block = blk, hash = h2\<rparr>)))))"
proof -
  define c where "c = min n (64 - b)"
  have u: "unat (of_nat k :: u32) = k" if "k \<le> b + n \<or> k \<le> 64" for k
    using that assms(3) by (auto simp: unat_of_nat)
  have b: "unat (block_size ctx) = b" using assms(1) u [of b] by simp
  have rem: "SHA256_BLOCK_SIZE - block_size ctx = of_nat (64 - b)"
    using assms(1,2) by (simp add: SHA256_BLOCK_SIZE_def of_nat_diff)
  have "(of_nat n > (of_nat (64 - b) :: u32)) = (n > 64 - b)"
    using u [of n] u [of "64 - b"] by (simp add: word_less_nat_alt)
  then have c: "(if (of_nat n :: u32) > SHA256_BLOCK_SIZE - block_size ctx then SHA256_BLOCK_SIZE - block_size ctx else of_nat n) = of_nat c"
    unfolding rem by (simp add: c_def min_def)
  have cle: "c \<le> n" by (simp add: c_def)
  have fits: "(block_size ctx + of_nat n < SHA256_BLOCK_SIZE) = (b + n < 64)"
    using assms(1) u [of "b + n"] by (simp add: SHA256_BLOCK_SIZE_def word_less_nat_alt flip: of_nat_add)
  have m: "(of_nat n - of_nat c :: u32) = of_nat (n - c)" using cle by (simp add: of_nat_diff)
  define q r where "q = (n - c) div 64" and "r = (n - c) mod 64"
  have qr: "n = c + q * 64 + r" using cle div_mult_mod_eq [of "n - c" 64] unfolding q_def r_def by linarith
  have us: "unat (of_nat c :: u32) = c" "unat (of_nat q :: u32) = q" "unat (of_nat r :: u32) = r" "unat (of_nat (n - c) :: u32) = n - c"
    using u [of c] u [of q] u [of r] u [of "n - c"] qr by simp_all
  have dv: "(of_nat (n - c) :: u32) div SHA256_BLOCK_SIZE = of_nat q" "(of_nat (n - c) :: u32) mod SHA256_BLOCK_SIZE = of_nat r"
    unfolding word_unat_eq_iff unat_div unat_mod us by (simp_all add: SHA256_BLOCK_SIZE_def q_def r_def)
  have at: "unat (of_nat c + of_nat q * SHA256_BLOCK_SIZE) = c + q * 64"
    using u [of "c + q * 64"] qr by (simp add: SHA256_BLOCK_SIZE_def)
  have tail: "\<not> length (drop (c + q * 64) msg) < r" "\<not> length msg < c" using qr assms(4) by auto
  have tot: "(of_nat q + 1) * SHA256_BLOCK_SIZE = of_nat ((q + 1) * 64)" by (simp add: SHA256_BLOCK_SIZE_def)
  have sum: "block_size ctx + of_nat n = of_nat (b + n)" using assms(1) by simp
  show ?thesis unfolding c_def [symmetric] q_def [symmetric] r_def [symmetric] sw_sha256_update_def Let_def c fits m dv at us b tot
    using tail by (simp only: if_False sum)
qed

text \<open>A context that has taken in the bytes \<open>m\<close>.\<close>

definition sha256_inv :: "sw_sha256_ctx \<Rightarrow> u8 list \<Rightarrow> bool" where
  "sha256_inv ctx m \<longleftrightarrow>
     total_msg_size ctx = of_nat (length (whole m)) \<and> block_size ctx = of_nat (length (rest m)) \<and>
     length (block ctx) = 128 \<and> take (length (rest m)) (block ctx) = rest m \<and>
     hash ctx = run_blocks fips_compress fips_H0 (whole m)"

lemma length_fips_H0: "length fips_H0 = 8"
  by (simp add: fips_H0_def first_primes_def)

lemma sha256_inv_init: "sha256_inv sw_sha256_init []"
  by (simp add: sha256_inv_def sw_sha256_init_def whole_def rest_def sha256_constants)

lemma put_prefix:
  assumes "length blk = n" "take b blk = p" "length p = b" "b + length src \<le> n"
  shows "put_at b src blk = Inr (memcpy_at b src blk) \<and> length (memcpy_at b src blk) = n \<and>
    take (b + length src) (memcpy_at b src blk) = p @ src"
  using assms by (auto simp: put_at_def memcpy_at_def)

lemma update_keeps:
  assumes "sha256_inv ctx m" "length msg + 64 \<le> 2 ^ 32"
  shows "\<exists>ctx'. sw_sha256_update ctx msg (of_nat (length msg)) = Inr ctx' \<and> sha256_inv ctx' (m @ msg)"
proof -
  define b n c where "b = length (rest m)" and "n = length msg" and "c = min n (64 - b)"
  have b: "b < 64" by (simp add: b_def whole_rest)
  note inv = assms(1) [unfolded sha256_inv_def, folded b_def]
  have wl: "length (whole m) mod 64 = 0" by (simp add: whole_rest)
  let ?blk = "memcpy_at b (take c msg) (block ctx)"
  have put: "put_at b (take c msg) (block ctx) = Inr ?blk \<and> length ?blk = 128 \<and>
      take (b + length (take c msg)) ?blk = rest m @ take c msg"
    by (rule put_prefix) (use inv b in \<open>auto simp: b_def c_def\<close>)
  have lc: "length (take c msg) = c" by (simp add: c_def n_def)
  have upd: "sw_sha256_update ctx msg (of_nat n) = (if b + n < 64 then Inr (ctx\<lparr>block := ?blk, block_size := of_nat (b + n)\<rparr>)
      else if_inr (sw_sha256_process 1 (hash ctx) ?blk) (\<lambda>h1.
          if_inr (sw_sha256_process ((n - c) div 64) h1 (drop c msg)) (\<lambda>h2.
          if_inr (put_at 0 (take ((n - c) mod 64) (drop (c + (n - c) div 64 * 64) msg)) ?blk) (\<lambda>blk.
            Inr \<lparr>total_msg_size = total_msg_size ctx + of_nat (((n - c) div 64 + 1) * 64),
                 block_size = of_nat ((n - c) mod 64), block = blk, hash = h2\<rparr>))))"
  proof -
    have "block_size ctx = of_nat b" "b + n < 2 ^ 32" "length msg = n" using inv b assms(2) by (simp_all add: n_def)
    from update_numbers [OF this(1) b this(2,3)] show ?thesis
      unfolding Let_def c_def [symmetric] put [THEN conjunct1] if_inr_simps .
  qed
  show ?thesis
  proof (cases "b + n < 64")
    case True
    then have "c = n" by (simp add: c_def)
    have w: "whole (m @ msg) = whole m" "rest (m @ msg) = rest m @ msg"
      by (rule whole_unique [of _ "whole m" "rest m @ msg"]; use True in \<open>simp add: whole_rest b_def n_def flip: append_assoc\<close>)+
    show ?thesis using inv put True \<open>c = n\<close> unfolding upd [unfolded n_def] sha256_inv_def w
      by (simp add: n_def b_def)
  next
    case False
    define q r where "q = (n - c) div 64" and "r = (n - c) mod 64"
    have c: "c = 64 - b" using False by (simp add: c_def)
    have n: "n = c + q * 64 + r" using False b div_mult_mod_eq [of "n - c" 64] unfolding c q_def r_def by linarith
    have r: "r < 64" by (simp add: r_def)
    have one: "length (rest m @ take c msg) = 64" using b lc c by (simp add: b_def)
    then have t64: "take 64 ?blk = rest m @ take c msg" using put lc by (simp add: b_def)
    have h8: "length (hash ctx) = 8" using inv length_run_blocks [OF length_fips_H0] by simp
    let ?h1 = "run_blocks fips_compress (hash ctx) (rest m @ take c msg)"
    have p1: "sw_sha256_process 1 (hash ctx) ?blk = Inr ?h1"
      using process_blocks [OF h8, of 1 ?blk] put t64 by simp
    let ?mid = "take (64 * q) (drop c msg)" and ?tail = "drop (c + q * 64) msg"
    let ?h2 = "run_blocks fips_compress ?h1 ?mid"
    have p2: "sw_sha256_process q ?h1 (drop c msg) = Inr ?h2"
      by (rule process_blocks) (use length_run_blocks [OF h8] n in \<open>auto simp: n_def\<close>)
    have lt: "length ?tail = r" using n by (simp add: n_def)
    have put2: "put_at 0 (take r ?tail) ?blk = Inr (memcpy_at 0 ?tail ?blk) \<and> length (memcpy_at 0 ?tail ?blk) = 128 \<and>
        take (0 + length ?tail) (memcpy_at 0 ?tail ?blk) = [] @ ?tail"
      using put_prefix [of ?blk 128 0 "[]" ?tail] put lt r by simp
    have split: "m @ msg = (whole m @ rest m @ take c msg @ ?mid) @ ?tail"
    proof -
      have "?mid @ ?tail = drop c msg" by (metis append_take_drop_id drop_drop add.commute mult.commute)
      then show ?thesis by (metis append_assoc append_take_drop_id whole_rest(1))
    qed
    have lw: "length (whole m @ rest m @ take c msg @ ?mid) = length (whole m) + (q + 1) * 64"
      using one n by (simp add: n_def)
    have w: "whole (m @ msg) = whole m @ rest m @ take c msg @ ?mid" "rest (m @ msg) = ?tail"
    proof -
      have "(x + (q + 1) * 64) mod 64 = x mod 64" for x :: nat by (rule mod_mult_self1)
      then have "length (whole m @ rest m @ take c msg @ ?mid) mod 64 = 0" unfolding lw wl by (simp only: wl)
      moreover have "length ?tail < 64" using lt r by simp
      ultimately show "whole (m @ msg) = whole m @ rest m @ take c msg @ ?mid" "rest (m @ msg) = ?tail"
        using whole_unique [OF split] by simp_all
    qed
    have "run_blocks fips_compress fips_H0 (whole (m @ msg)) = ?h2"
    proof -
      have "length (rest m @ take c msg) mod 64 = 0" using one by simp
      then have "run_blocks fips_compress fips_H0 (whole m @ (rest m @ take c msg) @ ?mid) = ?h2"
        unfolding run_blocks_append [OF wl] using inv by (simp only: run_blocks_append)
      then show ?thesis unfolding w by (simp only: append_assoc)
    qed
    moreover have "take r ?tail = ?tail" using lt by simp
    then have "sw_sha256_update ctx msg (of_nat n) = Inr \<lparr>total_msg_size = total_msg_size ctx + of_nat ((q + 1) * 64),
        block_size = of_nat r, block = memcpy_at 0 ?tail ?blk, hash = ?h2\<rparr>"
      unfolding upd q_def [symmetric] r_def [symmetric] p1 using False put2 by (simp only: if_False if_inr_simps p2)
    moreover have "length (whole (m @ msg)) = length (whole m) + (q + 1) * 64" "length (rest (m @ msg)) = r"
      unfolding w by (rule lw, rule lt)
    ultimately show ?thesis unfolding n_def [symmetric] sha256_inv_def using inv put2 lt w(2) by simp
  qed
qed

section \<open>The digest\<close>

lemma padded_rest_blocks:
  fixes b :: nat
  assumes "b < 64"
  defines "p \<equiv> (64 - (b + 9) mod 64) mod 64"
  shows "p = (119 - b) mod 64" "b + 1 + (p + 4) + 4 = (if b < 56 then 64 else 128)"
proof -
  have *: "p = (if b < 56 then 55 - b else 119 - b)"
  proof (cases "b < 56")
    case True
    then show ?thesis by (cases "b = 55") (simp_all add: p_def)
  next
    case False
    then have "(b + 9) mod 64 = b + 9 - 64" using assms(1) by (simp add: mod_if)
    then show ?thesis using False assms(1) by (simp add: p_def)
  qed
  have "(119 - b) mod 64 = (if b < 56 then 55 - b else 119 - b)" using assms(1) by (simp add: mod_if)
  then show "p = (119 - b) mod 64" by (simp only: *)
  show "b + 1 + (p + 4) + 4 = (if b < 56 then 64 else 128)" using assms(1) by (auto simp: *)
qed

lemma be64_small: "n < 2 ^ 32 \<Longrightarrow> be64 n = [0, 0, 0, 0] @ be32 (of_nat n)"
proof -
  assume n: "n < 2 ^ 32"
  have e: "ucast (drop_bit k (of_nat n :: u32)) = (of_nat (n div 2 ^ k) :: u8)" for k
  proof -
    have "unat (of_nat n :: u32) = n" using n by (simp add: unat_of_nat)
    then have "unat (ucast (drop_bit k (of_nat n :: u32)) :: u8) = n div 2 ^ k mod 256" by (simp only: unat_byte)
    then show ?thesis by (simp add: word_unat_eq_iff unat_of_nat)
  qed
  have "n div 72057594037927936 = 0" "n div 281474976710656 = 0" "n div 1099511627776 = 0" "n div 4294967296 = 0"
    using n by simp_all
  then show ?thesis using e [of 24] e [of 16] e [of 8] e [of 0]
    by (simp add: be64_def be32_def upt_rec)
qed

text \<open>The padding of the last block: its positions, and what is written.\<close>

lemma pad_numbers:
  assumes "bs = of_nat b" "b < 64"
  defines "p \<equiv> (119 - b) mod 64"
  shows "(SHA256_BLOCK_SIZE - (bs + 9) mod SHA256_BLOCK_SIZE) mod SHA256_BLOCK_SIZE = of_nat p"
    "unat bs = b" "unat (bs + 1) = b + 1" "unat (of_nat p + 4 :: u32) = p + 4"
    "unat (bs + 1 + (of_nat p + 4)) = b + 1 + (p + 4)"
    "bs + 1 + (of_nat p + 4) + 4 = of_nat (if b < 56 then 64 else 128)"
proof -
  have u: "unat (of_nat k :: u32) = k" if "k \<le> 128" for k using that by (auto simp: unat_of_nat)
  have p64: "p < 64" by (simp add: p_def)
  have "unat (of_nat (b + 9) :: u32) mod 64 = (b + 9) mod 64" using u [of "b + 9"] assms(2) by simp
  then have m: "(bs + 9) mod SHA256_BLOCK_SIZE = of_nat ((b + 9) mod 64)"
    unfolding word_unat_eq_iff unat_mod using u [of "(b + 9) mod 64"] assms(1) by (simp add: SHA256_BLOCK_SIZE_def)
  have s: "SHA256_BLOCK_SIZE - of_nat ((b + 9) mod 64) = of_nat (64 - (b + 9) mod 64)"
    by (simp add: SHA256_BLOCK_SIZE_def of_nat_diff)
  have "of_nat (64 - (b + 9) mod 64) mod SHA256_BLOCK_SIZE = (of_nat ((64 - (b + 9) mod 64) mod 64) :: u32)"
    unfolding word_unat_eq_iff unat_mod using u [of "64 - (b + 9) mod 64"] u [of "(64 - (b + 9) mod 64) mod 64"]
    by (simp add: SHA256_BLOCK_SIZE_def)
  then show "(SHA256_BLOCK_SIZE - (bs + 9) mod SHA256_BLOCK_SIZE) mod SHA256_BLOCK_SIZE = of_nat p"
    unfolding m s p_def padded_rest_blocks(1) [OF assms(2)] .
  have len: "b + 1 + (p + 4) + 4 = (if b < 56 then 64 else 128)"
    using padded_rest_blocks [OF assms(2)] by (simp only: p_def)
  show "unat bs = b" "unat (bs + 1) = b + 1" "unat (of_nat p + 4 :: u32) = p + 4"
    "unat (bs + 1 + (of_nat p + 4)) = b + 1 + (p + 4)"
    using u [of b] u [of "b + 1"] u [of "p + 4"] u [of "b + 1 + (p + 4)"] assms(1,2) p64 len
    by (simp_all add: ac_simps split: if_splits)
  show "bs + 1 + (of_nat p + 4) + 4 = of_nat (if b < 56 then 64 else 128)"
    unfolding len [symmetric] assms(1) by simp
qed

lemma pad_writes:
  fixes m :: "u8 list"
  defines "b \<equiv> length m mod 64"
  defines "p \<equiv> (119 - b) mod 64"
  assumes "length blk = 128" "take b blk = rest m" "length m < 2 ^ 29"
  shows "\<exists>b1 b2 b3. put_at b [0x80] blk = Inr b1 \<and> put_at (b + 1) (replicate (p + 4) 0) b1 = Inr b2 \<and>
    put_at (b + 1 + (p + 4)) (be32 (of_nat (8 * length m))) b2 = Inr b3 \<and> length b3 = 128 \<and>
    take (if b < 56 then 64 else 128) b3 = rest m @ padding (length m)"
proof -
  have b: "b < 64" "length (rest m) = b" by (simp_all add: b_def whole_rest)
  have len: "b + 1 + (p + 4) + 4 = (if b < 56 then 64 else 128)"
    using padded_rest_blocks [OF b(1)] by (simp only: p_def)
  let ?b1 = "memcpy_at b [0x80] blk"
  let ?b2 = "memcpy_at (b + 1) (replicate (p + 4) 0) ?b1"
  let ?b3 = "memcpy_at (b + 1 + (p + 4)) (be32 (of_nat (8 * length m))) ?b2"
  have p1: "put_at b [0x80] blk = Inr ?b1 \<and> length ?b1 = 128 \<and> take (b + length [0x80 :: u8]) ?b1 = rest m @ [0x80]"
    by (rule put_prefix) (use assms(3,4) b in auto)
  have p2: "put_at (b + 1) (replicate (p + 4) 0) ?b1 = Inr ?b2 \<and> length ?b2 = 128 \<and>
      take (b + 1 + length (replicate (p + 4) (0 :: u8))) ?b2 = (rest m @ [0x80]) @ replicate (p + 4) 0"
    by (rule put_prefix) (use p1 b len in \<open>auto split: if_splits\<close>)
  have p3: "put_at (b + 1 + (p + 4)) (be32 (of_nat (8 * length m))) ?b2 = Inr ?b3 \<and> length ?b3 = 128 \<and>
      take (b + 1 + (p + 4) + length (be32 (of_nat (8 * length m)))) ?b3 =
      ((rest m @ [0x80]) @ replicate (p + 4) 0) @ be32 (of_nat (8 * length m))"
    by (rule put_prefix) (use p2 b len in \<open>auto split: if_splits\<close>)
  have "padding (length m) = [0x80] @ replicate p 0 @ be64 (8 * length m)" by (simp add: padding_def p_def b_def)
  also have "be64 (8 * length m) = replicate 4 0 @ be32 (of_nat (8 * length m))"
  proof -
    have "replicate 4 (0 :: u8) = [0, 0, 0, 0]" by (simp add: numeral_eq_Suc)
    moreover have "8 * length m < 2 ^ 32" using assms(5) by simp
    ultimately show ?thesis using be64_small [of "8 * length m"] by (simp only:)
  qed
  finally have pd: "((rest m @ [0x80]) @ replicate (p + 4) 0) @ be32 (of_nat (8 * length m)) = rest m @ padding (length m)"
    by (simp only: replicate_add append_assoc)
  have "take (if b < 56 then 64 else 128) ?b3 = rest m @ padding (length m)" using p3 len unfolding pd by (simp only: length_be32)
  with p1 p2 p3 show ?thesis by blast
qed

lemma final_numbers:
  assumes "block_size ctx = of_nat b" "b < 64" "total_msg_size ctx + of_nat b = of_nat n"
  defines "p \<equiv> (119 - b) mod 64"
  shows "sw_sha256_final ctx =
    if_inr (put_at b [0x80] (block ctx)) (\<lambda>blk.
    if_inr (put_at (b + 1) (replicate (p + 4) 0) blk) (\<lambda>blk.
    if_inr (put_at (b + 1 + (p + 4)) (be32 (of_nat (8 * n))) blk) (\<lambda>blk.
    if_inr (sw_sha256_process (if b < 56 then 1 else 2) (hash ctx) blk) (\<lambda>h.
      Inr (ctx\<lparr>total_msg_size := of_nat n, block_size := of_nat (if b < 56 then 64 else 128), block := blk, hash := replicate 8 0\<rparr>,
           concat (map be32 h))))))"
proof -
  note nums = pad_numbers [OF assms(1,2), folded p_def]
  have cnt: "unat (of_nat (if b < 56 then 64 else 128) div SHA256_BLOCK_SIZE) = (if b < 56 then 1 else 2)"
    by (simp add: unat_div SHA256_BLOCK_SIZE_def)
  have bits: "of_nat n * 8 = (of_nat (8 * n) :: u32)" by simp
  have tot: "total_msg_size ctx + block_size ctx = of_nat n" using assms(1,3) by simp
  show ?thesis unfolding sw_sha256_final_def Let_def nums cnt tot bits ..
qed

lemma final_digest:
  assumes "sha256_inv ctx m" "length m < 2 ^ 29"
  shows "\<exists>ctx'. sw_sha256_final ctx = Inr (ctx', fips_sha256 m)"
proof -
  define b where "b = length m mod 64"
  have b: "b < 64" "length (rest m) = b" by (simp_all add: b_def whole_rest)
  note inv = assms(1) [unfolded sha256_inv_def b(2)]
  have "length (whole m) + length (rest m) = length m" by (metis whole_rest(1) length_append)
  then have tot: "total_msg_size ctx + of_nat b = of_nat (length m)"
    using inv by (simp add: b(2) flip: of_nat_add)
  let ?n = "if b < 56 then 64 else 128 :: nat" and ?c = "if b < 56 then 1 else 2 :: nat"
  obtain b1 b2 b3 where w: "put_at b [0x80] (block ctx) = Inr b1" "put_at (b + 1) (replicate ((119 - b) mod 64 + 4) 0) b1 = Inr b2"
    "put_at (b + 1 + ((119 - b) mod 64 + 4)) (be32 (of_nat (8 * length m))) b2 = Inr b3" "length b3 = 128"
    "take ?n b3 = rest m @ padding (length m)"
    using pad_writes [of "block ctx" m] inv assms(2) unfolding b_def by blast
  have c: "64 * ?c = ?n" by simp
  have h8: "length (hash ctx) = 8" using inv length_run_blocks [OF length_fips_H0] by simp
  have "64 * ?c \<le> length b3" by (simp add: w(4))
  from process_blocks [OF h8 this] have "sw_sha256_process ?c (hash ctx) b3 =
      Inr (run_blocks fips_compress (hash ctx) (rest m @ padding (length m)))" unfolding c w(5) .
  moreover have "run_blocks fips_compress fips_H0 (md_pad m) = run_blocks fips_compress (hash ctx) (rest m @ padding (length m))"
    unfolding md_pad_split using inv by (simp add: run_blocks_append whole_rest)
  moreover have "block_size ctx = of_nat b" using inv by simp
  ultimately show ?thesis unfolding final_numbers [OF \<open>block_size ctx = of_nat b\<close> b(1) tot]
    using w by (simp add: fips_sha256_def)
qed

section \<open>Properties\<close>

definition updates :: "u8 list list \<Rightarrow> sw_sha256_ctx \<Rightarrow> fault + sw_sha256_ctx" where
  "updates msgs ctx = foldl (\<lambda>r msg. if_inr r (\<lambda>ctx. sw_sha256_update ctx msg (of_nat (length msg)))) (Inr ctx) msgs"

lemma updates_keep:
  assumes "sha256_inv ctx m" "length (m @ concat msgs) < 2 ^ 29"
  shows "\<exists>ctx'. updates msgs ctx = Inr ctx' \<and> sha256_inv ctx' (m @ concat msgs)"
  using assms
proof (induction msgs arbitrary: ctx m)
  case (Cons msg msgs)
  have "length msg + 64 \<le> 2 ^ 32" using Cons.prems(2) by simp
  from update_keeps [OF Cons.prems(1) this] obtain ctx1 where
    c: "sw_sha256_update ctx msg (of_nat (length msg)) = Inr ctx1" "sha256_inv ctx1 (m @ msg)" by blast
  have "updates (msg # msgs) ctx = updates msgs ctx1" by (simp add: updates_def c(1))
  moreover have "length ((m @ msg) @ concat msgs) < 2 ^ 29" using Cons.prems(2) by simp
  ultimately show ?case using Cons.IH [OF c(2)] by simp
qed (simp add: updates_def)

lemma sw_sha256_digest:
  assumes "length (concat msgs) < 2 ^ 29"
  shows "\<exists>ctx ctx'. updates msgs sw_sha256_init = Inr ctx \<and> sw_sha256_final ctx = Inr (ctx', fips_sha256 (concat msgs))"
  using updates_keep [OF sha256_inv_init, of msgs] final_digest assms by fastforce

text \<open>Through the wrappers, for a message in one piece.\<close>

lemma atcac_sw_sha2_256_digest:
  assumes "length m < 2 ^ 29"
  shows "atcac_sw_sha2_256 m (of_nat (length m)) ctx digest = Inr (ATCA_SUCCESS, fips_sha256 m)"
proof -
  have "(ucast (of_nat (length m) :: u64) :: u32) = of_nat (length m)"
    using assms by (simp add: word_unat_eq_iff unat_of_nat unsigned_ucast_eq take_bit_nat_eq_self)
  moreover obtain c c' where "sw_sha256_update sw_sha256_init m (of_nat (length m)) = Inr c"
    "sw_sha256_final c = Inr (c', fips_sha256 m)"
    using sw_sha256_digest [of "[m]"] assms by (auto simp: updates_def)
  ultimately show ?thesis
    by (simp add: atcac_sw_sha2_256_def atcac_sw_sha2_256_init_def sizeof_sw_sha256_ctx_def sizeof_atcac_sha2_256_ctx_def
        atcac_sw_sha2_256_update_def atcac_sw_sha2_256_finish_def)
qed

text \<open>
  C34: The hash in software is SHA-256: a message given in any number of pieces of any length,
  less than \<open>2 ^ 29\<close> bytes together, has the digest of FIPS 180-4, whose constants are roots
  of the first primes, and no buffer is overrun on the way.
\<close>

theorem sw_sha256_is_fips:
  assumes "length (concat msgs) < 2 ^ 29"
  shows "\<exists>ctx ctx'. updates msgs sw_sha256_init = Inr ctx \<and> sw_sha256_final ctx = Inr (ctx', fips_sha256 (concat msgs))"
  by (rule sw_sha256_digest [OF assms])

theorem sw_sha256_is_fips_witness:
  "\<exists>ctx ctx'. updates [[0x61], [], [0x62, 0x63]] sw_sha256_init = Inr ctx \<and>
    sw_sha256_final ctx = Inr (ctx', fips_sha256 [0x61, 0x62, 0x63])"
  using sw_sha256_is_fips [of "[[0x61], [], [0x62, 0x63]]"] by simp

end
