(* ===== verification/AtcaSha.thy ===== *)
theory AtcaSha
  imports AtcaOps AtcaSim Sha2
begin

text \<open>
  SHA-256 and HMAC computed by the chip (\<open>basic/atca_basic_sha.c\<close>): the command and the streaming
  interfaces over it, which collect the message in blocks of 64 bytes. On a chip that computes
  digests as documented, the functions deliver the digest of the message.
\<close>

section \<open>The command\<close>

definition SHA_MODE_HMAC_UPDATE :: u8 where "SHA_MODE_HMAC_UPDATE = 0x01"
definition SHA_MODE_608_HMAC_END :: u8 where "SHA_MODE_608_HMAC_END = 0x02"
definition SHA_MODE_TARGET_TEMPKEY :: u8 where "SHA_MODE_TARGET_TEMPKEY = 0x00"
definition ATCA_SHA256_BLOCK_SIZE :: u32 where "ATCA_SHA256_BLOCK_SIZE = 64"

lemmas sha_consts [model_eval] =
  SHA_MODE_HMAC_UPDATE_def SHA_MODE_608_HMAC_END_def SHA_MODE_TARGET_TEMPKEY_def ATCA_SHA256_BLOCK_SIZE_def

text \<open>
  \<open>out\<close> is the size of the output buffer, if there is one; the result is the data copied to it.
  The message is copied to the packet without a check of its length.
\<close>

definition atcab_sha_base ::
    "u8 \<Rightarrow> u16 \<Rightarrow> u8 list option \<Rightarrow> u16 option \<Rightarrow> 's atcab \<Rightarrow> (ATCA_STATUS \<times> u8 list option \<times> 's atcab) run" where
  "atcab_sha_base mode len message out = with_device (\<lambda>dev st.
     let cmd_mode = mode AND SHA_MODE_MASK;
         no_msg = (cmd_mode = SHA_MODE_SHA256_PUBLIC \<or> cmd_mode = SHA_MODE_HMAC_START);
         (packet, st) = found_packet st;
         packet = packet\<lparr>param1 := mode, param2 := len\<rparr>;
         msg = (case message of None \<Rightarrow> [] | Some m \<Rightarrow> m)
     in if \<not> no_msg \<and> len > 0 \<and> message = None then Some (Inr (ATCA_BAD_PARAM, None, st))
        else if \<not> no_msg \<and> (length msg < unat len \<or> length (pkt_data packet) < unat len) then Some (Inl OutOfBounds)
        else if_runs (execute (\<lambda>cmd p. atSHA cmd p len) (if no_msg then packet else copy_in 0 (unat len) msg packet) dev st)
          (\<lambda>(status, packet, st).
          case out of
            None \<Rightarrow> Some (Inr (status, None, st))
          | Some sz \<Rightarrow>
              if status \<noteq> ATCA_SUCCESS \<or> rxsize packet \<le> 4 then Some (Inr (status, None, st))
              else if uint (pkt_data packet ! 0) - 3 > uint sz then Some (Inr (ATCA_SMALL_BUFFER, None, st))
              else
                let n = unat (ucast (pkt_data packet ! 0) - ATCA_PACKET_OVERHEAD)
                in needs (1 + n) (pkt_data packet) (Some (Inr (status, Some (response_data n packet), st)))))"

definition atcab_sha_start :: "'s atcab \<Rightarrow> (ATCA_STATUS \<times> 's atcab) run" where
  "atcab_sha_start st = only_status (atcab_sha_base SHA_MODE_SHA256_START 0 None None st)"

definition atcab_sha_update :: "u8 list \<Rightarrow> 's atcab \<Rightarrow> (ATCA_STATUS \<times> 's atcab) run" where
  "atcab_sha_update message st = only_status (atcab_sha_base SHA_MODE_SHA256_UPDATE 64 (Some message) None st)"

definition atcab_sha_end ::
    "u16 \<Rightarrow> u8 list option \<Rightarrow> 's atcab \<Rightarrow> (ATCA_STATUS \<times> u8 list option \<times> 's atcab) run" where
  "atcab_sha_end len message = atcab_sha_base SHA_MODE_SHA256_END len message (Some 32)"

definition atcab_sha_read_context :: "u16 \<Rightarrow> 's atcab \<Rightarrow> (ATCA_STATUS \<times> u8 list option \<times> 's atcab) run" where
  "atcab_sha_read_context context_size = atcab_sha_base SHA_MODE_READ_CONTEXT 0 None (Some context_size)"

definition atcab_sha_write_context :: "u8 list option \<Rightarrow> u16 \<Rightarrow> 's atcab \<Rightarrow> (ATCA_STATUS \<times> 's atcab) run" where
  "atcab_sha_write_context context context_size st =
     only_status (atcab_sha_base SHA_MODE_WRITE_CONTEXT context_size context None st)"

section \<open>Streaming\<close>

record atca_sha256_ctx =
  ctx_total_msg_size :: u32
  ctx_block_size :: u32
  ctx_block :: "u8 list"

definition ctx_zero :: atca_sha256_ctx where
  "ctx_zero = \<lparr>ctx_total_msg_size = 0, ctx_block_size = 0, ctx_block = replicate 128 0\<rparr>"

definition atcab_hw_sha2_256_init :: "'s atcab \<Rightarrow> (ATCA_STATUS \<times> atca_sha256_ctx \<times> 's atcab) run" where
  "atcab_hw_sha2_256_init st = if_runs (atcab_sha_start st) (\<lambda>(status, st). Some (Inr (status, ctx_zero, st)))"

definition atcab_sha_hmac_init :: "u16 \<Rightarrow> 's atcab \<Rightarrow> (ATCA_STATUS \<times> atca_sha256_ctx \<times> 's atcab) run" where
  "atcab_sha_hmac_init key_slot st =
     if_runs (atcab_sha_base SHA_MODE_HMAC_START key_slot None None st) (\<lambda>(status, _, st). Some (Inr (status, ctx_zero, st)))"

text \<open>
  The loop over the further blocks, and the update, which is the same for both computations but
  for the command that adds a block. Indices and counts are those of the code, 32 bits wide;
  \<open>data_size\<close> is the length of \<open>data\<close>.
\<close>

primrec update_blocks ::
    "(u8 list \<Rightarrow> 's atcab \<Rightarrow> (ATCA_STATUS \<times> 's atcab) run) \<Rightarrow> u8 list \<Rightarrow> u32 \<Rightarrow> nat \<Rightarrow> nat \<Rightarrow> 's atcab \<Rightarrow>
     (ATCA_STATUS \<times> 's atcab) run" where
  "update_blocks add_block data copy_size 0 i st = Some (Inr (ATCA_SUCCESS, st))"
| "update_blocks add_block data copy_size (Suc n) i st =
     if_runs (add_block (drop (unat (copy_size + of_nat i * ATCA_SHA256_BLOCK_SIZE)) data) st) (\<lambda>(status, st).
       if status \<noteq> ATCA_SUCCESS then Some (Inr (status, st))
       else update_blocks add_block data copy_size n (i + 1) st)"

definition ctx_update ::
    "(u8 list \<Rightarrow> 's atcab \<Rightarrow> (ATCA_STATUS \<times> 's atcab) run) \<Rightarrow> atca_sha256_ctx \<Rightarrow> u8 list \<Rightarrow> 's atcab \<Rightarrow>
     (ATCA_STATUS \<times> atca_sha256_ctx \<times> 's atcab) run" where
  "ctx_update add_block ctx data st =
     (let data_size = length data;
          rem_size = ATCA_SHA256_BLOCK_SIZE - ctx_block_size ctx;
          copy_size = (if data_size > unat rem_size then rem_size else of_nat data_size)
      in case put_at (unat (ctx_block_size ctx)) (take (unat copy_size) data) (ctx_block ctx) of
           Inl e \<Rightarrow> Some (Inl e)
         | Inr blk \<Rightarrow>
             let ctx = ctx\<lparr>ctx_block := blk\<rparr>
             in if unat (ctx_block_size ctx) + data_size < 64
                then Some (Inr (ATCA_SUCCESS, ctx\<lparr>ctx_block_size := ctx_block_size ctx + of_nat data_size\<rparr>, st))
                else if_runs (add_block blk st) (\<lambda>(status, st).
                  if status \<noteq> ATCA_SUCCESS then Some (Inr (status, ctx, st))
                  else
                    let data_size = data_size - unat copy_size; block_count = of_nat (data_size div 64) :: u32
                    in if_runs (update_blocks add_block data copy_size (unat block_count) 0 st) (\<lambda>(status, st).
                         if status \<noteq> ATCA_SUCCESS then Some (Inr (status, ctx, st))
                         else
                           let bs = data_size mod 64;
                               tail = drop (unat (copy_size + block_count * ATCA_SHA256_BLOCK_SIZE)) data
                           in needs bs tail (case put_at 0 (take bs tail) blk of
                                Inl e \<Rightarrow> Some (Inl e)
                              | Inr blk \<Rightarrow> Some (Inr (ATCA_SUCCESS,
                                  \<lparr>ctx_total_msg_size = ctx_total_msg_size ctx + (block_count + 1) * ATCA_SHA256_BLOCK_SIZE,
                                   ctx_block_size = of_nat bs, ctx_block = blk\<rparr>, st))))))"

definition atcab_hw_sha2_256_update ::
    "atca_sha256_ctx \<Rightarrow> u8 list \<Rightarrow> 's atcab \<Rightarrow> (ATCA_STATUS \<times> atca_sha256_ctx \<times> 's atcab) run" where
  "atcab_hw_sha2_256_update = ctx_update atcab_sha_update"

definition atcab_sha_hmac_update ::
    "atca_sha256_ctx \<Rightarrow> u8 list \<Rightarrow> 's atcab \<Rightarrow> (ATCA_STATUS \<times> atca_sha256_ctx \<times> 's atcab) run" where
  "atcab_sha_hmac_update =
     ctx_update (\<lambda>blk st. only_status (atcab_sha_base SHA_MODE_HMAC_UPDATE 64 (Some blk) None st))"

text \<open>
  The end. An ATSHA204A only adds blocks: the padding and the length in bits, of which 32 bits
  are kept, are written here.
\<close>

definition pad_block :: "atca_sha256_ctx \<Rightarrow> fault + u8 list \<times> u32" where
  "pad_block ctx =
     (let bs = ctx_block_size ctx;
          bits = (ctx_total_msg_size ctx + bs) * 8;
          zeros = (64 - (bs + 9) mod 64) mod 64;
          n = unat bs; z = unat zeros + 4
      in if_inr (put_at n [0x80] (ctx_block ctx)) (\<lambda>blk.
         if_inr (put_at (n + 1) (replicate z 0) blk) (\<lambda>blk.
         if_inr (put_at (n + 1 + z) (be32 bits) blk) (\<lambda>blk.
           Inr (blk, bs + 1 + (zeros + 4) + 4)))))"

definition atcab_hw_sha2_256_finish ::
    "atca_sha256_ctx \<Rightarrow> 's atcab \<Rightarrow> (ATCA_STATUS \<times> u8 list option \<times> 's atcab) run" where
  "atcab_hw_sha2_256_finish ctx = with_device (\<lambda>dev st.
     if devtype (mIfaceCFG (mIface dev)) = ATSHA204A
     then (case pad_block ctx of
         Inl e \<Rightarrow> Some (Inl e)
       | Inr (blk, bs) \<Rightarrow>
           if_runs (atcab_sha_base SHA_MODE_SHA256_UPDATE 64 (Some blk) (Some 32) st) (\<lambda>(status, digest, st).
             if status \<noteq> ATCA_SUCCESS \<or> \<not> bs > ATCA_SHA256_BLOCK_SIZE then Some (Inr (status, digest, st))
             else if_runs (atcab_sha_base SHA_MODE_SHA256_UPDATE 64 (Some (drop 64 blk)) (Some 32) st) (\<lambda>(status, last, st).
               Some (Inr (status, if last = None then digest else last, st)))))
     else atcab_sha_end (ucast (ctx_block_size ctx)) (Some (ctx_block ctx)) st)"

definition atcab_sha_hmac_finish ::
    "atca_sha256_ctx \<Rightarrow> u8 \<Rightarrow> 's atcab \<Rightarrow> (ATCA_STATUS \<times> u8 list option \<times> 's atcab) run" where
  "atcab_sha_hmac_finish ctx target = with_device (\<lambda>dev st.
     let is_608 = (devtype (mIfaceCFG (mIface dev)) = ATECC608A)
     in if \<not> is_608 \<and> target \<noteq> SHA_MODE_TARGET_TEMPKEY then Some (Inr (ATCA_BAD_PARAM, None, st))
        else atcab_sha_base ((if is_608 then SHA_MODE_608_HMAC_END else SHA_MODE_HMAC_END) OR target)
          (ucast (ctx_block_size ctx)) (Some (ctx_block ctx)) (Some 32) st)"

text \<open>All three steps.\<close>

definition stream ::
    "('s atcab \<Rightarrow> (ATCA_STATUS \<times> atca_sha256_ctx \<times> 's atcab) run) \<Rightarrow>
     (atca_sha256_ctx \<Rightarrow> u8 list \<Rightarrow> 's atcab \<Rightarrow> (ATCA_STATUS \<times> atca_sha256_ctx \<times> 's atcab) run) \<Rightarrow>
     (atca_sha256_ctx \<Rightarrow> 's atcab \<Rightarrow> (ATCA_STATUS \<times> u8 list option \<times> 's atcab) run) \<Rightarrow>
     u8 list \<Rightarrow> 's atcab \<Rightarrow> (ATCA_STATUS \<times> u8 list option \<times> 's atcab) run" where
  "stream start update finish data st =
     if_runs (start st) (\<lambda>(status, ctx, st).
       if status \<noteq> ATCA_SUCCESS then Some (Inr (status, None, st))
       else if_runs (update ctx data st) (\<lambda>(status, ctx, st).
         if status \<noteq> ATCA_SUCCESS then Some (Inr (status, None, st))
         else finish ctx st))"

definition atcab_hw_sha2_256 :: "u8 list \<Rightarrow> 's atcab \<Rightarrow> (ATCA_STATUS \<times> u8 list option \<times> 's atcab) run" where
  "atcab_hw_sha2_256 = stream atcab_hw_sha2_256_init atcab_hw_sha2_256_update atcab_hw_sha2_256_finish"

definition atcab_sha :: "u16 \<Rightarrow> u8 list \<Rightarrow> 's atcab \<Rightarrow> (ATCA_STATUS \<times> u8 list option \<times> 's atcab) run" where
  "atcab_sha len message st = needs (unat len) message (atcab_hw_sha2_256 (take (unat len) message) st)"

definition atcab_sha_hmac ::
    "u8 list \<Rightarrow> u16 \<Rightarrow> u8 \<Rightarrow> 's atcab \<Rightarrow> (ATCA_STATUS \<times> u8 list option \<times> 's atcab) run" where
  "atcab_sha_hmac data key_slot target =
     stream (atcab_sha_hmac_init key_slot) atcab_sha_hmac_update (\<lambda>ctx. atcab_sha_hmac_finish ctx target) data"


section \<open>The command on a chip\<close>

lemma sha_start_chip:
  assumes "chip_ready dt chip st" "mode = SHA_MODE_SHA256_START \<or> mode = SHA_MODE_HMAC_START"
    and "chip ATCA_SHA mode len [] (chip_state st) = (c, dat)" "dat \<noteq> []" "length dat < 128" "mode = SHA_MODE_HMAC_START \<or> len = 0"
  shows "atcab_sha_base mode len None None st =
    Some (Inr (response_status dat, None, st\<lparr>lib := (c, response_frame dat)\<rparr>))"
proof -
  let ?dev = "chip_device dt chip"
  let ?p = "zero_packet\<lparr>param1 := mode, param2 := len\<rparr>"
  let ?P = "?p\<lparr>opcode := ATCA_SHA, rxsize := ATCA_RSP_SIZE_MIN, txsize := ATCA_CMD_SIZE_MIN\<rparr>"
  have mode: "mode AND SHA_MODE_MASK = mode" using assms(2) by (auto simp: command_consts)
  have "\<exists>q. execute (\<lambda>cmd p. atSHA cmd p len) ?p ?dev st =
      Some (Inr (response_status dat, q, st\<lparr>lib := (c, response_frame dat)\<rparr>)) \<and>
    rxsize q = rxsize ?P \<and> pkt_data q ! 0 = of_nat (length dat + 3) \<and> response_data (length dat) q = dat"
  proof (rule chip_command)
    show "atSHA (Some (mCommands ?dev)) ?p len = with_crc ?P"
      using assms(2) by (elim disjE) (simp_all add: atSHA_def Let_def command_consts)
    show "chip_answer chip ?P (chip_state st) = (c, dat)"
      using assms(3) by (simp add: chip_answer_def command_data_def ATCA_CMD_SIZE_MIN_def)
  qed (use assms(4,5) in \<open>simp_all add: wf_packet_def zero_packet_def command_consts\<close>)
  moreover have "copy_in 0 0 [] ?p = ?p" by (simp add: copy_in_def memcpy_at_def)
  ultimately show ?thesis using assms(2,6) unfolding atcab_sha_base_def ready_start(1) [OF assms(1)]
    by (elim disjE) (auto simp: ready_start(2) [OF assms(1)] mode command_consts)
qed

lemma sha_data_chip:
  assumes "chip_ready dt chip st" "mode AND SHA_MODE_MASK = k" "k \<in> {SHA_MODE_SHA256_UPDATE, SHA_MODE_SHA256_END, SHA_MODE_HMAC_END}"
    and "unat len \<le> 64" "unat len \<le> length msg"
    and "chip ATCA_SHA mode len (take (unat len) msg) (chip_state st) = (c, dat)" "dat \<noteq> []" "length dat < 128"
  shows "atcab_sha_base mode len (Some msg) None st = Some (Inr (response_status dat, None, st\<lparr>lib := (c, response_frame dat)\<rparr>))"
    "length dat = 32 \<Longrightarrow> k \<noteq> SHA_MODE_SHA256_UPDATE \<or> dt = ATSHA204A \<Longrightarrow>
      atcab_sha_base mode len (Some msg) (Some 32) st = Some (Inr (ATCA_SUCCESS, Some dat, st\<lparr>lib := (c, response_frame dat)\<rparr>))"
proof -
  let ?dev = "chip_device dt chip"
  define n where "n = unat len"
  have n: "n \<le> 64" "n \<le> length msg" using assms(4,5) by (simp_all add: n_def)
  define p where "p = copy_in 0 n msg (zero_packet\<lparr>param1 := mode, param2 := len\<rparr>)"
  have p: "param1 p = mode" "param2 p = len" "take n (pkt_data p) = take n msg" "wf_packet p"
    using n by (simp_all add: p_def copy_in_def memcpy_at_def wf_packet_def zero_packet_def PACKET_DATA_SIZE_def)
  define rx where "rx = (if k = SHA_MODE_SHA256_UPDATE \<and> dt \<noteq> ATSHA204A then ATCA_RSP_SIZE_MIN else ATCA_RSP_SIZE_32)"
  let ?P = "p\<lparr>opcode := ATCA_SHA, rxsize := rx, txsize := ucast (ucast ATCA_CMD_SIZE_MIN + len)\<rparr>"
  have k: "k = 1 \<or> k = 2 \<or> k = 5" using assms(3) by (simp add: command_consts)
  have "unat (7 + len) = 7 + n" using n(1) unat_plus_simple [of 7 len] by (simp add: n_def unat_word_ariths)
  then have tx: "unat (ucast (ucast ATCA_CMD_SIZE_MIN + len) :: u8) = 7 + n"
    using n(1) by (simp add: ATCA_CMD_SIZE_MIN_def unsigned_ucast_eq take_bit_nat_eq_self)
  have rx_range: "unat rx = 4 \<or> unat rx = 35" by (simp add: rx_def command_consts)
  have build: "atSHA (Some (mCommands ?dev)) p len = with_crc ?P"
    using k by (elim disjE) (simp_all add: atSHA_def Let_def command_consts p assms(2) [unfolded command_consts] rx_def)
  have ans: "chip_answer chip ?P (chip_state st) = (c, dat)"
    using assms(6) p tx by (simp add: chip_answer_def command_data_def n_def)
  have "\<exists>q. execute (\<lambda>cmd p. atSHA cmd p len) p ?dev st = Some (Inr (response_status dat, q, st\<lparr>lib := (c, response_frame dat)\<rparr>)) \<and>
    rxsize q = rxsize ?P \<and> pkt_data q ! 0 = of_nat (length dat + 3) \<and> response_data (length dat) q = dat"
  proof (rule chip_command)
    show "atSHA (Some (mCommands ?dev)) p len = with_crc ?P" by (rule build)
    show "chip_answer chip ?P (chip_state st) = (c, dat)" by (rule ans)
  qed (use p(4) tx n(1) rx_range assms(7,8) in \<open>auto simp: wf_packet_def\<close>)
  then obtain q where q: "execute (\<lambda>cmd p. atSHA cmd p len) p ?dev st = Some (Inr (response_status dat, q, st\<lparr>lib := (c, response_frame dat)\<rparr>))"
    "rxsize q = rx" "pkt_data q ! 0 = of_nat (length dat + 3)" "response_data (length dat) q = dat" by auto
  have modes: "mode AND SHA_MODE_MASK \<noteq> SHA_MODE_SHA256_PUBLIC" "mode AND SHA_MODE_MASK \<noteq> SHA_MODE_HMAC_START"
    unfolding assms(2) using k by (auto simp: command_consts)
  have fits: "\<not> length msg < n" "\<not> length (pkt_data (zero_packet\<lparr>param1 := mode, param2 := len\<rparr>)) < n"
    using n by (simp_all add: zero_packet_def PACKET_DATA_SIZE_def)
  have base: "atcab_sha_base mode len (Some msg) out st =
      (case out of
        None \<Rightarrow> Some (Inr (response_status dat, None, st\<lparr>lib := (c, response_frame dat)\<rparr>))
      | Some sz \<Rightarrow>
          if response_status dat \<noteq> ATCA_SUCCESS \<or> rxsize q \<le> 4 then Some (Inr (response_status dat, None, st\<lparr>lib := (c, response_frame dat)\<rparr>))
          else if uint (pkt_data q ! 0) - 3 > uint sz then Some (Inr (ATCA_SMALL_BUFFER, None, st\<lparr>lib := (c, response_frame dat)\<rparr>))
          else
            let n = unat (ucast (pkt_data q ! 0) - ATCA_PACKET_OVERHEAD)
            in needs (1 + n) (pkt_data q) (Some (Inr (response_status dat, Some (response_data n q), st\<lparr>lib := (c, response_frame dat)\<rparr>))))" for out
    unfolding atcab_sha_base_def ready_start(1) [OF assms(1)]
    using fits modes q(1) by (simp add: ready_start(2) [OF assms(1)] n_def [symmetric] p_def [symmetric])
  show "atcab_sha_base mode len (Some msg) None st = Some (Inr (response_status dat, None, st\<lparr>lib := (c, response_frame dat)\<rparr>))"
    by (simp add: base)
  assume d: "length dat = 32" and r: "k \<noteq> SHA_MODE_SHA256_UPDATE \<or> dt = ATSHA204A"
  have count: "pkt_data q ! 0 = 35" using q(3) d by simp
  have rxq: "\<not> rxsize q \<le> 4" using r by (auto simp: q(2) rx_def command_consts)
  have room: "33 \<le> length (pkt_data q)" using arg_cong [OF q(4), of length] d by (simp add: response_data_def min_def split: if_splits)
  show "atcab_sha_base mode len (Some msg) (Some 32) st = Some (Inr (ATCA_SUCCESS, Some dat, st\<lparr>lib := (c, response_frame dat)\<rparr>))"
    using rxq room q(4) d response_status_cases(1) [of dat]
    by (simp add: base count needs_def ATCA_PACKET_OVERHEAD_def)
qed

end
