(* ===== verification/AtcaShaFacts.thy ===== *)
theory AtcaShaFacts
  imports AtcaSha
begin

text \<open>
  Messages in pieces on a chip that adds up blocks: what a context of \<open>atca_basic_sha.c\<close> stands
  for, and that a whole computation delivers what the chip computes of the whole message.
\<close>

section \<open>Engines that add blocks\<close>

text \<open>
  What the streaming functions rely on: after a block has been added, the engine has taken in
  its message and this block. The interpretations are the commands of the chip.
\<close>

locale block_engine =
  fixes add_block :: "u8 list \<Rightarrow> 's atcab \<Rightarrow> (ATCA_STATUS \<times> 's atcab) run"
    and took :: "u8 list \<Rightarrow> 's atcab \<Rightarrow> bool"
  assumes adds: "took m st \<Longrightarrow> 64 \<le> length blk \<Longrightarrow>
    \<exists>st'. add_block blk st = Some (Inr (ATCA_SUCCESS, st')) \<and> took (m @ take 64 blk) st'"
begin

definition holds :: "atca_sha256_ctx \<Rightarrow> 's atcab \<Rightarrow> u8 list \<Rightarrow> bool" where
  "holds ctx st m \<longleftrightarrow> took (whole m) st \<and> unat (ctx_block_size ctx) = length m mod 64 \<and>
     length (ctx_block ctx) = 128 \<and> take (length m mod 64) (ctx_block ctx) = rest m \<and>
     ctx_total_msg_size ctx = of_nat (length (whole m))"

lemma holds_zero: "took [] st \<Longrightarrow> holds ctx_zero st []"
  by (simp add: holds_def ctx_zero_def whole_def rest_def)

lemma update_blocks_took:
  assumes "took m st" "unat copy + 64 * (i + n) \<le> length data" "length data < 2 ^ 32"
  shows "\<exists>st'. update_blocks add_block data copy n i st = Some (Inr (ATCA_SUCCESS, st')) \<and>
    took (m @ take (64 * n) (drop (unat copy + 64 * i) data)) st'"
  using assms
proof (induction n arbitrary: i m st)
  case 0
  then show ?case by simp
next
  case (Suc n)
  let ?j = "unat copy + 64 * i"
  have "unat copy + i * 64 < 2 ^ 32" using Suc.prems(2,3) by simp
  then have "unat (copy + of_nat i * ATCA_SHA256_BLOCK_SIZE) = ?j"
    using unat_word32 [of "unat copy + i * 64"]
    by (simp add: ATCA_SHA256_BLOCK_SIZE_def ac_simps)
  moreover have "64 \<le> length (drop ?j data)" using Suc.prems(2) by simp
  from adds [OF Suc.prems(1) this] obtain s where s: "add_block (drop ?j data) st = Some (Inr (ATCA_SUCCESS, s))"
    "took (m @ take 64 (drop ?j data)) s" by blast
  moreover have "unat copy + 64 * (i + 1 + n) \<le> length data" using Suc.prems(2) by simp
  from Suc.IH [OF s(2) this Suc.prems(3)]
  obtain s' where "update_blocks add_block data copy n (i + 1) s = Some (Inr (ATCA_SUCCESS, s'))"
    "took ((m @ take 64 (drop ?j data)) @ take (64 * n) (drop (unat copy + 64 * (i + 1)) data)) s'" by blast
  moreover have "take (64 * Suc n) (drop ?j data) = take 64 (drop ?j data) @ take (64 * n) (drop (unat copy + 64 * (i + 1)) data)"
    using take_add [of 64 "64 * n" "drop ?j data"] by (simp add: ac_simps)
  ultimately show ?case by simp
qed

lemma update_holds:
  assumes "holds ctx st m" "length data < 2 ^ 32"
  shows "\<exists>ctx' st'. ctx_update add_block ctx data st = Some (Inr (ATCA_SUCCESS, ctx', st')) \<and> holds ctx' st' (m @ data)"
proof -
  define k where "k = length m mod 64"
  have k: "k < 64" "unat (ctx_block_size ctx) = k" "length (rest m) = k" "length (whole m) mod 64 = 0"
    and blk: "length (ctx_block ctx) = 128" "take k (ctx_block ctx) = rest m"
    using assms(1) by (simp_all add: holds_def k_def whole_rest)
  have rem: "unat (ATCA_SHA256_BLOCK_SIZE - ctx_block_size ctx) = 64 - k"
    using k(1,2) by (simp add: ATCA_SHA256_BLOCK_SIZE_def unat_sub word_le_nat_alt)
  define cp where "cp = (if length data > unat (ATCA_SHA256_BLOCK_SIZE - ctx_block_size ctx)
    then ATCA_SHA256_BLOCK_SIZE - ctx_block_size ctx else of_nat (length data))"
  define c where "c = min (length data) (64 - k)"
  have copy: "unat cp = c"
    using assms(2) by (simp add: cp_def rem c_def unat_word32)
  define bk where "bk = memcpy_at k (take c data) (ctx_block ctx)"
  have put: "put_at k (take c data) (ctx_block ctx) = Inr bk"
    using k(1) blk(1) by (auto simp: put_at_def bk_def c_def min_def)
  have blk': "length bk = 128" "take (k + c) bk = rest m @ take c data"
    using k(1,3) blk by (simp_all add: bk_def memcpy_at_def c_def)
  show ?thesis
  proof (cases "k + length data < 64")
    case True
    then have c: "c = length data" by (simp add: c_def)
    have u: "whole (m @ data) = whole m" "rest (m @ data) = rest m @ data"
      using whole_unique [of "m @ data" "whole m" "rest m @ data"] True k whole_rest(1) [of m]
      by (simp_all flip: append_assoc)
    have l: "length (m @ data) mod 64 = k + length data" using arg_cong [OF u(2), of length] by (simp add: whole_rest k_def)
    have "unat (ctx_block_size ctx + of_nat (length data)) = k + length data"
      using True k(2) assms(2) by (simp add: unat_word_ariths unat_word32)
    then have "holds (ctx\<lparr>ctx_block := bk, ctx_block_size := ctx_block_size ctx + of_nat (length data)\<rparr>) st (m @ data)"
      using assms(1) blk' l unfolding holds_def u by (simp add: c)
    moreover have "ctx_update add_block ctx data st =
      Some (Inr (ATCA_SUCCESS, ctx\<lparr>ctx_block := bk, ctx_block_size := ctx_block_size ctx + of_nat (length data)\<rparr>, st))"
      unfolding ctx_update_def Let_def cp_def [symmetric] using True by (simp add: copy k(2) put)
    ultimately show ?thesis by blast
  next
    case False
    then have c: "c = 64 - k" "c \<le> length data" by (simp_all add: c_def)
    define b where "b = (length data - c) div 64"
    define r where "r = (length data - c) mod 64"
    have br: "length data = c + 64 * b + r" "r < 64" using c(2) by (simp_all add: b_def r_def)
    have b32: "b < 2 ^ 32" using br(1) assms(2) by simp
    have "64 \<le> length bk" by (simp add: blk'(1))
    from adds [OF _ this] assms(1) obtain s where s: "add_block bk st = Some (Inr (ATCA_SUCCESS, s))"
      "took (whole m @ rest m @ take c data) s"
      using blk'(2) c(1) k(1) unfolding holds_def by force
    have "unat cp + 64 * (0 + b) \<le> length data" by (simp add: copy br(1))
    from update_blocks_took [OF s(2) this assms(2)]
    obtain s' where s': "update_blocks add_block data cp b 0 s = Some (Inr (ATCA_SUCCESS, s'))"
      "took ((whole m @ rest m @ take c data) @ take (64 * b) (drop c data)) s'" by (auto simp: copy)
    let ?w = "(whole m @ rest m @ take c data) @ take (64 * b) (drop c data)"
    let ?r = "drop (c + 64 * b) data"
    have wr: "m @ data = ?w @ ?r"
    proof -
      have "data = take c data @ take (64 * b) (drop c data) @ ?r"
        by (metis append_take_drop_id drop_drop add.commute)
      with whole_rest(1) [of m] show ?thesis by (metis append.assoc)
    qed
    have lens: "length ?w = length (whole m) + 64 + 64 * b" "length ?r = r" using br c(1) k(1,3) by simp_all
    have "length ?w mod 64 = 0" unfolding lens(1) using k(4) by presburger
    then have u: "whole (m @ data) = ?w" "rest (m @ data) = ?r"
      using whole_unique [OF wr] br(2) lens(2) by simp_all
    have l: "length (m @ data) mod 64 = r" using arg_cong [OF u(2), of length] lens(2) by (simp add: whole_rest)
    have "cp = of_nat c" by (simp add: copy [symmetric])
    then have "cp + of_nat b * ATCA_SHA256_BLOCK_SIZE = of_nat (c + b * 64)" by (simp add: ATCA_SHA256_BLOCK_SIZE_def)
    then have at: "unat (cp + of_nat b * ATCA_SHA256_BLOCK_SIZE) = c + 64 * b"
      using unat_word32 [of "c + b * 64"] br(1) assms(2) by simp
    have put2: "put_at 0 ?r bk = Inr (memcpy_at 0 ?r bk)" using br(2) lens(2) blk'(1) by (simp add: put_at_def)
    let ?ctx = "\<lparr>ctx_total_msg_size = ctx_total_msg_size ctx + (of_nat b + 1) * ATCA_SHA256_BLOCK_SIZE,
      ctx_block_size = of_nat r, ctx_block = memcpy_at 0 ?r bk\<rparr>"
    have "holds ?ctx s' (m @ data)" unfolding holds_def u l
      using s'(2) assms(1) br(2) lens blk'(1)
      by (simp add: holds_def unat_word32 memcpy_at_def ATCA_SHA256_BLOCK_SIZE_def algebra_simps)
    moreover have "ctx_update add_block ctx data st = Some (Inr (ATCA_SUCCESS, ?ctx, s'))"
      unfolding ctx_update_def Let_def cp_def [symmetric] using False s s' lens(2)
      by (simp add: copy k(2) put b_def [symmetric] r_def [symmetric] unat_word32 [OF b32] at needs_def put2)
    ultimately show ?thesis by blast
  qed
qed

lemma stream_computes:
  assumes "start st = Some (Inr (ATCA_SUCCESS, ctx_zero, s0))" "took [] s0" "length data < 2 ^ 32"
    and "\<And>ctx s. holds ctx s data \<Longrightarrow> \<exists>s'. finish ctx s = Some (Inr (ATCA_SUCCESS, Some d, s')) \<and> P s'"
  shows "\<exists>s'. stream start (ctx_update add_block) finish data st = Some (Inr (ATCA_SUCCESS, Some d, s')) \<and> P s'"
  using update_holds [OF holds_zero [OF assms(2)] assms(3)] assms(1,4) by (auto simp: stream_def)

end

section \<open>Chips that hash\<close>

text \<open>
  A chip with the commands of the ATECC508A and ATECC608A: it keeps the key slot of an HMAC and
  the message so far, and answers the end of the message with a function \<open>F\<close> of both; an HMAC
  ends with a mode of its own, except on an ATECC608A. The
  ATSHA204A answers every block with the hash value \<open>G\<close> of the blocks so far.
\<close>

definition sha_end :: "ATCADeviceType \<Rightarrow> u16 option \<Rightarrow> u8" where
  "sha_end dt key = (if key \<noteq> None \<and> dt \<noteq> ATECC608A then SHA_MODE_HMAC_END else SHA_MODE_SHA256_END)"

definition hash_chip :: "ATCADeviceType \<Rightarrow> (u16 option \<Rightarrow> u8 list \<Rightarrow> u8 list) \<Rightarrow> (u16 option \<times> u8 list) chip" where
  "hash_chip dt F opc mode p2 dat = (\<lambda>(key, msg).
     let k = mode AND SHA_MODE_MASK
     in if opc \<noteq> ATCA_SHA then ((key, msg), [3])
        else if k = SHA_MODE_SHA256_START then ((None, []), [0])
        else if k = SHA_MODE_HMAC_START then ((Some p2, []), [0])
        else if k = SHA_MODE_SHA256_UPDATE then ((key, msg @ dat), [0])
        else if k = sha_end dt key then ((key, msg @ dat), F key (msg @ dat))
        else ((key, msg), [3]))"

definition digest_chip :: "(u8 list \<Rightarrow> u8 list) \<Rightarrow> (u16 option \<times> u8 list) chip" where
  "digest_chip G opc mode p2 dat = (\<lambda>(key, msg).
     if opc \<noteq> ATCA_SHA then ((key, msg), [3])
     else if mode = SHA_MODE_SHA256_START then ((None, []), [0])
     else if mode = SHA_MODE_SHA256_UPDATE then ((key, msg @ dat), G (msg @ dat))
     else ((key, msg), [3]))"

definition took_in ::
    "ATCADeviceType \<Rightarrow> (u16 option \<times> u8 list) chip \<Rightarrow> u16 option \<Rightarrow> u8 list \<Rightarrow>
     ((u16 option \<times> u8 list) \<times> u8 list) atcab \<Rightarrow> bool" where
  "took_in dt chip key m st \<longleftrightarrow> chip_ready dt chip st \<and> chip_state st = (key, m)"

lemma hash_chip_adds:
  assumes "took_in dt (hash_chip dt F) key m st" "64 \<le> length blk"
  shows "\<exists>st'. atcab_sha_base SHA_MODE_SHA256_UPDATE 64 (Some blk) None st = Some (Inr (ATCA_SUCCESS, None, st')) \<and>
    took_in dt (hash_chip dt F) key (m @ take 64 blk) st'"
proof -
  have "hash_chip dt F ATCA_SHA SHA_MODE_SHA256_UPDATE 64 (take (unat (64 :: u16)) blk) (chip_state st) = ((key, m @ take 64 blk), [0])"
    using assms(1) by (simp add: hash_chip_def took_in_def command_consts)
  then show ?thesis
    using assms sha_data_chip(1) [of dt "hash_chip dt F" st SHA_MODE_SHA256_UPDATE SHA_MODE_SHA256_UPDATE 64 blk "(key, m @ take 64 blk)" "[0]"]
    by (simp add: took_in_def command_consts response_status_cases chip_state_def)
qed

lemma digest_chip_adds:
  assumes "took_in ATSHA204A (digest_chip G) key m st" "64 \<le> length blk" "\<And>m. length (G m) = 32"
  shows "\<exists>st'. atcab_sha_base SHA_MODE_SHA256_UPDATE 64 (Some blk) None st = Some (Inr (ATCA_SUCCESS, None, st')) \<and>
      took_in ATSHA204A (digest_chip G) key (m @ take 64 blk) st'"
    "\<exists>st'. atcab_sha_base SHA_MODE_SHA256_UPDATE 64 (Some blk) (Some 32) st =
        Some (Inr (ATCA_SUCCESS, Some (G (m @ take 64 blk)), st')) \<and>
      took_in ATSHA204A (digest_chip G) key (m @ take 64 blk) st'"
proof -
  have chip: "digest_chip G ATCA_SHA SHA_MODE_SHA256_UPDATE 64 (take (unat (64 :: u16)) blk) (chip_state st) =
      ((key, m @ take 64 blk), G (m @ take 64 blk))"
    using assms(1) by (simp add: digest_chip_def took_in_def command_consts)
  have g: "G (m @ take 64 blk) \<noteq> []" using assms(3) [of "m @ take 64 blk"] by auto
  have st: "response_status (G (m @ take 64 blk)) = ATCA_SUCCESS" by (simp add: response_status_cases assms(3))
  note run = sha_data_chip [of ATSHA204A "digest_chip G" st SHA_MODE_SHA256_UPDATE SHA_MODE_SHA256_UPDATE 64 blk
    "(key, m @ take 64 blk)" "G (m @ take 64 blk)"]
  show "\<exists>st'. atcab_sha_base SHA_MODE_SHA256_UPDATE 64 (Some blk) None st = Some (Inr (ATCA_SUCCESS, None, st')) \<and>
      took_in ATSHA204A (digest_chip G) key (m @ take 64 blk) st'"
    using run(1) assms chip g st by (simp add: took_in_def command_consts chip_state_def)
  show "\<exists>st'. atcab_sha_base SHA_MODE_SHA256_UPDATE 64 (Some blk) (Some 32) st =
        Some (Inr (ATCA_SUCCESS, Some (G (m @ take 64 blk)), st')) \<and>
      took_in ATSHA204A (digest_chip G) key (m @ take 64 blk) st'"
    using run(2) assms chip g by (simp add: took_in_def command_consts chip_state_def)
qed

interpretation sha_engine: block_engine atcab_sha_update "took_in dt (hash_chip dt F) None" for dt F
  by unfold_locales (use hash_chip_adds in \<open>fastforce simp: atcab_sha_update_def only_status_def\<close>)

interpretation hmac_engine:
  block_engine "\<lambda>blk st. only_status (atcab_sha_base SHA_MODE_HMAC_UPDATE 64 (Some blk) None st)"
    "took_in dt (hash_chip dt F) (Some slot)" for dt F slot
proof unfold_locales
  have "SHA_MODE_HMAC_UPDATE = SHA_MODE_SHA256_UPDATE" by (simp add: SHA_MODE_HMAC_UPDATE_def command_consts)
  then show "took_in dt (hash_chip dt F) (Some slot) m st \<Longrightarrow> 64 \<le> length blk \<Longrightarrow>
      \<exists>st'. only_status (atcab_sha_base SHA_MODE_HMAC_UPDATE 64 (Some blk) None st) = Some (Inr (ATCA_SUCCESS, st')) \<and>
        took_in dt (hash_chip dt F) (Some slot) (m @ take 64 blk) st'" for m st blk
    using hash_chip_adds [of dt F "Some slot" m st blk] by (auto simp: only_status_def)
qed

interpretation digest_engine: block_engine atcab_sha_update
    "\<lambda>m st. took_in ATSHA204A (digest_chip G) None m st \<and> (\<forall>m. length (G m) = 32)" for G
  by unfold_locales (use digest_chip_adds(1) in \<open>fastforce simp: atcab_sha_update_def only_status_def\<close>)

section \<open>Whole computations\<close>

lemma sha_starts:
  assumes "chip_ready dt chip st" "chip ATCA_SHA SHA_MODE_SHA256_START 0 [] (chip_state st) = ((None, []), [0])"
  shows "\<exists>s. atcab_hw_sha2_256_init st = Some (Inr (ATCA_SUCCESS, ctx_zero, s)) \<and> took_in dt chip None [] s"
  using sha_start_chip [OF assms(1) _ assms(2)] assms(1)
  by (simp add: atcab_hw_sha2_256_init_def atcab_sha_start_def only_status_def took_in_def response_status_cases)

lemma hash_chip_ends:
  assumes "took_in dt (hash_chip dt F) key (whole m) st" "mode AND SHA_MODE_MASK = sha_end dt key"
    and "length (F key m) = 32" "unat (ctx_block_size ctx) = length m mod 64" "length (ctx_block ctx) = 128"
    and "take (length m mod 64) (ctx_block ctx) = rest m"
  shows "\<exists>s'. atcab_sha_base mode (ucast (ctx_block_size ctx)) (Some (ctx_block ctx)) (Some 32) st =
      Some (Inr (ATCA_SUCCESS, Some (F key m), s')) \<and> chip_ready dt (hash_chip dt F) s'"
proof -
  have n: "unat (ucast (ctx_block_size ctx) :: u16) = length m mod 64"
    by (simp add: unsigned_ucast_eq take_bit_nat_eq_self assms(4) order_less_trans [of _ 64])
  have g: "F key m \<noteq> []" using assms(3) by auto
  have "hash_chip dt F ATCA_SHA mode (ucast (ctx_block_size ctx)) (take (unat (ucast (ctx_block_size ctx) :: u16)) (ctx_block ctx)) (chip_state st) =
      ((key, m), F key m)"
    using assms(1,2) unfolding n assms(6) by (auto simp: hash_chip_def sha_end_def took_in_def Let_def whole_rest(1) command_consts)
  moreover have "mode AND SHA_MODE_MASK \<in> {SHA_MODE_SHA256_UPDATE, SHA_MODE_SHA256_END, SHA_MODE_HMAC_END}"
    "mode AND SHA_MODE_MASK \<noteq> SHA_MODE_SHA256_UPDATE"
    unfolding assms(2) by (simp_all add: sha_end_def command_consts)
  moreover have "unat (ucast (ctx_block_size ctx) :: u16) \<le> 64" using n by simp
  ultimately show ?thesis
    using assms(1,3,5) g n sha_data_chip(2) [of dt "hash_chip dt F" st mode "mode AND SHA_MODE_MASK" "ucast (ctx_block_size ctx)"
        "ctx_block ctx" "(key, m)" "F key m"]
    by (simp add: took_in_def)
qed

lemma hash_computed:
  assumes "chip_ready dt (hash_chip dt F) st" "dt \<noteq> ATSHA204A" "length (F None data) = 32" "length data < 2 ^ 32"
  shows "\<exists>st'. atcab_hw_sha2_256 data st = Some (Inr (ATCA_SUCCESS, Some (F None data), st')) \<and> chip_ready dt (hash_chip dt F) st'"
proof -
  obtain s0 where s0: "atcab_hw_sha2_256_init st = Some (Inr (ATCA_SUCCESS, ctx_zero, s0))" "took_in dt (hash_chip dt F) None [] s0"
    using sha_starts [OF assms(1)] by (auto simp: hash_chip_def command_consts split: prod.splits)
  show ?thesis unfolding atcab_hw_sha2_256_def atcab_hw_sha2_256_update_def
  proof (rule sha_engine.stream_computes [where start = atcab_hw_sha2_256_init and st = st, OF s0 assms(4)])
    fix ctx s assume "block_engine.holds (took_in dt (hash_chip dt F) None) ctx s data"
    then have h: "took_in dt (hash_chip dt F) None (whole data) s" "unat (ctx_block_size ctx) = length data mod 64"
      "length (ctx_block ctx) = 128" "take (length data mod 64) (ctx_block ctx) = rest data"
      by (simp_all add: sha_engine.holds_def)
    have r: "chip_ready dt (hash_chip dt F) s" using h(1) by (simp add: took_in_def)
    show "\<exists>s'. atcab_hw_sha2_256_finish ctx s = Some (Inr (ATCA_SUCCESS, Some (F None data), s')) \<and> chip_ready dt (hash_chip dt F) s'"
      using hash_chip_ends [OF h(1) _ assms(3) h(2-4), of SHA_MODE_SHA256_END] assms(2)
      by (simp add: atcab_hw_sha2_256_finish_def ready_start(1) [OF r] atcab_sha_end_def sha_end_def command_consts)
  qed
qed

lemma hmac_computed:
  assumes "chip_ready dt (hash_chip dt F) st" "length (F (Some slot) data) = 32" "length data < 2 ^ 32"
    and "if dt = ATECC608A then target AND SHA_MODE_MASK = 0 else target = SHA_MODE_TARGET_TEMPKEY"
  shows "\<exists>st'. atcab_sha_hmac data slot target st = Some (Inr (ATCA_SUCCESS, Some (F (Some slot) data), st')) \<and>
    chip_ready dt (hash_chip dt F) st'"
proof -
  have "\<exists>s0. atcab_sha_hmac_init slot st = Some (Inr (ATCA_SUCCESS, ctx_zero, s0)) \<and> took_in dt (hash_chip dt F) (Some slot) [] s0"
    using sha_start_chip [OF assms(1), of SHA_MODE_HMAC_START slot "(Some slot, [])" "[0]"] assms(1)
    by (simp add: atcab_sha_hmac_init_def took_in_def response_status_cases hash_chip_def command_consts split_beta)
  then obtain s0 where s0: "atcab_sha_hmac_init slot st = Some (Inr (ATCA_SUCCESS, ctx_zero, s0))"
    "took_in dt (hash_chip dt F) (Some slot) [] s0" by blast
  show ?thesis unfolding atcab_sha_hmac_def atcab_sha_hmac_update_def
  proof (rule hmac_engine.stream_computes [where start = "atcab_sha_hmac_init slot" and st = st, OF s0 assms(3)])
    fix ctx s assume "block_engine.holds (took_in dt (hash_chip dt F) (Some slot)) ctx s data"
    then have h: "took_in dt (hash_chip dt F) (Some slot) (whole data) s" "unat (ctx_block_size ctx) = length data mod 64"
      "length (ctx_block ctx) = 128" "take (length data mod 64) (ctx_block ctx) = rest data"
      by (simp_all add: hmac_engine.holds_def)
    have r: "chip_ready dt (hash_chip dt F) s" using h(1) by (simp add: took_in_def)
    have "(SHA_MODE_608_HMAC_END OR target) AND SHA_MODE_MASK = SHA_MODE_SHA256_END" if "target AND SHA_MODE_MASK = 0"
      using that by (simp add: bit.conj_disj_distrib2 SHA_MODE_608_HMAC_END_def command_consts)
    then show "\<exists>s'. atcab_sha_hmac_finish ctx target s = Some (Inr (ATCA_SUCCESS, Some (F (Some slot) data), s')) \<and>
        chip_ready dt (hash_chip dt F) s'"
      using hash_chip_ends [OF h(1) _ assms(2) h(2-4)] assms(4)
      by (auto simp: atcab_sha_hmac_finish_def ready_start(1) [OF r] SHA_MODE_TARGET_TEMPKEY_def sha_end_def command_consts split: if_splits)
  qed
qed

text \<open>The ATSHA204A, to which the padding is sent as one or two more blocks.\<close>

lemma digest_computed:
  assumes "chip_ready ATSHA204A (digest_chip G) st" "\<And>m. length (G m) = 32" "length data < 2 ^ 29"
  shows "\<exists>st'. atcab_hw_sha2_256 data st = Some (Inr (ATCA_SUCCESS, Some (G (md_pad data)), st')) \<and>
    chip_ready ATSHA204A (digest_chip G) st'"
proof -
  obtain s0 where s0: "atcab_hw_sha2_256_init st = Some (Inr (ATCA_SUCCESS, ctx_zero, s0))"
    "took_in ATSHA204A (digest_chip G) None [] s0 \<and> (\<forall>m. length (G m) = 32)"
    using sha_starts [OF assms(1)] assms(2) by (auto simp: digest_chip_def command_consts split: prod.splits)
  have small: "length data < 2 ^ 32" using assms(3) by simp
  show ?thesis unfolding atcab_hw_sha2_256_def atcab_hw_sha2_256_update_def
  proof (rule digest_engine.stream_computes [where start = atcab_hw_sha2_256_init and st = st and G = G, OF s0 small])
    fix ctx s
    assume "block_engine.holds (\<lambda>m st. took_in ATSHA204A (digest_chip G) None m st \<and> (\<forall>m. length (G m) = 32)) ctx s data"
    then have h: "took_in ATSHA204A (digest_chip G) None (whole data) s" "unat (ctx_block_size ctx) = length data mod 64"
      "length (ctx_block ctx) = 128" "take (length data mod 64) (ctx_block ctx) = rest data"
      "ctx_total_msg_size ctx = of_nat (length (whole data))"
      by (simp_all add: digest_engine.holds_def)
    define b where "b = length data mod 64"
    have b: "b < 64" "ctx_block_size ctx = of_nat b" by (simp_all add: b_def h(2) [symmetric] del: h(2)) (simp_all add: h(2))
    obtain b1 b2 b3 where w: "put_at b [0x80] (ctx_block ctx) = Inr b1"
      "put_at (b + 1) (replicate ((119 - b) mod 64 + 4) 0) b1 = Inr b2"
      "put_at (b + 1 + ((119 - b) mod 64 + 4)) (be32 (of_nat (8 * length data))) b2 = Inr b3" "length b3 = 128"
      "take (if b < 56 then 64 else 128) b3 = rest data @ padding (length data)"
      using pad_writes [OF h(3,4) assms(3)] unfolding b_def by blast
    have "ctx_total_msg_size ctx + of_nat b = of_nat (length (whole data) + b)" by (simp add: h(5))
    then have tot: "(ctx_total_msg_size ctx + of_nat b) * 8 = of_nat (8 * length data)"
      by (simp add: whole_rest(2) b_def)
    have z: "unat (of_nat ((119 - b) mod 64) :: u32) = (119 - b) mod 64"
      by (rule unat_word32) (simp add: order_less_trans [of _ 64])
    have pad: "pad_block ctx = Inr (b3, of_nat (if b < 56 then 64 else 128))"
      using pad_numbers [OF b(2,1)] w tot z unfolding pad_block_def Let_def b(2) SHA256_BLOCK_SIZE_def
      by (simp only: if_inr_simps)
    have md: "md_pad data = whole data @ take (if b < 56 then 64 else 128) b3" by (simp only: w(5) md_pad_split)
    have r: "chip_ready ATSHA204A (digest_chip G) s" using h(1) by (simp add: took_in_def)
    obtain s1 where s1: "atcab_sha_base SHA_MODE_SHA256_UPDATE 64 (Some b3) (Some 32) s =
        Some (Inr (ATCA_SUCCESS, Some (G (whole data @ take 64 b3)), s1))"
      "took_in ATSHA204A (digest_chip G) None (whole data @ take 64 b3) s1"
      using digest_chip_adds(2) [OF h(1) _ assms(2), of b3] w(4) by auto
    show "\<exists>s'. atcab_hw_sha2_256_finish ctx s = Some (Inr (ATCA_SUCCESS, Some (G (md_pad data)), s')) \<and>
        chip_ready ATSHA204A (digest_chip G) s'"
    proof (cases "b < 56")
      case True
      then show ?thesis using s1 md
        by (simp add: atcab_hw_sha2_256_finish_def ready_start(1) [OF r] pad ATCA_SHA256_BLOCK_SIZE_def took_in_def)
    next
      case False
      have "64 \<le> length (drop 64 b3)" using w(4) by simp
      from digest_chip_adds(2) [OF s1(2) this assms(2)] obtain s2 where
        s2: "atcab_sha_base SHA_MODE_SHA256_UPDATE 64 (Some (drop 64 b3)) (Some 32) s1 =
            Some (Inr (ATCA_SUCCESS, Some (G ((whole data @ take 64 b3) @ take 64 (drop 64 b3))), s2))"
          "took_in ATSHA204A (digest_chip G) None ((whole data @ take 64 b3) @ take 64 (drop 64 b3)) s2" by blast
      have "md_pad data = (whole data @ take 64 b3) @ take 64 (drop 64 b3)"
        using False md take_add [of 64 64 b3] by simp
      then show ?thesis using s1 s2 False
        by (simp add: atcab_hw_sha2_256_finish_def ready_start(1) [OF r] pad ATCA_SHA256_BLOCK_SIZE_def took_in_def)
    qed
  qed
qed

section \<open>Properties\<close>

text \<open>A chip of each kind that computes SHA-256; what else it does is \<open>F\<close>.\<close>

definition sha_chip :: "ATCADeviceType \<Rightarrow> (u16 option \<Rightarrow> u8 list \<Rightarrow> u8 list) \<Rightarrow> (u16 option \<times> u8 list) chip" where
  "sha_chip dt F =
     (if dt = ATSHA204A then digest_chip (\<lambda>bs. concat (map be32 (run_blocks fips_compress fips_H0 bs)))
      else hash_chip dt (F(None := fips_sha256)))"

lemma length_digest: "length (concat (map be32 (run_blocks fips_compress fips_H0 bs))) = 32"
proof -
  have "length (concat (map be32 h)) = 4 * length h" for h by (induction h) simp_all
  then show ?thesis using length_run_blocks [OF length_fips_H0] by simp
qed

text \<open>
  C24: Hashing on the chip is SHA-256 of FIPS 180-4 for every message below 2^29 bytes, on every
  kind of chip: the library streams whole blocks and the rest to a chip that pads itself, and
  pads the message itself, in one or two more blocks, for the ATSHA204A, which does not.
\<close>

theorem hw_sha2_256_is_fips:
  assumes "chip_ready dt (sha_chip dt F) st" "length data < 2 ^ 29"
  shows "\<exists>st'. atcab_hw_sha2_256 data st = Some (Inr (ATCA_SUCCESS, Some (fips_sha256 data), st')) \<and>
    chip_ready dt (sha_chip dt F) st'"
proof (cases "dt = ATSHA204A")
  case True
  then show ?thesis using digest_computed [of _ st data, OF _ length_digest assms(2)] assms(1)
    by (simp add: sha_chip_def fips_sha256_def)
next
  case False
  have "length data < 2 ^ 32" using assms(2) by simp
  then show ?thesis using hash_computed [of dt "F(None := fips_sha256)" st data] assms(1) False length_digest
    by (simp add: sha_chip_def fips_sha256_def)
qed

theorem hw_sha2_256_is_fips_witness:
  "\<exists>st'. atcab_hw_sha2_256 (replicate 100 7) (chip_lib ATSHA204A (sha_chip ATSHA204A (\<lambda>_ _. [])) (None, [])) =
    Some (Inr (ATCA_SUCCESS, Some (fips_sha256 (replicate 100 7)), st'))"
  using hw_sha2_256_is_fips [where data = "replicate 100 7" and dt = ATSHA204A and F = "\<lambda>_ _. []",
      OF chip_lib_ready(1) [where c = "(None, [])"]] by auto

text \<open>
  C25: An HMAC with the key in a slot of the chip is what the chip computes of the key and the whole
  message, whatever its length, with the codes that each kind of chip wants for the end of the
  message and the target of the result.
\<close>

theorem sha_hmac_of_message:
  assumes "chip_ready dt (hash_chip dt F) st" "length (F (Some slot) data) = 32" "length data < 2 ^ 32"
    and "if dt = ATECC608A then target AND SHA_MODE_MASK = 0 else target = SHA_MODE_TARGET_TEMPKEY"
  shows "\<exists>st'. atcab_sha_hmac data slot target st = Some (Inr (ATCA_SUCCESS, Some (F (Some slot) data), st')) \<and>
    chip_ready dt (hash_chip dt F) st'"
  by (rule hmac_computed [OF assms])

theorem sha_hmac_of_message_witness:
  "\<exists>st'. atcab_sha_hmac [1, 2, 3] 4 0xC0 (chip_lib ATECC608A (hash_chip ATECC608A (\<lambda>k m. replicate 32 (of_nat (length m)))) (None, [])) =
    Some (Inr (ATCA_SUCCESS, Some (replicate 32 3), st'))"
  using sha_hmac_of_message [where slot = 4 and data = "[1, 2, 3]" and target = "0xC0",
      OF chip_lib_ready(1) [where dt = ATECC608A and chip = "hash_chip ATECC608A (\<lambda>k m. replicate 32 (of_nat (length m)))" and c = "(None, [])"]]
  by (auto simp: command_consts)

end
