(* ===== verification/AtcaAes.thy ===== *)
theory AtcaAes
  imports AtcaOps
begin

text \<open>
  AES-128 on the chip (\<open>basic/atca_basic_aes.c\<close>): the command, the block modes CBC and CMAC over
  it. Buffers that must not be null are lists.
\<close>

definition AES_MODE_ENCRYPT :: u8 where "AES_MODE_ENCRYPT = 0x00"
definition AES_MODE_DECRYPT :: u8 where "AES_MODE_DECRYPT = 0x01"
definition AES_MODE_KEY_BLOCK_MASK :: u8 where "AES_MODE_KEY_BLOCK_MASK = 0xC0"
definition AES_MODE_KEY_BLOCK_POS :: nat where "AES_MODE_KEY_BLOCK_POS = 6"

lemmas aes_consts [model_eval] =
  AES_MODE_ENCRYPT_def AES_MODE_DECRYPT_def AES_MODE_KEY_BLOCK_MASK_def AES_MODE_KEY_BLOCK_POS_def

section \<open>The command\<close>

definition atcab_aes ::
    "u8 \<Rightarrow> u16 \<Rightarrow> u8 list option \<Rightarrow> 's atcab \<Rightarrow> (ATCA_STATUS \<times> u8 list option \<times> 's atcab) run" where
  "atcab_aes mode key_id aes_in = with_device (\<lambda>dev st.
     let (packet, st) = found_packet st
     in case aes_in of
          None \<Rightarrow> Some (Inr (ATCA_BAD_PARAM, None, st))
        | Some src \<Rightarrow>
            let packet = packet\<lparr>param1 := mode, param2 := key_id\<rparr>;
                n = unat (if mode AND AES_MODE_GFM = AES_MODE_GFM then ATCA_AES_GFM_SIZE else AES_DATA_SIZE)
            in needs n src (command atAES (copy_in 0 n src packet)
                 (\<lambda>packet. if rxsize packet \<ge> 3 + ucast AES_DATA_SIZE then Some (response_data 16 packet) else None) dev st))"

definition atcab_aes_encrypt ::
    "u16 \<Rightarrow> u8 \<Rightarrow> u8 list \<Rightarrow> 's atcab \<Rightarrow> (ATCA_STATUS \<times> u8 list option \<times> 's atcab) run" where
  "atcab_aes_encrypt key_id key_block plaintext =
     atcab_aes (AES_MODE_ENCRYPT OR (AES_MODE_KEY_BLOCK_MASK AND push_bit AES_MODE_KEY_BLOCK_POS key_block)) key_id (Some plaintext)"

definition atcab_aes_decrypt ::
    "u16 \<Rightarrow> u8 \<Rightarrow> u8 list \<Rightarrow> 's atcab \<Rightarrow> (ATCA_STATUS \<times> u8 list option \<times> 's atcab) run" where
  "atcab_aes_decrypt key_id key_block ciphertext =
     atcab_aes (AES_MODE_DECRYPT OR (AES_MODE_KEY_BLOCK_MASK AND push_bit AES_MODE_KEY_BLOCK_POS key_block)) key_id (Some ciphertext)"

definition atcab_aes_gfm :: "u8 list \<Rightarrow> u8 list \<Rightarrow> 's atcab \<Rightarrow> (ATCA_STATUS \<times> u8 list option \<times> 's atcab) run" where
  "atcab_aes_gfm h input st =
     needs 16 h (needs 16 input (atcab_aes AES_MODE_GFM 0 (Some (take 16 h @ take 16 input)) st))"

section \<open>Cipher block chaining\<close>

record atca_aes_cbc_ctx =
  cbc_key_id :: u16
  cbc_key_block :: u8
  cbc_ciphertext :: "u8 list"

definition atcab_aes_cbc_init :: "u16 \<Rightarrow> u8 \<Rightarrow> u8 list \<Rightarrow> fault + atca_aes_cbc_ctx" where
  "atcab_aes_cbc_init key_id key_block iv =
     (if length iv < 16 then Inl OutOfBounds
      else Inr \<lparr>cbc_key_id = key_id, cbc_key_block = key_block, cbc_ciphertext = take 16 iv\<rparr>)"

definition xor_block :: "u8 list \<Rightarrow> u8 list \<Rightarrow> u8 list" where
  "xor_block a b = map2 (XOR) (take 16 a) (take 16 b)"

definition atcab_aes_cbc_encrypt_block ::
    "atca_aes_cbc_ctx \<Rightarrow> u8 list \<Rightarrow> 's atcab \<Rightarrow> (ATCA_STATUS \<times> u8 list option \<times> atca_aes_cbc_ctx \<times> 's atcab) run" where
  "atcab_aes_cbc_encrypt_block ctx plaintext st =
     needs 16 plaintext (
       if_runs (atcab_aes_encrypt (cbc_key_id ctx) (cbc_key_block ctx) (xor_block plaintext (cbc_ciphertext ctx)) st)
         (\<lambda>(status, ciphertext, st).
         if status \<noteq> ATCA_SUCCESS then Some (Inr (status, None, ctx, st))
         else case ciphertext of
             None \<Rightarrow> Some (Inl Uninitialised)
           | Some c \<Rightarrow> Some (Inr (status, Some c, ctx\<lparr>cbc_ciphertext := c\<rparr>, st))))"

definition atcab_aes_cbc_decrypt_block ::
    "atca_aes_cbc_ctx \<Rightarrow> u8 list \<Rightarrow> 's atcab \<Rightarrow> (ATCA_STATUS \<times> u8 list option \<times> atca_aes_cbc_ctx \<times> 's atcab) run" where
  "atcab_aes_cbc_decrypt_block ctx ciphertext st =
     if_runs (atcab_aes_decrypt (cbc_key_id ctx) (cbc_key_block ctx) ciphertext st) (\<lambda>(status, out, st).
       if status \<noteq> ATCA_SUCCESS then Some (Inr (status, None, ctx, st))
       else case out of
           None \<Rightarrow> Some (Inl Uninitialised)
         | Some d \<Rightarrow>
             Some (Inr (status, Some (xor_block d (cbc_ciphertext ctx)), ctx\<lparr>cbc_ciphertext := take 16 ciphertext\<rparr>, st)))"

section \<open>CMAC\<close>

record atca_aes_cmac_ctx =
  cbc_ctx :: atca_aes_cbc_ctx
  cmac_block_size :: u32
  cmac_block :: "u8 list"

definition g_aes_zero_block :: "u8 list" where
  "g_aes_zero_block = replicate 16 0"

definition atcab_aes_cmac_init :: "u16 \<Rightarrow> u8 \<Rightarrow> fault + atca_aes_cmac_ctx" where
  "atcab_aes_cmac_init key_id key_block =
     if_inr (atcab_aes_cbc_init key_id key_block g_aes_zero_block) (\<lambda>cbc.
       Inr \<lparr>cbc_ctx = cbc, cmac_block_size = 0, cmac_block = replicate 16 0\<rparr>)"

text \<open>The loop over further blocks, and the update. Sizes and indices are 32 bits wide.\<close>

primrec cmac_blocks ::
    "u8 list \<Rightarrow> u32 \<Rightarrow> nat \<Rightarrow> nat \<Rightarrow> atca_aes_cbc_ctx \<Rightarrow> 's atcab \<Rightarrow> (ATCA_STATUS \<times> atca_aes_cbc_ctx \<times> 's atcab) run" where
  "cmac_blocks data copy_size 0 i cbc st = Some (Inr (ATCA_SUCCESS, cbc, st))"
| "cmac_blocks data copy_size (Suc n) i cbc st =
     if_runs (atcab_aes_cbc_encrypt_block cbc (drop (unat (copy_size + of_nat i * 16)) data) st) (\<lambda>(status, _, cbc, st).
       if status \<noteq> ATCA_SUCCESS then Some (Inr (status, cbc, st))
       else cmac_blocks data copy_size n (i + 1) cbc st)"

definition atcab_aes_cmac_update ::
    "atca_aes_cmac_ctx \<Rightarrow> u8 list \<Rightarrow> u32 \<Rightarrow> 's atcab \<Rightarrow> (ATCA_STATUS \<times> atca_aes_cmac_ctx \<times> 's atcab) run" where
  "atcab_aes_cmac_update ctx data data_size st =
     (let rem_size = 16 - cmac_block_size ctx;
          copy_size = (if data_size > rem_size then rem_size else data_size)
      in needs (unat copy_size) data (
         case put_at (unat (cmac_block_size ctx)) (take (unat copy_size) data) (cmac_block ctx) of
           Inl e \<Rightarrow> Some (Inl e)
         | Inr blk \<Rightarrow>
             let ctx = ctx\<lparr>cmac_block := blk\<rparr>
             in if cmac_block_size ctx + data_size < 17
                then Some (Inr (ATCA_SUCCESS, ctx\<lparr>cmac_block_size := cmac_block_size ctx + data_size\<rparr>, st))
                else if_runs (atcab_aes_cbc_encrypt_block (cbc_ctx ctx) blk st) (\<lambda>(status, _, cbc, st).
                  let ctx = ctx\<lparr>cbc_ctx := cbc\<rparr>
                  in if status \<noteq> ATCA_SUCCESS then Some (Inr (status, ctx, st))
                     else
                       let data_size = data_size - copy_size;
                           block_count = data_size div 16;
                           block_count = (if block_count > 0 \<and> data_size mod 16 = 0 then block_count - 1 else block_count)
                       in if_runs (cmac_blocks data copy_size (unat block_count) 0 cbc st) (\<lambda>(status, cbc, st).
                            let ctx = ctx\<lparr>cbc_ctx := cbc\<rparr>
                            in if status \<noteq> ATCA_SUCCESS then Some (Inr (status, ctx, st))
                               else
                                 let bs = data_size - block_count * 16;
                                     tail = drop (unat (copy_size + block_count * 16)) data
                                 in needs (unat bs) tail (case put_at 0 (take (unat bs) tail) blk of
                                      Inl e \<Rightarrow> Some (Inl e)
                                    | Inr blk \<Rightarrow> Some (Inr (ATCA_SUCCESS, ctx\<lparr>cmac_block_size := bs, cmac_block := blk\<rparr>, st)))))))"

fun left_shift_one :: "u8 list \<Rightarrow> u8 list" where
  "left_shift_one [] = []"
| "left_shift_one [b] = [push_bit 1 b]"
| "left_shift_one (b # c # bs) =
     (if c AND 0x80 \<noteq> 0 then push_bit 1 b OR 0x01 else push_bit 1 b) # left_shift_one (c # bs)"

text \<open>The next subkey: a shift, and the reduction by the polynomial when a bit is shifted out.\<close>

definition next_subkey :: "u8 list \<Rightarrow> u8 list" where
  "next_subkey subkey =
     (let is_msb_one = (subkey ! 0 AND 0x80 \<noteq> 0); subkey = left_shift_one subkey
      in if is_msb_one then subkey[15 := subkey ! 15 XOR 0x87] else subkey)"

definition atcab_aes_cmac_finish ::
    "atca_aes_cmac_ctx \<Rightarrow> u32 \<Rightarrow> 's atcab \<Rightarrow> (ATCA_STATUS \<times> u8 list option \<times> 's atcab) run" where
  "atcab_aes_cmac_finish ctx cmac_size st =
     (if cmac_size > 16 then Some (Inr (ATCA_BAD_PARAM, None, st))
      else if_runs (atcab_aes_encrypt (cbc_key_id (cbc_ctx ctx)) (cbc_key_block (cbc_ctx ctx)) g_aes_zero_block st)
        (\<lambda>(status, subkey, st).
        if status \<noteq> ATCA_SUCCESS then Some (Inr (status, None, st))
        else case subkey of
            None \<Rightarrow> Some (Inl Uninitialised)
          | Some l \<Rightarrow>
              let n = unat (cmac_block_size ctx); k1 = next_subkey l;
                  last = (if n \<noteq> 16
                    then if_inr (put_at n (map (\<lambda>i. if i = 0 then 0x80 else 0) [0..<unat (16 - cmac_block_size ctx)]) (cmac_block ctx))
                      (\<lambda>blk. Inr (blk, next_subkey k1))
                    else Inr (cmac_block ctx, k1))
              in case last of
                   Inl e \<Rightarrow> Some (Inl e)
                 | Inr (blk, subkey) \<Rightarrow>
                     if_runs (atcab_aes_cbc_encrypt_block (cbc_ctx ctx) (xor_block blk subkey) st)
                       (\<lambda>(status, cmac_full, _, st).
                       Some (Inr (status,
                         if status = ATCA_SUCCESS then map_option (take (unat cmac_size)) cmac_full else None, st)))))"

end
