(* ===== verification/AtcaAesFacts.thy ===== *)
theory AtcaAesFacts
  imports AtcaAes AtcaOpsFacts
begin

text \<open>
  CBC and CMAC on a chip that computes a block cipher: the modes are those of NIST SP 800-38A
  and 800-38B, for every cipher.
\<close>

section \<open>The standard\<close>

text \<open>Blocks of 16 bytes as words, in big-endian order.\<close>

definition block_word :: "u8 list \<Rightarrow> 128 word" where
  "block_word bs = horner_sum of_bool 2 (map (\<lambda>n. bit (bs ! (15 - n div 8)) (n mod 8)) [0..<128])"

definition block_bytes :: "128 word \<Rightarrow> u8 list" where
  "block_bytes w = map (\<lambda>i. ucast (drop_bit (120 - 8 * i) w)) [0..<16]"

lemma length_block_bytes [simp]: "length (block_bytes w) = 16"
  by (simp add: block_bytes_def)

lemma bit_block_word: "bit (block_word bs) n \<longleftrightarrow> n < 128 \<and> bit (bs ! (15 - n div 8)) (n mod 8)"
  by (auto simp: block_word_def bit_horner_sum_bit_word_iff simp del: upt_rec_numeral)

lemma bit_block_bytes: "i < 16 \<Longrightarrow> bit (block_bytes w ! i) k \<longleftrightarrow> k < 8 \<and> bit w (120 - 8 * i + k)"
  by (simp add: block_bytes_def bit_ucast_iff bit_drop_bit_eq)

lemma block_bytes_word: "length bs = 16 \<Longrightarrow> block_bytes (block_word bs) = bs"
proof (intro nth_equalityI bit_word_eqI)
  fix i k assume bs: "length bs = 16" and i: "i < length (block_bytes (block_word bs))" and k: "k < LENGTH(8)"
  have e: "120 - 8 * i + k = k + 8 * (15 - i)" using i by simp
  have "(120 - 8 * i + k) div 8 = 15 - i" "(120 - 8 * i + k) mod 8 = k" "120 - 8 * i + k < 128"
    unfolding e using k by simp_all
  moreover have "15 - (15 - i) = i" using i by simp
  ultimately show "bit (block_bytes (block_word bs) ! i) k = bit (bs ! i) k"
    using i k by (simp add: bit_block_bytes bit_block_word)
qed simp

text \<open>Doubling in the field of the standard, the subkeys, and the authentication code.\<close>

definition gf_double :: "128 word \<Rightarrow> 128 word" where
  "gf_double w = (if bit w 127 then push_bit 1 w XOR 0x87 else push_bit 1 w)"

definition doubled :: "u8 list \<Rightarrow> u8 list" where
  "doubled bs = block_bytes (gf_double (block_word bs))"

function cmac_chain :: "(u8 list \<Rightarrow> u8 list) \<Rightarrow> u8 list \<Rightarrow> u8 list \<Rightarrow> u8 list" where
  "cmac_chain E c m =
     (let k1 = doubled (E (replicate 16 0))
      in if length m < 16 then E (xor_block c (xor_block (m @ [0x80] @ replicate (15 - length m) 0) (doubled k1)))
         else if length m = 16 then E (xor_block c (xor_block m k1))
         else cmac_chain E (E (xor_block c (take 16 m))) (drop 16 m))"
  by pat_completeness auto
termination by (relation "measure (\<lambda>(_, _, m). length m)") auto

declare cmac_chain.simps [simp del]

definition aes_cmac :: "(u8 list \<Rightarrow> u8 list) \<Rightarrow> u8 list \<Rightarrow> u8 list" where
  "aes_cmac E m = cmac_chain E (replicate 16 0) m"

primrec cbc_cipher :: "(u8 list \<Rightarrow> u8 list) \<Rightarrow> u8 list \<Rightarrow> u8 list list \<Rightarrow> u8 list list" where
  "cbc_cipher E iv [] = []"
| "cbc_cipher E iv (p # ps) = (let c = E (xor_block p iv) in c # cbc_cipher E c ps)"

section \<open>Shifting bytes\<close>

lemma left_shift_nth:
  "length (left_shift_one bs) = length bs \<and> (\<forall>i<length bs. left_shift_one bs ! i =
     push_bit 1 (bs ! i) OR (if Suc i < length bs \<and> bs ! Suc i AND 0x80 \<noteq> 0 then 1 else 0))"
proof (induction bs rule: left_shift_one.induct)
  case (3 b c bs)
  then show ?case by (auto simp: nth_Cons split: nat.splits)
qed auto

lemma upper_bit_byte: "b AND 0x80 \<noteq> 0 \<longleftrightarrow> bit (b :: u8) 7"
proof -
  have "(0x80 :: u8) = push_bit 7 1" by simp
  then show ?thesis by (simp only: bit_iff_and_push_bit_not_eq_0)
qed

lemma bit_shifted: "bit (w * 2) n \<longleftrightarrow> n < LENGTH('a) \<and> n \<noteq> 0 \<and> bit w (n - 1)" for w :: "'a::len word"
  using bit_push_bit_iff [of 1 w n] by (cases n) (auto simp: push_bit_Suc)

lemma next_subkey_doubled:
  assumes "length l = 16"
  shows "next_subkey l = doubled l"
proof -
  let ?w = "block_word l"
  have w: "bit (l ! i) k \<longleftrightarrow> bit ?w (120 - 8 * i + k)" if "i < 16" "k < 8" for i k
    using bit_block_bytes [OF that(1), of ?w k] that(2) by (simp add: block_bytes_word [OF assms])
  have "l ! 0 AND 0x80 \<noteq> 0 \<longleftrightarrow> bit ?w 127" using w [of 0 7] by (simp add: upper_bit_byte)
  moreover have shift: "left_shift_one l = block_bytes (push_bit 1 ?w)"
  proof (intro nth_equalityI bit_word_eqI)
    fix i k assume i: "i < length (left_shift_one l)" and k: "k < LENGTH(8)"
    have i16: "i < 16" using i assms by (simp add: left_shift_nth)
    have nxt: "Suc i < 16 \<and> l ! Suc i AND 0x80 \<noteq> 0 \<longleftrightarrow> i < 15 \<and> bit ?w (119 - 8 * i)"
      using w [of "Suc i" 7] by (auto simp: upper_bit_byte)
    show "bit (left_shift_one l ! i) k = bit (block_bytes (push_bit 1 ?w) ! i) k"
    proof (cases k)
      case 0
      have "bit (push_bit 1 ?w) (120 - 8 * i) \<longleftrightarrow> i < 15 \<and> bit ?w (119 - 8 * i)"
      proof (cases "i = 15")
        case False
        then have "120 - 8 * i = Suc (119 - 8 * i)" "119 - 8 * i < 127" using i16 by simp_all
        then show ?thesis using False i16 by (simp add: bit_shifted)
      qed (simp add: bit_shifted)
      then show ?thesis using i16 nxt 0
        by (simp add: bit_block_bytes left_shift_nth assms bit_or_iff bit_shifted)
    next
      case (Suc j)
      then have "120 - 8 * i + k = Suc (120 - 8 * i + j)" "120 + j - 8 * i < 127" using k by simp_all
      then show ?thesis using i16 k Suc w [OF i16, of j]
        by (simp add: bit_block_bytes left_shift_nth assms bit_or_iff bit_shifted)
    qed
  qed (simp add: left_shift_nth assms)
  moreover have "(block_bytes v)[15 := block_bytes v ! 15 XOR 0x87] = block_bytes (v XOR 0x87)" for v
  proof (intro nth_equalityI bit_word_eqI)
    fix i k assume i: "i < length ((block_bytes v)[15 := block_bytes v ! 15 XOR 0x87])" and k: "k < LENGTH(8)"
    have z: "\<not> bit (0x87 :: 128 word) n" if "8 \<le> n" for n
    proof -
      have "(0x87 :: 128 word) = take_bit 8 0x87" by simp
      then show ?thesis using that by (metis bit_take_bit_iff not_le)
    qed
    have "bit (0x87 :: 128 word) k \<longleftrightarrow> bit (0x87 :: u8) k"
    proof -
      have "(0x87 :: u8) = ucast (0x87 :: 128 word)" by simp
      then show ?thesis using k by (simp only: bit_ucast_iff) simp
    qed
    then show "bit ((block_bytes v)[15 := block_bytes v ! 15 XOR 0x87] ! i) k = bit (block_bytes (v XOR 0x87) ! i) k"
      using i k z [of "120 - 8 * i + k"] by (cases "i = 15") (auto simp: bit_block_bytes bit_xor_iff nth_list_update)
  qed simp
  ultimately show ?thesis by (simp add: next_subkey_def doubled_def gf_double_def Let_def)
qed

section \<open>A chip with a block cipher\<close>

text \<open>
  \<open>E\<close> encrypts and \<open>D\<close> decrypts a block with the key in a slot and the number of the key in it,
  which the upper two bits of the mode hold.
\<close>

definition aes_chip ::
    "(u16 \<Rightarrow> u8 \<Rightarrow> u8 list \<Rightarrow> u8 list) \<Rightarrow> (u16 \<Rightarrow> u8 \<Rightarrow> u8 list \<Rightarrow> u8 list) \<Rightarrow> unit chip" where
  "aes_chip E D opc mode p2 dat s =
     (s, if opc = ATCA_AES \<and> mode AND AES_MODE_OP_MASK = AES_MODE_ENCRYPT then E p2 (drop_bit 6 mode) dat
         else if opc = ATCA_AES \<and> mode AND AES_MODE_OP_MASK = AES_MODE_DECRYPT then D p2 (drop_bit 6 mode) dat
         else [3])"

lemma mode_fields:
  fixes kb :: u8
  assumes "k \<in> {AES_MODE_ENCRYPT, AES_MODE_DECRYPT}"
  defines "mode \<equiv> k OR (AES_MODE_KEY_BLOCK_MASK AND push_bit AES_MODE_KEY_BLOCK_POS kb)"
  shows "mode AND AES_MODE_OP_MASK = k" "mode AND AES_MODE_GFM \<noteq> AES_MODE_GFM" "drop_bit 6 mode = kb AND 3"
proof -
  have swap: "(0xC0 AND x) AND b = (0xC0 AND b) AND x" for b x :: u8
    by (rule bit_word_eqI) (auto simp only: bit_and_iff)
  have low: "(0xC0 AND push_bit 6 kb) AND 7 = 0" "(0xC0 AND push_bit 6 kb) AND 3 = 0"
    unfolding swap [where x = "push_bit 6 kb"] by simp_all
  show "mode AND AES_MODE_OP_MASK = k" "mode AND AES_MODE_GFM \<noteq> AES_MODE_GFM"
    using assms(1) low by (auto simp: mode_def bit.conj_disj_distrib2 aes_consts AES_MODE_OP_MASK_def AES_MODE_GFM_def)
  have three: "kb AND 3 = take_bit 2 kb" by (simp add: take_bit_eq_mask mask_eq_exp_minus_1)
  have "0xC0 AND push_bit 6 kb = push_bit 6 3 AND push_bit 6 kb" by simp
  also have "\<dots> = push_bit 6 (take_bit 2 kb)" unfolding push_bit_and [symmetric] three [symmetric] by (simp only: and.commute)
  also have "drop_bit 6 \<dots> = take_bit 2 kb"
    by (rule bit_word_eqI) (auto simp: bit_drop_bit_eq bit_push_bit_iff bit_take_bit_iff)
  finally have "drop_bit 6 (0xC0 AND push_bit 6 kb) = kb AND 3" unfolding three .
  moreover have "drop_bit 6 k = 0" using assms(1) by (auto simp: aes_consts)
  ultimately show "drop_bit 6 mode = kb AND 3" by (simp add: mode_def aes_consts drop_bit_or)
qed

lemma aes_on_chip:
  assumes "chip_ready dt (aes_chip E D) st" "16 \<le> length src" "k \<in> {AES_MODE_ENCRYPT, AES_MODE_DECRYPT}"
    and "F = (if k = AES_MODE_ENCRYPT then E key_id (kb AND 3) else D key_id (kb AND 3))" "length (F (take 16 src)) = 16"
  shows "\<exists>st'. atcab_aes (k OR (AES_MODE_KEY_BLOCK_MASK AND push_bit AES_MODE_KEY_BLOCK_POS kb)) key_id (Some src) st =
      Some (Inr (ATCA_SUCCESS, Some (F (take 16 src)), st')) \<and> chip_ready dt (aes_chip E D) st'"
proof -
  define mode where "mode = k OR (AES_MODE_KEY_BLOCK_MASK AND push_bit AES_MODE_KEY_BLOCK_POS kb)"
  note mode = mode_fields [OF assms(3), of kb, folded mode_def]
  have gfm: "mode AND AES_MODE_OP_MASK \<noteq> AES_MODE_GFM" using assms(3) by (auto simp: mode(1) aes_consts AES_MODE_GFM_def)
  let ?chip = "aes_chip E D"
  let ?p = "copy_in 0 16 src (zero_packet\<lparr>param1 := mode, param2 := key_id\<rparr>)"
  let ?P = "?p\<lparr>opcode := ATCA_AES, txsize := ucast (ATCA_CMD_SIZE_MIN + AES_DATA_SIZE), rxsize := ATCA_RSP_SIZE_16\<rparr>"
  let ?out = "\<lambda>packet. if rxsize packet \<ge> 3 + ucast AES_DATA_SIZE then Some (response_data 16 packet) else None"
  let ?r = "F (take 16 src)"
  have dat: "command_data ?P = take 16 src"
    using assms(2) by (simp add: command_data_def copy_in_def memcpy_at_def command_consts)
  have ans: "chip_answer ?chip ?P (chip_state st) = ((), ?r)"
    unfolding chip_answer_def dat using assms(3,4) mode(1,3)
    by (auto simp: aes_chip_def copy_in_def aes_consts)
  have r: "?r \<noteq> []" using assms(5) by auto
  have "\<exists>q. command atAES ?p ?out (chip_device dt ?chip) st =
      Some (Inr (response_status ?r, if response_status ?r = ATCA_SUCCESS then ?out q else None, st\<lparr>lib := ((), response_frame ?r)\<rparr>)) \<and>
    rxsize q = rxsize ?P \<and> pkt_data q ! 0 = of_nat (length ?r + 3) \<and> response_data (length ?r) q = ?r"
  proof (rule command_status)
    show "atAES (Some (mCommands (chip_device dt ?chip))) ?p = with_crc ?P"
      using gfm by (simp add: atAES_def Let_def copy_in_def command_consts)
    show "chip_answer ?chip ?P (chip_state st) = ((), ?r)" by (rule ans)
    show "length ?r + 3 \<le> 130" by (simp add: assms(5))
    show "wf_packet ?P" using assms(2) by (simp add: wf_packet_def copy_in_def memcpy_at_def zero_packet_def PACKET_DATA_SIZE_def)
  qed (simp_all add: r command_consts)
  then obtain q where "command atAES ?p ?out (chip_device dt ?chip) st =
      Some (Inr (ATCA_SUCCESS, ?out q, st\<lparr>lib := ((), response_frame ?r)\<rparr>))" "rxsize q = ATCA_RSP_SIZE_16" "response_data 16 q = ?r"
    by (auto simp: response_status_cases assms(5))
  then show ?thesis using assms(1,2) mode(2)
    by (simp add: atcab_aes_def ready_start [OF assms(1)] Let_def needs_def mode_def [symmetric] command_consts)
qed

section \<open>Block modes on the chip\<close>

lemma length_xor_block: "16 \<le> length a \<Longrightarrow> 16 \<le> length b \<Longrightarrow> length (xor_block a b) = 16"
  by (simp add: xor_block_def)

lemma xor_block_commute: "xor_block a b = xor_block b a"
proof -
  have "map2 (XOR) xs ys = map2 (XOR) ys xs" for xs ys :: "u8 list"
    by (induction xs ys rule: list_induct2') (simp_all add: xor.commute)
  then show ?thesis by (simp add: xor_block_def)
qed

lemma xor_block_twice: "length a = 16 \<Longrightarrow> 16 \<le> length b \<Longrightarrow> xor_block (xor_block a b) b = a"
  by (auto simp: xor_block_def xor.assoc intro!: nth_equalityI)

lemma xor_block_take [simp]: "xor_block (take 16 a) b = xor_block a b" "xor_block a (take 16 b) = xor_block a b"
  by (simp_all add: xor_block_def)

text \<open>A context with the key that the block cipher \<open>F\<close> uses.\<close>

definition cbc_with :: "atca_aes_cbc_ctx \<Rightarrow> u16 \<Rightarrow> u8 \<Rightarrow> u8 list \<Rightarrow> bool" where
  "cbc_with ctx key_id kb c \<longleftrightarrow> cbc_key_id ctx = key_id \<and> cbc_key_block ctx = kb \<and> cbc_ciphertext ctx = c \<and> length c = 16"

lemma cbc_encrypts:
  assumes "chip_ready dt (aes_chip E D) st" "cbc_with ctx key_id kb c" "16 \<le> length pt"
    and "\<And>b. length b = 16 \<Longrightarrow> length (E key_id (kb AND 3) b) = 16"
  defines "c' \<equiv> E key_id (kb AND 3) (xor_block pt c)"
  shows "\<exists>st' ctx'. atcab_aes_cbc_encrypt_block ctx pt st = Some (Inr (ATCA_SUCCESS, Some c', ctx', st')) \<and>
    chip_ready dt (aes_chip E D) st' \<and> cbc_with ctx' key_id kb c'"
proof -
  let ?x = "xor_block pt c"
  have x: "length ?x = 16" using assms(2,3) by (simp add: cbc_with_def length_xor_block)
  then have t: "take 16 ?x = ?x" by simp
  have "\<exists>st'. atcab_aes_encrypt key_id kb ?x st = Some (Inr (ATCA_SUCCESS, Some c', st')) \<and> chip_ready dt (aes_chip E D) st'"
    using aes_on_chip [OF assms(1), of ?x AES_MODE_ENCRYPT "E key_id (kb AND 3)" key_id kb] assms(4) [OF x] x t
    by (simp add: atcab_aes_encrypt_def c'_def)
  then show ?thesis using assms(2,3) assms(4) [OF x]
    by (auto simp: atcab_aes_cbc_encrypt_block_def needs_def cbc_with_def c'_def)
qed

lemma cbc_decrypts:
  assumes "chip_ready dt (aes_chip E D) st" "cbc_with ctx key_id kb c" "length ct = 16" "length (D key_id (kb AND 3) ct) = 16"
  shows "\<exists>st' ctx'. atcab_aes_cbc_decrypt_block ctx ct st =
      Some (Inr (ATCA_SUCCESS, Some (xor_block (D key_id (kb AND 3) ct) c), ctx', st')) \<and>
    chip_ready dt (aes_chip E D) st' \<and> cbc_with ctx' key_id kb ct"
proof -
  have d: "AES_MODE_DECRYPT \<noteq> AES_MODE_ENCRYPT" by (simp add: aes_consts)
  have "\<exists>st'. atcab_aes_decrypt key_id kb ct st = Some (Inr (ATCA_SUCCESS, Some (D key_id (kb AND 3) ct), st')) \<and>
      chip_ready dt (aes_chip E D) st'"
    using aes_on_chip [OF assms(1), of ct AES_MODE_DECRYPT "D key_id (kb AND 3)" key_id kb] assms(3,4) d
    by (simp add: atcab_aes_decrypt_def)
  then show ?thesis using assms(2,3) by (auto simp: atcab_aes_cbc_decrypt_block_def cbc_with_def)
qed

text \<open>A sequence of blocks, one call for each.\<close>

primrec cbc_blocks ::
    "(atca_aes_cbc_ctx \<Rightarrow> u8 list \<Rightarrow> 's atcab \<Rightarrow> (ATCA_STATUS \<times> u8 list option \<times> atca_aes_cbc_ctx \<times> 's atcab) run) \<Rightarrow>
     atca_aes_cbc_ctx \<Rightarrow> u8 list list \<Rightarrow> 's atcab \<Rightarrow> (u8 list list \<times> 's atcab) run" where
  "cbc_blocks call ctx [] st = Some (Inr ([], st))"
| "cbc_blocks call ctx (b # bs) st =
     if_runs (call ctx b st) (\<lambda>(status, out, ctx, st).
       if status \<noteq> ATCA_SUCCESS then Some (Inr ([], st))
       else if_runs (cbc_blocks call ctx bs st) (\<lambda>(outs, st). Some (Inr (the out # outs, st))))"

lemma cbc_blocks_encrypt:
  assumes "chip_ready dt (aes_chip E D) st" "cbc_with ctx key_id kb c" "\<forall>p \<in> set ps. length p = 16"
    and len: "\<And>b. length b = 16 \<Longrightarrow> length (E key_id (kb AND 3) b) = 16"
  shows "\<exists>st'. cbc_blocks atcab_aes_cbc_encrypt_block ctx ps st = Some (Inr (cbc_cipher (E key_id (kb AND 3)) c ps, st')) \<and>
    chip_ready dt (aes_chip E D) st'"
  using assms(1-3)
proof (induction ps arbitrary: ctx c st)
  case (Cons p ps)
  have "16 \<le> length p" using Cons.prems(3) by simp
  from cbc_encrypts [OF Cons.prems(1,2) this len] obtain st1 ctx1 where
    s: "atcab_aes_cbc_encrypt_block ctx p st = Some (Inr (ATCA_SUCCESS, Some (E key_id (kb AND 3) (xor_block p c)), ctx1, st1))"
    "chip_ready dt (aes_chip E D) st1" "cbc_with ctx1 key_id kb (E key_id (kb AND 3) (xor_block p c))" by blast
  from Cons.IH [OF s(2,3)] Cons.prems(3) s(1) show ?case by (auto simp: Let_def)
qed simp

lemma cbc_blocks_decrypt:
  assumes "chip_ready dt (aes_chip E D) st" "cbc_with ctx key_id kb c" "\<forall>p \<in> set ps. length p = 16"
    and len: "\<And>b. length b = 16 \<Longrightarrow> length (E key_id (kb AND 3) b) = 16"
    and inv: "\<And>b. length b = 16 \<Longrightarrow> D key_id (kb AND 3) (E key_id (kb AND 3) b) = b"
  shows "\<exists>st'. cbc_blocks atcab_aes_cbc_decrypt_block ctx (cbc_cipher (E key_id (kb AND 3)) c ps) st = Some (Inr (ps, st')) \<and>
    chip_ready dt (aes_chip E D) st'"
  using assms(1-3)
proof (induction ps arbitrary: ctx c st)
  case (Cons p ps)
  let ?c = "E key_id (kb AND 3) (xor_block p c)"
  have c: "length c = 16" and p: "length p = 16" using Cons.prems(2,3) by (simp_all add: cbc_with_def)
  have x: "length (xor_block p c) = 16" using c p by (simp add: length_xor_block)
  have d: "xor_block (D key_id (kb AND 3) ?c) c = p" using c p x by (simp add: inv xor_block_twice)
  have "length (D key_id (kb AND 3) ?c) = 16" using inv [OF x] x by simp
  from cbc_decrypts [OF Cons.prems(1,2) len [OF x] this] obtain st1 ctx1 where
    s: "atcab_aes_cbc_decrypt_block ctx ?c st = Some (Inr (ATCA_SUCCESS, Some p, ctx1, st1))"
    "chip_ready dt (aes_chip E D) st1" "cbc_with ctx1 key_id kb ?c" unfolding d by blast
  from Cons.IH [OF s(2,3)] Cons.prems(3) s(1) show ?case by (auto simp: Let_def)
qed simp

section \<open>CMAC\<close>

text \<open>
  A context has taken in \<open>m\<close> when for every continuation the code of the whole is what is left to
  compute from its chaining value and its block.
\<close>

definition cmac_with :: "(u8 list \<Rightarrow> u8 list) \<Rightarrow> u16 \<Rightarrow> u8 \<Rightarrow> atca_aes_cmac_ctx \<Rightarrow> u8 list \<Rightarrow> bool" where
  "cmac_with F key_id kb ctx m \<longleftrightarrow> (\<exists>c. cbc_with (cbc_ctx ctx) key_id kb c \<and> length (cmac_block ctx) = 16 \<and>
     unat (cmac_block_size ctx) \<le> 16 \<and>
     (\<forall>x. aes_cmac F (m @ x) = cmac_chain F c (take (unat (cmac_block_size ctx)) (cmac_block ctx) @ x)))"

lemma cmac_chain_step:
  "length b = 16 \<Longrightarrow> m \<noteq> [] \<Longrightarrow> cmac_chain F c (b @ m) = cmac_chain F (F (xor_block b c)) m"
  by (subst cmac_chain.simps) (simp add: xor_block_commute)

lemma cmac_blocks_chain:
  assumes "chip_ready dt (aes_chip E D) st" "cbc_with cbc key_id kb c"
    and "unat copy + 16 * (i + n) < length data" "length data < 2 ^ 32"
    and len: "\<And>b. length b = 16 \<Longrightarrow> length (E key_id (kb AND 3) b) = 16"
  defines "F \<equiv> E key_id (kb AND 3)"
  shows "\<exists>cbc' c' st'. cmac_blocks data copy n i cbc st = Some (Inr (ATCA_SUCCESS, cbc', st')) \<and>
    chip_ready dt (aes_chip E D) st' \<and> cbc_with cbc' key_id kb c' \<and>
    (\<forall>x. cmac_chain F c (drop (unat copy + 16 * i) data @ x) = cmac_chain F c' (drop (unat copy + 16 * (i + n)) data @ x))"
  using assms(1-3)
proof (induction n arbitrary: i cbc c st)
  case (Suc n)
  let ?j = "unat copy + 16 * i"
  have "unat copy + i * 16 < 2 ^ 32" using Suc.prems(3) assms(4) by simp
  from unat_word32 [OF this] have j: "unat (copy + of_nat i * 16) = ?j" by (simp add: mult.commute)
  have l: "16 \<le> length (drop ?j data)" using Suc.prems(3) by simp
  from cbc_encrypts [OF Suc.prems(1,2) l len, folded F_def] obtain st1 cbc1 where
    s: "atcab_aes_cbc_encrypt_block cbc (drop ?j data) st = Some (Inr (ATCA_SUCCESS, Some (F (xor_block (drop ?j data) c)), cbc1, st1))"
    "chip_ready dt (aes_chip E D) st1" "cbc_with cbc1 key_id kb (F (xor_block (drop ?j data) c))" by blast
  have "unat copy + 16 * (i + 1 + n) < length data" using Suc.prems(3) by simp
  from Suc.IH [OF s(2,3) this] obtain cbc' c' st' where
    r: "cmac_blocks data copy n (i + 1) cbc1 st1 = Some (Inr (ATCA_SUCCESS, cbc', st'))"
    "chip_ready dt (aes_chip E D) st'" "cbc_with cbc' key_id kb c'"
    "\<forall>x. cmac_chain F (F (xor_block (drop ?j data) c)) (drop (unat copy + 16 * (i + 1)) data @ x) =
      cmac_chain F c' (drop (unat copy + 16 * (i + 1 + n)) data @ x)" by blast
  have split: "drop ?j data = take 16 (drop ?j data) @ drop (unat copy + 16 * (i + 1)) data"
    using append_take_drop_id [of 16 "drop ?j data"] by (simp add: add.commute add.left_commute)
  have ne: "drop (unat copy + 16 * (i + 1)) data \<noteq> []" using Suc.prems(3) by simp
  have "cmac_chain F c (drop ?j data @ x) = cmac_chain F c' (drop (unat copy + 16 * (i + Suc n)) data @ x)" for x
  proof -
    have "cmac_chain F c (drop ?j data @ x) = cmac_chain F c (take 16 (drop ?j data) @ (drop (unat copy + 16 * (i + 1)) data @ x))"
      by (subst split) simp
    also have "\<dots> = cmac_chain F (F (xor_block (take 16 (drop ?j data)) c)) (drop (unat copy + 16 * (i + 1)) data @ x)"
      by (rule cmac_chain_step) (use l ne in auto)
    finally show ?thesis using r(4) by simp
  qed
  then show ?case using s(1) r(1-3) by (auto simp: j)
next
  case 0
  then show ?case by simp blast
qed

lemma block_count:
  fixes d :: u32
  assumes "unat d = k" "0 < k"
  defines "q \<equiv> d div 16"
  shows "unat (if q > 0 \<and> d mod 16 = 0 then q - 1 else q) = (k - 1) div 16"
proof -
  have q: "unat q = k div 16" by (simp add: q_def unat_div assms(1))
  have "d mod 16 = 0 \<longleftrightarrow> k mod 16 = 0" by (simp add: unat_eq_zero [symmetric] unat_mod assms(1) del: unat_eq_zero)
  moreover have "q > 0 \<longleftrightarrow> 0 < k div 16" using q by (metis unat_gt_0 word_gt_0)
  moreover have "unat (q - 1) = k div 16 - 1" if "0 < k div 16"
    using that q by (subst unat_sub) (simp_all add: word_le_nat_alt)
  moreover have "(k - 1) div 16 = (if k mod 16 = 0 then k div 16 - 1 else k div 16)"
    using assms(2) div_Suc [of "k - 1" 16] by (simp split: if_splits)
  moreover have "0 < k div 16" if "k mod 16 = 0" using assms(2) that by (metis div_mult_mod_eq gr0I mult_0 add_0)
  ultimately show ?thesis using q by (simp del: unat_gt_0)
qed

lemma cmac_update_chain:
  assumes "chip_ready dt (aes_chip E D) st" "cmac_with (E key_id (kb AND 3)) key_id kb ctx m" "length data + 16 < 2 ^ 32"
    and len: "\<And>b. length b = 16 \<Longrightarrow> length (E key_id (kb AND 3) b) = 16"
  shows "\<exists>ctx' st'. atcab_aes_cmac_update ctx data (of_nat (length data)) st = Some (Inr (ATCA_SUCCESS, ctx', st')) \<and>
    chip_ready dt (aes_chip E D) st' \<and> cmac_with (E key_id (kb AND 3)) key_id kb ctx' (m @ data)"
proof -
  let ?F = "E key_id (kb AND 3)" and ?L = "length data"
  obtain c0 n where cbc: "cbc_with (cbc_ctx ctx) key_id kb c0" and blk: "length (cmac_block ctx) = 16"
    and n: "unat (cmac_block_size ctx) = n" "n \<le> 16"
    and chain: "\<And>x. aes_cmac ?F (m @ x) = cmac_chain ?F c0 (take n (cmac_block ctx) @ x)"
    using assms(2) unfolding cmac_with_def by blast
  have L: "unat (of_nat ?L :: u32) = ?L" by (rule unat_word32) (use assms(3) in simp)
  have rem: "unat (16 - cmac_block_size ctx) = 16 - n" using n by (simp add: unat_sub word_le_nat_alt)
  define copy where "copy = (if of_nat ?L > 16 - cmac_block_size ctx then 16 - cmac_block_size ctx else of_nat ?L)"
  define c where "c = min ?L (16 - n)"
  have copy: "unat copy = c" unfolding copy_def c_def by (simp add: word_less_nat_alt rem L)
  have c: "c \<le> ?L" "c \<le> 16 - n" by (simp_all add: c_def)
  define bk where "bk = memcpy_at n (take c data) (cmac_block ctx)"
  have put: "put_at n (take c data) (cmac_block ctx) = Inr bk" using blk n(2) c by (simp add: put_at_def bk_def)
  have bk: "length bk = 16" "take (n + c) bk = take n (cmac_block ctx) @ take c data"
    using blk n(2) c by (simp_all add: bk_def memcpy_at_def)
  have sum: "unat (cmac_block_size ctx + of_nat ?L) = n + ?L"
    using n L assms(3) by (subst unat_plus_simple [THEN iffD1]) (simp_all add: word_le_nat_alt unat_word_ariths)
  show ?thesis
  proof (cases "n + ?L < 17")
    case True
    then have cL: "c = ?L" by (simp add: c_def)
    let ?ctx = "ctx\<lparr>cmac_block := bk, cmac_block_size := cmac_block_size ctx + of_nat ?L\<rparr>"
    have "cmac_with ?F key_id kb ?ctx (m @ data)"
      using cbc bk True chain [of "data @ _"] unfolding cmac_with_def by (auto simp: sum cL)
    moreover have "atcab_aes_cmac_update ctx data (of_nat ?L) st = Some (Inr (ATCA_SUCCESS, ?ctx, st))"
      unfolding atcab_aes_cmac_update_def Let_def copy_def [symmetric]
      using True by (simp add: copy n(1) put needs_def c word_less_nat_alt sum)
    ultimately show ?thesis using assms(1) by blast
  next
    case False
    then have cL: "c = 16 - n" "c < ?L" using n(2) by (simp_all add: c_def)
    have bkl: "16 \<le> length bk" by (simp add: bk(1))
    from cbc_encrypts [OF assms(1) cbc bkl len] obtain st1 cbc1 where
      s: "atcab_aes_cbc_encrypt_block (cbc_ctx ctx) bk st = Some (Inr (ATCA_SUCCESS, Some (?F (xor_block bk c0)), cbc1, st1))"
      "chip_ready dt (aes_chip E D) st1" "cbc_with cbc1 key_id kb (?F (xor_block bk c0))" by blast
    have bk': "bk = take n (cmac_block ctx) @ take c data" using bk cL n(2) by simp
    have ch1: "aes_cmac ?F (m @ data @ x) = cmac_chain ?F (?F (xor_block bk c0)) (drop c data @ x)" for x
    proof -
      have "aes_cmac ?F (m @ data @ x) = cmac_chain ?F c0 (bk @ (drop c data @ x))"
        using chain [of "data @ x"] append_take_drop_id [of c data] unfolding bk' by (metis append_assoc)
      also have "\<dots> = cmac_chain ?F (?F (xor_block bk c0)) (drop c data @ x)"
        by (rule cmac_chain_step) (use bk(1) cL in auto)
      finally show ?thesis .
    qed
    define k where "k = (?L - c - 1) div 16"
    have "16 * k + (?L - c - 1) mod 16 = ?L - c - 1" "(?L - c - 1) mod 16 < 16" by (simp_all add: k_def)
    then have k: "c + 16 * k < ?L" "?L - (c + 16 * k) \<le> 16" using cL(2) by linarith+
    have d: "unat (of_nat ?L - copy) = ?L - c" using copy c L by (simp add: unat_sub word_le_nat_alt)
    define q where "q = (of_nat ?L - copy) div (16 :: u32)"
    define cnt where "cnt = (if q > 0 \<and> (of_nat ?L - copy) mod 16 = 0 then q - 1 else q)"
    have cnt: "unat cnt = k" using block_count [OF d] cL(2) unfolding cnt_def q_def k_def by simp
    have "unat copy + 16 * (0 + k) < ?L" using k(1) by (simp add: copy)
    moreover have "?L < 2 ^ 32" using assms(3) by simp
    ultimately obtain cbc2 c2 st2 where
      b: "cmac_blocks data copy k 0 cbc1 st1 = Some (Inr (ATCA_SUCCESS, cbc2, st2))" "chip_ready dt (aes_chip E D) st2"
      "cbc_with cbc2 key_id kb c2"
      "\<And>x. cmac_chain ?F (?F (xor_block bk c0)) (drop c data @ x) = cmac_chain ?F c2 (drop (c + 16 * k) data @ x)"
      using cmac_blocks_chain [OF s(2,3), of copy 0 k data] len copy by auto
    have at: "unat (copy + cnt * 16) = c + 16 * k"
    proof -
      have "copy = of_nat c" "cnt = of_nat k" by (simp_all flip: copy cnt)
      then have "copy + cnt * 16 = of_nat (c + 16 * k)" by simp
      with unat_word32 [of "c + 16 * k"] k(1) assms(3) show ?thesis by simp
    qed
    let ?tail = "drop (c + 16 * k) data"
    have bs: "unat (of_nat ?L - copy - cnt * 16) = length ?tail"
    proof -
      have "of_nat ?L - copy - cnt * 16 = of_nat ?L - (copy + cnt * 16)" by simp
      also have "unat \<dots> = ?L - (c + 16 * k)" using at L k(1) by (subst unat_sub) (simp_all add: word_le_nat_alt)
      finally show ?thesis by simp
    qed
    have put2: "put_at 0 ?tail bk = Inr (memcpy_at 0 ?tail bk)" using k bk(1) by (simp add: put_at_def)
    have t: "take (length ?tail) ?tail = ?tail" by simp
    let ?ctx = "ctx\<lparr>cmac_block := memcpy_at 0 ?tail bk, cbc_ctx := cbc2, cmac_block_size := of_nat ?L - copy - cnt * 16\<rparr>"
    have "cmac_with ?F key_id kb ?ctx (m @ data)"
      using b(3) k(2) bk(1) ch1 b(4) unfolding cmac_with_def bs by (auto simp: memcpy_at_def bs)
    moreover have "atcab_aes_cmac_update ctx data (of_nat ?L) st = Some (Inr (ATCA_SUCCESS, ?ctx, st2))"
      unfolding atcab_aes_cmac_update_def Let_def copy_def [symmetric]
      unfolding q_def [symmetric] cnt_def [symmetric] using False
      by (simp add: copy n(1) put needs_def c word_less_nat_alt sum s(1) cnt b(1) at bs put2 t del: take_all length_drop)
    ultimately show ?thesis using b(2) by blast
  qed
qed

lemma pad_bytes: "n < 16 \<Longrightarrow> map (\<lambda>i. if i = 0 then 0x80 else 0) [0..<16 - n] = [0x80] @ replicate (15 - n) (0 :: u8)"
  by (rule nth_equalityI) (auto simp: nth_Cons' simp del: upt_rec_numeral)

lemma cmac_finish_chain:
  assumes "chip_ready dt (aes_chip E D) st" "cmac_with (E key_id (kb AND 3)) key_id kb ctx m" "sz \<le> 16"
    and len: "\<And>b. length b = 16 \<Longrightarrow> length (E key_id (kb AND 3) b) = 16"
  shows "\<exists>st'. atcab_aes_cmac_finish ctx sz st =
      Some (Inr (ATCA_SUCCESS, Some (take (unat sz) (aes_cmac (E key_id (kb AND 3)) m)), st')) \<and> chip_ready dt (aes_chip E D) st'"
proof -
  let ?F = "E key_id (kb AND 3)"
  obtain c n where cbc: "cbc_with (cbc_ctx ctx) key_id kb c" and blk: "length (cmac_block ctx) = 16"
    and n: "unat (cmac_block_size ctx) = n" "n \<le> 16" and chain: "aes_cmac ?F m = cmac_chain ?F c (take n (cmac_block ctx))"
    using assms(2) unfolding cmac_with_def by (metis append_Nil2)
  define l where "l = ?F (replicate 16 0)"
  have l: "length l = 16" by (simp add: l_def len)
  have keys: "cbc_key_id (cbc_ctx ctx) = key_id" "cbc_key_block (cbc_ctx ctx) = kb" using cbc by (simp_all add: cbc_with_def)
  obtain st1 where s: "atcab_aes_encrypt key_id kb g_aes_zero_block st = Some (Inr (ATCA_SUCCESS, Some l, st1))" "chip_ready dt (aes_chip E D) st1"
    using aes_on_chip [OF assms(1), of g_aes_zero_block AES_MODE_ENCRYPT ?F key_id kb] len
    by (auto simp: atcab_aes_encrypt_def g_aes_zero_block_def l_def)
  have k1: "next_subkey l = doubled l" "next_subkey (doubled l) = doubled (doubled l)"
    by (simp_all add: next_subkey_doubled l doubled_def)
  have rem: "unat (16 - cmac_block_size ctx) = 16 - n" using n by (simp add: unat_sub word_le_nat_alt)
  define p where "p = (if n = 16 then cmac_block ctx else memcpy_at n ([0x80] @ replicate (15 - n) 0) (cmac_block ctx))"
  define k where "k = (if n = 16 then doubled l else doubled (doubled l))"
  have last: "(if n \<noteq> 16
        then if_inr (put_at n (map (\<lambda>i. if i = 0 then 0x80 else 0) [0..<unat (16 - cmac_block_size ctx)]) (cmac_block ctx))
          (\<lambda>blk. Inr (blk, next_subkey (next_subkey l)))
        else Inr (cmac_block ctx, next_subkey l)) = Inr (p, k)"
    using n(2) blk by (cases "n = 16") (simp_all only: rem pad_bytes p_def k_def k1 le_neq_implies_less, simp_all add: put_at_def)
  have p: "length p = 16" "p = (if n = 16 then take n (cmac_block ctx) else take n (cmac_block ctx) @ [0x80] @ replicate (15 - n) 0)"
    using n(2) blk by (auto simp: p_def memcpy_at_def)
  have "aes_cmac ?F m = ?F (xor_block c (xor_block p k))"
    unfolding chain using n(2) blk p(2) by (subst cmac_chain.simps) (auto simp: Let_def l_def [symmetric] k_def)
  moreover have "16 \<le> length (xor_block p k)" by (simp add: length_xor_block p(1) k_def doubled_def)
  from cbc_encrypts [OF s(2) cbc this len] obtain st2 ctx2 where
    "atcab_aes_cbc_encrypt_block (cbc_ctx ctx) (xor_block p k) st1 = Some (Inr (ATCA_SUCCESS, Some (?F (xor_block (xor_block p k) c)), ctx2, st2))"
    "chip_ready dt (aes_chip E D) st2" by blast
  ultimately show ?thesis using assms(3) s(1) last
    by (simp add: atcab_aes_cmac_finish_def keys n(1) Let_def xor_block_commute [of _ c] not_less [symmetric])
qed

text \<open>A message in pieces: the context after each, and the end.\<close>

primrec cmac_updates ::
    "u8 list list \<Rightarrow> atca_aes_cmac_ctx \<Rightarrow> 's atcab \<Rightarrow> (ATCA_STATUS \<times> atca_aes_cmac_ctx \<times> 's atcab) run" where
  "cmac_updates [] ctx st = Some (Inr (ATCA_SUCCESS, ctx, st))"
| "cmac_updates (m # ms) ctx st =
     if_runs (atcab_aes_cmac_update ctx m (of_nat (length m)) st) (\<lambda>(status, ctx, st).
       if status \<noteq> ATCA_SUCCESS then Some (Inr (status, ctx, st)) else cmac_updates ms ctx st)"

lemma cmac_updates_chain:
  assumes "chip_ready dt (aes_chip E D) st" "cmac_with (E key_id (kb AND 3)) key_id kb ctx m" "\<forall>d \<in> set ms. length d + 16 < 2 ^ 32"
    and len: "\<And>b. length b = 16 \<Longrightarrow> length (E key_id (kb AND 3) b) = 16"
  shows "\<exists>ctx' st'. cmac_updates ms ctx st = Some (Inr (ATCA_SUCCESS, ctx', st')) \<and>
    chip_ready dt (aes_chip E D) st' \<and> cmac_with (E key_id (kb AND 3)) key_id kb ctx' (m @ concat ms)"
  using assms(1-3)
proof (induction ms arbitrary: ctx m st)
  case (Cons d ms)
  have "length d + 16 < 2 ^ 32" using Cons.prems(3) by simp
  from cmac_update_chain [OF Cons.prems(1,2) this len] obtain ctx1 st1 where
    s: "atcab_aes_cmac_update ctx d (of_nat (length d)) st = Some (Inr (ATCA_SUCCESS, ctx1, st1))" "chip_ready dt (aes_chip E D) st1"
    "cmac_with (E key_id (kb AND 3)) key_id kb ctx1 (m @ d)" by blast
  from Cons.IH [OF s(2,3)] Cons.prems(3) s(1) show ?case by auto
qed simp

section \<open>Properties\<close>

text \<open>
  C28: A message authenticated on the chip in any pieces gets the CMAC of NIST SP 800-38B under the
  block cipher of the chip with the chosen key, cut to the size asked for: the update always keeps
  a last block back, the subkeys are doublings in the field, an incomplete block is padded.
\<close>

theorem aes_cmac_is_sp800_38b:
  assumes "chip_ready dt (aes_chip E D) st" "\<forall>b. length b = 16 \<longrightarrow> length (E key_id (kb AND 3) b) = 16"
    and "\<forall>d \<in> set ms. length d + 16 < 2 ^ 32" "sz \<le> 16"
  shows "\<exists>ctx0 ctx st1 st2. atcab_aes_cmac_init key_id kb = Inr ctx0 \<and>
    cmac_updates ms ctx0 st = Some (Inr (ATCA_SUCCESS, ctx, st1)) \<and>
    atcab_aes_cmac_finish ctx sz st1 =
      Some (Inr (ATCA_SUCCESS, Some (take (unat sz) (aes_cmac (E key_id (kb AND 3)) (concat ms))), st2))"
proof -
  let ?ctx = "\<lparr>cbc_ctx = \<lparr>cbc_key_id = key_id, cbc_key_block = kb, cbc_ciphertext = replicate 16 0\<rparr>,
    cmac_block_size = 0, cmac_block = replicate 16 0\<rparr>"
  have i: "atcab_aes_cmac_init key_id kb = Inr ?ctx"
    by (simp add: atcab_aes_cmac_init_def atcab_aes_cbc_init_def g_aes_zero_block_def)
  have "cmac_with (E key_id (kb AND 3)) key_id kb ?ctx []"
    unfolding cmac_with_def by (intro exI [of _ "replicate 16 0"]) (simp add: cbc_with_def aes_cmac_def)
  from cmac_updates_chain [OF assms(1) this assms(3)] assms(2) obtain ctx st1 where
    u: "cmac_updates ms ?ctx st = Some (Inr (ATCA_SUCCESS, ctx, st1))" "chip_ready dt (aes_chip E D) st1"
    "cmac_with (E key_id (kb AND 3)) key_id kb ctx (concat ms)" by auto
  from cmac_finish_chain [OF u(2,3) assms(4)] assms(2) i u(1) show ?thesis by blast
qed

theorem aes_cmac_is_sp800_38b_witness:
  "\<exists>ctx0 ctx st1 st2. atcab_aes_cmac_init 3 1 = Inr ctx0 \<and>
    cmac_updates [[1, 2], replicate 30 7, []] ctx0 (chip_lib ATECC608A (aes_chip (\<lambda>_ _. rev) (\<lambda>_ _. rev)) ()) = Some (Inr (ATCA_SUCCESS, ctx, st1)) \<and>
    atcab_aes_cmac_finish ctx 8 st1 = Some (Inr (ATCA_SUCCESS, Some (take (unat (8 :: u32)) (aes_cmac rev ([1, 2] @ replicate 30 7))), st2))"
  using aes_cmac_is_sp800_38b [where key_id = 3 and kb = 1 and ms = "[[1, 2], replicate 30 7, []]" and sz = 8,
      OF chip_lib_ready(1) [where dt = ATECC608A and chip = "aes_chip (\<lambda>_ _. rev) (\<lambda>_ _. rev)" and c = "()"]]
  by simp

text \<open>
  C29: Blocks encrypted one by one on the chip are chained as in NIST SP 800-38A; with a context
  made from the same initialisation vector, decrypting them one by one gives the blocks back.
\<close>

theorem cbc_roundtrip:
  assumes "chip_ready dt (aes_chip E D) st" "\<forall>p \<in> set ps. length p = 16" "length iv = 16"
    and "\<forall>b. length b = 16 \<longrightarrow> length (E key_id (kb AND 3) b) = 16 \<and> D key_id (kb AND 3) (E key_id (kb AND 3) b) = b"
  shows "\<exists>ctx cs st1 st2. atcab_aes_cbc_init key_id kb iv = Inr ctx \<and> cs = cbc_cipher (E key_id (kb AND 3)) iv ps \<and>
    cbc_blocks atcab_aes_cbc_encrypt_block ctx ps st = Some (Inr (cs, st1)) \<and>
    cbc_blocks atcab_aes_cbc_decrypt_block ctx cs st1 = Some (Inr (ps, st2))"
proof -
  let ?ctx = "\<lparr>cbc_key_id = key_id, cbc_key_block = kb, cbc_ciphertext = iv\<rparr>"
  have i: "atcab_aes_cbc_init key_id kb iv = Inr ?ctx" using assms(3) by (simp add: atcab_aes_cbc_init_def)
  have w: "cbc_with ?ctx key_id kb iv" using assms(3) by (simp add: cbc_with_def)
  obtain st1 where s: "cbc_blocks atcab_aes_cbc_encrypt_block ?ctx ps st = Some (Inr (cbc_cipher (E key_id (kb AND 3)) iv ps, st1))"
    "chip_ready dt (aes_chip E D) st1" using cbc_blocks_encrypt [OF assms(1) w assms(2)] assms(4) by blast
  from cbc_blocks_decrypt [OF s(2) w assms(2)] assms(4) i s(1) show ?thesis by blast
qed

theorem cbc_roundtrip_witness:
  "\<exists>ctx cs st1 st2. atcab_aes_cbc_init 3 1 (replicate 16 9) = Inr ctx \<and> cs = cbc_cipher rev (replicate 16 9) [replicate 16 5, replicate 16 6] \<and>
    cbc_blocks atcab_aes_cbc_encrypt_block ctx [replicate 16 5, replicate 16 6]
      (chip_lib ATECC608A (aes_chip (\<lambda>_ _. rev) (\<lambda>_ _. rev)) ()) = Some (Inr (cs, st1)) \<and>
    cbc_blocks atcab_aes_cbc_decrypt_block ctx cs st1 = Some (Inr ([replicate 16 5, replicate 16 6], st2))"
  by (rule cbc_roundtrip [OF chip_lib_ready(1)]) simp_all

end
