(* ===== verification/AtcaHost.thy ===== *)
theory AtcaHost
  imports AtcaOps Sha2
begin

text \<open>
  The host side of the ATECC508A commands (\<open>host/atca_host.[ch]\<close>): what the chip computes from
  shared secrets is computed again in software. A pointer is an option; the parameters that the
  code passes in a structure are arguments, and what it writes there is in the result, with the
  state of the temporary key.
\<close>

section \<open>Constants and data\<close>

definition MAC_MODE_INCLUDE_OTP_88 :: u8 where "MAC_MODE_INCLUDE_OTP_88 = 0x10"
definition MAC_MODE_INCLUDE_OTP_64 :: u8 where "MAC_MODE_INCLUDE_OTP_64 = 0x20"
definition MAC_MODE_INCLUDE_SN :: u8 where "MAC_MODE_INCLUDE_SN = 0x40"
definition MAC_MODE_MASK :: u8 where "MAC_MODE_MASK = 0x77"
definition MAC_MODE_BLOCK1_TEMPKEY :: u8 where "MAC_MODE_BLOCK1_TEMPKEY = 0x02"
definition MAC_MODE_USE_TEMPKEY_MASK :: u8 where "MAC_MODE_USE_TEMPKEY_MASK = 0x03"
definition MAC_MODE_SOURCE_FLAG_MATCH :: u8 where "MAC_MODE_SOURCE_FLAG_MATCH = 0x04"
definition NONCE_ZERO_CALC_MASK :: u16 where "NONCE_ZERO_CALC_MASK = 0x8000"
definition NONCE_ZERO_CALC_TEMPKEY :: u16 where "NONCE_ZERO_CALC_TEMPKEY = 0x8000"
definition RANDOM_NUM_SIZE :: nat where "RANDOM_NUM_SIZE = 32"
definition VERIFY_MODE_SOURCE_MASK :: u8 where "VERIFY_MODE_SOURCE_MASK = 0x20"
definition SECUREBOOTCONFIG_MODE_MASK :: u16 where "SECUREBOOTCONFIG_MODE_MASK = 0x0003"
definition SECUREBOOTCONFIG_MODE_FULL_DIG :: u16 where "SECUREBOOTCONFIG_MODE_FULL_DIG = 0x0003"
definition CHECKMAC_MODE_BLOCK1_TEMPKEY :: u8 where "CHECKMAC_MODE_BLOCK1_TEMPKEY = 0x02"
definition CHECKMAC_MODE_INCLUDE_OTP_64 :: u8 where "CHECKMAC_MODE_INCLUDE_OTP_64 = 0x20"
definition HMAC_MODE_MASK :: u8 where "HMAC_MODE_MASK = 0x74"
definition DERIVE_KEY_RANDOM_FLAG :: u8 where "DERIVE_KEY_RANDOM_FLAG = 4"
definition ATCA_KEY_ID_MAX :: u16 where "ATCA_KEY_ID_MAX = 15"
definition GENKEY_MODE_DIGEST :: u8 where "GENKEY_MODE_DIGEST = 0x08"
definition ATCA_GENDIG_ZEROS_SIZE :: nat where "ATCA_GENDIG_ZEROS_SIZE = 25"
definition ATCA_WRITE_MAC_ZEROS_SIZE :: nat where "ATCA_WRITE_MAC_ZEROS_SIZE = 25"
definition ATCA_PRIVWRITE_MAC_ZEROS_SIZE :: nat where "ATCA_PRIVWRITE_MAC_ZEROS_SIZE = 21"
definition ATCA_PRIVWRITE_PLAIN_TEXT_SIZE :: nat where "ATCA_PRIVWRITE_PLAIN_TEXT_SIZE = 36"
definition ATCA_DERIVE_KEY_ZEROS_SIZE :: nat where "ATCA_DERIVE_KEY_ZEROS_SIZE = 25"
definition HMAC_BLOCK_SIZE :: nat where "HMAC_BLOCK_SIZE = 64"

lemmas host_consts [model_eval] =
  MAC_MODE_INCLUDE_OTP_88_def MAC_MODE_INCLUDE_OTP_64_def MAC_MODE_INCLUDE_SN_def MAC_MODE_MASK_def
  MAC_MODE_BLOCK1_TEMPKEY_def MAC_MODE_USE_TEMPKEY_MASK_def MAC_MODE_SOURCE_FLAG_MATCH_def
  NONCE_ZERO_CALC_MASK_def NONCE_ZERO_CALC_TEMPKEY_def RANDOM_NUM_SIZE_def VERIFY_MODE_SOURCE_MASK_def
  SECUREBOOTCONFIG_MODE_MASK_def SECUREBOOTCONFIG_MODE_FULL_DIG_def CHECKMAC_MODE_BLOCK1_TEMPKEY_def
  CHECKMAC_MODE_INCLUDE_OTP_64_def HMAC_MODE_MASK_def DERIVE_KEY_RANDOM_FLAG_def ATCA_KEY_ID_MAX_def
  GENKEY_MODE_DIGEST_def ATCA_GENDIG_ZEROS_SIZE_def ATCA_WRITE_MAC_ZEROS_SIZE_def
  ATCA_PRIVWRITE_MAC_ZEROS_SIZE_def ATCA_PRIVWRITE_PLAIN_TEXT_SIZE_def ATCA_DERIVE_KEY_ZEROS_SIZE_def
  HMAC_BLOCK_SIZE_def

record atca_temp_key =
  tk_value :: "u8 list"
  tk_key_id :: "4 word"
  tk_source_flag :: bool
  tk_gen_dig_data :: bool
  tk_gen_key_data :: bool
  tk_no_mac_flag :: bool
  tk_valid :: bool
  tk_is_64 :: bool

definition temp_key_zero :: atca_temp_key where
  "temp_key_zero = \<lparr>tk_value = replicate 64 0, tk_key_id = 0, tk_source_flag = False, tk_gen_dig_data = False,
     tk_gen_key_data = False, tk_no_mac_flag = False, tk_valid = False, tk_is_64 = False\<rparr>"

text \<open>Reading through a pointer, and a digest written to the first bytes of the temporary key.\<close>

definition read_from :: "u8 list option \<Rightarrow> nat \<Rightarrow> nat \<Rightarrow> fault + u8 list" where
  "read_from p i n = (case p of
     None \<Rightarrow> Inl NullPointer
   | Some bs \<Rightarrow> if i + n \<le> length bs then Inr (take n (drop i bs)) else Inl OutOfBounds)"

definition set_value :: "u8 list \<Rightarrow> atca_temp_key \<Rightarrow> atca_temp_key" where
  "set_value bs tk = tk\<lparr>tk_value := memcpy_at 0 bs (tk_value tk)\<rparr>"

text \<open>A message is put together from its parts; some functions hash them one by one.\<close>

primrec gather :: "(fault + u8 list) list \<Rightarrow> fault + u8 list list" where
  "gather [] = Inr []"
| "gather (p # ps) = if_inr p (\<lambda>x. if_inr (gather ps) (\<lambda>xs. Inr (x # xs)))"

definition sw_digest :: "u8 list \<Rightarrow> fault + u8 list" where
  "sw_digest m = if_inr (atcac_sw_sha2_256 m (of_nat (length m)) sw_sha256_init []) (\<lambda>(_, d). Inr d)"

definition sw_hash :: "u8 list list \<Rightarrow> fault + u8 list" where
  "sw_hash ps = (let (_, ctx) = atcac_sw_sha2_256_init sw_sha256_init in
     if_inr (foldl (\<lambda>r p. if_inr r (\<lambda>ctx. if_inr (atcac_sw_sha2_256_update ctx p (of_nat (length p))) (\<lambda>(_, ctx). Inr ctx)))
       (Inr ctx) ps)
     (\<lambda>ctx. if_inr (atcac_sw_sha2_256_finish ctx) (\<lambda>(_, _, d). Inr d)))"

definition digest_of :: "(fault + u8 list) list \<Rightarrow> fault + u8 list" where
  "digest_of ps = if_inr (gather ps) (\<lambda>xs. sw_digest (concat xs))"

definition hash_of :: "(fault + u8 list) list \<Rightarrow> fault + u8 list" where
  "hash_of ps = if_inr (gather ps) sw_hash"

definition zero_bytes :: "nat \<Rightarrow> fault + u8 list" where
  "zero_bytes n = Inr (replicate n 0)"

definition xor_bytes :: "u8 list \<Rightarrow> u8 list \<Rightarrow> u8 list" where
  "xor_bytes a b = map2 (XOR) a b"

type_synonym 'a hosted = "fault + ATCA_STATUS \<times> 'a \<times> atca_temp_key option"

section \<open>Message authentication codes\<close>

definition atcah_include_data :: "u8 \<Rightarrow> u8 list option \<Rightarrow> u8 list option \<Rightarrow> (fault + u8 list) list" where
  "atcah_include_data mode otp sn =
     (if mode AND MAC_MODE_INCLUDE_OTP_88 \<noteq> 0 then [read_from otp 0 11]
      else [if mode AND MAC_MODE_INCLUDE_OTP_64 \<noteq> 0 then read_from otp 0 8 else zero_bytes 8, zero_bytes 3]) @
     [read_from sn 8 1,
      if mode AND MAC_MODE_INCLUDE_SN \<noteq> 0 then read_from sn 4 4 else zero_bytes 4,
      read_from sn 0 2,
      if mode AND MAC_MODE_INCLUDE_SN \<noteq> 0 then read_from sn 2 2 else zero_bytes 2]"

text \<open>
  The nonce. The second branch is for passing through; its condition asks for a mode that is
  exactly \<open>NONCE_MODE_PASSTHROUGH\<close> and has a target other than the temporary key.
\<close>

definition atcah_nonce ::
    "u8 \<Rightarrow> u16 \<Rightarrow> u8 list option \<Rightarrow> u8 list option \<Rightarrow> atca_temp_key option \<Rightarrow> unit hosted" where
  "atcah_nonce mode zero num_in rand_out temp_key =
     (let calc_mode = mode AND NONCE_MODE_MASK
      in case (temp_key, num_in) of
           (Some tk, Some _) \<Rightarrow>
             if calc_mode = NONCE_MODE_SEED_UPDATE \<or> calc_mode = NONCE_MODE_NO_SEED_UPDATE
             then
               if rand_out = None then Inr (ATCA_BAD_PARAM, (), temp_key)
               else if zero AND NONCE_ZERO_CALC_MASK = NONCE_ZERO_CALC_TEMPKEY
               then if_inr (read_from rand_out 0 32) (\<lambda>r. Inr (ATCA_SUCCESS, (), Some ((set_value r tk)\<lparr>tk_is_64 := False\<rparr>)))
               else if_inr (digest_of [read_from rand_out 0 RANDOM_NUM_SIZE, read_from num_in 0 NONCE_NUMIN_SIZE,
                   Inr [ATCA_NONCE, mode, 0]]) (\<lambda>d.
                 Inr (ATCA_SUCCESS, (), Some ((set_value d tk)\<lparr>tk_source_flag := False, tk_key_id := 0,
                   tk_gen_dig_data := False, tk_no_mac_flag := False, tk_valid := True, tk_is_64 := False\<rparr>)))
             else if mode = NONCE_MODE_PASSTHROUGH \<and> mode AND NONCE_MODE_TARGET_MASK \<noteq> NONCE_MODE_TARGET_TEMPKEY
             then
               let long = (mode AND NONCE_MODE_INPUT_LEN_MASK = NONCE_MODE_INPUT_LEN_64)
               in if_inr (read_from num_in 0 (if long then 64 else 32)) (\<lambda>n.
                    Inr (ATCA_SUCCESS, (), Some ((set_value n tk)\<lparr>tk_is_64 := long, tk_source_flag := True, tk_key_id := 0,
                      tk_gen_dig_data := False, tk_no_mac_flag := False, tk_valid := True\<rparr>)))
             else Inr (ATCA_SUCCESS, (), temp_key)
         | _ \<Rightarrow> Inr (ATCA_BAD_PARAM, (), temp_key))"

text \<open>The check of the temporary key that most functions make, which invalidates it when it fails.\<close>

definition with_temp_key ::
    "(atca_temp_key \<Rightarrow> bool) \<Rightarrow> atca_temp_key \<Rightarrow> 'a \<Rightarrow> (atca_temp_key \<Rightarrow> 'a hosted) \<Rightarrow> 'a hosted" where
  "with_temp_key bad tk out k =
     (if tk_no_mac_flag tk \<or> \<not> tk_valid tk \<or> bad tk
      then Inr (ATCA_EXECUTION_ERROR, out, Some (tk\<lparr>tk_valid := False\<rparr>))
      else k tk)"

definition atcah_mac ::
    "u8 \<Rightarrow> u16 \<Rightarrow> u8 list option \<Rightarrow> u8 list option \<Rightarrow> u8 list option \<Rightarrow> u8 list option \<Rightarrow> bool \<Rightarrow> atca_temp_key option \<Rightarrow>
     u8 list option hosted" where
  "atcah_mac mode key_id challenge key otp sn response temp_key =
     (let uses = (mode AND MAC_MODE_USE_TEMPKEY_MASK \<noteq> 0);
          value = map_option tk_value temp_key;
          go = if_inr (digest_of ([
              read_from (if mode AND MAC_MODE_BLOCK1_TEMPKEY \<noteq> 0 then value else key) 0 ATCA_KEY_SIZE,
              read_from (if mode AND MAC_MODE_BLOCK2_TEMPKEY \<noteq> 0 then value else challenge) 0 ATCA_KEY_SIZE,
              Inr [ATCA_MAC, mode], Inr (le16 key_id)] @ atcah_include_data mode otp sn))
            (\<lambda>d. Inr (ATCA_SUCCESS, Some d, map_option (\<lambda>tk. tk\<lparr>tk_valid := False\<rparr>) temp_key))
      in if \<not> response \<or> mode AND NOT MAC_MODE_MASK \<noteq> 0 \<or>
            mode AND MAC_MODE_BLOCK1_TEMPKEY = 0 \<and> key = None \<or>
            mode AND MAC_MODE_BLOCK2_TEMPKEY = 0 \<and> challenge = None \<or>
            uses \<and> temp_key = None \<or>
            (mode AND MAC_MODE_INCLUDE_OTP_64 \<noteq> 0 \<or> mode AND MAC_MODE_INCLUDE_OTP_88 \<noteq> 0) \<and> otp = None \<or>
            mode AND MAC_MODE_INCLUDE_SN \<noteq> 0 \<and> sn = None
         then Inr (ATCA_BAD_PARAM, None, temp_key)
         else if uses
         then with_temp_key (\<lambda>tk. (mode AND MAC_MODE_SOURCE_FLAG_MATCH \<noteq> 0) \<noteq> tk_source_flag tk) (the temp_key) None (\<lambda>_. go)
         else go)"

definition atcah_check_mac ::
    "u8 \<Rightarrow> u8 list option \<Rightarrow> u8 list option \<Rightarrow> bool \<Rightarrow> u8 list option \<Rightarrow> u8 list option \<Rightarrow> u8 list option \<Rightarrow> u8 list option \<Rightarrow>
     atca_temp_key option \<Rightarrow> u8 list option hosted" where
  "atcah_check_mac mode sn client_chal client_resp other_data otp slot_key target_key temp_key =
     (let b1 = (mode AND CHECKMAC_MODE_BLOCK1_TEMPKEY \<noteq> 0);
          b2 = (mode AND CHECKMAC_MODE_BLOCK2_TEMPKEY \<noteq> 0);
          copy = ((mode = 0x01 \<or> mode = 0x05) \<and> target_key \<noteq> None);
          otp_64 = (mode AND CHECKMAC_MODE_INCLUDE_OTP_64 \<noteq> 0);
          value = map_option tk_value temp_key
      in if other_data = None \<or> sn = None \<or> \<not> client_resp \<or> (b1 \<or> b2 \<or> copy) \<and> temp_key = None \<or>
            \<not> b1 \<and> slot_key = None \<or> \<not> b2 \<and> client_chal = None \<or> otp_64 \<and> otp = None
         then Inr (ATCA_BAD_PARAM, None, temp_key)
         else if (b1 \<or> b2) \<and> (\<not> tk_valid (the temp_key) \<or> (drop_bit 2 mode AND 1 \<noteq> 0) \<noteq> tk_source_flag (the temp_key))
         then Inr (ATCA_EXECUTION_ERROR, None, temp_key)
         else if_inr (digest_of [
             read_from (if b1 then value else slot_key) 0 32, read_from (if b2 then value else client_chal) 0 32,
             read_from other_data 0 4, if otp_64 then read_from otp 0 8 else zero_bytes 8, read_from other_data 4 3,
             read_from sn 8 1, read_from other_data 7 4, read_from sn 0 2, read_from other_data 11 2]) (\<lambda>d.
           if copy
           then if_inr (read_from target_key 0 ATCA_KEY_SIZE) (\<lambda>t.
             Inr (ATCA_SUCCESS, Some d, map_option (\<lambda>tk. (set_value t tk)\<lparr>tk_gen_dig_data := False,
               tk_source_flag := True, tk_valid := True\<rparr>) temp_key))
           else Inr (ATCA_SUCCESS, Some d, temp_key)))"

definition atcah_hmac ::
    "u8 \<Rightarrow> u16 \<Rightarrow> u8 list option \<Rightarrow> u8 list option \<Rightarrow> u8 list option \<Rightarrow> bool \<Rightarrow> atca_temp_key option \<Rightarrow> u8 list option hosted" where
  "atcah_hmac mode key_id key otp sn response temp_key =
     (case temp_key of
        None \<Rightarrow> Inr (ATCA_BAD_PARAM, None, None)
      | Some tk \<Rightarrow>
          if \<not> response \<or> key = None \<or> mode AND NOT HMAC_MODE_MASK \<noteq> 0 \<or>
             (mode AND MAC_MODE_INCLUDE_OTP_64 \<noteq> 0 \<or> mode AND MAC_MODE_INCLUDE_OTP_88 \<noteq> 0) \<and> otp = None \<or> sn = None
          then Inr (ATCA_BAD_PARAM, None, temp_key)
          else with_temp_key (\<lambda>tk. (mode AND MAC_MODE_SOURCE_FLAG_MATCH \<noteq> 0) \<noteq> tk_source_flag tk) tk None (\<lambda>tk.
            let pad = (\<lambda>b. if_inr (read_from key 0 ATCA_KEY_SIZE) (\<lambda>k.
              Inr (map (\<lambda>x. x XOR b) k @ replicate (HMAC_BLOCK_SIZE - ATCA_KEY_SIZE) b)))
            in if_inr (digest_of ([pad 0x36, zero_bytes ATCA_KEY_SIZE, read_from (Some (tk_value tk)) 0 ATCA_KEY_SIZE,
                 Inr [ATCA_HMAC, mode], Inr (le16 key_id)] @ atcah_include_data mode otp sn)) (\<lambda>inner.
               if_inr (digest_of [pad 0x5C, Inr inner]) (\<lambda>d.
                 Inr (ATCA_SUCCESS, Some d, Some (tk\<lparr>tk_valid := False\<rparr>))))))"

section \<open>The temporary key after GenDig and GenKey\<close>

definition sn_bytes :: "u8 list option \<Rightarrow> (fault + u8 list) list" where
  "sn_bytes sn = [read_from sn 8 1, read_from sn 0 2]"

definition gen_dig_flags :: "u8 \<Rightarrow> u16 \<Rightarrow> atca_temp_key \<Rightarrow> atca_temp_key" where
  "gen_dig_flags zone key_id tk =
     (let slot = (zone = GENDIG_ZONE_DATA \<and> key_id \<le> 15)
      in tk\<lparr>tk_valid := True, tk_gen_dig_data := slot, tk_key_id := (if slot then ucast key_id else 0)\<rparr>)"

text \<open>A shared nonce needs no stored value according to the checks, but its message reads one.\<close>

definition atcah_gen_dig ::
    "u8 \<Rightarrow> u16 \<Rightarrow> bool \<Rightarrow> u8 list option \<Rightarrow> u8 list option \<Rightarrow> u8 list option \<Rightarrow> atca_temp_key option \<Rightarrow> unit hosted" where
  "atcah_gen_dig zone key_id is_key_nomac sn stored_value other_data temp_key =
     (let shared = (zone = GENDIG_ZONE_SHARED_NONCE); nomac = (zone = GENDIG_ZONE_DATA \<and> is_key_nomac); upper = (key_id AND 0x8000 \<noteq> 0)
      in case temp_key of
           None \<Rightarrow> Inr (ATCA_BAD_PARAM, (), None)
         | Some tk \<Rightarrow>
             if sn = None \<or> \<not> shared \<and> stored_value = None \<or> (shared \<or> nomac) \<and> other_data = None \<or> zone > 5
             then Inr (ATCA_BAD_PARAM, (), temp_key)
             else if_inr (digest_of ([read_from (if shared \<and> upper then other_data else stored_value) 0 ATCA_KEY_SIZE,
                 if nomac then read_from other_data 0 4 else Inr ([ATCA_GENDIG, zone] @ le16 key_id)] @
                 sn_bytes sn @ [zero_bytes ATCA_GENDIG_ZEROS_SIZE,
                 read_from (if shared \<and> \<not> upper then other_data else Some (tk_value tk)) 0 ATCA_KEY_SIZE])) (\<lambda>d.
               Inr (ATCA_SUCCESS, (), Some (gen_dig_flags zone key_id (set_value d tk)))))"

definition write_message ::
    "u8 \<Rightarrow> u8 \<Rightarrow> u16 \<Rightarrow> u8 list option \<Rightarrow> nat \<Rightarrow> u8 list option \<Rightarrow> nat \<Rightarrow> atca_temp_key \<Rightarrow> (fault + u8 list) list" where
  "write_message opc zone key_id sn n_zeros plain n tk =
     [read_from (Some (tk_value tk)) 0 ATCA_KEY_SIZE, Inr ([opc, zone] @ le16 key_id)] @
     sn_bytes sn @ [zero_bytes n_zeros, read_from plain 0 n]"

definition atcah_gen_mac ::
    "u8 \<Rightarrow> u16 \<Rightarrow> u8 list option \<Rightarrow> u8 list option \<Rightarrow> atca_temp_key option \<Rightarrow> unit hosted" where
  "atcah_gen_mac zone key_id sn stored_value temp_key =
     (if stored_value = None \<or> temp_key = None then Inr (ATCA_BAD_PARAM, (), temp_key)
      else with_temp_key (\<lambda>_. False) (the temp_key) () (\<lambda>tk.
        if_inr (digest_of (write_message ATCA_WRITE zone key_id sn ATCA_GENDIG_ZEROS_SIZE stored_value ATCA_KEY_SIZE tk)) (\<lambda>d.
          Inr (ATCA_SUCCESS, (), Some (gen_dig_flags zone key_id (set_value d tk))))))"

text \<open>\<open>auth_mac\<close>: the caller has a buffer for the code.\<close>

definition atcah_write_auth_mac ::
    "u8 \<Rightarrow> u16 \<Rightarrow> u8 list option \<Rightarrow> u8 list option \<Rightarrow> bool \<Rightarrow> atca_temp_key option \<Rightarrow>
     (u8 list \<times> u8 list option) option hosted" where
  "atcah_write_auth_mac zone key_id sn input_data auth_mac temp_key =
     (if input_data = None \<or> temp_key = None then Inr (ATCA_BAD_PARAM, None, temp_key)
      else with_temp_key (\<lambda>_. False) (the temp_key) None (\<lambda>tk.
        if_inr (read_from input_data 0 32) (\<lambda>plain.
          let encrypted = xor_bytes plain (take 32 (tk_value tk))
          in if auth_mac
             then if_inr (digest_of (write_message ATCA_WRITE zone key_id sn ATCA_WRITE_MAC_ZEROS_SIZE input_data ATCA_KEY_SIZE tk)) (\<lambda>d.
               Inr (ATCA_SUCCESS, Some (encrypted, Some d), Some tk))
             else Inr (ATCA_SUCCESS, Some (encrypted, None), Some tk))))"

definition atcah_privwrite_auth_mac ::
    "u8 \<Rightarrow> u16 \<Rightarrow> u8 list option \<Rightarrow> u8 list option \<Rightarrow> bool \<Rightarrow> atca_temp_key option \<Rightarrow>
     (u8 list \<times> u8 list option) option hosted" where
  "atcah_privwrite_auth_mac zone key_id sn input_data auth_mac temp_key =
     (if input_data = None \<or> temp_key = None then Inr (ATCA_BAD_PARAM, None, temp_key)
      else with_temp_key (\<lambda>_. False) (the temp_key) None (\<lambda>tk.
        if_inr (read_from input_data 0 36) (\<lambda>plain.
        if_inr (digest_of [read_from (Some (tk_value tk)) 0 32]) (\<lambda>session_key2.
          let encrypted = xor_bytes (take 32 plain) (take 32 (tk_value tk)) @ xor_bytes (drop 32 plain) (take 4 session_key2)
          in if auth_mac
             then if_inr (digest_of (write_message ATCA_PRIVWRITE zone key_id sn ATCA_PRIVWRITE_MAC_ZEROS_SIZE input_data
                 ATCA_PRIVWRITE_PLAIN_TEXT_SIZE tk)) (\<lambda>d.
               Inr (ATCA_SUCCESS, Some (encrypted, Some d), Some tk))
             else Inr (ATCA_SUCCESS, Some (encrypted, None), Some tk)))))"

definition atcah_decrypt :: "u8 list option \<Rightarrow> atca_temp_key option \<Rightarrow> u8 list option hosted" where
  "atcah_decrypt crypto_data temp_key =
     (if crypto_data = None \<or> temp_key = None then Inr (ATCA_BAD_PARAM, None, temp_key)
      else with_temp_key (\<lambda>tk. \<not> tk_gen_dig_data tk \<or> tk_source_flag tk) (the temp_key) None (\<lambda>tk.
        if_inr (read_from crypto_data 0 ATCA_KEY_SIZE) (\<lambda>d.
          Inr (ATCA_SUCCESS, Some (xor_bytes d (take ATCA_KEY_SIZE (tk_value tk))), Some (tk\<lparr>tk_valid := False\<rparr>)))))"

section \<open>Keys\<close>

definition derive_message :: "u8 \<Rightarrow> u16 \<Rightarrow> u8 list option \<Rightarrow> u8 list option \<Rightarrow> (fault + u8 list) list" where
  "derive_message mode target_key_id sn parent_key =
     [read_from parent_key 0 ATCA_KEY_SIZE, Inr ([ATCA_DERIVE_KEY, mode] @ le16 target_key_id)] @ sn_bytes sn"

definition atcah_derive_key ::
    "u8 \<Rightarrow> u16 \<Rightarrow> u8 list option \<Rightarrow> u8 list option \<Rightarrow> bool \<Rightarrow> atca_temp_key option \<Rightarrow> u8 list option hosted" where
  "atcah_derive_key mode target_key_id sn parent_key target_key temp_key =
     (if parent_key = None \<or> \<not> target_key \<or> temp_key = None \<or> mode AND NOT DERIVE_KEY_RANDOM_FLAG \<noteq> 0 \<or>
         target_key_id > ATCA_KEY_ID_MAX
      then Inr (ATCA_BAD_PARAM, None, temp_key)
      else with_temp_key (\<lambda>tk. (mode AND DERIVE_KEY_RANDOM_FLAG \<noteq> 0) \<noteq> tk_source_flag tk) (the temp_key) None (\<lambda>tk.
        if_inr (digest_of (derive_message mode target_key_id sn parent_key @
            [zero_bytes ATCA_DERIVE_KEY_ZEROS_SIZE, read_from (Some (tk_value tk)) 0 ATCA_KEY_SIZE])) (\<lambda>d.
          Inr (ATCA_SUCCESS, Some d, Some (tk\<lparr>tk_valid := False\<rparr>)))))"

definition atcah_derive_key_mac ::
    "u8 \<Rightarrow> u16 \<Rightarrow> u8 list option \<Rightarrow> u8 list option \<Rightarrow> bool \<Rightarrow> fault + ATCA_STATUS \<times> u8 list option" where
  "atcah_derive_key_mac mode target_key_id sn parent_key mac =
     (if parent_key = None \<or> \<not> mac \<or> mode AND NOT DERIVE_KEY_RANDOM_FLAG \<noteq> 0 \<or> target_key_id > ATCA_KEY_ID_MAX
      then Inr (ATCA_BAD_PARAM, None)
      else if_inr (digest_of (derive_message mode target_key_id sn parent_key)) (\<lambda>d. Inr (ATCA_SUCCESS, Some d)))"

text \<open>The length is signed; a negative one becomes a huge size.\<close>

definition atcah_sha256 :: "32 word \<Rightarrow> u8 list \<Rightarrow> u8 list \<Rightarrow> fault + ATCA_STATUS \<times> u8 list" where
  "atcah_sha256 len message digest = atcac_sw_sha2_256 message (scast len) sw_sha256_init digest"

definition atcah_gen_key_msg ::
    "u8 \<Rightarrow> u16 \<Rightarrow> u8 list option \<Rightarrow> nat \<Rightarrow> u8 list option \<Rightarrow> u8 list option \<Rightarrow> atca_temp_key option \<Rightarrow> unit hosted" where
  "atcah_gen_key_msg mode key_id public_key public_key_size other_data sn temp_key =
     (case temp_key of
        None \<Rightarrow> Inr (ATCA_BAD_PARAM, (), None)
      | Some tk \<Rightarrow>
          if public_key = None \<or> sn = None \<or> public_key_size = 0 \<or> public_key_size > 88 then Inr (ATCA_BAD_PARAM, (), temp_key)
          else
            let go = (\<lambda>p. if_inr (digest_of ([read_from (Some (tk_value tk)) 0 32, Inr [ATCA_GENKEY], p] @ sn_bytes sn @
                [zero_bytes (128 - public_key_size - 39), read_from public_key 0 public_key_size])) (\<lambda>d.
              Inr (ATCA_SUCCESS, (), Some ((set_value d tk)\<lparr>tk_gen_dig_data := False, tk_gen_key_data := True, tk_key_id := ucast key_id\<rparr>))))
            in if mode AND GENKEY_MODE_PUBKEY_DIGEST \<noteq> 0
               then if other_data = None then Inr (ATCA_BAD_PARAM, (), temp_key) else go (read_from other_data 0 3)
               else if mode AND GENKEY_MODE_DIGEST \<noteq> 0 then go (Inr (mode # le16 key_id))
               else Inr (ATCA_SUCCESS, (), temp_key))"

section \<open>Internal signatures\<close>

record atca_sign_internal_in_out =
  si_mode :: u8
  si_key_id :: u16
  si_slot_config :: u16
  si_key_config :: u16
  si_use_flag :: u8
  si_update_count :: u8
  si_is_slot_locked :: bool
  si_for_invalidate :: bool

definition of_le16_at :: "u8 list \<Rightarrow> nat \<Rightarrow> u16" where
  "of_le16_at bs i = of_le16 [bs ! i, bs ! (i + 1)]"

definition atcah_config_to_sign_internal ::
    "ATCADeviceType \<Rightarrow> atca_sign_internal_in_out \<Rightarrow> atca_temp_key option \<Rightarrow> u8 list option \<Rightarrow>
     fault + ATCA_STATUS \<times> atca_sign_internal_in_out" where
  "atcah_config_to_sign_internal dt param temp_key config =
     (case (temp_key, config) of
        (Some tk, Some cfg) \<Rightarrow>
          if length cfg < 128 then Inl OutOfBounds
          else
            let k = unat (tk_key_id tk); counts = (dt = ATECC108A \<and> k < 8)
            in Inr (ATCA_SUCCESS, param\<lparr>si_slot_config := of_le16_at cfg (20 + k * 2), si_key_config := of_le16_at cfg (96 + k * 2),
                 si_use_flag := (if counts then cfg ! (52 + k * 2) else 0),
                 si_update_count := (if counts then cfg ! (52 + k * 2) else 0),
                 si_is_slot_locked := (of_le16_at cfg 88 AND push_bit k 1 = 0)\<rparr>)
      | _ \<Rightarrow> Inr (ATCA_BAD_PARAM, param))"

definition flag_bit :: "nat \<Rightarrow> bool \<Rightarrow> u8" where
  "flag_bit n b = (if b then push_bit n 1 else 0)"

text \<open>The outputs are the message, the other data and the digest; the code writes those for which it gets a buffer.\<close>

definition atcah_sign_internal_msg ::
    "ATCADeviceType \<Rightarrow> atca_sign_internal_in_out \<Rightarrow> u8 list option \<Rightarrow> atca_temp_key option \<Rightarrow>
     fault + ATCA_STATUS \<times> (u8 list \<times> u8 list \<times> u8 list) option" where
  "atcah_sign_internal_msg dt param sn temp_key =
     (case (temp_key, sn) of
        (Some tk, Some _) \<Rightarrow>
          let full = (si_mode param AND SIGN_MODE_INCLUDE_SN \<noteq> 0); counts = (dt = ATECC108A \<and> tk_key_id tk < 8)
          in if_inr (gather [read_from (Some (tk_value tk)) 0 32, Inr [ATCA_SIGN, si_mode param], Inr (le16 (si_key_id param)),
               Inr (le16 (si_slot_config param)), Inr (le16 (si_key_config param)),
               Inr [ucast (tk_key_id tk) OR flag_bit 4 (tk_source_flag tk) OR flag_bit 5 (tk_gen_dig_data tk) OR
                 flag_bit 6 (tk_gen_key_data tk) OR flag_bit 7 (tk_no_mac_flag tk),
                 if counts then si_use_flag param else 0, if counts then si_update_count param else 0],
               read_from sn 8 1, if full then read_from sn 4 4 else zero_bytes 4, read_from sn 0 2, if full then read_from sn 2 2 else zero_bytes 2,
               Inr [if si_is_slot_locked param then 0 else 1, if si_for_invalidate param then 1 else 0, 0]]) (\<lambda>ps.
             let msg = concat ps
             in if_inr (sw_digest msg) (\<lambda>d.
               Inr (ATCA_SUCCESS, Some (msg, take 10 (drop 33 msg) @ take 4 (drop 44 msg) @ take 5 (drop 50 msg), d))))
      | _ \<Rightarrow> Inr (ATCA_BAD_PARAM, None))"

definition atcah_encode_counter_match :: "u32 \<Rightarrow> bool \<Rightarrow> ATCA_STATUS \<times> u8 list option" where
  "atcah_encode_counter_match counter buffer =
     (if counter > COUNTER_MAX_VALUE \<or> counter mod 32 \<noteq> 0 \<or> \<not> buffer then (ATCA_BAD_PARAM, None)
      else (ATCA_SUCCESS, Some (le32 counter @ le32 counter)))"

section \<open>The input and output protection of the ATECC608A\<close>

text \<open>The block numbered \<open>b\<close> of 32 bytes is encrypted with a key made of half a nonce.\<close>

primrec io_decrypt_blocks :: "u8 list option \<Rightarrow> u8 list option \<Rightarrow> nat \<Rightarrow> nat \<Rightarrow> u8 list \<Rightarrow> fault + u8 list" where
  "io_decrypt_blocks io_key out_nonce 0 b data = Inr data"
| "io_decrypt_blocks io_key out_nonce (Suc n) b data =
     if_inr (hash_of [read_from io_key 0 32, read_from out_nonce (b * 16) 16]) (\<lambda>key.
     if_inr (read_from (Some data) (b * 32) 32) (\<lambda>d.
       io_decrypt_blocks io_key out_nonce n (b + 1) (memcpy_at (b * 32) (xor_bytes d key) data)))"

definition atcah_io_decrypt :: "u8 list option \<Rightarrow> u8 list option \<Rightarrow> u8 list option \<Rightarrow> nat \<Rightarrow> fault + ATCA_STATUS \<times> u8 list option" where
  "atcah_io_decrypt io_key out_nonce data data_size =
     (if io_key = None \<or> out_nonce = None \<or> data = None \<or> data_size mod 32 \<noteq> 0 then Inr (ATCA_BAD_PARAM, data)
      else if_inr (io_decrypt_blocks io_key out_nonce (data_size div 32) 0 (the data)) (\<lambda>d. Inr (ATCA_SUCCESS, Some d)))"

definition atcah_verify_mac ::
    "u8 \<Rightarrow> u16 \<Rightarrow> u8 list option \<Rightarrow> u8 list option \<Rightarrow> u8 list option \<Rightarrow> u8 list option \<Rightarrow> u8 list option \<Rightarrow> atca_temp_key option \<Rightarrow>
     fault + ATCA_STATUS \<times> u8 list option" where
  "atcah_verify_mac mode key_id signature other_data msg_dig_buf io_key sn temp_key =
     (let verify_mode = mode AND VERIFY_MODE_MASK;
          internal = (verify_mode = VERIFY_MODE_VALIDATE \<or> verify_mode = VERIFY_MODE_INVALIDATE);
          digbuf = (mode AND VERIFY_MODE_SOURCE_MASK = VERIFY_MODE_SOURCE_MSGDIGBUF);
          value = map_option tk_value temp_key
      in if signature = None \<or> msg_dig_buf = None \<or> io_key = None \<or>
            internal \<and> (other_data = None \<or> temp_key = None \<or> sn = None) \<or> \<not> internal \<and> \<not> digbuf \<and> temp_key = None
         then Inr (ATCA_BAD_PARAM, None)
         else
           let message = (if internal
                 then hash_of [read_from value 0 32, Inr [ATCA_SIGN], read_from other_data 0 10, read_from sn 8 1,
                   read_from other_data 10 4, read_from sn 0 2, read_from other_data 14 5]
                 else read_from (if digbuf then msg_dig_buf else value) 0 32)
           in if_inr (hash_of [read_from io_key 0 ATCA_KEY_SIZE, message, read_from msg_dig_buf (if digbuf then 32 else 0) 32,
                read_from signature 0 64, Inr ([ATCA_VERIFY, mode] @ le16 key_id)]) (\<lambda>d. Inr (ATCA_SUCCESS, Some d)))"

text \<open>The encrypted digest and the hashed key.\<close>

definition atcah_secureboot_enc ::
    "u8 list option \<Rightarrow> atca_temp_key option \<Rightarrow> u8 list option \<Rightarrow> fault + ATCA_STATUS \<times> (u8 list \<times> u8 list) option" where
  "atcah_secureboot_enc io_key temp_key digest =
     (if digest = None \<or> temp_key = None \<or> io_key = None then Inr (ATCA_BAD_PARAM, None)
      else if_inr (hash_of [read_from io_key 0 ATCA_KEY_SIZE, read_from (map_option tk_value temp_key) 0 ATCA_KEY_SIZE]) (\<lambda>hashed_key.
        if_inr (read_from digest 0 32) (\<lambda>d. Inr (ATCA_SUCCESS, Some (xor_bytes d hashed_key, hashed_key)))))"

definition atcah_secureboot_mac ::
    "u8 \<Rightarrow> u16 \<Rightarrow> u16 \<Rightarrow> u8 list option \<Rightarrow> u8 list option \<Rightarrow> u8 list option \<Rightarrow> bool \<Rightarrow> fault + ATCA_STATUS \<times> u8 list option" where
  "atcah_secureboot_mac mode p2 secure_boot_config hashed_key digest signature mac =
     (let skip = (mode AND SECUREBOOT_MODE_MASK = SECUREBOOT_MODE_FULL_STORE \<and>
            secure_boot_config AND SECUREBOOTCONFIG_MODE_MASK = SECUREBOOTCONFIG_MODE_FULL_DIG)
      in if hashed_key = None \<or> digest = None \<or> \<not> mac \<or> \<not> skip \<and> signature = None then Inr (ATCA_BAD_PARAM, None)
         else if_inr (hash_of ([read_from hashed_key 0 ATCA_KEY_SIZE, read_from digest 0 32] @
             (if skip then [] else [read_from signature 0 64]) @ [Inr ([ATCA_SECUREBOOT, mode] @ le16 p2)])) (\<lambda>d.
           Inr (ATCA_SUCCESS, Some d)))"

section \<open>Digests\<close>

lemma sw_digest_is_fips: "length m < 2 ^ 29 \<Longrightarrow> sw_digest m = Inr (fips_sha256 m)"
  by (simp add: sw_digest_def atcac_sw_sha2_256_digest)

lemma sw_hash_is_fips:
  assumes "length (concat ps) < 2 ^ 29"
  shows "sw_hash ps = Inr (fips_sha256 (concat ps))"
proof -
  have "foldl (\<lambda>r p. if_inr r (\<lambda>ctx. if_inr (atcac_sw_sha2_256_update ctx p (of_nat (length p))) (\<lambda>(_, ctx). Inr ctx))) r ps =
      foldl (\<lambda>r p. if_inr r (\<lambda>ctx. sw_sha256_update ctx p (of_nat (length p)))) r ps" for r
    using assms
  proof (induction ps arbitrary: r)
    case (Cons p ps)
    have "(ucast (of_nat (length p) :: u64) :: u32) = of_nat (length p)"
      using Cons.prems by (simp add: word_unat_eq_iff unat_of_nat unsigned_ucast_eq take_bit_nat_eq_self)
    then have "if_inr r (\<lambda>ctx. if_inr (atcac_sw_sha2_256_update ctx p (of_nat (length p))) (\<lambda>(_, ctx). Inr ctx)) =
        if_inr r (\<lambda>ctx. sw_sha256_update ctx p (of_nat (length p)))"
      by (cases r) (simp_all add: atcac_sw_sha2_256_update_def if_inr_def split: sum.splits)
    with Cons show ?case by simp
  qed simp
  then show ?thesis using sw_sha256_digest [OF assms]
    by (auto simp: sw_hash_def atcac_sw_sha2_256_init_def sizeof_sw_sha256_ctx_def sizeof_atcac_sha2_256_ctx_def updates_def
        atcac_sw_sha2_256_finish_def)
qed

lemma read_from_some: "i + n \<le> length bs \<Longrightarrow> read_from (Some bs) i n = Inr (take n (drop i bs))"
  by (simp add: read_from_def)

end
