(* ===== verification/AtcaSecure.thy ===== *)
theory AtcaSecure
  imports AtcaHost
begin

text \<open>
  The basic commands that compute with the host library: encrypted reads and writes, private keys,
  key agreement with an encrypted result, verification with a code (\<open>atcab_read_enc\<close>,
  \<open>atcab_write_enc\<close>, \<open>atca_basic_privwrite.c\<close>, the other functions of \<open>atca_basic_ecdh.c\<close>,
  \<open>_verify.c\<close>, \<open>_secureboot.c\<close>), and the functions on whole zones that are left.
\<close>

definition SECUREBOOTCONFIG_OFFSET :: nat where "SECUREBOOTCONFIG_OFFSET = 70"
definition ECDH_MODE_SOURCE_EEPROM_SLOT :: u8 where "ECDH_MODE_SOURCE_EEPROM_SLOT = 0x00"
definition ECDH_MODE_OUTPUT_ENC :: u8 where "ECDH_MODE_OUTPUT_ENC = 0x02"
definition PRIVWRITE_MODE_ENCRYPT :: u8 where "PRIVWRITE_MODE_ENCRYPT = 0x40"
definition ATCA_ZONE_ENCRYPTED :: u8 where "ATCA_ZONE_ENCRYPTED = 0x40"
definition ATCA_PUB_KEY_PAD :: nat where "ATCA_PUB_KEY_PAD = 4"
definition UPDATE_MODE_USER_EXTRA :: u8 where "UPDATE_MODE_USER_EXTRA = 0x00"
definition UPDATE_MODE_SELECTOR :: u8 where "UPDATE_MODE_SELECTOR = 0x01"

lemmas secure_consts [model_eval] =
  SECUREBOOTCONFIG_OFFSET_def ECDH_MODE_SOURCE_EEPROM_SLOT_def ECDH_MODE_OUTPUT_ENC_def
  PRIVWRITE_MODE_ENCRYPT_def ATCA_ZONE_ENCRYPTED_def ATCA_PUB_KEY_PAD_def UPDATE_MODE_USER_EXTRA_def UPDATE_MODE_SELECTOR_def

section \<open>Sessions\<close>

definition on_host :: "fault + 'a \<Rightarrow> ('a \<Rightarrow> 'b run) \<Rightarrow> 'b run" where
  "on_host r k = (case r of Inl e \<Rightarrow> Some (Inl e) | Inr x \<Rightarrow> k x)"

text \<open>
  The start of encrypted commands: a nonce and the key in a slot give the temporary key, in the
  chip and here. The serial number is put together in the buffer of the block it is read to.
\<close>

definition start_session ::
    "u8 list \<Rightarrow> u16 \<Rightarrow> 's atcab \<Rightarrow> (ATCA_STATUS \<times> (u8 list \<times> atca_temp_key option) option \<times> 's atcab) run" where
  "start_session enc_key enc_key_id st =
     if_runs (atcab_read_zone ATCA_ZONE_CONFIG 0 0 0 32 st) (\<lambda>(status, buf, st).
       case buf of
         None \<Rightarrow> Some (Inr (status, None, st))
       | Some buf \<Rightarrow>
           let sn = take 4 buf @ take 5 (drop 8 buf) @ drop 9 buf; num_in = replicate NONCE_NUMIN_SIZE 0
           in if_runs (atcab_nonce_rand num_in st) (\<lambda>(status, rand_out, st).
                if status \<noteq> ATCA_SUCCESS then Some (Inr (status, None, st))
                else
                  let rand_out = (case rand_out of None \<Rightarrow> replicate RANDOM_NUM_SIZE 0 | Some r \<Rightarrow> r)
                  in on_host (atcah_nonce NONCE_MODE_SEED_UPDATE 0 (Some num_in) (Some rand_out) (Some temp_key_zero)) (\<lambda>(status, _, tk).
                       if status \<noteq> ATCA_SUCCESS then Some (Inr (status, None, st))
                       else
                         let other_data = [ATCA_GENDIG, GENDIG_ZONE_DATA] @ le16 enc_key_id
                         in if_runs (atcab_gendig GENDIG_ZONE_DATA enc_key_id (Some other_data) 4 st) (\<lambda>(status, st).
                              if status \<noteq> ATCA_SUCCESS then Some (Inr (status, None, st))
                              else on_host (atcah_gen_dig GENDIG_ZONE_DATA enc_key_id False (Some sn) (Some enc_key) (Some other_data) tk)
                                (\<lambda>(status, _, tk). Some (Inr (status, if status = ATCA_SUCCESS then Some (sn, tk) else None, st)))))))"

definition with_session ::
    "u8 list \<Rightarrow> u16 \<Rightarrow> (u8 list \<Rightarrow> atca_temp_key option \<Rightarrow> 's atcab \<Rightarrow> (ATCA_STATUS \<times> 'o option \<times> 's atcab) run) \<Rightarrow> 's atcab \<Rightarrow>
     (ATCA_STATUS \<times> 'o option \<times> 's atcab) run" where
  "with_session enc_key enc_key_id k st =
     if_runs (start_session enc_key enc_key_id st) (\<lambda>(status, session, st).
       case session of None \<Rightarrow> Some (Inr (status, None, st)) | Some (sn, tk) \<Rightarrow> k sn tk st)"

definition atcab_read_enc ::
    "u16 \<Rightarrow> u8 \<Rightarrow> u8 list \<Rightarrow> u16 \<Rightarrow> 's atcab \<Rightarrow> (ATCA_STATUS \<times> u8 list option \<times> 's atcab) run" where
  "atcab_read_enc key_id blk enc_key enc_key_id = with_session enc_key enc_key_id (\<lambda>sn tk st.
     if_runs (atcab_read_zone (ATCA_ZONE_DATA OR ATCA_ZONE_READWRITE_32) key_id blk 0 ATCA_BLOCK_SIZE st) (\<lambda>(status, data, st).
       Some (Inr (status, map_option (\<lambda>d. xor_bytes d (take 32 (tk_value (the tk)))) data, st))))"

definition atcab_write_enc ::
    "u16 \<Rightarrow> u8 \<Rightarrow> u8 list \<Rightarrow> u8 list \<Rightarrow> u16 \<Rightarrow> 's atcab \<Rightarrow> (ATCA_STATUS \<times> 's atcab) run" where
  "atcab_write_enc key_id blk data enc_key enc_key_id st = only_status (with_session enc_key enc_key_id (\<lambda>sn tk st.
     case atcab_get_addr ATCA_ZONE_DATA key_id blk 0 of
       (status, None) \<Rightarrow> Some (Inr (status, None :: unit option, st))
     | (status, Some addr) \<Rightarrow>
         let zone = (ATCA_ZONE_DATA OR ATCA_ZONE_READWRITE_32) OR ATCA_ZONE_ENCRYPTED
         in on_host (atcah_write_auth_mac zone addr (Some sn) (Some data) True tk) (\<lambda>(status, out, tk).
              case out of
                None \<Rightarrow> Some (Inr (status, None, st))
              | Some (cipher_text, mac) \<Rightarrow>
                  if_runs (atcab_write zone addr cipher_text mac st) (\<lambda>(status, st). Some (Inr (status, None, st))))) st)"

definition atcab_priv_write ::
    "u16 \<Rightarrow> u8 list \<Rightarrow> u16 \<Rightarrow> u8 list option \<Rightarrow> 's atcab \<Rightarrow> (ATCA_STATUS \<times> 's atcab) run" where
  "atcab_priv_write key_id priv_key write_key_id write_key = with_device (\<lambda>dev st.
     let (packet, st) = found_packet st;
         send = (\<lambda>mode dat mac st. only_status (command atPrivWrite
           (copy_in 36 32 mac (copy_in 0 36 dat (packet\<lparr>param1 := mode, param2 := key_id\<rparr>))) (\<lambda>_. None :: unit option) dev st))
     in if key_id > 15 then Some (Inr (ATCA_BAD_PARAM, st))
        else case write_key of
            None \<Rightarrow> needs 36 priv_key (send 0 priv_key (replicate 32 0) st)
          | Some write_key \<Rightarrow>
              if_runs (start_session write_key write_key_id st) (\<lambda>(status, session, st).
                case session of
                  None \<Rightarrow> Some (Inr (status, st))
                | Some (sn, tk) \<Rightarrow>
                    on_host (atcah_privwrite_auth_mac PRIVWRITE_MODE_ENCRYPT key_id (Some sn) (Some priv_key) True tk) (\<lambda>(status, out, tk).
                      case out of
                        None \<Rightarrow> Some (Inr (status, st))
                      | Some (cipher_text, mac) \<Rightarrow> send PRIVWRITE_MODE_ENCRYPT cipher_text (the mac) st)))"

section \<open>Key agreement with an encrypted result\<close>

definition atcab_ecdh_enc ::
    "u16 \<Rightarrow> u8 list \<Rightarrow> u8 list \<Rightarrow> u16 \<Rightarrow> 's atcab \<Rightarrow> (ATCA_STATUS \<times> u8 list option \<times> 's atcab) run" where
  "atcab_ecdh_enc key_id public_key read_key read_key_id st =
     if_runs (atcab_ecdh key_id public_key st) (\<lambda>(status, _, st).
       if status \<noteq> ATCA_SUCCESS then Some (Inr (status, None, st))
       else atcab_read_enc (key_id OR 0x0001) 0 read_key read_key_id st)"

text \<open>The premaster secret and the nonce are in buffers that are not initialised before.\<close>

definition ecdh_decrypted ::
    "u8 list option \<Rightarrow> (ATCA_STATUS \<times> (u8 list option \<times> u8 list option) \<times> 's atcab) run \<Rightarrow>
     (ATCA_STATUS \<times> u8 list option \<times> 's atcab) run" where
  "ecdh_decrypted io_key r = if_runs r (\<lambda>(status, (pms, out_nonce), st).
     if status \<noteq> ATCA_SUCCESS then Some (Inr (status, pms, st))
     else if io_key \<noteq> None \<and> (pms = None \<or> out_nonce = None) then Some (Inl Uninitialised)
     else on_host (atcah_io_decrypt io_key out_nonce pms 32) (\<lambda>(status, d). Some (Inr (status, d, st))))"

definition atcab_ecdh_ioenc ::
    "u16 \<Rightarrow> u8 list \<Rightarrow> u8 list option \<Rightarrow> 's atcab \<Rightarrow> (ATCA_STATUS \<times> u8 list option \<times> 's atcab) run" where
  "atcab_ecdh_ioenc key_id public_key io_key st =
     ecdh_decrypted io_key (atcab_ecdh_base (ECDH_MODE_SOURCE_EEPROM_SLOT OR ECDH_MODE_OUTPUT_ENC OR ECDH_MODE_COPY_OUTPUT_BUFFER)
       key_id public_key st)"

definition atcab_ecdh_tempkey_ioenc ::
    "u8 list \<Rightarrow> u8 list option \<Rightarrow> 's atcab \<Rightarrow> (ATCA_STATUS \<times> u8 list option \<times> 's atcab) run" where
  "atcab_ecdh_tempkey_ioenc public_key io_key st =
     ecdh_decrypted io_key (atcab_ecdh_base (ECDH_MODE_SOURCE_TEMPKEY OR ECDH_MODE_OUTPUT_ENC OR ECDH_MODE_COPY_OUTPUT_BUFFER)
       0 public_key st)"

section \<open>Verification with a code\<close>

text \<open>Without a code in the response, the buffer it is compared with is not initialised.\<close>

definition atcab_verify_extern_stored_mac ::
    "u8 \<Rightarrow> u16 \<Rightarrow> u8 list \<Rightarrow> u8 list \<Rightarrow> u8 list option \<Rightarrow> u8 list \<Rightarrow> u8 list \<Rightarrow> 's atcab \<Rightarrow>
     (ATCA_STATUS \<times> bool \<times> 's atcab) run" where
  "atcab_verify_extern_stored_mac mode key_id message signature public_key num_in io_key st =
     (if mode AND VERIFY_MODE_MASK = VERIFY_MODE_EXTERNAL \<and> public_key = None then Some (Inr (ATCA_BAD_PARAM, False, st))
      else needs 32 message (needs 32 num_in (
        let msg_dig_buf = take 32 message @ take 32 num_in
        in if_runs (atcab_nonce_load NONCE_MODE_TARGET_MSGDIGBUF msg_dig_buf 64 st) (\<lambda>(status, st).
             if status \<noteq> ATCA_SUCCESS then Some (Inr (status, False, st))
             else
               let mode = mode OR VERIFY_MODE_SOURCE_MSGDIGBUF OR VERIFY_MODE_MAC_FLAG
               in on_host (atcah_verify_mac mode key_id (Some signature) None (Some msg_dig_buf) (Some io_key) None None) (\<lambda>(status, host_mac).
                    if status \<noteq> ATCA_SUCCESS then Some (Inr (status, False, st))
                    else if_runs (atcab_verify mode key_id signature public_key None st) (\<lambda>(status, mac, st).
                      if status = ATCA_CHECKMAC_VERIFY_FAILED then Some (Inr (ATCA_SUCCESS, False, st))
                      else case mac of
                          None \<Rightarrow> Some (Inl Uninitialised)
                        | Some m \<Rightarrow> Some (Inr (status, host_mac = Some m, st))))))))"

definition atcab_verify_extern_mac ::
    "u8 list \<Rightarrow> u8 list \<Rightarrow> u8 list option \<Rightarrow> u8 list \<Rightarrow> u8 list \<Rightarrow> 's atcab \<Rightarrow> (ATCA_STATUS \<times> bool \<times> 's atcab) run" where
  "atcab_verify_extern_mac = atcab_verify_extern_stored_mac VERIFY_MODE_EXTERNAL VERIFY_KEY_P256"

definition atcab_verify_stored_mac ::
    "u8 list \<Rightarrow> u8 list \<Rightarrow> u16 \<Rightarrow> u8 list \<Rightarrow> u8 list \<Rightarrow> 's atcab \<Rightarrow> (ATCA_STATUS \<times> bool \<times> 's atcab) run" where
  "atcab_verify_stored_mac message signature key_id num_in io_key =
     atcab_verify_extern_stored_mac VERIFY_MODE_STORED key_id message signature None num_in io_key"

text \<open>
  The secure boot. Before its fields are set, the parameter structure is filled from the digest:
  five pointers, 40 bytes on this processor.
\<close>

definition sizeof_secureboot_enc_params :: nat where
  "sizeof_secureboot_enc_params = 5 * 8"

definition atcab_secureboot_mac ::
    "u8 \<Rightarrow> u8 list \<Rightarrow> u8 list option \<Rightarrow> u8 list \<Rightarrow> u8 list \<Rightarrow> 's atcab \<Rightarrow> (ATCA_STATUS \<times> bool \<times> 's atcab) run" where
  "atcab_secureboot_mac mode digest signature num_in io_key st =
     if_runs (atcab_nonce_base NONCE_MODE_SEED_UPDATE 0 num_in st) (\<lambda>(status, rand_out, st).
       if status \<noteq> ATCA_SUCCESS then Some (Inr (status, False, st))
       else if rand_out = None then Some (Inl Uninitialised)
       else on_host (atcah_nonce NONCE_MODE_SEED_UPDATE 0 (Some num_in) rand_out (Some temp_key_zero)) (\<lambda>(status, _, tk).
         if status \<noteq> ATCA_SUCCESS then Some (Inr (status, False, st))
         else needs sizeof_secureboot_enc_params digest (
           on_host (atcah_secureboot_enc (Some io_key) tk (Some digest)) (\<lambda>(status, out).
             case out of
               None \<Rightarrow> Some (Inr (status, False, st))
             | Some (digest_enc, key) \<Rightarrow>
                 let mode = mode OR SECUREBOOT_MODE_ENC_MAC_FLAG
                 in if_runs (atcab_secureboot mode 0 (Some digest_enc) signature st) (\<lambda>(status, mac, st).
                      if status = ATCA_CHECKMAC_VERIFY_FAILED then Some (Inr (ATCA_SUCCESS, False, st))
                      else if status \<noteq> ATCA_SUCCESS then Some (Inr (status, False, st))
                      else if_runs (atcab_read_bytes_zone ATCA_ZONE_CONFIG 0 SECUREBOOTCONFIG_OFFSET 2 st) (\<lambda>(status, buf, st).
                        if status \<noteq> ATCA_SUCCESS then Some (Inr (status, False, st))
                        else on_host (atcah_secureboot_mac mode 0 (of_le16_at buf 0) (Some key) (Some digest) signature True)
                          (\<lambda>(status, host_mac).
                          if status \<noteq> ATCA_SUCCESS then Some (Inr (status, False, st))
                          else case mac of
                              None \<Rightarrow> Some (Inl Uninitialised)
                            | Some m \<Rightarrow> Some (Inr (status, host_mac = Some m, st)))))))))"

section \<open>Whole zones\<close>

definition atcab_read_sig :: "u16 \<Rightarrow> 's atcab \<Rightarrow> (ATCA_STATUS \<times> u8 list option \<times> 's atcab) run" where
  "atcab_read_sig slot st =
     (if slot < 8 \<or> slot > 15 then Some (Inr (ATCA_BAD_PARAM, None, st))
      else if_runs (atcab_read_zone ATCA_ZONE_DATA slot 0 0 ATCA_BLOCK_SIZE st) (\<lambda>(status, b0, st).
        if status \<noteq> ATCA_SUCCESS then Some (Inr (status, None, st))
        else if_runs (atcab_read_zone ATCA_ZONE_DATA slot 1 0 ATCA_BLOCK_SIZE st) (\<lambda>(status, b1, st).
          if status \<noteq> ATCA_SUCCESS then Some (Inr (status, None, st)) else Some (Inr (status, Some (the b0 @ the b1), st)))))"

definition atcab_read_pubkey :: "u16 \<Rightarrow> 's atcab \<Rightarrow> (ATCA_STATUS \<times> u8 list option \<times> 's atcab) run" where
  "atcab_read_pubkey slot st =
     (if slot < 8 \<or> slot > 15 then Some (Inr (ATCA_BAD_PARAM, None, st))
      else if_runs (atcab_read_zone ATCA_ZONE_DATA slot 0 0 ATCA_BLOCK_SIZE st) (\<lambda>(status, b0, st).
        if status \<noteq> ATCA_SUCCESS then Some (Inr (status, None, st))
        else if_runs (atcab_read_zone ATCA_ZONE_DATA slot 1 0 ATCA_BLOCK_SIZE st) (\<lambda>(status, b1, st).
          if status \<noteq> ATCA_SUCCESS then Some (Inr (status, None, st))
          else if_runs (atcab_read_zone ATCA_ZONE_DATA slot 2 0 ATCA_BLOCK_SIZE st) (\<lambda>(status, b2, st).
            if status \<noteq> ATCA_SUCCESS then Some (Inr (status, None, st))
            else Some (Inr (status,
              Some (drop ATCA_PUB_KEY_PAD (the b0) @ take ATCA_PUB_KEY_PAD (the b1) @
                drop (ATCA_PUB_KEY_PAD + ATCA_PUB_KEY_PAD) (the b1) @ take (ATCA_PUB_KEY_PAD + ATCA_PUB_KEY_PAD) (the b2)), st))))))"

definition same_at :: "nat \<Rightarrow> nat \<Rightarrow> u8 list \<Rightarrow> u8 list \<Rightarrow> bool" where
  "same_at i n a b \<longleftrightarrow> take n (drop i a) = take n (drop i b)"

definition atcab_cmp_config_zone :: "u8 list \<Rightarrow> 's atcab \<Rightarrow> (ATCA_STATUS \<times> bool \<times> 's atcab) run" where
  "atcab_cmp_config_zone config_data st =
     if_runs (atcab_read_config_zone st) (\<lambda>(status, cfg, st).
       if status \<noteq> ATCA_SUCCESS then Some (Inr (status, False, st))
       else if_runs (atcab_get_zone_size ATCA_ZONE_CONFIG 0 st) (\<lambda>(status, size).
         case size of
           None \<Rightarrow> Some (Inr (status, False, st))
         | Some n \<Rightarrow> needs n config_data (with_device (\<lambda>dev st.
             Some (Inr (status,
               same_at 16 36 cfg config_data \<and>
               (devtype (mIfaceCFG (mIface dev)) = ATECC608A \<longrightarrow> same_at 68 16 cfg config_data) \<and>
               (90 < n \<longrightarrow> same_at 90 (n - 90) cfg config_data), st))) st)))"

definition atcab_write_config_zone :: "u8 list \<Rightarrow> 's atcab \<Rightarrow> (ATCA_STATUS \<times> 's atcab) run" where
  "atcab_write_config_zone config_data st =
     if_runs (atcab_get_zone_size ATCA_ZONE_CONFIG 0 st) (\<lambda>(status, size).
       case size of
         None \<Rightarrow> Some (Inr (status, st))
       | Some n \<Rightarrow>
           if_runs (atcab_write_bytes_zone ATCA_ZONE_CONFIG 0 16 (drop 16 config_data) (n - 16) st) (\<lambda>(status, st).
             if status \<noteq> ATCA_SUCCESS then Some (Inr (status, st))
             else needs 86 config_data (
               if_runs (atcab_updateextra UPDATE_MODE_USER_EXTRA (ucast (config_data ! 84)) st) (\<lambda>(status, st).
                 if status \<noteq> ATCA_SUCCESS then Some (Inr (status, st))
                 else atcab_updateextra UPDATE_MODE_SELECTOR (ucast (config_data ! 85)) st))))"

end
