(* ===== verification/AtcaVault.thy ===== *)
theory AtcaVault
  imports AtcaSecure AtcaOpsFacts
begin

text \<open>
  Encrypted commands on a chip that keeps secrets: host and chip derive the same temporary key,
  what is written arrives in plain, what is read is what was written. And what the host library
  does with a nonce that is passed through.
\<close>

section \<open>The chip\<close>

text \<open>
  The first block of the configuration zone, with the serial number; the keys in the slots, and
  which of them may not be used for a MAC, so that GenDig takes its parameters from the data; the
  random numbers to come; the temporary key; the blocks of the data zone and the private keys.
\<close>

record vault =
  v_config :: "u8 list"
  v_keys :: "u16 \<Rightarrow> u8 list"
  v_nomac :: "u16 \<Rightarrow> bool"
  v_rand :: "nat \<Rightarrow> u8 list"
  v_temp :: "u8 list option"
  v_data :: "u16 \<Rightarrow> u8 list"
  v_priv :: "u16 \<Rightarrow> u8 list"

definition vault_sn :: "vault \<Rightarrow> u8 list" where
  "vault_sn v = take 4 (v_config v) @ take 5 (drop 8 (v_config v))"

definition sn_part :: "vault \<Rightarrow> u8 list" where
  "sn_part v = [vault_sn v ! 8, vault_sn v ! 0, vault_sn v ! 1]"

definition mac_of :: "u8 \<Rightarrow> u8 \<Rightarrow> u16 \<Rightarrow> nat \<Rightarrow> u8 list \<Rightarrow> u8 list \<Rightarrow> vault \<Rightarrow> u8 list" where
  "mac_of opc mode p2 n plain t v = fips_sha256 (t @ [opc, mode] @ le16 p2 @ sn_part v @ replicate n 0 @ plain)"

definition vault_chip :: "vault chip" where
  "vault_chip opc mode p2 dat v =
     (if opc = ATCA_READ \<and> mode = 0x80 \<and> p2 = 0 then (v, v_config v)
      else if opc = ATCA_NONCE \<and> mode = NONCE_MODE_SEED_UPDATE
      then (v\<lparr>v_temp := Some (fips_sha256 (v_rand v 0 @ dat @ [ATCA_NONCE, mode, 0])), v_rand := \<lambda>i. v_rand v (i + 1)\<rparr>, v_rand v 0)
      else case v_temp v of
          None \<Rightarrow> (v, [0x0F])
        | Some t \<Rightarrow>
            if opc = ATCA_GENDIG \<and> mode = GENDIG_ZONE_DATA
            then (v\<lparr>v_temp := Some (fips_sha256 (v_keys v p2 @ (if v_nomac v p2 then dat else [ATCA_GENDIG, mode] @ le16 p2) @
                sn_part v @ replicate 25 0 @ t))\<rparr>, [0])
            else if opc = ATCA_READ \<and> mode = 0x82 then (v\<lparr>v_temp := None\<rparr>, xor_bytes (v_data v p2) t)
            else if opc = ATCA_WRITE \<and> mode = 0xC2
            then
              let plain = xor_bytes (take 32 dat) t
              in if drop 32 dat = mac_of opc mode p2 25 plain t v then (v\<lparr>v_temp := None, v_data := (v_data v)(p2 := plain)\<rparr>, [0])
                 else (v\<lparr>v_temp := None\<rparr>, [1])
            else if opc = ATCA_PRIVWRITE \<and> mode = 0x40
            then
              let plain = xor_bytes (take 32 dat) t @ xor_bytes (take 4 (drop 32 dat)) (take 4 (fips_sha256 t))
              in if drop 36 dat = mac_of opc mode p2 21 plain t v then (v\<lparr>v_temp := None, v_priv := (v_priv v)(p2 := plain)\<rparr>, [0])
                 else (v\<lparr>v_temp := None\<rparr>, [1])
            else (v, [3]))"

definition vault_ok :: "vault \<Rightarrow> bool" where
  "vault_ok v \<longleftrightarrow> length (v_config v) = 32 \<and> (\<forall>i. length (v_keys v i) = 32) \<and> (\<forall>i. length (v_rand v i) = 32) \<and>
     (\<forall>i. length (v_data v i) = 32)"

lemma length_xor_bytes [simp]: "length (xor_bytes a b) = min (length a) (length b)"
  by (simp add: xor_bytes_def)

lemma xor_bytes_twice: "length a \<le> length b \<Longrightarrow> xor_bytes (xor_bytes a b) b = a"
  by (auto simp: xor_bytes_def xor.assoc intro!: nth_equalityI)

lemma length_fips [simp]: "length (fips_sha256 m) = 32"
proof -
  have "length (concat (map be32 h)) = 4 * length h" for h by (induction h) simp_all
  then show ?thesis using length_run_blocks [OF length_fips_H0] by (simp add: fips_sha256_def)
qed

section \<open>Commands\<close>

lemma vault_read:
  assumes "chip_ready dt vault_chip st" "zone AND 0x03 = ATCA_ZONE_CONFIG \<or> zone AND 0x03 = ATCA_ZONE_DATA"
    and "atcab_get_addr zone slot blk 0 = (ATCA_SUCCESS, Some addr)"
    and "vault_chip ATCA_READ (zone OR 0x80) addr [] (chip_state st) = (v, dat)" "length dat = 32"
  shows "\<exists>st'. atcab_read_zone zone slot blk 0 32 st = Some (Inr (ATCA_SUCCESS, Some dat, st')) \<and>
    chip_ready dt vault_chip st' \<and> chip_state st' = v"
proof -
  let ?p = "zero_packet\<lparr>param1 := zone OR ATCA_ZONE_READWRITE_32, param2 := addr\<rparr>"
  let ?P = "?p\<lparr>opcode := ATCA_READ, txsize := ATCA_CMD_SIZE_MIN, rxsize := ATCA_RSP_SIZE_32\<rparr>"
  have upper: "(zone OR 0x80) AND 0x80 \<noteq> 0" by (simp add: bit.conj_disj_distrib2)
  have d: "dat \<noteq> []" using assms(5) by auto
  have "\<exists>q. execute atRead ?p (chip_device dt vault_chip) st = Some (Inr (response_status dat, q, st\<lparr>lib := (v, response_frame dat)\<rparr>)) \<and>
    rxsize q = rxsize ?P \<and> pkt_data q ! 0 = of_nat (length dat + 3) \<and> response_data (length dat) q = dat"
  proof (rule chip_command)
    show "atRead (Some (mCommands (chip_device dt vault_chip))) ?p = with_crc ?P"
      using upper by (simp add: atRead_def ATCA_ZONE_READWRITE_32_def)
    show "chip_answer vault_chip ?P (chip_state st) = (v, dat)"
      using assms(4) by (simp add: chip_answer_def command_data_def ATCA_ZONE_READWRITE_32_def ATCA_CMD_SIZE_MIN_def)
  qed (simp_all add: d assms(5) wf_packet_def zero_packet_def command_consts)
  then show ?thesis using assms(1,3,5)
    by (auto simp: atcab_read_zone_def ready_start [OF assms(1)] Let_def ATCA_BLOCK_SIZE_def response_status_cases)
qed

lemma vault_nonce:
  assumes "chip_ready dt vault_chip st" "vault_ok (chip_state st)" "length num_in = 20"
  defines "v \<equiv> chip_state st"
  defines "t \<equiv> fips_sha256 (v_rand v 0 @ num_in @ [ATCA_NONCE, NONCE_MODE_SEED_UPDATE, 0])"
  shows "\<exists>st'. atcab_nonce_rand num_in st = Some (Inr (ATCA_SUCCESS, Some (v_rand v 0), st')) \<and> chip_ready dt vault_chip st' \<and>
    chip_state st' = v\<lparr>v_temp := Some t, v_rand := \<lambda>i. v_rand v (i + 1)\<rparr>"
proof -
  let ?p = "copy_in 0 20 num_in (zero_packet\<lparr>param1 := NONCE_MODE_SEED_UPDATE, param2 := 0\<rparr>)"
  let ?P = "?p\<lparr>opcode := ATCA_NONCE, txsize := NONCE_COUNT_SHORT, rxsize := ATCA_RSP_SIZE_32\<rparr>"
  let ?v = "v\<lparr>v_temp := Some t, v_rand := \<lambda>i. v_rand v (i + 1)\<rparr>" and ?r = "v_rand v 0"
  let ?out = "\<lambda>packet. if rxsize packet \<ge> 35 then Some (response_data 32 packet) else None"
  have r: "length ?r = 32" "?r \<noteq> []" using assms(2) by (auto simp: vault_ok_def v_def dest: spec [of _ 0])
  have dat: "command_data ?P = num_in"
    using assms(3) by (simp add: command_data_def copy_in_def memcpy_at_def command_consts)
  have "\<exists>q. command atNonce ?p ?out (chip_device dt vault_chip) st =
      Some (Inr (response_status ?r, if response_status ?r = ATCA_SUCCESS then ?out q else None, st\<lparr>lib := (?v, response_frame ?r)\<rparr>)) \<and>
    rxsize q = rxsize ?P \<and> pkt_data q ! 0 = of_nat (length ?r + 3) \<and> response_data (length ?r) q = ?r"
  proof (rule command_status)
    show "atNonce (Some (mCommands (chip_device dt vault_chip))) ?p = with_crc ?P"
      by (simp add: atNonce_def copy_in_def command_consts)
    show "chip_answer vault_chip ?P (chip_state st) = (?v, ?r)"
      unfolding chip_answer_def dat by (simp add: vault_chip_def copy_in_def v_def t_def command_consts)
    show "wf_packet ?P" using assms(3) by (simp add: wf_packet_def copy_in_def memcpy_at_def zero_packet_def PACKET_DATA_SIZE_def)
  qed (simp_all add: r command_consts)
  then obtain q where "command atNonce ?p ?out (chip_device dt vault_chip) st =
      Some (Inr (ATCA_SUCCESS, Some ?r, st\<lparr>lib := (?v, response_frame ?r)\<rparr>))"
    by (auto simp: response_status_cases r command_consts)
  then show ?thesis using assms(1,3)
    by (auto simp: atcab_nonce_rand_def atcab_nonce_base_def ready_start [OF assms(1)] Let_def needs_def NONCE_NUMIN_SIZE_def command_consts)
qed

lemma vault_gendig:
  fixes key_id :: u16
  assumes "chip_ready dt vault_chip st" "v_temp (chip_state st) = Some t"
  defines "v \<equiv> chip_state st"
  defines "dat \<equiv> [ATCA_GENDIG, GENDIG_ZONE_DATA] @ le16 key_id"
  shows "\<exists>st'. atcab_gendig GENDIG_ZONE_DATA key_id (Some dat) 4 st = Some (Inr (ATCA_SUCCESS, st')) \<and> chip_ready dt vault_chip st' \<and>
    chip_state st' = v\<lparr>v_temp := Some (fips_sha256 (v_keys v key_id @ dat @ sn_part v @ replicate 25 0 @ t))\<rparr>"
proof -
  let ?p = "copy_in 0 4 dat (zero_packet\<lparr>param1 := GENDIG_ZONE_DATA, param2 := key_id\<rparr>)"
  let ?P = "?p\<lparr>opcode := ATCA_GENDIG, txsize := ucast (GENDIG_COUNT + 4), rxsize := ATCA_RSP_SIZE_MIN\<rparr>"
  let ?v = "v\<lparr>v_temp := Some (fips_sha256 (v_keys v key_id @ dat @ sn_part v @ replicate 25 0 @ t))\<rparr>"
  have len: "length dat = 4" by (simp add: dat_def le16_def)
  have zone: "GENDIG_ZONE_DATA \<noteq> GENDIG_ZONE_SHARED_NONCE" by (simp add: GENDIG_ZONE_DATA_def command_consts)
  have d: "command_data ?P = dat"
    using len by (simp add: command_data_def copy_in_def memcpy_at_def command_consts)
  have "\<exists>q. command (\<lambda>cmd p. atGenDig cmd p True) ?p (\<lambda>_. None :: unit option) (chip_device dt vault_chip) st =
      Some (Inr (response_status [0], if response_status [0] = ATCA_SUCCESS then None else None, st\<lparr>lib := (?v, response_frame [0])\<rparr>)) \<and>
    rxsize q = rxsize ?P \<and> pkt_data q ! 0 = of_nat (length [0 :: u8] + 3) \<and> response_data (length [0 :: u8]) q = [0]"
  proof (rule command_status)
    show "atGenDig (Some (mCommands (chip_device dt vault_chip))) ?p True = with_crc ?P"
      using zone by (simp add: atGenDig_def copy_in_def)
    show "chip_answer vault_chip ?P (chip_state st) = (?v, [0])"
      unfolding chip_answer_def d using assms(2)
      by (simp add: vault_chip_def copy_in_def v_def dat_def command_consts)
    show "wf_packet ?P" using len by (simp add: wf_packet_def copy_in_def memcpy_at_def zero_packet_def PACKET_DATA_SIZE_def)
  qed (simp_all add: command_consts)
  then have "command (\<lambda>cmd p. atGenDig cmd p True) ?p (\<lambda>_. None :: unit option) (chip_device dt vault_chip) st =
      Some (Inr (ATCA_SUCCESS, None, st\<lparr>lib := (?v, response_frame [0])\<rparr>))" by (simp add: response_status_cases)
  then show ?thesis using assms(1) len zone
    by (simp add: atcab_gendig_def ready_start [OF assms(1)] Let_def needs_def only_status_def ATCA_WORD_SIZE_def)
qed

section \<open>The host\<close>

lemma one_byte: "i < length xs \<Longrightarrow> take 1 (drop i xs) = [xs ! i]"
  by (simp add: take_Suc hd_drop_conv_nth)

lemma sn_buffer:
  assumes "length (v_config v) = 32"
  defines "sn \<equiv> take 4 (v_config v) @ take 5 (drop 8 (v_config v)) @ drop 9 (v_config v)"
  shows "gather (sn_bytes (Some sn)) = Inr [[vault_sn v ! 8], [vault_sn v ! 0, vault_sn v ! 1]]"
proof -
  have l: "length sn = 32" "length (vault_sn v) = 9" using assms(1) by (simp_all add: sn_def vault_sn_def)
  have pre: "sn ! i = vault_sn v ! i" if "i < 9" for i
    using that assms(1) by (cases "i < 4") (auto simp: sn_def vault_sn_def nth_append)
  have "take 1 (drop 8 sn) = [vault_sn v ! 8]" using one_byte [of 8 sn] l pre by simp
  moreover have "take 2 (drop 0 sn) = [vault_sn v ! 0, vault_sn v ! 1]"
    using l pre by (intro nth_equalityI) (auto simp: less_Suc_eq numeral_2_eq_2)
  ultimately show ?thesis using l by (simp add: sn_bytes_def read_from_some)
qed

lemma digest_from:
  assumes "gather ps = Inr xs" "length (concat xs) < 2 ^ 29"
  shows "digest_of ps = Inr (fips_sha256 (concat xs))"
  using assms by (simp add: digest_of_def sw_digest_is_fips)

lemma gather_append: "gather (ps @ qs) = if_inr (gather ps) (\<lambda>xs. if_inr (gather qs) (\<lambda>ys. Inr (xs @ ys)))"
  by (induction ps) (auto simp: if_inr_def split: sum.splits)

definition session_ok :: "u8 list \<Rightarrow> vault \<Rightarrow> u8 list \<Rightarrow> atca_temp_key option \<Rightarrow> bool" where
  "session_ok t v sn tk \<longleftrightarrow> v_temp v = Some t \<and> length t = 32 \<and>
     gather (sn_bytes (Some sn)) = Inr [[vault_sn v ! 8], [vault_sn v ! 0, vault_sn v ! 1]] \<and>
     (\<exists>k. tk = Some k \<and> take 32 (tk_value k) = t \<and> length (tk_value k) = 64 \<and> tk_valid k \<and> \<not> tk_no_mac_flag k)"

lemma session_starts:
  assumes "chip_ready dt vault_chip st" "vault_ok (chip_state st)" "v_keys (chip_state st) key_id = enc_key"
  shows "\<exists>st' t sn tk rand. start_session enc_key key_id st = Some (Inr (ATCA_SUCCESS, Some (sn, tk), st')) \<and>
    chip_ready dt vault_chip st' \<and> chip_state st' = (chip_state st)\<lparr>v_temp := Some t, v_rand := rand\<rparr> \<and>
    vault_ok (chip_state st') \<and> session_ok t (chip_state st') sn tk"
proof -
  define v where "v = chip_state st"
  have ok: "length (v_config v) = 32" "length (v_rand v 0) = 32" "length enc_key = 32"
    using assms(2,3) by (auto simp: vault_ok_def v_def)
  define sn where "sn = take 4 (v_config v) @ take 5 (drop 8 (v_config v)) @ drop 9 (v_config v)"
  have "atcab_get_addr ATCA_ZONE_CONFIG 0 0 0 = (ATCA_SUCCESS, Some 0)" by code_simp
  from vault_read [OF assms(1) _ this, of "v" "v_config v"] obtain s1 where
    s1: "atcab_read_zone ATCA_ZONE_CONFIG 0 0 0 32 st = Some (Inr (ATCA_SUCCESS, Some (v_config v), s1))"
      "chip_ready dt vault_chip s1" "chip_state s1 = v"
    using ok(1) by (auto simp: vault_chip_def v_def command_consts)
  let ?n = "replicate 20 (0 :: u8)"
  define t1 where "t1 = fips_sha256 (v_rand v 0 @ ?n @ [ATCA_NONCE, NONCE_MODE_SEED_UPDATE, 0])"
  let ?v2 = "v\<lparr>v_temp := Some t1, v_rand := \<lambda>i. v_rand v (i + 1)\<rparr>"
  obtain s2 where s2: "atcab_nonce_rand ?n s1 = Some (Inr (ATCA_SUCCESS, Some (v_rand v 0), s2))"
      "chip_ready dt vault_chip s2" "chip_state s2 = ?v2"
    using vault_nonce [OF s1(2), of ?n] s1(3) assms(2) by (auto simp: v_def t1_def)
  have "gather [read_from (Some (v_rand v 0)) 0 RANDOM_NUM_SIZE, read_from (Some ?n) 0 NONCE_NUMIN_SIZE, Inr [ATCA_NONCE, NONCE_MODE_SEED_UPDATE, 0]] =
      Inr [v_rand v 0, ?n, [ATCA_NONCE, NONCE_MODE_SEED_UPDATE, 0]]"
    using ok(2) by (simp add: read_from_some RANDOM_NUM_SIZE_def NONCE_NUMIN_SIZE_def)
  from digest_from [OF this] have d1: "digest_of [read_from (Some (v_rand v 0)) 0 RANDOM_NUM_SIZE, read_from (Some ?n) 0 NONCE_NUMIN_SIZE,
      Inr [ATCA_NONCE, NONCE_MODE_SEED_UPDATE, 0]] = Inr t1"
    using ok(2) by (simp add: t1_def)
  let ?k1 = "(set_value t1 temp_key_zero)\<lparr>tk_source_flag := False, tk_key_id := 0, tk_gen_dig_data := False, tk_no_mac_flag := False,
    tk_valid := True, tk_is_64 := False\<rparr>"
  have h1: "atcah_nonce NONCE_MODE_SEED_UPDATE 0 (Some ?n) (Some (v_rand v 0)) (Some temp_key_zero) = Inr (ATCA_SUCCESS, (), Some ?k1)"
    using d1 by (simp add: atcah_nonce_def NONCE_ZERO_CALC_MASK_def NONCE_ZERO_CALC_TEMPKEY_def command_consts)
  let ?od = "[ATCA_GENDIG, GENDIG_ZONE_DATA] @ le16 key_id"
  define t2 where "t2 = fips_sha256 (enc_key @ ?od @ sn_part v @ replicate 25 0 @ t1)"
  obtain s3 where s3: "atcab_gendig GENDIG_ZONE_DATA key_id (Some ?od) 4 s2 = Some (Inr (ATCA_SUCCESS, s3))"
      "chip_ready dt vault_chip s3" "chip_state s3 = ?v2\<lparr>v_temp := Some t2\<rparr>"
    using vault_gendig [OF s2(2), of t1 key_id] s2(3) assms(3)
    by (auto simp: t2_def v_def sn_part_def vault_sn_def)
  have zone: "GENDIG_ZONE_DATA \<noteq> GENDIG_ZONE_SHARED_NONCE" "\<not> GENDIG_ZONE_DATA > 5" by (simp_all add: GENDIG_ZONE_DATA_def command_consts)
  have tk1: "tk_value ?k1 = t1 @ replicate 32 0" by (simp add: set_value_def temp_key_zero_def memcpy_at_def t1_def)
  have "gather ([read_from (Some enc_key) 0 ATCA_KEY_SIZE, Inr ?od] @ sn_bytes (Some sn) @
      [zero_bytes ATCA_GENDIG_ZEROS_SIZE, read_from (Some (tk_value ?k1)) 0 ATCA_KEY_SIZE]) =
      Inr ([enc_key, ?od] @ [[vault_sn v ! 8], [vault_sn v ! 0, vault_sn v ! 1]] @ [replicate 25 0, t1])"
    unfolding gather_append sn_buffer [OF ok(1), folded sn_def] tk1 using ok(3)
    by (simp add: read_from_some zero_bytes_def ATCA_KEY_SIZE_def ATCA_GENDIG_ZEROS_SIZE_def t1_def)
  from digest_from [OF this] have d2: "digest_of ([read_from (Some enc_key) 0 ATCA_KEY_SIZE, Inr ?od] @ sn_bytes (Some sn) @
      [zero_bytes ATCA_GENDIG_ZEROS_SIZE, read_from (Some (tk_value ?k1)) 0 ATCA_KEY_SIZE]) = Inr t2"
    using ok(3) by (simp add: t2_def sn_part_def t1_def)
  let ?k2 = "gen_dig_flags GENDIG_ZONE_DATA key_id (set_value t2 ?k1)"
  have h2: "atcah_gen_dig GENDIG_ZONE_DATA key_id False (Some sn) (Some enc_key) (Some ?od) (Some ?k1) = Inr (ATCA_SUCCESS, (), Some ?k2)"
    using d2 zone by (simp add: atcah_gen_dig_def)
  have run: "start_session enc_key key_id st = Some (Inr (ATCA_SUCCESS, Some (sn, Some ?k2), s3))"
    unfolding start_session_def using s1(1) s2(1) s3(1) h1 h2
    by (simp add: sn_def [symmetric] NONCE_NUMIN_SIZE_def on_host_def)
  have k2: "take 32 (tk_value ?k2) = t2" "length (tk_value ?k2) = 64" "tk_valid ?k2" "\<not> tk_no_mac_flag ?k2"
    by (simp_all add: gen_dig_flags_def set_value_def memcpy_at_def t2_def t1_def temp_key_zero_def Let_def)
  have sn3: "vault_sn (chip_state s3) = vault_sn v" by (simp add: s3(3) vault_sn_def)
  have "session_ok t2 (chip_state s3) sn (Some ?k2)"
    unfolding session_ok_def sn3 using k2 sn_buffer [OF ok(1), folded sn_def] by (simp add: s3(3) t2_def)
  moreover have "vault_ok (chip_state s3)" using assms(2) by (simp add: s3(3) vault_ok_def v_def)
  moreover have "chip_state s3 = (chip_state st)\<lparr>v_temp := Some t2, v_rand := \<lambda>i. v_rand v (i + 1)\<rparr>" by (simp add: s3(3) v_def)
  ultimately show ?thesis using run s3(2) by blast
qed

section \<open>Encrypted commands\<close>

definition data_addr :: "u16 \<Rightarrow> u8 \<Rightarrow> u16" where
  "data_addr slot blk = push_bit 3 slot OR push_bit 8 (ucast blk)"

lemma get_data_addr:
  "atcab_get_addr ATCA_ZONE_DATA slot blk 0 = (ATCA_SUCCESS, Some (data_addr slot blk))"
  "atcab_get_addr (ATCA_ZONE_DATA OR ATCA_ZONE_READWRITE_32) slot blk 0 = (ATCA_SUCCESS, Some (data_addr slot blk))"
  by (simp_all add: atcab_get_addr_def data_addr_def Let_def command_consts)

lemma read_enc_delivers:
  assumes "chip_ready dt vault_chip st" "vault_ok (chip_state st)" "v_keys (chip_state st) enc_key_id = enc_key"
  shows "\<exists>st'. atcab_read_enc slot blk enc_key enc_key_id st =
      Some (Inr (ATCA_SUCCESS, Some (v_data (chip_state st) (data_addr slot blk)), st')) \<and> chip_ready dt vault_chip st'"
proof -
  obtain s1 t sn tk rand where s1: "start_session enc_key enc_key_id st = Some (Inr (ATCA_SUCCESS, Some (sn, tk), s1))"
      "chip_ready dt vault_chip s1" "chip_state s1 = (chip_state st)\<lparr>v_temp := Some t, v_rand := rand\<rparr>"
      "vault_ok (chip_state s1)" "session_ok t (chip_state s1) sn tk"
    using session_starts [OF assms] by blast
  obtain k where k: "tk = Some k" "take 32 (tk_value k) = t" "length t = 32" using s1(5) by (auto simp: session_ok_def)
  let ?d = "v_data (chip_state st) (data_addr slot blk)"
  have d: "length ?d = 32" using assms(2) by (simp add: vault_ok_def)
  have "vault_chip ATCA_READ ((ATCA_ZONE_DATA OR ATCA_ZONE_READWRITE_32) OR 0x80) (data_addr slot blk) [] (chip_state s1) =
      ((chip_state s1)\<lparr>v_temp := None\<rparr>, xor_bytes ?d t)"
    by (simp add: vault_chip_def s1(3) GENDIG_ZONE_DATA_def command_consts)
  from vault_read [OF s1(2) _ get_data_addr(2) this] obtain s2 where
    s2: "atcab_read_zone (ATCA_ZONE_DATA OR ATCA_ZONE_READWRITE_32) slot blk 0 32 s1 = Some (Inr (ATCA_SUCCESS, Some (xor_bytes ?d t), s2))"
    "chip_ready dt vault_chip s2" using d k(3) by (auto simp: command_consts)
  then show ?thesis using s1(1) k d
    by (simp add: atcab_read_enc_def with_session_def ATCA_BLOCK_SIZE_def xor_bytes_twice)
qed

lemma session_digest:
  assumes "session_ok t v sn (Some k)" "length plain = n" "n < 64" "z < 64"
  shows "digest_of (write_message opc zone p2 (Some sn) z (Some plain) n k) = Inr (mac_of opc zone p2 z plain t v)"
proof -
  have t: "take 32 (tk_value k) = t" "length t = 32" "32 \<le> length (tk_value k)" using assms(1) by (auto simp: session_ok_def)
  have "gather (write_message opc zone p2 (Some sn) z (Some plain) n k) =
      Inr ([t, [opc, zone] @ le16 p2] @ [[vault_sn v ! 8], [vault_sn v ! 0, vault_sn v ! 1]] @ [replicate z 0, plain])"
    using assms(1,2) t unfolding write_message_def gather_append
    by (simp add: session_ok_def read_from_some zero_bytes_def ATCA_KEY_SIZE_def)
  from digest_from [OF this] show ?thesis using assms(2-4) t by (simp add: mac_of_def sn_part_def)
qed

lemma write_enc_stores:
  assumes "chip_ready dt vault_chip st" "vault_ok (chip_state st)" "v_keys (chip_state st) enc_key_id = enc_key" "length data = 32"
  shows "\<exists>st' rand. atcab_write_enc slot blk data enc_key enc_key_id st = Some (Inr (ATCA_SUCCESS, st')) \<and> chip_ready dt vault_chip st' \<and>
    vault_ok (chip_state st') \<and>
    chip_state st' = (chip_state st)\<lparr>v_temp := None, v_rand := rand, v_data := (v_data (chip_state st))(data_addr slot blk := data)\<rparr>"
proof -
  obtain s1 t sn tk rand where s1: "start_session enc_key enc_key_id st = Some (Inr (ATCA_SUCCESS, Some (sn, tk), s1))"
      "chip_ready dt vault_chip s1" "chip_state s1 = (chip_state st)\<lparr>v_temp := Some t, v_rand := rand\<rparr>"
      "vault_ok (chip_state s1)" "session_ok t (chip_state s1) sn tk"
    using session_starts [OF assms(1-3)] by blast
  obtain k where k: "tk = Some k" "take 32 (tk_value k) = t" "length t = 32" "tk_valid k" "\<not> tk_no_mac_flag k"
    using s1(5) by (auto simp: session_ok_def)
  define a where "a = data_addr slot blk"
  define zone where "zone = (ATCA_ZONE_DATA OR ATCA_ZONE_READWRITE_32) OR ATCA_ZONE_ENCRYPTED"
  have zone: "zone = 0xC2" "zone AND ATCA_ZONE_READWRITE_32 \<noteq> 0" by (simp_all add: zone_def ATCA_ZONE_ENCRYPTED_def command_consts)
  define mac where "mac = mac_of ATCA_WRITE zone a 25 data t (chip_state s1)"
  define ct where "ct = xor_bytes data t"
  have len: "length ct = 32" "length mac = 32" using assms(4) k(3) by (simp_all add: ct_def mac_def mac_of_def)
  have h: "atcah_write_auth_mac zone a (Some sn) (Some data) True tk = Inr (ATCA_SUCCESS, Some (ct, Some mac), Some k)"
    using session_digest [OF s1(5) [unfolded k(1)] assms(4), of 25 ATCA_WRITE zone a] k assms(4)
    by (simp add: atcah_write_auth_mac_def with_temp_key_def read_from_some ATCA_WRITE_MAC_ZEROS_SIZE_def ATCA_KEY_SIZE_def ct_def mac_def)
  let ?p = "copy_in 32 32 mac (copy_in 0 32 ct (zero_packet\<lparr>param1 := zone, param2 := a\<rparr>))"
  let ?P = "?p\<lparr>opcode := ATCA_WRITE, txsize := ucast (7 + ATCA_BLOCK_SIZE + WRITE_MAC_SIZE), rxsize := ATCA_RSP_SIZE_MIN\<rparr>"
  let ?v = "(chip_state s1)\<lparr>v_temp := None, v_data := (v_data (chip_state s1))(a := data)\<rparr>"
  have dat: "command_data ?P = ct @ mac"
    using len by (simp add: command_data_def copy_in_def memcpy_at_def command_consts)
  have "xor_bytes ct t = data" using assms(4) k(3) by (simp add: ct_def xor_bytes_twice)
  then have ans: "chip_answer vault_chip ?P (chip_state s1) = (?v, [0])"
    unfolding chip_answer_def dat using len s1(3)
    by (simp add: vault_chip_def copy_in_def zone(1) mac_def GENDIG_ZONE_DATA_def command_consts)
  have "\<exists>q. execute (\<lambda>cmd p. atWrite cmd p True) ?p (chip_device dt vault_chip) s1 =
      Some (Inr (response_status [0], q, s1\<lparr>lib := (?v, response_frame [0])\<rparr>)) \<and>
    rxsize q = rxsize ?P \<and> pkt_data q ! 0 = of_nat (length [0 :: u8] + 3) \<and> response_data (length [0 :: u8]) q = [0]"
  proof (rule chip_command)
    show "atWrite (Some (mCommands (chip_device dt vault_chip))) ?p True = with_crc ?P"
      using zone by (simp add: atWrite_def copy_in_def Let_def command_consts)
    show "chip_answer vault_chip ?P (chip_state s1) = (?v, [0])" by (rule ans)
    show "wf_packet ?P" using len by (simp add: wf_packet_def copy_in_def memcpy_at_def zero_packet_def PACKET_DATA_SIZE_def)
  qed (simp_all add: command_consts)
  then have "atcab_write zone a ct (Some mac) s1 = Some (Inr (ATCA_SUCCESS, s1\<lparr>lib := (?v, response_frame [0])\<rparr>))"
    using zone(2) len
    by (auto simp: atcab_write_def ready_start [OF s1(2)] Let_def needs_def response_status_cases)
  then have "atcab_write_enc slot blk data enc_key enc_key_id st = Some (Inr (ATCA_SUCCESS, s1\<lparr>lib := (?v, response_frame [0])\<rparr>))"
    using s1(1) h by (simp add: atcab_write_enc_def with_session_def only_status_def get_data_addr(1) zone_def a_def on_host_def)
  moreover have "vault_ok ?v" using s1(4) assms(4) by (auto simp: vault_ok_def)
  ultimately show ?thesis using s1(2,3) by (intro exI [of _ "s1\<lparr>lib := (?v, response_frame [0])\<rparr>"] exI [of _ rand]) (simp add: a_def)
qed

lemma priv_write_stores:
  assumes "chip_ready dt vault_chip st" "vault_ok (chip_state st)" "v_keys (chip_state st) write_key_id = write_key"
    and "length key = 36" "slot \<le> 15"
  shows "\<exists>st'. atcab_priv_write slot key write_key_id (Some write_key) st = Some (Inr (ATCA_SUCCESS, st')) \<and>
    chip_ready dt vault_chip st' \<and> v_priv (chip_state st') = (v_priv (chip_state st))(slot := key)"
proof -
  obtain s1 t sn tk rand where s1: "start_session write_key write_key_id st = Some (Inr (ATCA_SUCCESS, Some (sn, tk), s1))"
      "chip_ready dt vault_chip s1" "chip_state s1 = (chip_state st)\<lparr>v_temp := Some t, v_rand := rand\<rparr>"
      "vault_ok (chip_state s1)" "session_ok t (chip_state s1) sn tk"
    using session_starts [OF assms(1-3)] by blast
  obtain k where k: "tk = Some k" "take 32 (tk_value k) = t" "length t = 32" "length (tk_value k) = 64" "tk_valid k" "\<not> tk_no_mac_flag k"
    using s1(5) by (auto simp: session_ok_def)
  define mac where "mac = mac_of ATCA_PRIVWRITE PRIVWRITE_MODE_ENCRYPT slot 21 key t (chip_state s1)"
  define ct where "ct = xor_bytes (take 32 key) t @ xor_bytes (drop 32 key) (take 4 (fips_sha256 t))"
  have len: "length ct = 36" "length mac = 32" using assms(4) k(3) by (simp_all add: ct_def mac_def mac_of_def)
  have "gather [read_from (Some (tk_value k)) 0 32] = Inr [t]" using k by (simp add: read_from_some)
  from digest_from [OF this] have d2: "digest_of [read_from (Some (tk_value k)) 0 32] = Inr (fips_sha256 t)" using k(3) by simp
  have h: "atcah_privwrite_auth_mac PRIVWRITE_MODE_ENCRYPT slot (Some sn) (Some key) True tk = Inr (ATCA_SUCCESS, Some (ct, Some mac), Some k)"
    using session_digest [OF s1(5) [unfolded k(1)] assms(4), of 21 ATCA_PRIVWRITE PRIVWRITE_MODE_ENCRYPT slot] k assms(4) d2
    by (simp add: atcah_privwrite_auth_mac_def with_temp_key_def read_from_some ATCA_PRIVWRITE_MAC_ZEROS_SIZE_def
        ATCA_PRIVWRITE_PLAIN_TEXT_SIZE_def ct_def mac_def)
  let ?p = "copy_in 36 32 mac (copy_in 0 36 ct (zero_packet\<lparr>param1 := PRIVWRITE_MODE_ENCRYPT, param2 := slot\<rparr>))"
  let ?P = "?p\<lparr>opcode := ATCA_PRIVWRITE, txsize := PRIVWRITE_COUNT, rxsize := ATCA_RSP_SIZE_MIN\<rparr>"
  let ?v = "(chip_state s1)\<lparr>v_temp := None, v_priv := (v_priv (chip_state s1))(slot := key)\<rparr>"
  have dat: "command_data ?P = ct @ mac"
    using len by (simp add: command_data_def copy_in_def memcpy_at_def command_consts)
  have "xor_bytes (take 32 ct) t = take 32 key" "xor_bytes (take 4 (drop 32 ct)) (take 4 (fips_sha256 t)) = drop 32 key"
    using assms(4) k(3) by (simp_all add: ct_def xor_bytes_twice)
  then have plain: "xor_bytes (take 32 (ct @ mac)) t @ xor_bytes (take 4 (drop 32 (ct @ mac))) (take 4 (fips_sha256 t)) = key"
    "drop 36 (ct @ mac) = mac" using len by simp_all
  have ans: "chip_answer vault_chip ?P (chip_state s1) = (?v, [0])"
    unfolding chip_answer_def dat using len s1(3) plain
    by (simp add: vault_chip_def copy_in_def mac_def PRIVWRITE_MODE_ENCRYPT_def GENDIG_ZONE_DATA_def Let_def command_consts
        del: take_append drop_append)
  have "\<exists>q. command atPrivWrite ?p (\<lambda>_. None :: unit option) (chip_device dt vault_chip) s1 =
      Some (Inr (response_status [0], if response_status [0] = ATCA_SUCCESS then None else None, s1\<lparr>lib := (?v, response_frame [0])\<rparr>)) \<and>
    rxsize q = rxsize ?P \<and> pkt_data q ! 0 = of_nat (length [0 :: u8] + 3) \<and> response_data (length [0 :: u8]) q = [0]"
  proof (rule command_status)
    show "atPrivWrite (Some (mCommands (chip_device dt vault_chip))) ?p = with_crc ?P" by (simp add: atPrivWrite_def)
    show "chip_answer vault_chip ?P (chip_state s1) = (?v, [0])" by (rule ans)
    show "wf_packet ?P" using len by (simp add: wf_packet_def copy_in_def memcpy_at_def zero_packet_def PACKET_DATA_SIZE_def)
  qed (simp_all add: command_consts)
  then have "atcab_priv_write slot key write_key_id (Some write_key) st = Some (Inr (ATCA_SUCCESS, s1\<lparr>lib := (?v, response_frame [0])\<rparr>))"
    unfolding atcab_priv_write_def ready_start(1) [OF assms(1)]
    using s1(1) h assms(5) by (simp add: ready_start(2) [OF assms(1)] only_status_def on_host_def response_status_cases not_less [symmetric])
  then show ?thesis using s1(2,3) by (auto simp: chip_state_def)
qed

text \<open>The secure boot with a code reads 40 bytes of the digest: with a digest of 32 it never succeeds.\<close>

lemma secureboot_mac_never_succeeds:
  assumes "atcab_secureboot_mac mode digest signature num_in io_key st = Some (Inr (status, v, st'))" "length digest < 40"
  shows "status \<noteq> ATCA_SUCCESS"
  using assms
  by (auto simp: atcab_secureboot_mac_def if_runs_def on_host_def needs_def sizeof_secureboot_enc_params_def
      split: option.splits sum.splits prod.splits if_splits)

section \<open>Properties\<close>

text \<open>
  C26: What is written to a slot with encryption arrives there in plain, and reading it back with
  encryption, with another key and at any address, gives what the data zone then holds: host and
  chip derive the same temporary key from the random number, the key and the serial number, in
  every session anew, also for keys that GenDig uses without their parameters, and the chip
  accepts the authentication code.
\<close>

theorem encrypted_storage:
  assumes "chip_ready dt vault_chip st" "vault_ok (chip_state st)" "length data = 32"
    and "v_keys (chip_state st) write_key_id = write_key" "v_keys (chip_state st) read_key_id = read_key"
  shows "\<exists>st1 st2. atcab_write_enc slot blk data write_key write_key_id st = Some (Inr (ATCA_SUCCESS, st1)) \<and>
    v_data (chip_state st1) = (v_data (chip_state st))(data_addr slot blk := data) \<and>
    atcab_read_enc slot' blk' read_key read_key_id st1 =
      Some (Inr (ATCA_SUCCESS, Some (((v_data (chip_state st))(data_addr slot blk := data)) (data_addr slot' blk')), st2))"
proof -
  obtain st1 rand where w: "atcab_write_enc slot blk data write_key write_key_id st = Some (Inr (ATCA_SUCCESS, st1))"
    "chip_ready dt vault_chip st1" "vault_ok (chip_state st1)"
    "chip_state st1 = (chip_state st)\<lparr>v_temp := None, v_rand := rand, v_data := (v_data (chip_state st))(data_addr slot blk := data)\<rparr>"
    using write_enc_stores [OF assms(1,2,4,3)] by blast
  have "v_keys (chip_state st1) read_key_id = read_key" using assms(5) by (simp add: w(4))
  from read_enc_delivers [OF w(2,3) this, of slot' blk'] obtain st2 where
    "atcab_read_enc slot' blk' read_key read_key_id st1 = Some (Inr (ATCA_SUCCESS, Some (v_data (chip_state st1) (data_addr slot' blk')), st2))"
    by blast
  then show ?thesis using w(1,4) by auto
qed

definition sample_vault :: vault where
  "sample_vault = \<lparr>v_config = replicate 32 1, v_keys = (\<lambda>i. replicate 32 (ucast i)), v_nomac = (\<lambda>i. i = 4), v_rand = (\<lambda>i. replicate 32 (of_nat i)),
     v_temp = None, v_data = (\<lambda>_. replicate 32 0), v_priv = (\<lambda>_. [])\<rparr>"

lemma sample_vault_ok: "vault_ok sample_vault"
  by (simp add: vault_ok_def sample_vault_def)

lemma sample_vault_fields: "v_keys sample_vault i = replicate 32 (ucast i)" "v_data sample_vault i = replicate 32 0"
  by (simp_all add: sample_vault_def)

theorem encrypted_storage_witness:
  "\<exists>st1 st2. atcab_write_enc 8 1 (replicate 32 7) (replicate 32 4) 4 (chip_lib ATECC508A vault_chip sample_vault) = Some (Inr (ATCA_SUCCESS, st1)) \<and>
    atcab_read_enc 8 1 (replicate 32 5) 5 st1 = Some (Inr (ATCA_SUCCESS, Some (replicate 32 7), st2))"
  using encrypted_storage [where data = "replicate 32 7" and write_key_id = 4 and write_key = "replicate 32 4" and read_key_id = 5
      and read_key = "replicate 32 5" and slot = 8 and blk = 1 and slot' = 8 and blk' = 1,
      OF chip_lib_ready(1) [where dt = ATECC508A and c = sample_vault]]
  by (auto simp: chip_lib_ready sample_vault_ok sample_vault_fields)

text \<open>
  C27: A private key written with encryption arrives in the slot asked for, its last four bytes
  encrypted with the digest of the temporary key.
\<close>

theorem private_key_arrives:
  assumes "chip_ready dt vault_chip st" "vault_ok (chip_state st)" "v_keys (chip_state st) write_key_id = write_key"
    and "length key = 36" "slot \<le> 15"
  shows "\<exists>st'. atcab_priv_write slot key write_key_id (Some write_key) st = Some (Inr (ATCA_SUCCESS, st')) \<and>
    chip_ready dt vault_chip st' \<and> v_priv (chip_state st') = (v_priv (chip_state st))(slot := key)"
  by (rule priv_write_stores [OF assms])

theorem private_key_arrives_witness:
  "\<exists>st'. atcab_priv_write 2 (replicate 36 9) 4 (Some (replicate 32 4)) (chip_lib ATECC508A vault_chip sample_vault) =
      Some (Inr (ATCA_SUCCESS, st')) \<and> v_priv (chip_state st') 2 = replicate 36 9"
  using private_key_arrives [where write_key_id = 4 and write_key = "replicate 32 4" and key = "replicate 36 9" and slot = 2,
      OF chip_lib_ready(1) [where dt = ATECC508A and c = sample_vault]]
  by (auto simp: chip_lib_ready sample_vault_ok sample_vault_fields)

text \<open>
  C31: A nonce that is passed through to the chip leaves the temporary key of the host as it was,
  whatever its target: the condition of the branch for it asks for a mode without a target and
  for a target, so that the branch is never taken. The chip takes the nonce, host and chip then
  compute from different keys.
\<close>

theorem nonce_passthrough_ignored:
  assumes "mode AND NONCE_MODE_MASK = NONCE_MODE_PASSTHROUGH"
  shows "atcah_nonce mode zero (Some num_in) rand_out (Some tk) = Inr (ATCA_SUCCESS, (), Some tk)"
proof -
  have "NONCE_MODE_PASSTHROUGH AND NONCE_MODE_TARGET_MASK = NONCE_MODE_TARGET_TEMPKEY" by (simp add: op_consts command_consts)
  moreover have "NONCE_MODE_PASSTHROUGH \<noteq> NONCE_MODE_SEED_UPDATE" "NONCE_MODE_PASSTHROUGH \<noteq> NONCE_MODE_NO_SEED_UPDATE"
    by (simp_all add: command_consts)
  ultimately show ?thesis using assms by (auto simp: atcah_nonce_def)
qed

theorem nonce_passthrough_ignored_witness:
  "atcah_nonce NONCE_MODE_PASSTHROUGH 0 (Some (replicate 32 7)) None (Some temp_key_zero) = Inr (ATCA_SUCCESS, (), Some temp_key_zero)"
  by (rule nonce_passthrough_ignored) (simp add: command_consts)

end
