(* ===== verification/AtcaHex.thy ===== *)
theory AtcaHex
  imports AtcaHal
begin

text \<open>
  The hexadecimal helpers of the library (\<open>libatca/basic/atca_helpers.c\<close>). Characters are
  \<open>u8\<close>: \<open>char\<close> is unsigned for this compiler. A buffer is the list of its bytes, and a write
  or read outside it is a fault.
\<close>

section \<open>Buffers and strings\<close>

text \<open>\<open>sprintf\<close> of a text at a position, with its terminator, and \<open>strlen\<close>.\<close>

definition sprintf_at :: "nat \<Rightarrow> u8 list \<Rightarrow> u8 list \<Rightarrow> fault + u8 list" where
  "sprintf_at i txt dst = put_at i (txt @ [0]) dst"

definition strlen :: "u8 list \<Rightarrow> fault + nat" where
  "strlen s = (if 0 \<in> set s then Inr (length (takeWhile (\<lambda>c. c \<noteq> 0) s)) else Inl OutOfBounds)"

text \<open>The conversion \<open>%02X\<close>.\<close>

definition hex_char :: "u8 \<Rightarrow> u8" where
  "hex_char n = (if n < 10 then 48 + n else 55 + n)"

definition format_02X :: "u8 \<Rightarrow> u8 list" where
  "format_02X b = [hex_char (drop_bit 4 b), hex_char (b AND 0x0F)]"

section \<open>To hex\<close>

definition hex_text :: "bool \<Rightarrow> u8 \<Rightarrow> u8 list" where
  "hex_text add_space b = (if add_space then format_02X b @ [32] else format_02X b)"

fun bin2hex_loop :: "nat \<Rightarrow> bool \<Rightarrow> nat \<Rightarrow> u8 list \<Rightarrow> nat \<Rightarrow> u8 list \<Rightarrow> fault + u8 list" where
  "bin2hex_loop n add_space i [] hex_len ascii_hex = Inr ascii_hex"
| "bin2hex_loop n add_space i (b # binary) hex_len ascii_hex =
     (if hex_len > n then Inr ascii_hex
      else
        let brk = (i mod 16 = 0 \<and> i \<noteq> 0 \<and> add_space);
            pos = (if brk then hex_len + 2 else hex_len)
        in if_inr (if brk then sprintf_at hex_len [13, 10] ascii_hex else Inr ascii_hex) (\<lambda>ascii_hex.
           if_inr (sprintf_at pos (hex_text add_space b) ascii_hex) (\<lambda>ascii_hex.
           bin2hex_loop n add_space (i + 1) binary (pos + length (hex_text add_space b)) ascii_hex)))"

text \<open>\<open>ascii_hex_len\<close> is the value passed in; the result has the one passed out.\<close>

definition atcab_bin2hex_sp ::
    "u8 list \<Rightarrow> u8 list \<Rightarrow> nat \<Rightarrow> bool \<Rightarrow> fault + (ATCA_STATUS \<times> u8 list \<times> nat)" where
  "atcab_bin2hex_sp binary ascii_hex ascii_hex_len add_space =
     if_inr (put_at 0 (replicate ascii_hex_len 0) ascii_hex) (\<lambda>ascii_hex.
     if_inr (bin2hex_loop ascii_hex_len add_space 0 binary 0 ascii_hex) (\<lambda>ascii_hex.
     if_inr (strlen ascii_hex) (\<lambda>len.
     Inr (ATCA_SUCCESS, ascii_hex, len))))"

definition atcab_bin2hex :: "u8 list \<Rightarrow> u8 list \<Rightarrow> nat \<Rightarrow> fault + (ATCA_STATUS \<times> u8 list \<times> nat)" where
  "atcab_bin2hex binary ascii_hex ascii_hex_len = atcab_bin2hex_sp binary ascii_hex ascii_hex_len True"

section \<open>From hex\<close>

definition isDigit :: "u8 \<Rightarrow> bool" where
  "isDigit c \<longleftrightarrow> c \<ge> 48 \<and> c \<le> 57"

definition isWhiteSpace :: "u8 \<Rightarrow> bool" where
  "isWhiteSpace c \<longleftrightarrow> c = 10 \<or> c = 13 \<or> c = 9 \<or> c = 32"

definition isAlpha :: "u8 \<Rightarrow> bool" where
  "isAlpha c \<longleftrightarrow> c \<ge> 65 \<and> c \<le> 90 \<or> c \<ge> 97 \<and> c \<le> 122"

definition isHexAlpha :: "u8 \<Rightarrow> bool" where
  "isHexAlpha c \<longleftrightarrow> c \<ge> 65 \<and> c \<le> 70 \<or> c \<ge> 97 \<and> c \<le> 102"

definition isHexDigit :: "u8 \<Rightarrow> bool" where
  "isHexDigit c \<longleftrightarrow> isDigit c \<or> isHexAlpha c"

definition isHex :: "u8 \<Rightarrow> bool" where
  "isHex c \<longleftrightarrow> isHexDigit c \<or> isWhiteSpace c"

text \<open>\<open>packHex\<close> into a buffer of \<open>packed_len\<close> bytes; \<open>j\<close> characters are there already.\<close>

fun packHex :: "u8 list \<Rightarrow> u8 list \<Rightarrow> nat \<Rightarrow> nat \<Rightarrow> fault + (u8 list \<times> nat)" where
  "packHex [] packed_hex packed_len j = Inr (packed_hex, j)"
| "packHex (c # ascii_hex) packed_hex packed_len j =
     (if isHexDigit c
      then (if j > packed_len then Inr (packed_hex, j)
            else if_inr (put_at j [c] packed_hex) (\<lambda>packed_hex. packHex ascii_hex packed_hex packed_len (j + 1)))
      else packHex ascii_hex packed_hex packed_len j)"

text \<open>\<open>sscanf(hex_byte, "%x", &byt)\<close> on one or two hex digits, as the byte that is stored.\<close>

definition hex_value :: "u8 \<Rightarrow> u8" where
  "hex_value c = (if c \<le> 57 then c - 48 else if c \<le> 70 then c - 55 else c - 87)"

definition scan_hex :: "u8 \<Rightarrow> u8 \<Rightarrow> u8" where
  "scan_hex c d = (if isHexDigit d then push_bit 4 (hex_value c) OR hex_value d else hex_value c)"

function hex2bin_loop :: "u8 list \<Rightarrow> nat \<Rightarrow> nat \<Rightarrow> nat \<Rightarrow> nat \<Rightarrow> u8 list \<Rightarrow> fault + (u8 list \<times> nat)" where
  "hex2bin_loop packed_hex packed_len bin_len i j binary =
     (if \<not> i < packed_len \<or> j > bin_len then Inr (binary, j)
      else if i + 2 \<le> length packed_hex
      then if_inr (put_at j [scan_hex (packed_hex ! i) (packed_hex ! (i + 1))] binary) (\<lambda>binary.
           hex2bin_loop packed_hex packed_len bin_len (i + 2) (j + 1) binary)
      else Inl OutOfBounds)"
  by pat_completeness auto
termination
  by (relation "measure (\<lambda>(ph, pl, bl, i, j, b). pl - i)") auto

declare hex2bin_loop.simps [simp del]

definition atcab_hex2bin :: "u8 list \<Rightarrow> u8 list \<Rightarrow> nat \<Rightarrow> fault + (ATCA_STATUS \<times> u8 list \<times> nat)" where
  "atcab_hex2bin ascii_hex binary bin_len =
     if_inr (packHex ascii_hex (replicate (length ascii_hex) 0) (length ascii_hex) 0) (\<lambda>(packed_hex, packed_len).
     if_inr (put_at 0 (replicate bin_len 0) binary) (\<lambda>binary.
     if_inr (hex2bin_loop packed_hex packed_len bin_len 0 0 binary) (\<lambda>(binary, j).
     Inr (ATCA_SUCCESS, binary, j))))"

section \<open>What is written\<close>

text \<open>The text of some bytes, from index \<open>i\<close> of the line grid on.\<close>

fun hex_out :: "bool \<Rightarrow> nat \<Rightarrow> u8 list \<Rightarrow> u8 list" where
  "hex_out add_space i [] = []"
| "hex_out add_space i (b # bs) =
     (if i mod 16 = 0 \<and> i \<noteq> 0 \<and> add_space then [13, 10] else []) @ hex_text add_space b @ hex_out add_space (i + 1) bs"

lemma hex_char_range: "n < 16 \<Longrightarrow> hex_char n \<ge> 48 \<and> hex_char n \<le> 57 \<or> hex_char n \<ge> 65 \<and> hex_char n \<le> 70"
  and hex_char_value: "n < 16 \<Longrightarrow> hex_value (hex_char n) = n"
proof -
  have all: "list_all (\<lambda>k. let n = of_nat k :: u8 in
      (hex_char n \<ge> 48 \<and> hex_char n \<le> 57 \<or> hex_char n \<ge> 65 \<and> hex_char n \<le> 70) \<and> hex_value (hex_char n) = n) [0..<16]"
    by code_simp
  assume "n < 16"
  then have "unat n \<in> set [0..<16]" by (simp add: word_less_nat_alt)
  with all have "let n = of_nat (unat n) :: u8 in
      (hex_char n \<ge> 48 \<and> hex_char n \<le> 57 \<or> hex_char n \<ge> 65 \<and> hex_char n \<le> 70) \<and> hex_value (hex_char n) = n"
    unfolding list_all_iff by blast
  then show "hex_char n \<ge> 48 \<and> hex_char n \<le> 57 \<or> hex_char n \<ge> 65 \<and> hex_char n \<le> 70" "hex_value (hex_char n) = n"
    by (simp_all add: Let_def)
qed

lemma nibbles: "drop_bit 4 (b :: u8) < 16" "b AND 0x0F < 16"
proof -
  have "unat b < 256" using unsigned_less [of b] by simp
  then have "unat (drop_bit 4 b) < 16" unfolding unat_drop_bit_eq by (simp add: drop_bit_eq_div)
  then show "drop_bit 4 b < 16" by (simp add: word_less_nat_alt)
  have "b AND 0x0F \<le> 0x0F" by (rule word_and_le1)
  then show "b AND 0x0F < 16" by (simp add: word_less_nat_alt word_le_nat_alt)
qed

lemma hex_digits: "isHexDigit (hex_char (drop_bit 4 b))" "isHexDigit (hex_char (b AND 0x0F))"
  using hex_char_range [OF nibbles(1)] hex_char_range [OF nibbles(2)]
  by (auto simp: isHexDigit_def isDigit_def isHexAlpha_def)

lemma hex_text_facts:
  "0 \<notin> set (hex_text sp b)" "2 \<le> length (hex_text sp b)" "filter isHexDigit (hex_text sp b) = format_02X b"
proof -
  have "hex_char (drop_bit 4 b) \<noteq> 0" "hex_char (b AND 0x0F) \<noteq> 0"
    using hex_char_range [OF nibbles(1) [of b]] hex_char_range [OF nibbles(2) [of b]] by (auto simp del: word_not_simps)
  then show "0 \<notin> set (hex_text sp b)" by (auto simp: hex_text_def format_02X_def)
  show "2 \<le> length (hex_text sp b)" by (simp add: hex_text_def format_02X_def)
  have "\<not> isHexDigit 32" by (simp add: isHexDigit_def isDigit_def isHexAlpha_def)
  then show "filter isHexDigit (hex_text sp b) = format_02X b"
    using hex_digits [of b] by (simp add: hex_text_def format_02X_def)
qed

lemma hex_out_nonzero: "0 \<notin> set (hex_out sp i bs)"
  by (induction sp i bs rule: hex_out.induct) (simp_all add: hex_text_facts(1))

lemma hex_out_digits: "filter isHexDigit (hex_out sp i bs) = concat (map format_02X bs)"
proof (induction sp i bs rule: hex_out.induct)
  case (2 sp i b bs)
  have "\<not> isHexDigit 13" "\<not> isHexDigit 10" by (simp_all add: isHexDigit_def isDigit_def isHexAlpha_def)
  then show ?case using 2 by (simp add: hex_text_facts(3))
qed simp

lemma sprintf_zeros:
  "sprintf_at (length pre) txt (pre @ replicate m 0) =
     (if length txt < m then Inr ((pre @ txt) @ replicate (m - length txt) 0) else Inl OutOfBounds)"
proof -
  have "replicate (m - length txt) 0 = 0 # replicate (m - Suc (length txt)) (0 :: u8)" if "length txt < m"
    using that by (metis Suc_diff_Suc replicate_Suc)
  then show ?thesis by (simp add: sprintf_at_def put_at_def memcpy_at_def)
qed

lemma bin2hex_loop_result:
  assumes "n = length pre + m"
  shows "bin2hex_loop n sp i bs (length pre) (pre @ replicate m 0) =
    (if bs = [] \<or> length (hex_out sp i bs) < m
     then Inr (pre @ hex_out sp i bs @ replicate (m - length (hex_out sp i bs)) 0) else Inl OutOfBounds)"
  using assms
proof (induction bs arbitrary: i pre m)
  case (Cons b bs)
  let ?brk = "i mod 16 = 0 \<and> i \<noteq> 0 \<and> sp" and ?t = "hex_text sp b"
  let ?nl = "if ?brk then [13, 10] else [] :: u8 list"
  define pre1 m1 where "pre1 = pre @ ?nl" and "m1 = m - length ?nl"
  let ?out = "hex_out sp (i + 1) bs"
  have t: "2 \<le> length ?t" by (rule hex_text_facts(2))
  have pos: "(if ?brk then length pre + 2 else length pre) = length pre1" by (simp add: pre1_def)
  have first: "(if ?brk then sprintf_at (length pre) [13, 10] (pre @ replicate m 0) else Inr (pre @ replicate m 0)) =
      (if ?brk \<and> \<not> 2 < m then Inl OutOfBounds else Inr (pre1 @ replicate m1 0))"
    by (simp add: sprintf_zeros pre1_def m1_def)
  have step: "bin2hex_loop n sp i (b # bs) (length pre) (pre @ replicate m 0) =
     (if ?brk \<and> \<not> 2 < m \<or> \<not> length ?t < m1 then Inl OutOfBounds
      else bin2hex_loop n sp (i + 1) bs (length (pre1 @ ?t)) ((pre1 @ ?t) @ replicate (m1 - length ?t) 0))"
    unfolding bin2hex_loop.simps Let_def first pos using Cons.prems by (simp add: sprintf_zeros)
  show ?case
  proof (cases "?brk \<and> \<not> 2 < m \<or> \<not> length ?t < m1")
    case True
    then have "\<not> length (hex_out sp i (b # bs)) < m" using t by (auto simp: m1_def)
    then show ?thesis unfolding step using True by simp
  next
    case False
    then have n: "n = length (pre1 @ ?t) + (m1 - length ?t)" using Cons.prems by (auto simp: pre1_def m1_def)
    have "(bs = [] \<or> length ?out < m1 - length ?t) = (length (hex_out sp i (b # bs)) < m)"
      using False by (auto simp: m1_def)
    moreover have "m1 - length ?t - length ?out = m - length (hex_out sp i (b # bs))" by (simp add: m1_def)
    moreover have "(pre1 @ ?t) @ ?out = pre @ hex_out sp i (b # bs)" by (simp add: pre1_def)
    ultimately show ?thesis unfolding step using False Cons.IH [OF n, of "i + 1"]
      by (simp only: if_False simp_thms append_assoc [symmetric] list.distinct)
  qed
qed simp

lemma strlen_text:
  assumes "0 \<notin> set t" "0 < m"
  shows "strlen (t @ replicate m 0) = Inr (length t)"
proof -
  have "takeWhile (\<lambda>c. c \<noteq> 0) (t @ 0 # xs) = t" for xs
    using assms(1) by (subst takeWhile_append2) auto
  then show ?thesis using assms(2) by (cases m) (simp_all add: strlen_def)
qed

lemma bin2hex_result:
  assumes "length ascii_hex = n"
  shows "atcab_bin2hex_sp bs ascii_hex n sp =
    (if length (hex_out sp 0 bs) < n
     then Inr (ATCA_SUCCESS, hex_out sp 0 bs @ replicate (n - length (hex_out sp 0 bs)) 0, length (hex_out sp 0 bs))
     else Inl OutOfBounds)"
proof -
  have z: "put_at 0 (replicate n 0) ascii_hex = Inr (replicate n 0)" using assms by (simp add: put_at_def memcpy_at_def)
  note loop = bin2hex_loop_result [of n "[]" n sp 0 bs, simplified]
  show ?thesis
  proof (cases "length (hex_out sp 0 bs) < n")
    case True
    then show ?thesis using strlen_text [OF hex_out_nonzero, of "n - length (hex_out sp 0 bs)" sp 0 bs]
      by (simp add: atcab_bin2hex_sp_def z loop)
  next
    case False
    then show ?thesis using z by (cases "bs = []") (simp_all add: atcab_bin2hex_sp_def loop strlen_def)
  qed
qed

section \<open>What is read\<close>

lemma packHex_result:
  assumes "length pre = j" "length (filter isHexDigit s) \<le> m" "j + m \<le> n"
  shows "packHex s (pre @ replicate m 0) n j =
    Inr (pre @ filter isHexDigit s @ replicate (m - length (filter isHexDigit s)) 0, j + length (filter isHexDigit s))"
  using assms
proof (induction s arbitrary: pre j m)
  case (Cons c s)
  show ?case
  proof (cases "isHexDigit c")
    case True
    then obtain k where k: "m = Suc k" using Cons.prems(2) by (cases m) auto
    have "put_at j [c] (pre @ replicate m 0) = Inr ((pre @ [c]) @ replicate k 0)"
      using Cons.prems(1) by (simp add: put_at_def memcpy_at_def k)
    then show ?thesis using True Cons.prems Cons.IH [of "pre @ [c]" "j + 1" k] by (simp add: k)
  next
    case False
    then show ?thesis using Cons.prems Cons.IH [of pre j m] by simp
  qed
qed simp

text \<open>The bytes that pairs of digits spell; a last single digit is a byte of its own.\<close>

fun hex_bytes :: "u8 list \<Rightarrow> u8 list" where
  "hex_bytes (c # d # s) = scan_hex c d # hex_bytes s"
| "hex_bytes [c] = [scan_hex c 0]"
| "hex_bytes [] = []"

lemma length_hex_bytes: "length (hex_bytes s) = (length s + 1) div 2"
  by (induction s rule: hex_bytes.induct) auto

text \<open>The loop over digits \<open>ds\<close> that are followed by at least one zero if they are odd in number.\<close>

lemma hex2bin_loop_result:
  assumes "even i" "length out = j" "packed = pre @ ds @ replicate z 0" "length pre = i" "odd (length ds) \<Longrightarrow> 0 < z"
    and "bin_len = j + m"
  shows "hex2bin_loop packed (i + length ds) bin_len i j (out @ replicate m 0) =
    (if length (hex_bytes ds) \<le> m then Inr (out @ hex_bytes ds @ replicate (m - length (hex_bytes ds)) 0, j + length (hex_bytes ds))
     else Inl OutOfBounds)"
  using assms
proof (induction ds arbitrary: i j out pre m rule: hex_bytes.induct)
  case (1 c d s)
  have at: "packed ! i = c" "packed ! (i + 1) = d" "i + 2 \<le> length packed" using "1.prems"(3,4) by (simp_all add: nth_append)
  have run: "hex2bin_loop packed (i + length (c # d # s)) bin_len i j (out @ replicate m 0) =
      if_inr (put_at j [scan_hex c d] (out @ replicate m 0)) (\<lambda>binary.
        hex2bin_loop packed ((i + 2) + length s) bin_len (i + 2) (j + 1) binary)"
    using at "1.prems"(6) by (subst hex2bin_loop.simps) simp
  show ?case
  proof (cases m)
    case 0
    then show ?thesis unfolding run using "1.prems"(2) by (simp add: put_at_def)
  next
    case (Suc k)
    have put: "put_at j [scan_hex c d] (out @ replicate m 0) = Inr ((out @ [scan_hex c d]) @ replicate k 0)"
      using "1.prems"(2) by (simp add: put_at_def memcpy_at_def Suc)
    have "even (i + 2)" "length (out @ [scan_hex c d]) = j + 1" "packed = (pre @ [c, d]) @ s @ replicate z 0"
      "length (pre @ [c, d]) = i + 2" "odd (length s) \<Longrightarrow> 0 < z" "bin_len = j + 1 + k"
      using "1.prems" Suc by simp_all
    from "1.IH" [OF this] show ?thesis unfolding run put by (simp add: Suc)
  qed
next
  case (2 c)
  then obtain y where z: "z = Suc y" by (cases z) auto
  have at: "packed ! i = c" "packed ! (i + 1) = 0" "i + 2 \<le> length packed" using 2(3,4) by (simp_all add: nth_append z)
  have "hex2bin_loop packed (i + length [c]) bin_len i j (out @ replicate m 0) =
      if_inr (put_at j [scan_hex c 0] (out @ replicate m 0)) (\<lambda>binary.
        hex2bin_loop packed (i + 1) bin_len (i + 2) (j + 1) binary)"
    using at 2(6) by (subst hex2bin_loop.simps) simp
  moreover have "hex2bin_loop packed (i + 1) bin_len (i + 2) (j + 1) b = Inr (b, j + 1)" for b
    by (subst hex2bin_loop.simps) simp
  ultimately show ?case using 2(2) by (cases m) (simp_all add: put_at_def memcpy_at_def)
next
  case 3
  then show ?case by (subst hex2bin_loop.simps) simp
qed

text \<open>
  The bytes of a hex text with other characters between its digits; with an odd number of
  digits and nothing else the last pair is read from behind the allocated copy.
\<close>

lemma hex2bin_result:
  assumes "length binary = bin_len" "odd (length (filter isHexDigit s)) \<Longrightarrow> length (filter isHexDigit s) < length s"
  shows "atcab_hex2bin s binary bin_len =
    (let bs = hex_bytes (filter isHexDigit s)
     in if length bs \<le> bin_len then Inr (ATCA_SUCCESS, bs @ replicate (bin_len - length bs) 0, length bs)
        else Inl OutOfBounds)"
proof -
  let ?ds = "filter isHexDigit s" and ?bin = "replicate bin_len (0 :: u8)"
  have p: "packHex s (replicate (length s) 0) (length s) 0 = Inr (?ds @ replicate (length s - length ?ds) 0, length ?ds)"
    using packHex_result [of "[]" 0 s "length s" "length s"] by simp
  have b: "put_at 0 ?bin binary = Inr ?bin" using assms(1) by (simp add: put_at_def memcpy_at_def)
  have "hex2bin_loop (?ds @ replicate (length s - length ?ds) 0) (length ?ds) bin_len 0 0 ?bin =
    (if length (hex_bytes ?ds) \<le> bin_len
     then Inr (hex_bytes ?ds @ replicate (bin_len - length (hex_bytes ?ds)) 0, length (hex_bytes ?ds)) else Inl OutOfBounds)"
    using hex2bin_loop_result [of 0 "[]" 0 "?ds @ replicate (length s - length ?ds) 0" "[]" ?ds "length s - length ?ds" bin_len bin_len]
      assms(2) by simp
  then show ?thesis by (simp add: atcab_hex2bin_def p b Let_def)
qed

lemma scan_format: "scan_hex (hex_char (drop_bit 4 b)) (hex_char (b AND 0x0F)) = b"
proof -
  have "push_bit 4 (drop_bit 4 b) OR (b AND 0x0F) = b"
  proof (rule bit_word_eqI)
    fix n
    have m: "bit (0x0F :: u8) n \<longleftrightarrow> n < 4" using bit_mask_iff [of 4 n, where 'a = u8] by (auto simp: mask_eq_exp_minus_1)
    assume "n < LENGTH(8)"
    then show "bit (push_bit 4 (drop_bit 4 b) OR (b AND 0x0F)) n = bit b n"
      unfolding bit_or_iff bit_push_bit_iff bit_drop_bit_eq bit_and_iff m by (cases "n < 4") auto
  qed
  then show ?thesis using hex_digits(2) [of b] by (simp only: scan_hex_def if_True hex_char_value [OF nibbles(1)] hex_char_value [OF nibbles(2)])
qed

lemma hex_bytes_format: "hex_bytes (concat (map format_02X bs)) = bs"
  by (induction bs) (simp_all add: format_02X_def scan_format)

text \<open>Bytes printed and read again are the same bytes.\<close>

lemma hex_roundtrip:
  assumes "length binary = bin_len" "length bs \<le> bin_len"
  shows "atcab_hex2bin (hex_out sp 0 bs) binary bin_len =
    Inr (ATCA_SUCCESS, bs @ replicate (bin_len - length bs) 0, length bs)"
proof -
  have f: "filter isHexDigit (hex_out sp 0 bs) = concat (map format_02X bs)" by (rule hex_out_digits)
  have "length (concat (map format_02X bs)) = 2 * length bs" by (induction bs) (simp_all add: format_02X_def)
  then have e: "even (length (filter isHexDigit (hex_out sp 0 bs)))" unfolding f by simp
  show ?thesis
    by (subst hex2bin_result [OF assms(1)]) (use e assms(2) in \<open>simp_all add: f hex_bytes_format Let_def\<close>)
qed

section \<open>Properties\<close>

text \<open>
  The hex text of some bytes, with or without spaces and line breaks, read back by
  \<open>atcab_hex2bin\<close> into a buffer that holds them gives the bytes and their number, whatever the
  buffers held before.
\<close>

lemma hex_text_roundtrip:
  assumes "length ascii_hex = n" "length (hex_out sp 0 bs) < n" "length binary = bin_len" "length bs \<le> bin_len"
  shows "\<exists>txt len. atcab_bin2hex_sp bs ascii_hex n sp = Inr (ATCA_SUCCESS, txt, len) \<and>
    atcab_hex2bin (take len txt) binary bin_len = Inr (ATCA_SUCCESS, bs @ replicate (bin_len - length bs) 0, length bs)"
  using bin2hex_result [OF assms(1), of bs sp] hex_roundtrip [OF assms(3,4), of sp] assms(2) by simp

lemma length_spaced_text: "length (hex_out True i bs) = 3 * length bs + 2 * length (filter (\<lambda>k. k mod 16 = 0 \<and> k \<noteq> 0) [i..<i + length bs])"
proof (induction bs arbitrary: i)
  case (Cons b bs)
  have "[i..<i + length (b # bs)] = i # [i + 1..<i + 1 + length bs]"
    using upt_conv_Cons [of i "i + length (b # bs)"] by simp
  then show ?case using Cons [of "i + 1"] by (simp add: hex_text_def format_02X_def)
qed simp

text \<open>
  The spaced text of \<open>n\<close> bytes needs three characters for each, two for every line break
  and the terminator, and \<open>atcab_bin2hex\<close> writes beyond its buffer exactly when the buffer is
  shorter than that. The buffer of \<open>at508_get_sernum\<close>, three times the serial number, is one
  byte too short.
\<close>

lemma bin2hex_overrun:
  assumes "length ascii_hex = n" "length bs \<le> 16"
  shows "atcab_bin2hex bs ascii_hex n = Inl OutOfBounds \<longleftrightarrow> n \<le> 3 * length bs"
proof -
  have "filter (\<lambda>k. k mod 16 = 0 \<and> k \<noteq> 0) [0..<0 + length bs] = []" using assms(2) by (auto simp: filter_empty_conv)
  then have "length (hex_out True 0 bs) = 3 * length bs" unfolding length_spaced_text by simp
  then show ?thesis by (auto simp: atcab_bin2hex_def bin2hex_result [OF assms(1)])
qed

end
