(* ===== verification/AtcaBase64.thy ===== *)
theory AtcaBase64
  imports AtcaHex
begin

text \<open>
  The Base64 helpers of the library (\<open>libatca/basic/atca_helpers.c\<close>): encoding with line breaks
  and decoding of a text with white space, under a rule set. An output buffer is its size and
  what has been written so far; a write beyond the size is a fault.
\<close>

section \<open>The program\<close>

text \<open>A rule set: the characters 62 and 63, the padding (none if 0), the line length.\<close>

type_synonym rules = "u8 list"

definition atcab_b64rules_default :: rules where "atcab_b64rules_default = [43, 47, 61, 64]"
definition atcab_b64rules_mime :: rules where "atcab_b64rules_mime = [43, 47, 61, 76]"
definition atcab_b64rules_urlsafe :: rules where "atcab_b64rules_urlsafe = [45, 95, 0, 0]"

definition IS_EQUAL :: u8 where "IS_EQUAL = 64"
definition IS_INVALID :: u8 where "IS_INVALID = 0xFF"

definition isBase64Digit :: "u8 \<Rightarrow> rules \<Rightarrow> bool" where
  "isBase64Digit c rules \<longleftrightarrow> isDigit c \<or> isAlpha c \<or> c = rules ! 0 \<or> c = rules ! 1 \<or> c = rules ! 2"

definition isBase64 :: "u8 \<Rightarrow> rules \<Rightarrow> bool" where
  "isBase64 c rules \<longleftrightarrow> isBase64Digit c rules \<or> isWhiteSpace c"

definition base64Index :: "u8 \<Rightarrow> rules \<Rightarrow> u8" where
  "base64Index c rules =
     (if c \<ge> 65 \<and> c \<le> 90 then c - 65
      else if c \<ge> 97 \<and> c \<le> 122 then 26 + c - 97
      else if c \<ge> 48 \<and> c \<le> 57 then 52 + c - 48
      else if c = rules ! 0 then 62
      else if c = rules ! 1 then 63
      else if c = rules ! 2 then IS_EQUAL
      else IS_INVALID)"

definition base64Char :: "u8 \<Rightarrow> rules \<Rightarrow> u8" where
  "base64Char ix rules =
     (if ix < 26 then 65 + ix
      else if ix < 52 then 97 + ix - 26
      else if ix < 62 then 48 + ix - 52
      else if ix = 62 then rules ! 0
      else if ix = 63 then rules ! 1
      else if ix = IS_EQUAL then rules ! 2
      else IS_INVALID)"

text \<open>Appending to a buffer of \<open>cap\<close> bytes.\<close>

definition put_chars :: "nat \<Rightarrow> u8 list \<Rightarrow> u8 list \<Rightarrow> fault + u8 list" where
  "put_chars cap cs out = (if length out + length cs \<le> cap then Inr (out @ cs) else Inl OutOfBounds)"

text \<open>The characters of up to three bytes.\<close>

fun base64_group :: "rules \<Rightarrow> u8 list \<Rightarrow> u8 list" where
  "base64_group rules (a # b # c # _) =
     [base64Char (drop_bit 2 (a AND 0xFC)) rules,
      base64Char (push_bit 4 (a AND 0x03) OR drop_bit 4 (b AND 0xF0)) rules,
      base64Char (push_bit 2 (b AND 0x0F) OR drop_bit 6 (c AND 0xC0)) rules,
      base64Char (c AND 0x3F) rules]"
| "base64_group rules [a, b] =
     [base64Char (drop_bit 2 (a AND 0xFC)) rules,
      base64Char (push_bit 4 (a AND 0x03) OR drop_bit 4 (b AND 0xF0)) rules,
      base64Char (push_bit 2 (b AND 0x0F)) rules, base64Char IS_EQUAL rules]"
| "base64_group rules [a] =
     [base64Char (drop_bit 2 (a AND 0xFC)) rules, base64Char (push_bit 4 (a AND 0x03)) rules,
      base64Char IS_EQUAL rules, base64Char IS_EQUAL rules]"
| "base64_group rules [] = []"

definition line_break :: "rules \<Rightarrow> nat \<Rightarrow> u8 list \<Rightarrow> nat \<Rightarrow> fault + (u8 list \<times> nat)" where
  "line_break rules cap out offset =
     (if rules ! 3 \<noteq> 0 \<and> (length out - offset) mod unat (rules ! 3) = 0 \<and> last out \<noteq> 0
      then if_inr (put_chars cap [13, 10] out) (\<lambda>out. Inr (out, offset + 2))
      else Inr (out, offset))"

function encode_loop :: "rules \<Rightarrow> nat \<Rightarrow> u8 list \<Rightarrow> nat \<Rightarrow> u8 list \<Rightarrow> fault + u8 list" where
  "encode_loop rules cap bytes offset out =
     (if bytes = [] then Inr out
      else if_inr (put_chars cap (base64_group rules bytes) out) (\<lambda>out.
           if_inr (line_break rules cap out offset) (\<lambda>(out, offset).
           encode_loop rules cap (drop 3 bytes) offset out)))"
  by pat_completeness auto
termination
  by (relation "measure (\<lambda>(r, c, b, f, out). length b)") auto

declare encode_loop.simps [simp del]

text \<open>The index where the stripping of padding and line breaks from the end stops.\<close>

primrec strip_end :: "u8 list \<Rightarrow> nat \<Rightarrow> nat" where
  "strip_end out 0 = 0"
| "strip_end out (Suc j) = (if out ! Suc j \<notin> {0, 13, 10} then Suc j else strip_end out j)"

definition base64_out_len :: "rules \<Rightarrow> nat \<Rightarrow> nat" where
  "base64_out_len rules array_len =
     (let b64_len = array_len * 4 div 3 + array_len mod 3
      in b64_len + (if rules ! 3 \<noteq> 0 then b64_len div unat (rules ! 3) * 2 else 0))"

text \<open>Encoding no bytes starts the stripping at the index \<open>SIZE_MAX\<close>.\<close>

definition atcab_base64encode_rules :: "u8 list \<Rightarrow> nat \<Rightarrow> rules \<Rightarrow> fault + (ATCA_STATUS \<times> u8 list \<times> nat)" where
  "atcab_base64encode_rules byte_array encoded_len rules =
     (if encoded_len < base64_out_len rules (length byte_array) then Inr (ATCA_BAD_PARAM, [], encoded_len)
      else if_inr (encode_loop rules encoded_len byte_array 0 []) (\<lambda>out.
        if out = [] then Inl OutOfBounds
        else
          let j = strip_end out (length out - 1) + 1
          in if j < encoded_len then Inr (ATCA_SUCCESS, take j out, j) else Inl OutOfBounds))"

definition atcab_base64encode :: "u8 list \<Rightarrow> nat \<Rightarrow> fault + (ATCA_STATUS \<times> u8 list \<times> nat)" where
  "atcab_base64encode byte_array encoded_len = atcab_base64encode_rules byte_array encoded_len atcab_b64rules_default"

fun pack_loop :: "u8 list \<Rightarrow> nat \<Rightarrow> rules \<Rightarrow> u8 list \<Rightarrow> fault + u8 list" where
  "pack_loop [] packed_len rules packed = Inr packed"
| "pack_loop (c # s) packed_len rules packed =
     (if isBase64Digit c rules
      then (if length packed > packed_len then Inr packed
            else if_inr (put_chars packed_len [c] packed) (pack_loop s packed_len rules))
      else pack_loop s packed_len rules packed)"

definition packBase64 :: "u8 list \<Rightarrow> nat \<Rightarrow> rules \<Rightarrow> fault + u8 list" where
  "packBase64 ascii_base64 packed_len rules =
     if_inr (pack_loop ascii_base64 packed_len rules []) (\<lambda>packed.
       if rules ! 2 = 0 then put_chars packed_len (replicate ((4 - length packed mod 4) mod 4) 0) packed
       else Inr packed)"

definition decode_group :: "u8 \<Rightarrow> u8 \<Rightarrow> u8 \<Rightarrow> u8 \<Rightarrow> u8 list" where
  "decode_group id0 id1 id2 id3 =
     [push_bit 2 id0 OR drop_bit 4 id1] @
     (if id2 < 64 then [push_bit 4 id1 OR drop_bit 2 id2] @ (if id3 < 64 then [push_bit 6 id2 OR id3] else []) else [])"

fun decode_loop :: "rules \<Rightarrow> nat \<Rightarrow> u8 list \<Rightarrow> u8 list \<Rightarrow> fault + u8 list" where
  "decode_loop rules cap (c0 # c1 # c2 # c3 # packed) out =
     if_inr (put_chars cap (decode_group (base64Index c0 rules) (base64Index c1 rules) (base64Index c2 rules)
         (base64Index c3 rules)) out) (decode_loop rules cap packed)"
| "decode_loop rules cap _ out = Inr out"

definition atcab_base64decode_rules :: "u8 list \<Rightarrow> nat \<Rightarrow> rules \<Rightarrow> fault + (ATCA_STATUS \<times> u8 list \<times> nat)" where
  "atcab_base64decode_rules encoded array_len rules =
     (let encoded_len = length encoded; packed_len = encoded_len + encoded_len mod 4; out_len = encoded_len * 3 div 4
      in if_inr (packBase64 encoded packed_len rules) (\<lambda>packed.
         if length packed mod 4 \<noteq> 0 then Inr (ATCA_BAD_PARAM, [], array_len)
         else if array_len < out_len then Inr (ATCA_BAD_PARAM, [], array_len)
         else if_inr (decode_loop rules array_len packed []) (\<lambda>out. Inr (ATCA_SUCCESS, out, length out))))"

definition atcab_base64decode :: "u8 list \<Rightarrow> nat \<Rightarrow> fault + (ATCA_STATUS \<times> u8 list \<times> nat)" where
  "atcab_base64decode encoded array_len = atcab_base64decode_rules encoded array_len atcab_b64rules_default"

section \<open>Characters\<close>

definition rules_ok :: "rules \<Rightarrow> bool" where
  "rules_ok rules \<longleftrightarrow> length rules = 4 \<and> distinct (take 3 rules) \<and>
     list_all (\<lambda>c. \<not> isDigit c \<and> \<not> isAlpha c \<and> c \<noteq> 10 \<and> c \<noteq> 13) (take 3 rules) \<and> rules ! 0 \<noteq> 0 \<and> rules ! 1 \<noteq> 0"

lemma rules_ok_sets: "rules_ok atcab_b64rules_default" "rules_ok atcab_b64rules_mime" "rules_ok atcab_b64rules_urlsafe"
  by code_simp+

lemma rules_okE:
  assumes "rules_ok rules"
  obtains r0 r1 r2 r3 where "rules = [r0, r1, r2, r3]" "r0 \<noteq> r1" "r0 \<noteq> r2" "r1 \<noteq> r2" "r0 \<noteq> 0" "r1 \<noteq> 0"
    "\<And>c. c \<in> {r0, r1, r2} \<Longrightarrow> \<not> isDigit c \<and> \<not> isAlpha c \<and> c \<noteq> 10 \<and> c \<noteq> 13"
proof -
  from assms obtain r0 r1 r2 r3 where "rules = [r0, r1, r2, r3]"
    by (auto simp: rules_ok_def numeral_eq_Suc length_Suc_conv)
  then show thesis using assms by (intro that [of r0 r1 r2 r3]) (auto simp: rules_ok_def)
qed

definition text_char :: "u8 \<Rightarrow> bool" where
  "text_char c \<longleftrightarrow> c \<noteq> 0 \<and> c \<noteq> 13 \<and> c \<noteq> 10"

lemma alnum_chars:
  assumes "ix < 62"
  shows "isDigit (base64Char ix rules) \<or> isAlpha (base64Char ix rules)" "text_char (base64Char ix rules)"
    "base64Index (base64Char ix rules) rules = ix"
proof -
  let ?r = "[0, 0, 0, 0] :: rules"
  have all: "list_all (\<lambda>k. let c = base64Char (of_nat k) ?r in
      (isDigit c \<or> isAlpha c) \<and> text_char c \<and> base64Index c ?r = of_nat k) [0..<62]" by code_simp
  have "unat ix \<in> set [0..<62]" using assms by (simp add: word_less_nat_alt)
  with all have "let c = base64Char (of_nat (unat ix)) ?r in
      (isDigit c \<or> isAlpha c) \<and> text_char c \<and> base64Index c ?r = of_nat (unat ix)"
    unfolding list_all_iff by blast
  then have c: "isDigit (base64Char ix ?r) \<or> isAlpha (base64Char ix ?r)" "text_char (base64Char ix ?r)"
    "base64Index (base64Char ix ?r) ?r = ix" by (simp_all add: Let_def)
  have e: "base64Char ix rules = base64Char ix ?r" using assms by (auto simp: base64Char_def)
  have "base64Index d rules = base64Index d ?r" if "isDigit d \<or> isAlpha d" for d
    using that by (auto simp: base64Index_def isDigit_def isAlpha_def)
  then show "isDigit (base64Char ix rules) \<or> isAlpha (base64Char ix rules)" "text_char (base64Char ix rules)"
    "base64Index (base64Char ix rules) rules = ix"
    unfolding e using c by simp_all
qed

lemma base64_chars:
  assumes "rules_ok rules" "ix < 64"
  shows "isBase64Digit (base64Char ix rules) rules" "text_char (base64Char ix rules)"
    "base64Index (base64Char ix rules) rules = ix"
proof -
  obtain r0 r1 r2 r3 where r: "rules = [r0, r1, r2, r3]" "r0 \<noteq> r1" "r0 \<noteq> 0" "r1 \<noteq> 0"
    and n: "\<And>c. c \<in> {r0, r1, r2} \<Longrightarrow> \<not> isDigit c \<and> \<not> isAlpha c \<and> c \<noteq> 10 \<and> c \<noteq> 13"
    using rules_okE [OF assms(1)] by metis
  have "unat ix < 64" using assms(2) by (simp add: word_less_nat_alt)
  then have "ix < 62 \<or> ix = 62 \<or> ix = 63" by (auto simp: word_less_nat_alt word_unat_eq_iff)
  then have "isBase64Digit (base64Char ix rules) rules \<and> text_char (base64Char ix rules) \<and> base64Index (base64Char ix rules) rules = ix"
  proof (elim disjE)
    assume "ix < 62"
    then show ?thesis using alnum_chars [of ix rules] by (auto simp: isBase64Digit_def)
  next
    assume "ix = 62"
    then show ?thesis using r n [of r0]
      by (auto simp: base64Char_def base64Index_def isBase64Digit_def text_char_def isDigit_def isAlpha_def)
  next
    assume "ix = 63"
    then show ?thesis using r n [of r1]
      by (auto simp: base64Char_def base64Index_def isBase64Digit_def text_char_def isDigit_def isAlpha_def)
  qed
  then show "isBase64Digit (base64Char ix rules) rules" "text_char (base64Char ix rules)"
    "base64Index (base64Char ix rules) rules = ix" by simp_all
qed

lemma pad_char:
  assumes "rules_ok rules"
  shows "base64Char IS_EQUAL rules = rules ! 2" "base64Index (rules ! 2) rules = 64"
    "rules ! 2 \<noteq> 13" "rules ! 2 \<noteq> 10" "isBase64Digit (rules ! 2) rules" "\<not> isBase64Digit 13 rules" "\<not> isBase64Digit 10 rules"
    "rules ! 2 \<noteq> 0 \<Longrightarrow> \<not> isBase64Digit 0 rules"
proof -
  obtain r0 r1 r2 r3 where r: "rules = [r0, r1, r2, r3]" "r0 \<noteq> r2" "r1 \<noteq> r2" "r0 \<noteq> 0" "r1 \<noteq> 0"
    and n: "\<And>c. c \<in> {r0, r1, r2} \<Longrightarrow> \<not> isDigit c \<and> \<not> isAlpha c \<and> c \<noteq> 10 \<and> c \<noteq> 13"
    using rules_okE [OF assms] by metis
  show "base64Char IS_EQUAL rules = rules ! 2" by (simp add: base64Char_def IS_EQUAL_def)
  have "\<not> isDigit r2" "\<not> isAlpha r2" using n [of r2] by auto
  then have "\<not> (r2 \<ge> 48 \<and> r2 \<le> 57)" "\<not> (r2 \<ge> 65 \<and> r2 \<le> 90)" "\<not> (r2 \<ge> 97 \<and> r2 \<le> 122)"
    unfolding isDigit_def isAlpha_def by blast+
  then show "base64Index (rules ! 2) rules = 64"
    using r by (auto simp: base64Index_def IS_EQUAL_def simp del: not_le)
  show "rules ! 2 \<noteq> 13" "rules ! 2 \<noteq> 10" using n [of r2] by (simp_all add: r(1))
  show "isBase64Digit (rules ! 2) rules" by (simp add: isBase64Digit_def)
  show "\<not> isBase64Digit 13 rules" "\<not> isBase64Digit 10 rules"
    using n [of r0] n [of r1] n [of r2] by (auto simp: isBase64Digit_def isDigit_def isAlpha_def r(1))
  show "\<not> isBase64Digit 0 rules" if "rules ! 2 \<noteq> 0" using that r by (auto simp: isBase64Digit_def isDigit_def isAlpha_def)
qed

section \<open>Groups\<close>

lemma byte_masks:
  "bit (0xFC :: u8) n \<longleftrightarrow> 2 \<le> n \<and> n < 8" "bit (0x03 :: u8) n \<longleftrightarrow> n < 2" "bit (0xF0 :: u8) n \<longleftrightarrow> 4 \<le> n \<and> n < 8"
  "bit (0x0F :: u8) n \<longleftrightarrow> n < 4" "bit (0xC0 :: u8) n \<longleftrightarrow> 6 \<le> n \<and> n < 8" "bit (0x3F :: u8) n \<longleftrightarrow> n < 6"
proof -
  have *: "(bit (0xFC :: u8) n \<longleftrightarrow> 2 \<le> n \<and> n < 8) \<and> (bit (0x03 :: u8) n \<longleftrightarrow> n < 2) \<and> (bit (0xF0 :: u8) n \<longleftrightarrow> 4 \<le> n \<and> n < 8) \<and>
    (bit (0x0F :: u8) n \<longleftrightarrow> n < 4) \<and> (bit (0xC0 :: u8) n \<longleftrightarrow> 6 \<le> n \<and> n < 8) \<and> (bit (0x3F :: u8) n \<longleftrightarrow> n < 6)"
  proof (cases "n < 8")
    case True
    have "list_all (\<lambda>n. (bit (0xFC :: u8) n \<longleftrightarrow> 2 \<le> n \<and> n < 8) \<and> (bit (0x03 :: u8) n \<longleftrightarrow> n < 2) \<and>
      (bit (0xF0 :: u8) n \<longleftrightarrow> 4 \<le> n \<and> n < 8) \<and> (bit (0x0F :: u8) n \<longleftrightarrow> n < 4) \<and> (bit (0xC0 :: u8) n \<longleftrightarrow> 6 \<le> n \<and> n < 8) \<and>
      (bit (0x3F :: u8) n \<longleftrightarrow> n < 6)) [0..<8]" by code_simp
    then show ?thesis using True unfolding list_all_iff by (metis atLeastLessThan_iff set_upt zero_le)
  qed simp
  then show "bit (0xFC :: u8) n \<longleftrightarrow> 2 \<le> n \<and> n < 8" "bit (0x03 :: u8) n \<longleftrightarrow> n < 2" "bit (0xF0 :: u8) n \<longleftrightarrow> 4 \<le> n \<and> n < 8"
  "bit (0x0F :: u8) n \<longleftrightarrow> n < 4" "bit (0xC0 :: u8) n \<longleftrightarrow> 6 \<le> n \<and> n < 8" "bit (0x3F :: u8) n \<longleftrightarrow> n < 6" by auto
qed

lemma six_bits:
  assumes "\<And>n. 6 \<le> n \<Longrightarrow> \<not> bit (w :: u8) n"
  shows "w < 64"
proof -
  have "take_bit 6 w = w"
  proof (rule bit_word_eqI)
    fix n show "bit (take_bit 6 w) n = bit w n" using assms [of n] by (cases "n < 6") (auto simp: bit_take_bit_iff)
  qed
  then have "take_bit 6 (unat w) = unat w" by (metis unsigned_take_bit_eq)
  then show ?thesis using take_bit_nat_less_exp [of 6 "unat w"] by (simp add: word_less_nat_alt)
qed

lemma all_six_bits: "(\<forall>n. 6 \<le> n \<longrightarrow> \<not> bit w n) \<Longrightarrow> (w :: u8) < 64"
  by (rule six_bits) simp

lemma Suc_Suc_diff: "2 \<le> n \<Longrightarrow> Suc (Suc (n - 2)) = n"
  by simp

lemma byte_eqI: "(v :: u8) = w \<longleftrightarrow> (\<forall>n < 8. bit v n = bit w n)"
  by (auto intro: bit_word_eqI)

lemmas group_bits = bit_or_iff bit_push_bit_iff bit_drop_bit_eq bit_and_iff byte_masks o_def

lemma group_indices:
  fixes a b c :: u8
  shows "drop_bit 2 (a AND 0xFC) < 64" "push_bit 4 (a AND 0x03) OR drop_bit 4 (b AND 0xF0) < 64"
    "push_bit 2 (b AND 0x0F) OR drop_bit 6 (c AND 0xC0) < 64" "c AND 0x3F < 64"
    "push_bit 4 (a AND 0x03) < 64" "push_bit 2 (b AND 0x0F) < 64"
  by (rule all_six_bits, simp only: group_bits, (auto)[1])+

lemma group_bytes:
  fixes a b c :: u8
  shows "push_bit 2 (drop_bit 2 (a AND 0xFC)) OR drop_bit 4 (push_bit 4 (a AND 0x03) OR drop_bit 4 (b AND 0xF0)) = a"
    "push_bit 2 (drop_bit 2 (a AND 0xFC)) OR drop_bit 4 (push_bit 4 (a AND 0x03)) = a"
    "push_bit 4 (push_bit 4 (a AND 0x03) OR drop_bit 4 (b AND 0xF0)) OR
       drop_bit 2 (push_bit 2 (b AND 0x0F) OR drop_bit 6 (c AND 0xC0)) = b"
    "push_bit 4 (push_bit 4 (a AND 0x03) OR drop_bit 4 (b AND 0xF0)) OR drop_bit 2 (push_bit 2 (b AND 0x0F)) = b"
    "push_bit 6 (push_bit 2 (b AND 0x0F) OR drop_bit 6 (c AND 0xC0)) OR (c AND 0x3F) = c"
  by (simp_all only: byte_eqI group_bits) (auto simp: not_less Suc_Suc_diff)

text \<open>All groups of the bytes, without line breaks.\<close>

function groups :: "rules \<Rightarrow> u8 list \<Rightarrow> u8 list" where
  "groups rules bytes = (if bytes = [] then [] else base64_group rules bytes @ groups rules (drop 3 bytes))"
  by pat_completeness auto
termination
  by (relation "measure (length \<circ> snd)") auto

declare groups.simps [simp del]

lemma groups_simps: "groups rules [] = []" "bs \<noteq> [] \<Longrightarrow> groups rules bs = base64_group rules bs @ groups rules (drop 3 bs)"
  by (simp_all add: groups.simps [of rules])

lemma take_3: "take 3 (a # b # c # r) = [a, b, c]" "take 3 [a, b] = [a, b]" "take 3 [a] = [a]"
  by (simp_all add: numeral_eq_Suc)

lemma decode_indices:
  fixes a b c :: u8
  shows "decode_group (drop_bit 2 (a AND 0xFC)) (push_bit 4 (a AND 0x03) OR drop_bit 4 (b AND 0xF0))
      (push_bit 2 (b AND 0x0F) OR drop_bit 6 (c AND 0xC0)) (c AND 0x3F) = [a, b, c]"
    "decode_group (drop_bit 2 (a AND 0xFC)) (push_bit 4 (a AND 0x03) OR drop_bit 4 (b AND 0xF0)) (push_bit 2 (b AND 0x0F)) 64 = [a, b]"
    "decode_group (drop_bit 2 (a AND 0xFC)) (push_bit 4 (a AND 0x03)) 64 64 = [a]"
  unfolding decode_group_def group_bytes
  using group_indices(3) [of b c] group_indices(4) [of c] group_indices(6) [of b]
  by (simp_all only: if_True less_irrefl if_False append.simps)

text \<open>A group: two text characters, then text or padding; it decodes to its bytes.\<close>

definition group_char :: "rules \<Rightarrow> u8 \<Rightarrow> bool" where
  "group_char rules c \<longleftrightarrow> isBase64Digit c rules \<and> c \<noteq> 13 \<and> c \<noteq> 10"

lemma group_shape:
  assumes "rules_ok rules" "bs \<noteq> []"
  shows "\<exists>c0 c1 c2 c3. base64_group rules bs = [c0, c1, c2, c3] \<and> text_char c0 \<and> text_char c1 \<and>
    list_all (group_char rules) [c0, c1, c2, c3] \<and>
    decode_group (base64Index c0 rules) (base64Index c1 rules) (base64Index c2 rules) (base64Index c3 rules) = take 3 bs"
proof -
  have ch: "group_char rules (base64Char ix rules) \<and> text_char (base64Char ix rules) \<and> base64Index (base64Char ix rules) rules = ix"
    if "ix < 64" for ix
    using base64_chars [OF assms(1) that] by (auto simp: group_char_def text_char_def)
  have pd: "base64Char IS_EQUAL rules = rules ! 2" "base64Index (rules ! 2) rules = 64" "group_char rules (rules ! 2)"
    using pad_char [OF assms(1)] by (simp_all add: group_char_def)
  consider (three) a b c r where "bs = a # b # c # r" | (two) a b where "bs = [a, b]" | (one) a where "bs = [a]"
    using assms(2) by (metis neq_Nil_conv)
  moreover have group: ?thesis if "base64_group rules bs = [base64Char i0 rules, base64Char i1 rules, c2, c3]" "i0 < 64" "i1 < 64"
      "group_char rules c2" "group_char rules c3" "decode_group i0 i1 (base64Index c2 rules) (base64Index c3 rules) = take 3 bs"
    for i0 i1 c2 c3
    using that ch [OF that(2)] ch [OF that(3)] by simp
  ultimately show ?thesis
  proof cases
    case three
    show ?thesis
      by (rule group [OF _ group_indices(1,2) ch [OF group_indices(3), THEN conjunct1] ch [OF group_indices(4), THEN conjunct1]])
        (simp_all only: three base64_group.simps ch [OF group_indices(3)] ch [OF group_indices(4)] take_3, rule decode_indices)
  next
    case two
    show ?thesis
      by (rule group [OF _ group_indices(1,2) ch [OF group_indices(6), THEN conjunct1] pd(3)])
        (simp_all only: two base64_group.simps ch [OF group_indices(6)] pd take_3, rule decode_indices)
  next
    case one
    show ?thesis
      by (rule group [OF _ group_indices(1,5) pd(3) pd(3)])
        (simp_all only: one base64_group.simps pd take_3, rule decode_indices)
  qed
qed

lemma decode_groups:
  assumes "rules_ok rules" "length out + length bs \<le> cap"
  shows "decode_loop rules cap (groups rules bs) out = Inr (out @ bs)"
  using assms(2)
proof (induction "length bs" arbitrary: bs out rule: less_induct)
  case less
  show ?case
  proof (cases "bs = []")
    case False
    then obtain c0 c1 c2 c3 where g: "base64_group rules bs = [c0, c1, c2, c3]"
      "decode_group (base64Index c0 rules) (base64Index c1 rules) (base64Index c2 rules) (base64Index c3 rules) = take 3 bs"
      using group_shape [OF assms(1) False] by blast
    have "decode_loop rules cap (groups rules (drop 3 bs)) (out @ take 3 bs) = Inr ((out @ take 3 bs) @ drop 3 bs)"
      by (rule less.hyps) (use less.prems False in simp_all)
    then have "decode_loop rules cap (groups rules (drop 3 bs)) (out @ take 3 bs) = Inr (out @ bs)" by simp
    moreover have "length out + length (take 3 bs) \<le> cap" using less.prems by simp
    ultimately show ?thesis unfolding groups_simps(2) [OF False] g(1) append.simps decode_loop.simps g(2) put_chars_def
      by (simp only: if_True if_inr_simps)
  qed (simp add: groups_simps(1))
qed

lemma groups_facts:
  assumes "rules_ok rules"
  shows "length (groups rules bs) = 4 * ((length bs + 2) div 3) \<and> list_all (group_char rules) (groups rules bs)"
proof (induction "length bs" arbitrary: bs rule: less_induct)
  case less
  show ?case
  proof (cases "bs = []")
    case False
    then have "length (drop 3 bs) < length bs" by simp
    note IH = less.hyps [OF this]
    have "0 < length bs" using False by simp
    then have "(length bs + 2) div 3 = Suc ((length bs - 3 + 2) div 3)" by presburger
    then have "(length bs + 2) div 3 = Suc ((length (drop 3 bs) + 2) div 3)" by simp
    moreover obtain c0 c1 c2 c3 where "base64_group rules bs = [c0, c1, c2, c3]" "list_all (group_char rules) [c0, c1, c2, c3]"
      using group_shape [OF assms False] by metis
    ultimately show ?thesis using IH by (simp only: groups_simps(2) [OF False] length_append list_all_append) simp
  qed (simp add: groups_simps(1))
qed

text \<open>The last group has at most two padding characters, and the first character is text.\<close>

lemma groups_last:
  assumes "rules_ok rules" "bs \<noteq> []"
  shows "\<exists>xs c0 c1 c2 c3. groups rules bs = xs @ [c0, c1, c2, c3] \<and> c0 \<noteq> 0 \<and> c1 \<noteq> 0"
  using assms(2)
proof (induction "length bs" arbitrary: bs rule: less_induct)
  case less
  obtain c0 c1 c2 c3 where g: "base64_group rules bs = [c0, c1, c2, c3]" "text_char c0" "text_char c1"
    using group_shape [OF assms(1) less.prems] by metis
  show ?case
  proof (cases "drop 3 bs = []")
    case True
    then have "groups rules bs = [] @ [c0, c1, c2, c3]" unfolding groups_simps(2) [OF less.prems] g(1) True groups_simps(1) by simp
    then show ?thesis using g(2,3) unfolding text_char_def by metis
  next
    case False
    then have "length (drop 3 bs) < length bs" by (cases bs) auto
    from less.hyps [OF this False] show ?thesis using less.prems by (metis groups_simps(2) append_assoc)
  qed
qed

section \<open>The encoder\<close>

definition no_break :: "u8 \<Rightarrow> bool" where
  "no_break c \<longleftrightarrow> c \<noteq> 13 \<and> c \<noteq> 10"

lemma line_break_result:
  "line_break rules cap out offset = Inr (out', offset') \<Longrightarrow>
    (out' = out \<or> out' = out @ [13, 10] \<and> length out' \<le> cap \<and> rules ! 3 \<noteq> 0)"
  by (auto simp: line_break_def put_chars_def split: if_splits)

lemma line_break_fits: "length out + 2 \<le> cap \<Longrightarrow> \<exists>out' offset'. line_break rules cap out offset = Inr (out', offset') \<and> length out' \<le> length out + 2"
  by (auto simp: line_break_def put_chars_def)

lemma filter_no_break: "list_all (group_char rules) cs \<Longrightarrow> filter no_break cs = cs"
  by (induction cs) (auto simp: group_char_def no_break_def)

lemma encode_loop_step:
  assumes "bs \<noteq> []"
  shows "encode_loop rules cap bs offset out =
    if_inr (put_chars cap (base64_group rules bs) out) (\<lambda>out.
    if_inr (line_break rules cap out offset) (\<lambda>(out, offset). encode_loop rules cap (drop 3 bs) offset out))"
  using assms by (subst encode_loop.simps) simp

text \<open>The text is the groups with line breaks between them, and no buffer without room for it.\<close>

lemma encode_loop_result:
  assumes "rules_ok rules" "encode_loop rules cap bs offset out = Inr r"
  shows "\<exists>T. r = out @ T \<and> filter no_break T = groups rules bs \<and>
    (bs \<noteq> [] \<longrightarrow> length r \<le> cap \<and> take 4 T = base64_group rules bs) \<and> (rules ! 3 = 0 \<longrightarrow> filter no_break T = T)"
  using assms(2)
proof (induction "length bs" arbitrary: bs offset out r rule: less_induct)
  case less
  show ?case
  proof (cases "bs = []")
    case True
    then show ?thesis using less.prems by (simp add: encode_loop.simps groups_simps)
  next
    case False
    obtain c0 c1 c2 c3 where g: "base64_group rules bs = [c0, c1, c2, c3]" "list_all (group_char rules) [c0, c1, c2, c3]"
      using group_shape [OF assms(1) False] by blast
    let ?g = "[c0, c1, c2, c3]"
    from less.prems obtain o1 o2 offset' where put: "put_chars cap ?g out = Inr o1"
      and brk: "line_break rules cap o1 offset = Inr (o2, offset')"
      and rec: "encode_loop rules cap (drop 3 bs) offset' o2 = Inr r"
      unfolding encode_loop_step [OF False] g(1) if_inr_def by (auto split: sum.splits)
    have o1: "o1 = out @ ?g" "length o1 \<le> cap" using put by (auto simp: put_chars_def split: if_splits)
    obtain B where B: "o2 = o1 @ B" "filter no_break B = []" "length o2 \<le> cap" "rules ! 3 = 0 \<Longrightarrow> B = []"
      using line_break_result [OF brk] o1(2) by (auto simp: no_break_def)
    have "length (drop 3 bs) < length bs" using False by simp
    from less.hyps [OF this rec] obtain T where T: "r = o2 @ T" "filter no_break T = groups rules (drop 3 bs)"
      "drop 3 bs \<noteq> [] \<Longrightarrow> length r \<le> cap" "rules ! 3 = 0 \<Longrightarrow> filter no_break T = T" by blast
    have "length r \<le> cap"
    proof (cases "drop 3 bs = []")
      case True
      then show ?thesis using rec B(3) by (simp add: encode_loop.simps)
    qed (rule T(3))
    moreover have "filter no_break (?g @ B @ T) = groups rules bs"
      unfolding filter_append filter_no_break [OF g(2)] B(2) T(2) groups_simps(2) [OF False] g(1) by simp
    moreover have "r = out @ (?g @ B @ T)" using T(1) B(1) o1(1) by simp
    moreover have "take 4 (?g @ B @ T) = base64_group rules bs" unfolding g(1) by simp
    moreover have "filter no_break (?g @ B @ T) = ?g @ B @ T" if "rules ! 3 = 0"
      unfolding filter_append filter_no_break [OF g(2)] B(2) T(4) [OF that] B(4) [OF that] by simp
    ultimately show ?thesis by blast
  qed
qed

lemma encode_loop_fault: "(\<exists>r. encode_loop rules cap bs offset out = Inr r) \<or> encode_loop rules cap bs offset out = Inl OutOfBounds"
proof (induction "length bs" arbitrary: bs offset out rule: less_induct)
  case less
  show ?case
  proof (cases "bs = []")
    case False
    then have "length (drop 3 bs) < length bs" by simp
    note IH = less.hyps [OF this]
    show ?thesis unfolding encode_loop_step [OF False]
      using IH by (auto simp: put_chars_def line_break_def)
  qed (simp add: encode_loop.simps)
qed

lemma encode_loop_fits:
  assumes "rules_ok rules" "length out + 6 * ((length bs + 2) div 3) \<le> cap"
  shows "\<exists>r. encode_loop rules cap bs offset out = Inr r \<and> length r \<le> length out + 6 * ((length bs + 2) div 3)"
  using assms(2)
proof (induction "length bs" arbitrary: bs offset out rule: less_induct)
  case less
  show ?case
  proof (cases "bs = []")
    case False
    obtain c0 c1 c2 c3 where g: "base64_group rules bs = [c0, c1, c2, c3]"
      using group_shape [OF assms(1) False] by blast
    have "0 < length bs" using False by simp
    then have n: "(length bs + 2) div 3 = Suc ((length (drop 3 bs) + 2) div 3)" unfolding length_drop by presburger
    then have "length (out @ [c0, c1, c2, c3]) + 2 \<le> cap" using less.prems by simp
    from line_break_fits [OF this, of rules offset] obtain o2 offset' where
      brk: "line_break rules cap (out @ [c0, c1, c2, c3]) offset = Inr (o2, offset')" "length o2 \<le> length out + 6" by auto
    have "length (drop 3 bs) < length bs" using False by simp
    moreover have "length o2 + 6 * ((length (drop 3 bs) + 2) div 3) \<le> cap" using brk(2) less.prems n by linarith
    ultimately obtain r where r: "encode_loop rules cap (drop 3 bs) offset' o2 = Inr r"
      "length r \<le> length o2 + 6 * ((length (drop 3 bs) + 2) div 3)" using less.hyps by blast
    have "put_chars cap [c0, c1, c2, c3] out = Inr (out @ [c0, c1, c2, c3])" using less.prems n by (simp add: put_chars_def)
    then have "encode_loop rules cap bs offset out = Inr r" unfolding encode_loop_step [OF False] g using brk(1) r(1) by simp
    then show ?thesis using r(2) brk(2) n by (intro exI [of _ r]) linarith
  qed (simp add: encode_loop.simps)
qed

lemma strip_end_result:
  assumes "j < length out" "out ! 0 \<notin> {0, 13, 10}"
  shows "strip_end out j \<le> j \<and> out ! strip_end out j \<notin> {0, 13, 10} \<and>
    (\<forall>i. strip_end out j < i \<and> i \<le> j \<longrightarrow> out ! i \<in> {0, 13, 10})"
  using assms
proof (induction j)
  case (Suc j)
  then have IH: "strip_end out j \<le> j \<and> out ! strip_end out j \<notin> {0, 13, 10} \<and>
    (\<forall>i. strip_end out j < i \<and> i \<le> j \<longrightarrow> out ! i \<in> {0, 13, 10})" by simp
  show ?case
  proof (cases "out ! Suc j \<in> {0, 13, 10}")
    case True
    then show ?thesis using IH by (simp only: strip_end.simps) (auto simp: le_Suc_eq)
  next
    case False
    then show ?thesis by (auto simp: strip_end.simps)
  qed
qed auto

text \<open>What is stripped is zeros and line breaks.\<close>

lemma strip_end_split:
  assumes "out \<noteq> []" "out ! 0 \<notin> {0, 13, 10}" "k = strip_end out (length out - 1) + 1"
  shows "k \<le> length out" "set (drop k out) \<subseteq> {0, 13, 10}"
proof -
  have j: "length out - 1 < length out" using assms(1) by simp
  note s = strip_end_result [OF j assms(2)]
  show k: "k \<le> length out" using s j unfolding assms(3) by linarith
  show "set (drop k out) \<subseteq> {0, 13, 10}"
  proof
    fix c assume "c \<in> set (drop k out)"
    then obtain i where "c = out ! (k + i)" "k + i < length out" using k by (auto simp: in_set_conv_nth)
    moreover from this have "strip_end out (length out - 1) < k + i" "k + i \<le> length out - 1" using assms(3) by linarith+
    ultimately show "c \<in> {0, 13, 10}" using s by blast
  qed
qed

section \<open>The round trip\<close>

lemma filter_digits:
  assumes "rules_ok rules" "filter no_break T = groups rules bs"
  shows "filter (\<lambda>c. isBase64Digit c rules) T = groups rules bs"
proof -
  have "isBase64Digit c rules \<Longrightarrow> no_break c" for c using pad_char [OF assms(1)] by (auto simp: no_break_def)
  then have "filter (\<lambda>c. isBase64Digit c rules) T = filter (\<lambda>c. isBase64Digit c rules) (filter no_break T)"
    by (induction T) auto
  moreover have "filter (\<lambda>c. isBase64Digit c rules) (groups rules bs) = groups rules bs"
    using groups_facts [OF assms(1), of bs] by (auto simp: filter_id_conv list_all_iff group_char_def)
  ultimately show ?thesis unfolding assms(2) by simp
qed

lemma filter_stripped:
  assumes "rules_ok rules" "set S \<subseteq> {0, 13, 10}"
  shows "\<exists>m. filter (\<lambda>c. isBase64Digit c rules) S = replicate m 0 \<and> (rules ! 2 \<noteq> 0 \<longrightarrow> m = 0)"
  using assms(2)
proof (induction S)
  case (Cons c S)
  then obtain m where m: "filter (\<lambda>c. isBase64Digit c rules) S = replicate m 0" "rules ! 2 \<noteq> 0 \<longrightarrow> m = 0" by auto
  show ?case
  proof (cases "isBase64Digit c rules")
    case True
    then have "c = 0" "rules ! 2 = 0" using Cons.prems pad_char [OF assms(1)] by auto
    then show ?thesis using m True by (intro exI [of _ "Suc m"]) simp
  next
    case False
    then show ?thesis using m by auto
  qed
qed simp

lemma padding_at_most_two:
  assumes "rules_ok rules" "bs \<noteq> []" "groups rules bs = P @ replicate m 0"
  shows "m \<le> 2"
proof (rule ccontr)
  assume "\<not> m \<le> 2"
  obtain xs c0 c1 c2 c3 where g: "groups rules bs = xs @ [c0, c1, c2, c3]" "c1 \<noteq> 0"
    using groups_last [OF assms(1,2)] by blast
  have "rev (groups rules bs) ! 2 = rev (P @ replicate m 0) ! 2" using assms(3) by simp
  moreover have "rev (xs @ [c0, c1, c2, c3]) ! 2 = c1" "rev (P @ replicate m 0) ! 2 = 0" using \<open>\<not> m \<le> 2\<close> by (simp_all add: nth_append)
  ultimately have "c1 = 0" using g(1) by simp
  then show False using g(2) by simp
qed

lemma pack_loop_result:
  assumes "length packed + length s \<le> n"
  shows "pack_loop s n rules packed = Inr (packed @ filter (\<lambda>c. isBase64Digit c rules) s)"
  using assms by (induction s arbitrary: packed) (simp_all add: put_chars_def)

lemma packBase64_result:
  assumes "rules_ok rules" "bs \<noteq> []" "groups rules bs = filter (\<lambda>c. isBase64Digit c rules) s @ replicate m 0"
    and "rules ! 2 \<noteq> 0 \<longrightarrow> m = 0" "rules ! 2 = 0 \<longrightarrow> filter (\<lambda>c. isBase64Digit c rules) s = s"
  shows "packBase64 s (length s + length s mod 4) rules = Inr (groups rules bs)"
proof -
  let ?P = "filter (\<lambda>c. isBase64Digit c rules) s" and ?n = "length s + length s mod 4"
  have p: "pack_loop s ?n rules [] = Inr ?P" by (simp add: pack_loop_result)
  show ?thesis
  proof (cases "rules ! 2 = 0")
    case True
    then have "length s + m = length (groups rules bs)" using assms(3,5) by (simp add: length_append)
    then have l: "(length s + m) mod 4 = 0" using groups_facts [OF assms(1), of bs] by (simp only: mod_mult_self1_is_0)
    have m: "m \<le> 2" by (rule padding_at_most_two [OF assms(1-3)])
    have "(4 - l mod 4) mod 4 = m \<and> m \<le> l mod 4" if "(l + m) mod 4 = 0" "m \<le> 2" for l :: nat
    proof -
      have small: "k mod 4 = 0 \<Longrightarrow> k < 8 \<Longrightarrow> k = 0 \<or> k = 4" for k :: nat by presburger
      have "(l mod 4 + m) mod 4 = 0" using that(1) by (simp only: mod_add_left_eq)
      from small [OF this] that(2) have "l mod 4 + m = 0 \<or> l mod 4 + m = 4" by simp
      then show ?thesis using that(2) by auto
    qed
    note this [OF l m]
    then have "put_chars ?n (replicate ((4 - length ?P mod 4) mod 4) 0) ?P = Inr (groups rules bs)"
      unfolding put_chars_def assms(3) using assms(5) True by simp
    then show ?thesis using True p by (simp only: packBase64_def if_inr_simps simp_thms if_True)
  next
    case False
    then show ?thesis using assms(3,4) p by (simp add: packBase64_def)
  qed
qed

lemma base64_out:
  assumes "rules_ok rules" "bs \<noteq> []" "encode_loop rules cap bs 0 [] = Inr r"
  shows "r \<noteq> []" "r ! 0 \<notin> {0, 13, 10}" "length r \<le> cap" "filter no_break r = groups rules bs" "rules ! 3 = 0 \<Longrightarrow> filter no_break r = r"
proof -
  have r: "filter no_break r = groups rules bs \<and> length r \<le> cap \<and> take 4 r = base64_group rules bs \<and> (rules ! 3 = 0 \<longrightarrow> filter no_break r = r)"
    using encode_loop_result [OF assms(1,3)] assms(2) by auto
  then show "length r \<le> cap" "filter no_break r = groups rules bs" by simp_all
  show "filter no_break r = r" if "rules ! 3 = 0" using r that by blast
  obtain c0 c1 c2 c3 where g: "take 4 r = [c0, c1, c2, c3]" "text_char c0"
    using group_shape [OF assms(1,2)] r by metis
  show "r \<noteq> []" using g(1) by auto
  have "r ! 0 = take 4 r ! 0" by simp
  then show "r ! 0 \<notin> {0, 13, 10}" using g by (simp add: text_char_def)
qed

lemma base64_roundtrip_rules:
  assumes "rules_ok rules" "rules ! 2 \<noteq> 0 \<or> rules ! 3 = 0" "bs \<noteq> []"
    and "6 * ((length bs + 2) div 3) < cap" "base64_out_len rules (length bs) \<le> cap"
  shows "\<exists>txt. atcab_base64encode_rules bs cap rules = Inr (ATCA_SUCCESS, txt, length txt) \<and>
    (\<forall>cap'. length txt * 3 div 4 \<le> cap' \<and> length bs \<le> cap' \<longrightarrow>
      atcab_base64decode_rules txt cap' rules = Inr (ATCA_SUCCESS, bs, length bs))"
proof -
  let ?D = "\<lambda>c. isBase64Digit c rules"
  obtain r where r: "encode_loop rules cap bs 0 [] = Inr r" "length r \<le> 6 * ((length bs + 2) div 3)"
    using encode_loop_fits [OF assms(1), of "[]" bs cap 0] assms(4) by auto
  note out = base64_out [OF assms(1,3) r(1)]
  define j where "j = strip_end r (length r - 1) + 1"
  note sp = strip_end_split [OF out(1,2) j_def]
  define t where "t = take j r"
  have len: "length t = j" using sp(1) by (simp add: t_def)
  have "j < cap" using sp(1) r(2) assms(4) by linarith
  then have enc: "atcab_base64encode_rules bs cap rules = Inr (ATCA_SUCCESS, t, length t)"
    unfolding len atcab_base64encode_rules_def Let_def r(1) if_inr_simps j_def [symmetric] using out(1) assms(5)
    by (simp add: t_def)
  obtain m where m: "filter ?D (drop j r) = replicate m 0" "rules ! 2 \<noteq> 0 \<longrightarrow> m = 0"
    using filter_stripped [OF assms(1) sp(2)] by blast
  have "filter ?D (t @ drop j r) = groups rules bs" using filter_digits [OF assms(1) out(4)] by (simp add: t_def)
  then have g: "groups rules bs = filter ?D t @ replicate m 0" using m(1) by simp
  have "filter ?D t = t" if "rules ! 2 = 0"
  proof -
    have "filter ?D r = r" using filter_digits [OF assms(1) out(4)] out(4,5) assms(2) that by simp
    then show ?thesis unfolding t_def by (metis filter_id_conv in_set_takeD)
  qed
  then have pk: "packBase64 t (length t + length t mod 4) rules = Inr (groups rules bs)"
    by (intro packBase64_result [OF assms(1,3) g m(2)]) simp
  have "length (groups rules bs) mod 4 = 0" using groups_facts [OF assms(1), of bs] by simp
  then have "atcab_base64decode_rules t cap' rules = Inr (ATCA_SUCCESS, bs, length bs)"
    if "length t * 3 div 4 \<le> cap'" "length bs \<le> cap'" for cap'
    using that decode_groups [OF assms(1), of "[]" bs cap'] pk by (simp add: atcab_base64decode_rules_def Let_def)
  then show ?thesis using enc by blast
qed

section \<open>Properties\<close>

text \<open>
  C38: Under each of the three rule sets of the library, some bytes encoded into a buffer with
  room for the padding, the line breaks and the terminator are a text that \<open>atcab_base64decode_\<close>
  decodes to the same bytes, in every buffer it accepts.
\<close>

theorem base64_roundtrip:
  assumes "rules \<in> {atcab_b64rules_default, atcab_b64rules_mime, atcab_b64rules_urlsafe}" "bs \<noteq> []"
    and "6 * ((length bs + 2) div 3) < cap" "base64_out_len rules (length bs) \<le> cap"
  shows "\<exists>t. atcab_base64encode_rules bs cap rules = Inr (ATCA_SUCCESS, t, length t) \<and>
    (\<forall>cap'. length t * 3 div 4 \<le> cap' \<and> length bs \<le> cap' \<longrightarrow>
      atcab_base64decode_rules t cap' rules = Inr (ATCA_SUCCESS, bs, length bs))"
proof -
  have "rules_ok rules" using assms(1) rules_ok_sets by auto
  moreover have "rules ! 2 \<noteq> 0 \<or> rules ! 3 = 0" using assms(1)
    by (auto simp: atcab_b64rules_default_def atcab_b64rules_mime_def atcab_b64rules_urlsafe_def)
  ultimately show ?thesis by (rule base64_roundtrip_rules [OF _ _ assms(2-4)])
qed

theorem base64_roundtrip_witness:
  "\<exists>t. atcab_base64encode_rules [1, 2, 3, 255] 20 atcab_b64rules_mime = Inr (ATCA_SUCCESS, t, length t) \<and>
    (\<forall>cap'. length t * 3 div 4 \<le> cap' \<and> length [1, 2, 3, 255 :: u8] \<le> cap' \<longrightarrow>
      atcab_base64decode_rules t cap' atcab_b64rules_mime = Inr (ATCA_SUCCESS, [1, 2, 3, 255], length [1, 2, 3, 255 :: u8]))"
proof -
  have "base64_out_len atcab_b64rules_mime (length [1, 2, 3, 255 :: u8]) \<le> 20" by code_simp
  from base64_roundtrip [OF _ _ _ this] show ?thesis by simp
qed

text \<open>
  The length check of the encoder does not protect its buffer: with padding, every buffer
  that passes the check and has no room for the padded text and its terminator is written
  beyond its end.
\<close>

lemma base64encode_overrun:
  assumes "rules \<in> {atcab_b64rules_default, atcab_b64rules_mime}" "bs \<noteq> []"
    and "base64_out_len rules (length bs) \<le> cap" "cap \<le> 4 * ((length bs + 2) div 3)"
  shows "atcab_base64encode_rules bs cap rules = Inl OutOfBounds"
proof -
  have ok: "rules_ok rules" using assms(1) rules_ok_sets by auto
  have pad: "rules ! 2 \<noteq> 0" using assms(1) by (auto simp: atcab_b64rules_default_def atcab_b64rules_mime_def)
  have fault: "encode_loop rules cap bs 0 [] = Inl OutOfBounds" if "\<nexists>r. encode_loop rules cap bs 0 [] = Inr r"
    using that encode_loop_fault by blast
  show ?thesis
  proof (cases "\<exists>r. encode_loop rules cap bs 0 [] = Inr r")
    case True
    then obtain r where r: "encode_loop rules cap bs 0 [] = Inr r" by blast
    note out = base64_out [OF ok assms(2) r]
    define j where "j = strip_end r (length r - 1) + 1"
    note sp = strip_end_split [OF out(1,2) j_def]
    obtain m where "filter (\<lambda>c. isBase64Digit c rules) (drop j r) = replicate m 0" "m = 0"
      using filter_stripped [OF ok sp(2)] pad by blast
    then have "filter (\<lambda>c. isBase64Digit c rules) (take j r @ drop j r) = filter (\<lambda>c. isBase64Digit c rules) (take j r)"
      unfolding filter_append by simp
    then have "length (groups rules bs) \<le> length (take j r)"
      using filter_digits [OF ok out(4)] length_filter_le [of "\<lambda>c. isBase64Digit c rules" "take j r"] by simp
    then have "\<not> j < cap" using groups_facts [OF ok, of bs] assms(4) sp(1) by simp
    then show ?thesis unfolding atcab_base64encode_rules_def Let_def r if_inr_simps j_def [symmetric]
      using out(1) assms(3) by simp
  next
    case False
    then show ?thesis using fault assms(3) by (simp add: atcab_base64encode_rules_def)
  qed
qed

end
