(* ===== verification/Sha1.thy ===== *)
theory Sha1
  imports HashBlocks AtcaHal
begin

text \<open>
  The SHA-1 of the library in software (\<open>libatca/crypto/hashes/sha1_routines.c\<close>,
  \<open>atca_crypto_sw_sha1.c\<close>) and its specification by FIPS 180-4. The word buffer of the context
  is seen as its 64 bytes, which the engine overwrites with its circular schedule.
\<close>

section \<open>The program\<close>

record CL_HashContext =
  ctx_h :: "u32 list"
  ctx_buf :: "u8 list"
  byteCount :: u32
  byteCountHi :: u32

definition leftRotate :: "u32 \<Rightarrow> nat \<Rightarrow> u32" where
  "leftRotate x n = push_bit n x OR drop_bit (32 - n) x"

definition hashContext_h_init :: "u32 list" where
  "hashContext_h_init = [0x67452301, 0xefcdab89, 0x98badcfe, 0x10325476, 0xc3d2e1f0]"

text \<open>Packing the bytes of the buffer into words; \<open>temp\<close> goes on from word to word.\<close>

fun pack_words :: "u32 \<Rightarrow> u8 list \<Rightarrow> u32 list" where
  "pack_words temp (b0 # b1 # b2 # b3 # bs) =
     (let temp = push_bit 8 temp OR ucast b0;
          temp = push_bit 8 temp OR ucast b1;
          temp = push_bit 8 temp OR ucast b2;
          temp = push_bit 8 temp OR ucast b3
      in temp # pack_words temp bs)"
| "pack_words temp _ = []"

text \<open>A round: the five variables and the circular schedule; \<open>(t - 3) & 0xf\<close> is \<open>(t + 13) mod 16\<close>.\<close>

type_synonym sha1_vars = "u32 \<times> u32 \<times> u32 \<times> u32 \<times> u32"

fun sha1_round :: "nat \<Rightarrow> sha1_vars \<times> u32 list \<Rightarrow> sha1_vars \<times> u32 list" where
  "sha1_round t ((a, b, c, d, e), w) =
     (let temp = leftRotate a 5 + e + w ! (t mod 16);
          temp = (if t < 20 then temp + ((b AND c) OR (NOT b AND d)) + 0x5a827999
                  else if t < 40 then temp + (b XOR c XOR d) + 0x6ed9eba1
                  else if t < 60 then temp + ((b AND c) OR (b AND d) OR (c AND d)) + 0x8f1bbcdc
                  else temp + (b XOR c XOR d) + 0xca62c1d6);
          w' = leftRotate (w ! (t mod 16) XOR w ! ((t + 13) mod 16) XOR w ! ((t + 8) mod 16) XOR w ! ((t + 2) mod 16)) 1
      in ((temp, a, leftRotate b 30, c, d), w[t mod 16 := w']))"

definition shaEngine :: "u8 list \<Rightarrow> u32 list \<Rightarrow> u8 list \<times> u32 list" where
  "shaEngine buf h =
     (let ((a, b, c, d, e), w) =
            fold sha1_round [0..<80] ((h ! 0, h ! 1, h ! 2, h ! 3, h ! 4), pack_words 0 buf)
      in (bytes_of_words w, [h ! 0 + a, h ! 1 + b, h ! 2 + c, h ! 3 + d, h ! 4 + e]))"

definition CL_hashInit :: CL_HashContext where
  "CL_hashInit = \<lparr>ctx_h = hashContext_h_init, ctx_buf = replicate 64 0, byteCount = 0, byteCountHi = 0\<rparr>"

text \<open>The loop of the update, with the free bytes of the buffer.\<close>

function hash_update_loop :: "CL_HashContext \<Rightarrow> u8 list \<Rightarrow> nat \<Rightarrow> nat \<Rightarrow> fault + CL_HashContext" where
  "hash_update_loop ctx src nbytes freeBytes =
     (if nbytes = 0 then Inr ctx
      else
        let i = (if nbytes < freeBytes then nbytes else freeBytes)
        in if length src < i then Inl OutOfBounds
           else if_inr (if i = 64 then Inr (take 64 src) else put_at (64 - freeBytes) (take i src) (ctx_buf ctx)) (\<lambda>buf.
             let (buf, h) = (if freeBytes - i = 0 then shaEngine buf (ctx_h ctx) else (buf, ctx_h ctx));
                 temp32 = byteCount ctx + of_nat i;
                 hi = (if temp32 = 0 then byteCountHi ctx + 1 else byteCountHi ctx)
             in hash_update_loop \<lparr>ctx_h = h, ctx_buf = buf, byteCount = temp32, byteCountHi = hi\<rparr>
                  (drop i src) (nbytes - i) 64))"
  by pat_completeness auto
termination
  by (relation "measures [\<lambda>(c, s, n, f). n, \<lambda>(c, s, n, f). if f = 0 then 1 else 0]") (auto split: if_splits)

declare hash_update_loop.simps [simp del]

text \<open>\<open>nbytes\<close> is a signed number; the loop does not run for a negative one.\<close>

definition CL_hashUpdate :: "CL_HashContext \<Rightarrow> u8 list \<Rightarrow> u32 \<Rightarrow> fault + CL_HashContext" where
  "CL_hashUpdate ctx src nbytes = hash_update_loop ctx src (nat (sint nbytes)) (64 - unat (byteCount ctx AND 63))"

definition CL_hashFinal :: "CL_HashContext \<Rightarrow> CL_HashContext \<times> u8 list" where
  "CL_hashFinal ctx =
     (let nbytes = unat (byteCount ctx AND 63);
          buf = take nbytes (ctx_buf ctx) @ [0x80] @ replicate (64 - (nbytes + 1)) 0;
          (buf, h) = (if nbytes > 64 - 9
                      then (replicate 64 0, snd (shaEngine buf (ctx_h ctx)))
                      else (buf, ctx_h ctx));
          lo = push_bit 3 (byteCount ctx);
          hi = push_bit 3 (byteCountHi ctx) OR drop_bit (32 - 3) (byteCount ctx);
          buf = memcpy_at 60 (be32 lo) buf;
          buf = memcpy_at 56 (be32 hi) buf;
          (buf, h) = shaEngine buf h
      in (ctx\<lparr>ctx_h := h, ctx_buf := buf\<rparr>, concat (map be32 h)))"

definition CL_hash :: "u8 list \<Rightarrow> u32 \<Rightarrow> fault + u8 list" where
  "CL_hash msg msgBytes =
     if_inr (CL_hashUpdate CL_hashInit msg msgBytes) (\<lambda>ctx. Inr (snd (CL_hashFinal ctx)))"

text \<open>The wrappers; \<open>data_size\<close> is a \<open>size_t\<close> that is cut to an \<open>int\<close>.\<close>

definition sizeof_CL_HashContext :: nat where "sizeof_CL_HashContext = 20 + 64 + 4 + 4"
definition sizeof_atcac_sha1_ctx :: nat where "sizeof_atcac_sha1_ctx = 32 * 4"

definition atcac_sw_sha1_init :: "CL_HashContext \<Rightarrow> ATCA_STATUS \<times> CL_HashContext" where
  "atcac_sw_sha1_init ctx =
     (if sizeof_CL_HashContext > sizeof_atcac_sha1_ctx then (ATCA_ASSERT_FAILURE, ctx)
      else (ATCA_SUCCESS, CL_hashInit))"

definition atcac_sw_sha1_update :: "CL_HashContext \<Rightarrow> u8 list \<Rightarrow> u64 \<Rightarrow> fault + (ATCA_STATUS \<times> CL_HashContext)" where
  "atcac_sw_sha1_update ctx data data_size =
     if_inr (CL_hashUpdate ctx data (ucast data_size)) (\<lambda>ctx. Inr (ATCA_SUCCESS, ctx))"

definition atcac_sw_sha1_finish :: "CL_HashContext \<Rightarrow> ATCA_STATUS \<times> CL_HashContext \<times> u8 list" where
  "atcac_sw_sha1_finish ctx = (let (ctx, digest) = CL_hashFinal ctx in (ATCA_SUCCESS, ctx, digest))"

definition atcac_sw_sha1 :: "u8 list \<Rightarrow> u64 \<Rightarrow> CL_HashContext \<Rightarrow> u8 list \<Rightarrow> fault + (ATCA_STATUS \<times> u8 list)" where
  "atcac_sw_sha1 data data_size ctx digest =
     (let (ret, ctx) = atcac_sw_sha1_init ctx
      in if ret \<noteq> ATCA_SUCCESS then Inr (ret, digest)
         else if_inr (atcac_sw_sha1_update ctx data data_size) (\<lambda>(ret, ctx).
           if ret \<noteq> ATCA_SUCCESS then Inr (ret, digest)
           else let (ret, ctx, digest') = atcac_sw_sha1_finish ctx
                in if ret \<noteq> ATCA_SUCCESS then Inr (ret, digest) else Inr (ATCA_SUCCESS, digest')))"

section \<open>FIPS 180-4\<close>

text \<open>The functions and constants of sections 4.1.1, 4.2.1 and 5.3.1, the rounds of 6.1.2.\<close>

definition sha1_H0 :: "u32 list" where
  "sha1_H0 = [0x67452301, 0xefcdab89, 0x98badcfe, 0x10325476, 0xc3d2e1f0]"

definition sha1_f :: "nat \<Rightarrow> u32 \<Rightarrow> u32 \<Rightarrow> u32 \<Rightarrow> u32" where
  "sha1_f t x y z =
     (if t \<le> 19 then (x AND y) XOR (NOT x AND z)
      else if t \<le> 39 then x XOR y XOR z
      else if t \<le> 59 then (x AND y) XOR (x AND z) XOR (y AND z)
      else x XOR y XOR z)"

definition sha1_K :: "nat \<Rightarrow> u32" where
  "sha1_K t = (if t \<le> 19 then 0x5a827999 else if t \<le> 39 then 0x6ed9eba1 else if t \<le> 59 then 0x8f1bbcdc else 0xca62c1d6)"

fun sha1_W :: "u32 list \<Rightarrow> nat \<Rightarrow> u32" where
  "sha1_W M t =
     (if t < 16 then M ! t
      else word_rotl 1 (sha1_W M (t - 3) XOR sha1_W M (t - 8) XOR sha1_W M (t - 14) XOR sha1_W M (t - 16)))"

declare sha1_W.simps [simp del]

fun sha1_step :: "nat \<Rightarrow> u32 \<Rightarrow> sha1_vars \<Rightarrow> sha1_vars" where
  "sha1_step t W (a, b, c, d, e) =
     (let T = word_rotl 5 a + sha1_f t b c d + e + sha1_K t + W in (T, a, word_rotl 30 b, c, d))"

primrec sha1_rounds :: "u32 list \<Rightarrow> nat \<Rightarrow> sha1_vars \<Rightarrow> sha1_vars" where
  "sha1_rounds M 0 v = v"
| "sha1_rounds M (Suc t) v = sha1_step t (sha1_W M t) (sha1_rounds M t v)"

definition sha1_compress :: "u32 list \<Rightarrow> u8 list \<Rightarrow> u32 list" where
  "sha1_compress H B =
     (let (a, b, c, d, e) = sha1_rounds (be_words B) 80 (H ! 0, H ! 1, H ! 2, H ! 3, H ! 4)
      in [H ! 0 + a, H ! 1 + b, H ! 2 + c, H ! 3 + d, H ! 4 + e])"

definition fips_sha1 :: "u8 list \<Rightarrow> u8 list" where
  "fips_sha1 m = concat (map be32 (run_blocks sha1_compress sha1_H0 (md_pad m)))"

section \<open>The engine\<close>

lemma leftRotate_word:
  assumes "0 < n" "n < 32"
  shows "leftRotate w n = word_rotl n w"
proof (rule bit_word_eqI)
  fix k assume k: "k < LENGTH(32)"
  show "bit (leftRotate w n) k = bit (word_rotl n w) k"
  proof (cases "n \<le> k")
    case True
    then have "\<not> bit w (32 - n + k)" by (auto dest: bit_imp_le_length)
    moreover have "(k + (32 - n)) mod 32 = k - n" using True k assms by (simp add: mod_if)
    ultimately show ?thesis using True k assms by (simp add: leftRotate_def bit_simps bit_word_rotl_iff)
  next
    case False
    then have "(k + (32 - n)) mod 32 = 32 - n + k" using assms by simp
    then show ?thesis using False k assms by (simp add: leftRotate_def bit_simps bit_word_rotl_iff)
  qed
qed

lemma pack_temp: "push_bit 8 (push_bit 8 (push_bit 8 (push_bit 8 t OR ucast a) OR ucast b) OR ucast c) OR ucast d =
    of_be32 [a, b, c, d]"
  by (rule bit_word_eqI) (auto simp: bit_simps)

lemma be_words_cons: "be_words (a # b # c # d # bs) = of_be32 [a, b, c, d] # be_words bs"
proof -
  have "[0..<Suc n] = 0 # map Suc [0..<n]" for n by (simp add: upt_conv_Cons map_Suc_upt del: upt_Suc)
  moreover have "length (a # b # c # d # bs) div 4 = Suc (length bs div 4)" by simp
  ultimately have "be_words (a # b # c # d # bs) =
      map (\<lambda>t. of_be32 (take 4 (drop (4 * t) (a # b # c # d # bs)))) (0 # map Suc [0..<length bs div 4])"
    unfolding be_words_def by (simp only:)
  moreover have "drop (4 + k) (a # b # c # d # bs) = drop k bs" for k by (simp add: numeral_eq_Suc)
  ultimately show ?thesis by (simp add: be_words_def comp_def del: of_be32.simps)
qed

lemma pack_words_be: "pack_words temp bs = be_words bs"
proof (induction temp bs rule: pack_words.induct)
  case (1 temp b0 b1 b2 b3 bs)
  show ?case unfolding pack_words.simps Let_def pack_temp be_words_cons using 1 [OF refl refl refl refl]
    unfolding pack_temp by simp
qed (simp_all add: be_words_def)

lemma sha1_functions:
  "(b AND c) OR (NOT b AND d) = (b AND c) XOR (NOT b AND (d :: u32))"
  "(b AND c) OR (b AND d) OR (c AND d) = (b AND c) XOR (b AND d) XOR (c AND (d :: u32))"
  by (rule bit_word_eqI; auto simp: bit_simps)+

text \<open>The circular schedule holds the next sixteen words of the schedule of the standard.\<close>

definition window :: "u32 list \<Rightarrow> nat \<Rightarrow> u32 list \<Rightarrow> bool" where
  "window M t w \<longleftrightarrow> length w = 16 \<and> (\<forall>i < 16. w ! ((t + i) mod 16) = sha1_W M (t + i))"

lemma window_start: "length M = 16 \<Longrightarrow> window M 0 M"
  by (auto simp: window_def sha1_W.simps)

lemma window_step:
  assumes "window M t w"
  shows "window M (Suc t) (w[t mod 16 := word_rotl 1 (w ! (t mod 16) XOR w ! ((t + 13) mod 16) XOR w ! ((t + 8) mod 16) XOR w ! ((t + 2) mod 16))])"
proof -
  let ?x = "word_rotl 1 (w ! (t mod 16) XOR w ! ((t + 13) mod 16) XOR w ! ((t + 8) mod 16) XOR w ! ((t + 2) mod 16))"
  have w: "length w = 16" "\<And>i. i < 16 \<Longrightarrow> w ! ((t + i) mod 16) = sha1_W M (t + i)" using assms by (auto simp: window_def)
  have x: "?x = sha1_W M (t + 16)"
    using w(2) [of 0] w(2) [of 13] w(2) [of 8] w(2) [of 2] by (subst sha1_W.simps) (simp add: ac_simps)
  have "w[t mod 16 := ?x] ! ((Suc t + i) mod 16) = sha1_W M (Suc t + i)" if "i < 16" for i
  proof (cases "i = 15")
    case True
    have "(Suc t + 15) mod 16 = t mod 16" by simp
    then show ?thesis using True x w(1) by (simp add: add.commute)
  next
    case False
    then have "(t + 0) mod 16 \<noteq> (t + (i + 1)) mod 16" using that by (intro mod_add_less_neq) simp_all
    then have "w[t mod 16 := ?x] ! ((t + (i + 1)) mod 16) = sha1_W M (t + (i + 1))"
      using w(2) [of "i + 1"] that False by simp
    then show ?thesis by simp
  qed
  then show ?thesis using w(1) by (simp add: window_def)
qed

lemma round_step:
  assumes "window M t w"
  shows "sha1_round t (v, w) = (sha1_step t (sha1_W M t) v,
    w[t mod 16 := word_rotl 1 (w ! (t mod 16) XOR w ! ((t + 13) mod 16) XOR w ! ((t + 8) mod 16) XOR w ! ((t + 2) mod 16))])"
proof -
  obtain a b c d e where v: "v = (a, b, c, d, e)" by (cases v)
  have "w ! (t mod 16) = sha1_W M t" using assms unfolding window_def by (metis add_0_right zero_less_numeral)
  then show ?thesis unfolding v sha1_round.simps sha1_step.simps Let_def sha1_functions
    by (simp add: leftRotate_word sha1_f_def sha1_K_def ac_simps)
qed

lemma rounds_fips:
  assumes "length M = 16"
  shows "\<exists>w. fold sha1_round [0..<t] (v, M) = (sha1_rounds M t v, w) \<and> window M t w"
proof (induction t)
  case 0
  show ?case using window_start [OF assms] by simp
next
  case (Suc t)
  then obtain w where "fold sha1_round [0..<t] (v, M) = (sha1_rounds M t v, w)" "window M t w" by blast
  then show ?case using round_step [of M t w "sha1_rounds M t v"] window_step [of M t w] by simp
qed

lemma engine_fips:
  assumes "length buf = 64"
  shows "snd (shaEngine buf h) = sha1_compress h buf" "length (fst (shaEngine buf h)) = 64"
proof -
  have M: "length (be_words buf) = 16" using assms by (simp add: be_words_def)
  obtain w where w: "fold sha1_round [0..<80] ((h ! 0, h ! 1, h ! 2, h ! 3, h ! 4), be_words buf) =
      (sha1_rounds (be_words buf) 80 (h ! 0, h ! 1, h ! 2, h ! 3, h ! 4), w)" "window (be_words buf) 80 w"
    using rounds_fips [OF M] by blast
  obtain a b c d e where r: "sha1_rounds (be_words buf) 80 (h ! 0, h ! 1, h ! 2, h ! 3, h ! 4) = (a, b, c, d, e)"
    by (metis prod_cases5)
  have e: "shaEngine buf h = (bytes_of_words w, [h ! 0 + a, h ! 1 + b, h ! 2 + c, h ! 3 + d, h ! 4 + e])"
    unfolding shaEngine_def pack_words_be w(1) r Let_def prod.case ..
  show "snd (shaEngine buf h) = sha1_compress h buf" unfolding e sha1_compress_def r by simp
  show "length (fst (shaEngine buf h)) = 64" unfolding e using w(2) by (simp add: window_def)
qed

section \<open>Updates\<close>

text \<open>A context that has taken in the bytes \<open>m\<close>.\<close>

definition sha1_inv :: "CL_HashContext \<Rightarrow> u8 list \<Rightarrow> bool" where
  "sha1_inv ctx m \<longleftrightarrow>
     byteCount ctx = of_nat (length m) \<and> byteCountHi ctx = of_nat (length m div 2 ^ 32) \<and>
     length (ctx_buf ctx) = 64 \<and> take (length (rest m)) (ctx_buf ctx) = rest m \<and>
     ctx_h ctx = run_blocks sha1_compress sha1_H0 (whole m)"

lemma sha1_inv_init: "sha1_inv CL_hashInit []"
  by (simp add: sha1_inv_def CL_hashInit_def whole_def rest_def hashContext_h_init_def sha1_H0_def)

text \<open>A step never crosses a multiple of 64, so the low count is 0 whenever it has wrapped.\<close>

lemma byte_count_carry:
  fixes L i :: nat
  assumes "L mod 64 + i \<le> 64" "0 < i"
  shows "(L + i) div 2 ^ 32 = L div 2 ^ 32 + (if (L + i) mod 2 ^ 32 = 0 then 1 else 0)"
proof -
  define q r where "q = L div 2 ^ 32" and "r = L mod 2 ^ 32"
  have L: "L = 2 ^ 32 * q + r" by (simp add: q_def r_def)
  have r: "r < 2 ^ 32" by (simp add: r_def)
  have m: "r mod 64 = L mod 64" unfolding r_def by (rule mod_mod_cancel) simp
  have "r div 64 < 2 ^ 26" using r by (simp add: less_mult_imp_div_less)
  then have "r div 64 * 64 + 64 \<le> 2 ^ 32" by simp
  moreover have "r = r div 64 * 64 + r mod 64" by simp
  ultimately have le: "r + i \<le> 2 ^ 32" using assms(1) m by linarith
  have "(L + i) div 2 ^ 32 = q + (r + i) div 2 ^ 32" "(L + i) mod 2 ^ 32 = (r + i) mod 2 ^ 32"
    unfolding L by (simp_all add: add.assoc)
  moreover have "(r + i) div 2 ^ 32 = (if r + i = 2 ^ 32 then 1 else 0)" "((r + i) mod 2 ^ 32 = 0) = (r + i = 2 ^ 32)"
    using le assms(2) by (cases "r + i = 2 ^ 32"; simp)+
  ultimately show ?thesis unfolding q_def [symmetric] by simp
qed

lemma counts_step:
  assumes "length m mod 64 + i \<le> 64" "0 < i" "length s = i" "byteCount ctx = of_nat (length m)" "byteCountHi ctx = of_nat (length m div 2 ^ 32)"
  shows "byteCount ctx + of_nat i = of_nat (length (m @ s))"
    "(if byteCount ctx + of_nat i = 0 then byteCountHi ctx + 1 else byteCountHi ctx) = of_nat (length (m @ s) div 2 ^ 32)"
proof -
  show b: "byteCount ctx + of_nat i = of_nat (length (m @ s))" using assms(3,4) by simp
  have "((of_nat (length (m @ s)) :: u32) = 0) = (length (m @ s) mod 2 ^ 32 = 0)"
    by (simp only: of_nat_eq_0_iff word_of_nat_eq_0_iff dvd_eq_mod_eq_0) simp
  then show "(if byteCount ctx + of_nat i = 0 then byteCountHi ctx + 1 else byteCountHi ctx) = of_nat (length (m @ s) div 2 ^ 32)"
    unfolding b using byte_count_carry [OF assms(1,2)] assms(3,5) by simp
qed

lemma loop_step:
  assumes "n \<noteq> 0" "i = (if n < f then n else f)" "i \<le> length src"
    and "(if i = 64 then Inr (take 64 src) else put_at (64 - f) (take i src) (ctx_buf ctx)) = Inr B"
  shows "hash_update_loop ctx src n f =
    hash_update_loop \<lparr>ctx_h = if f - i = 0 then snd (shaEngine B (ctx_h ctx)) else ctx_h ctx,
        ctx_buf = if f - i = 0 then fst (shaEngine B (ctx_h ctx)) else B, byteCount = byteCount ctx + of_nat i,
        byteCountHi = if byteCount ctx + of_nat i = 0 then byteCountHi ctx + 1 else byteCountHi ctx\<rparr>
      (drop i src) (n - i) 64"
proof -
  have "\<not> length src < i" using assms(3) by simp
  then show ?thesis
    by (subst hash_update_loop.simps) (simp add: assms(1) assms(2) [symmetric] assms(4) Let_def split_beta if_distrib [of fst] if_distrib [of snd])
qed

lemma loop_keeps:
  assumes "sha1_inv ctx m" "n \<le> length src"
  shows "\<exists>ctx'. hash_update_loop ctx src n (64 - length m mod 64) = Inr ctx' \<and> sha1_inv ctx' (m @ take n src)"
  using assms
proof (induction n arbitrary: ctx m src rule: less_induct)
  case (less n)
  define b i where "b = length m mod 64" and "i = (if n < 64 - b then n else 64 - b)"
  have b: "b < 64" "length (rest m) = b" by (simp_all add: b_def whole_rest)
  note inv = less.prems(1) [unfolded sha1_inv_def b(2)]
  let ?s = "take i src"
  have i: "i \<le> n" "i \<le> 64 - b" by (auto simp: i_def)
  have ls: "length ?s = i" using i less.prems(2) by simp
  have src: "\<not> length src < i" using i less.prems(2) by simp
  show ?case
  proof (cases "n = 0")
    case True
    then show ?thesis using less.prems(1) by (subst hash_update_loop.simps) simp
  next
    case False
    have i0: "0 < i" using False b by (simp add: i_def)
    have mi: "length m mod 64 + i \<le> 64" using i(2) b(1) unfolding b_def by linarith
    note cnt = counts_step [OF mi i0 ls inv [THEN conjunct1] inv [THEN conjunct2, THEN conjunct1]]
    have i64: "64 - (64 - b) = b" using b(1) by simp
    have put: "put_at b ?s (ctx_buf ctx) = Inr (memcpy_at b ?s (ctx_buf ctx))" "length (memcpy_at b ?s (ctx_buf ctx)) = 64"
      "take (b + i) (memcpy_at b ?s (ctx_buf ctx)) = rest m @ ?s"
      using inv i b ls by (auto simp: put_at_def memcpy_at_def)
    show ?thesis
    proof (cases "i = 64 - b")
      case False
      then have n: "i = n" "n < 64 - b" by (simp_all add: i_def split: if_splits)
      have w: "whole (m @ ?s) = whole m" "rest (m @ ?s) = rest m @ ?s"
        by (rule whole_unique [of _ "whole m" "rest m @ ?s"]; use n b ls in \<open>simp add: whole_rest flip: append_assoc\<close>)+
      have "hash_update_loop ctx src n (64 - b) = hash_update_loop \<lparr>ctx_h = ctx_h ctx, ctx_buf = memcpy_at b ?s (ctx_buf ctx),
          byteCount = of_nat (length (m @ ?s)), byteCountHi = of_nat (length (m @ ?s) div 2 ^ 32)\<rparr> (drop i src) (n - i) 64"
      proof -
        have ni: "i \<noteq> 64" "64 - b - i \<noteq> 0" "i \<le> length src" using n src b(1) by auto
        then have "(if i = 64 then Inr (take 64 src) else put_at (64 - (64 - b)) ?s (ctx_buf ctx)) =
            Inr (memcpy_at b ?s (ctx_buf ctx))" using put(1) by (simp add: i64)
        from loop_step [OF \<open>n \<noteq> 0\<close> i_def ni(3) this, unfolded cnt(2), unfolded cnt(1)] show ?thesis
          using ni(2) by (simp only: if_False)
      qed
      also have "\<dots> = Inr \<lparr>ctx_h = ctx_h ctx, ctx_buf = memcpy_at b ?s (ctx_buf ctx),
          byteCount = of_nat (length (m @ ?s)), byteCountHi = of_nat (length (m @ ?s) div 2 ^ 32)\<rparr>"
        using n(1) by (subst hash_update_loop.simps) simp
      finally show ?thesis unfolding b_def [symmetric] n(1) [symmetric] sha1_inv_def w
        using inv put ls b by simp
    next
      case True
      let ?B = "rest m @ ?s"
      have lB: "length ?B = 64" using True b ls by simp
      have buf: "(if i = 64 then Inr (take 64 src) else put_at (64 - (64 - b)) ?s (ctx_buf ctx)) = Inr ?B"
      proof (cases "b = 0")
        case z: True
        then have "rest m = []" using b(2) by simp
        then show ?thesis using z True by simp
      next
        case False
        have "take 64 (memcpy_at b ?s (ctx_buf ctx)) = memcpy_at b ?s (ctx_buf ctx)" using put(2) by simp
        moreover have "b + i = 64" using True b(1) by simp
        ultimately have "memcpy_at b ?s (ctx_buf ctx) = ?B" using put(3) by simp
        moreover have "i \<noteq> 64" using False True b(1) by simp
        ultimately show ?thesis using put(1) by (simp only: i64 if_False)
      qed
      define ctx1 where "ctx1 = \<lparr>ctx_h = sha1_compress (ctx_h ctx) ?B, ctx_buf = fst (shaEngine ?B (ctx_h ctx)),
          byteCount = of_nat (length (m @ ?s)), byteCountHi = of_nat (length (m @ ?s) div 2 ^ 32)\<rparr>"
      have run: "hash_update_loop ctx src n (64 - b) = hash_update_loop ctx1 (drop i src) (n - i) 64"
        using loop_step [OF \<open>n \<noteq> 0\<close> i_def _ buf, unfolded cnt(2), unfolded cnt(1)] src True engine_fips(1) [OF lB] by (simp add: ctx1_def)
      have split: "m @ ?s = (whole m @ ?B) @ []" using whole_rest(1) [of m] by (simp flip: append_assoc)
      have "length (whole m @ ?B) mod 64 = 0" using lB by (simp add: whole_rest)
      from whole_unique [OF split this] have w: "whole (m @ ?s) = whole m @ ?B" "rest (m @ ?s) = []" by simp_all
      have "length (whole m) mod 64 = 0" by (simp add: whole_rest)
      from run_blocks_append [OF this, of sha1_compress sha1_H0 ?B] have
        "run_blocks sha1_compress sha1_H0 (whole (m @ ?s)) = sha1_compress (ctx_h ctx) ?B"
        unfolding w using inv lB by (simp add: run_blocks_one)
      then have inv1: "sha1_inv ctx1 (m @ ?s)" using engine_fips(2) [OF lB] w(2) by (simp add: sha1_inv_def ctx1_def)
      have "length (m @ ?s) mod 64 = 0" using whole_rest(3) [of "m @ ?s"] w(2) by simp
      then have f: "64 - length (m @ ?s) mod 64 = 64" by simp
      have "n - i < n" "n - i \<le> length (drop i src)" using i0 i(1) less.prems(2) by simp_all
      from less.IH [OF this(1) inv1 this(2)] obtain ctx' where
        "hash_update_loop ctx1 (drop i src) (n - i) 64 = Inr ctx'" "sha1_inv ctx' ((m @ ?s) @ take (n - i) (drop i src))"
        unfolding f by blast
      moreover have "?s @ take (n - i) (drop i src) = take n src" using i(1) by (metis le_add_diff_inverse take_add)
      ultimately show ?thesis unfolding b_def [symmetric] run by (metis append_assoc)
    qed
  qed
qed

section \<open>The digest\<close>

lemma low_six_bits: "unat (of_nat n AND 63 :: u32) = n mod 64"
proof -
  have "(of_nat n AND 63 :: u32) = take_bit 6 (of_nat n)" by (simp add: take_bit_eq_mask mask_eq_exp_minus_1)
  then have "unat (of_nat n AND 63 :: u32) = take_bit 6 (unat (of_nat n :: u32))" by (simp add: unsigned_take_bit_eq)
  also have "\<dots> = n mod 2 ^ 32 mod 2 ^ 6" by (simp add: unat_of_nat take_bit_eq_mod)
  also have "\<dots> = n mod 2 ^ 6" by (rule mod_mod_cancel) simp
  finally show ?thesis by simp
qed

lemma be64_halves: "be64 n = be32 (of_nat (n div 2 ^ 32)) @ be32 (of_nat n)"
proof -
  have e: "ucast (drop_bit k (of_nat j :: u32)) = (of_nat (j div 2 ^ k) :: u8)" if "k \<le> 24" for k j
  proof -
    have "unat (ucast (drop_bit k (of_nat j :: u32)) :: u8) = unat (of_nat j :: u32) div 2 ^ k mod 256" by (rule unat_byte)
    also have "\<dots> = take_bit 8 (drop_bit k (take_bit 32 j))" by (simp add: unat_of_nat take_bit_eq_mod drop_bit_eq_div)
    also have "\<dots> = take_bit 8 (drop_bit k j)"
      using that by (simp add: drop_bit_take_bit)
    finally have "unat (ucast (drop_bit k (of_nat j :: u32)) :: u8) = unat (of_nat (j div 2 ^ k) :: u8)"
      by (simp add: unat_of_nat take_bit_eq_mod drop_bit_eq_div)
    then show ?thesis by (simp only: word_unat_eq_iff)
  qed
  have d: "n div 2 ^ 32 div 2 ^ k = n div (2 ^ (32 + k))" for k by (simp only: power_add div_mult2_eq)
  show ?thesis unfolding be32_def
    using e [of 24] e [of 16] e [of 8] e [of 0] d [of 24] d [of 16] d [of 8] d [of 0]
    by (simp add: be64_def upt_rec)
qed

text \<open>The counts of the context as the two halves of the number of bits.\<close>

lemma bit_count_halves:
  assumes "n < 2 ^ 61"
  shows "push_bit 3 (of_nat n :: u32) = of_nat (8 * n)"
    "push_bit 3 (of_nat (n div 2 ^ 32) :: u32) OR drop_bit 29 (of_nat n) = of_nat (8 * n div 2 ^ 32)"
proof -
  show "push_bit 3 (of_nat n :: u32) = of_nat (8 * n)" by (simp add: push_bit_eq_mult)
  have o: "bit (of_nat j :: u32) k = (k < 32 \<and> bit j k)" for j k
    by (simp add: bit_of_nat_iff)
  have "8 * n div 2 ^ 32 = drop_bit 29 n" by (simp add: drop_bit_eq_div)
  moreover have "n div 2 ^ 32 = drop_bit 32 n" by (simp add: drop_bit_eq_div)
  ultimately show "push_bit 3 (of_nat (n div 2 ^ 32) :: u32) OR drop_bit 29 (of_nat n) = of_nat (8 * n div 2 ^ 32)"
    by (intro bit_word_eqI) (auto simp: bit_or_iff bit_push_bit_iff bit_drop_bit_eq o)
qed

lemma put_counts:
  assumes "length xs = 56" "length lo = 4" "length hi = 4"
  shows "memcpy_at 56 hi (memcpy_at 60 lo (xs @ replicate 8 0)) = xs @ hi @ lo"
proof -
  have "replicate 8 (0 :: u8) = replicate 4 0 @ replicate 4 0" by (simp flip: replicate_add)
  then have "memcpy_at 60 lo (xs @ replicate 8 0) = xs @ replicate 4 0 @ lo" using assms by (simp add: memcpy_at_def)
  then show ?thesis using assms by (simp add: memcpy_at_def)
qed

lemma sha1_final_digest:
  assumes "sha1_inv ctx m" "length m < 2 ^ 61"
  shows "snd (CL_hashFinal ctx) = fips_sha1 m"
proof -
  define b where "b = length m mod 64"
  have b: "b < 64" "length (rest m) = b" by (simp_all add: b_def whole_rest)
  note inv = assms(1) [unfolded sha1_inv_def b(2)]
  have nb: "unat (byteCount ctx AND 63) = b" using inv low_six_bits [of "length m"] by (simp add: b_def)
  let ?lo = "be32 (push_bit 3 (byteCount ctx))"
  let ?hi = "be32 (push_bit 3 (byteCountHi ctx) OR drop_bit 29 (byteCount ctx))"
  have cnt: "?hi @ ?lo = be64 (8 * length m)"
    using inv bit_count_halves [OF assms(2)] be64_halves [of "8 * length m"] by simp
  let ?first = "rest m @ [0x80] @ replicate (64 - (b + 1)) 0"
  let ?H = "run_blocks sha1_compress sha1_H0"
  have pad: "?H (md_pad m) = run_blocks sha1_compress (ctx_h ctx) (rest m @ padding (length m))"
    unfolding md_pad_split using inv by (simp add: run_blocks_append whole_rest)
  have p: "padding (length m) = [0x80] @ replicate ((119 - b) mod 64) 0 @ be64 (8 * length m)"
    by (simp add: padding_def b_def)
  have lf: "length ?first = 64" using b by simp
  have fin: "snd (CL_hashFinal ctx) = concat (map be32 (snd (shaEngine (memcpy_at 56 ?hi (memcpy_at 60 ?lo
      (if b > 55 then replicate 64 0 else ?first))) (if b > 55 then sha1_compress (ctx_h ctx) ?first else ctx_h ctx))))"
  proof -
    have tk: "take b (ctx_buf ctx) = rest m" using inv by blast
    show ?thesis using engine_fips(1) [OF lf] by (simp add: CL_hashFinal_def nb Let_def split_beta tk)
  qed
  show ?thesis
  proof (cases "b > 55")
    case False
    then have "(119 - b) mod 64 = 55 - b" by (simp add: mod_if)
    then have e: "rest m @ padding (length m) = (rest m @ [0x80] @ replicate (55 - b) 0) @ ?hi @ ?lo" unfolding p cnt by simp
    have "64 - (b + 1) = (55 - b) + 8" using False by simp
    then have "?first = (rest m @ [0x80] @ replicate (55 - b) 0) @ replicate 8 0"
      by (simp only: replicate_add append_assoc)
    then have "memcpy_at 56 ?hi (memcpy_at 60 ?lo ?first) = rest m @ padding (length m)"
      unfolding e using put_counts [of "rest m @ [0x80] @ replicate (55 - b) 0" ?lo ?hi] b False by simp
    moreover have "length (rest m @ padding (length m)) = 64" unfolding e using b False by simp
    ultimately show ?thesis unfolding fin fips_sha1_def pad using False by (simp add: engine_fips(1) run_blocks_one)
  next
    case True
    then have r: "(119 - b) mod 64 = 63 - b + 56" using b(1) by simp
    have "rest m @ padding (length m) = (rest m @ [0x80] @ replicate (63 - b) 0) @ (replicate 56 0 @ ?hi @ ?lo)"
      unfolding p cnt r replicate_add by simp
    then have e: "rest m @ padding (length m) = ?first @ (replicate 56 0 @ ?hi @ ?lo)" by simp
    have "replicate 64 (0 :: u8) = replicate 56 0 @ replicate 8 0" by (simp flip: replicate_add)
    then have q: "memcpy_at 56 ?hi (memcpy_at 60 ?lo (replicate 64 0)) = replicate 56 0 @ ?hi @ ?lo"
      using put_counts [of "replicate 56 0" ?lo ?hi] by simp
    have "run_blocks sha1_compress (ctx_h ctx) (?first @ (replicate 56 0 @ ?hi @ ?lo)) =
        sha1_compress (sha1_compress (ctx_h ctx) ?first) (replicate 56 0 @ ?hi @ ?lo)"
      using lf by (simp add: run_blocks_append run_blocks_one del: append_assoc)
    then show ?thesis unfolding fin fips_sha1_def pad e using True q by (simp add: engine_fips(1))
  qed
qed

section \<open>Properties\<close>

definition sha1_updates :: "u8 list list \<Rightarrow> CL_HashContext \<Rightarrow> fault + CL_HashContext" where
  "sha1_updates msgs ctx = foldl (\<lambda>r msg. if_inr r (\<lambda>ctx. CL_hashUpdate ctx msg (of_nat (length msg)))) (Inr ctx) msgs"

lemma sint_small: "n < 2 ^ 31 \<Longrightarrow> sint (of_nat n :: u32) = int n"
  by (simp add: signed_of_nat signed_take_bit_int_eq_self)

lemma sha1_update_keeps:
  assumes "sha1_inv ctx m" "nat (sint n) \<le> length src"
  shows "\<exists>ctx'. CL_hashUpdate ctx src n = Inr ctx' \<and> sha1_inv ctx' (m @ take (nat (sint n)) src)"
proof -
  have "byteCount ctx = of_nat (length m)" using assms(1) by (simp add: sha1_inv_def)
  then have "unat (byteCount ctx AND 63) = length m mod 64" using low_six_bits [of "length m"] by simp
  then show ?thesis using loop_keeps [OF assms] by (simp add: CL_hashUpdate_def)
qed

lemma sha1_updates_keep:
  assumes "sha1_inv ctx m" "\<forall>msg \<in> set msgs. length msg < 2 ^ 31"
  shows "\<exists>ctx'. sha1_updates msgs ctx = Inr ctx' \<and> sha1_inv ctx' (m @ concat msgs)"
  using assms
proof (induction msgs arbitrary: ctx m)
  case (Cons msg msgs)
  from sha1_update_keeps [OF Cons.prems(1), of "of_nat (length msg)" msg] Cons.prems(2) obtain ctx1 where
    c: "CL_hashUpdate ctx msg (of_nat (length msg)) = Inr ctx1" "sha1_inv ctx1 (m @ msg)" by (auto simp: sint_small)
  have "sha1_updates (msg # msgs) ctx = sha1_updates msgs ctx1" by (simp add: sha1_updates_def c(1))
  then show ?case using Cons.IH [OF c(2)] Cons.prems(2) by simp
qed (simp add: sha1_updates_def)

text \<open>
  The wrapper cuts the size of the data to an \<open>int\<close>: the digest is that of the first bytes,
  as many as the low 32 bits say, and that of the empty message when they are negative.
\<close>

lemma atcac_sw_sha1_digest:
  assumes "nat (sint (ucast n :: u32)) \<le> length m"
  shows "atcac_sw_sha1 m n ctx digest = Inr (ATCA_SUCCESS, fips_sha1 (take (nat (sint (ucast n :: u32))) m))"
proof -
  let ?m = "take (nat (sint (ucast n :: u32))) m"
  obtain c where c: "CL_hashUpdate CL_hashInit m (ucast n) = Inr c" "sha1_inv c ?m"
    using sha1_update_keeps [OF sha1_inv_init assms] by auto
  have "sint (ucast n :: u32) < 2 ^ 31" using sint_less [of "ucast n :: u32"] by simp
  then have "length ?m < 2 ^ 61" by simp
  then show ?thesis using sha1_final_digest [OF c(2)] c(1)
    by (simp add: atcac_sw_sha1_def atcac_sw_sha1_init_def sizeof_CL_HashContext_def sizeof_atcac_sha1_ctx_def
        atcac_sw_sha1_update_def atcac_sw_sha1_finish_def split_beta)
qed

text \<open>
  C35: The SHA-1 in software is SHA-1: a message given in any number of pieces whose sizes an
  \<open>int\<close> can hold, less than \<open>2 ^ 61\<close> bytes together, has the digest of FIPS 180-4, although
  the engine keeps only sixteen words of the schedule and overwrites its input with them.
\<close>

theorem CL_hash_is_fips:
  assumes "\<forall>msg \<in> set msgs. length msg < 2 ^ 31" "length (concat msgs) < 2 ^ 61"
  shows "\<exists>ctx. sha1_updates msgs CL_hashInit = Inr ctx \<and> snd (CL_hashFinal ctx) = fips_sha1 (concat msgs)"
  using sha1_updates_keep [OF sha1_inv_init assms(1)] sha1_final_digest assms(2) by fastforce

theorem CL_hash_is_fips_witness:
  "\<exists>ctx. sha1_updates [[0x61], [0x62, 0x63]] CL_hashInit = Inr ctx \<and>
    snd (CL_hashFinal ctx) = fips_sha1 [0x61, 0x62, 0x63]"
  using CL_hash_is_fips [of "[[0x61], [0x62, 0x63]]"] by simp

end
