(* ===== verification/CertDate.thy ===== *)
theory CertDate
  imports HashBlocks
begin

text \<open>
  The dates of certificates (\<open>libatca/atcacert/atcacert_date.[ch]\<close>). An encoder gives its status
  and the bytes it has written; a decoder reads a list of bytes, and reading beyond it is a
  fault. The fields of a timestamp are \<open>int\<close>.
\<close>

section \<open>Status codes and timestamps\<close>

definition ATCACERT_E_SUCCESS :: int where "ATCACERT_E_SUCCESS = 0"
definition ATCACERT_E_ERROR :: int where "ATCACERT_E_ERROR = 1"
definition ATCACERT_E_BAD_PARAMS :: int where "ATCACERT_E_BAD_PARAMS = 2"
definition ATCACERT_E_BUFFER_TOO_SMALL :: int where "ATCACERT_E_BUFFER_TOO_SMALL = 3"
definition ATCACERT_E_DECODING_ERROR :: int where "ATCACERT_E_DECODING_ERROR = 4"
definition ATCACERT_E_INVALID_DATE :: int where "ATCACERT_E_INVALID_DATE = 5"
definition ATCACERT_E_BAD_CERT :: int where "ATCACERT_E_BAD_CERT = 10"

lemmas cert_codes = ATCACERT_E_SUCCESS_def ATCACERT_E_ERROR_def ATCACERT_E_BAD_PARAMS_def
  ATCACERT_E_BUFFER_TOO_SMALL_def ATCACERT_E_DECODING_ERROR_def ATCACERT_E_INVALID_DATE_def ATCACERT_E_BAD_CERT_def

record atcacert_tm_utc =
  tm_sec :: int
  tm_min :: int
  tm_hour :: int
  tm_mday :: int
  tm_mon :: int
  tm_year :: int

definition tm_zero :: atcacert_tm_utc where
  "tm_zero = \<lparr>tm_sec = 0, tm_min = 0, tm_hour = 0, tm_mday = 0, tm_mon = 0, tm_year = 0\<rparr>"

datatype atcacert_date_format =
  DATEFMT_ISO8601_SEP | DATEFMT_RFC5280_UTC | DATEFMT_POSIX_UINT32_BE | DATEFMT_POSIX_UINT32_LE | DATEFMT_RFC5280_GEN

fun date_format_size :: "atcacert_date_format \<Rightarrow> nat" where
  "date_format_size DATEFMT_ISO8601_SEP = 20"
| "date_format_size DATEFMT_RFC5280_UTC = 13"
| "date_format_size DATEFMT_POSIX_UINT32_BE = 4"
| "date_format_size DATEFMT_POSIX_UINT32_LE = 4"
| "date_format_size DATEFMT_RFC5280_GEN = 15"

fun atcacert_date_get_max_date :: "atcacert_date_format \<Rightarrow> atcacert_tm_utc" where
  "atcacert_date_get_max_date DATEFMT_ISO8601_SEP =
     \<lparr>tm_sec = 59, tm_min = 59, tm_hour = 23, tm_mday = 31, tm_mon = 12 - 1, tm_year = 9999 - 1900\<rparr>"
| "atcacert_date_get_max_date DATEFMT_RFC5280_UTC =
     \<lparr>tm_sec = 59, tm_min = 59, tm_hour = 23, tm_mday = 31, tm_mon = 12 - 1, tm_year = 2049 - 1900\<rparr>"
| "atcacert_date_get_max_date DATEFMT_POSIX_UINT32_BE =
     \<lparr>tm_sec = 15, tm_min = 28, tm_hour = 6, tm_mday = 7, tm_mon = 2 - 1, tm_year = 2106 - 1900\<rparr>"
| "atcacert_date_get_max_date DATEFMT_POSIX_UINT32_LE =
     \<lparr>tm_sec = 15, tm_min = 28, tm_hour = 6, tm_mday = 7, tm_mon = 2 - 1, tm_year = 2106 - 1900\<rparr>"
| "atcacert_date_get_max_date DATEFMT_RFC5280_GEN =
     \<lparr>tm_sec = 59, tm_min = 59, tm_hour = 23, tm_mday = 31, tm_mon = 12 - 1, tm_year = 9999 - 1900\<rparr>"

section \<open>Numbers as text\<close>

text \<open>Digits are written from the right; a number too long for its field is written before it.\<close>

function uint_digits :: "nat \<Rightarrow> nat \<Rightarrow> u8 list \<Rightarrow> fault + u8 list" where
  "uint_digits num pos str =
     (if num = 0 then Inr str
      else if pos = 0 then Inl OutOfBounds
      else uint_digits (num div 10) (pos - 1) (str[pos - 1 := 48 + of_nat (num mod 10)]))"
  by pat_completeness auto
termination
  by (relation "measure fst") auto

declare uint_digits.simps [simp del]

definition uint_to_str :: "nat \<Rightarrow> nat \<Rightarrow> fault + u8 list" where
  "uint_to_str num width = uint_digits num width (replicate width 48)"

text \<open>
  Digits are read from the right. From the eleventh on the pointer is not moved any more:
  the same character is tested again. The result is the number, or that there is none.
\<close>

function str_digits :: "u8 list \<Rightarrow> nat \<Rightarrow> nat \<Rightarrow> nat \<Rightarrow> u32 \<Rightarrow> u32 \<Rightarrow> u32 \<Rightarrow> u32 option" where
  "str_digits str width digit pos num prev_num digit_value =
     (if \<not> digit < width then Some num
      else
        let c = str ! pos
        in if c < 48 \<or> c > 57 then None
           else if digit \<ge> 10 then
             (if c \<noteq> 48 then None else str_digits str width (digit + 1) pos num prev_num digit_value)
           else if digit = 9 \<and> c > 52 then None
           else
             let num = num + digit_value * (ucast c - 48)
             in if num < prev_num then None
                else str_digits str width (digit + 1) (pos - 1) num num (digit_value * 10))"
  by pat_completeness auto
termination
  by (relation "measure (\<lambda>(s, w, d, r). w - d)") auto

declare str_digits.simps [simp del]

definition str_to_uint :: "u8 list \<Rightarrow> nat \<Rightarrow> u32 option" where
  "str_to_uint str width = str_digits str width 0 (width - 1) 0 0 1"

definition str_to_int :: "u8 list \<Rightarrow> nat \<Rightarrow> int option" where
  "str_to_int str width =
     (case str_to_uint str width of
        None \<Rightarrow> None
      | Some unum \<Rightarrow> if unum > 2147483647 then None else Some (sint unum))"

section \<open>Textual formats\<close>

text \<open>A field: its range check, its digits, the separator after it.\<close>

definition enc_field :: "bool \<Rightarrow> int \<Rightarrow> nat \<Rightarrow> u8 list \<Rightarrow> (u8 list \<Rightarrow> fault + (int \<times> u8 list)) \<Rightarrow> u8 list \<Rightarrow> fault + (int \<times> u8 list)" where
  "enc_field bad num width sep k out =
     (if bad then Inr (ATCACERT_E_INVALID_DATE, out)
      else if_inr (uint_to_str (nat num) width) (\<lambda>str. k (out @ str @ sep)))"

text \<open>The fields after the year, with the separators of the format.\<close>

definition enc_fields :: "u8 list \<Rightarrow> u8 list \<Rightarrow> u8 list \<Rightarrow> atcacert_tm_utc \<Rightarrow> u8 list \<Rightarrow> fault + (int \<times> u8 list)" where
  "enc_fields dash t colon ts out =
     enc_field (tm_mon ts < 0 \<or> tm_mon ts > 11) (tm_mon ts + 1) 2 dash (
     enc_field (tm_mday ts < 1 \<or> tm_mday ts > 31) (tm_mday ts) 2 t (
     enc_field (tm_hour ts < 0 \<or> tm_hour ts > 23) (tm_hour ts) 2 colon (
     enc_field (tm_min ts < 0 \<or> tm_min ts > 59) (tm_min ts) 2 colon (
     enc_field (tm_sec ts < 0 \<or> tm_sec ts > 59) (tm_sec ts) 2 [90] (
     \<lambda>out. Inr (ATCACERT_E_SUCCESS, out)))))) out"

definition atcacert_date_enc_iso8601_sep :: "atcacert_tm_utc \<Rightarrow> fault + (int \<times> u8 list)" where
  "atcacert_date_enc_iso8601_sep ts =
     (let year = tm_year ts + 1900
      in enc_field (year < 0 \<or> year > 9999) year 4 [45] (enc_fields [45] [84] [58] ts) [])"

definition atcacert_date_enc_rfc5280_utc :: "atcacert_tm_utc \<Rightarrow> fault + (int \<times> u8 list)" where
  "atcacert_date_enc_rfc5280_utc ts =
     (let year = tm_year ts + 1900
      in if year \<ge> 1950 \<and> year \<le> 1999 then enc_field False (year - 1900) 2 [] (enc_fields [] [] [] ts) []
         else if year \<ge> 2000 \<and> year \<le> 2049 then enc_field False (year - 2000) 2 [] (enc_fields [] [] [] ts) []
         else Inr (ATCACERT_E_INVALID_DATE, []))"

definition atcacert_date_enc_rfc5280_gen :: "atcacert_tm_utc \<Rightarrow> fault + (int \<times> u8 list)" where
  "atcacert_date_enc_rfc5280_gen ts =
     (let year = tm_year ts + 1900
      in enc_field (year < 0 \<or> year > 9999) year 4 [] (enc_fields [] [] [] ts) [])"

text \<open>
  Reading a field or a separator. A decoder gives its status and the timestamp; after an error
  its contents are not modelled.
\<close>

type_synonym decoded = "fault + (int \<times> atcacert_tm_utc option)"

definition dec_field :: "nat \<Rightarrow> (int \<Rightarrow> u8 list \<Rightarrow> decoded) \<Rightarrow> u8 list \<Rightarrow> decoded" where
  "dec_field width k s =
     (if length s < width then Inl OutOfBounds
      else case str_to_int s width of
        None \<Rightarrow> Inr (ATCACERT_E_DECODING_ERROR, None)
      | Some n \<Rightarrow> k n (drop width s))"

fun dec_sep :: "u8 list \<Rightarrow> (u8 list \<Rightarrow> decoded) \<Rightarrow> u8 list \<Rightarrow> decoded" where
  "dec_sep [] k s = k s"
| "dec_sep (c # cs) k [] = Inl OutOfBounds"
| "dec_sep (c # cs) k (d # s) = (if d \<noteq> c then Inr (ATCACERT_E_DECODING_ERROR, None) else dec_sep cs k s)"

definition dec_fields :: "u8 list \<Rightarrow> u8 list \<Rightarrow> u8 list \<Rightarrow> int \<Rightarrow> u8 list \<Rightarrow> decoded" where
  "dec_fields dash t colon year =
     dec_field 2 (\<lambda>mon. dec_sep dash (
     dec_field 2 (\<lambda>mday. dec_sep t (
     dec_field 2 (\<lambda>hour. dec_sep colon (
     dec_field 2 (\<lambda>mn. dec_sep colon (
     dec_field 2 (\<lambda>sec. dec_sep [90] (\<lambda>s.
       Inr (ATCACERT_E_SUCCESS, Some \<lparr>tm_sec = sec, tm_min = mn, tm_hour = hour, tm_mday = mday, tm_mon = mon - 1, tm_year = year\<rparr>)))))))))))"

definition atcacert_date_dec_iso8601_sep :: "u8 list \<Rightarrow> decoded" where
  "atcacert_date_dec_iso8601_sep s =
     dec_field 4 (\<lambda>year. dec_sep [45] (dec_fields [45] [84] [58] (year - 1900))) s"

definition atcacert_date_dec_rfc5280_utc :: "u8 list \<Rightarrow> decoded" where
  "atcacert_date_dec_rfc5280_utc s =
     dec_field 2 (\<lambda>year. dec_fields [] [] [] ((if year < 50 then year + 2000 else year + 1900) - 1900)) s"

definition atcacert_date_dec_rfc5280_gen :: "u8 list \<Rightarrow> decoded" where
  "atcacert_date_dec_rfc5280_gen s = dec_field 4 (\<lambda>year. dec_fields [] [] [] (year - 1900)) s"

section \<open>Seconds since 1970\<close>

definition is_leap_year :: "int \<Rightarrow> bool" where
  "is_leap_year year \<longleftrightarrow> year mod 400 = 0 \<or> year mod 4 = 0 \<and> year mod 100 \<noteq> 0"

definition get_year_secs :: "int \<Rightarrow> u32" where
  "get_year_secs year =
     (if is_leap_year year then (31 + 29 + 31 + 30 + 31 + 30 + 31 + 31 + 30 + 31 + 30 + 31) * 86400
      else (31 + 28 + 31 + 30 + 31 + 30 + 31 + 31 + 30 + 31 + 30 + 31) * 86400)"

definition month_secs :: "u32 list" where
  "month_secs = [2678400, 2419200, 2678400, 2592000, 2678400, 2592000, 2678400, 2678400, 2592000, 2678400, 2592000, 2678400]"

definition get_month_secs :: "int \<Rightarrow> int \<Rightarrow> u32" where
  "get_month_secs year mon =
     (if mon = 1 \<and> is_leap_year year then 2505600
      else if mon < 12 then month_secs ! nat mon
      else 0)"

text \<open>The two loops of \<open>atcacert_gmtime32\<close>. The loop over the months ends with the year.\<close>

function year_loop :: "u32 \<Rightarrow> int \<Rightarrow> u32 \<times> int" where
  "year_loop secs_remaining year =
     (if secs_remaining \<ge> get_year_secs year then year_loop (secs_remaining - get_year_secs year) (year + 1)
      else (secs_remaining, year))"
  by pat_completeness auto
termination
proof (relation "measure (\<lambda>(s, y). unat s)")
  fix s :: u32 and y assume "get_year_secs y \<le> s"
  moreover have "unat (get_year_secs y) > 0" by (simp add: get_year_secs_def)
  ultimately have "unat (s - get_year_secs y) < unat s" by (simp add: unat_sub word_le_nat_alt)
  then show "((s - get_year_secs y, y + 1), (s, y)) \<in> measure (\<lambda>(s, y). unat s)" by simp
qed simp

declare year_loop.simps [simp del]

partial_function (option) month_loop :: "u32 \<Rightarrow> int \<Rightarrow> int \<Rightarrow> (u32 \<times> int) option" where
  "month_loop secs_remaining year mon =
     (if secs_remaining \<ge> get_month_secs year mon
      then month_loop (secs_remaining - get_month_secs year mon) year (mon + 1)
      else Some (secs_remaining, mon))"

definition atcacert_gmtime32 :: "u32 \<Rightarrow> atcacert_tm_utc option" where
  "atcacert_gmtime32 posix_time =
     (let (s, year) = year_loop posix_time 1970
      in case month_loop s year 0 of
           None \<Rightarrow> None
         | Some (s, mon) \<Rightarrow>
             let mday = 1 + uint (s div 86400); s = s mod 86400;
                 hour = uint (s div 3600); s = s mod 3600;
                 mn = uint (s div 60); s = s mod 60
             in Some \<lparr>tm_sec = uint s, tm_min = mn, tm_hour = hour, tm_mday = mday, tm_mon = mon, tm_year = year - 1900\<rparr>)"

definition atcacert_mkgmtime32 :: "atcacert_tm_utc \<Rightarrow> u32" where
  "atcacert_mkgmtime32 tm =
     (let year = tm_year tm + 1900;
          posix_time = fold (\<lambda>y s. s + get_year_secs y) (rev [1970..year - 1]) 0;
          posix_time = fold (\<lambda>m s. s + get_month_secs year m) (rev [0..tm_mon tm - 1]) posix_time;
          posix_time = posix_time + of_int (tm_mday tm - 1) * 86400;
          posix_time = posix_time + of_int (tm_hour tm) * 3600;
          posix_time = posix_time + of_int (tm_min tm) * 60
      in posix_time + of_int (tm_sec tm))"

definition atcacert_date_enc_posix_uint32 :: "atcacert_tm_utc \<Rightarrow> int \<times> u32" where
  "atcacert_date_enc_posix_uint32 ts =
     (let year = tm_year ts + 1900
      in if year > 2106 \<or> year < 1970 then (ATCACERT_E_INVALID_DATE, 0)
         else if tm_mon ts < 0 \<or> tm_mon ts > 11 then (ATCACERT_E_INVALID_DATE, 0)
         else if tm_mday ts < 1 \<or> tm_mday ts > 31 then (ATCACERT_E_INVALID_DATE, 0)
         else if tm_hour ts < 0 \<or> tm_hour ts > 23 then (ATCACERT_E_INVALID_DATE, 0)
         else if tm_min ts < 0 \<or> tm_min ts > 59 then (ATCACERT_E_INVALID_DATE, 0)
         else if tm_sec ts < 0 \<or> tm_sec ts > 59 then (ATCACERT_E_INVALID_DATE, 0)
         else if year = 2106 \<and> (tm_mon ts > 1 \<or> tm_mon ts = 1 \<and> (tm_mday ts > 7 \<or> tm_mday ts = 7 \<and>
             (tm_hour ts > 6 \<or> tm_hour ts = 6 \<and> (tm_min ts > 28 \<or> tm_min ts = 28 \<and> tm_sec ts > 14))))
         then (ATCACERT_E_INVALID_DATE, 0)
         else (ATCACERT_E_SUCCESS, atcacert_mkgmtime32 ts))"

definition atcacert_date_enc_posix_uint32_be :: "atcacert_tm_utc \<Rightarrow> int \<times> u8 list" where
  "atcacert_date_enc_posix_uint32_be ts =
     (let (ret, posix_uint32) = atcacert_date_enc_posix_uint32 ts
      in if ret \<noteq> ATCACERT_E_SUCCESS then (ret, []) else (ATCACERT_E_SUCCESS, be32 posix_uint32))"

definition atcacert_date_enc_posix_uint32_le :: "atcacert_tm_utc \<Rightarrow> int \<times> u8 list" where
  "atcacert_date_enc_posix_uint32_le ts =
     (let (ret, posix_uint32) = atcacert_date_enc_posix_uint32 ts
      in if ret \<noteq> ATCACERT_E_SUCCESS then (ret, []) else (ATCACERT_E_SUCCESS, le32 posix_uint32))"

text \<open>A decoder of seconds: not returning is \<open>None\<close>.\<close>

definition atcacert_date_dec_posix_uint32 :: "u32 \<Rightarrow> decoded option" where
  "atcacert_date_dec_posix_uint32 posix_uint32 =
     (case atcacert_gmtime32 posix_uint32 of None \<Rightarrow> None | Some ts \<Rightarrow> Some (Inr (ATCACERT_E_SUCCESS, Some ts)))"

definition atcacert_date_dec_posix_uint32_be :: "u8 list \<Rightarrow> decoded option" where
  "atcacert_date_dec_posix_uint32_be s =
     (if length s < 4 then Some (Inl OutOfBounds) else atcacert_date_dec_posix_uint32 (of_be32 (take 4 s)))"

definition atcacert_date_dec_posix_uint32_le :: "u8 list \<Rightarrow> decoded option" where
  "atcacert_date_dec_posix_uint32_le s =
     (if length s < 4 then Some (Inl OutOfBounds) else atcacert_date_dec_posix_uint32 (of_le32 (take 4 s)))"

section \<open>The two entry points\<close>

text \<open>
  The output buffer has the size \<open>formatted_date_size\<close>, or is a null pointer (\<open>None\<close>). The
  result has the status, the bytes written and the size passed out.
\<close>

definition atcacert_date_enc ::
    "atcacert_date_format \<Rightarrow> atcacert_tm_utc \<Rightarrow> nat option \<Rightarrow> fault + (int \<times> u8 list \<times> nat)" where
  "atcacert_date_enc fmt ts buf =
     (case buf of
        None \<Rightarrow> Inr (ATCACERT_E_SUCCESS, [], date_format_size fmt)
      | Some formatted_date_size \<Rightarrow>
          if formatted_date_size < date_format_size fmt then Inr (ATCACERT_E_BUFFER_TOO_SMALL, [], date_format_size fmt)
          else if_inr
            (case fmt of
               DATEFMT_ISO8601_SEP \<Rightarrow> atcacert_date_enc_iso8601_sep ts
             | DATEFMT_RFC5280_UTC \<Rightarrow> atcacert_date_enc_rfc5280_utc ts
             | DATEFMT_POSIX_UINT32_BE \<Rightarrow> Inr (atcacert_date_enc_posix_uint32_be ts)
             | DATEFMT_POSIX_UINT32_LE \<Rightarrow> Inr (atcacert_date_enc_posix_uint32_le ts)
             | DATEFMT_RFC5280_GEN \<Rightarrow> atcacert_date_enc_rfc5280_gen ts)
            (\<lambda>(ret, out). Inr (ret, out, date_format_size fmt)))"

definition atcacert_date_dec :: "atcacert_date_format \<Rightarrow> u8 list \<Rightarrow> decoded option" where
  "atcacert_date_dec fmt formatted_date =
     (if length formatted_date < date_format_size fmt then Some (Inr (ATCACERT_E_DECODING_ERROR, None))
      else case fmt of
          DATEFMT_ISO8601_SEP \<Rightarrow> Some (atcacert_date_dec_iso8601_sep formatted_date)
        | DATEFMT_RFC5280_UTC \<Rightarrow> Some (atcacert_date_dec_rfc5280_utc formatted_date)
        | DATEFMT_POSIX_UINT32_BE \<Rightarrow> atcacert_date_dec_posix_uint32_be formatted_date
        | DATEFMT_POSIX_UINT32_LE \<Rightarrow> atcacert_date_dec_posix_uint32_le formatted_date
        | DATEFMT_RFC5280_GEN \<Rightarrow> Some (atcacert_date_dec_rfc5280_gen formatted_date))"

section \<open>Compressed certificates\<close>

definition atcacert_date_enc_compcert :: "atcacert_tm_utc \<Rightarrow> u8 \<Rightarrow> int \<times> u8 list" where
  "atcacert_date_enc_compcert ts expire_years =
     (if tm_year ts + 1900 < 2000 \<or> tm_year ts + 1900 > 2031 then (ATCACERT_E_INVALID_DATE, [])
      else if tm_mon ts < 0 \<or> tm_mon ts > 11 then (ATCACERT_E_INVALID_DATE, [])
      else if tm_mday ts < 1 \<or> tm_mday ts > 31 then (ATCACERT_E_INVALID_DATE, [])
      else if tm_hour ts < 0 \<or> tm_hour ts > 23 then (ATCACERT_E_INVALID_DATE, [])
      else if expire_years > 31 then (ATCACERT_E_INVALID_DATE, [])
      else
        let year = of_int (tm_year ts + 1900 - 2000) :: u8; mon = of_int (tm_mon ts + 1) :: u8;
            mday = of_int (tm_mday ts) :: u8; hour = of_int (tm_hour ts) :: u8;
            e0 = (0 AND 0x07) OR push_bit 3 (year AND 0x1F);
            e0 = (e0 AND 0xF8) OR drop_bit 1 (mon AND 0x0F);
            e1 = (0 AND 0x7F) OR push_bit 7 (mon AND 0x0F);
            e1 = (e1 AND 0x83) OR push_bit 2 (mday AND 0x1F);
            e1 = (e1 AND 0xFC) OR drop_bit 3 (hour AND 0x1F);
            e2 = (0 AND 0x1F) OR push_bit 5 (hour AND 0x1F);
            e2 = (e2 AND 0xE0) OR (expire_years AND 0x1F)
        in (ATCACERT_E_SUCCESS, [e0, e1, e2]))"

fun atcacert_date_dec_compcert :: "u8 list \<Rightarrow> atcacert_date_format \<Rightarrow> atcacert_tm_utc \<times> atcacert_tm_utc" where
  "atcacert_date_dec_compcert [e0, e1, e2] fmt =
     (let issue = tm_zero\<lparr>tm_year := uint (drop_bit 3 e0) + 2000 - 1900,
            tm_mon := uint (push_bit 1 (e0 AND 0x07) OR drop_bit 7 (e1 AND 0x80)) - 1,
            tm_mday := uint (drop_bit 2 (e1 AND 0x7C)),
            tm_hour := uint (push_bit 3 (e1 AND 0x03) OR drop_bit 5 (e2 AND 0xE0))\<rparr>;
          expire_years = uint (e2 AND 0x1F)
      in if expire_years \<noteq> 0
         then (issue, tm_zero\<lparr>tm_year := tm_year issue + expire_years, tm_mon := tm_mon issue,
            tm_mday := tm_mday issue, tm_hour := tm_hour issue\<rparr>)
         else (issue, atcacert_date_get_max_date fmt))"
| "atcacert_date_dec_compcert _ fmt = (tm_zero, tm_zero)"

end
