(* ===== verification/CertDateFacts.thy ===== *)
theory CertDateFacts
  imports CertDate
begin

text \<open>
  What the date routines compute: the digits of the textual formats, calendar dates and their
  number of seconds, the fields of the compressed dates, and the round trips.
\<close>

section \<open>Digits\<close>

primrec dec_digits :: "nat \<Rightarrow> nat \<Rightarrow> u8 list" where
  "dec_digits n 0 = []"
| "dec_digits n (Suc p) = dec_digits (n div 10) p @ [48 + of_nat (n mod 10)]"

lemma length_dec_digits [simp]: "length (dec_digits n p) = p"
  by (induction p arbitrary: n) simp_all

lemma dec_digits_zero: "dec_digits 0 p = replicate p 48"
  by (induction p) (simp_all add: replicate_append_same)

lemma uint_digits_result:
  assumes "num < 10 ^ pos" "take pos str = replicate pos 48" "pos \<le> length str"
  shows "uint_digits num pos str = Inr (dec_digits num pos @ drop pos str)"
  using assms
proof (induction pos arbitrary: num str)
  case 0
  then show ?case by (simp add: uint_digits.simps)
next
  case (Suc p)
  show ?case
  proof (cases "num = 0")
    case True
    then show ?thesis using Suc.prems(2) dec_digits_zero [of "Suc p"]
      by (subst uint_digits.simps) (metis append_take_drop_id)
  next
    case False
    let ?str = "str[p := 48 + of_nat (num mod 10)]"
    have "take p str = replicate p 48" using Suc.prems(2) by (metis le_add2 min.absorb1 plus_1_eq_Suc take_replicate take_take)
    then have "uint_digits (num div 10) p ?str = Inr (dec_digits (num div 10) p @ drop p ?str)"
      using Suc.prems by (intro Suc.IH) auto
    moreover have "drop p ?str = (48 + of_nat (num mod 10)) # drop (Suc p) str"
      using Suc.prems(3) by (simp add: drop_update_swap [symmetric] Cons_nth_drop_Suc [symmetric])
    ultimately show ?thesis using False by (subst uint_digits.simps) simp
  qed
qed

lemma uint_to_str_digits: "n < 10 ^ w \<Longrightarrow> uint_to_str n w = Inr (dec_digits n w)"
  using uint_digits_result [of n w "replicate w 48"] by (simp add: uint_to_str_def)

lemma dec_digits_nth: "d < w \<Longrightarrow> dec_digits n w ! (w - 1 - d) = 48 + of_nat (n div 10 ^ d mod 10)"
proof (induction w arbitrary: n d)
  case (Suc w)
  show ?case
  proof (cases d)
    case 0
    then show ?thesis by (simp add: nth_append)
  next
    case (Suc e)
    then have "dec_digits (n div 10) w ! (w - 1 - e) = 48 + of_nat (n div 10 div 10 ^ e mod 10)" using Suc.IH Suc.prems by simp
    then show ?thesis using Suc Suc.prems by (simp add: nth_append div_mult2_eq)
  qed
qed simp

lemma str_digits_result:
  assumes "w \<le> 9" "d \<le> w"
  shows "str_digits (dec_digits n w @ s) w d (w - 1 - d) (of_nat (n mod 10 ^ d)) (of_nat (n mod 10 ^ d)) (of_nat (10 ^ d)) =
    Some (of_nat (n mod 10 ^ w))"
  using assms(2)
proof (induction "w - d" arbitrary: d)
  case 0
  then show ?case by (subst str_digits.simps) simp
next
  case (Suc x)
  define c where "c = n div 10 ^ d mod 10"
  have d: "d < w" "d < 9" using Suc.hyps(2) assms(1) by simp_all
  have at: "(dec_digits n w @ s) ! (w - 1 - d) = 48 + of_nat c"
    using dec_digits_nth [OF d(1)] d(1) by (simp add: nth_append c_def)
  have c: "c < 10" by (simp add: c_def)
  have ch: "unat (48 + of_nat c :: u8) = 48 + c" using c by (simp add: unat_word_ariths unat_of_nat)
  have digit: "\<not> ((48 + of_nat c :: u8) < 48 \<or> (48 + of_nat c :: u8) > 57)"
    unfolding word_less_nat_alt ch using c by simp
  have val: "(ucast (48 + of_nat c :: u8) - 48 :: u32) = of_nat c"
  proof -
    have "(ucast (48 + of_nat c :: u8) :: u32) = of_nat (unat (48 + of_nat c :: u8))" by simp
    then show ?thesis unfolding ch by simp
  qed
  have step: "n mod 10 ^ d + 10 ^ d * c = n mod 10 ^ Suc d"
    unfolding c_def by (simp add: mod_mult2_eq mult.commute [of 10])
  have "10 ^ Suc d \<le> (10 :: nat) ^ 9" using d(2) by (intro power_increasing) simp_all
  moreover have "n mod 10 ^ Suc d < 10 ^ Suc d" by (rule mod_less_divisor) simp
  ultimately have "n mod 10 ^ Suc d < 10 ^ 9" by (rule less_le_trans [rotated])
  then have small: "n mod 10 ^ Suc d < 2 ^ 32" by (simp del: power_Suc)
  have num: "of_nat (n mod 10 ^ d) + of_nat (10 ^ d) * of_nat c = (of_nat (n mod 10 ^ Suc d) :: u32)"
    unfolding step [symmetric] by simp
  have "n mod 10 ^ d \<le> n mod 10 ^ Suc d" unfolding step [symmetric] by simp
  then have mono: "\<not> (of_nat (n mod 10 ^ Suc d) :: u32) < of_nat (n mod 10 ^ d)"
    using small by (simp add: word_less_nat_alt unat_of_nat del: power_Suc)
  have "(of_nat (10 ^ d) * 10 :: u32) = of_nat (10 ^ Suc d)" by simp
  then show ?case using Suc.hyps(1) [of "Suc d"] Suc.hyps(2) d digit mono
    by (subst str_digits.simps) (simp only: Let_def at val num if_False if_True simp_thms; simp add: diff_diff_left)
qed

lemma str_to_int_digits:
  assumes "0 < w" "w \<le> 9" "n < 10 ^ w"
  shows "str_to_int (dec_digits n w @ s) w = Some (int n)"
proof -
  have n: "n < 10 ^ 9" using assms(2,3) power_increasing [of w 9 "10 :: nat"] by simp
  have "str_to_uint (dec_digits n w @ s) w = Some (of_nat n)"
    using str_digits_result [OF assms(2), of 0 n s] assms(3) by (simp add: str_to_uint_def)
  moreover have "\<not> (of_nat n :: u32) > 2147483647" using n by (simp add: word_less_nat_alt unat_of_nat)
  moreover have "sint (of_nat n :: u32) = int n" using n by (simp add: signed_of_nat signed_take_bit_int_eq_self)
  ultimately show ?thesis by (simp add: str_to_int_def)
qed

section \<open>Fields\<close>

definition fields_ok :: "atcacert_tm_utc \<Rightarrow> bool" where
  "fields_ok ts \<longleftrightarrow> 0 \<le> tm_mon ts \<and> tm_mon ts \<le> 11 \<and> 1 \<le> tm_mday ts \<and> tm_mday ts \<le> 31 \<and>
     0 \<le> tm_hour ts \<and> tm_hour ts \<le> 23 \<and> 0 \<le> tm_min ts \<and> tm_min ts \<le> 59 \<and> 0 \<le> tm_sec ts \<and> tm_sec ts \<le> 59"

definition fields_text :: "u8 list \<Rightarrow> u8 list \<Rightarrow> u8 list \<Rightarrow> atcacert_tm_utc \<Rightarrow> u8 list" where
  "fields_text dash t colon ts =
     dec_digits (nat (tm_mon ts + 1)) 2 @ dash @ dec_digits (nat (tm_mday ts)) 2 @ t @ dec_digits (nat (tm_hour ts)) 2 @
     colon @ dec_digits (nat (tm_min ts)) 2 @ colon @ dec_digits (nat (tm_sec ts)) 2 @ [90]"

lemma enc_field_good: "num < 10 ^ w \<Longrightarrow> 0 \<le> num \<Longrightarrow> enc_field False num w sep k out = k (out @ dec_digits (nat num) w @ sep)"
  by (simp add: enc_field_def uint_to_str_digits nat_less_iff)

lemma enc_field_if:
  assumes "\<not> bad \<Longrightarrow> 0 \<le> num \<and> num < 10 ^ w"
  shows "enc_field bad num w sep k out =
    (if bad then Inr (ATCACERT_E_INVALID_DATE, out) else k (out @ dec_digits (nat num) w @ sep))"
proof (cases bad)
  case False
  then show ?thesis using enc_field_good assms by simp
qed (simp add: enc_field_def)

lemma enc_fields_good: "fields_ok ts \<Longrightarrow> enc_fields d t c ts out = Inr (ATCACERT_E_SUCCESS, out @ fields_text d t c ts)"
  by (simp add: enc_fields_def fields_ok_def fields_text_def enc_field_good not_less)

lemma enc_fields_bad:
  assumes "\<not> fields_ok ts"
  shows "\<exists>out'. enc_fields d t c ts out = Inr (ATCACERT_E_INVALID_DATE, out')"
proof -
  let ?e = "\<lambda>bad num sep k out. if bad then Inr (ATCACERT_E_INVALID_DATE, out) else k (out @ dec_digits (nat num) 2 @ sep)"
  have "enc_fields d t c ts out =
     ?e (tm_mon ts < 0 \<or> tm_mon ts > 11) (tm_mon ts + 1) d (
     ?e (tm_mday ts < 1 \<or> tm_mday ts > 31) (tm_mday ts) t (
     ?e (tm_hour ts < 0 \<or> tm_hour ts > 23) (tm_hour ts) c (
     ?e (tm_min ts < 0 \<or> tm_min ts > 59) (tm_min ts) c (
     ?e (tm_sec ts < 0 \<or> tm_sec ts > 59) (tm_sec ts) [90] (
     \<lambda>out. Inr (ATCACERT_E_SUCCESS, out)))))) out"
    unfolding enc_fields_def by (subst enc_field_if, simp)+ (rule refl)
  then show ?thesis using assms by (auto simp: fields_ok_def)
qed

lemma dec_sep_good [simp]: "dec_sep cs k (cs @ s) = k s"
  by (induction cs) simp_all

lemma dec_field_good: "0 < w \<Longrightarrow> w \<le> 9 \<Longrightarrow> n < 10 ^ w \<Longrightarrow> dec_field w k (dec_digits n w @ s) = k (int n) s"
  by (simp add: dec_field_def str_to_int_digits)

lemma dec_fields_good:
  assumes "fields_ok ts"
  shows "dec_fields d t c year (fields_text d t c ts) = Inr (ATCACERT_E_SUCCESS, Some (ts\<lparr>tm_year := year\<rparr>))"
proof -
  have "nat (tm_mon ts + 1) < 10 ^ 2" "nat (tm_mday ts) < 10 ^ 2" "nat (tm_hour ts) < 10 ^ 2" "nat (tm_min ts) < 10 ^ 2"
    "nat (tm_sec ts) < 10 ^ 2" using assms by (simp_all add: fields_ok_def nat_less_iff)
  moreover have "dec_sep [90] k [90] = k []" for k by simp
  ultimately show ?thesis using assms
    by (simp add: dec_fields_def fields_text_def dec_field_good fields_ok_def del: dec_digits.simps dec_sep.simps)
qed

lemma length_fields_text: "length (fields_text d t c ts) = 11 + length d + length t + 2 * length c"
  by (simp add: fields_text_def del: dec_digits.simps)

section \<open>Calendar seconds\<close>

text \<open>The seconds of the years before year \<open>1970 + n\<close>, and of the months before month \<open>m\<close>.\<close>

primrec year_sum :: "nat \<Rightarrow> nat" where
  "year_sum 0 = 0"
| "year_sum (Suc n) = year_sum n + unat (get_year_secs (1970 + int n))"

primrec month_sum :: "int \<Rightarrow> nat \<Rightarrow> nat" where
  "month_sum y 0 = 0"
| "month_sum y (Suc m) = month_sum y m + unat (get_month_secs y (int m))"

definition month_days :: "int \<Rightarrow> int \<Rightarrow> nat" where
  "month_days y m = (if m = 1 then (if is_leap_year y then 29 else 28) else if m \<in> {3, 5, 8, 10} then 30 else 31)"

lemma year_secs_cases: "unat (get_year_secs y) = (if is_leap_year y then 31622400 else 31536000)"
  by (simp add: get_year_secs_def)

lemma twelve: "m < (12 :: nat) \<Longrightarrow> m \<in> {0, 1, 2, 3, 4, 5, 6, 7, 8, 9, 10, 11}"
  by simp presburger

lemma month_secs_days: "m < 12 \<Longrightarrow> unat (get_month_secs y (int m)) = 86400 * month_days y (int m)"
  by (drule twelve) (auto simp: get_month_secs_def month_secs_def month_days_def)

lemma month_sum_year: "month_sum y 12 = unat (get_year_secs y)"
proof -
  have "month_sum y m = sum_list (map (\<lambda>k. unat (get_month_secs y (int k))) [0..<m])" for m by (induction m) simp_all
  moreover have "[0..<12] = [0, 1, 2, 3, 4, 5, 6, 7, 8, 9, 10, 11 :: nat]" by (simp add: upt_rec)
  ultimately show ?thesis by (simp add: get_month_secs_def month_secs_def year_secs_cases)
qed

lemma year_sum_mono: "n \<le> n' \<Longrightarrow> year_sum n \<le> year_sum n'"
  by (induction rule: dec_induct) simp_all

lemma month_sum_mono: "m \<le> m' \<Longrightarrow> month_sum y m \<le> month_sum y m'"
  by (induction rule: dec_induct) simp_all

text \<open>A sum of units with a rest below the next unit determines both.\<close>

lemma sum_unique:
  fixes f :: "nat \<Rightarrow> nat"
  assumes "\<And>n n'. n \<le> n' \<Longrightarrow> f n \<le> f n'" "f n + r = f n' + r'" "f n + r < f (Suc n)" "f n' + r' < f (Suc n')"
  shows "n = n' \<and> r = r'"
proof -
  have "\<not> n < n'" using assms(1) [of "Suc n" n'] assms(2,3) by auto
  moreover have "\<not> n' < n" using assms(1) [of "Suc n'" n] assms(2,4) by auto
  ultimately show ?thesis using assms(2) by simp
qed

lemma year_loop_result:
  "y = 1970 + int n \<Longrightarrow> year_loop s y = (s', y') \<Longrightarrow>
    \<exists>n'. y' = 1970 + int n' \<and> year_sum n + unat s = year_sum n' + unat s' \<and> unat s' < unat (get_year_secs y')"
proof (induction s y arbitrary: n rule: year_loop.induct)
  case (1 s y)
  show ?case
  proof (cases "get_year_secs y \<le> s")
    case True
    then have "year_loop (s - get_year_secs y) (y + 1) = (s', y')" using "1.prems"(2) by (subst (asm) year_loop.simps) simp
    from "1.IH" [OF True _ this, of "Suc n"] obtain n' where
      "y' = 1970 + int n'" "year_sum (Suc n) + unat (s - get_year_secs y) = year_sum n' + unat s'" "unat s' < unat (get_year_secs y')"
      using "1.prems"(1) by auto
    moreover have "unat (s - get_year_secs y) + unat (get_year_secs y) = unat s"
      using True by (simp add: unat_sub word_le_nat_alt)
    ultimately show ?thesis using "1.prems"(1) by auto
  next
    case False
    then show ?thesis using "1.prems" by (subst (asm) year_loop.simps) (auto simp: word_le_nat_alt)
  qed
qed

lemma month_loop_result:
  assumes "m \<le> 12" "month_sum y m + unat s < month_sum y 12"
  shows "\<exists>s' m'. month_loop s y (int m) = Some (s', int m') \<and> m' < 12 \<and> month_sum y m + unat s = month_sum y m' + unat s' \<and>
    unat s' < unat (get_month_secs y (int m'))"
  using assms
proof (induction "12 - m" arbitrary: m s)
  case 0
  then show ?case by simp
next
  case (Suc k)
  show ?case
  proof (cases "get_month_secs y (int m) \<le> s")
    case True
    let ?s = "s - get_month_secs y (int m)"
    have sub: "unat ?s + unat (get_month_secs y (int m)) = unat s" using True by (simp add: unat_sub word_le_nat_alt)
    then have "month_sum y (Suc m) + unat ?s < month_sum y 12" using Suc.prems(2) by simp
    moreover have "k = 12 - Suc m" "Suc m \<le> 12" using Suc.hyps(2) by simp_all
    ultimately obtain s' m' where "month_loop ?s y (int (Suc m)) = Some (s', int m') \<and> m' < 12 \<and>
        month_sum y (Suc m) + unat ?s = month_sum y m' + unat s' \<and> unat s' < unat (get_month_secs y (int m'))"
      using Suc.hyps(1) by blast
    moreover have "month_loop s y (int m) = month_loop ?s y (int (Suc m))"
      using True by (subst month_loop.simps) (simp add: add.commute)
    ultimately show ?thesis using sub by auto
  next
    case False
    then show ?thesis using Suc.hyps(2)
      by (subst month_loop.simps) (auto simp: word_le_nat_alt intro!: exI [of _ s] exI [of _ m])
  qed
qed

lemma fold_plus: "fold (\<lambda>y s. s + g y) xs a = a + sum_list (map g xs)" for g :: "'b \<Rightarrow> 'a :: comm_monoid_add"
  by (induction xs arbitrary: a) (simp_all add: ac_simps)

lemma year_fold: "fold (\<lambda>y s. s + get_year_secs y) (rev [1970..1970 + int n - 1]) 0 = of_nat (year_sum n)"
proof (induction n)
  case (Suc n)
  have "[1970..1970 + int (Suc n) - 1] = [1970..1970 + int n - 1] @ [1970 + int n]"
    using upto_rec2 [of 1970 "1970 + int n"] by simp
  then show ?case using Suc by (simp add: fold_plus)
qed (simp add: fold_plus)

lemma month_fold: "fold (\<lambda>m s. s + get_month_secs y m) (rev [0..int k - 1]) a = a + of_nat (month_sum y k)"
proof (induction k arbitrary: a)
  case (Suc k)
  have "[0..int (Suc k) - 1] = [0..int k - 1] @ [int k]"
    using upto_rec2 [of 0 "int k"] by simp
  then show ?case using Suc by (simp add: fold_plus ac_simps)
qed (simp add: fold_plus)

lemma year_sum_2106: "year_sum 136 = 4291747200" "year_sum 137 = 4323283200"
proof -
  have sum: "int (year_sum n) = sum_list (map (\<lambda>y. if is_leap_year y then 31622400 else 31536000) [1970..1969 + int n])" for n
  proof (induction n)
    case (Suc n)
    have "[1970..1969 + int (Suc n)] = [1970..1969 + int n] @ [1970 + int n]"
      using upto_rec2 [of 1970 "1970 + int n"] by simp
    then show ?case using Suc by (simp add: year_secs_cases)
  qed simp
  have "sum_list (map (\<lambda>y. if is_leap_year y then 31622400 else 31536000) [1970..2105]) = (4291747200 :: int)"
    "sum_list (map (\<lambda>y. if is_leap_year y then 31622400 else 31536000) [1970..2106]) = (4323283200 :: int)"
    by code_simp+
  with sum [of 136] sum [of 137] show "year_sum 136 = 4291747200" "year_sum 137 = 4323283200" by simp_all
qed

definition calendar :: "atcacert_tm_utc \<Rightarrow> bool" where
  "calendar ts \<longleftrightarrow> fields_ok ts \<and> 70 \<le> tm_year ts \<and> tm_mday ts \<le> int (month_days (tm_year ts + 1900) (tm_mon ts))"

definition posix_seconds :: "atcacert_tm_utc \<Rightarrow> nat" where
  "posix_seconds ts = year_sum (nat (tm_year ts - 70)) + (month_sum (tm_year ts + 1900) (nat (tm_mon ts)) +
     (86400 * nat (tm_mday ts - 1) + (3600 * nat (tm_hour ts) + (60 * nat (tm_min ts) + nat (tm_sec ts)))))"

lemma mkgmtime_seconds:
  assumes "fields_ok ts" "70 \<le> tm_year ts"
  shows "atcacert_mkgmtime32 ts = of_nat (posix_seconds ts)"
proof -
  obtain n where n: "tm_year ts = 70 + int n" using assms(2) by (metis zle_iff_zadd)
  obtain k where k: "tm_mon ts = int k" using assms(1) by (metis fields_ok_def nonneg_int_cases)
  have y: "tm_year ts + 1900 = 1970 + int n" "nat (tm_year ts - 70) = n" using n by simp_all
  have nn: "of_int (tm_mday ts - 1) = (of_nat (nat (tm_mday ts - 1)) :: u32)" "of_int (tm_hour ts) = (of_nat (nat (tm_hour ts)) :: u32)"
    "of_int (tm_min ts) = (of_nat (nat (tm_min ts)) :: u32)" "of_int (tm_sec ts) = (of_nat (nat (tm_sec ts)) :: u32)"
    using assms(1) unfolding fields_ok_def by (metis of_nat_nat of_int_of_nat_eq diff_ge_0_iff_ge)+
  show ?thesis
    unfolding atcacert_mkgmtime32_def posix_seconds_def Let_def y k year_fold month_fold nn nat_int of_nat_add of_nat_mult
    by (simp add: algebra_simps)
qed

text \<open>Days, hours, minutes and seconds.\<close>

lemma day_parts:
  fixes x :: nat
  shows "x = 86400 * (x div 86400) + (3600 * (x mod 86400 div 3600) + (60 * (x mod 86400 mod 3600 div 60) + x mod 86400 mod 3600 mod 60))"
    "x mod 86400 div 3600 < 24" "x mod 86400 mod 3600 div 60 < 60" "x mod 86400 mod 3600 mod 60 < 60"
proof -
  have "x mod 86400 < 3600 * 24" "x mod 86400 mod 3600 < 60 * 60" by simp_all
  then show "x mod 86400 div 3600 < 24" "x mod 86400 mod 3600 div 60 < 60" by (simp_all only: less_mult_imp_div_less mult.commute)
  show "x mod 86400 mod 3600 mod 60 < 60" by simp
  show "x = 86400 * (x div 86400) + (3600 * (x mod 86400 div 3600) + (60 * (x mod 86400 mod 3600 div 60) + x mod 86400 mod 3600 mod 60))"
    by (simp only: mult_div_mod_eq)
qed

lemma gmtime_seconds: "\<exists>ts. atcacert_gmtime32 t = Some ts \<and> calendar ts \<and> posix_seconds ts = unat t"
proof -
  obtain s y where yl: "year_loop t 1970 = (s, y)" by fastforce
  from year_loop_result [OF _ this, of 0] obtain n where
    n: "y = 1970 + int n" "unat t = year_sum n + unat s" "unat s < unat (get_year_secs y)" by auto
  have "month_sum y 0 + unat s < month_sum y 12" using n(3) month_sum_year by simp
  from month_loop_result [OF _ this] obtain r m where
    m: "month_loop s y 0 = Some (r, int m)" "m < 12" "unat s = month_sum y m + unat r" "unat r < unat (get_month_secs y (int m))"
    by auto
  let ?x = "unat r"
  have days: "?x div 86400 < month_days y (int m)" using m(4) unfolding month_secs_days [OF m(2)]
    by (simp add: less_mult_imp_div_less mult.commute)
  have "month_days y (int m) \<le> 31" by (simp add: month_days_def)
  note parts = day_parts [of ?x]
  define ts where "ts = \<lparr>tm_sec = int (?x mod 86400 mod 3600 mod 60), tm_min = int (?x mod 86400 mod 3600 div 60),
    tm_hour = int (?x mod 86400 div 3600), tm_mday = 1 + int (?x div 86400), tm_mon = int m, tm_year = y - 1900\<rparr>"
  have u: "uint a = int (unat a)" for a :: u32 by simp
  have "atcacert_gmtime32 t = Some ts"
    unfolding atcacert_gmtime32_def yl prod.case m(1) option.case Let_def ts_def u unat_div unat_mod by simp
  moreover have "calendar ts" using parts(2-4) days m(2) \<open>month_days y (int m) \<le> 31\<close>
    by (simp add: calendar_def fields_ok_def ts_def n(1) del: of_nat_mod of_nat_div)
  moreover have "posix_seconds ts = year_sum n + (month_sum y m + ?x)"
    unfolding posix_seconds_def ts_def using parts(1) n(1) by (simp del: of_nat_mod of_nat_div)
  ultimately show ?thesis using n(2) m(3) by auto
qed

text \<open>The last second of the format, in year 2106.\<close>

lemma last_second:
  fixes d h mi sec :: int
  assumes "86400 * d + (3600 * h + (60 * mi + sec)) \<le> 541695" "0 \<le> d" "0 \<le> h" "h \<le> 23" "0 \<le> mi" "mi \<le> 59" "0 \<le> sec" "sec \<le> 59"
  shows "(d > 6 \<or> d = 6 \<and> (h > 6 \<or> h = 6 \<and> (mi > 28 \<or> mi = 28 \<and> sec > 14))) \<longleftrightarrow>
    86400 * d + (3600 * h + (60 * mi + sec)) = 541695"
    (is "?late \<longleftrightarrow> ?sum = 541695")
proof
  assume ?late
  then show "?sum = 541695" using assms by (elim disjE conjE) linarith+
next
  assume e: "?sum = 541695"
  have d: "d = 6" using e assms by linarith
  have h: "h = 6" using e assms unfolding d by linarith
  have mi: "mi = 28" using e assms unfolding d h by linarith
  show ?late using e unfolding d h mi by simp
qed

definition late :: "atcacert_tm_utc \<Rightarrow> bool" where
  "late ts \<longleftrightarrow> tm_year ts + 1900 = 2106 \<and> (tm_mon ts > 1 \<or> tm_mon ts = 1 \<and> (tm_mday ts > 7 \<or> tm_mday ts = 7 \<and>
     (tm_hour ts > 6 \<or> tm_hour ts = 6 \<and> (tm_min ts > 28 \<or> tm_min ts = 28 \<and> tm_sec ts > 14))))"

lemma late_iff:
  assumes "calendar ts" "posix_seconds ts < 2 ^ 32"
  shows "tm_year ts + 1900 \<le> 2106" "late ts \<longleftrightarrow> posix_seconds ts = 2 ^ 32 - 1"
proof -
  define n k where "n = nat (tm_year ts - 70)" and "k = nat (tm_mon ts)"
  have n: "tm_year ts = 70 + int n" and k: "tm_mon ts = int k" and f: "fields_ok ts"
    using assms(1) by (simp_all add: calendar_def n_def k_def fields_ok_def)
  let ?d = "86400 * nat (tm_mday ts - 1) + (3600 * nat (tm_hour ts) + (60 * nat (tm_min ts) + nat (tm_sec ts)))"
  have s: "posix_seconds ts = year_sum n + (month_sum (1970 + int n) k + ?d)" by (simp add: posix_seconds_def n k)
  have "\<not> 137 \<le> n" using year_sum_mono [of 137 n] year_sum_2106(2) assms(2) s by auto
  then show "tm_year ts + 1900 \<le> 2106" using n by simp
  have lt: "posix_seconds ts < 4294967295" if "n < 136"
  proof -
    have "k < 12" using f k by (simp add: fields_ok_def)
    have "?d < 86400 * month_days (1970 + int n) (int k)" using assms(1) f n k by (auto simp: calendar_def fields_ok_def)
    then have "month_sum (1970 + int n) k + ?d < month_sum (1970 + int n) (Suc k)" by (simp add: month_secs_days [OF \<open>k < 12\<close>])
    also have "\<dots> \<le> month_sum (1970 + int n) 12" using \<open>k < 12\<close> by (intro month_sum_mono) simp
    finally have "posix_seconds ts < year_sum (Suc n)" unfolding s by (simp add: month_sum_year)
    also have "\<dots> \<le> year_sum 136" using that by (intro year_sum_mono) simp
    finally show ?thesis unfolding year_sum_2106 by simp
  qed
  have "month_sum 2106 0 = 0" "month_sum 2106 (Suc 0) = 2678400" "month_sum 2106 (Suc (Suc 0)) = 5097600"
    by (simp_all add: get_month_secs_def month_secs_def is_leap_year_def)
  then have m: "month_sum 2106 0 = 0" "month_sum 2106 1 = 2678400" "month_sum 2106 2 = 5097600"
    by (simp_all only: One_nat_def numeral_2_eq_2)
  show "late ts \<longleftrightarrow> posix_seconds ts = 2 ^ 32 - 1"
  proof (cases "n = 136")
    case False
    then have "n < 136" using \<open>\<not> 137 \<le> n\<close> by simp
    then show ?thesis using lt n by (simp add: late_def)
  next
    case True
    have "k < 2" using month_sum_mono [of 2 k 2106] m(3) assms(2) s unfolding True year_sum_2106 by (cases "2 \<le> k") simp_all
    have d: "int ?d = 86400 * (tm_mday ts - 1) + (3600 * tm_hour ts + (60 * tm_min ts + tm_sec ts))"
      using f by (simp add: fields_ok_def)
    show ?thesis
    proof (cases "k = 1")
      case one: True
      have x: "posix_seconds ts = 4294425600 + ?d" using s m(2) unfolding one True year_sum_2106 by simp
      have d541: "a + b < 2 ^ 32 \<Longrightarrow> a = 4294425600 \<Longrightarrow> int b \<le> 541695" for a b :: nat by simp
      have "int ?d \<le> 541695" by (rule d541 [of 4294425600, OF _ refl]) (use assms(2) x in \<open>simp only:\<close>)
      then have le: "86400 * (tm_mday ts - 1) + (3600 * tm_hour ts + (60 * tm_min ts + tm_sec ts)) \<le> 541695"
        unfolding d .
      have "late ts \<longleftrightarrow> 86400 * (tm_mday ts - 1) + (3600 * tm_hour ts + (60 * tm_min ts + tm_sec ts)) = 541695"
        using last_second [OF le] f n k one True by (simp add: late_def fields_ok_def)
      also have "\<dots> \<longleftrightarrow> int ?d = 541695" unfolding d ..
      also have "\<dots> \<longleftrightarrow> posix_seconds ts = 2 ^ 32 - 1"
      proof -
        have "(int b = 541695) = (4294425600 + b = 2 ^ 32 - 1)" for b :: nat by auto
        then show ?thesis unfolding x .
      qed
      finally show ?thesis .
    next
      case False
      then have "k = 0" using \<open>k < 2\<close> by simp
      moreover have "?d < 86400 * 31" using f by (auto simp: fields_ok_def)
      ultimately show ?thesis using s m(1) n k unfolding True year_sum_2106 by (simp add: late_def)
    qed
  qed
qed

lemma enc_posix_calendar:
  assumes "calendar ts" "posix_seconds ts < 2 ^ 32"
  shows "atcacert_date_enc_posix_uint32 ts =
    (if posix_seconds ts = 2 ^ 32 - 1 then (ATCACERT_E_INVALID_DATE, 0) else (ATCACERT_E_SUCCESS, of_nat (posix_seconds ts)))"
proof -
  have f: "fields_ok ts" "70 \<le> tm_year ts" using assms(1) by (simp_all add: calendar_def)
  have "atcacert_date_enc_posix_uint32 ts =
      (if late ts then (ATCACERT_E_INVALID_DATE, 0) else (ATCACERT_E_SUCCESS, atcacert_mkgmtime32 ts))"
    using late_iff(1) [OF assms] f unfolding atcacert_date_enc_posix_uint32_def Let_def late_def [symmetric]
    by (simp add: fields_ok_def)
  then show ?thesis unfolding late_iff(2) [OF assms] mkgmtime_seconds [OF f] .
qed

lemma quotient_unique:
  fixes k d y :: int
  assumes "k * d + y = k * d' + y'" "0 \<le> y" "y < k" "0 \<le> y'" "y' < k"
  shows "d = d' \<and> y = y'"
proof -
  have k: "k \<noteq> 0" using assms(2,3) by simp
  have "(k * d + y) div k = d" using div_mult_self4 [OF k, of d y] div_pos_pos_trivial [OF assms(2,3)] by simp
  moreover have "(k * d' + y') div k = d'" using div_mult_self4 [OF k, of d' y'] div_pos_pos_trivial [OF assms(4,5)] by simp
  ultimately show ?thesis using assms(1) by simp
qed

lemma parts_unique:
  fixes d h m x d' h' m' x' :: int
  assumes e: "86400 * (d - 1) + (3600 * h + (60 * m + x)) = 86400 * (d' - 1) + (3600 * h' + (60 * m' + x'))"
    and b: "0 \<le> h" "h \<le> 23" "0 \<le> m" "m \<le> 59" "0 \<le> x" "x \<le> 59" "0 \<le> h'" "h' \<le> 23" "0 \<le> m'" "m' \<le> 59" "0 \<le> x'" "x' \<le> 59"
  shows "d = d' \<and> h = h' \<and> m = m' \<and> x = x'"
proof -
  have d: "d - 1 = d' - 1 \<and> 3600 * h + (60 * m + x) = 3600 * h' + (60 * m' + x')"
    by (rule quotient_unique [OF e]) (use b in linarith)+
  then have h: "h = h' \<and> 60 * m + x = 60 * m' + x'"
    by (intro quotient_unique [of 3600]) (use b in \<open>linarith | simp\<close>)+
  then have "m = m' \<and> x = x'"
    by (intro quotient_unique [of 60]) (use b in \<open>linarith | simp\<close>)+
  then show ?thesis using d h by simp
qed

lemma posix_seconds_inj:
  assumes "calendar ts" "calendar ts'" "posix_seconds ts = posix_seconds ts'"
  shows "ts = ts'"
proof -
  have split: "\<exists>n k x. tm_year ts = 70 + int n \<and> tm_mon ts = int k \<and> k < 12 \<and> posix_seconds ts = year_sum n + (month_sum (1970 + int n) k + x) \<and>
      x = 86400 * nat (tm_mday ts - 1) + (3600 * nat (tm_hour ts) + (60 * nat (tm_min ts) + nat (tm_sec ts))) \<and>
      month_sum (1970 + int n) k + x < month_sum (1970 + int n) (Suc k) \<and> posix_seconds ts < year_sum (Suc n)"
    if c: "calendar ts" for ts
  proof -
    define n k x where "n = nat (tm_year ts - 70)" and "k = nat (tm_mon ts)" and
      "x = 86400 * nat (tm_mday ts - 1) + (3600 * nat (tm_hour ts) + (60 * nat (tm_min ts) + nat (tm_sec ts)))"
    have nk: "tm_year ts = 70 + int n" "tm_mon ts = int k" "k < 12"
      using c by (auto simp: calendar_def n_def k_def fields_ok_def)
    have s: "posix_seconds ts = year_sum n + (month_sum (1970 + int n) k + x)" by (simp add: posix_seconds_def nk x_def)
    have "x < 86400 * month_days (1970 + int n) (int k)" using c nk by (auto simp: calendar_def fields_ok_def x_def)
    then have m: "month_sum (1970 + int n) k + x < month_sum (1970 + int n) (Suc k)" by (simp add: month_secs_days [OF nk(3)])
    also have "\<dots> \<le> month_sum (1970 + int n) 12" using nk(3) by (intro month_sum_mono) simp
    finally have "posix_seconds ts < year_sum (Suc n)" unfolding s by (simp add: month_sum_year)
    with nk s m show ?thesis unfolding x_def by blast
  qed
  obtain n k x n' k' x' where
    a: "tm_year ts = 70 + int n" "tm_mon ts = int k" "posix_seconds ts = year_sum n + (month_sum (1970 + int n) k + x)"
      "x = 86400 * nat (tm_mday ts - 1) + (3600 * nat (tm_hour ts) + (60 * nat (tm_min ts) + nat (tm_sec ts)))"
      "month_sum (1970 + int n) k + x < month_sum (1970 + int n) (Suc k)" "posix_seconds ts < year_sum (Suc n)"
    and b: "tm_year ts' = 70 + int n'" "tm_mon ts' = int k'" "posix_seconds ts' = year_sum n' + (month_sum (1970 + int n') k' + x')"
      "x' = 86400 * nat (tm_mday ts' - 1) + (3600 * nat (tm_hour ts') + (60 * nat (tm_min ts') + nat (tm_sec ts')))"
      "month_sum (1970 + int n') k' + x' < month_sum (1970 + int n') (Suc k')" "posix_seconds ts' < year_sum (Suc n')"
    using split [OF assms(1)] split [OF assms(2)] by blast
  have y: "n = n' \<and> month_sum (1970 + int n) k + x = month_sum (1970 + int n') k' + x'"
    by (rule sum_unique [of year_sum, OF year_sum_mono]) (use a(3,6) b(3,6) assms(3) in simp_all)
  then have "month_sum (1970 + int n) k + x = month_sum (1970 + int n) k' + x'" by auto
  then have mo: "k = k' \<and> x = x'"
    using a(5) b(5) y sum_unique [of "month_sum (1970 + int n)" k x k' x', OF month_sum_mono] by (simp del: month_sum.simps)
  have f: "fields_ok ts" "fields_ok ts'" using assms by (simp_all add: calendar_def)
  have int_parts: "int (86400 * nat (tm_mday t - 1) + (3600 * nat (tm_hour t) + (60 * nat (tm_min t) + nat (tm_sec t)))) =
      86400 * (tm_mday t - 1) + (3600 * tm_hour t + (60 * tm_min t + tm_sec t))" if "fields_ok t" for t
    using that by (simp add: fields_ok_def)
  have "int x = int x'" using mo by simp
  then have "86400 * (tm_mday ts - 1) + (3600 * tm_hour ts + (60 * tm_min ts + tm_sec ts)) =
      86400 * (tm_mday ts' - 1) + (3600 * tm_hour ts' + (60 * tm_min ts' + tm_sec ts'))"
    unfolding a(4) b(4) int_parts [OF f(1)] int_parts [OF f(2)] .
  then have "tm_mday ts = tm_mday ts' \<and> tm_hour ts = tm_hour ts' \<and> tm_min ts = tm_min ts' \<and> tm_sec ts = tm_sec ts'"
    by (rule parts_unique) (use f in \<open>simp_all add: fields_ok_def\<close>)
  then show ?thesis using a b y mo by simp
qed

section \<open>Compressed dates\<close>

lemma compcert_masks:
  "bit (0x1F :: u8) n \<longleftrightarrow> n < 5" "bit (0x0F :: u8) n \<longleftrightarrow> n < 4" "bit (0x07 :: u8) n \<longleftrightarrow> n < 3" "bit (0x03 :: u8) n \<longleftrightarrow> n < 2"
  "bit (0xF8 :: u8) n \<longleftrightarrow> 3 \<le> n \<and> n < 8" "bit (0x83 :: u8) n \<longleftrightarrow> n < 2 \<or> n = 7" "bit (0xFC :: u8) n \<longleftrightarrow> 2 \<le> n \<and> n < 8"
  "bit (0xE0 :: u8) n \<longleftrightarrow> 5 \<le> n \<and> n < 8" "bit (0x80 :: u8) n \<longleftrightarrow> n = 7" "bit (0x7C :: u8) n \<longleftrightarrow> 2 \<le> n \<and> n < 7"
proof -
  let ?P = "\<lambda>n. (bit (0x1F :: u8) n \<longleftrightarrow> n < 5) \<and> (bit (0x0F :: u8) n \<longleftrightarrow> n < 4) \<and> (bit (0x07 :: u8) n \<longleftrightarrow> n < 3) \<and>
    (bit (0x03 :: u8) n \<longleftrightarrow> n < 2) \<and> (bit (0xF8 :: u8) n \<longleftrightarrow> 3 \<le> n \<and> n < 8) \<and> (bit (0x83 :: u8) n \<longleftrightarrow> n < 2 \<or> n = 7) \<and>
    (bit (0xFC :: u8) n \<longleftrightarrow> 2 \<le> n \<and> n < 8) \<and> (bit (0xE0 :: u8) n \<longleftrightarrow> 5 \<le> n \<and> n < 8) \<and> (bit (0x80 :: u8) n \<longleftrightarrow> n = 7) \<and>
    (bit (0x7C :: u8) n \<longleftrightarrow> 2 \<le> n \<and> n < 7)"
  have "list_all ?P [0..<8]" by code_simp
  then have "?P n" if "n < 8" using that unfolding list_all_iff by (metis (lifting) atLeastLessThan_iff set_upt zero_le)
  moreover have "?P n" if "\<not> n < 8" using that by simp
  ultimately have all: "?P n" by blast
  show "bit (0x1F :: u8) n \<longleftrightarrow> n < 5" "bit (0x0F :: u8) n \<longleftrightarrow> n < 4" "bit (0x07 :: u8) n \<longleftrightarrow> n < 3" "bit (0x03 :: u8) n \<longleftrightarrow> n < 2"
    "bit (0xF8 :: u8) n \<longleftrightarrow> 3 \<le> n \<and> n < 8" "bit (0x83 :: u8) n \<longleftrightarrow> n < 2 \<or> n = 7" "bit (0xFC :: u8) n \<longleftrightarrow> 2 \<le> n \<and> n < 8"
    "bit (0xE0 :: u8) n \<longleftrightarrow> 5 \<le> n \<and> n < 8" "bit (0x80 :: u8) n \<longleftrightarrow> n = 7" "bit (0x7C :: u8) n \<longleftrightarrow> 2 \<le> n \<and> n < 7"
    using all by blast+
qed

text \<open>The three bytes and their fields.\<close>

definition comp0 :: "u8 \<Rightarrow> u8 \<Rightarrow> u8" where
  "comp0 y m = (((0 AND 0x07) OR push_bit 3 (y AND 0x1F)) AND 0xF8) OR drop_bit 1 (m AND 0x0F)"
definition comp1 :: "u8 \<Rightarrow> u8 \<Rightarrow> u8 \<Rightarrow> u8" where
  "comp1 m d h = (((((0 AND 0x7F) OR push_bit 7 (m AND 0x0F)) AND 0x83) OR push_bit 2 (d AND 0x1F)) AND 0xFC) OR drop_bit 3 (h AND 0x1F)"
definition comp2 :: "u8 \<Rightarrow> u8 \<Rightarrow> u8" where
  "comp2 h e = (((0 AND 0x1F) OR push_bit 5 (h AND 0x1F)) AND 0xE0) OR (e AND 0x1F)"

lemmas comp_bits = bit_or_iff bit_push_bit_iff bit_drop_bit_eq bit_and_iff compcert_masks o_def bit_0_eq bot_apply bot_bool_def

lemma comp_fields:
  "drop_bit 3 (comp0 y m) = y AND 0x1F"
  "push_bit 1 (comp0 y m AND 0x07) OR drop_bit 7 (comp1 m d h AND 0x80) = m AND 0x0F"
  "drop_bit 2 (comp1 m d h AND 0x7C) = d AND 0x1F"
  "push_bit 3 (comp1 m d h AND 0x03) OR drop_bit 5 (comp2 h e AND 0xE0) = h AND 0x1F"
  "comp2 h e AND 0x1F = e AND 0x1F"
proof -
  have eq: "v = w \<longleftrightarrow> (\<forall>n \<in> set [0..<8]. bit v n = bit w n)" for v w :: u8
    by (auto intro: bit_word_eqI)
  show "drop_bit 3 (comp0 y m) = y AND 0x1F"
    "push_bit 1 (comp0 y m AND 0x07) OR drop_bit 7 (comp1 m d h AND 0x80) = m AND 0x0F"
    "drop_bit 2 (comp1 m d h AND 0x7C) = d AND 0x1F"
    "push_bit 3 (comp1 m d h AND 0x03) OR drop_bit 5 (comp2 h e AND 0xE0) = h AND 0x1F"
    "comp2 h e AND 0x1F = e AND 0x1F"
    unfolding comp0_def comp1_def comp2_def eq comp_bits by (simp_all add: upt_rec) (simp add: numeral_eq_Suc)
qed

lemma small_masks:
  "0 \<le> i \<Longrightarrow> i < 32 \<Longrightarrow> uint (of_int i AND 0x1F :: u8) = i" "0 \<le> i \<Longrightarrow> i < 16 \<Longrightarrow> uint (of_int i AND 0x0F :: u8) = i"
proof -
  have m: "w AND 0x1F = take_bit 5 (w :: u8)" "w AND 0x0F = take_bit 4 (w :: u8)" for w
    by (simp_all add: take_bit_eq_mask mask_eq_exp_minus_1)
  show "0 \<le> i \<Longrightarrow> i < 32 \<Longrightarrow> uint (of_int i AND 0x1F :: u8) = i" "0 \<le> i \<Longrightarrow> i < 16 \<Longrightarrow> uint (of_int i AND 0x0F :: u8) = i"
    unfolding m by (simp_all add: unsigned_take_bit_eq unsigned_of_int take_bit_int_eq_self)
qed

section \<open>Properties\<close>

text \<open>
  C36: Every number of seconds since 1970 is decoded, and the loops end, to the calendar date
  with that many seconds; that date is encoded to the number again, except the last one of
  32 bits. So the date that \<open>atcacert_date_get_max_date\<close> gives for the two POSIX formats
  is not accepted by their encoders.
\<close>

theorem posix_dates:
  "\<exists>ts. atcacert_date_dec_posix_uint32 t = Some (Inr (ATCACERT_E_SUCCESS, Some ts)) \<and> calendar ts \<and> posix_seconds ts = unat t \<and>
    atcacert_date_enc_posix_uint32 ts = (if t = 0xFFFFFFFF then (ATCACERT_E_INVALID_DATE, 0) else (ATCACERT_E_SUCCESS, t)) \<and>
    (t = 0xFFFFFFFF \<longrightarrow> ts = atcacert_date_get_max_date DATEFMT_POSIX_UINT32_BE)"
proof -
  obtain ts where ts: "atcacert_gmtime32 t = Some ts" "calendar ts" "posix_seconds ts = unat t" using gmtime_seconds by blast
  have lt: "posix_seconds ts < 2 ^ 32" unfolding ts(3) by (rule unat_u32_less)
  have t: "(t = 0xFFFFFFFF) = (unat t = 2 ^ 32 - 1)" by (simp add: word_unat_eq_iff)
  let ?m = "atcacert_date_get_max_date DATEFMT_POSIX_UINT32_BE"
  have "fields_ok ?m" "month_days 2106 1 = 28" "year_sum (nat 136) = 4291747200"
    using year_sum_2106(1) by (simp_all add: fields_ok_def month_days_def is_leap_year_def)
  moreover have "month_sum 2106 (nat 1) = 2678400" by (simp add: get_month_secs_def month_secs_def)
  ultimately have m: "calendar ?m" "posix_seconds ?m = 2 ^ 32 - 1" by (simp_all add: calendar_def posix_seconds_def)
  have "t = 0xFFFFFFFF \<Longrightarrow> ts = ?m" using posix_seconds_inj [OF ts(2) m(1)] ts(3) m(2) t by simp
  then show ?thesis using ts enc_posix_calendar [OF ts(2) lt] t by (simp add: atcacert_date_dec_posix_uint32_def)
qed

text \<open>The dates that a format holds.\<close>

fun valid_date :: "atcacert_date_format \<Rightarrow> atcacert_tm_utc \<Rightarrow> bool" where
  "valid_date DATEFMT_ISO8601_SEP ts = (fields_ok ts \<and> 0 \<le> tm_year ts + 1900 \<and> tm_year ts + 1900 \<le> 9999)"
| "valid_date DATEFMT_RFC5280_GEN ts = (fields_ok ts \<and> 0 \<le> tm_year ts + 1900 \<and> tm_year ts + 1900 \<le> 9999)"
| "valid_date DATEFMT_RFC5280_UTC ts = (fields_ok ts \<and> 1950 \<le> tm_year ts + 1900 \<and> tm_year ts + 1900 \<le> 2049)"
| "valid_date _ ts = (calendar ts \<and> posix_seconds ts < 2 ^ 32 - 1)"

lemma posix_roundtrip:
  assumes "calendar ts" "posix_seconds ts < 2 ^ 32 - 1"
  shows "atcacert_date_enc_posix_uint32 ts = (ATCACERT_E_SUCCESS, of_nat (posix_seconds ts))"
    "atcacert_date_dec_posix_uint32 (of_nat (posix_seconds ts)) = Some (Inr (ATCACERT_E_SUCCESS, Some ts))"
proof -
  show "atcacert_date_enc_posix_uint32 ts = (ATCACERT_E_SUCCESS, of_nat (posix_seconds ts))"
    using enc_posix_calendar [OF assms(1)] assms(2) by simp
  obtain ts' where ts': "atcacert_gmtime32 (of_nat (posix_seconds ts)) = Some ts'" "calendar ts'"
    "posix_seconds ts' = unat (of_nat (posix_seconds ts) :: u32)" using gmtime_seconds by blast
  moreover have "unat (of_nat (posix_seconds ts) :: u32) = posix_seconds ts" using assms(2) by (simp add: unat_of_nat)
  ultimately have "ts' = ts" using posix_seconds_inj [OF ts'(2) assms(1)] by simp
  then show "atcacert_date_dec_posix_uint32 (of_nat (posix_seconds ts)) = Some (Inr (ATCACERT_E_SUCCESS, Some ts))"
    using ts'(1) by (simp add: atcacert_date_dec_posix_uint32_def)
qed

theorem posix_dates_witness:
  "atcacert_date_enc_posix_uint32 (atcacert_date_get_max_date DATEFMT_POSIX_UINT32_BE) = (ATCACERT_E_INVALID_DATE, 0)"
  using posix_dates [of "0xFFFFFFFF"] by auto


definition leap_day :: atcacert_tm_utc where
  "leap_day = \<lparr>tm_sec = 7, tm_min = 8, tm_hour = 23, tm_mday = 29, tm_mon = 1, tm_year = 100\<rparr>"


text \<open>The dates of a compressed certificate; an expiry of 0 years stands for the last date of the format.\<close>

lemma compcert_roundtrip:
  assumes "100 \<le> tm_year ts" "tm_year ts \<le> 131" "0 \<le> tm_mon ts" "tm_mon ts \<le> 11" "1 \<le> tm_mday ts" "tm_mday ts \<le> 31"
    and "0 \<le> tm_hour ts" "tm_hour ts \<le> 23" "tm_min ts = 0" "tm_sec ts = 0" "years \<le> 31"
  shows "\<exists>enc. atcacert_date_enc_compcert ts years = (ATCACERT_E_SUCCESS, enc) \<and>
    atcacert_date_dec_compcert enc fmt =
      (ts, if years = 0 then atcacert_date_get_max_date fmt else ts\<lparr>tm_year := tm_year ts + uint years\<rparr>)"
proof -
  let ?y = "of_int (tm_year ts + 1900 - 2000) :: u8" and ?m = "of_int (tm_mon ts + 1) :: u8"
  let ?d = "of_int (tm_mday ts) :: u8" and ?h = "of_int (tm_hour ts) :: u8"
  have enc: "atcacert_date_enc_compcert ts years = (ATCACERT_E_SUCCESS, [comp0 ?y ?m, comp1 ?m ?d ?h, comp2 ?h years])"
    using assms by (simp add: atcacert_date_enc_compcert_def comp0_def comp1_def comp2_def Let_def not_less not_le)
  have e: "uint (years AND 0x1F) = uint years"
    using small_masks(1) [of "uint years"] assms(11) by (simp add: word_le_def)
  have f: "uint (?y AND 0x1F) = tm_year ts - 100" "uint (?m AND 0x0F) = tm_mon ts + 1" "uint (?d AND 0x1F) = tm_mday ts"
    "uint (?h AND 0x1F) = tm_hour ts"
    using assms by (simp_all only: small_masks)
  have z: "(uint years \<noteq> 0) = (years \<noteq> 0)" by (simp add: uint_0_iff)
  have i: "tm_zero\<lparr>tm_year := tm_year ts - 100 + 2000 - 1900, tm_mon := tm_mon ts + 1 - 1, tm_mday := tm_mday ts, tm_hour := tm_hour ts\<rparr> = ts"
    using assms(9,10) by (simp add: tm_zero_def)
  have "atcacert_date_dec_compcert [comp0 ?y ?m, comp1 ?m ?d ?h, comp2 ?h years] fmt =
      (ts, if years = 0 then atcacert_date_get_max_date fmt else ts\<lparr>tm_year := tm_year ts + uint years\<rparr>)"
    unfolding atcacert_date_dec_compcert.simps comp_fields f e Let_def i z
    using assms(9,10) by (auto simp: tm_zero_def)
  then show ?thesis unfolding enc by blast
qed

end
