(* ===== verification/CertDer.thy ===== *)
theory CertDer
  imports CertDate
begin

text \<open>
  The DER encoding of lengths, integers and ECDSA signatures
  (\<open>libatca/atcacert/atcacert_der.c\<close>). An input buffer is the list of the bytes its size names.
  An output buffer may be absent (a null pointer: the caller asks for the size only); it has a
  length and the size the caller says it has, and writing beyond its length is a fault. The
  pointers to the sizes and to the input are there, a raw signature has 64 bytes. A size is a
  natural number below the wrap of \<open>size_t\<close>.
\<close>

section \<open>Lengths\<close>

text \<open>The search for the first octet that is not zero: for a length from 128 on there is one.\<close>

primrec first_octet :: "u32 \<Rightarrow> nat \<Rightarrow> nat" where
  "first_octet len 0 = 0"
| "first_octet len (Suc e) = (if len div push_bit (8 * Suc e) 1 = 0 then first_octet len e else Suc e)"

primrec put_octets :: "nat \<Rightarrow> nat \<Rightarrow> u32 \<Rightarrow> u8 list \<Rightarrow> fault + u8 list" where
  "put_octets 0 calc len buf = Inr buf"
| "put_octets (Suc e) calc len buf =
     if_inr (put_at (calc - 1 - e) [ucast (drop_bit (e * 8) len AND 0xFF)] buf) (put_octets e calc len)"

definition atcacert_der_enc_length ::
    "u32 \<Rightarrow> u8 list option \<Rightarrow> nat \<Rightarrow> fault + (int \<times> u8 list option \<times> nat)" where
  "atcacert_der_enc_length len der_length der_length_size =
     (let exp = (if len < 0x80 then 0 else first_octet len 3);
          calc = (if len < 0x80 then 1 else 2 + exp)
      in case der_length of
           None \<Rightarrow> Inr (ATCACERT_E_SUCCESS, None, calc)
         | Some buf \<Rightarrow>
             if der_length_size < calc then Inr (ATCACERT_E_BUFFER_TOO_SMALL, Some buf, calc)
             else if_inr (put_octets (Suc exp) calc len buf) (\<lambda>buf.
               if_inr (if calc > 1 then put_at 0 [0x80 OR of_nat (calc - 1)] buf else Inr buf) (\<lambda>buf.
               Inr (ATCACERT_E_SUCCESS, Some buf, calc))))"

text \<open>Reading a byte or a part of a buffer. The status of the decoder comes with the length and the size it has read.\<close>

definition read_at :: "nat \<Rightarrow> u8 list \<Rightarrow> (u8 \<Rightarrow> fault + 'a) \<Rightarrow> fault + 'a" where
  "read_at i buf k = (if i < length buf then k (buf ! i) else Inl OutOfBounds)"

definition read_part :: "nat \<Rightarrow> nat \<Rightarrow> u8 list \<Rightarrow> (u8 list \<Rightarrow> fault + 'a) \<Rightarrow> fault + 'a" where
  "read_part i n buf k = (if i + n \<le> length buf then k (take n (drop i buf)) else Inl OutOfBounds)"

primrec get_octets :: "nat \<Rightarrow> nat \<Rightarrow> u8 list \<Rightarrow> u32 \<Rightarrow> fault + u32" where
  "get_octets 0 num der_length len = Inr len"
| "get_octets (Suc n) num der_length len =
     (let i = num - n
      in read_at i der_length (\<lambda>b. get_octets n num der_length (len + ucast b * push_bit (8 * (num - i)) 1)))"

definition atcacert_der_dec_length :: "u8 list \<Rightarrow> fault + (int \<times> u32 option \<times> nat)" where
  "atcacert_der_dec_length der_length =
     (let sz = length der_length
      in if sz < 1 then Inr (ATCACERT_E_DECODING_ERROR, None, sz)
         else read_at 0 der_length (\<lambda>b.
           if b AND 0x80 \<noteq> 0
           then let num_bytes = unat (b AND 0x7F)
                in if sz < num_bytes + 1 then Inr (ATCACERT_E_DECODING_ERROR, None, sz)
                   else if num_bytes = 0 then Inr (ATCACERT_E_DECODING_ERROR, None, sz)
                   else if num_bytes > 4 then Inr (ATCACERT_E_DECODING_ERROR, None, sz)
                   else if_inr (get_octets num_bytes num_bytes der_length 0) (\<lambda>len.
                     Inr (ATCACERT_E_SUCCESS, Some len, num_bytes + 1))
           else Inr (ATCACERT_E_SUCCESS, Some (ucast b), 1)))"

text \<open>
  The length at the start of a buffer is changed in place. The result: the status, the new
  length if it was computed, the buffer and the size of its length. The room for the new
  encoding is a local array of five bytes, whose contents do not matter.
\<close>

definition atcacert_der_adjust_length ::
    "u8 list \<Rightarrow> 32 word \<Rightarrow> fault + (int \<times> u32 option \<times> u8 list \<times> nat)" where
  "atcacert_der_adjust_length der_length delta_length =
     if_inr (atcacert_der_dec_length der_length) (\<lambda>(ret, dec, der_length_size).
       case dec of
         None \<Rightarrow> Inr (ret, None, der_length, der_length_size)
       | Some old_len \<Rightarrow>
           if sint delta_length < 0 \<and> (scast (- delta_length) :: 64 word) > ucast old_len
           then Inr (ATCACERT_E_ERROR, None, der_length, der_length_size)
           else
             let new_len = old_len + delta_length
             in if_inr (atcacert_der_enc_length new_len (Some (replicate 5 0)) 5) (\<lambda>(ret, new_der, new_size).
               if ret \<noteq> ATCACERT_E_SUCCESS then Inr (ret, Some new_len, der_length, der_length_size)
               else if der_length_size \<noteq> new_size then Inr (ATCACERT_E_BAD_CERT, Some new_len, der_length, der_length_size)
               else if_inr (put_at 0 (take new_size (the new_der)) der_length) (\<lambda>der_length.
                 Inr (0, Some new_len, der_length, der_length_size))))"

section \<open>Integers\<close>

text \<open>Bytes are trimmed while the upper nine bits are all zeros or all ones.\<close>

function der_trim :: "u8 list \<Rightarrow> nat \<Rightarrow> nat" where
  "der_trim int_data trim =
     (if length int_data - trim \<ge> 2 \<and>
         (int_data ! trim = 0x00 \<and> int_data ! (trim + 1) AND 0x80 = 0 \<or>
          int_data ! trim = 0xFF \<and> int_data ! (trim + 1) AND 0x80 \<noteq> 0)
      then der_trim int_data (trim + 1) else trim)"
  by pat_completeness auto
termination
  by (relation "measure (\<lambda>(d, t). length d - t)") auto

declare der_trim.simps [simp del]

definition atcacert_der_enc_integer ::
    "u8 list \<Rightarrow> bool \<Rightarrow> u8 list option \<Rightarrow> nat \<Rightarrow> fault + (int \<times> u8 list option \<times> nat)" where
  "atcacert_der_enc_integer int_data is_unsigned der_int der_int_size =
     (if int_data = [] then Inr (ATCACERT_E_BAD_PARAMS, der_int, der_int_size)
      else
        let pad = (if \<not> (is_unsigned \<and> int_data ! 0 AND 0x80 \<noteq> 0) then 0 else 1);
            trim = (if \<not> (is_unsigned \<and> int_data ! 0 AND 0x80 \<noteq> 0) then der_trim int_data 0 else 0)
        in if_inr (atcacert_der_enc_length (of_nat (length int_data + pad - trim)) (Some (replicate 5 0)) 5)
             (\<lambda>(ret, der_length, der_length_size).
             if ret \<noteq> ATCACERT_E_SUCCESS then Inr (ret, der_int, der_int_size)
             else
               let calc = 1 + der_length_size + length int_data + pad - trim
               in case der_int of
                    None \<Rightarrow> Inr (ATCACERT_E_SUCCESS, None, calc)
                  | Some buf \<Rightarrow>
                      if calc > der_int_size then Inr (ATCACERT_E_BUFFER_TOO_SMALL, Some buf, calc)
                      else if_inr (put_at 0 [0x02] buf) (\<lambda>buf.
                        if_inr (put_at 1 (take der_length_size (the der_length)) buf) (\<lambda>buf.
                        if_inr (if pad \<noteq> 0 then put_at (der_length_size + 1) [0] buf else Inr buf) (\<lambda>buf.
                        if_inr (put_at (der_length_size + 1 + pad) (drop trim int_data) buf) (\<lambda>buf.
                        Inr (ATCACERT_E_SUCCESS, Some buf, calc)))))))"

text \<open>
  The result of the decoder: its status, the size of the encoding, the buffer and the size of
  the integer (which the caller may not ask for).
\<close>

type_synonym decoded_int = "int \<times> nat \<times> u8 list option \<times> nat option"

definition atcacert_der_dec_integer ::
    "u8 list \<Rightarrow> u8 list option \<Rightarrow> nat option \<Rightarrow> fault + decoded_int" where
  "atcacert_der_dec_integer der_int int_data int_data_size =
     (let sz = length der_int
      in if int_data \<noteq> None \<and> int_data_size = None then Inr (ATCACERT_E_BAD_PARAMS, sz, int_data, int_data_size)
         else if sz < 1 then Inr (ATCACERT_E_DECODING_ERROR, sz, int_data, int_data_size)
         else read_at 0 der_int (\<lambda>tag.
           if tag \<noteq> 0x02 then Inr (ATCACERT_E_DECODING_ERROR, sz, int_data, int_data_size)
           else if_inr (atcacert_der_dec_length (drop 1 der_int)) (\<lambda>(ret, dec, der_length_size).
             case dec of
               None \<Rightarrow> Inr (ret, sz, int_data, int_data_size)
             | Some calc \<Rightarrow>
                 if sz < 1 + der_length_size + unat calc
                 then Inr (ATCACERT_E_DECODING_ERROR, sz, int_data, int_data_size)
                 else
                   let der_int_size = 1 + der_length_size + unat calc
                   in case (int_data, int_data_size) of
                        (Some buf, Some n) \<Rightarrow>
                          if n < unat calc then Inr (ATCACERT_E_BUFFER_TOO_SMALL, der_int_size, Some buf, Some (unat calc))
                          else read_part (1 + der_length_size) (unat calc) der_int (\<lambda>c.
                            if_inr (put_at 0 c buf) (\<lambda>buf.
                            Inr (ATCACERT_E_SUCCESS, der_int_size, Some buf, Some (unat calc))))
                      | (None, Some n) \<Rightarrow> Inr (ATCACERT_E_SUCCESS, der_int_size, None, Some (unat calc))
                      | _ \<Rightarrow> Inr (ATCACERT_E_SUCCESS, der_int_size, int_data, int_data_size))))"

section \<open>Signatures\<close>

text \<open>A write into a buffer from its byte \<open>i\<close> on.\<close>

definition at_offset ::
    "nat \<Rightarrow> u8 list \<Rightarrow> (u8 list option \<Rightarrow> fault + (int \<times> u8 list option \<times> nat)) \<Rightarrow> fault + (int \<times> u8 list \<times> nat)" where
  "at_offset i buf f =
     (if length buf < i then Inl OutOfBounds
      else if_inr (f (Some (drop i buf))) (\<lambda>(ret, rest, n). Inr (ret, take i buf @ the rest, n)))"

definition atcacert_der_enc_ecdsa_sig_value ::
    "u8 list \<Rightarrow> u8 list option \<Rightarrow> nat \<Rightarrow> fault + (int \<times> u8 list option \<times> nat)" where
  "atcacert_der_enc_ecdsa_sig_value raw_sig der_sig der_sig_size =
     if_inr (atcacert_der_enc_integer (take 32 raw_sig) True None 0) (\<lambda>(ret, _, r_size).
       if ret \<noteq> ATCACERT_E_SUCCESS then Inr (ret, der_sig, der_sig_size)
       else if_inr (atcacert_der_enc_integer (take 32 (drop 32 raw_sig)) True None 0) (\<lambda>(ret, _, s_size).
         if ret \<noteq> ATCACERT_E_SUCCESS then Inr (ret, der_sig, der_sig_size)
         else
           let calc = 5 + r_size + s_size
           in case der_sig of
                None \<Rightarrow> Inr (ATCACERT_E_SUCCESS, None, calc)
              | Some buf \<Rightarrow>
                  if der_sig_size < calc then Inr (ATCACERT_E_BUFFER_TOO_SMALL, Some buf, calc)
                  else if_inr (put_at 0 [0x03, of_nat (calc - 2), 0x00, 0x30, of_nat (calc - 5)] buf) (\<lambda>buf.
                    if_inr (at_offset 5 buf (\<lambda>p. atcacert_der_enc_integer (take 32 raw_sig) True p r_size))
                      (\<lambda>(ret, buf, r_size).
                      if ret \<noteq> ATCACERT_E_SUCCESS then Inr (ret, Some buf, calc)
                      else if_inr (at_offset (5 + r_size) buf (\<lambda>p.
                          atcacert_der_enc_integer (take 32 (drop 32 raw_sig)) True p s_size))
                        (\<lambda>(ret, buf, s_size).
                        if ret \<noteq> ATCACERT_E_SUCCESS then Inr (ret, Some buf, calc)
                        else Inr (ATCACERT_E_SUCCESS, Some buf, calc))))))"

text \<open>
  The decoder: the expected tag at an index, a length that stays in the buffer, and an integer
  put right-aligned before byte \<open>e\<close> of the raw signature. An error leaves the size as it was.
\<close>

type_synonym decoded_sig = "fault + (int \<times> nat \<times> u8 list option)"

definition expect_at :: "u8 list \<Rightarrow> nat \<Rightarrow> u8 \<Rightarrow> u8 list option \<Rightarrow> decoded_sig \<Rightarrow> decoded_sig" where
  "expect_at der_sig idx tag raw k =
     (if idx \<ge> length der_sig then Inr (ATCACERT_E_DECODING_ERROR, length der_sig, raw)
      else read_at idx der_sig (\<lambda>b.
        if b \<noteq> tag then Inr (ATCACERT_E_DECODING_ERROR, length der_sig, raw) else k))"

definition length_at :: "u8 list \<Rightarrow> nat \<Rightarrow> u8 list option \<Rightarrow> (u32 \<Rightarrow> nat \<Rightarrow> decoded_sig) \<Rightarrow> decoded_sig" where
  "length_at der_sig idx raw k =
     if_inr (atcacert_der_dec_length (drop idx der_sig)) (\<lambda>(ret, dec, dec_size).
       case dec of
         None \<Rightarrow> Inr (ret, length der_sig, raw)
       | Some len \<Rightarrow>
           let idx = idx + dec_size
           in if idx + unat len > length der_sig then Inr (ATCACERT_E_DECODING_ERROR, length der_sig, raw)
              else k len idx)"

definition place_integer ::
    "nat \<Rightarrow> nat \<Rightarrow> u8 list \<Rightarrow> nat \<Rightarrow> u8 list option \<Rightarrow> (u8 list option \<Rightarrow> decoded_sig) \<Rightarrow> decoded_sig" where
  "place_integer sz e int_data n raw k =
     (if n \<le> 32
      then (case raw of
             None \<Rightarrow> k None
           | Some r \<Rightarrow> read_part 0 n int_data (\<lambda>c. if_inr (put_at (e - n) c r) (\<lambda>r. k (Some r))))
      else if n = 33
      then read_at 0 int_data (\<lambda>b.
             if b \<noteq> 0x00 then Inr (ATCACERT_E_DECODING_ERROR, sz, raw)
             else case raw of
                 None \<Rightarrow> k None
               | Some r \<Rightarrow> read_part 1 32 int_data (\<lambda>c. if_inr (put_at (e - 32) c r) (\<lambda>r. k (Some r))))
      else Inr (ATCACERT_E_DECODING_ERROR, sz, raw))"

definition integer_at ::
    "u8 list \<Rightarrow> nat \<Rightarrow> u8 list \<Rightarrow> u8 list option \<Rightarrow> (nat \<Rightarrow> u8 list \<Rightarrow> nat \<Rightarrow> decoded_sig) \<Rightarrow> decoded_sig" where
  "integer_at der_sig idx int_data raw k =
     (if idx \<ge> length der_sig then Inr (ATCACERT_E_DECODING_ERROR, length der_sig, raw)
      else if_inr (atcacert_der_dec_integer (drop idx der_sig) (Some int_data) (Some 33)) (\<lambda>(ret, r_size, buf, n).
        if ret \<noteq> ATCACERT_E_SUCCESS then Inr (ret, length der_sig, raw)
        else k r_size (the buf) (the n)))"

definition atcacert_der_dec_ecdsa_sig_value :: "u8 list \<Rightarrow> u8 list option \<Rightarrow> decoded_sig" where
  "atcacert_der_dec_ecdsa_sig_value der_sig raw_sig =
     (let sz = length der_sig
      in expect_at der_sig 0 0x03 raw_sig (
         length_at der_sig 1 raw_sig (\<lambda>bs_length idx.
         expect_at der_sig idx 0x00 raw_sig (
         expect_at der_sig (idx + 1) 0x30 raw_sig (
         if idx + 2 \<ge> sz then Inr (ATCACERT_E_DECODING_ERROR, sz, raw_sig)
         else length_at der_sig (idx + 2) raw_sig (\<lambda>seq_length idx.
         integer_at der_sig idx (replicate 33 0) raw_sig (\<lambda>r_size int_data n.
         place_integer sz 32 int_data n (map_option (\<lambda>_. replicate 64 0) raw_sig) (\<lambda>raw_sig.
         integer_at der_sig (idx + r_size) int_data raw_sig (\<lambda>s_size int_data n.
         place_integer sz 64 int_data n raw_sig (\<lambda>raw_sig.
         if unat seq_length \<noteq> r_size + s_size then Inr (ATCACERT_E_DECODING_ERROR, sz, raw_sig)
         else if unat bs_length \<noteq> r_size + s_size + 3 then Inr (ATCACERT_E_DECODING_ERROR, sz, raw_sig)
         else Inr (ATCACERT_E_SUCCESS, idx + r_size + s_size, raw_sig)))))))))))"

end
