(* ===== verification/CertDerFacts.thy ===== *)
theory CertDerFacts
  imports CertDer
begin

text \<open>
  The DER routines of \<open>CertDer\<close> against X.690: what the encoders write, what the decoders
  accept, that these read and write within their buffers, and the round trips.
\<close>

section \<open>The octets of a length\<close>

text \<open>
  X.690, 8.1.3: a length below 128 is one octet; a longer one is the number of the octets of
  its big-endian representation, with the upper bit set, and these octets.
\<close>

function be_octets :: "nat \<Rightarrow> u8 list" where
  "be_octets n = (if n = 0 then [] else be_octets (n div 256) @ [of_nat n])"
  by pat_completeness auto
termination
  by (relation "measure id") auto

declare be_octets.simps [simp del]

definition der_octets :: "nat \<Rightarrow> u8 list" where
  "der_octets n = (if n < 128 then [of_nat n] else of_nat (128 + length (be_octets n)) # be_octets n)"

lemma be_octets_zero [simp]: "be_octets 0 = []"
  by (simp add: be_octets.simps)

lemma be_octets_step: "0 < n \<Longrightarrow> be_octets n = be_octets (n div 256) @ [of_nat n]"
  by (subst be_octets.simps) simp

text \<open>The four cases of a long length.\<close>

lemma be_octets_cases:
  assumes "0 < n" "n < 2 ^ 32"
  shows "n < 2 ^ 8 \<and> be_octets n = [of_nat n] \<or>
    2 ^ 8 \<le> n \<and> n < 2 ^ 16 \<and> be_octets n = [of_nat (n div 2 ^ 8), of_nat n] \<or>
    2 ^ 16 \<le> n \<and> n < 2 ^ 24 \<and> be_octets n = [of_nat (n div 2 ^ 16), of_nat (n div 2 ^ 8), of_nat n] \<or>
    2 ^ 24 \<le> n \<and> be_octets n =
      [of_nat (n div 2 ^ 24), of_nat (n div 2 ^ 16), of_nat (n div 2 ^ 8), of_nat n]"
proof -
  have parts: "n div 256 div 256 = n div 65536" "n div 65536 div 256 = n div 16777216"
    by (simp_all flip: div_mult2_eq)
  consider "n < 2 ^ 8" | "2 ^ 8 \<le> n" "n < 2 ^ 16" | "2 ^ 16 \<le> n" "n < 2 ^ 24" | "2 ^ 24 \<le> n" by linarith
  then show ?thesis
  proof cases
    case 1
    then have "n div 256 = 0" by simp
    then show ?thesis using 1 assms by (simp add: be_octets_step)
  next
    case 2
    then have "0 < n div 256" "n div 256 div 256 = 0" by (simp_all add: div_greater_zero_iff)
    then show ?thesis using 2 assms by (simp add: be_octets_step)
  next
    case 3
    then have "0 < n div 256" "0 < n div 2 ^ 16" "n div 2 ^ 16 div 256 = 0"
      by (simp_all add: div_greater_zero_iff)
    then show ?thesis using 3 assms by (simp add: be_octets_step parts)
  next
    case 4
    then have "0 < n div 256" "0 < n div 2 ^ 16" "0 < n div 2 ^ 24" "n div 2 ^ 24 div 256 = 0"
      using assms(2) by (simp_all add: div_greater_zero_iff)
    then show ?thesis using 4 assms by (simp add: be_octets_step parts)
  qed
qed

lemma first_octet_length:
  assumes "128 \<le> unat L"
  shows "length (be_octets (unat L)) = Suc (first_octet L 3)"
proof -
  have div: "L div w = 0 \<longleftrightarrow> unat L < unat w" if "0 < unat w" for w :: u32
    using that by (metis div_eq_0_iff neq0_conv unat_div unsigned_eq_0_iff)
  have L: "unat L < 2 ^ 32" using unat_u32_less [of L] by simp
  have "first_octet L 3 = (if unat L < 2 ^ 24 then if unat L < 2 ^ 16 then if unat L < 2 ^ 8 then 0 else 1 else 2 else 3)"
    using div [of 256] div [of 65536] div [of 16777216] by (simp add: numeral_3_eq_3)
  then show ?thesis using be_octets_cases [OF _ L] assms by auto
qed

lemma length_octet: "(ucast (drop_bit k (L :: u32) AND 0xFF) :: u8) = of_nat (unat L div 2 ^ k)"
proof -
  have byte: "(0xFF :: u32) = mask 8" by (simp add: mask_eq_exp_minus_1)
  have "(of_nat (unat L div 2 ^ k) :: u8) = of_nat (unat (drop_bit k L))"
    unfolding unat_drop_bit_eq by (simp only: drop_bit_eq_div)
  also have "\<dots> = ucast (drop_bit k L)" by (rule of_nat_unat)
  also have "\<dots> = ucast (drop_bit k L AND 0xFF)"
    unfolding byte by (rule bit_word_eqI) (auto simp: bit_simps)
  finally show ?thesis by simp
qed


lemma put_at_one: "i < length buf \<Longrightarrow> put_at i [x] buf = Inr (buf[i := x])"
  by (simp add: put_at_def memcpy_at_def upd_conv_take_nth_drop)

lemma length_der_octets: "n < 2 ^ 32 \<Longrightarrow> 0 < length (der_octets n) \<and> length (der_octets n) \<le> 5"
  using be_octets_cases [of n] by (auto simp: der_octets_def)

lemma small_length: "(L :: u32) < 0x80 \<longleftrightarrow> unat L < 128"
  by (simp add: word_less_nat_alt)

theorem enc_length_octets:
  "atcacert_der_enc_length L None sz = Inr (ATCACERT_E_SUCCESS, None, length (der_octets (unat L)))"
  "sz < length (der_octets (unat L)) \<Longrightarrow>
     atcacert_der_enc_length L (Some buf) sz = Inr (ATCACERT_E_BUFFER_TOO_SMALL, Some buf, length (der_octets (unat L)))"
  "\<lbrakk>length (der_octets (unat L)) \<le> sz; length (der_octets (unat L)) \<le> length buf\<rbrakk> \<Longrightarrow>
     atcacert_der_enc_length L (Some buf) sz =
       Inr (ATCACERT_E_SUCCESS, Some (memcpy_at 0 (der_octets (unat L)) buf), length (der_octets (unat L)))"
proof -
  define e where "e = (if L < 0x80 then 0 else first_octet L 3)"
  define calc where "calc = (if L < 0x80 then 1 else 2 + e)"
  have calc: "length (der_octets (unat L)) = calc"
    using first_octet_length [of L] by (simp add: der_octets_def calc_def e_def small_length)
  note enc = atcacert_der_enc_length_def Let_def
  have fold: "atcacert_der_enc_length L p sz = (case p of
           None \<Rightarrow> Inr (ATCACERT_E_SUCCESS, None, calc)
         | Some buf \<Rightarrow>
             if sz < calc then Inr (ATCACERT_E_BUFFER_TOO_SMALL, Some buf, calc)
             else if_inr (put_octets (Suc e) calc L buf) (\<lambda>buf.
               if_inr (if calc > 1 then put_at 0 [0x80 OR of_nat (calc - 1)] buf else Inr buf) (\<lambda>buf.
               Inr (ATCACERT_E_SUCCESS, Some buf, calc))))" for p
    unfolding enc calc_def e_def by simp
  show "atcacert_der_enc_length L None sz = Inr (ATCACERT_E_SUCCESS, None, length (der_octets (unat L)))"
    "sz < length (der_octets (unat L)) \<Longrightarrow>
     atcacert_der_enc_length L (Some buf) sz = Inr (ATCACERT_E_BUFFER_TOO_SMALL, Some buf, length (der_octets (unat L)))"
    unfolding fold calc by simp_all
  assume room: "length (der_octets (unat L)) \<le> sz" "length (der_octets (unat L)) \<le> length buf"
  have L: "unat L < 2 ^ 32" by (rule unat_u32_less)
  have octets: "(ucast (L AND 0xFF) :: u8) = of_nat (unat L)"
    "(ucast (drop_bit 8 L AND 0xFF) :: u8) = of_nat (unat L div 2 ^ 8)"
    "(ucast (drop_bit 16 L AND 0xFF) :: u8) = of_nat (unat L div 2 ^ 16)"
    "(ucast (drop_bit 24 L AND 0xFF) :: u8) = of_nat (unat L div 2 ^ 24)"
    using length_octet [of 0 L] by (simp_all only: length_octet drop_bit_0 id_apply div_by_1 power_0)
  consider "L < 0x80" "e = 0" | "\<not> L < 0x80" "e = 0" "unat L < 2 ^ 8" "be_octets (unat L) = [of_nat (unat L)]"
    | "\<not> L < 0x80" "e = 1" "be_octets (unat L) = [of_nat (unat L div 2 ^ 8), of_nat (unat L)]"
    | "\<not> L < 0x80" "e = 2" "be_octets (unat L) = [of_nat (unat L div 2 ^ 16), of_nat (unat L div 2 ^ 8), of_nat (unat L)]"
    | "\<not> L < 0x80" "e = 3" "be_octets (unat L) =
        [of_nat (unat L div 2 ^ 24), of_nat (unat L div 2 ^ 16), of_nat (unat L div 2 ^ 8), of_nat (unat L)]"
    using be_octets_cases [OF _ L] first_octet_length [of L]
    by (cases "L < 0x80") (auto simp: e_def small_length)
  then show "atcacert_der_enc_length L (Some buf) sz =
       Inr (ATCACERT_E_SUCCESS, Some (memcpy_at 0 (der_octets (unat L)) buf), length (der_octets (unat L)))"
  proof cases
    case 1
    then show ?thesis using room octets unfolding fold
      by (auto simp: calc calc_def put_at_def memcpy_at_def der_octets_def small_length)
  next
    case 2
    then have "2 \<le> length buf" using room by (simp add: calc calc_def)
    then obtain a b bs where "buf = a # b # bs" by (auto simp: numeral_2_eq_2 Suc_le_length_iff)
    then show ?thesis using 2 room octets unfolding fold
      by (simp add: calc calc_def put_at_def memcpy_at_def der_octets_def small_length)
  next
    case 3
    then have "3 \<le> length buf" using room by (simp add: calc calc_def)
    then obtain a b c bs where "buf = a # b # c # bs" by (auto simp: numeral_3_eq_3 Suc_le_length_iff)
    then show ?thesis using 3 room octets unfolding fold
      by (simp add: calc calc_def put_at_def memcpy_at_def der_octets_def small_length)
  next
    case 4
    then have "4 \<le> length buf" using room by (simp add: calc calc_def)
    then obtain a b c d bs where "buf = a # b # c # d # bs" by (auto simp: eval_nat_numeral Suc_le_length_iff)
    then show ?thesis using 4 room octets unfolding fold
      by (simp add: calc calc_def put_at_def memcpy_at_def der_octets_def small_length numeral_2_eq_2)
  next
    case 5
    then have "5 \<le> length buf" using room by (simp add: calc calc_def)
    then obtain a b c d f bs where "buf = a # b # c # d # f # bs" by (auto simp: eval_nat_numeral Suc_le_length_iff)
    then show ?thesis using 5 room octets unfolding fold
      by (simp add: calc calc_def put_at_def memcpy_at_def der_octets_def small_length numeral_3_eq_3)
  qed
qed


section \<open>Reading a length\<close>

lemma upper_bit: "(b :: u8) AND 0x80 = 0 \<longleftrightarrow> unat b < 128"
proof -
  have byte: "unat b < 256" by (rule order_less_le_trans [OF unsigned_less]) simp
  have "b AND 0x80 \<noteq> 0 \<longleftrightarrow> bit b 7" using and_exp_iff_bit [of b 7] by simp
  then have "b AND 0x80 = 0 \<longleftrightarrow> \<not> bit b 7" by blast
  also have "bit b 7 \<longleftrightarrow> bit (unat b) 7" by (simp add: bit_unsigned_iff)
  also have "(\<not> bit (unat b) 7) \<longleftrightarrow> even (unat b div 128)" by (simp add: bit_iff_odd)
  also have "\<dots> \<longleftrightarrow> unat b < 128"
  proof (cases "unat b < 128")
    case False
    then have "unat b div 128 = 1" using byte by (intro div_nat_eqI) auto
    then show ?thesis using False by simp
  qed simp
  finally show ?thesis .
qed

lemma low_bits: "unat ((b :: u8) AND 0x7F) = unat b mod 128"
proof -
  have "(0x7F :: u8) = mask 7" by (simp add: mask_eq_exp_minus_1)
  then have "unat (b AND 0x7F) = take_bit 7 (unat b)"
    by (simp only: flip: take_bit_eq_mask) (simp add: unsigned_take_bit_eq)
  then show ?thesis by (simp add: take_bit_eq_mod)
qed

text \<open>
  What the decoder accepts: the long form of X.690 with up to four octets, which need not be the
  shortest one.
\<close>

definition be_value :: "u8 list \<Rightarrow> nat" where
  "be_value bs = foldl (\<lambda>v b. 256 * v + unat b) 0 bs"

definition ber_length :: "u8 list \<Rightarrow> nat \<Rightarrow> bool" where
  "ber_length l n \<longleftrightarrow> (case l of [] \<Rightarrow> False
     | b # os \<Rightarrow> if unat b < 128 then os = [] \<and> n = unat b
                else unat b = 128 + length os \<and> 0 < length os \<and> length os \<le> 4 \<and> n = be_value os)"

lemma get_octets_steps:
  "get_octets 2 = get_octets (Suc (Suc 0))" "get_octets 3 = get_octets (Suc (Suc (Suc 0)))"
  "get_octets 4 = get_octets (Suc (Suc (Suc (Suc 0))))"
  by (simp_all add: eval_nat_numeral)

lemma long_lengths:
  assumes "0 < length (os :: u8 list)" "length os \<le> 4"
  obtains a where "os = [a]" | a b where "os = [a, b]" | a b c where "os = [a, b, c]"
    | a b c d where "os = [a, b, c, d]"
proof -
  have "length os = 1 \<or> length os = 2 \<or> length os = 3 \<or> length os = 4" using assms by linarith
  then show ?thesis using that by (auto simp: eval_nat_numeral length_Suc_conv)
qed

lemma ber_length_bound: "ber_length l n \<Longrightarrow> n < 2 ^ 32"
proof -
  assume l: "ber_length l n"
  have byte: "unat (b :: u8) < 256" for b by (rule order_less_le_trans [OF unsigned_less]) simp
  obtain b os where "l = b # os" using l by (cases l) (auto simp: ber_length_def)
  show ?thesis
  proof (cases "unat b < 128")
    case True
    then show ?thesis using l by (auto simp: ber_length_def \<open>l = b # os\<close>)
  next
    case False
    then have os: "0 < length os" "length os \<le> 4" "n = be_value os"
      using l by (auto simp: ber_length_def \<open>l = b # os\<close>)
    then show ?thesis
    proof (cases rule: long_lengths [OF os(1,2)])
      case (1 a)
      then show ?thesis using os(3) byte [of a] by (simp add: be_value_def)
    next
      case (2 a b)
      then show ?thesis using os(3) byte [of a] byte [of b] by (simp add: be_value_def)
    next
      case (3 a b c)
      then show ?thesis using os(3) byte [of a] byte [of b] byte [of c] by (simp add: be_value_def)
    next
      case (4 a b c d)
      then show ?thesis using os(3) byte [of a] byte [of b] byte [of c] byte [of d] by (simp add: be_value_def)
    qed
  qed
qed

lemma get_octets_value:
  assumes "0 < length os" "length os \<le> 4"
  shows "get_octets (length os) (length os) (b # os @ xs) 0 = Inr (of_nat (be_value os))"
  by (cases rule: long_lengths [OF assms]) (simp_all add: read_at_def be_value_def get_octets_steps)

lemma dec_length_ber:
  assumes "ber_length l n"
  shows "atcacert_der_dec_length (l @ xs) = Inr (ATCACERT_E_SUCCESS, Some (of_nat n), length l)"
proof -
  obtain b os where l: "l = b # os" using assms by (cases l) (auto simp: ber_length_def)
  show ?thesis
  proof (cases "unat b < 128")
    case True
    then show ?thesis using assms by (simp add: ber_length_def l atcacert_der_dec_length_def read_at_def upper_bit)
  next
    case False
    then have os: "unat b = 128 + length os" "0 < length os" "length os \<le> 4" "n = be_value os"
      using assms by (auto simp: ber_length_def l)
    then have num: "unat (b AND 0x7F) = length os" by (simp add: low_bits)
    show ?thesis using False os get_octets_value [OF os(2,3)]
      by (simp add: atcacert_der_dec_length_def l read_at_def upper_bit num)
  qed
qed

text \<open>Any bytes start with such a length, which is decoded, or are rejected.\<close>

lemma dec_length_cases:
  obtains l n xs where "ber_length l n" "bs = l @ xs"
      "atcacert_der_dec_length bs = Inr (ATCACERT_E_SUCCESS, Some (of_nat n), length l)"
    | "atcacert_der_dec_length bs = Inr (ATCACERT_E_DECODING_ERROR, None, length bs)"
proof (cases bs)
  case Nil
  then show ?thesis using that(2) by (simp add: atcacert_der_dec_length_def)
next
  case (Cons b cs)
  define k where "k = unat (b AND 0x7F)"
  show ?thesis
  proof (cases "unat b < 128 \<or> k \<le> length cs \<and> 0 < k \<and> k \<le> 4")
    case True
    define l where "l = (if unat b < 128 then [b] else b # take k cs)"
    define n where "n = (if unat b < 128 then unat b else be_value (take k cs))"
    have "unat b < 256" by (rule order_less_le_trans [OF unsigned_less]) simp
    then have "\<not> unat b < 128 \<Longrightarrow> unat b = 128 + k" by (auto simp: k_def low_bits mod_if)
    then have "ber_length l n" using True by (auto simp: ber_length_def l_def n_def)
    moreover have "bs = l @ (if unat b < 128 then cs else drop k cs)" by (simp add: Cons l_def)
    ultimately show ?thesis using that(1) dec_length_ber by metis
  next
    case False
    then have "atcacert_der_dec_length bs = Inr (ATCACERT_E_DECODING_ERROR, None, length bs)"
      by (auto simp: Cons atcacert_der_dec_length_def read_at_def upper_bit k_def Let_def)
    then show ?thesis by (rule that(2))
  qed
qed

lemma ber_length_octets:
  assumes "n < 2 ^ 32"
  shows "ber_length (der_octets n) n"
proof (cases "n < 128")
  case True
  then show ?thesis by (simp add: ber_length_def der_octets_def unat_of_nat)
next
  case False
  have sum: "n div 16777216 mod 256 * 16777216 + n div 65536 mod 256 * 65536 + n div 256 mod 256 * 256 + n mod 256 = n"
    by (rule base256_4 [OF assms])
  show ?thesis using be_octets_cases [of n] False assms sum
    by (auto simp: ber_length_def der_octets_def unat_of_nat be_value_def)
qed

theorem dec_length_octets:
  assumes "n < 2 ^ 32"
  shows "atcacert_der_dec_length (der_octets n @ xs) = Inr (ATCACERT_E_SUCCESS, Some (of_nat n), length (der_octets n))"
  by (rule dec_length_ber [OF ber_length_octets [OF assms]])

section \<open>The octets of an integer\<close>

text \<open>X.690, 8.3: the tag, the length and the contents.\<close>

definition der_contents :: "bool \<Rightarrow> u8 list \<Rightarrow> u8 list" where
  "der_contents is_unsigned d =
     (if is_unsigned \<and> d ! 0 AND 0x80 \<noteq> 0 then 0 # d else drop (der_trim d 0) d)"

definition der_integer :: "u8 list \<Rightarrow> u8 list" where
  "der_integer c = 0x02 # der_octets (length c) @ c"

lemma der_trim_less: "t < length d \<Longrightarrow> t \<le> der_trim d t \<and> der_trim d t < length d"
proof (induction d t rule: der_trim.induct)
  case (1 d t)
  show ?case
  proof (cases "length d - t \<ge> 2 \<and> (d ! t = 0x00 \<and> d ! (t + 1) AND 0x80 = 0 \<or> d ! t = 0xFF \<and> d ! (t + 1) AND 0x80 \<noteq> 0)")
    case True
    then have "der_trim d t = der_trim d (t + 1)" by (subst der_trim.simps) (simp only: True simp_thms if_True)
    moreover have "t + 1 < length d" using True by linarith
    ultimately show ?thesis using 1(1) [OF True] by linarith
  next
    case False
    then have "der_trim d t = t" by (subst der_trim.simps) (simp only: if_False)
    then show ?thesis using 1 by simp
  qed
qed

lemma memcpy_at_next:
  "i + length xs + length ys \<le> length buf \<Longrightarrow>
     memcpy_at (i + length xs) ys (memcpy_at i xs buf) = memcpy_at i (xs @ ys) buf"
  by (simp add: memcpy_at_def ac_simps)

lemma put_at_next:
  "\<lbrakk>j = i + length xs; i + length xs + length ys \<le> length buf\<rbrakk> \<Longrightarrow>
     put_at j ys (memcpy_at i xs buf) = Inr (memcpy_at i (xs @ ys) buf)"
  by (simp add: put_at_def memcpy_at_next)

lemma put_at_first: "length xs \<le> length buf \<Longrightarrow> put_at 0 xs buf = Inr (memcpy_at 0 xs buf)"
  by (simp add: put_at_def)

theorem enc_integer_octets:
  fixes d :: "u8 list" and u :: bool
  assumes "d \<noteq> []" "length d < 2 ^ 32 - 1"
  defines "c \<equiv> der_contents u d"
  shows "atcacert_der_enc_integer d u None sz = Inr (ATCACERT_E_SUCCESS, None, length (der_integer c))"
  "sz < length (der_integer c) \<Longrightarrow>
     atcacert_der_enc_integer d u (Some buf) sz = Inr (ATCACERT_E_BUFFER_TOO_SMALL, Some buf, length (der_integer c))"
  "\<lbrakk>length (der_integer c) \<le> sz; length (der_integer c) \<le> length buf\<rbrakk> \<Longrightarrow>
     atcacert_der_enc_integer d u (Some buf) sz =
       Inr (ATCACERT_E_SUCCESS, Some (memcpy_at 0 (der_integer c) buf), length (der_integer c))"
proof -
  define padded where "padded \<longleftrightarrow> u \<and> d ! 0 AND 0x80 \<noteq> 0"
  define pad where "pad = (if \<not> padded then 0 else 1 :: nat)"
  define trim where "trim = (if \<not> padded then der_trim d 0 else 0)"
  have trim: "trim < length d" using der_trim_less [of 0 d] assms(1) by (simp add: trim_def)
  have c: "c = replicate pad 0 @ drop trim d"
    by (simp add: c_def der_contents_def pad_def trim_def padded_def)
  have len: "length c = length d + pad - trim" using trim by (simp add: c)
  have bound: "length c < 2 ^ 32" using assms(2) unfolding len by (simp add: pad_def) linarith
  define oc where "oc = der_octets (length c)"
  have unat: "unat (of_nat (length c) :: u32) = length c" using bound by (simp add: unat_of_nat)
  have oc5: "length oc \<le> 5" using length_der_octets [OF bound] by (simp add: oc_def)
  have enc: "atcacert_der_enc_length (of_nat (length c)) (Some (replicate 5 0)) 5 =
      Inr (ATCACERT_E_SUCCESS, Some (memcpy_at 0 oc (replicate 5 0)), length oc)"
    using enc_length_octets(3) [of "of_nat (length c)" 5 "replicate 5 0"] oc5 by (simp add: unat oc_def)
  have all: "length (der_integer c) = 1 + length oc + length d + pad - trim"
    using trim by (simp add: der_integer_def oc_def len)
  have fold: "atcacert_der_enc_integer d u p sz = (case p of
        None \<Rightarrow> Inr (ATCACERT_E_SUCCESS, None, length (der_integer c))
      | Some buf \<Rightarrow>
          if length (der_integer c) > sz then Inr (ATCACERT_E_BUFFER_TOO_SMALL, Some buf, length (der_integer c))
          else if_inr (put_at 0 [0x02] buf) (\<lambda>buf.
            if_inr (put_at 1 oc buf) (\<lambda>buf.
            if_inr (if pad \<noteq> 0 then put_at (length oc + 1) [0] buf else Inr buf) (\<lambda>buf.
            if_inr (put_at (length oc + 1 + pad) (drop trim d) buf) (\<lambda>buf.
            Inr (ATCACERT_E_SUCCESS, Some buf, length (der_integer c)))))))" for p
    unfolding atcacert_der_enc_integer_def Let_def padded_def [symmetric] pad_def [symmetric] trim_def [symmetric]
      len [symmetric] enc all
    using assms(1) by (simp cong: if_cong option.case_cong)
  show "atcacert_der_enc_integer d u None sz = Inr (ATCACERT_E_SUCCESS, None, length (der_integer c))"
    "sz < length (der_integer c) \<Longrightarrow>
     atcacert_der_enc_integer d u (Some buf) sz = Inr (ATCACERT_E_BUFFER_TOO_SMALL, Some buf, length (der_integer c))"
    unfolding fold by simp_all
  assume room: "length (der_integer c) \<le> sz" "length (der_integer c) \<le> length buf"
  have n: "length (der_integer c) = 1 + length oc + pad + length (drop trim d)"
    using trim by (simp add: all)
  have image: "der_integer c = (([0x02] @ oc) @ replicate pad 0) @ drop trim d"
    by (simp add: der_integer_def oc_def c)
  have pad1: "pad \<noteq> 0 \<Longrightarrow> pad = 1" by (simp add: pad_def split: if_splits)
  show "atcacert_der_enc_integer d u (Some buf) sz =
       Inr (ATCACERT_E_SUCCESS, Some (memcpy_at 0 (der_integer c) buf), length (der_integer c))"
    using room pad1 unfolding fold n image
    by (cases "pad = 0") (simp_all add: put_at_first put_at_next del: append.simps)
qed


definition ber_integer :: "u8 list \<Rightarrow> u8 list \<Rightarrow> bool" where
  "ber_integer e c \<longleftrightarrow> (\<exists>l. ber_length l (length c) \<and> e = 0x02 # l @ c)"

lemma ber_der_integer: "length c < 2 ^ 32 \<Longrightarrow> ber_integer (der_integer c) c"
  using ber_length_octets [of "length c"] by (auto simp: ber_integer_def der_integer_def)

theorem dec_integer_ber:
  assumes "ber_integer e c"
  shows "n < length c \<Longrightarrow> atcacert_der_dec_integer (e @ xs) (Some buf) (Some n) =
      Inr (ATCACERT_E_BUFFER_TOO_SMALL, length e, Some buf, Some (length c))"
  "\<lbrakk>length c \<le> n; length c \<le> length buf\<rbrakk> \<Longrightarrow> atcacert_der_dec_integer (e @ xs) (Some buf) (Some n) =
      Inr (ATCACERT_E_SUCCESS, length e, Some (memcpy_at 0 c buf), Some (length c))"
proof -
  obtain l where l: "ber_length l (length c)" "e = 0x02 # l @ c" using assms by (auto simp: ber_integer_def)
  have unat: "unat (of_nat (length c) :: u32) = length c" using ber_length_bound [OF l(1)] by (simp add: unat_of_nat)
  note dec = dec_length_ber [OF l(1), of "c @ xs"]
  show "n < length c \<Longrightarrow> atcacert_der_dec_integer (e @ xs) (Some buf) (Some n) =
      Inr (ATCACERT_E_BUFFER_TOO_SMALL, length e, Some buf, Some (length c))"
    "\<lbrakk>length c \<le> n; length c \<le> length buf\<rbrakk> \<Longrightarrow> atcacert_der_dec_integer (e @ xs) (Some buf) (Some n) =
      Inr (ATCACERT_E_SUCCESS, length e, Some (memcpy_at 0 c buf), Some (length c))"
    by (simp_all add: atcacert_der_dec_integer_def l(2) read_at_def read_part_def dec unat put_at_first)
qed

lemma dec_integer_cases:
  assumes "length buf = 33"
  obtains e c xs where "ber_integer e c" "bs = e @ xs" "length c \<le> 33"
      "atcacert_der_dec_integer bs (Some buf) (Some 33) =
         Inr (ATCACERT_E_SUCCESS, length e, Some (memcpy_at 0 c buf), Some (length c))"
    | ret m k where "ret \<noteq> ATCACERT_E_SUCCESS" "m \<le> length bs"
      "atcacert_der_dec_integer bs (Some buf) (Some 33) = Inr (ret, m, Some buf, Some k)"
proof (cases "\<exists>cs. bs = 0x02 # cs")
  case True
  then obtain cs where bs: "bs = 0x02 # cs" ..
  show ?thesis
  proof (cases rule: dec_length_cases [of cs])
    case (1 l n xs)
    have unat: "unat (of_nat n :: u32) = n" using ber_length_bound [OF 1(1)] by (simp add: unat_of_nat)
    show ?thesis
    proof (cases "n \<le> length xs")
      case True
      define c where "c = take n xs"
      have "length c = n" using True by (simp add: c_def)
      then have e: "ber_integer (0x02 # l @ c) c" "bs = (0x02 # l @ c) @ drop n xs"
        using 1(1,2) by (simp_all add: ber_integer_def bs c_def)
      show ?thesis
      proof (cases "length c \<le> 33")
        case True
        then show ?thesis using that(1) [OF e True] dec_integer_ber(2) [OF e(1), of 33 buf "drop n xs"] assms
          by (simp add: e(2))
      next
        case False
        then show ?thesis
          using that(2) [of ATCACERT_E_BUFFER_TOO_SMALL "length (0x02 # l @ c)" "length c"]
            dec_integer_ber(1) [OF e(1), of 33 "drop n xs" buf] by (simp add: e(2) cert_codes)
      qed
    next
      case False
      then have "atcacert_der_dec_integer bs (Some buf) (Some 33) =
          Inr (ATCACERT_E_DECODING_ERROR, length bs, Some buf, Some 33)"
        using 1(2,3) by (simp add: atcacert_der_dec_integer_def bs read_at_def unat)
      then show ?thesis by (intro that(2)) (simp_all add: cert_codes)
    qed
  next
    case 2
    then have "atcacert_der_dec_integer bs (Some buf) (Some 33) =
        Inr (ATCACERT_E_DECODING_ERROR, length bs, Some buf, Some 33)"
      by (simp add: atcacert_der_dec_integer_def bs read_at_def)
    then show ?thesis by (intro that(2)) (simp_all add: cert_codes)
  qed
next
  case False
  then have "atcacert_der_dec_integer bs (Some buf) (Some 33) =
      Inr (ATCACERT_E_DECODING_ERROR, length bs, Some buf, Some 33)"
    by (cases bs) (auto simp: atcacert_der_dec_integer_def read_at_def)
  then show ?thesis by (intro that(2)) (simp_all add: cert_codes)
qed

section \<open>Signatures: the round trip\<close>

lemma der_trim_zeros:
  "\<lbrakk>t < length d; d ! t AND 0x80 = 0\<rbrakk> \<Longrightarrow> \<forall>i. t \<le> i \<and> i < der_trim d t \<longrightarrow> d ! i = 0"
proof (induction d t rule: der_trim.induct)
  case (1 d t)
  show ?case
  proof (cases "length d - t \<ge> 2 \<and> d ! t = 0x00 \<and> d ! (t + 1) AND 0x80 = 0")
    case True
    then have "der_trim d t = der_trim d (t + 1)" by (subst der_trim.simps) simp
    moreover have "\<forall>i. t + 1 \<le> i \<and> i < der_trim d (t + 1) \<longrightarrow> d ! i = 0"
      using True by (intro 1(1)) auto
    ultimately show ?thesis using True by (metis Suc_eq_plus1 not_less_eq_eq order_antisym)
  next
    case False
    have "d ! t \<noteq> 0xFF" using 1(3) by auto
    then have "der_trim d t = t" using False by (subst der_trim.simps) auto
    then show ?thesis by auto
  qed
qed

text \<open>The contents of an unsigned integer of 32 bytes: without leading zeros, or with a zero.\<close>

definition fits32 :: "u8 list \<Rightarrow> u8 list \<Rightarrow> bool" where
  "fits32 c d \<longleftrightarrow> length d = 32 \<and> (c = 0 # d \<or> length c \<le> 32 \<and> replicate (32 - length c) 0 @ c = d)"

lemma fits32_small: "fits32 c d \<Longrightarrow> length c \<le> 33"
  by (auto simp: fits32_def)

lemma contents_aligned:
  assumes "length d = 32"
  defines "c \<equiv> der_contents True d"
  shows "0 < length c \<and> fits32 c d"
proof (cases "d ! 0 AND 0x80 = 0")
  case True
  define t where "t = der_trim d 0"
  have t: "t < 32" using der_trim_less [of 0 d] assms(1) by (simp add: t_def)
  have zeros: "\<forall>i < t. d ! i = 0" using der_trim_zeros [of 0 d] True assms(1) by (simp add: t_def)
  have c: "c = drop t d" using True by (simp add: c_def der_contents_def t_def)
  have "take t d = replicate t 0" using zeros t assms(1) by (intro nth_equalityI) auto
  then have "replicate t 0 @ drop t d = d" by (metis append_take_drop_id)
  then show ?thesis using t assms(1) by (simp add: c fits32_def)
next
  case False
  then show ?thesis using assms(1) by (simp add: c_def der_contents_def fits32_def)
qed

lemma contents_small: "length d = 32 \<Longrightarrow> 0 < length (der_contents True d) \<and> length (der_contents True d) \<le> 33"
  using contents_aligned [of d] fits32_small by blast

lemma length_der_integer: "length c < 128 \<Longrightarrow> length (der_integer c) = length c + 2"
  by (simp add: der_integer_def der_octets_def)

lemma place_contents:
  assumes "fits32 c d" "length z = e - 32" "32 \<le> e" "length buf = 33"
  shows "place_integer sz e (memcpy_at 0 c buf) (length c) (Some (z @ replicate 32 0 @ w)) k = k (Some (z @ d @ w))"
proof -
  consider "length d = 32" "c = 0 # d" | "length c \<le> 32" "replicate (32 - length c) 0 @ c = d"
    using assms(1) by (auto simp: fits32_def)
  then show ?thesis
  proof cases
    case 1
    then show ?thesis using assms
      by (simp add: place_integer_def read_at_def read_part_def put_at_def memcpy_at_def)
  next
    case 2
    have "put_at (e - length c) c (z @ replicate 32 0 @ w) = Inr (z @ (replicate (32 - length c) 0 @ c) @ w)"
      using 2(1) assms(2,3) by (simp add: put_at_def memcpy_at_def)
    then show ?thesis using 2 assms(4) by (simp add: place_integer_def read_part_def memcpy_at_def)
  qed
qed

text \<open>The octets of a signature: a bit string that holds a sequence of the two integers.\<close>

definition der_signature :: "u8 list \<Rightarrow> u8 list" where
  "der_signature raw =
     (let r = der_integer (der_contents True (take 32 raw));
          s = der_integer (der_contents True (drop 32 raw));
          n = length r + length s
      in [0x03, of_nat (n + 3), 0x00, 0x30, of_nat n] @ r @ s)"

lemma enc_signature:
  assumes raw: "length raw = 64"
  defines "d \<equiv> der_signature raw"
  shows "11 \<le> length d \<and> length d \<le> 75"
    and "atcacert_der_enc_ecdsa_sig_value raw None sz = Inr (ATCACERT_E_SUCCESS, None, length d)"
    and "sz < length d \<Longrightarrow>
      atcacert_der_enc_ecdsa_sig_value raw (Some buf) sz = Inr (ATCACERT_E_BUFFER_TOO_SMALL, Some buf, length d)"
    and "\<lbrakk>length d \<le> sz; length d \<le> length buf\<rbrakk> \<Longrightarrow>
      atcacert_der_enc_ecdsa_sig_value raw (Some buf) sz = Inr (ATCACERT_E_SUCCESS, Some (memcpy_at 0 d buf), length d)"
proof -
  define R S where "R = take 32 raw" and "S = drop 32 raw"
  define cr cs where "cr = der_contents True R" and "cs = der_contents True S"
  have RS: "length R = 32" "length S = 32" "take 32 raw = R" "take 32 (drop 32 raw) = S"
    using raw by (simp_all add: R_def S_def)
  have c: "0 < length cr" "length cr \<le> 33" "0 < length cs" "length cs \<le> 33"
    using contents_small [OF RS(1)] contents_small [OF RS(2)] by (auto simp: cr_def cs_def)
  define r s where "r = der_integer cr" and "s = der_integer cs"
  have rs: "length r = length cr + 2" "length s = length cs + 2"
    using c by (simp_all add: r_def s_def length_der_integer)
  define h :: "u8 list" where "h = [0x03, of_nat (length r + length s + 3), 0x00, 0x30, of_nat (length r + length s)]"
  have d: "d = (h @ r) @ s"
    by (simp add: d_def der_signature_def h_def r_def s_def cr_def cs_def R_def S_def Let_def)
  have h: "length h = 5" by (simp add: h_def)
  have ne: "R \<noteq> []" "S \<noteq> []" using RS by auto
  have enc0: "atcacert_der_enc_integer R True None 0 = Inr (ATCACERT_E_SUCCESS, None, length r)"
    "atcacert_der_enc_integer S True None 0 = Inr (ATCACERT_E_SUCCESS, None, length s)"
    using enc_integer_octets(1) [OF ne(1)] enc_integer_octets(1) [OF ne(2)] RS
    by (simp_all add: r_def s_def cr_def cs_def)
  have enc: "length r \<le> length p \<Longrightarrow> atcacert_der_enc_integer R True (Some p) (length r) =
      Inr (ATCACERT_E_SUCCESS, Some (memcpy_at 0 r p), length r)"
    "length s \<le> length p \<Longrightarrow> atcacert_der_enc_integer S True (Some p) (length s) =
      Inr (ATCACERT_E_SUCCESS, Some (memcpy_at 0 s p), length s)" for p
    using enc_integer_octets(3) [OF ne(1), of True "length r" p] enc_integer_octets(3) [OF ne(2), of True "length s" p] RS
    by (simp_all add: r_def s_def cr_def cs_def)
  have "length d = 5 + length r + length s" using h by (simp add: d)
  then show "11 \<le> length d \<and> length d \<le> 75" using c rs by linarith
  show "atcacert_der_enc_ecdsa_sig_value raw None sz = Inr (ATCACERT_E_SUCCESS, None, length d)"
    "sz < length d \<Longrightarrow>
      atcacert_der_enc_ecdsa_sig_value raw (Some buf) sz = Inr (ATCACERT_E_BUFFER_TOO_SMALL, Some buf, length d)"
    using h by (simp_all add: atcacert_der_enc_ecdsa_sig_value_def RS enc0 d)
  assume room: "length d \<le> sz" "length d \<le> length buf"
  have put: "put_at 0 [3, of_nat (3 + (length r + length s)), 0, 48, of_nat (length r + length s)] buf =
      Inr (memcpy_at 0 h buf)"
    using room h by (simp add: h_def d put_at_first ac_simps del: of_nat_add)
  have at: "at_offset i (memcpy_at 0 x buf) f = Inr (ATCACERT_E_SUCCESS, memcpy_at 0 (x @ y) buf, length y)"
    if "i = length x" "length x + length y \<le> length buf"
      "f (Some (drop i buf)) = Inr (ATCACERT_E_SUCCESS, Some (memcpy_at 0 y (drop i buf)), length y)" for i x y f
    using that by (simp add: at_offset_def memcpy_at_def ac_simps)
  show "atcacert_der_enc_ecdsa_sig_value raw (Some buf) sz = Inr (ATCACERT_E_SUCCESS, Some (memcpy_at 0 d buf), length d)"
    using room h
    by (simp add: atcacert_der_enc_ecdsa_sig_value_def Let_def RS enc0 put d
          at [of 5 h r] at [of "5 + length r" "h @ r" s] enc del: of_nat_add)
qed



section \<open>Signatures: what the decoder accepts\<close>

text \<open>
  A bit string with a sequence of two integers that fit in 32 bytes. The length of the bit
  string is that of the integers and three: the decoder counts one octet for the length of the
  sequence, however long that is.
\<close>

definition ber_signature :: "u8 list \<Rightarrow> u8 list \<Rightarrow> bool" where
  "ber_signature e raw \<longleftrightarrow> length raw = 64 \<and> (\<exists>bl ql er es cr cs.
     e = [0x03] @ bl @ [0x00, 0x30] @ ql @ er @ es \<and>
     ber_length bl (length er + length es + 3) \<and> ber_length ql (length er + length es) \<and>
     ber_integer er cr \<and> fits32 cr (take 32 raw) \<and> ber_integer es cs \<and> fits32 cs (drop 32 raw))"

definition rejects :: "nat \<Rightarrow> decoded_sig \<Rightarrow> bool" where
  "rejects n r \<longleftrightarrow> (\<exists>ret raw. r = Inr (ret, n, raw) \<and> ret \<noteq> ATCACERT_E_SUCCESS)"

lemma rejects_error: "rejects n (Inr (ATCACERT_E_DECODING_ERROR, n, raw))"
  by (simp add: rejects_def cert_codes)

lemma expect_at_tag:
  "drop i bs = tag # xs \<Longrightarrow> expect_at bs i tag raw k = k"
  by (simp add: expect_at_def read_at_def) (metis (no_types, lifting) Cons_nth_drop_Suc drop_all list.distinct(1) list.inject not_less)

lemma expect_at_cases:
  obtains "rejects (length bs) (expect_at bs i tag raw k)"
    | xs where "drop i bs = tag # xs" "expect_at bs i tag raw k = k"
proof (cases "\<exists>xs. drop i bs = tag # xs")
  case True
  then show ?thesis using that(2) expect_at_tag by blast
next
  case False
  then have "length bs \<le> i \<or> bs ! i \<noteq> tag" by (metis Cons_nth_drop_Suc not_less)
  then have "rejects (length bs) (expect_at bs i tag raw k)"
    by (auto simp: expect_at_def read_at_def rejects_error)
  then show ?thesis by (rule that(1))
qed

lemma length_at_ber:
  assumes "ber_length l n" "drop i bs = l @ xs"
  shows "length_at bs i raw k =
    (if n \<le> length xs then k (of_nat n) (i + length l) else Inr (ATCACERT_E_DECODING_ERROR, length bs, raw))"
proof -
  have "unat (of_nat n :: u32) = n" using ber_length_bound [OF assms(1)] by (simp add: unat_of_nat)
  moreover have "l \<noteq> []" using assms(1) by (auto simp: ber_length_def)
  then have "i \<le> length bs" "length bs - i = length l + length xs"
    using arg_cong [OF assms(2), of length] by (cases "i \<le> length bs"; simp)+
  ultimately show ?thesis using dec_length_ber [OF assms(1), of xs]
    by (auto simp: length_at_def assms(2) Let_def)
qed

lemma length_at_cases:
  obtains "rejects (length bs) (length_at bs i raw k)"
    | l n xs where "ber_length l n" "drop i bs = l @ xs" "n \<le> length xs"
        "length_at bs i raw k = k (of_nat n) (i + length l)"
proof (cases rule: dec_length_cases [of "drop i bs"])
  case (1 l n xs)
  then show ?thesis using that length_at_ber [OF 1(1,2), of raw k] rejects_error by (cases "n \<le> length xs") auto
next
  case 2
  then have "rejects (length bs) (length_at bs i raw k)" by (simp add: length_at_def rejects_error)
  then show ?thesis by (rule that(1))
qed

lemma integer_at_ber:
  assumes "ber_integer e c" "drop i bs = e @ xs" "length c \<le> 33" "length buf = 33"
  shows "integer_at bs i buf raw k = k (length e) (memcpy_at 0 c buf) (length c)"
proof -
  have "e \<noteq> []" using assms(1) by (auto simp: ber_integer_def)
  then have "\<not> length bs \<le> i" using assms(2) by auto
  then show ?thesis using dec_integer_ber(2) [OF assms(1), of 33 buf xs] assms
    by (simp add: integer_at_def)
qed

lemma integer_at_cases:
  assumes "length buf = 33"
  obtains "rejects (length bs) (integer_at bs i buf raw k)"
    | e c xs where "ber_integer e c" "drop i bs = e @ xs" "length c \<le> 33"
        "integer_at bs i buf raw k = k (length e) (memcpy_at 0 c buf) (length c)"
proof (cases rule: dec_integer_cases [OF assms, of "drop i bs"])
  case (1 e c xs)
  then show ?thesis using that(2) integer_at_ber [OF 1(1,2,3) assms, of raw k] by blast
next
  case (2 ret m n)
  then have "rejects (length bs) (integer_at bs i buf raw k)"
    by (auto simp: integer_at_def rejects_def cert_codes)
  then show ?thesis by (rule that(1))
qed

lemma place_cases:
  assumes "length c \<le> 33" "length z = e - 32" "32 \<le> e" "length buf = 33"
  obtains "rejects sz (place_integer sz e (memcpy_at 0 c buf) (length c) (Some (z @ replicate 32 0 @ w)) k)"
    | d where "fits32 c d"
        "place_integer sz e (memcpy_at 0 c buf) (length c) (Some (z @ replicate 32 0 @ w)) k = k (Some (z @ d @ w))"
proof (cases "\<exists>d. fits32 c d")
  case True
  then show ?thesis using that(2) place_contents [OF _ assms(2-4)] by blast
next
  case False
  have "fits32 c (replicate (32 - length c) 0 @ c)" if "length c \<le> 32" using that by (simp add: fits32_def)
  then have c: "length c = 33" using False assms(1) by (cases "length c \<le> 32") auto
  then obtain b d where "c = b # d" "length d = 32" by (cases c) auto
  then have "c ! 0 \<noteq> 0" using False by (auto simp: fits32_def)
  then have "rejects sz (place_integer sz e (memcpy_at 0 c buf) (length c) (Some (z @ replicate 32 0 @ w)) k)"
    using c assms(4) by (simp add: place_integer_def read_at_def memcpy_at_def nth_append rejects_error)
  then show ?thesis by (rule that(1))
qed


lemma drop_part: "drop i bs = ys @ zs \<Longrightarrow> drop (i + length ys) bs = zs"
  by (metis add.commute append_eq_conv_conj drop_drop)

lemma dec_signature_ber:
  assumes "ber_signature e raw"
  shows "atcacert_der_dec_ecdsa_sig_value (e @ xs) (Some raw0) = Inr (ATCACERT_E_SUCCESS, length e, Some raw)"
proof -
  obtain bl ql er es cr cs where raw: "length raw = 64" and e: "e = [0x03] @ bl @ [0x00, 0x30] @ ql @ er @ es"
    and len: "ber_length bl (length er + length es + 3)" "ber_length ql (length er + length es)"
    and int: "ber_integer er cr" "fits32 cr (take 32 raw)" "ber_integer es cs" "fits32 cs (drop 32 raw)"
    using assms unfolding ber_signature_def by blast
  define d where "d = e @ xs"
  have dropped: "drop 0 d = 0x03 # bl @ [0x00, 0x30] @ ql @ er @ es @ xs"
    "drop 1 d = bl @ [0x00, 0x30] @ ql @ er @ es @ xs" by (simp_all add: d_def e)
  then have d1: "drop (1 + length bl) d = 0x00 # 0x30 # ql @ er @ es @ xs"
    using drop_part [OF dropped(2)] by simp
  then have d2: "drop (1 + length bl + 1) d = 0x30 # ql @ er @ es @ xs"
    "drop (1 + length bl + 2) d = ql @ er @ es @ xs"
    using drop_part [of _ d "[0]"] drop_part [of _ d "[0, 0x30]"] by auto
  define j where "j = 1 + length bl + 2 + length ql"
  have d3: "drop j d = er @ es @ xs" unfolding j_def by (rule drop_part [OF d2(2)])
  have d4: "drop (j + length er) d = es @ xs" by (rule drop_part [OF d3])
  have ql: "ql \<noteq> []" using len(2) by (auto simp: ber_length_def)
  have inside: "\<not> length d \<le> 1 + length bl + 2" using ql by (auto simp: d_def e)
  have at1: "length_at d 1 w k = k (of_nat (length er + length es + 3)) (1 + length bl)" for w k
    using length_at_ber [OF len(1) dropped(2), of w k] ql by (simp add: Suc_le_eq)
  have at2: "length_at d (1 + length bl + 2) w k = k (of_nat (length er + length es)) j" for w k
    using length_at_ber [OF len(2) d2(2), of w k] by (simp add: j_def)
  have c: "length cr \<le> 33" "length cs \<le> 33" using int(2,4) fits32_small by auto
  have r0: "place_integer sz 32 (memcpy_at 0 cr b) (length cr) (Some (replicate 64 0)) k = k (Some (take 32 raw @ replicate 32 0))"
    if "length b = 33" for sz b k
    using that place_contents [OF int(2), of "[]" 32 b sz "replicate 32 0" k] by (simp flip: replicate_add)
  have s0: "place_integer sz 64 (memcpy_at 0 cs b) (length cs) (Some (take 32 raw @ replicate 32 0)) k = k (Some raw)"
    if "length b = 33" for sz b k
    using that place_contents [OF int(4), of "take 32 raw" 64 b sz "[]" k] raw by simp
  have u: "unat (of_nat (length er + length es) :: u32) = length er + length es"
    "unat (of_nat (length er + length es + 3) :: u32) = length er + length es + 3"
    using ber_length_bound [OF len(1)] ber_length_bound [OF len(2)] by (simp_all add: unat_of_nat del: of_nat_add)
  have r1: "integer_at d (j) (replicate 33 0) w k =
      k (length er) (memcpy_at 0 cr (replicate 33 0)) (length cr)" for w k
    by (rule integer_at_ber [OF int(1) d3 c(1)]) simp
  have s1: "integer_at d (j + length er) (memcpy_at 0 cr (replicate 33 0)) w k =
      k (length es) (memcpy_at 0 cs (memcpy_at 0 cr (replicate 33 0))) (length cs)" for w k
    by (rule integer_at_ber [OF int(3) d4 c(2)]) (use c(1) in simp)
  have "atcacert_der_dec_ecdsa_sig_value d (Some raw0) =
      Inr (ATCACERT_E_SUCCESS, j + length er + length es, Some raw)"
    unfolding atcacert_der_dec_ecdsa_sig_value_def Let_def
      expect_at_tag [OF dropped(1)] at1 expect_at_tag [OF d1] expect_at_tag [OF d2(1)] at2
    using inside u c(1) by (simp add: r1 r0 s1 s0 del: of_nat_add)
  then show ?thesis by (simp add: d_def e j_def)
qed

lemma expect_at_ok:
  assumes "\<not> rejects (length bs) (expect_at bs i tag raw k)"
  obtains xs where "drop i bs = tag # xs" "\<not> rejects (length bs) k"
  using assms by (cases rule: expect_at_cases [of bs i tag raw k]) auto

lemma length_at_ok:
  assumes "\<not> rejects (length bs) (length_at bs i raw k)"
  obtains l n xs where "ber_length l n" "drop i bs = l @ xs" "\<not> rejects (length bs) (k (of_nat n) (i + length l))"
  using assms by (cases rule: length_at_cases [of bs i raw k]) auto

lemma integer_at_ok:
  assumes "\<not> rejects (length bs) (integer_at bs i buf raw k)" "length buf = 33"
  obtains e c xs where "ber_integer e c" "drop i bs = e @ xs" "length c \<le> 33"
    "\<not> rejects (length bs) (k (length e) (memcpy_at 0 c buf) (length c))"
  using assms(1) by (cases rule: integer_at_cases [OF assms(2), of bs i raw k]) auto

lemma if_ok:
  assumes "\<not> rejects n (if P then Inr (ATCACERT_E_DECODING_ERROR, n, raw) else k)"
  obtains "\<not> P" "\<not> rejects n k"
  using assms rejects_error by (cases P) auto

lemma place_ok:
  assumes "\<not> rejects sz (place_integer sz 32 (memcpy_at 0 c buf) (length c) (Some (replicate 64 0)) k)"
    "length c \<le> 33" "length buf = 33"
  obtains d where "fits32 c d" "\<not> rejects sz (k (Some (d @ replicate 32 0)))"
proof -
  have "(replicate 64 0 :: u8 list) = [] @ replicate 32 0 @ replicate 32 0" by (simp flip: replicate_add)
  then show ?thesis using assms(1) that
    by (cases rule: place_cases [OF assms(2) _ _ assms(3), of "[]" 32 sz "replicate 32 0" k]) auto
qed

lemma place_next_ok:
  assumes "\<not> rejects sz (place_integer sz 64 (memcpy_at 0 c buf) (length c) (Some (z @ replicate 32 0)) k)"
    "length c \<le> 33" "length buf = 33" "length z = 32"
  obtains d where "fits32 c d" "\<not> rejects sz (k (Some (z @ d)))"
  using assms(1,4) that by (cases rule: place_cases [OF assms(2) _ _ assms(3), of z 64 sz "[]" k]) auto

lemma signature_parts:
  assumes d: "drop 0 bs = 0x03 # x1" "drop 1 bs = bl @ x2" "drop (1 + length bl) bs = 0x00 # x3"
      "drop (1 + length bl + 1) bs = 0x30 # x4" "drop (1 + length bl + 2) bs = ql @ x5"
      "drop (1 + length bl + 2 + length ql) bs = er @ x6" "drop (1 + length bl + 2 + length ql + length er) bs = es @ x7"
    and l: "ber_length bl bn" "ber_length ql qn" "\<not> unat (of_nat qn :: u32) \<noteq> length er + length es"
      "\<not> unat (of_nat bn :: u32) \<noteq> length er + length es + 3"
    and i: "ber_integer er cr" "fits32 cr R" "ber_integer es cs" "fits32 cs S"
  shows "\<exists>e raw xs. ber_signature e raw \<and> bs = e @ xs"
proof -
  have x: "x1 = bl @ x2" "x2 = 0x00 # x3" "x3 = 0x30 # x4" "x4 = ql @ x5" "x5 = er @ x6" "x6 = es @ x7"
    using d drop_part [OF d(2)] drop_part [of _ bs "[0]"] drop_part [of _ bs "[48]"]
      drop_part [OF d(5)] drop_part [OF d(6)] by auto
  have n: "qn = length er + length es" "bn = length er + length es + 3"
    using l ber_length_bound [OF l(1)] ber_length_bound [OF l(2)] by (simp_all add: unat_of_nat)
  have RS: "length R = 32" "length S = 32" using i(2,4) by (simp_all add: fits32_def)
  then have raw: "length (R @ S) = 64 \<longleftrightarrow> True" "take 32 (R @ S) = R" "drop 32 (R @ S) = S" by simp_all
  have "ber_signature ([0x03] @ bl @ [0x00, 0x30] @ ql @ er @ es) (R @ S)"
    unfolding ber_signature_def raw using l(1) [unfolded n(2)] l(2) [unfolded n(1)] i by blast
  moreover have "bs = ([0x03] @ bl @ [0x00, 0x30] @ ql @ er @ es) @ x7"
    using d(1) by (simp add: x)
  ultimately show ?thesis by blast
qed

lemma dec_signature_ok:
  assumes "\<not> rejects (length bs) (atcacert_der_dec_ecdsa_sig_value bs (Some raw0))"
  shows "\<exists>e raw xs. ber_signature e raw \<and> bs = e @ xs"
  using assms unfolding atcacert_der_dec_ecdsa_sig_value_def Let_def option.map
  apply (elim expect_at_ok length_at_ok if_ok)
  apply (erule integer_at_ok, simp)
  apply (erule place_ok, assumption, simp)
  apply (erule integer_at_ok, simp)
  apply (erule place_next_ok, assumption, simp, simp add: fits32_def)
  apply (elim if_ok)
  apply (rule signature_parts; assumption)
  done

text \<open>So the decoder never reads or writes beyond a buffer, and accepts exactly these octets.\<close>

lemma dec_signature_total:
  obtains e raw xs where "ber_signature e raw" "bs = e @ xs"
      "atcacert_der_dec_ecdsa_sig_value bs (Some raw0) = Inr (ATCACERT_E_SUCCESS, length e, Some raw)"
    | ret raw where "ret \<noteq> ATCACERT_E_SUCCESS"
      "atcacert_der_dec_ecdsa_sig_value bs (Some raw0) = Inr (ret, length bs, raw)"
proof (cases "rejects (length bs) (atcacert_der_dec_ecdsa_sig_value bs (Some raw0))")
  case True
  then show ?thesis using that(2) by (auto simp: rejects_def)
next
  case False
  then obtain e raw xs where "ber_signature e raw" "bs = e @ xs" using dec_signature_ok by blast
  then show ?thesis using that(1) dec_signature_ber by metis
qed


lemma ber_der_signature:
  assumes raw: "length raw = 64"
  shows "ber_signature (der_signature raw) raw"
proof -
  define cr cs where "cr = der_contents True (take 32 raw)" and "cs = der_contents True (drop 32 raw)"
  define er es where "er = der_integer cr" and "es = der_integer cs"
  define n where "n = length er + length es"
  have c: "0 < length cr" "fits32 cr (take 32 raw)" "0 < length cs" "fits32 cs (drop 32 raw)"
    using contents_aligned [of "take 32 raw"] contents_aligned [of "drop 32 raw"] raw
    by (simp_all add: cr_def cs_def)
  then have small: "length cr \<le> 33" "length cs \<le> 33" using fits32_small by auto
  then have int: "ber_integer er cr" "ber_integer es cs"
    using ber_der_integer [of cr] ber_der_integer [of cs] by (simp_all add: er_def es_def)
  have n: "n < 72" using small by (simp add: n_def er_def es_def length_der_integer)
  have bl: "ber_length [of_nat (n + 3)] (n + 3)" "ber_length [of_nat n] n"
    using ber_length_octets [of "n + 3"] ber_length_octets [of n] n by (simp_all add: der_octets_def del: of_nat_add)
  have e: "der_signature raw = [0x03] @ [of_nat (n + 3)] @ [0x00, 0x30] @ [of_nat n] @ er @ es"
    by (simp add: der_signature_def n_def er_def es_def cr_def cs_def Let_def)
  show ?thesis unfolding ber_signature_def e using raw bl [unfolded n_def] int c(2,4) by (simp only: n_def) blast
qed

text \<open>A length is changed in place when its encoding stays as long as it is.\<close>

lemma negated_delta:
  assumes "- (2 ^ 31) < sint (\<delta> :: 32 word)" "sint \<delta> < 0"
  shows "unat (scast (- \<delta>) :: 64 word) = nat (- sint \<delta>)"
proof -
  have "- \<delta> = of_int (- sint \<delta>)" by simp
  moreover have "sint (of_int (- sint \<delta>) :: 32 word) = - sint \<delta>"
    using assms by (simp only: signed_of_int) (simp add: signed_take_bit_int_eq_self)
  ultimately have "(scast (- \<delta>) :: 64 word) = of_int (- sint \<delta>)" by (metis of_int_sint)
  also have "\<dots> = of_nat (nat (- sint \<delta>))" using assms(2) by simp
  finally have "unat (scast (- \<delta>) :: 64 word) = nat (- sint \<delta>) mod 2 ^ 64" by (simp add: unat_of_nat)
  then show ?thesis using assms by simp
qed

lemma adjust_length_result:
  fixes \<delta> :: "32 word"
  assumes "n < 2 ^ 32" "0 \<le> int n + sint \<delta>" "int n + sint \<delta> < 2 ^ 32" "- (2 ^ 31) < sint \<delta>"
  defines "m \<equiv> nat (int n + sint \<delta>)"
  assumes same: "length (der_octets m) = length (der_octets n)"
  shows "atcacert_der_adjust_length (der_octets n @ xs) \<delta> =
    Inr (0, Some (of_nat m), der_octets m @ xs, length (der_octets n))"
proof -
  have m: "of_nat n + \<delta> = (of_nat m :: u32)"
  proof -
    have "(of_nat m :: u32) = of_int (int n + sint \<delta>)" using assms(2) by (simp add: m_def)
    then show ?thesis by simp
  qed
  have m32: "m < 2 ^ 32" using assms(2,3) by (simp add: m_def nat_less_iff)
  have u: "unat (of_nat n :: u32) = n" "unat (of_nat m :: u32) = m"
    using assms(1) m32 by (simp_all add: unat_of_nat)
  have wide: "unat (ucast x :: 64 word) = unat x" for x :: u32
    using unat_u32_less [of x] by (simp add: unsigned_ucast_eq take_bit_nat_eq_self)
  have no_error: "\<not> (sint \<delta> < 0 \<and> (scast (- \<delta>) :: 64 word) > ucast (of_nat n :: u32))"
    using negated_delta [OF assms(4)] assms(2) u(1) by (auto simp: word_less_nat_alt wide)
  have "length (der_octets m) \<le> 5" using length_der_octets [OF m32] by simp
  then have enc: "atcacert_der_enc_length (of_nat m) (Some (replicate 5 0)) 5 =
      Inr (ATCACERT_E_SUCCESS, Some (memcpy_at 0 (der_octets m) (replicate 5 0)), length (der_octets m))"
    using enc_length_octets(3) [of "of_nat m" 5 "replicate 5 0"] u(2) by simp
  show ?thesis
    by (simp add: atcacert_der_adjust_length_def dec_length_octets [OF assms(1)] no_error m enc same put_at_first)
      (simp add: memcpy_at_def same)
qed


section \<open>The claims\<close>

text \<open>
  C33: Every raw signature of 64 bytes is encoded in 11 to 75 bytes, the number that is reported
  when only the size is asked for, in a buffer that has as many; from these bytes, with any
  others behind them, the decoder returns the same signature and the number of bytes.
\<close>

theorem signature_roundtrip:
  assumes "length raw = 64" "75 \<le> sz" "sz \<le> length buf"
  shows "\<exists>d. 11 \<le> length d \<and> length d \<le> 75 \<and>
    atcacert_der_enc_ecdsa_sig_value raw None sz0 = Inr (ATCACERT_E_SUCCESS, None, length d) \<and>
    atcacert_der_enc_ecdsa_sig_value raw (Some buf) sz =
      Inr (ATCACERT_E_SUCCESS, Some (memcpy_at 0 d buf), length d) \<and>
    atcacert_der_dec_ecdsa_sig_value (d @ xs) (Some raw0) = Inr (ATCACERT_E_SUCCESS, length d, Some raw)"
  using enc_signature [OF assms(1)] dec_signature_ber [OF ber_der_signature [OF assms(1)]] assms(2,3)
  by (intro exI [of _ "der_signature raw"]) force

text \<open>
  C23: Whatever bytes it is given, the decoder of signatures reads and writes within its buffers
  and returns. It succeeds exactly when they start with a bit string of a sequence of two
  integers that fit in 32 bytes each, with lengths that agree; then it returns these integers,
  filled up with zeros, and the number of bytes it has used.
\<close>

theorem signature_decoder_accepts:
  "(\<exists>result. atcacert_der_dec_ecdsa_sig_value bs (Some raw0) = Inr result) \<and>
   (atcacert_der_dec_ecdsa_sig_value bs (Some raw0) = Inr (ATCACERT_E_SUCCESS, n, Some raw) \<longleftrightarrow>
    (\<exists>e xs. ber_signature e raw \<and> bs = e @ xs \<and> n = length e))"
proof -
  have "atcacert_der_dec_ecdsa_sig_value bs (Some raw0) = Inr (ATCACERT_E_SUCCESS, n, Some raw)"
    if "\<exists>e xs. ber_signature e raw \<and> bs = e @ xs \<and> n = length e"
    using that dec_signature_ber by blast
  then show ?thesis by (cases rule: dec_signature_total [of bs raw0]) auto
qed

theorem signature_roundtrip_witness:
  "\<exists>d. 11 \<le> length d \<and> length d \<le> 75 \<and>
    atcacert_der_enc_ecdsa_sig_value (replicate 64 255) None 0 = Inr (ATCACERT_E_SUCCESS, None, length d) \<and>
    atcacert_der_enc_ecdsa_sig_value (replicate 64 255) (Some (replicate 75 0)) 75 =
      Inr (ATCACERT_E_SUCCESS, Some (memcpy_at 0 d (replicate 75 0)), length d) \<and>
    atcacert_der_dec_ecdsa_sig_value (d @ [1, 2]) (Some []) = Inr (ATCACERT_E_SUCCESS, length d, Some (replicate 64 255))"
  by (rule signature_roundtrip) simp_all

end
