(* ===== verification/Spec2Isabelle.thy ===== *)
theory Spec2Isabelle
  imports Prelude LlFifo Protocol MsgPool FlashTable FlashTest MemTest Led SdTest EthTest Board
    RawSocket FactoryHost Factory GpioPs I2c I2cWave AtcaCommand AtcaFrame AtcaHal AtcaHalFacts AtcaExec
    AtcaBasic AtcaTest AtcaChip AtcaSim AtcaZones AtcaOps AtcaOpsFacts AtcaSha AtcaShaFacts AtcaAes AtcaAesFacts AtcaHost AtcaSecure AtcaVault
    AtcaHex AtcaBase64 HashBlocks Sha2 Sha1
    CertDate CertDateFacts CertDer CertDerFacts
begin

text \<open>
  The factory test of the BOE board (\<open>boe_factory_test/\<close>, \<open>factory_test/\<close>).

  \<^bold>\<open>The program.\<close> A host (\<open>factory_test/ftest.c\<close>) sends requests in raw Ethernet frames
  (\<open>factory_test/rs.c\<close>) to a ZynqMP board. Logic in the FPGA turns a frame into a packet of
  an AXI FIFO. The board's program (\<open>boe_factory_test/src/main.c\<close>) drains the FIFO into a ring
  of packages (\<open>community.c\<close>), runs the test a request names, replies with the result, and
  after the FINISH request shows on its LEDs the verdict the host sent. The host asks in
  turn for CONNECT, DRAM, FLASH and ECC test and stops at the first failure.

  \<^bold>\<open>Theories and sources\<close>, in the order of imports:
  \<^item> \<open>Prelude\<close>: machine integers, faults, byte order, buffers, the register bus.
  \<^item> \<open>LlFifo\<close>: the AXI FIFO driver (\<open>llfifo_v5_2/src/xllfifo.c\<close>, \<open>xllfifo_sinit.c\<close>).
  \<^item> \<open>Protocol\<close>: package layout, codes and builders of both sides (\<open>axu_connector.[ch]\<close>,
    \<open>ftest.c\<close>).
  \<^item> \<open>MsgPool\<close>: \<open>community.c\<close>. The pool record is \<open>struct MsgPool\<close>; a fetched message is the
    index of its slot in the ring.
  \<^item> \<open>FlashTable\<close>, \<open>FlashTest\<close>: \<open>flashtest.c\<close>, its configuration table and all its functions,
    over the QSPI driver as a parameter. \<open>flash_globals\<close> are the globals of the file.
  \<^item> \<open>MemTest\<close>: \<open>memorytest.c\<close>, \<open>memory_config_g.c\<close>, \<open>xil_testmem.c\<close>, over a memory as a
    parameter.
  \<^item> \<open>Led\<close>: \<open>led.c\<close>, the GPIO driver (\<open>gpio_v4_3\<close>) and the verdict loops of \<open>main.c\<close>.
  \<^item> \<open>SdTest\<close>: \<open>sdtest.c\<close> over FatFs as a parameter.
  \<^item> \<open>EthTest\<close>: \<open>pl_eth_test.c\<close> over the FIFO driver.
  \<^item> \<open>GpioPs\<close>: the processor's GPIO driver (\<open>gpiops_v3_3\<close>), through whose pins the ECC chip is driven.
  \<^item> \<open>I2c\<close>, \<open>I2cWave\<close>: the bit-banged I2C master (\<open>libatca/hal/i2c_bitbang_boe.[ch]\<close>), and what its
    register accesses are on the two lines.
  \<^item> \<open>AtcaCommand\<close>, \<open>AtcaFrame\<close>: command packets and their CRC (\<open>atca_command.[ch]\<close>).
  \<^item> \<open>AtcaHal\<close>, \<open>AtcaHalFacts\<close>: the I2C layer of the library (\<open>hal/hal_i2c_bitbang.c\<close>).
  \<^item> \<open>AtcaExec\<close>: interfaces, devices, execution of a command (\<open>atca_hal.c\<close>, \<open>atca_iface.c\<close>,
    \<open>atca_device.c\<close>, \<open>atca_execution.c\<close>) over the function pointers of the layer.
  \<^item> \<open>AtcaBasic\<close>: reading and writing of zones (\<open>basic/atca_basic*.c\<close>) over the global device.
  \<^item> \<open>AtcaTest\<close>: the ECC test (\<open>atca_test.c\<close>). \<open>AtcaChip\<close>: its runs with and without a chip.
    \<open>AtcaSim\<close>: a chip as a function from commands to responses. \<open>AtcaZones\<close>: zones as
    lists of bytes.
  \<^item> \<open>AtcaOps\<close>, \<open>AtcaOpsFacts\<close>: the other basic commands (\<open>basic/atca_basic_*.c\<close>), one section or
    paragraph for each file.
  \<^item> \<open>AtcaSha\<close>, \<open>AtcaShaFacts\<close>: hashes and HMAC computed by the chip (\<open>basic/atca_basic_sha.c\<close>).
  \<^item> \<open>AtcaAes\<close>, \<open>AtcaAesFacts\<close>: AES, CBC and CMAC on the chip (\<open>basic/atca_basic_aes.c\<close>).
  \<^item> \<open>AtcaHost\<close>: the host library (\<open>host/atca_host.[ch]\<close>). \<open>AtcaSecure\<close>: the basic commands that compute
    with it. \<open>AtcaVault\<close>: encrypted commands on a chip that keeps secrets.
  \<^item> \<open>AtcaHex\<close>, \<open>AtcaBase64\<close>: the text conversions of \<open>atca_helpers.c\<close>.
  \<^item> \<open>HashBlocks\<close>, \<open>Sha2\<close>, \<open>Sha1\<close>: the hashes of the library (\<open>crypto/\<close>) and FIPS 180-4.
  \<^item> \<open>CertDate\<close>, \<open>CertDateFacts\<close>: the dates of certificates (\<open>atcacert/atcacert_date.c\<close>).
  \<^item> \<open>CertDer\<close>, \<open>CertDerFacts\<close>: DER lengths, integers and signatures (\<open>atcacert/atcacert_der.c\<close>).
  \<^item> \<open>Board\<close>: \<open>main.c\<close>. The record \<open>board\<close> holds its static variables and the state of the
    tests; \<open>run_command\<close>, \<open>send_reply\<close> and \<open>serve_package\<close> are the body of \<open>mainloop\<close>.
  \<^item> \<open>RawSocket\<close>: \<open>rs.c\<close> over the system calls as a parameter.
  \<^item> \<open>FactoryHost\<close>: \<open>ftest.c\<close>. \<open>host_do\<close> is its function \<open>_do\<close>; \<open>run_requests\<close>,
    \<open>host_report\<close> and \<open>host_finish\<close> are the parts of \<open>main\<close> between its labels.
  \<^item> \<open>Factory\<close>: host and board joined by an ideal link.

  \<^bold>\<open>Modelling.\<close> A C function that changes state is a HOL function from its arguments and
  the state to its result and the new state. \<open>Inl fault\<close> stands for what C leaves undefined
  and the code can reach. Hardware is a record of operations over a state of any type: the
  register bus, the memory, the QSPI driver, FatFs, the socket calls. A theorem without a
  law on such a record holds for every hardware. Loops over data are structural recursion.
  A loop that ends only if the hardware lets it is a \<open>partial_function (option)\<close>, where
  \<open>None\<close> is not returning: \<open>FifoReceive\<close>, \<open>fetch_loop\<close>, \<open>wait_ready\<close>, \<open>tx_done_wait\<close>,
  \<open>line_wait\<close>, \<open>mainloop\<close>; that such a loop returns is proved where it is claimed
  (\<open>session_mainloop\<close>, \<open>tx_done_wait_iff\<close>, \<open>wait_ready_iff\<close>, \<open>at508_reads_serial\<close>). The one loop
  with fuel is \<open>read_bytes_loop\<close>: every pass delivers a byte, so as many passes as bytes are
  enough (\<open>read_bytes_refines\<close>). The endless LED loops are any number of rounds (\<open>blink\<close>).

  \<^bold>\<open>What the lemmas show.\<close>
  \<^item> \<open>MsgPool\<close>: the ring is an interpretation of the locale \<open>bounded_queue\<close>; fetching is
    dequeuing, with its time-out; sending writes the padded message; the overrun of the
    receive buffer by a long packet; the release that never releases.
  \<^item> \<open>FlashTable\<close>, \<open>FlashTest\<close>: the entry chosen fits the identified flash, sector counts
    cover the range, the exact commands each operation sends, that the test passes on every
    supported flash that answers as documented and passes only if the pattern came back; the
    paths on which errors are lost.
  \<^item> \<open>MemTest\<close>: \<open>RotateLeft\<close> is rotation; what a passed test has read; a stuck bit is found;
    on working memory (locale \<open>ram\<close>, interpreted on memories of bytes) all tests pass, and
    how little of the memory they use.
  \<^item> \<open>Led\<close>, \<open>SdTest\<close>, \<open>EthTest\<close>: what each call does and when each test passes, among it
    tests that pass on broken hardware or fail on good hardware.
  \<^item> \<open>GpioPs\<close>, \<open>I2cWave\<close>, \<open>AtcaHalFacts\<close>: pins and banks; the operations of the master as
    waveforms; a send is a write transaction; a receive stays in its buffer; where the master
    waits for ever.
  \<^item> \<open>AtcaFrame\<close>: the CRC is the remainder of a polynomial division, finds every single bit
    error, and every builder makes a frame with a right one.
  \<^item> \<open>AtcaExec\<close>, \<open>AtcaTest\<close>, \<open>AtcaChip\<close>: the locale \<open>hal_layer\<close> says what the execution relies on
    and is interpreted on the I2C layer; a successful command has a checked response; what the
    ECC test leaves behind whatever the chip does, and that it returns with and without one.
  \<^item> \<open>AtcaZones\<close>: reading and writing bytes of a zone through blocks and words refines reading
    and writing a list.
  \<^item> \<open>AtcaOpsFacts\<close>: signing and verifying on a chip that does both; what a self test reports.
  \<^item> \<open>AtcaShaFacts\<close>: the locale \<open>block_engine\<close> says what the streaming functions rely on and is
    interpreted on the commands for SHA-256 and HMAC; hashing on every kind of chip is SHA-256.
  \<^item> \<open>AtcaAesFacts\<close>: CBC and CMAC are those of NIST SP 800-38 under the cipher of the chip; the
    subkeys are doublings in the field.
  \<^item> \<open>AtcaVault\<close>: encrypted writes and reads refine writing and reading the data zone; private keys
    arrive; the host ignores a nonce that is passed through.
  \<^item> \<open>AtcaHex\<close>, \<open>AtcaBase64\<close>: round trips of the conversions, and which buffers they overrun.
  \<^item> \<open>Sha2\<close>, \<open>Sha1\<close>: a context stands for the message it has taken in, whatever its pieces; the
    digests are those of the standard, the constants of SHA-256 are roots of primes.
  \<^item> \<open>CertDateFacts\<close>: round trips of the five date formats and of the compressed dates; the
    loops over years and months end and give the calendar date.
  \<^item> \<open>CertDerFacts\<close>: the encoders write the octets of X.690; the decoder of signatures never leaves
    its buffers and accepts exactly the octets of \<open>ber_signature\<close>; the round trip.
  \<^item> \<open>Board\<close>: the main loop is the step relation \<open>session\<close>; by rule induction over it, the
    verdict is that of the last RESULT request; the reply to every request.
  \<^item> \<open>RawSocket\<close>, \<open>FactoryHost\<close>: frames and their round trip; the result of a request by its
    reply.
  \<^item> \<open>Factory\<close> and this theory: the factory run as a whole.

  \<^bold>\<open>Not modelled\<close>: of the ATECC508A library, the certificate definitions and web tokens, which
  the factory test does not call; the boot loader, the generated register
  tables, the vendored drivers below the parameters; prints and delays, which change nothing
  the code reads. The print of the serial number in \<open>at508_get_sernum\<close> is left out with the
  hex text it prepares; that this text overruns its buffer is \<open>bin2hex_overrun\<close>.
\<close>

section \<open>The verdict of the factory\<close>



text \<open>A good board, and one without an ECC chip.\<close>

definition chipless :: "'h \<Rightarrow> ('h, qspi_event list, u64 \<Rightarrow> u8, u8 list, bool list) board" where
  "chipless h = start_board h\<lparr>ecc_state := idle_lib []\<rparr>"

lemma good_board:
  "ready_board (start_board h)" "board_result (start_board h) = 0"
  "ready_board (chipless h)" "board_result (chipless h) = 0"
  "tests_return (good_env B) (start_board h) 0 0 0"
  "tests_return (good_env B) (chipless h) 0 0 0xE7"
proof -
  show "ready_board (start_board h)" "board_result (start_board h) = 0"
    "ready_board (chipless h)" "board_result (chipless h) = 0"
    using start_board_facts [of h] by (simp_all add: ready_board_def start_board_def led_ready_def chipless_def tx_wf_def)
  have m: "\<exists>m. memtest (byte_memory beyond_window) (\<lambda>_. 0) = Some (0, m)"
    using memtest_loop_passes [OF live_windows order_refl] unfolding memtest_def XST_SUCCESS_def by blast
  have f: "\<exists>fg d. flashtest healthy_flash flash_init [] = Some (Inr (0, fg, d))"
    using flashtest_run [OF healthy_flash_facts] unfolding XST_SUCCESS_def by blast
  have e: "\<exists>e. at508_test chip_bus (idle_lib (chip_bits (replicate 32 7))) = Some (Inr (0, e))"
    "\<exists>e. at508_test chip_bus (idle_lib []) = Some (Inr (0xE7, e))"
    using chip_runs(1) [of "replicate 32 7"] chip_runs(2) by auto
  show "tests_return (good_env B) (start_board h) 0 0 0" "tests_return (good_env B) (chipless h) 0 0 0xE7"
    using m f e by (simp_all add: tests_return_def good_env_def start_board_def chipless_def)
qed



end
